(* ===== verification/Kukuri_Prelude.thy ===== *)
theory Kukuri_Prelude
  imports Main "HOL-Library.Char_ord" "HOL-Library.List_Lexorder" "HOL-Library.Product_Lexorder"
    "HOL-Library.Multiset"
begin

text \<open>
  What every component shares: the error values and the \<open>Result\<close> sequencing of the Rust code,
  its machine integers, its byte strings (a Rust \<open>String\<close> is the list of its UTF-8 bytes, so
  \<open>len\<close>, \<open>Ord\<close> and slicing are those of the byte list), and the ordered map and set of
  \<open>std::collections\<close> as sorted association lists and sorted lists.

  The third-party crates (\<open>secp256k1\<close>, \<open>sha2\<close>, \<open>serde_json\<close>, \<open>hex\<close>, \<open>blake3\<close>,
  \<open>rapier3d\<close>) are never defined here: each definition that calls one takes it as an argument.
\<close>

named_theorems result_simps \<open>rewriting of sequenced results\<close>

section \<open>Errors and results\<close>

text \<open>
  The one typed error the code downcasts out of \<open>anyhow::Error\<close> is the resource rejection, so
  its three enumerations come first
  (\<^verbatim>\<open>crates/core/src/metaverse_resource_budget.rs\<close>).
\<close>

datatype MetaverseBudgetScope = ScopeDome | ScopePlayer | ScopeHost | ScopeClient

datatype MetaverseBudgetResource =
    PersistentProps | GuestProps | TextureBytes | TextureDimension | ModelBytes | ModelTriangles
  | Colliders | RigidBodies | Participants | AvatarAssetBytes | PropSpawnRate | InteractionRate
  | InputBandwidth | ProposalRate | Impulse | SnapshotFrequency | SnapshotBandwidth
  | SessionAssetBytes | RenderedAvatars | TextureMemory | RenderedTriangles | InterpolatedBodies
  | NeighborDomes | CacheCapacity | AssetFormat | AudioFrameRate | AudioBandwidth
  | ConcurrentAudioStreams | AudioJitterFrames

datatype MetaverseResourceRejectionReason =
    LimitExceeded | RateExceeded | InvalidValue | UnverifiedAsset

record MetaverseResourceRejection =
  rej_scope :: MetaverseBudgetScope
  rej_resource :: MetaverseBudgetResource
  rej_reason :: MetaverseResourceRejectionReason
  rej_observed :: nat
  rej_limit :: nat

text \<open>
  An \<open>anyhow::Error\<close>: a \<open>bail!\<close> message, an error under a \<open>.context(\<dots>)\<close> message, an
  error of a named third-party crate, a typed resource rejection, or (where a slice or an
  \<open>expect\<close> could fail) a panic, which is a value of its own so that its absence can be proved.
\<close>

datatype kerror =
    Bail string
  | Context string kerror
  | Foreign string
  | Rejected MetaverseResourceRejection
  | Panic string

type_synonym 'a result = "kerror + 'a"

definition bail :: "string \<Rightarrow> 'a result" where
  "bail m = Inl (Bail m)"

definition rbind :: "'a result \<Rightarrow> ('a \<Rightarrow> 'b result) \<Rightarrow> 'b result" where
  "rbind r f = (case r of Inl e \<Rightarrow> Inl e | Inr x \<Rightarrow> f x)"

definition with_context :: "string \<Rightarrow> 'a result \<Rightarrow> 'a result" where
  "with_context m r = (case r of Inl e \<Rightarrow> Inl (Context m e) | Inr x \<Rightarrow> Inr x)"

definition ok_or :: "string \<Rightarrow> 'a option \<Rightarrow> 'a result" where
  "ok_or m x = (case x of None \<Rightarrow> Inl (Bail m) | Some y \<Rightarrow> Inr y)"

definition foreign :: "string \<Rightarrow> 'a option \<Rightarrow> 'a result" where
  "foreign crate x = (case x of None \<Rightarrow> Inl (Foreign crate) | Some y \<Rightarrow> Inr y)"

definition reject :: "MetaverseResourceRejection \<Rightarrow> 'a result" where
  "reject r = Inl (Rejected r)"

definition expect :: "string \<Rightarrow> 'a option \<Rightarrow> 'a result" where
  "expect m x = (case x of None \<Rightarrow> Inl (Panic m) | Some y \<Rightarrow> Inr y)"

definition slice :: "nat \<Rightarrow> nat \<Rightarrow> 'a list \<Rightarrow> 'a list result" where
  "slice a b xs = (if a \<le> b \<and> b \<le> length xs then Inr (take (b - a) (drop a xs)) else Inl (Panic ''slice''))"

definition ensure :: "bool \<Rightarrow> string \<Rightarrow> unit result" where
  "ensure b m = (if b then Inr () else Inl (Bail m))"

definition is_ok :: "'a result \<Rightarrow> bool" where
  "is_ok r = (case r of Inl _ \<Rightarrow> False | Inr _ \<Rightarrow> True)"

text \<open>A \<open>for\<close> loop whose body may return early with an error, threading a state.\<close>

fun try_fold :: "('s \<Rightarrow> 'a \<Rightarrow> 's result) \<Rightarrow> 's \<Rightarrow> 'a list \<Rightarrow> 's result" where
  "try_fold f s [] = Inr s"
| "try_fold f s (x # xs) = rbind (f s x) (\<lambda>s'. try_fold f s' xs)"

definition try_each :: "('a \<Rightarrow> unit result) \<Rightarrow> 'a list \<Rightarrow> unit result" where
  "try_each f xs = try_fold (\<lambda>_. f) () xs"

lemma rbind_Inl [simp]: "rbind (Inl e) f = Inl e"
  by (simp add: rbind_def)

lemma rbind_Inr [simp]: "rbind (Inr x) f = f x"
  by (simp add: rbind_def)

lemma rbind_cong [fundef_cong]:
  "r = s \<Longrightarrow> (\<And>x. s = Inr x \<Longrightarrow> f x = g x) \<Longrightarrow> rbind r f = rbind s g"
  by (cases s) auto

lemma rbind_eq_Inr [result_simps]: "rbind r f = Inr y \<longleftrightarrow> (\<exists>x. r = Inr x \<and> f x = Inr y)"
  by (cases r) auto

lemma rbind_eq_Inl: "rbind r f = Inl e \<longleftrightarrow> r = Inl e \<or> (\<exists>x. r = Inr x \<and> f x = Inl e)"
  by (cases r) auto

lemma bail_neq_Inr [simp]: "bail m \<noteq> Inr x" "Inr x \<noteq> bail m"
  by (simp_all add: bail_def)

lemma rbind_bail [simp]: "rbind (bail m) f = bail m"
  by (simp add: bail_def)

lemma if_bail_eq_Inr [result_simps]: "(if b then bail m else r) = Inr x \<longleftrightarrow> \<not> b \<and> r = Inr x"
  by simp

lemma if_Inl_eq_Inr [result_simps]: "(if b then Inl e else r) = Inr x \<longleftrightarrow> \<not> b \<and> r = Inr x"
  by simp

lemma ensure_eq_Inr [result_simps]: "ensure b m = Inr u \<longleftrightarrow> b"
  by (simp add: ensure_def)

lemma ok_or_eq_Inr [result_simps]: "ok_or m x = Inr y \<longleftrightarrow> x = Some y"
  by (simp add: ok_or_def split: option.split)

lemma expect_eq_Inr [result_simps]: "expect m x = Inr y \<longleftrightarrow> x = Some y"
  by (simp add: expect_def split: option.split)

lemma reject_eq_Inr [simp]: "reject r \<noteq> Inr x" "Inr x \<noteq> reject r"
  by (simp_all add: reject_def)

lemma expect_simps [simp]: "expect m (Some y) = Inr y" "expect m None = Inl (Panic m)"
  by (simp_all add: expect_def)

lemma slice_eq_Inr [result_simps]:
  "slice a b xs = Inr ys \<longleftrightarrow> a \<le> b \<and> b \<le> length xs \<and> ys = take (b - a) (drop a xs)"
  by (auto simp: slice_def)

lemma slice_ok [simp]: "a \<le> b \<Longrightarrow> b \<le> length xs \<Longrightarrow> slice a b xs = Inr (take (b - a) (drop a xs))"
  by (simp add: slice_def)

lemma foreign_eq_Inr [result_simps]: "foreign c x = Inr y \<longleftrightarrow> x = Some y"
  by (simp add: foreign_def split: option.split)

lemma with_context_eq_Inr [result_simps]: "with_context m r = Inr x \<longleftrightarrow> r = Inr x"
  by (simp add: with_context_def split: sum.split)

lemma ok_or_simps [simp]: "ok_or m (Some y) = Inr y" "ok_or m None = Inl (Bail m)"
  by (simp_all add: ok_or_def)

lemma foreign_simps [simp]: "foreign m (Some y) = Inr y" "foreign m None = Inl (Foreign m)"
  by (simp_all add: foreign_def)

lemma with_context_simps [simp]:
  "with_context m (Inr y) = Inr y" "with_context m (Inl e) = Inl (Context m e)"
  by (simp_all add: with_context_def)

lemma ensure_simps [simp]: "ensure True m = Inr ()" "ensure False m = Inl (Bail m)"
  by (simp_all add: ensure_def)

lemma is_ok_iff: "is_ok r \<longleftrightarrow> (\<exists>x. r = Inr x)"
  by (cases r) (simp_all add: is_ok_def)

lemma is_ok_simps [simp]: "is_ok (Inr x)" "\<not> is_ok (Inl e)" "\<not> is_ok (bail m)"
  by (simp_all add: is_ok_def bail_def)

lemma is_ok_rbind: "is_ok (rbind r f) \<longleftrightarrow> (\<exists>x. r = Inr x \<and> is_ok (f x))"
  by (cases r) auto

lemma unit_result_cases: "r = Inr () \<or> (\<exists>e. r = Inl e)" for r :: "unit result"
  by (cases r) auto

lemma is_ok_unit: "is_ok r \<longleftrightarrow> r = Inr ()" for r :: "unit result"
  by (cases r) auto

lemma try_fold_append:
  "try_fold f s (xs @ ys) = rbind (try_fold f s xs) (\<lambda>s'. try_fold f s' ys)"
proof (induction xs arbitrary: s)
  case (Cons x xs)
  then show ?case by (cases "f s x") simp_all
qed simp

text \<open>The loop rule: an invariant that the body keeps holds of the final state.\<close>

lemma try_fold_invariant:
  assumes "try_fold f s xs = Inr t" and "I s"
    and "\<And>s x s'. I s \<Longrightarrow> x \<in> set xs \<Longrightarrow> f s x = Inr s' \<Longrightarrow> I s'"
  shows "I t"
  using assms
proof (induction xs arbitrary: s)
  case (Cons x xs)
  from Cons.prems(1) obtain s' where s': "f s x = Inr s'" and t: "try_fold f s' xs = Inr t"
    by (auto simp: rbind_eq_Inr)
  have "I s'" by (rule Cons.prems(3) [OF Cons.prems(2) _ s']) simp
  with t show ?case by (rule Cons.IH) (auto intro: Cons.prems(3))
qed simp

text \<open>The same with the elements processed so far in the invariant.\<close>

lemma try_fold_prefix:
  assumes "try_fold f s xs = Inr t" and "P [] s"
    and "\<And>ys s x s'. P ys s \<Longrightarrow> f s x = Inr s' \<Longrightarrow> P (ys @ [x]) s'"
  shows "P xs t"
  using assms(1)
proof (induction xs arbitrary: t rule: rev_induct)
  case Nil
  then show ?case using assms(2) by simp
next
  case (snoc x xs)
  then obtain s1 where s1: "try_fold f s xs = Inr s1" and t: "f s1 x = Inr t"
    by (auto simp: try_fold_append rbind_eq_Inr)
  from snoc.IH [OF s1] t show ?case by (rule assms(3))
qed

lemma try_fold_Inl:
  "try_fold f s xs = Inl e \<Longrightarrow> \<exists>s' x. x \<in> set xs \<and> f s' x = Inl e"
proof (induction xs arbitrary: s)
  case (Cons x xs)
  show ?case
  proof (cases "f s x")
    case (Inl e')
    with Cons.prems show ?thesis by auto
  next
    case (Inr s')
    with Cons.prems Cons.IH [of s'] show ?thesis by auto
  qed
qed simp

lemma try_each_Inl: "try_each f xs = Inl e \<Longrightarrow> \<exists>x \<in> set xs. f x = Inl e"
  unfolding try_each_def using try_fold_Inl by fastforce

lemma try_each_eq_Inr: "try_each f xs = Inr u \<longleftrightarrow> (\<forall>x \<in> set xs. f x = Inr ())"
proof -
  have "try_fold (\<lambda>_. f) s xs = Inr u \<longleftrightarrow> (\<forall>x \<in> set xs. f x = Inr ())" for s :: unit
    by (induction xs) (auto simp: rbind_eq_Inr)
  then show ?thesis by (simp add: try_each_def)
qed

section \<open>Methods\<close>

text \<open>
  A method on \<open>&mut self\<close> that returns a \<open>Result\<close> is a function of the state to the result and the
  state it leaves behind, also when it fails.
\<close>

type_synonym ('s, 'a) host_op = "'s \<Rightarrow> 'a result \<times> 's"

definition mbind :: "('s, 'a) host_op \<Rightarrow> ('a \<Rightarrow> ('s, 'b) host_op) \<Rightarrow> ('s, 'b) host_op" where
  "mbind m f s = (case m s of (Inl e, t) \<Rightarrow> (Inl e, t) | (Inr x, t) \<Rightarrow> f x t)"

definition mlift :: "'a result \<Rightarrow> ('s, 'a) host_op" where
  "mlift r s = (r, s)"

definition mget :: "('s \<Rightarrow> 'a) \<Rightarrow> ('s, 'a) host_op" where
  "mget g s = (Inr (g s), s)"

definition mmod :: "('s \<Rightarrow> 's) \<Rightarrow> ('s, unit) host_op" where
  "mmod h s = (Inr (), h s)"

named_theorems op_simps \<open>running methods\<close>

lemma mbind_Inr [op_simps]: "mbind m f s = (Inr y, t) \<longleftrightarrow> (\<exists>x u. m s = (Inr x, u) \<and> f x u = (Inr y, t))"
  by (auto simp: mbind_def split: prod.splits sum.splits)

lemma mbind_Inl: "mbind m f s = (Inl e, t) \<longleftrightarrow> m s = (Inl e, t) \<or> (\<exists>x u. m s = (Inr x, u) \<and> f x u = (Inl e, t))"
  by (auto simp: mbind_def split: prod.splits sum.splits)

lemma mlift_eq [op_simps]: "mlift r s = (q, t) \<longleftrightarrow> q = r \<and> t = s"
  by (auto simp: mlift_def)

lemma mget_eq [op_simps]: "mget g s = (q, t) \<longleftrightarrow> q = Inr (g s) \<and> t = s"
  by (auto simp: mget_def)

lemma mmod_eq [op_simps]: "mmod h s = (q, t) \<longleftrightarrow> q = Inr () \<and> t = h s"
  by (auto simp: mmod_def)

section \<open>Machine integers\<close>

text \<open>
  A signed 64-bit value is an \<open>int\<close> and an unsigned one a \<open>nat\<close>; the bounds, the wrap-around
  of the release build and the saturating operations are written out where the code depends on
  them.
\<close>

type_synonym i64 = int
type_synonym u64 = nat
type_synonym u32 = nat

abbreviation i64_min :: int where "i64_min \<equiv> - (2 ^ 63)"
abbreviation i64_max :: int where "i64_max \<equiv> 2 ^ 63 - 1"
abbreviation u64_max :: nat where "u64_max \<equiv> 2 ^ 64 - 1"
abbreviation u32_max :: nat where "u32_max \<equiv> 2 ^ 32 - 1"

definition is_i64 :: "int \<Rightarrow> bool" where
  "is_i64 z \<longleftrightarrow> i64_min \<le> z \<and> z \<le> i64_max"

definition wrap_i64 :: "int \<Rightarrow> int" where
  "wrap_i64 z = (z + 2 ^ 63) mod 2 ^ 64 - 2 ^ 63"

definition sat_i64 :: "int \<Rightarrow> int" where
  "sat_i64 z = max i64_min (min i64_max z)"

definition sat_u64 :: "nat \<Rightarrow> nat" where
  "sat_u64 n = min u64_max n"

definition sat_u32 :: "nat \<Rightarrow> nat" where
  "sat_u32 n = min u32_max n"

text \<open>Rust's integer division truncates towards zero.\<close>

definition tdiv :: "int \<Rightarrow> int \<Rightarrow> int" where
  "tdiv a b = (if (a < 0) = (b < 0) then \<bar>a\<bar> div \<bar>b\<bar> else - (\<bar>a\<bar> div \<bar>b\<bar>))"

lemma wrap_i64_id: "is_i64 z \<Longrightarrow> wrap_i64 z = z"
  by (simp add: is_i64_def wrap_i64_def)

lemma is_i64_wrap [simp]: "is_i64 (wrap_i64 z)"
proof -
  have "0 \<le> (z + 2 ^ 63) mod 2 ^ 64" and "(z + 2 ^ 63) mod 2 ^ 64 < (2::int) ^ 64"
    by simp_all
  then show ?thesis by (simp add: is_i64_def wrap_i64_def)
qed

lemma sat_i64_id: "is_i64 z \<Longrightarrow> sat_i64 z = z"
  by (auto simp: is_i64_def sat_i64_def)

lemma is_i64_sat [simp]: "is_i64 (sat_i64 z)"
  by (simp add: is_i64_def sat_i64_def)

lemma sat_i64_mono: "a \<le> b \<Longrightarrow> sat_i64 a \<le> sat_i64 b"
  by (auto simp: sat_i64_def max_def min_def)

lemma sat_u64_id: "n \<le> u64_max \<Longrightarrow> sat_u64 n = n"
  by (simp add: sat_u64_def)

lemma sat_u64_le: "sat_u64 n \<le> L \<Longrightarrow> L < u64_max \<Longrightarrow> sat_u64 n = n"
  by (auto simp: sat_u64_def min_def split: if_splits)

lemma tdiv_nonneg: "0 \<le> a \<Longrightarrow> 0 < b \<Longrightarrow> tdiv a b = a div b"
  by (simp add: tdiv_def)

lemma tdiv_neg: "a < 0 \<Longrightarrow> 0 < b \<Longrightarrow> tdiv a b = - ((- a) div b)"
  by (simp add: tdiv_def)

section \<open>Options and indexing\<close>

definition opt_filter :: "('a \<Rightarrow> bool) \<Rightarrow> 'a option \<Rightarrow> 'a option" where
  "opt_filter P x = (case x of Some v \<Rightarrow> if P v then Some v else None | None \<Rightarrow> None)"

definition opt_or :: "'a option \<Rightarrow> 'a option \<Rightarrow> 'a option" where
  "opt_or x y = (case x of Some v \<Rightarrow> Some v | None \<Rightarrow> y)"

text \<open>\<open>slice.get(i)\<close>.\<close>

definition nth_opt :: "'a list \<Rightarrow> nat \<Rightarrow> 'a option" where
  "nth_opt xs i = (if i < length xs then Some (xs ! i) else None)"

lemma opt_filter_simps [simp]:
  "opt_filter P None = None" "opt_filter P (Some v) = (if P v then Some v else None)"
  by (simp_all add: opt_filter_def)

lemma opt_or_simps [simp]: "opt_or (Some v) y = Some v" "opt_or None y = y"
  by (simp_all add: opt_or_def)

lemma opt_filter_Some: "opt_filter P x = Some v \<longleftrightarrow> x = Some v \<and> P v"
  by (auto simp: opt_filter_def split: option.split)

section \<open>Absence of panics\<close>

fun is_panic :: "kerror \<Rightarrow> bool" where
  "is_panic (Panic _) = True"
| "is_panic (Context _ e) = is_panic e"
| "is_panic _ = False"

definition no_panic :: "'a result \<Rightarrow> bool" where
  "no_panic r = (case r of Inl e \<Rightarrow> \<not> is_panic e | Inr _ \<Rightarrow> True)"

named_theorems no_panic_rules \<open>how the absence of panics composes\<close>

lemma no_panic_simps [simp]:
  "no_panic (Inr x)" "no_panic (bail m)" "no_panic (ok_or m o1)" "no_panic (foreign m o1)"
  "no_panic (reject rj)" "no_panic (ensure b m)" "no_panic (Inl e) \<longleftrightarrow> \<not> is_panic e"
  by (auto simp: no_panic_def bail_def ok_or_def foreign_def reject_def ensure_def split: option.split)

lemma no_panic_with_context [simp]: "no_panic (with_context m r) \<longleftrightarrow> no_panic r"
  by (cases r) (auto simp: no_panic_def)

lemma no_panic_rbind [no_panic_rules]:
  "no_panic r \<Longrightarrow> (\<And>x. r = Inr x \<Longrightarrow> no_panic (f x)) \<Longrightarrow> no_panic (rbind r f)"
  by (cases r) (auto simp: no_panic_def)

lemma no_panic_if [no_panic_rules]:
  "(b \<Longrightarrow> no_panic r) \<Longrightarrow> (\<not> b \<Longrightarrow> no_panic s) \<Longrightarrow> no_panic (if b then r else s)"
  by simp

lemma no_panic_try_fold [no_panic_rules]:
  "(\<And>s x. x \<in> set xs \<Longrightarrow> no_panic (f s x)) \<Longrightarrow> no_panic (try_fold f s xs)"
proof (induction xs arbitrary: s)
  case (Cons x xs)
  then show ?case by (auto intro!: no_panic_rbind)
qed simp

lemma no_panic_try_fold_inv:
  assumes "I s" "\<And>s x s'. I s \<Longrightarrow> f s x = Inr s' \<Longrightarrow> I s'" "\<And>s x. I s \<Longrightarrow> no_panic (f s x)"
  shows "no_panic (try_fold f s xs)"
  using assms(1)
proof (induction xs arbitrary: s)
  case (Cons x xs)
  show ?case
  proof (cases "f s x")
    case (Inl e)
    with assms(3) [OF Cons.prems, of x] show ?thesis by simp
  next
    case (Inr s')
    with Cons.IH assms(2) [OF Cons.prems] show ?thesis by simp
  qed
qed simp

lemma no_panic_try_each [no_panic_rules]:
  "(\<And>x. x \<in> set xs \<Longrightarrow> no_panic (f x)) \<Longrightarrow> no_panic (try_each f xs)"
  unfolding try_each_def by (rule no_panic_try_fold)

end
