(* ===== verification/Rust_Strings.thy ===== *)
theory Rust_Strings
  imports Kukuri_Prelude
begin

text \<open>
  The string operations of the Rust standard library that the code uses, on the UTF-8 bytes of
  a \<open>String\<close>: trimming of Unicode white space, prefix tests, character counts, ASCII classes,
  and the decimal text of integers with its parser.
\<close>

section \<open>White space and trimming\<close>

text \<open>
  The code points with the Unicode property \<open>White_Space\<close> are encoded in one byte (tab to
  carriage return, space), in two (U+0085, U+00A0) or in three (U+1680, U+2000 to U+200A, U+2028,
  U+2029, U+202F, U+205F, U+3000).
\<close>

definition white1 :: "char \<Rightarrow> bool" where
  "white1 c \<longleftrightarrow> c \<in> {CHR 0x09, CHR 0x0A, CHR 0x0B, CHR 0x0C, CHR 0x0D, CHR 0x20}"

definition white2 :: "char \<Rightarrow> char \<Rightarrow> bool" where
  "white2 c d \<longleftrightarrow> c = CHR 0xC2 \<and> d \<in> {CHR 0x85, CHR 0xA0}"

definition white3 :: "char \<Rightarrow> char \<Rightarrow> char \<Rightarrow> bool" where
  "white3 c d e \<longleftrightarrow>
     (c, d, e) \<in> {(CHR 0xE1, CHR 0x9A, CHR 0x80), (CHR 0xE2, CHR 0x81, CHR 0x9F),
       (CHR 0xE3, CHR 0x80, CHR 0x80)} \<or>
     c = CHR 0xE2 \<and> d = CHR 0x80 \<and>
       e \<in> {CHR 0x80, CHR 0x81, CHR 0x82, CHR 0x83, CHR 0x84, CHR 0x85, CHR 0x86, CHR 0x87,
         CHR 0x88, CHR 0x89, CHR 0x8A, CHR 0xA8, CHR 0xA9, CHR 0xAF}"

definition skip_by :: "(char \<Rightarrow> char \<Rightarrow> bool) \<Rightarrow> (char \<Rightarrow> char \<Rightarrow> char \<Rightarrow> bool) \<Rightarrow> string \<Rightarrow> string option" where
  "skip_by w2 w3 s = (case s of
     [] \<Rightarrow> None
   | c # t \<Rightarrow> if white1 c then Some t else (case t of
       [] \<Rightarrow> None
     | d # u \<Rightarrow> if w2 c d then Some u else (case u of
         [] \<Rightarrow> None
       | e # v \<Rightarrow> if w3 c d e then Some v else None)))"

text \<open>One white-space character at the front, and one at the back of the reversed string.\<close>

definition skip_front :: "string \<Rightarrow> string option" where
  "skip_front = skip_by white2 white3"

definition skip_back :: "string \<Rightarrow> string option" where
  "skip_back = skip_by (\<lambda>d c. white2 c d) (\<lambda>e d c. white3 c d e)"

lemma skip_by_shorter: "skip_by w2 w3 s = Some t \<Longrightarrow> length t < length s"
  by (auto simp: skip_by_def split: list.splits if_splits)

function drop_white :: "(string \<Rightarrow> string option) \<Rightarrow> string \<Rightarrow> string" where
  "drop_white skip s = (case skip s of
     None \<Rightarrow> s
   | Some t \<Rightarrow> if length t < length s then drop_white skip t else s)"
  by pat_completeness auto
termination by (relation "measure (\<lambda>(_, s). length s)") auto

declare drop_white.simps [simp del]

definition trim_start :: "string \<Rightarrow> string" where
  "trim_start s = drop_white skip_front s"

definition trim_end :: "string \<Rightarrow> string" where
  "trim_end s = rev (drop_white skip_back (rev s))"

definition trim :: "string \<Rightarrow> string" where
  "trim s = trim_end (trim_start s)"

lemma skip_by_append: "skip_by w2 w3 s = Some t \<Longrightarrow> skip_by w2 w3 (s @ x) = Some (t @ x)"
  by (auto simp: skip_by_def split: list.splits if_splits)

lemma drop_white_suffix: "\<exists>x. s = x @ drop_white (skip_by w2 w3) s"
proof (induction "skip_by w2 w3" s rule: drop_white.induct)
  case (1 s)
  show ?case
  proof (cases "skip_by w2 w3 s")
    case None
    then show ?thesis by (subst drop_white.simps) simp
  next
    case (Some t)
    then have "\<exists>y. s = y @ t"
      by (auto simp: skip_by_def split: list.splits if_splits)
    moreover have "\<exists>x. t = x @ drop_white (skip_by w2 w3) t"
      using 1 [OF Some] skip_by_shorter [OF Some] by simp
    moreover have "drop_white (skip_by w2 w3) s = drop_white (skip_by w2 w3) t"
      using Some skip_by_shorter [OF Some] by (subst drop_white.simps) simp
    ultimately show ?thesis
      by (metis append.assoc)
  qed
qed

lemma skip_drop_white: "skip_by w2 w3 (drop_white (skip_by w2 w3) s) = None"
proof (induction "skip_by w2 w3" s rule: drop_white.induct)
  case (1 s)
  show ?case
  proof (cases "skip_by w2 w3 s")
    case None
    then show ?thesis by (subst drop_white.simps) simp
  next
    case (Some t)
    then show ?thesis using 1 [OF Some] skip_by_shorter [OF Some]
      by (subst drop_white.simps) simp
  qed
qed

lemma drop_white_fixed: "skip s = None \<Longrightarrow> drop_white skip s = s"
  by (subst drop_white.simps) simp

lemma skip_by_prefix_None: "skip_by w2 w3 (s @ x) = None \<Longrightarrow> skip_by w2 w3 s = None"
  using skip_by_append by (cases "skip_by w2 w3 s") fastforce+

lemma trim_end_prefix: "\<exists>x. s = trim_end s @ x"
proof -
  obtain x where "rev s = x @ drop_white skip_back (rev s)"
    unfolding skip_back_def using drop_white_suffix by blast
  then have "s = rev (drop_white skip_back (rev s)) @ rev x"
    by (metis rev_append rev_rev_ident)
  then show ?thesis unfolding trim_end_def by blast
qed

lemma skip_front_trim: "skip_front (trim s) = None"
proof -
  obtain x where "trim_start s = trim s @ x"
    unfolding trim_def using trim_end_prefix by blast
  moreover have "skip_front (trim_start s) = None"
    by (simp add: trim_start_def skip_front_def skip_drop_white)
  ultimately show ?thesis
    unfolding skip_front_def using skip_by_prefix_None by metis
qed

lemma skip_back_trim: "skip_back (rev (trim s)) = None"
  by (simp add: trim_def trim_end_def skip_back_def skip_drop_white)

lemma trim_trim [simp]: "trim (trim s) = trim s"
proof -
  have "trim_start (trim s) = trim s"
    by (simp add: trim_start_def skip_front_trim drop_white_fixed)
  moreover have "trim_end (trim s) = trim s"
    by (simp add: trim_end_def skip_back_trim drop_white_fixed)
  ultimately show ?thesis
    by (metis trim_def)
qed

lemma trim_fixed_iff: "trim s = s \<longleftrightarrow> skip_front s = None \<and> skip_back (rev s) = None"
proof
  assume "trim s = s"
  then show "skip_front s = None \<and> skip_back (rev s) = None"
    using skip_front_trim [of s] skip_back_trim [of s] by simp
next
  assume "skip_front s = None \<and> skip_back (rev s) = None"
  then show "trim s = s"
    by (simp add: trim_def trim_start_def trim_end_def drop_white_fixed)
qed

lemma trim_Nil [simp]: "trim [] = []"
  by (simp add: trim_fixed_iff skip_front_def skip_back_def skip_by_def)

lemma length_trim_le: "length (trim s) \<le> length s"
proof -
  obtain x where "s = x @ trim_start s"
    unfolding trim_start_def skip_front_def using drop_white_suffix by blast
  then have "length (trim_start s) \<le> length s"
    by (metis le_add2 length_append)
  moreover obtain y where "trim_start s = trim s @ y"
    unfolding trim_def using trim_end_prefix by blast
  then have "length (trim s) \<le> length (trim_start s)"
    by (metis le_add1 length_append)
  ultimately show ?thesis by simp
qed

section \<open>Character counts, classes and prefixes\<close>

text \<open>\<open>chars().count()\<close>: every byte that is not a continuation byte starts a character.\<close>

definition is_continuation :: "char \<Rightarrow> bool" where
  "is_continuation c \<longleftrightarrow> CHR 0x80 \<le> c \<and> c < CHR 0xC0"

definition chars_count :: "string \<Rightarrow> nat" where
  "chars_count s = length (filter (\<lambda>c. \<not> is_continuation c) s)"

definition ascii_digit :: "char \<Rightarrow> bool" where
  "ascii_digit c \<longleftrightarrow> CHR ''0'' \<le> c \<and> c \<le> CHR ''9''"

definition ascii_lower :: "char \<Rightarrow> bool" where
  "ascii_lower c \<longleftrightarrow> CHR ''a'' \<le> c \<and> c \<le> CHR ''z''"

definition ascii_upper :: "char \<Rightarrow> bool" where
  "ascii_upper c \<longleftrightarrow> CHR ''A'' \<le> c \<and> c \<le> CHR ''Z''"

definition ascii_alphanumeric :: "char \<Rightarrow> bool" where
  "ascii_alphanumeric c \<longleftrightarrow> ascii_digit c \<or> ascii_lower c \<or> ascii_upper c"

definition ascii_hexdigit :: "char \<Rightarrow> bool" where
  "ascii_hexdigit c \<longleftrightarrow> ascii_digit c \<or> (CHR ''a'' \<le> c \<and> c \<le> CHR ''f'') \<or> (CHR ''A'' \<le> c \<and> c \<le> CHR ''F'')"

definition to_ascii_lower :: "char \<Rightarrow> char" where
  "to_ascii_lower c = (if ascii_upper c then char_of (of_char c + (32 :: nat)) else c)"

definition to_ascii_lowercase :: "string \<Rightarrow> string" where
  "to_ascii_lowercase s = map to_ascii_lower s"

definition starts_with :: "string \<Rightarrow> string \<Rightarrow> bool" where
  "starts_with p s \<longleftrightarrow> take (length p) s = p"

definition strip_prefix :: "string \<Rightarrow> string \<Rightarrow> string option" where
  "strip_prefix p s = (if starts_with p s then Some (drop (length p) s) else None)"

text \<open>\<open>split_once\<close> at a one-byte separator.\<close>

fun split_once :: "char \<Rightarrow> string \<Rightarrow> (string \<times> string) option" where
  "split_once sep [] = None"
| "split_once sep (c # s) =
     (if c = sep then Some ([], s)
      else (case split_once sep s of None \<Rightarrow> None | Some (a, b) \<Rightarrow> Some (c # a, b)))"

lemma starts_with_append [simp]: "starts_with p (p @ s)"
  by (simp add: starts_with_def)

lemma strip_prefix_append [simp]: "strip_prefix p (p @ s) = Some s"
  by (simp add: strip_prefix_def)

lemma strip_prefix_Some: "strip_prefix p s = Some t \<longleftrightarrow> s = p @ t"
  by (auto simp: strip_prefix_def starts_with_def) (metis append_take_drop_id)

lemma split_once_append: "sep \<notin> set a \<Longrightarrow> split_once sep (a @ sep # b) = Some (a, b)"
  by (induction a) auto

lemma split_once_Some: "split_once sep s = Some (a, b) \<longleftrightarrow> s = a @ sep # b \<and> sep \<notin> set a"
proof
  show "split_once sep s = Some (a, b) \<Longrightarrow> s = a @ sep # b \<and> sep \<notin> set a"
    by (induction s arbitrary: a) (auto split: if_splits option.splits)
qed (auto simp: split_once_append)

lemma split_once_None: "split_once sep s = None \<longleftrightarrow> sep \<notin> set s"
  by (induction s) (auto split: option.split)

text \<open>Trimming keeps every ASCII letter and digit.\<close>

lemma alphanumeric_not_white:
  assumes "ascii_alphanumeric c"
  shows "\<not> white1 c" "\<not> white2 c d" "\<not> white2 d c"
    "\<not> white3 c d e" "\<not> white3 d c e" "\<not> white3 d e c"
  using assms
  by (auto simp: ascii_alphanumeric_def ascii_digit_def ascii_lower_def ascii_upper_def white1_def
      white2_def white3_def)

lemma skip_by_keeps:
  assumes "skip_by w2 w3 s = Some t" "c \<in> set s" "\<not> white1 c"
    and "\<And>d. \<not> w2 c d \<and> \<not> w2 d c" "\<And>d e. \<not> w3 c d e \<and> \<not> w3 d c e \<and> \<not> w3 d e c"
  shows "c \<in> set t"
  using assms by (auto simp: skip_by_def split: list.splits if_splits)

lemma drop_white_keeps:
  assumes "\<And>s t. skip s = Some t \<Longrightarrow> c \<in> set s \<Longrightarrow> c \<in> set t" "c \<in> set s"
  shows "c \<in> set (drop_white skip s)"
  using assms
proof (induction skip s rule: drop_white.induct)
  case (1 skip s)
  then show ?case by (subst drop_white.simps) (auto split: option.split)
qed

lemma trim_keeps: "ascii_alphanumeric c \<Longrightarrow> c \<in> set s \<Longrightarrow> c \<in> set (trim s)"
proof -
  assume c: "ascii_alphanumeric c" and s: "c \<in> set s"
  have "c \<in> set t" if "skip_front s = Some t" "c \<in> set s" for s t
    using skip_by_keeps [OF that [unfolded skip_front_def]] alphanumeric_not_white [OF c] by simp
  then have "c \<in> set (trim_start s)"
    unfolding trim_start_def using s by (intro drop_white_keeps) auto
  moreover have "c \<in> set t" if "skip_back s = Some t" "c \<in> set s" for s t
    using skip_by_keeps [OF that [unfolded skip_back_def]] alphanumeric_not_white [OF c] by simp
  ultimately show ?thesis
    unfolding trim_def trim_end_def using drop_white_keeps [of skip_back c] by simp
qed

lemma trim_nonblank: "list_ex ascii_alphanumeric s \<Longrightarrow> trim s \<noteq> []"
proof -
  assume "list_ex ascii_alphanumeric s"
  then obtain c where "ascii_alphanumeric c" "c \<in> set s" by (auto simp: list_ex_iff)
  then have "c \<in> set (trim s)" by (rule trim_keeps)
  then show ?thesis by auto
qed

section \<open>Decimal text\<close>

definition digit_char :: "nat \<Rightarrow> char" where
  "digit_char d = char_of (48 + d)"

fun show_nat :: "nat \<Rightarrow> string" where
  "show_nat n = (if n < 10 then [digit_char n] else show_nat (n div 10) @ [digit_char (n mod 10)])"

declare show_nat.simps [simp del]

text \<open>The digits as a table, for evaluation.\<close>

definition digit_of :: "nat \<Rightarrow> char" where
  "digit_of d = ''0123456789'' ! d"

lemma digit_of_char: "d < 10 \<Longrightarrow> digit_of d = digit_char d"
proof -
  have "\<forall>d \<in> set [0 ..< 10]. digit_of d = digit_char d"
    by (simp add: upt_conv_Cons digit_of_def digit_char_def char_of_def bit_iff_odd)
  then show "d < 10 \<Longrightarrow> ?thesis" by simp
qed

lemma show_nat_code [code]: "show_nat n = (if n < 10 then [digit_of n] else show_nat (n div 10) @ [digit_of (n mod 10)])"
  by (subst show_nat.simps) (simp add: digit_of_char)

definition show_int :: "int \<Rightarrow> string" where
  "show_int z = (if z < 0 then CHR ''-'' # show_nat (nat (- z)) else show_nat (nat z))"

text \<open>The format \<open>{:020}\<close>: zeros between the sign and the digits up to twenty characters.\<close>

definition pad20 :: "int \<Rightarrow> string" where
  "pad20 z = (if z < 0
     then CHR ''-'' # replicate (19 - length (show_nat (nat (- z)))) (CHR ''0'') @ show_nat (nat (- z))
     else replicate (20 - length (show_nat (nat z))) (CHR ''0'') @ show_nat (nat z))"

definition digit_value :: "char \<Rightarrow> nat option" where
  "digit_value c = (if ascii_digit c then Some (of_char c - 48) else None)"

fun read_digits :: "nat \<Rightarrow> string \<Rightarrow> nat option" where
  "read_digits acc [] = Some acc"
| "read_digits acc (c # s) = (case digit_value c of
     None \<Rightarrow> None
   | Some d \<Rightarrow> read_digits (10 * acc + d) s)"

text \<open>\<open>str::parse::<i64>\<close>: an optional sign and at least one digit, in range.\<close>

definition parse_magnitude :: "string \<Rightarrow> nat option" where
  "parse_magnitude s = (if s = [] then None else read_digits 0 s)"

definition parse_i64 :: "string \<Rightarrow> int option" where
  "parse_i64 s = (
     let z = (case s of
         [] \<Rightarrow> None
       | c # t \<Rightarrow> if c = CHR ''-'' then map_option (\<lambda>n. - int n) (parse_magnitude t)
           else if c = CHR ''+'' then map_option int (parse_magnitude t)
           else map_option int (parse_magnitude s))
     in case z of None \<Rightarrow> None | Some v \<Rightarrow> if is_i64 v then Some v else None)"

lemma of_char_digit_char: "d < 10 \<Longrightarrow> of_char (digit_char d) = 48 + d" for d :: nat
  by (simp add: digit_char_def)

lemma digit_value_digit_char [simp]: "d < 10 \<Longrightarrow> digit_value (digit_char d) = Some d"
  by (simp add: digit_value_def ascii_digit_def less_eq_char_def of_char_digit_char)

lemma read_digits_append:
  "read_digits acc (s @ t) = (case read_digits acc s of None \<Rightarrow> None | Some v \<Rightarrow> read_digits v t)"
  by (induction s arbitrary: acc) (auto split: option.split)

lemma read_digits_zeros: "read_digits 0 (replicate k (CHR ''0'') @ s) = read_digits 0 s"
  by (induction k) (auto simp: digit_value_def ascii_digit_def)

lemma read_digits_show_nat [simp]: "read_digits 0 (show_nat n) = Some n"
proof (induction n rule: show_nat.induct)
  case (1 n)
  then show ?case by (subst show_nat.simps) (auto simp: read_digits_append)
qed

lemma show_nat_neq_Nil [simp]: "show_nat n \<noteq> []"
  by (subst show_nat.simps) simp

lemma show_nat_inject [simp]: "show_nat m = show_nat n \<longleftrightarrow> m = n"
  by (metis option.inject read_digits_show_nat)

lemma show_nat_digits: "list_all ascii_digit (show_nat n)"
proof (induction n rule: show_nat.induct)
  case (1 n)
  have "ascii_digit (digit_char d)" if "d < 10" for d
    using that by (simp add: ascii_digit_def less_eq_char_def of_char_digit_char)
  with 1 show ?case by (subst show_nat.simps) auto
qed

lemma ascii_digit_not_sign [simp]: "\<not> ascii_digit (CHR ''-'')" "\<not> ascii_digit (CHR ''+'')"
  by (simp_all add: ascii_digit_def)

lemma parse_magnitude_show_nat [simp]: "parse_magnitude (show_nat n) = Some n"
  by (simp add: parse_magnitude_def)

lemma parse_i64_show_int: "is_i64 z \<Longrightarrow> parse_i64 (show_int z) = Some z"
proof (cases "z < 0")
  case True
  then show "is_i64 z \<Longrightarrow> ?thesis" by (simp add: show_int_def parse_i64_def)
next
  case False
  obtain c s where cs: "show_nat (nat z) = c # s"
    by (cases "show_nat (nat z)") simp_all
  then have c: "c \<noteq> CHR ''-''" "c \<noteq> CHR ''+''"
    using show_nat_digits [of "nat z"] by auto
  have pm: "parse_magnitude (c # s) = Some (nat z)"
    by (metis cs parse_magnitude_show_nat)
  assume "is_i64 z"
  then show ?thesis
    using False c pm by (simp add: show_int_def parse_i64_def cs)
qed

lemma length_show_nat: "n < 10 ^ k \<Longrightarrow> 0 < k \<Longrightarrow> length (show_nat n) \<le> k"
proof (induction k arbitrary: n)
  case (Suc k)
  show ?case
  proof (cases "n < 10")
    case True
    then show ?thesis by (subst show_nat.simps) simp
  next
    case False
    then have "0 < k" using Suc.prems(1) by (cases k) simp_all
    moreover have "n div 10 < 10 ^ k" using Suc.prems(1) by (simp add: less_mult_imp_div_less mult.commute)
    ultimately have "length (show_nat (n div 10)) \<le> k" using Suc.IH by simp
    with False show ?thesis by (subst show_nat.simps) simp
  qed
qed simp

subsection \<open>Digit strings of one length are ordered as their values\<close>

lemma digit_value_mono:
  "digit_value c = Some a \<Longrightarrow> digit_value d = Some b \<Longrightarrow> (c < d \<longleftrightarrow> a < b) \<and> (c = d \<longleftrightarrow> a = b) \<and> a < 10"
  by (auto simp: digit_value_def ascii_digit_def less_eq_char_def less_char_def split: if_splits)
     (metis add_diff_inverse_nat not_less of_char_eq_iff)

lemma read_digits_bounds:
  "read_digits acc s = Some v \<Longrightarrow> acc * 10 ^ length s \<le> v \<and> v < (acc + 1) * 10 ^ length s"
proof (induction s arbitrary: acc)
  case (Cons c s)
  then obtain d where d: "digit_value c = Some d" and v: "read_digits (10 * acc + d) s = Some v"
    by (auto split: option.splits)
  have "d < 10" using digit_value_mono [OF d d] by simp
  have "(10 * acc + d) * 10 ^ length s \<le> v" and lt: "v < (10 * acc + d + 1) * 10 ^ length s"
    using Cons.IH [OF v] by simp_all
  moreover have "acc * 10 ^ length (c # s) \<le> (10 * acc + d) * 10 ^ length s"
    by (simp add: algebra_simps)
  moreover have "(10 * acc + d + 1) * 10 ^ length s \<le> (10 * acc + 10) * 10 ^ length s"
    using \<open>d < 10\<close> by (intro mult_right_mono) simp_all
  moreover have "(10 * acc + 10) * 10 ^ length s = (acc + 1) * 10 ^ length (c # s)"
    by (simp add: algebra_simps)
  ultimately show ?case by linarith
qed simp

lemma read_digits_less:
  assumes "length s = length t" "read_digits a s = Some v" "read_digits b t = Some w" "a < b"
  shows "v < w"
proof -
  have "v < (a + 1) * 10 ^ length s" and "b * 10 ^ length s \<le> w"
    using assms read_digits_bounds by metis+
  moreover have "(a + 1) * 10 ^ length s \<le> b * 10 ^ length s"
    using \<open>a < b\<close> by (intro mult_right_mono) simp_all
  ultimately show ?thesis by linarith
qed

lemma digit_strings_less_iff:
  assumes "length s = length t" "read_digits a s = Some v" "read_digits a t = Some w"
  shows "s < t \<longleftrightarrow> v < w"
  using assms
proof (induction s t arbitrary: a rule: list_induct2)
  case (Cons c s d t)
  obtain x y where x: "digit_value c = Some x" "read_digits (10 * a + x) s = Some v"
    and y: "digit_value d = Some y" "read_digits (10 * a + y) t = Some w"
    using Cons.prems by (auto split: option.splits)
  note cd = digit_value_mono [OF x(1) y(1)]
  consider "x < y" | "x = y" | "y < x" by linarith
  then show ?case
  proof cases
    case 1
    then have "v < w" using read_digits_less [OF Cons.hyps x(2) y(2)] by simp
    with 1 cd show ?thesis by simp
  next
    case 2
    with Cons.IH x(2) y(2) cd show ?thesis by simp
  next
    case 3
    then have "w < v" using read_digits_less [OF Cons.hyps [symmetric] y(2) x(2)] by simp
    with 3 cd show ?thesis by auto
  qed
qed simp

lemma append_less_iff:
  "length s = length t \<Longrightarrow> s @ u < t @ v \<longleftrightarrow> s < t \<or> s = t \<and> u < v" for s t u v :: "'a::linorder list"
  by (induction s t rule: list_induct2) auto

lemma pad20_read:
  assumes "0 \<le> z" "z < 10 ^ 20"
  shows "length (pad20 z) = 20" "read_digits 0 (pad20 z) = Some (nat z)"
proof -
  have "nat z < 10 ^ 20" using assms by (simp add: nat_less_iff)
  then have "length (show_nat (nat z)) \<le> 20" using length_show_nat by simp
  then show "length (pad20 z) = 20" using assms(1) by (simp add: pad20_def)
  show "read_digits 0 (pad20 z) = Some (nat z)"
    using assms(1) by (simp add: pad20_def read_digits_zeros)
qed

lemma pad20_less_iff:
  assumes "0 \<le> a" "a < 10 ^ 20" "0 \<le> b" "b < 10 ^ 20"
  shows "pad20 a < pad20 b \<longleftrightarrow> a < b"
proof -
  have "pad20 a < pad20 b \<longleftrightarrow> nat a < nat b"
    using pad20_read [OF assms(1,2)] pad20_read [OF assms(3,4)]
    by (intro digit_strings_less_iff) simp_all
  with assms show ?thesis by auto
qed

end
