(* ===== verification/Rust_Collections.thy ===== *)
theory Rust_Collections
  imports Kukuri_Prelude
begin

text \<open>
  \<open>BTreeMap\<close> and \<open>BTreeSet\<close> of the standard library: a map is the list of its entries in the
  order of the keys, which is the order an iterator yields them, and a set the list of its
  elements. A \<open>HashMap\<close> is the same list, where the code does not look at the order. The
  components use the operations through the two interfaces below.
\<close>

section \<open>Ordered maps\<close>

type_synonym ('k, 'v) btree_map = "('k \<times> 'v) list"

fun bm_insert :: "'k::linorder \<Rightarrow> 'v \<Rightarrow> ('k, 'v) btree_map \<Rightarrow> ('k, 'v) btree_map" where
  "bm_insert k v [] = [(k, v)]"
| "bm_insert k v ((a, b) # m) =
     (if k < a then (k, v) # (a, b) # m
      else if k = a then (k, v) # m
      else (a, b) # bm_insert k v m)"

definition bm_remove :: "'k \<Rightarrow> ('k, 'v) btree_map \<Rightarrow> ('k, 'v) btree_map" where
  "bm_remove k m = filter (\<lambda>(a, _). a \<noteq> k) m"

definition bm_get :: "('k, 'v) btree_map \<Rightarrow> 'k \<Rightarrow> 'v option" where
  "bm_get m k = map_of m k"

definition bm_contains :: "('k, 'v) btree_map \<Rightarrow> 'k \<Rightarrow> bool" where
  "bm_contains m k \<longleftrightarrow> bm_get m k \<noteq> None"

definition bm_keys :: "('k, 'v) btree_map \<Rightarrow> 'k list" where
  "bm_keys m = map fst m"

definition bm_values :: "('k, 'v) btree_map \<Rightarrow> 'v list" where
  "bm_values m = map snd m"

definition bm_retain :: "('k \<Rightarrow> 'v \<Rightarrow> bool) \<Rightarrow> ('k, 'v) btree_map \<Rightarrow> ('k, 'v) btree_map" where
  "bm_retain P m = filter (\<lambda>(k, v). P k v) m"

definition bm_ok :: "('k::linorder, 'v) btree_map \<Rightarrow> bool" where
  "bm_ok m \<longleftrightarrow> sorted_wrt (<) (map fst m)"

definition bm_of_list :: "('k::linorder \<times> 'v) list \<Rightarrow> ('k, 'v) btree_map" where
  "bm_of_list xs = fold (\<lambda>(k, v). bm_insert k v) xs []"

text \<open>
  The contract of an ordered map: lookups after an update, the representation invariant, and that
  the representation of a content is unique (so two maps with equal lookups are equal, as Rust's
  \<open>Eq\<close> has it).
\<close>

locale ordered_map =
  fixes get :: "'m \<Rightarrow> 'k \<Rightarrow> 'v option"
    and put :: "'k \<Rightarrow> 'v \<Rightarrow> 'm \<Rightarrow> 'm"
    and del :: "'k \<Rightarrow> 'm \<Rightarrow> 'm"
    and ok :: "'m \<Rightarrow> bool"
  assumes get_put: "ok m \<Longrightarrow> get (put k v m) = (get m)(k \<mapsto> v)"
    and get_del: "ok m \<Longrightarrow> get (del k m) = (get m)(k := None)"
    and ok_put: "ok m \<Longrightarrow> ok (put k v m)"
    and ok_del: "ok m \<Longrightarrow> ok (del k m)"
    and ext: "ok m \<Longrightarrow> ok n \<Longrightarrow> get m = get n \<Longrightarrow> m = n"
begin

lemma put_put_same: "ok m \<Longrightarrow> put k v (put k w m) = put k v m"
  by (rule ext) (simp_all add: ok_put get_put)

lemma put_commute: "ok m \<Longrightarrow> k \<noteq> l \<Longrightarrow> put k v (put l w m) = put l w (put k v m)"
  by (rule ext) (simp_all add: ok_put get_put fun_upd_twist)

lemma del_put_same: "ok m \<Longrightarrow> get m k = None \<Longrightarrow> del k (put k v m) = m"
  by (rule ext) (auto simp: ok_put ok_del get_put get_del)

lemma del_commute: "ok m \<Longrightarrow> del k (del l m) = del l (del k m)"
  by (rule ext) (auto simp: ok_del get_del)

lemma put_get_same: "ok m \<Longrightarrow> get m k = Some v \<Longrightarrow> put k v m = m"
  by (rule ext) (auto simp: ok_put get_put)

end

lemma bm_get_Nil [simp]: "bm_get [] k = None"
  by (simp add: bm_get_def)

lemma bm_insert_keys: "fst ` set (bm_insert k v m) = insert k (fst ` set m)"
  by (induction m rule: bm_insert.induct) auto

lemma bm_ok_insert: "bm_ok m \<Longrightarrow> bm_ok (bm_insert k v m)"
proof (induction k v m rule: bm_insert.induct)
  case (2 k v a b m)
  have "\<forall>x \<in> fst ` set (bm_insert k v m). a < x" if "a < k"
    using 2(2) that by (auto simp: bm_insert_keys bm_ok_def simp del: image_iff)
  with 2 show ?case by (auto simp: bm_ok_def)
qed (simp add: bm_ok_def)

lemma bm_get_insert [simp]: "bm_get (bm_insert k v m) = (bm_get m)(k \<mapsto> v)"
proof -
  have "map_of (bm_insert k v m) x = (if x = k then Some v else map_of m x)" for x
    by (induction k v m rule: bm_insert.induct) auto
  then show ?thesis by (auto simp: bm_get_def fun_eq_iff)
qed

lemma bm_get_filter_key: "map_of (filter (\<lambda>(a, _). P a) m) k = (if P k then map_of m k else None)"
  by (induction m) auto

lemma bm_get_remove [simp]: "bm_get (bm_remove k m) = (bm_get m)(k := None)"
  by (auto simp: bm_get_def bm_remove_def fun_eq_iff bm_get_filter_key)

lemma bm_ok_filter: "bm_ok m \<Longrightarrow> bm_ok (filter P m)"
  by (induction m) (auto simp: bm_ok_def)

lemma bm_ok_remove: "bm_ok m \<Longrightarrow> bm_ok (bm_remove k m)"
  by (simp add: bm_remove_def bm_ok_filter)

lemma bm_ok_retain: "bm_ok m \<Longrightarrow> bm_ok (bm_retain P m)"
  by (simp add: bm_retain_def bm_ok_filter)

lemma bm_ok_distinct: "bm_ok m \<Longrightarrow> distinct (map fst m)"
  unfolding bm_ok_def using strict_sorted_iff by blast

lemma bm_get_iff: "bm_ok m \<Longrightarrow> bm_get m k = Some v \<longleftrightarrow> (k, v) \<in> set m"
  by (simp add: bm_get_def bm_ok_distinct)

lemma bm_get_Some_in: "bm_get m k = Some v \<Longrightarrow> (k, v) \<in> set m"
  by (simp add: bm_get_def map_of_SomeD)

lemma bm_get_None_iff: "bm_get m k = None \<longleftrightarrow> k \<notin> fst ` set m"
  by (simp add: bm_get_def map_of_eq_None_iff)

lemma bm_get_retain:
  "bm_ok m \<Longrightarrow> bm_get (bm_retain P m) k =
     (case bm_get m k of None \<Rightarrow> None | Some v \<Rightarrow> if P k v then Some v else None)"
  using bm_ok_retain [of m P] bm_ok_distinct [of m]
  by (auto simp: bm_get_iff bm_retain_def bm_get_None_iff dest: eq_key_imp_eq_value
      split: option.split)

lemma bm_ext:
  assumes "bm_ok m" "bm_ok n" "bm_get m = bm_get n"
  shows "m = n"
proof -
  have "set m = set n"
    using assms by (auto simp: bm_get_iff [symmetric])
  moreover have "inj_on fst (set m \<union> set n)"
    using bm_ok_distinct [OF assms(1)] \<open>set m = set n\<close> by (simp add: distinct_map)
  ultimately show ?thesis
    using assms(1,2) map_sorted_distinct_set_unique [of fst m n]
    by (simp add: bm_ok_def strict_sorted_iff)
qed

lemma bm_set_insert: "bm_ok m \<Longrightarrow> set (bm_insert k v m) = insert (k, v) {(a, b) \<in> set m. a \<noteq> k}"
  using bm_ok_insert [of m k v]
  by (auto simp: bm_get_iff [symmetric] split: if_splits)

interpretation btm: ordered_map "bm_get :: ('k::linorder, 'v) btree_map \<Rightarrow> 'k \<Rightarrow> 'v option"
  bm_insert bm_remove bm_ok
  by unfold_locales (auto simp: bm_ok_insert bm_ok_remove intro: bm_ext)

lemma bm_ok_Nil [simp]: "bm_ok []"
  by (simp add: bm_ok_def)

lemma bm_ok_of_list [simp]: "bm_ok (bm_of_list xs)"
proof -
  have "bm_ok m \<Longrightarrow> bm_ok (fold (\<lambda>(k, v). bm_insert k v) xs m)" for m
    by (induction xs arbitrary: m) (auto simp: bm_ok_insert)
  then show ?thesis by (simp add: bm_of_list_def)
qed

lemma bm_get_of_list: "bm_get (bm_of_list xs) = map_of (rev xs)"
proof -
  have "bm_get (fold (\<lambda>(k, v). bm_insert k v) xs m) = bm_get m ++ map_of (rev xs)" for m
    by (induction xs arbitrary: m) (auto simp: fun_eq_iff map_add_def split: option.split)
  then show ?thesis by (simp add: bm_of_list_def fun_eq_iff map_add_def split: option.split)
qed

section \<open>Ordered sets\<close>

fun bs_insert :: "'a::linorder \<Rightarrow> 'a list \<Rightarrow> 'a list" where
  "bs_insert x [] = [x]"
| "bs_insert x (y # ys) = (if x < y then x # y # ys else if x = y then y # ys else y # bs_insert x ys)"

definition bs_remove :: "'a \<Rightarrow> 'a list \<Rightarrow> 'a list" where
  "bs_remove x s = filter (\<lambda>y. y \<noteq> x) s"

definition bs_ok :: "'a::linorder list \<Rightarrow> bool" where
  "bs_ok s \<longleftrightarrow> sorted_wrt (<) s"

definition bs_of_list :: "'a::linorder list \<Rightarrow> 'a list" where
  "bs_of_list xs = fold bs_insert xs []"

locale ordered_set =
  fixes members :: "'s \<Rightarrow> 'a set"
    and add :: "'a \<Rightarrow> 's \<Rightarrow> 's"
    and del :: "'a \<Rightarrow> 's \<Rightarrow> 's"
    and ok :: "'s \<Rightarrow> bool"
  assumes members_add: "ok s \<Longrightarrow> members (add x s) = insert x (members s)"
    and members_del: "ok s \<Longrightarrow> members (del x s) = members s - {x}"
    and ok_add: "ok s \<Longrightarrow> ok (add x s)"
    and ok_del: "ok s \<Longrightarrow> ok (del x s)"
    and set_ext: "ok s \<Longrightarrow> ok t \<Longrightarrow> members s = members t \<Longrightarrow> s = t"
begin

lemma add_commute: "ok s \<Longrightarrow> add x (add y s) = add y (add x s)"
  by (rule set_ext) (auto simp: ok_add members_add)

lemma add_idem: "ok s \<Longrightarrow> x \<in> members s \<Longrightarrow> add x s = s"
  by (rule set_ext) (auto simp: ok_add members_add)

lemma fold_add: "ok s \<Longrightarrow> ok (fold add xs s) \<and> members (fold add xs s) = set xs \<union> members s"
  by (induction xs arbitrary: s) (auto simp: ok_add members_add)

lemma fold_add_set_cong: "ok s \<Longrightarrow> set xs = set ys \<Longrightarrow> fold add xs s = fold add ys s"
  by (rule set_ext) (simp_all add: fold_add)

end

lemma set_bs_insert [simp]: "set (bs_insert x s) = insert x (set s)"
  by (induction s) auto

lemma bs_ok_insert: "bs_ok s \<Longrightarrow> bs_ok (bs_insert x s)"
  by (induction s) (auto simp: bs_ok_def)

lemma bs_ok_filter: "bs_ok s \<Longrightarrow> bs_ok (filter P s)"
  by (induction s) (auto simp: bs_ok_def)

lemma bs_ok_remove: "bs_ok s \<Longrightarrow> bs_ok (bs_remove x s)"
  by (simp add: bs_remove_def bs_ok_filter)

lemma bs_ok_distinct: "bs_ok s \<Longrightarrow> distinct s \<and> sorted s"
  by (simp add: bs_ok_def strict_sorted_iff)

lemma set_bs_remove: "set (bs_remove x s) = set s - {x}"
  by (auto simp: bs_remove_def)

lemma bs_ext: "bs_ok s \<Longrightarrow> bs_ok t \<Longrightarrow> set s = set t \<Longrightarrow> s = t"
  using bs_ok_distinct sorted_distinct_set_unique by blast

interpretation bts: ordered_set set "bs_insert :: 'a::linorder \<Rightarrow> 'a list \<Rightarrow> 'a list" bs_remove bs_ok
  by unfold_locales
    (auto simp: bs_ok_insert bs_ok_remove set_bs_remove intro: bs_ext)

lemma bs_of_list_ok [simp]: "bs_ok (bs_of_list xs)"
  and set_bs_of_list [simp]: "set (bs_of_list xs) = set xs"
  using bts.fold_add [of "[]" xs] by (simp_all add: bs_of_list_def bs_ok_def)

lemma bs_of_list_cong: "set xs = set ys \<Longrightarrow> bs_of_list xs = bs_of_list ys"
  unfolding bs_of_list_def by (rule bts.fold_add_set_cong) (simp_all add: bs_ok_def)

end
