(* ===== verification/Envelope.thy ===== *)
theory Envelope
  imports Rust_Strings Rust_Collections
begin

text \<open>
  The signed envelope every record of the network travels in
  (\<^verbatim>\<open>crates/core/src/envelope.rs\<close>), the key pair that signs it
  (\<^verbatim>\<open>crypto.rs\<close>) and the topic names that go with it
  (\<^verbatim>\<open>ids.rs\<close>, \<^verbatim>\<open>wire.rs\<close>). The
  identifier newtypes of \<^verbatim>\<open>ids.rs\<close> are transparent strings.

  \<open>crypto_lib\<close> collects the third-party functions the envelope code calls; a \<open>codec\<close> is the
  pair of \<open>serde_json\<close> functions of one content type. Neither is defined: they are arguments,
  and the laws a theorem needs of them are its hypotheses.
\<close>

section \<open>Third-party functions as parameters\<close>

type_synonym EnvelopeId = string
type_synonym Pubkey = string
type_synonym TopicId = string
type_synonym ChannelId = string
type_synonym ReplicaId = string
type_synonym BlobHash = string

record crypto_lib =
  canonical_json :: "string \<Rightarrow> int \<Rightarrow> string \<Rightarrow> string list list \<Rightarrow> string \<Rightarrow> string option"
  sha256 :: "string \<Rightarrow> string"
  hex_encode :: "string \<Rightarrow> string"
  public_key_of :: "string \<Rightarrow> string"
  schnorr_sign :: "string \<Rightarrow> string \<Rightarrow> string"
  signature_from_str :: "string \<Rightarrow> string option"
  xonly_from_str :: "string \<Rightarrow> string option"
  schnorr_verify :: "string \<Rightarrow> string \<Rightarrow> string \<Rightarrow> bool"

record 'a codec =
  to_json :: "'a \<Rightarrow> string option"
  from_json :: "string \<Rightarrow> 'a option"

text \<open>
  What \<open>secp256k1\<close> documents: the text of a signature made with a secret key parses back, the
  text of its x-only public key parses, and the signature verifies under it.
\<close>

definition schnorr_correct :: "crypto_lib \<Rightarrow> bool" where
  "schnorr_correct C \<longleftrightarrow> (\<forall>sk m. \<exists>s k.
     signature_from_str C (schnorr_sign C sk m) = Some s \<and>
     xonly_from_str C (public_key_of C sk) = Some k \<and>
     schnorr_verify C s m k)"

text \<open>What \<open>serde\<close> documents of a derived codec, for one document: it prints and reads back.\<close>

definition codec_round_trip :: "'a codec \<Rightarrow> 'a \<Rightarrow> bool" where
  "codec_round_trip J x \<longleftrightarrow> (\<exists>s. to_json J x = Some s \<and> from_json J s = Some x)"

text \<open>An array of strings and integers always serializes, and distinct arrays print differently.\<close>

definition canonical_total :: "crypto_lib \<Rightarrow> bool" where
  "canonical_total C \<longleftrightarrow> (\<forall>p t k g c. canonical_json C p t k g c \<noteq> None)"

definition canonical_faithful :: "crypto_lib \<Rightarrow> bool" where
  "canonical_faithful C \<longleftrightarrow> (\<forall>p t k g c p' t' k' g' c' s.
     canonical_json C p t k g c = Some s \<and> canonical_json C p' t' k' g' c' = Some s \<longrightarrow>
     p = p' \<and> t = t' \<and> k = k' \<and> g = g' \<and> c = c')"

definition hex_injective :: "crypto_lib \<Rightarrow> bool" where
  "hex_injective C \<longleftrightarrow> inj (hex_encode C)"

section \<open>Keys and topic names\<close>

record KukuriKeys =
  secret_key :: string

definition public_key :: "crypto_lib \<Rightarrow> KukuriKeys \<Rightarrow> Pubkey" where
  "public_key C keys = public_key_of C (secret_key keys)"

definition sign_schnorr :: "crypto_lib \<Rightarrow> KukuriKeys \<Rightarrow> string \<Rightarrow> string" where
  "sign_schnorr C keys m = schnorr_sign C (secret_key keys) m"

definition author_profile_topic_id :: "string \<Rightarrow> TopicId" where
  "author_profile_topic_id author_pubkey = ''kukuri:topic:profile:'' @ author_pubkey"

definition HINT_TOPIC_PREFIX :: string where "HINT_TOPIC_PREFIX = ''hint/''"
definition PRIVATE_CHANNEL_TOPIC_PREFIX :: string where "PRIVATE_CHANNEL_TOPIC_PREFIX = ''private/''"
definition PUBLIC_CHANNEL_TOPIC_PREFIX :: string where "PUBLIC_CHANNEL_TOPIC_PREFIX = ''public-channel/''"
definition DM_TOPIC_PREFIX :: string where "DM_TOPIC_PREFIX = ''kukuri:dm:''"
definition ACCOUNT_SYNC_TOPIC_PREFIX :: string where "ACCOUNT_SYNC_TOPIC_PREFIX = ''kukuri:account:''"

definition is_non_public_topic :: "string \<Rightarrow> bool" where
  "is_non_public_topic topic = (
     let topic = (case strip_prefix HINT_TOPIC_PREFIX topic of Some t \<Rightarrow> t | None \<Rightarrow> topic) in
     list_ex (\<lambda>prefix. starts_with prefix topic)
       [PRIVATE_CHANNEL_TOPIC_PREFIX, PUBLIC_CHANNEL_TOPIC_PREFIX, DM_TOPIC_PREFIX,
        ACCOUNT_SYNC_TOPIC_PREFIX])"

definition hint_topic_id :: "TopicId \<Rightarrow> TopicId" where
  "hint_topic_id topic = HINT_TOPIC_PREFIX @ topic"

section \<open>Envelopes\<close>

record KukuriEnvelope =
  env_id :: EnvelopeId
  env_pubkey :: Pubkey
  env_created_at :: i64
  env_kind :: string
  env_tags :: "string list list"
  env_content :: string
  env_sig :: string

definition canonical_envelope_payload ::
    "crypto_lib \<Rightarrow> string \<Rightarrow> i64 \<Rightarrow> string \<Rightarrow> string list list \<Rightarrow> string \<Rightarrow> string result" where
  "canonical_envelope_payload C pubkey created_at kind tags content =
     with_context ''failed to encode canonical envelope payload''
       (foreign ''serde_json'' (canonical_json C pubkey created_at kind tags content))"

definition verify :: "crypto_lib \<Rightarrow> KukuriEnvelope \<Rightarrow> unit result" where
  "verify C e =
     rbind (canonical_envelope_payload C (env_pubkey e) (env_created_at e) (env_kind e) (env_tags e)
       (env_content e)) (\<lambda>canonical.
     let digest = sha256 C canonical; computed_id = hex_encode C digest in
     if computed_id \<noteq> env_id e then bail ''envelope id mismatch''
     else
     rbind (with_context ''invalid envelope sig''
       (foreign ''secp256k1'' (signature_from_str C (env_sig e)))) (\<lambda>signature.
     rbind (with_context ''invalid envelope pubkey''
       (foreign ''secp256k1'' (xonly_from_str C (env_pubkey e)))) (\<lambda>pk.
     with_context ''envelope signature verification failed''
       (foreign ''secp256k1'' (if schnorr_verify C signature digest pk then Some () else None)))))"

definition sign_envelope_at ::
    "crypto_lib \<Rightarrow> KukuriKeys \<Rightarrow> string \<Rightarrow> string list list \<Rightarrow> string \<Rightarrow> i64 \<Rightarrow> KukuriEnvelope result" where
  "sign_envelope_at C keys kind tags content created_at =
     rbind (canonical_envelope_payload C (public_key C keys) created_at kind tags content) (\<lambda>canonical.
     let digest = sha256 C canonical in
     Inr \<lparr>env_id = hex_encode C digest, env_pubkey = public_key C keys, env_created_at = created_at,
          env_kind = kind, env_tags = tags, env_content = content,
          env_sig = sign_schnorr C keys digest\<rparr>)"

text \<open>
  The clock is the number of whole seconds since the Unix epoch, or nothing before it; the cast
  to \<open>i64\<close> wraps.
\<close>

definition clock_secs :: "u64 option \<Rightarrow> i64 result" where
  "clock_secs clock = map_sum id (\<lambda>s. wrap_i64 (int s))
     (with_context ''system clock is before unix epoch'' (foreign ''std::time'' clock))"

definition sign_envelope ::
    "crypto_lib \<Rightarrow> u64 option \<Rightarrow> KukuriKeys \<Rightarrow> string \<Rightarrow> string list list \<Rightarrow> string \<Rightarrow> KukuriEnvelope result" where
  "sign_envelope C clock keys kind tags content =
     rbind (clock_secs clock) (\<lambda>created_at. sign_envelope_at C keys kind tags content created_at)"

definition sign_envelope_json ::
    "crypto_lib \<Rightarrow> u64 option \<Rightarrow> 'a codec \<Rightarrow> KukuriKeys \<Rightarrow> string \<Rightarrow> string list list \<Rightarrow> 'a \<Rightarrow> KukuriEnvelope result" where
  "sign_envelope_json C clock J keys kind tags content =
     rbind (with_context ''failed to encode envelope content'' (foreign ''serde_json'' (to_json J content)))
       (\<lambda>content. sign_envelope C clock keys kind tags content)"

definition sign_envelope_json_at ::
    "crypto_lib \<Rightarrow> 'a codec \<Rightarrow> KukuriKeys \<Rightarrow> string \<Rightarrow> string list list \<Rightarrow> 'a \<Rightarrow> i64 \<Rightarrow> KukuriEnvelope result" where
  "sign_envelope_json_at C J keys kind tags content created_at =
     rbind (with_context ''failed to encode envelope content'' (foreign ''serde_json'' (to_json J content)))
       (\<lambda>content. sign_envelope_at C keys kind tags content created_at)"

text \<open>
  A concrete instance of the two parameters, on which the witnesses evaluate: payloads are
  concatenated with separators, digests are the identity, a signature is the key followed by the
  message, and the codec of one document prints a fixed text.
\<close>

definition sample_crypto :: crypto_lib where
  "sample_crypto = \<lparr>
     canonical_json = (\<lambda>p t k g c. Some (p @ ''|'' @ show_int t @ ''|'' @ k @ ''|'' @ concat (concat g) @ ''|'' @ c)),
     sha256 = (\<lambda>m. m), hex_encode = (\<lambda>m. m), public_key_of = (\<lambda>sk. sk),
     schnorr_sign = (\<lambda>sk m. sk @ m), signature_from_str = Some, xonly_from_str = Some,
     schnorr_verify = (\<lambda>s m k. s = k @ m)\<rparr>"

definition sample_codec :: "'a \<Rightarrow> 'a codec" where
  "sample_codec d = \<lparr>to_json = (\<lambda>_. Some ''{}''), from_json = (\<lambda>_. Some d)\<rparr>"

section \<open>What signing and verifying establish\<close>

lemma clock_secs_Inr [result_simps]:
  "clock_secs clock = Inr t \<longleftrightarrow> (\<exists>s. clock = Some s \<and> t = wrap_i64 (int s))"
  by (auto simp: clock_secs_def with_context_def foreign_def split: option.split)

lemma clock_secs_Some [simp]: "clock_secs (Some s) = Inr (wrap_i64 (int s))"
  by (simp add: clock_secs_def)

lemma canonical_payload_Inr [result_simps]:
  "canonical_envelope_payload C p t k g c = Inr s \<longleftrightarrow> canonical_json C p t k g c = Some s"
  by (simp add: canonical_envelope_payload_def result_simps)

text \<open>Everything a successful verification has checked.\<close>

lemma verify_iff:
  "verify C e = Inr u \<longleftrightarrow> (\<exists>payload s k.
     canonical_json C (env_pubkey e) (env_created_at e) (env_kind e) (env_tags e) (env_content e) = Some payload \<and>
     env_id e = hex_encode C (sha256 C payload) \<and>
     signature_from_str C (env_sig e) = Some s \<and> xonly_from_str C (env_pubkey e) = Some k \<and>
     schnorr_verify C s (sha256 C payload) k)"
  by (auto simp: verify_def Let_def result_simps)

lemma sign_envelope_at_Inr:
  "sign_envelope_at C keys kind tags content t = Inr e \<longleftrightarrow> (\<exists>payload.
     canonical_json C (public_key C keys) t kind tags content = Some payload \<and>
     e = \<lparr>env_id = hex_encode C (sha256 C payload), env_pubkey = public_key C keys,
          env_created_at = t, env_kind = kind, env_tags = tags, env_content = content,
          env_sig = sign_schnorr C keys (sha256 C payload)\<rparr>)"
  by (auto simp: sign_envelope_at_def Let_def result_simps)

lemma sign_envelope_at_fields:
  assumes "sign_envelope_at C keys kind tags content t = Inr e"
  shows "env_pubkey e = public_key C keys" "env_kind e = kind" "env_tags e = tags"
    "env_content e = content" "env_created_at e = t"
  using assms by (auto simp: sign_envelope_at_Inr)

lemma sign_envelope_at_verifies:
  assumes "sign_envelope_at C keys kind tags content t = Inr e" "schnorr_correct C"
  shows "verify C e = Inr ()"
  using assms unfolding sign_envelope_at_Inr verify_iff schnorr_correct_def sign_schnorr_def public_key_def
  by auto

text \<open>The content a signed envelope carries, decoded again, is the document that was signed.\<close>

lemma sign_envelope_json_at_Inr:
  assumes "sign_envelope_json_at C J keys kind tags d t = Inr e"
  obtains body where "to_json J d = Some body" "sign_envelope_at C keys kind tags body t = Inr e"
  using assms by (auto simp: sign_envelope_json_at_def result_simps)

lemma sign_envelope_json_Inr:
  assumes "sign_envelope_json C clock J keys kind tags d = Inr e"
  obtains body s where "to_json J d = Some body" "clock = Some s"
    "sign_envelope_at C keys kind tags body (wrap_i64 (int s)) = Inr e"
  using assms by (auto simp: sign_envelope_json_def sign_envelope_def result_simps)

lemma sign_envelope_json_at_decodes:
  assumes "sign_envelope_json_at C J keys kind tags d t = Inr e" "codec_round_trip J d"
  shows "from_json J (env_content e) = Some d" "env_pubkey e = public_key C keys"
    "env_kind e = kind" "env_tags e = tags" "env_created_at e = t"
  using assms
  by (auto elim!: sign_envelope_json_at_Inr simp: codec_round_trip_def sign_envelope_at_fields
      dest: sign_envelope_at_fields)

lemma sign_envelope_json_decodes:
  assumes "sign_envelope_json C clock J keys kind tags d = Inr e" "codec_round_trip J d"
  shows "from_json J (env_content e) = Some d" "env_pubkey e = public_key C keys"
    "env_kind e = kind" "env_tags e = tags"
  using assms
  by (auto elim!: sign_envelope_json_Inr simp: codec_round_trip_def
      dest: sign_envelope_at_fields)

lemma sign_envelope_json_fields:
  assumes "sign_envelope_json C clock J keys kind tags d = Inr e"
  shows "env_pubkey e = public_key C keys" "env_kind e = kind" "env_tags e = tags"
  using assms by (auto elim!: sign_envelope_json_Inr dest: sign_envelope_at_fields)

lemma sign_envelope_json_at_verifies:
  "sign_envelope_json_at C J keys kind tags d t = Inr e \<Longrightarrow> schnorr_correct C \<Longrightarrow> verify C e = Inr ()"
  by (auto elim!: sign_envelope_json_at_Inr intro: sign_envelope_at_verifies)

lemma sign_envelope_json_verifies:
  "sign_envelope_json C clock J keys kind tags d = Inr e \<Longrightarrow> schnorr_correct C \<Longrightarrow> verify C e = Inr ()"
  by (auto elim!: sign_envelope_json_Inr intro: sign_envelope_at_verifies)

text \<open>The envelopes a key can sign over a document.\<close>

definition signs :: "crypto_lib \<Rightarrow> 'a codec \<Rightarrow> KukuriKeys \<Rightarrow> string \<Rightarrow> 'a \<Rightarrow> KukuriEnvelope \<Rightarrow> bool" where
  "signs C J keys kind d e \<longleftrightarrow> (\<exists>clock tags. sign_envelope_json C clock J keys kind tags d = Inr e)"

lemma signsI [intro]: "sign_envelope_json C clock J keys kind tags d = Inr e \<Longrightarrow> signs C J keys kind d e"
  unfolding signs_def by blast

text \<open>Signing cannot fail once the clock, the content codec and the payload codec do not.\<close>

lemma sign_envelope_json_ok:
  assumes "to_json J d = Some body"
    and "canonical_json C (public_key C keys) (wrap_i64 (int s)) kind tags body \<noteq> None"
  shows "\<exists>e. sign_envelope_json C (Some s) J keys kind tags d = Inr e"
  using assms by (auto simp: sign_envelope_json_def sign_envelope_def sign_envelope_at_Inr)

lemma sample_crypto_correct [simp]: "schnorr_correct sample_crypto"
  by (simp add: schnorr_correct_def sample_crypto_def)

lemma public_key_sample [simp]: "public_key sample_crypto keys = secret_key keys"
  by (simp add: public_key_def sample_crypto_def)

lemma sample_crypto_total [simp]: "canonical_total sample_crypto"
  by (simp add: canonical_total_def sample_crypto_def)

lemma sample_codec_round_trip [simp]: "codec_round_trip (sample_codec d) d"
  by (simp add: codec_round_trip_def sample_codec_def)

text \<open>
  C31. Signing is correct: with a clock after the epoch, \<open>sign_envelope_json\<close> succeeds, and the
  envelope verifies, is signed by the caller's key, carries the given kind and tags, and its
  content decodes to the document that was signed.
\<close>

theorem sign_envelope_json_correct:
  assumes "schnorr_correct C" "canonical_total C" "codec_round_trip J d"
  shows "\<exists>e. sign_envelope_json C (Some s) J keys kind tags d = Inr e \<and> verify C e = Inr () \<and>
    env_pubkey e = public_key C keys \<and> env_kind e = kind \<and> env_tags e = tags \<and>
    env_created_at e = wrap_i64 (int s) \<and> from_json J (env_content e) = Some d"
proof -
  obtain e where e: "sign_envelope_json C (Some s) J keys kind tags d = Inr e"
    using assms(2,3) sign_envelope_json_ok unfolding canonical_total_def codec_round_trip_def by metis
  moreover have "env_created_at e = wrap_i64 (int s)"
    using e by (auto elim!: sign_envelope_json_Inr dest: sign_envelope_at_fields)
  ultimately show ?thesis
    using sign_envelope_json_verifies [OF e assms(1)] sign_envelope_json_decodes [OF e assms(3)]
    by blast
qed

theorem sign_envelope_json_correct_witness:
  "\<exists>e. sign_envelope_json sample_crypto (Some 5) (sample_codec (3 :: nat)) \<lparr>secret_key = ''k''\<rparr> ''post'' [] 3 = Inr e \<and>
     verify sample_crypto e = Inr () \<and> env_created_at e = 5"
  using sign_envelope_json_correct [OF sample_crypto_correct sample_crypto_total
      sample_codec_round_trip [of "3 :: nat"], of 5 "\<lparr>secret_key = ''k''\<rparr>" "''post''" "[]"]
  by (auto simp: wrap_i64_def)

text \<open>
  C13. A verified envelope's id commits to all that was signed: two verified envelopes with one id
  agree in signer, time, kind, tags and content, or their own two canonical payloads are distinct texts
  with one SHA-256 digest.
\<close>

theorem envelope_id_binds:
  assumes "verify C e = Inr ()" "verify C e' = Inr ()" "env_id e = env_id e'"
    and "canonical_faithful C" "hex_injective C"
  shows "(env_pubkey e = env_pubkey e' \<and> env_created_at e = env_created_at e' \<and>
      env_kind e = env_kind e' \<and> env_tags e = env_tags e' \<and> env_content e = env_content e') \<or>
    (\<exists>x y. canonical_json C (env_pubkey e) (env_created_at e) (env_kind e) (env_tags e) (env_content e) = Some x \<and>
      canonical_json C (env_pubkey e') (env_created_at e') (env_kind e') (env_tags e') (env_content e') = Some y \<and>
      x \<noteq> y \<and> sha256 C x = sha256 C y)"
proof -
  obtain x where x: "canonical_json C (env_pubkey e) (env_created_at e) (env_kind e) (env_tags e) (env_content e) = Some x"
    and ix: "env_id e = hex_encode C (sha256 C x)"
    using assms(1) by (auto simp: verify_iff)
  obtain y where y: "canonical_json C (env_pubkey e') (env_created_at e') (env_kind e') (env_tags e') (env_content e') = Some y"
    and iy: "env_id e' = hex_encode C (sha256 C y)"
    using assms(2) by (auto simp: verify_iff)
  have "sha256 C x = sha256 C y"
    using ix iy assms(3,5) by (simp add: hex_injective_def inj_eq)
  with x y assms(4) show ?thesis
    unfolding canonical_faithful_def by (cases "x = y") blast+
qed

text \<open>
  The instance of the witness escapes every separator, so that distinct arrays print differently.
\<close>

definition escape_field :: "string \<Rightarrow> string" where
  "escape_field s = concat (map (\<lambda>c. [CHR ''.'', c]) s) @ ''|''"

definition faithful_crypto :: crypto_lib where
  "faithful_crypto = sample_crypto\<lparr>canonical_json := (\<lambda>p t k g c.
     if g = [] then Some (escape_field p @ escape_field (show_int t) @ escape_field k @ escape_field c)
     else None)\<rparr>"

lemma escape_field_append_inject:
  "escape_field a @ x = escape_field b @ y \<longleftrightarrow> a = b \<and> x = y"
proof (induction a arbitrary: b)
  case Nil
  then show ?case by (cases b) (auto simp: escape_field_def)
next
  case (Cons c a)
  then show ?case by (cases b) (auto simp: escape_field_def)
qed

lemma show_int_inject [simp]: "show_int a = show_int b \<longleftrightarrow> a = b"
proof
  assume eq: "show_int a = show_int b"
  have neg: "show_nat n \<noteq> CHR ''-'' # s" for n s
    using show_nat_digits [of n] by auto
  from eq show "a = b"
    by (auto simp: show_int_def neg neg [symmetric] split: if_splits)
qed simp

lemma escape_field_inject [simp]: "escape_field a = escape_field b \<longleftrightarrow> a = b"
  using escape_field_append_inject [of a "[]" b "[]"] by simp

lemma faithful_crypto_laws: "canonical_faithful faithful_crypto" "hex_injective faithful_crypto"
  by (auto simp: canonical_faithful_def hex_injective_def faithful_crypto_def sample_crypto_def
      escape_field_append_inject split: if_splits)

theorem envelope_id_binds_witness:
  "\<exists>e. sign_envelope_at faithful_crypto \<lparr>secret_key = ''k''\<rparr> ''post'' [] ''hi'' 7 = Inr e \<and>
     verify faithful_crypto e = Inr () \<and> env_content e = ''hi''"
proof -
  obtain e where e: "sign_envelope_at faithful_crypto \<lparr>secret_key = ''k''\<rparr> ''post'' [] ''hi'' 7 = Inr e"
    by (auto simp: sign_envelope_at_Inr faithful_crypto_def)
  have v: "verify faithful_crypto e = Inr ()"
    by (rule sign_envelope_at_verifies [OF e])
      (simp add: schnorr_correct_def faithful_crypto_def sample_crypto_def)
  have "\<not> (\<exists>x y. x \<noteq> y \<and> sha256 faithful_crypto x = sha256 faithful_crypto y)"
    by (simp add: faithful_crypto_def sample_crypto_def)
  with envelope_id_binds [OF v v refl faithful_crypto_laws] e v show ?thesis
    using sign_envelope_at_fields(4) [OF e] by auto
qed

end
