(* ===== verification/Channels.thy ===== *)
theory Channels
  imports Envelope
begin

text \<open>
  Where a post or a session lives: the identifiers and signed metadata of public channels
  (\<^verbatim>\<open>crates/core/src/public_channels.rs\<close>), the channel reference
  and the timeline scope (\<^verbatim>\<open>posts.rs\<close>), and the places a Live may
  be referenced from (\<^verbatim>\<open>live.rs\<close>).
\<close>

section \<open>Public channel identifiers\<close>

definition PUBLIC_CHANNEL_KIND :: string where "PUBLIC_CHANNEL_KIND = ''public-channel''"
definition PUBLIC_CHANNEL_MAX_TITLE_CHARS :: nat where "PUBLIC_CHANNEL_MAX_TITLE_CHARS = 200"
definition PUBLIC_CHANNEL_ID_PREFIX :: string where "PUBLIC_CHANNEL_ID_PREFIX = ''pc-''"
definition PUBLIC_CHANNEL_OWNER_SUFFIX_LEN :: nat where "PUBLIC_CHANNEL_OWNER_SUFFIX_LEN = 16"

text \<open>\<open>str::get(..n)\<close>: the first \<open>n\<close> bytes, when that is a character boundary.\<close>

definition str_get_to :: "nat \<Rightarrow> string \<Rightarrow> string option" where
  "str_get_to n s =
     (if length s = n \<or> (n < length s \<and> \<not> is_continuation (s ! n)) then Some (take n s) else None)"

definition rsplit_once :: "char \<Rightarrow> string \<Rightarrow> (string \<times> string) option" where
  "rsplit_once sep s = (case split_once sep (rev s) of
     None \<Rightarrow> None | Some (b, a) \<Rightarrow> Some (rev a, rev b))"

definition lower_hex :: "char \<Rightarrow> bool" where
  "lower_hex c \<longleftrightarrow> ascii_digit c \<or> (CHR ''a'' \<le> c \<and> c \<le> CHR ''f'')"

definition public_channel :: "i64 \<Rightarrow> string \<Rightarrow> ChannelId" where
  "public_channel created_at_ms creator_pubkey = (
     let suffix = (case str_get_to PUBLIC_CHANNEL_OWNER_SUFFIX_LEN creator_pubkey of
       Some s \<Rightarrow> s | None \<Rightarrow> creator_pubkey)
     in PUBLIC_CHANNEL_ID_PREFIX @ show_int created_at_ms @ ''-'' @ suffix)"

definition public_channel_created_at_ms :: "ChannelId \<Rightarrow> i64 option" where
  "public_channel_created_at_ms cid = (
     case strip_prefix PUBLIC_CHANNEL_ID_PREFIX cid of
       None \<Rightarrow> None
     | Some rest \<Rightarrow> (case split_once (CHR ''-'') rest of
         None \<Rightarrow> None
       | Some (millis, suffix) \<Rightarrow>
           let canonical = \<not> starts_with ''0'' millis \<and> list_all ascii_digit millis \<and>
             length suffix = PUBLIC_CHANNEL_OWNER_SUFFIX_LEN \<and> list_all lower_hex suffix
           in if canonical
              then (case parse_i64 millis of
                  None \<Rightarrow> None | Some ms \<Rightarrow> if ms > 0 then Some ms else None)
              else None))"

definition is_public_channel :: "ChannelId \<Rightarrow> bool" where
  "is_public_channel cid \<longleftrightarrow> public_channel_created_at_ms cid \<noteq> None"

definition is_public_channel_of :: "ChannelId \<Rightarrow> string \<Rightarrow> bool" where
  "is_public_channel_of cid creator_pubkey \<longleftrightarrow> is_public_channel cid \<and>
     (case rsplit_once (CHR ''-'') cid of None \<Rightarrow> False
      | Some (_, suffix) \<Rightarrow> starts_with suffix creator_pubkey)"

section \<open>Public channel metadata\<close>

record KukuriPublicChannelContentV1 =
  pch_channel_id :: ChannelId
  pch_topic_id :: TopicId
  pch_title :: string
  pch_first_post_id :: "EnvelopeId option"
  pch_revision :: u32
  pch_deleted :: bool

definition validate_public_channel :: "KukuriPublicChannelContentV1 \<Rightarrow> i64 result" where
  "validate_public_channel content = (
     let title = pch_title content in
     rbind (if pch_deleted content
       then ensure (title = [] \<and> pch_revision content > 0)
         ''deleted public channel keeps a title or has no revision''
       else ensure (trim title \<noteq> [] \<and> trim title = title \<and>
         chars_count title \<le> PUBLIC_CHANNEL_MAX_TITLE_CHARS)
         ''public channel title is empty or too long'') (\<lambda>_.
     rbind (ensure (pch_topic_id content \<noteq> []) ''public channel topic is empty'') (\<lambda>_.
     ok_or ''public channel id is invalid'' (public_channel_created_at_ms (pch_channel_id content)))))"

definition build_public_channel_envelope ::
    "crypto_lib \<Rightarrow> KukuriPublicChannelContentV1 codec \<Rightarrow> KukuriKeys \<Rightarrow> KukuriPublicChannelContentV1 \<Rightarrow>
     KukuriEnvelope result" where
  "build_public_channel_envelope C J keys content =
     rbind (validate_public_channel content) (\<lambda>created_at_ms.
     rbind (ensure (is_public_channel_of (pch_channel_id content) (public_key C keys))
       ''public channel id is not bound to the creator'') (\<lambda>_.
     let tags = [[''topic'', pch_topic_id content], [''object'', PUBLIC_CHANNEL_KIND],
                 [''channel'', pch_channel_id content]]
     in sign_envelope_json_at C J keys PUBLIC_CHANNEL_KIND tags content (created_at_ms div 1000)))"

definition verify_public_channel ::
    "crypto_lib \<Rightarrow> KukuriPublicChannelContentV1 codec \<Rightarrow> KukuriEnvelope \<Rightarrow>
     KukuriPublicChannelContentV1 result" where
  "verify_public_channel C J envelope =
     rbind (verify C envelope) (\<lambda>_.
     if env_kind envelope \<noteq> PUBLIC_CHANNEL_KIND then bail ''envelope is not a public channel''
     else
     rbind (foreign ''serde_json'' (from_json J (env_content envelope))) (\<lambda>content.
     rbind (validate_public_channel content) (\<lambda>created_at_ms.
     rbind (ensure (is_public_channel_of (pch_channel_id content) (env_pubkey envelope) \<and>
         env_created_at envelope = created_at_ms div 1000)
       ''public channel id is not bound to the signer and its creation time'') (\<lambda>_.
     Inr content))))"

section \<open>Channel references and scopes\<close>

datatype ObjectVisibility = VisPublic | VisCommunity | VisRoom | VisPrivate

datatype ChannelRef =
    ChannelPublic
  | PrivateChannel ChannelId
  | PublicChannel ChannelId

datatype TimelineScope =
    ScopePublic
  | ScopeChannel ChannelId
  | ScopePublicChannel ChannelId

fun channel_ref_channel_id :: "ChannelRef \<Rightarrow> ChannelId option" where
  "channel_ref_channel_id ChannelPublic = None"
| "channel_ref_channel_id (PrivateChannel c) = Some c"
| "channel_ref_channel_id (PublicChannel c) = Some c"

fun channel_ref_visibility :: "ChannelRef \<Rightarrow> ObjectVisibility" where
  "channel_ref_visibility ChannelPublic = VisPublic"
| "channel_ref_visibility (PublicChannel _) = VisPublic"
| "channel_ref_visibility (PrivateChannel _) = VisPrivate"

fun channel_ref_for_channel :: "ChannelId option \<Rightarrow> ChannelRef" where
  "channel_ref_for_channel None = ChannelPublic"
| "channel_ref_for_channel (Some c) = (if is_public_channel c then PublicChannel c else PrivateChannel c)"

fun channel_ref_timeline_scope :: "ChannelRef \<Rightarrow> TimelineScope" where
  "channel_ref_timeline_scope ChannelPublic = ScopePublic"
| "channel_ref_timeline_scope (PrivateChannel c) = ScopeChannel c"
| "channel_ref_timeline_scope (PublicChannel c) = ScopePublicChannel c"

fun channel_ref_private_channel_id :: "ChannelRef \<Rightarrow> ChannelId option" where
  "channel_ref_private_channel_id (PrivateChannel c) = Some c"
| "channel_ref_private_channel_id ChannelPublic = None"
| "channel_ref_private_channel_id (PublicChannel _) = None"

definition scope_for_channel :: "ChannelId option \<Rightarrow> TimelineScope" where
  "scope_for_channel c = channel_ref_timeline_scope (channel_ref_for_channel c)"

fun scope_channel_id :: "TimelineScope \<Rightarrow> ChannelId option" where
  "scope_channel_id ScopePublic = None"
| "scope_channel_id (ScopeChannel c) = Some c"
| "scope_channel_id (ScopePublicChannel c) = Some c"

fun scope_private_channel_id :: "TimelineScope \<Rightarrow> ChannelId option" where
  "scope_private_channel_id (ScopeChannel c) = Some c"
| "scope_private_channel_id ScopePublic = None"
| "scope_private_channel_id (ScopePublicChannel _) = None"

record LiveRefV1 =
  live_session_id :: string
  live_topic_id :: TopicId
  live_channel_id :: "ChannelId option"

definition live_allowed_in :: "LiveRefV1 \<Rightarrow> TopicId \<Rightarrow> ChannelId option \<Rightarrow> bool" where
  "live_allowed_in r topic_id channel_id = (case live_channel_id r of
     None \<Rightarrow> True
   | Some channel \<Rightarrow>
       if is_public_channel channel then True
       else live_topic_id r = topic_id \<and> Some channel = channel_id)"

section \<open>Identifiers print and parse back\<close>

lemma show_nat_leading: "0 < n \<Longrightarrow> \<not> starts_with ''0'' (show_nat n)"
proof (induction n rule: show_nat.induct)
  case (1 n)
  show ?case
  proof (cases "n < 10")
    case True
    have "digit_char n \<noteq> CHR ''0''"
    proof
      assume "digit_char n = CHR ''0''"
      then have "of_char (digit_char n) = (48 :: nat)" by simp
      then show False using True \<open>0 < n\<close> of_char_digit_char [of n] by simp
    qed
    with True show ?thesis by (subst show_nat.simps) (simp add: starts_with_def)
  next
    case False
    moreover obtain c s where "show_nat (n div 10) = c # s"
      by (cases "show_nat (n div 10)") simp_all
    ultimately show ?thesis using 1 by (subst show_nat.simps) (auto simp: starts_with_def)
  qed
qed

text \<open>A digit string with no leading zero is the decimal text of its value.\<close>

lemma show_nat_read_digits:
  "read_digits 0 s = Some v \<Longrightarrow> s \<noteq> [] \<Longrightarrow> \<not> starts_with ''0'' s \<Longrightarrow> show_nat v = s"
proof (induction s arbitrary: v rule: rev_induct)
  case (snoc c s)
  obtain w d where w: "read_digits 0 s = Some w" and d: "digit_value c = Some d" and v: "v = 10 * w + d"
    using snoc.prems(1) by (auto simp: read_digits_append split: option.splits)
  have "d < 10" using digit_value_mono [OF d d] by simp
  have c: "c = digit_char d"
    using d \<open>d < 10\<close> digit_value_mono [OF d digit_value_digit_char] by simp
  show ?case
  proof (cases "s = []")
    case True
    with w v \<open>d < 10\<close> c show ?thesis by (subst show_nat.simps) simp
  next
    case False
    then have "show_nat w = s"
      using snoc.IH [OF w] snoc.prems(3) by (cases s) (auto simp: starts_with_def)
    moreover have "0 < w"
    proof (rule ccontr)
      assume "\<not> 0 < w"
      then have "s = show_nat 0" using \<open>show_nat w = s\<close> by simp
      moreover have "show_nat 0 = ''0''" by code_simp
      ultimately have "s = ''0''" by simp
      with snoc.prems(3) show False by (simp add: starts_with_def)
    qed
    ultimately show ?thesis using v \<open>d < 10\<close> c by (subst show_nat.simps) simp
  qed
qed simp

lemma minus_not_digit: "list_all ascii_digit s \<Longrightarrow> CHR ''-'' \<notin> set s"
  by (auto simp: list_all_iff)

lemma minus_not_lower_hex: "list_all lower_hex s \<Longrightarrow> CHR ''-'' \<notin> set s"
  by (auto simp: list_all_iff lower_hex_def)

lemma public_channel_id_iff:
  "public_channel_created_at_ms cid = Some t \<longleftrightarrow> (\<exists>suffix.
     cid = PUBLIC_CHANNEL_ID_PREFIX @ show_int t @ ''-'' @ suffix \<and> 0 < t \<and> is_i64 t \<and>
     length suffix = PUBLIC_CHANNEL_OWNER_SUFFIX_LEN \<and> list_all lower_hex suffix)"
proof
  assume "public_channel_created_at_ms cid = Some t"
  then obtain millis suffix where cid: "cid = PUBLIC_CHANNEL_ID_PREFIX @ millis @ ''-'' @ suffix"
    and z: "\<not> starts_with ''0'' millis" "list_all ascii_digit millis"
    and sfx: "length suffix = PUBLIC_CHANNEL_OWNER_SUFFIX_LEN" "list_all lower_hex suffix"
    and p: "parse_i64 millis = Some t" and pos: "0 < t"
    by (auto simp: public_channel_created_at_ms_def Let_def strip_prefix_Some split_once_Some
        split: option.splits if_splits prod.splits)
  obtain c s where cs: "millis = c # s" using p by (cases millis) (auto simp: parse_i64_def)
  then have "c \<noteq> CHR ''-''" "c \<noteq> CHR ''+''" using z(2) by auto
  then have r: "read_digits 0 millis = Some (nat t)" and i: "is_i64 t"
    using p cs by (auto simp: parse_i64_def parse_magnitude_def split: option.splits if_splits)
  then have "show_int t = millis"
    using show_nat_read_digits [OF r] cs z(1) pos by (simp add: show_int_def)
  with cid sfx pos i show "\<exists>suffix. cid = PUBLIC_CHANNEL_ID_PREFIX @ show_int t @ ''-'' @ suffix \<and>
      0 < t \<and> is_i64 t \<and> length suffix = PUBLIC_CHANNEL_OWNER_SUFFIX_LEN \<and> list_all lower_hex suffix"
    by auto
next
  assume "\<exists>suffix. cid = PUBLIC_CHANNEL_ID_PREFIX @ show_int t @ ''-'' @ suffix \<and> 0 < t \<and> is_i64 t \<and>
      length suffix = PUBLIC_CHANNEL_OWNER_SUFFIX_LEN \<and> list_all lower_hex suffix"
  then obtain suffix where cid: "cid = PUBLIC_CHANNEL_ID_PREFIX @ show_int t @ CHR ''-'' # suffix"
    and t: "0 < t" "is_i64 t"
    and sfx: "length suffix = PUBLIC_CHANNEL_OWNER_SUFFIX_LEN" "list_all lower_hex suffix" by auto
  have d: "show_int t = show_nat (nat t)" using t by (simp add: show_int_def)
  have "split_once (CHR ''-'') (show_int t @ CHR ''-'' # suffix) = Some (show_int t, suffix)"
    by (rule split_once_append) (simp add: d minus_not_digit show_nat_digits)
  moreover have "\<not> starts_with ''0'' (show_int t)" using show_nat_leading t(1) d by simp
  ultimately show "public_channel_created_at_ms cid = Some t"
    using cid t sfx parse_i64_show_int [OF t(2)]
    by (simp add: public_channel_created_at_ms_def d show_nat_digits)
qed

lemma rsplit_once_append: "sep \<notin> set b \<Longrightarrow> rsplit_once sep (a @ sep # b) = Some (a, b)"
  using split_once_append [of sep "rev b" "rev a"] by (simp add: rsplit_once_def)

lemma is_public_channel_of_iff:
  assumes "cid = PUBLIC_CHANNEL_ID_PREFIX @ show_int t @ ''-'' @ suffix" "0 < t" "is_i64 t"
    "length suffix = PUBLIC_CHANNEL_OWNER_SUFFIX_LEN" "list_all lower_hex suffix"
  shows "is_public_channel_of cid pubkey \<longleftrightarrow> starts_with suffix pubkey"
proof -
  have "public_channel_created_at_ms cid = Some t" using assms public_channel_id_iff by blast
  moreover have "rsplit_once (CHR ''-'') ((PUBLIC_CHANNEL_ID_PREFIX @ show_int t) @ CHR ''-'' # suffix) =
      Some (PUBLIC_CHANNEL_ID_PREFIX @ show_int t, suffix)"
    by (rule rsplit_once_append) (simp add: assms(5) minus_not_lower_hex)
  ultimately show ?thesis by (simp add: is_public_channel_of_def is_public_channel_def assms(1))
qed

lemma str_get_to_hex:
  assumes "list_all lower_hex s" "n \<le> length s"
  shows "str_get_to n s = Some (take n s)"
proof -
  have "\<not> is_continuation (s ! n)" if "n < length s"
  proof -
    have "lower_hex (s ! n)" using assms(1) that by (simp add: list_all_length)
    then show ?thesis
      by (auto simp: lower_hex_def ascii_digit_def is_continuation_def less_eq_char_def less_char_def)
  qed
  with assms(2) show ?thesis by (auto simp: str_get_to_def)
qed

lemma list_all_take: "list_all P s \<Longrightarrow> list_all P (take n s)"
  by (metis append_take_drop_id list_all_append)

lemma validate_public_channel_Inr:
  "validate_public_channel c = Inr t \<longleftrightarrow>
     (if pch_deleted c then pch_title c = [] \<and> pch_revision c > 0
      else trim (pch_title c) \<noteq> [] \<and> trim (pch_title c) = pch_title c \<and>
        chars_count (pch_title c) \<le> PUBLIC_CHANNEL_MAX_TITLE_CHARS) \<and>
     pch_topic_id c \<noteq> [] \<and> public_channel_created_at_ms (pch_channel_id c) = Some t"
  by (auto simp: validate_public_channel_def Let_def result_simps)

text \<open>
  A public channel's identifier carries its creation time and its creator: the identifier made
  for a positive time and a hexadecimal key of at least sixteen digits parses back to that time and
  belongs to that key, and every identifier that parses at all is the one made from its own time
  and owner digits, so no two spellings name one channel.
\<close>

lemma public_channel_id_round_trip:
  "(0 < t \<and> is_i64 t \<and> list_all lower_hex pk \<and> 16 \<le> length pk \<longrightarrow>
     public_channel_created_at_ms (public_channel t pk) = Some t \<and>
     is_public_channel_of (public_channel t pk) pk) \<and>
   (public_channel_created_at_ms cid = Some t \<longrightarrow>
     (\<exists>owner. length owner = 16 \<and> list_all lower_hex owner \<and> cid = public_channel t owner))"
proof (intro conjI impI)
  assume a: "0 < t \<and> is_i64 t \<and> list_all lower_hex pk \<and> 16 \<le> length pk"
  let ?s = "take 16 pk"
  have id: "public_channel t pk = PUBLIC_CHANNEL_ID_PREFIX @ show_int t @ ''-'' @ ?s"
    using a by (simp add: public_channel_def str_get_to_hex PUBLIC_CHANNEL_OWNER_SUFFIX_LEN_def)
  have s: "length ?s = PUBLIC_CHANNEL_OWNER_SUFFIX_LEN" "list_all lower_hex ?s"
    using a by (simp_all add: PUBLIC_CHANNEL_OWNER_SUFFIX_LEN_def list_all_take)
  show "public_channel_created_at_ms (public_channel t pk) = Some t"
    using id s a public_channel_id_iff by blast
  have "starts_with ?s pk" by (metis append_take_drop_id starts_with_append)
  then show "is_public_channel_of (public_channel t pk) pk"
    using is_public_channel_of_iff [OF id _ _ s] a by simp
next
  assume "public_channel_created_at_ms cid = Some t"
  then obtain owner where o: "cid = PUBLIC_CHANNEL_ID_PREFIX @ show_int t @ ''-'' @ owner"
    "length owner = 16" "list_all lower_hex owner"
    by (auto simp: public_channel_id_iff PUBLIC_CHANNEL_OWNER_SUFFIX_LEN_def)
  moreover have "public_channel t owner = cid"
    using o by (simp add: public_channel_def str_get_to_hex PUBLIC_CHANNEL_OWNER_SUFFIX_LEN_def)
  ultimately show "\<exists>owner. length owner = 16 \<and> list_all lower_hex owner \<and> cid = public_channel t owner"
    by metis
qed

lemma public_channel_id_round_trip_witness:
  "public_channel_created_at_ms (public_channel 1700000000000 ''0123456789abcdef00'') = Some 1700000000000 \<and>
   is_public_channel_of (public_channel 1700000000000 ''0123456789abcdef00'') ''0123456789abcdef00''"
  using public_channel_id_round_trip [of 1700000000000 "''0123456789abcdef00''"]
  by (simp add: is_i64_def lower_hex_def ascii_digit_def)

text \<open>
  C32. Public channel metadata: what \<open>verify_public_channel\<close> accepts is a verified envelope of the
  right kind whose signer's key begins with the owner digits of the channel identifier and whose
  time is the identifier's creation time in seconds, and every envelope the creator builds is
  accepted and yields the metadata that was built.
\<close>

theorem public_channel_metadata_sound_complete:
  "(verify_public_channel C J e = Inr content \<longrightarrow>
     verify C e = Inr () \<and> env_kind e = PUBLIC_CHANNEL_KIND \<and> from_json J (env_content e) = Some content \<and>
     (\<exists>t owner. pch_channel_id content = public_channel t owner \<and> length owner = 16 \<and>
        starts_with owner (env_pubkey e) \<and> env_created_at e = t div 1000)) \<and>
   (build_public_channel_envelope C J keys content = Inr e \<and> schnorr_correct C \<and> codec_round_trip J content \<longrightarrow>
     verify_public_channel C J e = Inr content)"
proof (intro conjI impI)
  assume v: "verify_public_channel C J e = Inr content"
  then obtain t where t: "public_channel_created_at_ms (pch_channel_id content) = Some t"
    and of: "is_public_channel_of (pch_channel_id content) (env_pubkey e)" "env_created_at e = t div 1000"
    by (auto simp: verify_public_channel_def result_simps validate_public_channel_Inr)
  from t obtain owner where o: "pch_channel_id content = PUBLIC_CHANNEL_ID_PREFIX @ show_int t @ ''-'' @ owner"
    "0 < t" "is_i64 t" "length owner = PUBLIC_CHANNEL_OWNER_SUFFIX_LEN" "list_all lower_hex owner"
    by (auto simp: public_channel_id_iff)
  then have "pch_channel_id content = public_channel t owner"
    by (simp add: public_channel_def str_get_to_hex)
  moreover have "starts_with owner (env_pubkey e)" using of(1) is_public_channel_of_iff [OF o] by simp
  ultimately show "\<exists>t owner. pch_channel_id content = public_channel t owner \<and> length owner = 16 \<and>
      starts_with owner (env_pubkey e) \<and> env_created_at e = t div 1000"
    using o(4) of(2) by (auto simp: PUBLIC_CHANNEL_OWNER_SUFFIX_LEN_def)
  from v show "verify C e = Inr ()" "env_kind e = PUBLIC_CHANNEL_KIND"
    "from_json J (env_content e) = Some content"
    by (auto simp: verify_public_channel_def result_simps)
next
  assume "build_public_channel_envelope C J keys content = Inr e \<and> schnorr_correct C \<and> codec_round_trip J content"
  then obtain t tags where "validate_public_channel content = Inr t"
    and "is_public_channel_of (pch_channel_id content) (public_key C keys)"
    and s: "sign_envelope_json_at C J keys PUBLIC_CHANNEL_KIND tags content (t div 1000) = Inr e"
    and c: "schnorr_correct C" "codec_round_trip J content"
    by (auto simp: build_public_channel_envelope_def Let_def result_simps)
  then show "verify_public_channel C J e = Inr content"
    using sign_envelope_json_at_decodes [OF s c(2)] sign_envelope_json_at_verifies [OF s c(1)]
    by (simp add: verify_public_channel_def)
qed

definition sample_public_channel :: KukuriPublicChannelContentV1 where
  "sample_public_channel = \<lparr>pch_channel_id = ''pc-5000-0123456789abcdef'', pch_topic_id = ''t'',
     pch_title = ''talk'', pch_first_post_id = None, pch_revision = 0, pch_deleted = False\<rparr>"

theorem public_channel_metadata_witness:
  "\<exists>e. build_public_channel_envelope sample_crypto (sample_codec sample_public_channel)
       \<lparr>secret_key = ''0123456789abcdef99''\<rparr> sample_public_channel = Inr e \<and>
     verify_public_channel sample_crypto (sample_codec sample_public_channel) e = Inr sample_public_channel"
proof -
  have "is_ok (build_public_channel_envelope sample_crypto (sample_codec sample_public_channel)
       \<lparr>secret_key = ''0123456789abcdef99''\<rparr> sample_public_channel)"
    by code_simp
  then obtain e where e: "build_public_channel_envelope sample_crypto (sample_codec sample_public_channel)
       \<lparr>secret_key = ''0123456789abcdef99''\<rparr> sample_public_channel = Inr e"
    by (auto simp: is_ok_iff)
  with public_channel_metadata_sound_complete [of sample_crypto "sample_codec sample_public_channel" e
      sample_public_channel "\<lparr>secret_key = ''0123456789abcdef99''\<rparr>"]
  show ?thesis by simp
qed

text \<open>
  The scope of stored records loses nothing: reading a post back under the scope derived from
  its channel gives that channel again, the reference is private exactly for a channel whose
  identifier is not a public channel's, and a Live of a private channel is referable only from that
  channel of that topic.
\<close>

theorem channel_scopes_faithful:
  "scope_channel_id (scope_for_channel c) = c \<and>
   channel_ref_channel_id (channel_ref_for_channel c) = c \<and>
   scope_private_channel_id (scope_for_channel c) = channel_ref_private_channel_id (channel_ref_for_channel c) \<and>
   (channel_ref_visibility (channel_ref_for_channel c) = VisPrivate \<longleftrightarrow>
      (\<exists>cid. c = Some cid \<and> \<not> is_public_channel cid)) \<and>
   (channel_ref_visibility (channel_ref_for_channel (live_channel_id r)) = VisPrivate \<longrightarrow>
      (live_allowed_in r topic c \<longleftrightarrow> topic = live_topic_id r \<and> c = live_channel_id r))"
  by (cases c; cases "live_channel_id r") (auto simp: scope_for_channel_def live_allowed_in_def)

theorem channel_scopes_faithful_witness:
  "live_allowed_in \<lparr>live_session_id = ''s'', live_topic_id = ''t'', live_channel_id = Some ''channel-1''\<rparr> ''t'' (Some ''channel-1'')"
proof -
  have "channel_ref_visibility (channel_ref_for_channel (Some ''channel-1'')) = VisPrivate"
    by code_simp
  with channel_scopes_faithful [of "Some ''channel-1''"
      "\<lparr>live_session_id = ''s'', live_topic_id = ''t'', live_channel_id = Some ''channel-1''\<rparr>" "''t''"]
  show ?thesis by simp
qed

end
