(* ===== verification/Posts.thy ===== *)
theory Posts
  imports Channels
begin

text \<open>
  Posts, comments, reposts and withdrawals
  (\<^verbatim>\<open>crates/core/src/posts.rs\<close>): the signed content, the readers of an
  envelope (\<open>thread_ref\<close>, \<open>topic_id\<close>, \<open>docs_author\<close>, \<open>to_post_object\<close>), the builders, and
  the verification of an author's withdrawal against the withdrawn post. The asset references of
  an attachment come from \<^verbatim>\<open>media.rs\<close>.
\<close>

section \<open>Data\<close>

datatype AssetRole =
  ImageOriginal | ImagePreview | VideoPoster | VideoManifest | ProfileAvatar | Attachment

record MediaOrigin =
  mo_topic_id :: string
  mo_object_id :: string
  mo_author_pubkey :: string
  mo_created_at :: i64

record AssetRef =
  asset_hash :: BlobHash
  asset_mime :: string
  asset_bytes :: u64
  asset_role :: AssetRole
  asset_origin :: "MediaOrigin option"

datatype PayloadRef =
    InlineText string
  | BlobText BlobHash string u64

datatype ObjectStatus = StatusActive | StatusEdited | StatusDeleted | StatusTombstoned

record RepostSourceSnapshotV1 =
  rs_source_object_id :: EnvelopeId
  rs_source_topic_id :: TopicId
  rs_source_author_pubkey :: Pubkey
  rs_source_object_kind :: string
  rs_content :: string
  rs_attachments :: "AssetRef list"
  rs_reply_to_object_id :: "EnvelopeId option"
  rs_root_id :: "EnvelopeId option"
  rs_content_labels :: "string list"

record KukuriPostEnvelopeContentV1 =
  pec_object_kind :: string
  pec_topic_id :: TopicId
  pec_channel_id :: "ChannelId option"
  pec_payload_ref :: PayloadRef
  pec_attachments :: "AssetRef list"
  pec_media_manifest_refs :: "string list"
  pec_visibility :: ObjectVisibility
  pec_reply_to :: "EnvelopeId option"
  pec_root_id :: "EnvelopeId option"
  pec_repost_of :: "RepostSourceSnapshotV1 option"
  pec_content_labels :: "string list"
  pec_live :: "LiveRefV1 option"

datatype WithdrawalReasonVisibility = ReasonPublic | ReasonPrivate

datatype PostWithdrawalReason = AuthorRequest | Correction | Privacy | OtherReason

record KukuriPostWithdrawalEnvelopeContentV1 =
  pwc_target_object_id :: EnvelopeId
  pwc_target_author :: Pubkey
  pwc_topic_id :: TopicId
  pwc_channel_id :: "ChannelId option"
  pwc_generation :: u64
  pwc_replacement_object_id :: "EnvelopeId option"
  pwc_reason_visibility :: WithdrawalReasonVisibility
  pwc_reason :: "PostWithdrawalReason option"

record PostWithdrawalV1 =
  pw_withdrawal_envelope_id :: EnvelopeId
  pw_target_object_id :: EnvelopeId
  pw_target_author :: Pubkey
  pw_topic_id :: TopicId
  pw_channel_id :: "ChannelId option"
  pw_withdrawn_at :: i64
  pw_generation :: u64
  pw_replacement_object_id :: "EnvelopeId option"
  pw_reason_visibility :: WithdrawalReasonVisibility
  pw_reason :: "PostWithdrawalReason option"

record KukuriPostObjectV1 =
  po_object_id :: EnvelopeId
  po_envelope_id :: EnvelopeId
  po_object_kind :: string
  po_topic_id :: TopicId
  po_channel_id :: "ChannelId option"
  po_author :: Pubkey
  po_created_at :: i64
  po_updated_at :: i64
  po_payload_ref :: PayloadRef
  po_attachments :: "AssetRef list"
  po_media_manifest_refs :: "string list"
  po_visibility :: ObjectVisibility
  po_reply_to :: "EnvelopeId option"
  po_root :: "EnvelopeId option"
  po_repost_of :: "RepostSourceSnapshotV1 option"
  po_content_labels :: "string list"
  po_live :: "LiveRefV1 option"
  po_status :: ObjectStatus
  po_signature :: string

record ThreadRef =
  thread_root :: EnvelopeId
  thread_reply_to :: "EnvelopeId option"

type_synonym post_codec = "KukuriPostEnvelopeContentV1 codec"
type_synonym withdrawal_codec = "KukuriPostWithdrawalEnvelopeContentV1 codec"

definition ADULT_CONTENT_LABEL :: string where "ADULT_CONTENT_LABEL = ''adult''"
definition DOCS_AUTHOR_TAG :: string where "DOCS_AUTHOR_TAG = ''docs_author''"

definition has_adult_content_label :: "string list \<Rightarrow> bool" where
  "has_adult_content_label labels = list_ex (\<lambda>label. label = ADULT_CONTENT_LABEL) labels"

section \<open>Reading an envelope\<close>

text \<open>\<open>tags.iter().find(first == name).and_then(|tag| tag.get(1))\<close>.\<close>

definition tag_first :: "string list \<Rightarrow> string option" where
  "tag_first tag = (case tag of [] \<Rightarrow> None | n # _ \<Rightarrow> Some n)"

definition tag_get1 :: "string list \<Rightarrow> string option" where
  "tag_get1 tag = (case tag of _ # v # _ \<Rightarrow> Some v | _ \<Rightarrow> None)"

definition tag_value :: "string \<Rightarrow> string list list \<Rightarrow> string option" where
  "tag_value name tags =
     Option.bind (find (\<lambda>tag. tag_first tag = Some name) tags) tag_get1"

definition ok_flatten :: "'a option result \<Rightarrow> 'a option" where
  "ok_flatten r = (case r of Inr v \<Rightarrow> v | Inl _ \<Rightarrow> None)"

definition is_docs_author_id :: "string \<Rightarrow> bool" where
  "is_docs_author_id v \<longleftrightarrow> length v = 64 \<and> list_all lower_hex v"

definition push_docs_author_tag :: "string list list \<Rightarrow> string option \<Rightarrow> string list list result" where
  "push_docs_author_tag tags docs_author = (case docs_author of
     None \<Rightarrow> Inr tags
   | Some a \<Rightarrow>
       if \<not> is_docs_author_id a then bail ''docs author id must be 64 lowercase hex characters''
       else Inr (tags @ [[DOCS_AUTHOR_TAG, a]]))"

definition docs_author_of :: "KukuriEnvelope \<Rightarrow> string option" where
  "docs_author_of e = opt_filter is_docs_author_id (tag_value DOCS_AUTHOR_TAG (env_tags e))"

definition post_content :: "post_codec \<Rightarrow> KukuriEnvelope \<Rightarrow> KukuriPostEnvelopeContentV1 option result" where
  "post_content J e =
     (if env_kind e \<notin> {''post'', ''comment'', ''repost''} then Inr None
      else with_context ''failed to parse post envelope content''
        (map_sum id Some (foreign ''serde_json'' (from_json J (env_content e)))))"

definition post_withdrawal_content ::
    "withdrawal_codec \<Rightarrow> KukuriEnvelope \<Rightarrow> KukuriPostWithdrawalEnvelopeContentV1 option result" where
  "post_withdrawal_content J e =
     (if env_kind e \<noteq> ''post_withdrawal'' then Inr None
      else with_context ''failed to parse post withdrawal envelope content''
        (map_sum id Some (foreign ''serde_json'' (from_json J (env_content e)))))"

definition topic_tag :: "string list \<Rightarrow> TopicId option" where
  "topic_tag tag = (if tag_first tag \<in> {Some ''topic'', Some ''context''} \<and> 2 \<le> length tag
     then Some (tag ! 1) else None)"

definition topic_id_of :: "post_codec \<Rightarrow> KukuriEnvelope \<Rightarrow> TopicId option" where
  "topic_id_of J e = opt_or
     (Option.bind (find (\<lambda>tag. topic_tag tag \<noteq> None) (env_tags e)) topic_tag)
     (map_option pec_topic_id (ok_flatten (post_content J e)))"

definition thread_ref :: "post_codec \<Rightarrow> KukuriEnvelope \<Rightarrow> ThreadRef option" where
  "thread_ref J e = (
     let root = opt_filter (\<lambda>v. trim v \<noteq> []) (tag_value ''root'' (env_tags e));
         reply = opt_filter (\<lambda>v. trim v \<noteq> []) (tag_value ''reply_to'' (env_tags e))
     in map_option
          (\<lambda>root. \<lparr>thread_root = root,
             thread_reply_to = opt_or reply
               (Option.bind (ok_flatten (post_content J e)) pec_reply_to)\<rparr>)
          (opt_or root
             (Option.bind (ok_flatten (post_content J e))
                (\<lambda>content. opt_or (pec_root_id content) (pec_reply_to content)))))"

definition to_post_object :: "post_codec \<Rightarrow> KukuriEnvelope \<Rightarrow> KukuriPostObjectV1 option result" where
  "to_post_object J e =
     rbind (post_content J e) (\<lambda>content. case content of
       None \<Rightarrow> Inr None
     | Some content \<Rightarrow> Inr (Some
         \<lparr>po_object_id = env_id e, po_envelope_id = env_id e,
          po_object_kind = pec_object_kind content, po_topic_id = pec_topic_id content,
          po_channel_id = pec_channel_id content, po_author = env_pubkey e,
          po_created_at = env_created_at e, po_updated_at = env_created_at e,
          po_payload_ref = pec_payload_ref content, po_attachments = pec_attachments content,
          po_media_manifest_refs = pec_media_manifest_refs content,
          po_visibility = pec_visibility content, po_reply_to = pec_reply_to content,
          po_root = pec_root_id content, po_repost_of = pec_repost_of content,
          po_content_labels = pec_content_labels content, po_live = pec_live content,
          po_status = StatusActive, po_signature = env_sig e\<rparr>))"

definition timeline_sort_key :: "i64 \<Rightarrow> EnvelopeId \<Rightarrow> string" where
  "timeline_sort_key created_at object_id = pad20 created_at @ ''-'' @ object_id"

section \<open>Building posts and reposts\<close>

definition reply_thread :: "post_codec \<Rightarrow> KukuriEnvelope option \<Rightarrow> ThreadRef" where
  "reply_thread J reply_to = (case Option.bind reply_to (thread_ref J) of
     Some t \<Rightarrow> t
   | None \<Rightarrow> (case reply_to of
       Some parent \<Rightarrow> \<lparr>thread_root = env_id parent, thread_reply_to = Some (env_id parent)\<rparr>
     | None \<Rightarrow> \<lparr>thread_root = [], thread_reply_to = None\<rparr>))"

definition post_envelope_content ::
    "post_codec \<Rightarrow> TopicId \<Rightarrow> PayloadRef \<Rightarrow> AssetRef list \<Rightarrow> string list \<Rightarrow> KukuriEnvelope option \<Rightarrow>
     ObjectVisibility \<Rightarrow> ChannelId option \<Rightarrow> string list \<Rightarrow> LiveRefV1 option \<Rightarrow>
     KukuriPostEnvelopeContentV1" where
  "post_envelope_content J topic payload_ref attachments media_manifest_refs reply_to visibility
     channel_id content_labels live =
     \<lparr>pec_object_kind = (if reply_to \<noteq> None then ''comment'' else ''post''),
      pec_topic_id = topic, pec_channel_id = channel_id,
      pec_payload_ref = payload_ref, pec_attachments = attachments,
      pec_media_manifest_refs = media_manifest_refs, pec_visibility = visibility,
      pec_reply_to = map_option env_id reply_to,
      pec_root_id = map_option (\<lambda>_. thread_root (reply_thread J reply_to)) reply_to,
      pec_repost_of = None, pec_content_labels = content_labels, pec_live = live\<rparr>"

definition build_post_envelope_with_docs_author ::
    "crypto_lib \<Rightarrow> u64 option \<Rightarrow> post_codec \<Rightarrow> KukuriKeys \<Rightarrow> TopicId \<Rightarrow> PayloadRef \<Rightarrow> AssetRef list \<Rightarrow>
     string list \<Rightarrow> KukuriEnvelope option \<Rightarrow> ObjectVisibility \<Rightarrow> ChannelId option \<Rightarrow> string list \<Rightarrow>
     string option \<Rightarrow> LiveRefV1 option \<Rightarrow> KukuriEnvelope result" where
  "build_post_envelope_with_docs_author C clock J keys topic payload_ref attachments
     media_manifest_refs reply_to visibility channel_id content_labels docs_author live = (
     let kind = (if reply_to \<noteq> None then ''comment'' else ''post'');
         content = post_envelope_content J topic payload_ref attachments media_manifest_refs reply_to
           visibility channel_id content_labels live;
         tags = [[''topic'', topic], [''object'', kind]]
           @ (case pec_root_id content of Some r \<Rightarrow> [[''root'', r]] | None \<Rightarrow> [])
           @ (case pec_reply_to content of Some r \<Rightarrow> [[''reply_to'', r]] | None \<Rightarrow> [])
           @ (case channel_id of Some c \<Rightarrow> [[''channel'', c]] | None \<Rightarrow> [])
     in rbind (push_docs_author_tag tags docs_author)
          (\<lambda>tags. sign_envelope_json C clock J keys kind tags content))"

definition build_post_envelope_with_payload_in_channel ::
    "crypto_lib \<Rightarrow> u64 option \<Rightarrow> post_codec \<Rightarrow> KukuriKeys \<Rightarrow> TopicId \<Rightarrow> PayloadRef \<Rightarrow> AssetRef list \<Rightarrow>
     string list \<Rightarrow> KukuriEnvelope option \<Rightarrow> ObjectVisibility \<Rightarrow> ChannelId option \<Rightarrow> string list \<Rightarrow>
     KukuriEnvelope result" where
  "build_post_envelope_with_payload_in_channel C clock J keys topic payload_ref attachments
     media_manifest_refs reply_to visibility channel_id content_labels =
     build_post_envelope_with_docs_author C clock J keys topic payload_ref attachments
       media_manifest_refs reply_to visibility channel_id content_labels None None"

definition build_post_envelope_with_payload ::
    "crypto_lib \<Rightarrow> u64 option \<Rightarrow> post_codec \<Rightarrow> KukuriKeys \<Rightarrow> TopicId \<Rightarrow> PayloadRef \<Rightarrow> AssetRef list \<Rightarrow>
     string list \<Rightarrow> KukuriEnvelope option \<Rightarrow> ObjectVisibility \<Rightarrow> KukuriEnvelope result" where
  "build_post_envelope_with_payload C clock J keys topic payload_ref attachments
     media_manifest_refs reply_to visibility =
     build_post_envelope_with_payload_in_channel C clock J keys topic payload_ref attachments
       media_manifest_refs reply_to visibility None []"

definition build_post_envelope ::
    "crypto_lib \<Rightarrow> u64 option \<Rightarrow> post_codec \<Rightarrow> KukuriKeys \<Rightarrow> TopicId \<Rightarrow> string \<Rightarrow> KukuriEnvelope option \<Rightarrow>
     KukuriEnvelope result" where
  "build_post_envelope C clock J keys topic body reply_to =
     build_post_envelope_with_payload C clock J keys topic (InlineText body) [] [] reply_to VisPublic"

definition build_repost_envelope_with_docs_author ::
    "crypto_lib \<Rightarrow> u64 option \<Rightarrow> post_codec \<Rightarrow> KukuriKeys \<Rightarrow> TopicId \<Rightarrow> RepostSourceSnapshotV1 \<Rightarrow>
     string option \<Rightarrow> string option \<Rightarrow> KukuriEnvelope result" where
  "build_repost_envelope_with_docs_author C clock J keys topic repost_of commentary docs_author =
     (if rs_source_object_kind repost_of \<notin> {''post'', ''comment''}
      then bail ''repost source object kind must be post or comment''
      else
      let normalized_commentary = opt_filter (\<lambda>v. v \<noteq> []) (map_option trim commentary);
          content = \<lparr>pec_object_kind = ''repost'', pec_topic_id = topic, pec_channel_id = None,
            pec_payload_ref = InlineText (case normalized_commentary of Some t \<Rightarrow> t | None \<Rightarrow> []),
            pec_attachments = [], pec_media_manifest_refs = [], pec_visibility = VisPublic,
            pec_reply_to = None, pec_root_id = None, pec_repost_of = Some repost_of,
            pec_content_labels = rs_content_labels repost_of, pec_live = None\<rparr>;
          tags = [[''topic'', topic], [''object'', ''repost''],
            [''source_topic'', rs_source_topic_id repost_of],
            [''source_object'', rs_source_object_id repost_of],
            [''source_author'', rs_source_author_pubkey repost_of]]
      in rbind (push_docs_author_tag tags docs_author)
           (\<lambda>tags. sign_envelope_json C clock J keys ''repost'' tags content))"

definition build_repost_envelope ::
    "crypto_lib \<Rightarrow> u64 option \<Rightarrow> post_codec \<Rightarrow> KukuriKeys \<Rightarrow> TopicId \<Rightarrow> RepostSourceSnapshotV1 \<Rightarrow>
     string option \<Rightarrow> KukuriEnvelope result" where
  "build_repost_envelope C clock J keys topic repost_of commentary =
     build_repost_envelope_with_docs_author C clock J keys topic repost_of commentary None"

section \<open>Withdrawals\<close>

definition validate_post_withdrawal_fields ::
    "EnvelopeId \<Rightarrow> u64 \<Rightarrow> EnvelopeId option \<Rightarrow> WithdrawalReasonVisibility \<Rightarrow> PostWithdrawalReason option \<Rightarrow>
     unit result" where
  "validate_post_withdrawal_fields target_object_id generation replacement_object_id
     reason_visibility reason =
     (if generation = 0 then bail ''post withdrawal generation must be greater than zero''
      else if replacement_object_id = Some target_object_id
        then bail ''post withdrawal replacement must differ from the target''
      else (case (reason_visibility, reason) of
          (ReasonPublic, None) \<Rightarrow> bail ''public post withdrawal requires a reason code''
        | (ReasonPrivate, Some _) \<Rightarrow> bail ''private withdrawal reason must not be replicated''
        | _ \<Rightarrow> Inr ()))"

definition post_withdrawal_document ::
    "KukuriEnvelope \<Rightarrow> KukuriPostEnvelopeContentV1 \<Rightarrow> u64 \<Rightarrow> EnvelopeId option \<Rightarrow>
     WithdrawalReasonVisibility \<Rightarrow> PostWithdrawalReason option \<Rightarrow> KukuriPostWithdrawalEnvelopeContentV1" where
  "post_withdrawal_document target target_content generation replacement_object_id
     reason_visibility reason =
     \<lparr>pwc_target_object_id = env_id target, pwc_target_author = env_pubkey target,
      pwc_topic_id = pec_topic_id target_content, pwc_channel_id = pec_channel_id target_content,
      pwc_generation = generation, pwc_replacement_object_id = replacement_object_id,
      pwc_reason_visibility = reason_visibility, pwc_reason = reason\<rparr>"

definition build_post_withdrawal_envelope ::
    "crypto_lib \<Rightarrow> u64 option \<Rightarrow> post_codec \<Rightarrow> withdrawal_codec \<Rightarrow> KukuriKeys \<Rightarrow> KukuriEnvelope \<Rightarrow> u64 \<Rightarrow>
     EnvelopeId option \<Rightarrow> WithdrawalReasonVisibility \<Rightarrow> PostWithdrawalReason option \<Rightarrow>
     KukuriEnvelope result" where
  "build_post_withdrawal_envelope C clock J W keys target generation replacement_object_id
     reason_visibility reason =
     rbind (with_context ''invalid target post envelope'' (verify C target)) (\<lambda>_.
     rbind (post_content J target) (\<lambda>target_content.
     rbind (ok_or ''post withdrawal target must be a post'' target_content) (\<lambda>target_content.
     if public_key C keys \<noteq> env_pubkey target
     then bail ''post withdrawal signer must be the original author''
     else
     rbind (validate_post_withdrawal_fields (env_id target) generation replacement_object_id
       reason_visibility reason) (\<lambda>_.
     let content = post_withdrawal_document target target_content generation replacement_object_id
           reason_visibility reason;
         tags = [[''topic'', pec_topic_id target_content], [''object'', ''post_withdrawal''],
             [''target'', env_id target], [''target_author'', env_pubkey target],
             [''generation'', show_nat generation]]
           @ (case pec_channel_id target_content of Some c \<Rightarrow> [[''channel'', c]] | None \<Rightarrow> [])
           @ (case replacement_object_id of Some r \<Rightarrow> [[''replacement'', r]] | None \<Rightarrow> [])
     in sign_envelope_json C clock W keys ''post_withdrawal'' tags content))))"

definition verify_post_withdrawal ::
    "crypto_lib \<Rightarrow> post_codec \<Rightarrow> withdrawal_codec \<Rightarrow> KukuriEnvelope \<Rightarrow> KukuriEnvelope \<Rightarrow>
     PostWithdrawalV1 result" where
  "verify_post_withdrawal C J W withdrawal target =
     rbind (with_context ''invalid post withdrawal envelope'' (verify C withdrawal)) (\<lambda>_.
     rbind (with_context ''invalid target post envelope'' (verify C target)) (\<lambda>_.
     rbind (post_withdrawal_content W withdrawal) (\<lambda>content.
     rbind (ok_or ''expected post withdrawal envelope'' content) (\<lambda>content.
     rbind (post_content J target) (\<lambda>target_content.
     rbind (ok_or ''post withdrawal target must be a post'' target_content) (\<lambda>target_content.
     if env_pubkey withdrawal \<noteq> env_pubkey target \<or> pwc_target_author content \<noteq> env_pubkey target
     then bail ''post withdrawal signer must be the original author''
     else if pwc_target_object_id content \<noteq> env_id target
     then bail ''post withdrawal target object does not match the original envelope''
     else if pwc_topic_id content \<noteq> pec_topic_id target_content \<or>
       pwc_channel_id content \<noteq> pec_channel_id target_content
     then bail ''post withdrawal scope does not match the original post''
     else
     rbind (validate_post_withdrawal_fields (pwc_target_object_id content) (pwc_generation content)
       (pwc_replacement_object_id content) (pwc_reason_visibility content) (pwc_reason content)) (\<lambda>_.
     Inr \<lparr>pw_withdrawal_envelope_id = env_id withdrawal,
          pw_target_object_id = pwc_target_object_id content,
          pw_target_author = pwc_target_author content, pw_topic_id = pwc_topic_id content,
          pw_channel_id = pwc_channel_id content, pw_withdrawn_at = env_created_at withdrawal,
          pw_generation = pwc_generation content,
          pw_replacement_object_id = pwc_replacement_object_id content,
          pw_reason_visibility = pwc_reason_visibility content, pw_reason = pwc_reason content\<rparr>)))))))"

section \<open>Reading back what was built\<close>

lemma tag_value_simps [simp]:
  "tag_value n [] = None"
  "tag_value n ((a # v) # tags) = (if a = n then tag_get1 (a # v) else tag_value n tags)"
  by (simp_all add: tag_value_def tag_first_def)

lemma tag_get1_simp [simp]: "tag_get1 (a # v # r) = Some v"
  by (simp add: tag_get1_def)

lemma push_docs_author_tag_Inr:
  "push_docs_author_tag tags a = Inr tags' \<longleftrightarrow>
     (case a of None \<Rightarrow> tags' = tags
      | Some v \<Rightarrow> is_docs_author_id v \<and> tags' = tags @ [[DOCS_AUTHOR_TAG, v]])"
  by (auto simp: push_docs_author_tag_def split: option.split)

text \<open>What a built post is: its tags, its document and its signer.\<close>

lemma build_post_Inr:
  assumes "build_post_envelope_with_docs_author C clock J keys topic payload atts manifests reply_to
    vis channel labels docs_author live = Inr e"
  obtains tags where
    "sign_envelope_json C clock J keys (if reply_to \<noteq> None then ''comment'' else ''post'') tags
       (post_envelope_content J topic payload atts manifests reply_to vis channel labels live) = Inr e"
    "env_tags e = tags"
    "tag_value ''root'' tags = map_option (\<lambda>_. thread_root (reply_thread J reply_to)) reply_to"
    "tag_value ''reply_to'' tags = map_option env_id reply_to"
    "tag_value DOCS_AUTHOR_TAG tags = docs_author"
    "\<And>v. docs_author = Some v \<Longrightarrow> is_docs_author_id v"
    "\<exists>rest. tags = [''topic'', topic] # rest"
proof -
  obtain tags where p: "push_docs_author_tag
      ([[''topic'', topic], [''object'', if reply_to \<noteq> None then ''comment'' else ''post'']]
        @ (case map_option (\<lambda>_. thread_root (reply_thread J reply_to)) reply_to of Some r \<Rightarrow> [[''root'', r]] | None \<Rightarrow> [])
        @ (case map_option env_id reply_to of Some r \<Rightarrow> [[''reply_to'', r]] | None \<Rightarrow> [])
        @ (case channel of Some c \<Rightarrow> [[''channel'', c]] | None \<Rightarrow> [])) docs_author = Inr tags"
    and s: "sign_envelope_json C clock J keys (if reply_to \<noteq> None then ''comment'' else ''post'') tags
       (post_envelope_content J topic payload atts manifests reply_to vis channel labels live) = Inr e"
    using assms
    by (auto simp: build_post_envelope_with_docs_author_def Let_def rbind_eq_Inr post_envelope_content_def)
  show ?thesis
  proof (rule that [OF s])
    show "env_tags e = tags" by (rule sign_envelope_json_fields [OF s])
  qed (use p in \<open>auto simp: push_docs_author_tag_Inr DOCS_AUTHOR_TAG_def split: option.splits\<close>)
qed

lemma thread_ref_of_reply:
  assumes b: "build_post_envelope_with_docs_author C clock J keys topic payload atts manifests
      (Some parent) vis channel labels docs_author live = Inr e"
    and "trim (thread_root (reply_thread J (Some parent))) \<noteq> []" "trim (env_id parent) \<noteq> []"
  shows "thread_ref J e = Some \<lparr>thread_root = thread_root (reply_thread J (Some parent)),
    thread_reply_to = Some (env_id parent)\<rparr>"
  using b by (rule build_post_Inr) (simp add: thread_ref_def assms(2,3))

lemma build_post_id:
  assumes "build_post_envelope_with_docs_author C clock J keys topic payload atts manifests reply_to
    vis channel labels docs_author live = Inr e"
  shows "\<exists>m. env_id e = hex_encode C (sha256 C m)"
  using assms
  by (elim build_post_Inr sign_envelope_json_Inr) (auto simp: sign_envelope_at_Inr)

text \<open>A post and the replies built under it, each answering any earlier one.\<close>

inductive reply_chain :: "crypto_lib \<Rightarrow> post_codec \<Rightarrow> KukuriEnvelope \<Rightarrow> KukuriEnvelope \<Rightarrow> bool"
  for C J r where
  start: "reply_chain C J r r"
| reply: "reply_chain C J r p \<Longrightarrow>
    build_post_envelope_with_docs_author C clock J keys topic payload atts manifests (Some p) vis
      channel labels docs_author live = Inr e \<Longrightarrow> reply_chain C J r e"

lemma reply_chain_root:
  assumes "reply_chain C J r e" "thread_ref J r = None" "trim (env_id r) \<noteq> []"
    and "\<And>m. trim (hex_encode C (sha256 C m)) \<noteq> []"
  shows "trim (env_id e) \<noteq> [] \<and> thread_root (reply_thread J (Some e)) = env_id r \<and>
    (e = r \<or> (\<exists>p. thread_ref J e = Some \<lparr>thread_root = env_id r, thread_reply_to = Some p\<rparr>))"
  using assms(1)
proof (induction rule: reply_chain.induct)
  case start
  then show ?case using assms(2,3) by (simp add: reply_thread_def)
next
  case (reply p clock keys topic payload atts manifests vis channel labels docs_author live e)
  have "thread_ref J e = Some \<lparr>thread_root = env_id r, thread_reply_to = Some (env_id p)\<rparr>"
    using thread_ref_of_reply [OF reply.hyps(2)] reply.IH assms(3) by simp
  moreover have "trim (env_id e) \<noteq> []"
    using build_post_id [OF reply.hyps(2)] assms(4) by auto
  ultimately show ?case using reply.hyps(1) by (auto simp: reply_thread_def)
qed

text \<open>
  C27. Threads stay together: in any sequence of replies built under a post that is itself no
  reply, each answering any earlier one of them, the next reply's thread reference names that post as
  the root and exactly the post it was built to answer as its parent.
\<close>

theorem reply_chain_keeps_root:
  assumes "reply_chain C J r p" "thread_ref J r = None" "trim (env_id r) \<noteq> []"
    and "\<And>m. trim (hex_encode C (sha256 C m)) \<noteq> []"
    and "build_post_envelope_with_docs_author C clock J keys topic payload atts manifests (Some p) vis
      channel labels docs_author live = Inr e"
  shows "thread_ref J e = Some \<lparr>thread_root = env_id r, thread_reply_to = Some (env_id p)\<rparr>"
  using thread_ref_of_reply [OF assms(5)] reply_chain_root [OF assms(1-4)] assms(3) by simp

text \<open>The instance of the witnesses: the sample library with identifiers that are never blank.\<close>

definition tagged_crypto :: crypto_lib where
  "tagged_crypto = sample_crypto\<lparr>hex_encode := (\<lambda>m. CHR ''x'' # m)\<rparr>"

lemma tagged_crypto_laws:
  "schnorr_correct tagged_crypto" "canonical_total tagged_crypto"
  "trim (hex_encode tagged_crypto m) \<noteq> []"
  by (auto simp: tagged_crypto_def sample_crypto_def schnorr_correct_def canonical_total_def
      ascii_alphanumeric_def ascii_lower_def intro!: trim_nonblank)

definition sample_post :: KukuriPostEnvelopeContentV1 where
  "sample_post = \<lparr>pec_object_kind = ''post'', pec_topic_id = ''t'', pec_channel_id = None,
     pec_payload_ref = InlineText ''hi'', pec_attachments = [], pec_media_manifest_refs = [],
     pec_visibility = VisPublic, pec_reply_to = None, pec_root_id = None, pec_repost_of = None,
     pec_content_labels = [], pec_live = None\<rparr>"

definition sample_root :: KukuriEnvelope where
  "sample_root = \<lparr>env_id = ''xroot'', env_pubkey = ''k'', env_created_at = 5, env_kind = ''post'',
     env_tags = [[''topic'', ''t''], [''object'', ''post'']], env_content = ''{}'', env_sig = ''s''\<rparr>"

lemmas build_post_wrappers = build_post_envelope_def build_post_envelope_with_payload_def
  build_post_envelope_with_payload_in_channel_def

lemma sample_reply_built:
  "\<exists>e. build_post_envelope tagged_crypto (Some n) (sample_codec sample_post) \<lparr>secret_key = ''k''\<rparr> ''t'' ''re'' (Some p) = Inr e"
  by (cases "build_post_envelope tagged_crypto (Some n) (sample_codec sample_post) \<lparr>secret_key = ''k''\<rparr> ''t'' ''re'' (Some p)")
    (auto simp: build_post_wrappers build_post_envelope_with_docs_author_def Let_def push_docs_author_tag_def
      sign_envelope_json_def sign_envelope_def sign_envelope_at_def canonical_envelope_payload_def
      tagged_crypto_def sample_crypto_def sample_codec_def)

text \<open>A reply to a reply: the root is the first post, the parent the reply between.\<close>

theorem reply_chain_keeps_root_witness:
  "\<exists>p e. build_post_envelope tagged_crypto (Some 6) (sample_codec sample_post) \<lparr>secret_key = ''k''\<rparr> ''t'' ''re'' (Some sample_root) = Inr p \<and>
     build_post_envelope tagged_crypto (Some 7) (sample_codec sample_post) \<lparr>secret_key = ''k''\<rparr> ''t'' ''re'' (Some p) = Inr e \<and>
     thread_ref (sample_codec sample_post) e = Some \<lparr>thread_root = ''xroot'', thread_reply_to = Some (env_id p)\<rparr>"
proof -
  let ?J = "sample_codec sample_post"
  obtain p e where p: "build_post_envelope tagged_crypto (Some 6) ?J \<lparr>secret_key = ''k''\<rparr> ''t'' ''re'' (Some sample_root) = Inr p"
    and e: "build_post_envelope tagged_crypto (Some 7) ?J \<lparr>secret_key = ''k''\<rparr> ''t'' ''re'' (Some p) = Inr e"
    using sample_reply_built by blast
  have chain: "reply_chain tagged_crypto ?J sample_root p"
    by (rule reply_chain.reply [OF reply_chain.start]) (use p in \<open>simp add: build_post_wrappers\<close>)
  have root: "thread_ref ?J sample_root = None" "trim (env_id sample_root) \<noteq> []"
    by code_simp+
  have "thread_ref ?J e = Some \<lparr>thread_root = env_id sample_root, thread_reply_to = Some (env_id p)\<rparr>"
    by (rule reply_chain_keeps_root [OF chain root tagged_crypto_laws(3)]) (use e in \<open>simp add: build_post_wrappers\<close>)
  with p e show ?thesis by (auto simp: sample_root_def)
qed

section \<open>Projection, ordering and withdrawal\<close>

text \<open>
  A built post reads back: its stored object is the signed document under the signer's key
  with the envelope's identifier, its topic is the given topic, and the docs author is the one
  that was declared.
\<close>

lemma built_post_reads_back:
  assumes "build_post_envelope_with_docs_author C clock J keys topic payload atts manifests reply_to
      vis channel labels docs_author live = Inr e"
    and "codec_round_trip J (post_envelope_content J topic payload atts manifests reply_to vis channel labels live)"
  shows "(\<exists>obj. to_post_object J e = Inr (Some obj) \<and> po_object_id obj = env_id e \<and>
      po_author obj = public_key C keys \<and> po_topic_id obj = topic \<and> po_channel_id obj = channel \<and>
      po_payload_ref obj = payload \<and> po_attachments obj = atts \<and> po_visibility obj = vis \<and>
      po_reply_to obj = map_option env_id reply_to \<and> po_content_labels obj = labels \<and>
      po_live obj = live \<and> po_status obj = StatusActive \<and> po_created_at obj = env_created_at e) \<and>
    topic_id_of J e = Some topic \<and> docs_author_of e = docs_author"
proof (intro conjI)
  from assms(1) show "topic_id_of J e = Some topic"
    by (rule build_post_Inr) (auto simp: topic_id_of_def topic_tag_def tag_first_def)
  from assms(1) show "docs_author_of e = docs_author"
    by (rule build_post_Inr) (cases docs_author, auto simp: docs_author_of_def)
  from assms(1) obtain tags where s:
      "sign_envelope_json C clock J keys (if reply_to \<noteq> None then ''comment'' else ''post'') tags
       (post_envelope_content J topic payload atts manifests reply_to vis channel labels live) = Inr e"
    by (rule build_post_Inr)
  show "\<exists>obj. to_post_object J e = Inr (Some obj) \<and> po_object_id obj = env_id e \<and>
      po_author obj = public_key C keys \<and> po_topic_id obj = topic \<and> po_channel_id obj = channel \<and>
      po_payload_ref obj = payload \<and> po_attachments obj = atts \<and> po_visibility obj = vis \<and>
      po_reply_to obj = map_option env_id reply_to \<and> po_content_labels obj = labels \<and>
      po_live obj = live \<and> po_status obj = StatusActive \<and> po_created_at obj = env_created_at e"
    using sign_envelope_json_decodes [OF s assms(2)]
    by (auto simp: to_post_object_def post_content_def post_envelope_content_def)
qed

lemma built_post_reads_back_witness:
  "\<exists>e. build_post_envelope sample_crypto (Some 5) (sample_codec sample_post) \<lparr>secret_key = ''k''\<rparr> ''t'' ''hi'' None = Inr e \<and>
     topic_id_of (sample_codec sample_post) e = Some ''t'' \<and> docs_author_of e = None"
proof -
  let ?J = "sample_codec sample_post"
  have doc: "post_envelope_content ?J ''t'' (InlineText ''hi'') [] [] None VisPublic None [] None = sample_post"
    by (simp add: post_envelope_content_def sample_post_def)
  obtain e where e: "build_post_envelope sample_crypto (Some 5) ?J \<lparr>secret_key = ''k''\<rparr> ''t'' ''hi'' None = Inr e"
    by (cases "build_post_envelope sample_crypto (Some 5) ?J \<lparr>secret_key = ''k''\<rparr> ''t'' ''hi'' None")
      (auto simp: build_post_wrappers build_post_envelope_with_docs_author_def Let_def
      push_docs_author_tag_def sign_envelope_json_def sign_envelope_def sign_envelope_at_def
      canonical_envelope_payload_def sample_crypto_def sample_codec_def)
  with built_post_reads_back [of sample_crypto "Some 5" ?J "\<lparr>secret_key = ''k''\<rparr>" "''t''" "InlineText ''hi''"
      "[]" "[]" None VisPublic None "[]" None None e]
  show ?thesis by (simp add: build_post_wrappers doc)
qed

text \<open>
  The timeline key orders posts by time and then by identifier, for every time from the epoch
  on: comparing the key strings is comparing the pairs.
\<close>

lemma timeline_sort_key_order:
  assumes "0 \<le> a" "is_i64 a" "0 \<le> b" "is_i64 b"
  shows "timeline_sort_key a x < timeline_sort_key b y \<longleftrightarrow> a < b \<or> a = b \<and> x < y"
proof -
  have bounds: "a < 10 ^ 20" "b < 10 ^ 20" using assms by (auto simp: is_i64_def)
  have la: "length (pad20 a) = 20" and lb: "length (pad20 b) = 20"
    using pad20_read(1) assms bounds by blast+
  have inj: "pad20 a = pad20 b \<longleftrightarrow> a = b"
    using pad20_less_iff [of a b] pad20_less_iff [of b a] assms bounds by (metis linorder_neqE order_less_irrefl)
  have "pad20 a @ u < pad20 b @ v \<longleftrightarrow> pad20 a < pad20 b \<or> pad20 a = pad20 b \<and> u < v" for u v
    by (rule append_less_iff) (simp add: la lb)
  then show ?thesis
    using inj pad20_less_iff [of a b] assms bounds by (simp add: timeline_sort_key_def)
qed

lemma timeline_sort_key_order_witness:
  "timeline_sort_key 999 ''b'' < timeline_sort_key 1000 ''a''"
  using timeline_sort_key_order [of 999 1000 "''b''" "''a''"] by (simp add: is_i64_def)

text \<open>What an accepted withdrawal has been checked for.\<close>

lemma validate_withdrawal_Inr:
  "validate_post_withdrawal_fields target g r rv why = Inr u \<longleftrightarrow>
     0 < g \<and> r \<noteq> Some target \<and> (rv = ReasonPublic \<longleftrightarrow> why \<noteq> None)"
  by (cases rv; cases why) (auto simp: validate_post_withdrawal_fields_def)

lemma post_content_Inr_Some:
  "post_content J e = Inr (Some c) \<longleftrightarrow>
     env_kind e \<in> {''post'', ''comment'', ''repost''} \<and> from_json J (env_content e) = Some c"
  by (auto simp: post_content_def with_context_def foreign_def split: option.split)

lemma post_withdrawal_content_Inr_Some:
  "post_withdrawal_content J e = Inr (Some c) \<longleftrightarrow>
     env_kind e = ''post_withdrawal'' \<and> from_json J (env_content e) = Some c"
  by (auto simp: post_withdrawal_content_def with_context_def foreign_def split: option.split)

lemma withdrawal_document_iff:
  "c = post_withdrawal_document target tc (pwc_generation c) (pwc_replacement_object_id c)
         (pwc_reason_visibility c) (pwc_reason c) \<longleftrightarrow>
     pwc_target_object_id c = env_id target \<and> pwc_target_author c = env_pubkey target \<and>
     pwc_topic_id c = pec_topic_id tc \<and> pwc_channel_id c = pec_channel_id tc"
  by (cases c) (auto simp: post_withdrawal_document_def)

lemma verify_post_withdrawal_Inr:
  "verify_post_withdrawal C J W w target = Inr pw \<longleftrightarrow> (\<exists>c tc.
     verify C w = Inr () \<and> verify C target = Inr () \<and>
     post_withdrawal_content W w = Inr (Some c) \<and> post_content J target = Inr (Some tc) \<and>
     env_pubkey w = env_pubkey target \<and>
     c = post_withdrawal_document target tc (pwc_generation c) (pwc_replacement_object_id c)
           (pwc_reason_visibility c) (pwc_reason c) \<and>
     0 < pwc_generation c \<and> pwc_replacement_object_id c \<noteq> Some (env_id target) \<and>
     (pwc_reason_visibility c = ReasonPublic \<longleftrightarrow> pwc_reason c \<noteq> None) \<and>
     pw = \<lparr>pw_withdrawal_envelope_id = env_id w, pw_target_object_id = env_id target,
          pw_target_author = env_pubkey target, pw_topic_id = pec_topic_id tc,
          pw_channel_id = pec_channel_id tc, pw_withdrawn_at = env_created_at w,
          pw_generation = pwc_generation c, pw_replacement_object_id = pwc_replacement_object_id c,
          pw_reason_visibility = pwc_reason_visibility c, pw_reason = pwc_reason c\<rparr>)"
  unfolding withdrawal_document_iff
  by (auto simp: verify_post_withdrawal_def result_simps validate_withdrawal_Inr)

text \<open>
  C26. Only the author withdraws a post: an accepted withdrawal and its target both verify, one key
  signed both, topic and channel are the target's, the generation is positive, no post replaces
  itself, and a reason code is present exactly when the reason is public.
\<close>

theorem withdrawal_sound:
  assumes "verify_post_withdrawal C J W w target = Inr pw"
  shows "verify C w = Inr () \<and> verify C target = Inr () \<and> env_pubkey w = env_pubkey target \<and>
    pw_target_author pw = env_pubkey target \<and> pw_target_object_id pw = env_id target \<and>
    (\<exists>tc. post_content J target = Inr (Some tc) \<and> pw_topic_id pw = pec_topic_id tc \<and>
       pw_channel_id pw = pec_channel_id tc) \<and>
    0 < pw_generation pw \<and> pw_replacement_object_id pw \<noteq> Some (pw_target_object_id pw) \<and>
    (pw_reason_visibility pw = ReasonPublic \<longleftrightarrow> pw_reason pw \<noteq> None)"
  using assms by (auto simp: verify_post_withdrawal_Inr)

text \<open>
  The author's own withdrawal is always accepted: what the builder signs verifies against the
  same target and gives the generation, replacement and reason that were asked for.
\<close>

lemma built_withdrawal_accepted:
  assumes "build_post_withdrawal_envelope C clock J W keys target g r rv why = Inr w"
    and "schnorr_correct C"
    and "post_content J target = Inr (Some tc)"
    and "codec_round_trip W (post_withdrawal_document target tc g r rv why)"
  shows "\<exists>pw. verify_post_withdrawal C J W w target = Inr pw \<and> pw_generation pw = g \<and>
    pw_replacement_object_id pw = r \<and> pw_reason pw = why \<and> pw_withdrawn_at pw = env_created_at w"
proof -
  obtain tags where s: "sign_envelope_json C clock W keys ''post_withdrawal'' tags
        (post_withdrawal_document target tc g r rv why) = Inr w"
    and t: "verify C target = Inr ()" "public_key C keys = env_pubkey target"
    and v: "validate_post_withdrawal_fields (env_id target) g r rv why = Inr ()"
    using assms(1,3) by (auto simp: build_post_withdrawal_envelope_def Let_def result_simps)
  note d = sign_envelope_json_decodes [OF s assms(4)]
  have "post_withdrawal_content W w = Inr (Some (post_withdrawal_document target tc g r rv why))"
    using d by (simp add: post_withdrawal_content_Inr_Some)
  then show ?thesis
    using assms(3) t v d(2) sign_envelope_json_verifies [OF s assms(2)]
    unfolding verify_post_withdrawal_Inr
    by (auto simp: post_withdrawal_document_def validate_withdrawal_Inr)
qed

definition sample_withdrawal :: KukuriPostWithdrawalEnvelopeContentV1 where
  "sample_withdrawal = \<lparr>pwc_target_object_id = ''k|5|post||{}'', pwc_target_author = ''k'', pwc_topic_id = ''t'',
     pwc_channel_id = None, pwc_generation = 1, pwc_replacement_object_id = None,
     pwc_reason_visibility = ReasonPrivate, pwc_reason = None\<rparr>"

definition sample_target :: KukuriEnvelope where
  "sample_target = \<lparr>env_id = ''k|5|post||{}'', env_pubkey = ''k'', env_created_at = 5,
     env_kind = ''post'', env_tags = [], env_content = ''{}'', env_sig = ''kk|5|post||{}''\<rparr>"

lemma sample_withdrawal_built:
  "\<exists>w. build_post_withdrawal_envelope sample_crypto (Some 6) (sample_codec sample_post)
      (sample_codec sample_withdrawal) \<lparr>secret_key = ''k''\<rparr> sample_target 1 None ReasonPrivate None = Inr w"
proof -
  have "is_ok (build_post_withdrawal_envelope sample_crypto (Some 6) (sample_codec sample_post)
      (sample_codec sample_withdrawal) \<lparr>secret_key = ''k''\<rparr> sample_target 1 None ReasonPrivate None)"
    by code_simp
  then show ?thesis by (simp add: is_ok_iff)
qed

lemma sample_target_content: "post_content (sample_codec sample_post) sample_target = Inr (Some sample_post)"
  by (simp add: post_content_Inr_Some sample_target_def sample_codec_def)

lemma built_withdrawal_accepted_witness:
  "\<exists>w pw. build_post_withdrawal_envelope sample_crypto (Some 6) (sample_codec sample_post)
      (sample_codec sample_withdrawal) \<lparr>secret_key = ''k''\<rparr> sample_target 1 None ReasonPrivate None = Inr w \<and>
     verify_post_withdrawal sample_crypto (sample_codec sample_post) (sample_codec sample_withdrawal) w sample_target = Inr pw \<and>
     pw_generation pw = 1"
proof -
  have doc: "post_withdrawal_document sample_target sample_post 1 None ReasonPrivate None = sample_withdrawal"
    by (simp add: post_withdrawal_document_def sample_target_def sample_post_def sample_withdrawal_def)
  have rt: "codec_round_trip (sample_codec sample_withdrawal)
      (post_withdrawal_document sample_target sample_post 1 None ReasonPrivate None)"
    by (simp only: doc sample_codec_round_trip)
  obtain w where w: "build_post_withdrawal_envelope sample_crypto (Some 6) (sample_codec sample_post)
      (sample_codec sample_withdrawal) \<lparr>secret_key = ''k''\<rparr> sample_target 1 None ReasonPrivate None = Inr w"
    using sample_withdrawal_built by blast
  from built_withdrawal_accepted [OF w sample_crypto_correct sample_target_content rt] w show ?thesis
    by blast
qed

theorem withdrawal_sound_witness:
  "\<exists>w pw. verify_post_withdrawal sample_crypto (sample_codec sample_post) (sample_codec sample_withdrawal) w sample_target = Inr pw \<and>
     pw_target_author pw = env_pubkey w"
proof -
  let ?w = "\<lparr>env_id = ''k|6|post_withdrawal||{}'', env_pubkey = ''k'', env_created_at = 6,
     env_kind = ''post_withdrawal'', env_tags = [], env_content = ''{}'', env_sig = ''kk|6|post_withdrawal||{}''\<rparr>"
  have "is_ok (verify_post_withdrawal sample_crypto (sample_codec sample_post) (sample_codec sample_withdrawal) ?w sample_target)"
    by code_simp
  then obtain pw where pw: "verify_post_withdrawal sample_crypto (sample_codec sample_post) (sample_codec sample_withdrawal) ?w sample_target = Inr pw"
    by (auto simp: is_ok_iff)
  from withdrawal_sound [OF pw] have "pw_target_author pw = env_pubkey ?w" by simp
  with pw show ?thesis by blast
qed

end
