(* ===== verification/Resource_Budget.thy ===== *)
theory Resource_Budget
  imports Envelope
begin

text \<open>
  The resource budget of the metaverse
  (\<^verbatim>\<open>crates/core/src/metaverse_resource_budget.rs\<close>): the configured limits and
  their safety ceilings, the inspection of an uploaded asset, the validation of inspected metadata,
  and the check of a Dome's asset list against its budget. The image decoder and the JSON values of
  a glTF file are third-party: they enter as the arguments \<open>image_dimensions\<close> and \<open>json_lib\<close>.
\<close>

section \<open>Assets\<close>

datatype MetaverseAssetKind = Vrm | Glb | Texture | OtherAsset

record MetaverseAssetBudgetMetadataV1 =
  am_stored_bytes :: u64
  am_texture_width :: "u32 option"
  am_texture_height :: "u32 option"
  am_decoded_texture_bytes :: u64
  am_model_triangles :: u64
  am_model_primitives :: u32

record MetaverseAssetRef =
  mar_kind :: MetaverseAssetKind
  mar_blob_hash :: string
  mar_mime_type :: "string option"
  mar_size_bytes :: "u64 option"
  mar_name :: "string option"
  mar_budget_metadata :: "MetaverseAssetBudgetMetadataV1 option"

section \<open>Budgets\<close>

definition MIB :: u64 where "MIB = 1024 * 1024"
definition GIB :: u64 where "GIB = 1024 * MIB"
definition MAX_CONFIGURED_ASSET_BYTES :: u64 where "MAX_CONFIGURED_ASSET_BYTES = 2 * GIB"
definition MAX_CONFIGURED_TRIANGLES :: u64 where "MAX_CONFIGURED_TRIANGLES = 20000000"
definition MAX_TEXTURE_DIMENSION :: u32 where "MAX_TEXTURE_DIMENSION = 16384"
definition MAX_SNAPSHOT_HZ :: u32 where "MAX_SNAPSHOT_HZ = 60"
definition MAX_GLTF_JSON_BYTES :: nat where "MAX_GLTF_JSON_BYTES = 16 * 1024 * 1024"

lemmas budget_constants = MIB_def GIB_def MAX_CONFIGURED_ASSET_BYTES_def
  MAX_CONFIGURED_TRIANGLES_def MAX_TEXTURE_DIMENSION_def MAX_SNAPSHOT_HZ_def MAX_GLTF_JSON_BYTES_def

record DomeResourceBudget =
  max_persistent_props :: u32
  max_texture_bytes :: u64
  max_texture_dimension :: u32
  max_model_bytes :: u64
  max_model_triangles :: u64
  max_colliders :: u32
  max_rigid_bodies :: u32
  max_snapshot_hz :: u32

record PlayerResourceBudget =
  max_guest_props :: u32
  max_guest_prop_bytes :: u64
  max_avatar_asset_bytes :: u64
  max_prop_spawns_per_minute :: u32
  max_interactions_per_second :: u32
  max_input_bytes_per_second :: u64
  max_proposals_per_ten_minutes_per_slot :: u32
  max_impulse_centimeters :: i64
  max_audio_frames_per_second :: u32
  max_audio_bytes_per_second :: u64

record HostResourceBudget =
  max_participants :: u32
  max_simulated_rigid_bodies :: u32
  max_snapshot_bytes_per_second :: u64
  max_session_asset_bytes :: u64

record ClientResourceBudget =
  max_rendered_avatars :: u32
  max_texture_memory_bytes :: u64
  max_rendered_triangles :: u64
  max_interpolated_bodies :: u32
  max_neighbor_domes :: u32
  cache_capacity_bytes :: u64
  max_concurrent_audio_streams :: u32
  max_audio_jitter_frames :: u32

record MetaverseResourceBudgetConfig =
  dome_budget :: DomeResourceBudget
  player_budget :: PlayerResourceBudget
  host_budget :: HostResourceBudget
  client_budget :: ClientResourceBudget

definition default_budget :: MetaverseResourceBudgetConfig where
  "default_budget = \<lparr>
     dome_budget = \<lparr>max_persistent_props = 64, max_texture_bytes = 256 * MIB,
       max_texture_dimension = 8192, max_model_bytes = 256 * MIB, max_model_triangles = 2000000,
       max_colliders = 128, max_rigid_bodies = 256, max_snapshot_hz = 10\<rparr>,
     player_budget = \<lparr>max_guest_props = 16, max_guest_prop_bytes = 64 * MIB,
       max_avatar_asset_bytes = 32 * MIB, max_prop_spawns_per_minute = 12,
       max_interactions_per_second = 30, max_input_bytes_per_second = 256 * 1024,
       max_proposals_per_ten_minutes_per_slot = 8, max_impulse_centimeters = 5000,
       max_audio_frames_per_second = 50, max_audio_bytes_per_second = 32 * 1024\<rparr>,
     host_budget = \<lparr>max_participants = 64, max_simulated_rigid_bodies = 512,
       max_snapshot_bytes_per_second = 4 * MIB, max_session_asset_bytes = 512 * MIB\<rparr>,
     client_budget = \<lparr>max_rendered_avatars = 32, max_texture_memory_bytes = 512 * MIB,
       max_rendered_triangles = 3000000, max_interpolated_bodies = 256, max_neighbor_domes = 4,
       cache_capacity_bytes = GIB, max_concurrent_audio_streams = 16, max_audio_jitter_frames = 8\<rparr>\<rparr>"

definition community_node_default :: MetaverseResourceBudgetConfig where
  "community_node_default =
     default_budget\<lparr>client_budget := (client_budget default_budget)\<lparr>cache_capacity_bytes := 10 * GIB\<rparr>\<rparr>"

definition validate_budget :: "MetaverseResourceBudgetConfig \<Rightarrow> unit result" where
  "validate_budget b = (
     let d = dome_budget b; p = player_budget b; h = host_budget b; c = client_budget b;
         positive = [max_persistent_props d, max_texture_bytes d, max_texture_dimension d,
           max_model_bytes d, max_model_triangles d, max_colliders d, max_rigid_bodies d,
           max_snapshot_hz d, max_guest_props p, max_guest_prop_bytes p, max_avatar_asset_bytes p,
           max_prop_spawns_per_minute p, max_interactions_per_second p, max_input_bytes_per_second p,
           max_proposals_per_ten_minutes_per_slot p, max_audio_frames_per_second p,
           max_audio_bytes_per_second p, max_participants h, max_simulated_rigid_bodies h,
           max_snapshot_bytes_per_second h, max_session_asset_bytes h, max_rendered_avatars c,
           max_texture_memory_bytes c, max_rendered_triangles c, max_interpolated_bodies c,
           cache_capacity_bytes c, max_concurrent_audio_streams c, max_audio_jitter_frames c]
     in
     if 0 \<in> set positive \<or> max_impulse_centimeters p \<le> 0
     then bail ''metaverse resource budget values must be positive''
     else if max_snapshot_hz d > MAX_SNAPSHOT_HZ
       \<or> max_persistent_props d > 1024
       \<or> max_texture_dimension d > MAX_TEXTURE_DIMENSION
       \<or> max_texture_bytes d > MAX_CONFIGURED_ASSET_BYTES
       \<or> max_model_bytes d > MAX_CONFIGURED_ASSET_BYTES
       \<or> max_session_asset_bytes h > MAX_CONFIGURED_ASSET_BYTES
       \<or> max_texture_memory_bytes c > MAX_CONFIGURED_ASSET_BYTES
       \<or> cache_capacity_bytes c > 64 * GIB
       \<or> max_model_triangles d > MAX_CONFIGURED_TRIANGLES
       \<or> max_rendered_triangles c > MAX_CONFIGURED_TRIANGLES
       \<or> max_neighbor_domes c > 4
       \<or> max_colliders d > 4096
       \<or> max_rigid_bodies d > 4096
       \<or> max_guest_props p > 1024
       \<or> max_participants h > 512
       \<or> max_simulated_rigid_bodies h > 8192
       \<or> max_rendered_avatars c > 512
       \<or> max_interpolated_bodies c > 4096
       \<or> max_audio_frames_per_second p > 100
       \<or> max_audio_bytes_per_second p > MIB
       \<or> max_concurrent_audio_streams c > 128
       \<or> max_audio_jitter_frames c > 50
     then bail ''metaverse resource budget exceeds the safety ceiling''
     else if max_rigid_bodies d > max_simulated_rigid_bodies h
     then bail ''Dome rigid body budget cannot exceed host capacity''
     else Inr ())"

definition budget_from_json_override ::
    "MetaverseResourceBudgetConfig codec \<Rightarrow> string option \<Rightarrow> MetaverseResourceBudgetConfig result" where
  "budget_from_json_override J v =
     rbind (case v of
         Some t \<Rightarrow> if trim t = [] then Inr default_budget
           else with_context ''metaverse resource budget JSON is invalid''
             (foreign ''serde_json'' (from_json J (trim t)))
       | None \<Rightarrow> Inr default_budget) (\<lambda>budget.
     rbind (validate_budget budget) (\<lambda>_. Inr budget))"

definition community_node_from_json_override ::
    "MetaverseResourceBudgetConfig codec \<Rightarrow> string option \<Rightarrow> MetaverseResourceBudgetConfig result" where
  "community_node_from_json_override J v =
     rbind (case v of
         Some t \<Rightarrow> if trim t = [] then Inr community_node_default
           else with_context ''Community Node metaverse resource budget JSON is invalid''
             (foreign ''serde_json'' (from_json J (trim t)))
       | None \<Rightarrow> Inr community_node_default) (\<lambda>budget.
     rbind (validate_budget budget) (\<lambda>_. Inr budget))"

definition rejection ::
    "MetaverseBudgetScope \<Rightarrow> MetaverseBudgetResource \<Rightarrow> MetaverseResourceRejectionReason \<Rightarrow> u64 \<Rightarrow> u64 \<Rightarrow>
     MetaverseResourceRejection" where
  "rejection scope resource reason observed limit =
     \<lparr>rej_scope = scope, rej_resource = resource, rej_reason = reason, rej_observed = observed,
      rej_limit = limit\<rparr>"

section \<open>Asset metadata and usage\<close>

record MetaverseDomeResourceUsage =
  use_texture_bytes :: u64
  use_decoded_texture_bytes :: u64
  use_model_bytes :: u64
  use_model_triangles :: u64
  use_session_asset_bytes :: u64

definition zero_usage :: MetaverseDomeResourceUsage where
  "zero_usage = \<lparr>use_texture_bytes = 0, use_decoded_texture_bytes = 0, use_model_bytes = 0,
     use_model_triangles = 0, use_session_asset_bytes = 0\<rparr>"

definition decoded_bytes_of :: "u32 \<Rightarrow> u32 \<Rightarrow> u64" where
  "decoded_bytes_of width height = sat_u64 (sat_u64 (width * height) * 4)"

definition embedded_texture_shape_valid :: "MetaverseAssetBudgetMetadataV1 \<Rightarrow> bool" where
  "embedded_texture_shape_valid md =
     (case (am_texture_width md, am_texture_height md) of
        (None, None) \<Rightarrow> am_decoded_texture_bytes md = 0
      | (Some width, Some height) \<Rightarrow>
          width > 0 \<and> height > 0 \<and> width \<le> MAX_TEXTURE_DIMENSION \<and> height \<le> MAX_TEXTURE_DIMENSION \<and>
          am_decoded_texture_bytes md > 0 \<and> am_decoded_texture_bytes md \<le> MAX_CONFIGURED_ASSET_BYTES
      | _ \<Rightarrow> False)"

definition validate_metaverse_asset_metadata ::
    "MetaverseAssetKind \<Rightarrow> u64 option \<Rightarrow> MetaverseAssetBudgetMetadataV1 option \<Rightarrow> unit result" where
  "validate_metaverse_asset_metadata kind declared_size metadata =
     rbind (ok_or ''metaverse asset budget metadata is required'' metadata) (\<lambda>md.
     if declared_size \<noteq> Some (am_stored_bytes md) \<or> am_stored_bytes md = 0
     then bail ''metaverse asset size does not match inspected metadata''
     else case kind of
       Texture \<Rightarrow> (case (am_texture_width md, am_texture_height md) of
           (Some width, Some height) \<Rightarrow>
             if width = 0 \<or> height = 0 \<or> width > MAX_TEXTURE_DIMENSION \<or> height > MAX_TEXTURE_DIMENSION
               \<or> am_decoded_texture_bytes md \<noteq> decoded_bytes_of width height
               \<or> am_model_triangles md \<noteq> 0 \<or> am_model_primitives md \<noteq> 0
             then bail ''metaverse texture budget metadata is invalid'' else Inr ()
         | _ \<Rightarrow> bail ''metaverse texture dimensions are required'')
     | OtherAsset \<Rightarrow>
         if am_texture_width md \<noteq> None \<or> am_texture_height md \<noteq> None \<or> am_decoded_texture_bytes md \<noteq> 0
           \<or> am_model_triangles md \<noteq> 0 \<or> am_model_primitives md \<noteq> 0
         then bail ''generic metaverse asset budget metadata is invalid'' else Inr ()
     | _ \<Rightarrow>
         if \<not> embedded_texture_shape_valid md \<or> am_model_triangles md > MAX_CONFIGURED_TRIANGLES
           \<or> am_model_primitives md = 0
         then bail ''metaverse model budget metadata is invalid'' else Inr ())"

definition add_asset_usage ::
    "MetaverseAssetKind \<Rightarrow> MetaverseAssetBudgetMetadataV1 \<Rightarrow> MetaverseDomeResourceUsage \<Rightarrow>
     MetaverseDomeResourceUsage" where
  "add_asset_usage kind md usage = (
     let usage = usage\<lparr>use_session_asset_bytes := sat_u64 (use_session_asset_bytes usage + am_stored_bytes md)\<rparr>
     in case kind of
       Texture \<Rightarrow> usage\<lparr>use_texture_bytes := sat_u64 (use_texture_bytes usage + am_stored_bytes md),
         use_decoded_texture_bytes := sat_u64 (use_decoded_texture_bytes usage + am_decoded_texture_bytes md)\<rparr>
     | OtherAsset \<Rightarrow> usage
     | _ \<Rightarrow> usage\<lparr>use_model_bytes := sat_u64 (use_model_bytes usage + am_stored_bytes md),
         use_model_triangles := sat_u64 (use_model_triangles usage + am_model_triangles md),
         use_decoded_texture_bytes := sat_u64 (use_decoded_texture_bytes usage + am_decoded_texture_bytes md)\<rparr>)"

definition metaverse_dome_resource_usage :: "MetaverseAssetRef list \<Rightarrow> MetaverseDomeResourceUsage result" where
  "metaverse_dome_resource_usage assets = try_fold (\<lambda>usage asset.
     rbind (validate_metaverse_asset_metadata (mar_kind asset) (mar_size_bytes asset)
       (mar_budget_metadata asset)) (\<lambda>_.
     rbind (expect ''validated above'' (mar_budget_metadata asset)) (\<lambda>md.
     Inr (add_asset_usage (mar_kind asset) md usage)))) zero_usage assets"

definition check_limit :: "MetaverseBudgetScope \<times> MetaverseBudgetResource \<times> u64 \<times> u64 \<Rightarrow> unit result" where
  "check_limit = (\<lambda>(scope, resource, observed, limit).
     if observed > limit then reject (rejection scope resource LimitExceeded observed limit)
     else Inr ())"

definition check_texture_dimension :: "MetaverseResourceBudgetConfig \<Rightarrow> MetaverseAssetRef \<Rightarrow> unit result" where
  "check_texture_dimension budget asset =
     rbind (expect ''validated above'' (mar_budget_metadata asset)) (\<lambda>md.
     case am_texture_width md of
       None \<Rightarrow> Inr ()
     | Some width \<Rightarrow>
         check_limit (ScopeDome, TextureDimension,
           max width (case am_texture_height md of Some h \<Rightarrow> h | None \<Rightarrow> 0),
           max_texture_dimension (dome_budget budget)))"

definition validate_dome_asset_budget ::
    "MetaverseAssetRef list \<Rightarrow> MetaverseResourceBudgetConfig \<Rightarrow> MetaverseDomeResourceUsage result" where
  "validate_dome_asset_budget assets budget =
     rbind (metaverse_dome_resource_usage assets) (\<lambda>usage.
     rbind (try_each check_limit
       [(ScopeDome, TextureBytes, use_texture_bytes usage, max_texture_bytes (dome_budget budget)),
        (ScopeDome, ModelBytes, use_model_bytes usage, max_model_bytes (dome_budget budget)),
        (ScopeDome, ModelTriangles, use_model_triangles usage, max_model_triangles (dome_budget budget)),
        (ScopeHost, SessionAssetBytes, use_session_asset_bytes usage,
          max_session_asset_bytes (host_budget budget))]) (\<lambda>_.
     rbind (try_each (check_texture_dimension budget) assets) (\<lambda>_.
     Inr usage)))"

section \<open>Inspection\<close>

record image_lib =
  guessed_format :: "string \<Rightarrow> string option"
  into_dimensions :: "string \<Rightarrow> (u32 \<times> u32) option"

record 'v json_lib =
  json_from_slice :: "string \<Rightarrow> 'v option"
  json_get :: "'v \<Rightarrow> string \<Rightarrow> 'v option"
  json_as_array :: "'v \<Rightarrow> 'v list option"
  json_as_u64 :: "'v \<Rightarrow> u64 option"

fun le_bytes_value :: "string \<Rightarrow> nat" where
  "le_bytes_value [] = 0"
| "le_bytes_value (b # bs) = of_char b + 256 * le_bytes_value bs"

definition be_bytes_value :: "string \<Rightarrow> nat" where
  "be_bytes_value bs = le_bytes_value (rev bs)"

definition png_signature :: string where
  "png_signature = [CHR 0x89, CHR ''P'', CHR ''N'', CHR ''G'', CHR 0x0D, CHR 0x0A, CHR 0x1A, CHR 0x0A]"

definition glb_parts :: "string \<Rightarrow> (string \<times> string option) result" where
  "glb_parts bytes =
     (if length bytes < 20 then bail ''metaverse model must be a binary glTF/VRM asset'' else
     rbind (slice 0 4 bytes) (\<lambda>magic.
     if magic \<noteq> ''glTF'' then bail ''metaverse model must be a binary glTF/VRM asset'' else
     rbind (slice 4 8 bytes) (\<lambda>version.
     rbind (slice 8 12 bytes) (\<lambda>declared.
     rbind (slice 12 16 bytes) (\<lambda>jlen.
     rbind (slice 16 20 bytes) (\<lambda>ctype.
     let version = le_bytes_value version; declared_length = le_bytes_value declared;
         json_length = le_bytes_value jlen; chunk_type = le_bytes_value ctype in
     if version \<noteq> 2 \<or> declared_length \<noteq> length bytes \<or> chunk_type \<noteq> 0x4e4f534a \<or> json_length = 0
       \<or> json_length > MAX_GLTF_JSON_BYTES \<or> sat_u64 (20 + json_length) > length bytes
     then bail ''metaverse model GLB header is invalid'' else
     let json_end = 20 + json_length in
     rbind (if json_end = length bytes then Inr None
       else if length bytes - json_end < 8 then bail ''metaverse model binary chunk header is invalid''
       else
       rbind (slice json_end (json_end + 4) bytes) (\<lambda>blen.
       rbind (slice (json_end + 4) (json_end + 8) bytes) (\<lambda>btype.
       let binary_length = le_bytes_value blen; binary_type = le_bytes_value btype;
           binary_start = json_end + 8; binary_end = binary_start + binary_length in
       if binary_end > u64_max then bail ''metaverse model binary chunk overflows''
       else if binary_type \<noteq> 0x004e4942 \<or> binary_end \<noteq> length bytes
       then bail ''metaverse model binary chunk is invalid''
       else rbind (slice binary_start binary_end bytes) (\<lambda>b. Inr (Some b))))) (\<lambda>binary.
     rbind (slice 20 json_end bytes) (\<lambda>json. Inr (json, binary)))))))))"

definition inspect_texture_dimensions :: "image_lib \<Rightarrow> string \<Rightarrow> (u32 \<times> u32) result" where
  "inspect_texture_dimensions I bytes =
     rbind (if length bytes \<ge> 24 \<and> take 8 bytes = png_signature \<and> take 4 (drop 12 bytes) = ''IHDR''
       then rbind (slice 16 20 bytes) (\<lambda>w. rbind (slice 20 24 bytes) (\<lambda>h.
         Inr (be_bytes_value w, be_bytes_value h)))
       else
         rbind (with_context ''metaverse texture format is not recognized''
           (foreign ''image'' (guessed_format I bytes))) (\<lambda>reader.
         with_context ''metaverse texture dimensions are invalid''
           (foreign ''image'' (into_dimensions I reader)))) (\<lambda>(width, height).
     if width = 0 \<or> height = 0 \<or> width > MAX_TEXTURE_DIMENSION \<or> height > MAX_TEXTURE_DIMENSION
     then bail ''metaverse texture dimensions exceed the inspection ceiling''
     else Inr (width, height))"

definition count_primitive :: "'v json_lib \<Rightarrow> 'v list \<Rightarrow> u64 \<times> u32 \<Rightarrow> 'v \<Rightarrow> (u64 \<times> u32) result" where
  "count_primitive L accessors = (\<lambda>(triangles, primitives) primitive.
     let primitives = sat_u32 (primitives + 1) in
     rbind (ok_or ''metaverse model primitive has no countable vertices''
       (opt_or (Option.bind (json_get L primitive ''indices'') (json_as_u64 L))
         (Option.bind (Option.bind (json_get L primitive ''attributes'')
            (\<lambda>v. json_get L v ''POSITION'')) (json_as_u64 L)))) (\<lambda>accessor_index.
     rbind (ok_or ''metaverse model accessor count is invalid''
       (Option.bind (Option.bind (nth_opt accessors accessor_index) (\<lambda>v. json_get L v ''count''))
         (json_as_u64 L))) (\<lambda>count.
     let mode = (case Option.bind (json_get L primitive ''mode'') (json_as_u64 L) of
           Some m \<Rightarrow> m | None \<Rightarrow> 4);
         primitive_triangles = (if mode = 4 then count div 3
           else if mode = 5 \<or> mode = 6 then count - 2 else 0);
         triangles = sat_u64 (triangles + primitive_triangles) in
     if triangles > MAX_CONFIGURED_TRIANGLES \<or> primitives > 100000
     then bail ''metaverse model complexity exceeds the inspection ceiling''
     else Inr (triangles, primitives))))"

definition count_mesh :: "'v json_lib \<Rightarrow> 'v list \<Rightarrow> u64 \<times> u32 \<Rightarrow> 'v \<Rightarrow> (u64 \<times> u32) result" where
  "count_mesh L accessors st mesh =
     rbind (ok_or ''metaverse model mesh has no primitives''
       (Option.bind (json_get L mesh ''primitives'') (json_as_array L))) (\<lambda>mesh_primitives.
     try_fold (count_primitive L accessors) st mesh_primitives)"

definition measure_image ::
    "image_lib \<Rightarrow> 'v json_lib \<Rightarrow> string \<Rightarrow> 'v list \<Rightarrow> u32 \<times> u32 \<times> u64 \<Rightarrow> 'v \<Rightarrow> (u32 \<times> u32 \<times> u64) result" where
  "measure_image I L binary buffer_views = (\<lambda>(max_width, max_height, decoded_bytes) image.
     if json_get L image ''uri'' \<noteq> None
     then bail ''metaverse model external or data URI images are not supported'' else
     rbind (ok_or ''metaverse model image buffer view is missing''
       (Option.bind (json_get L image ''bufferView'') (json_as_u64 L))) (\<lambda>view_index.
     rbind (ok_or ''metaverse model image buffer view is invalid'' (nth_opt buffer_views view_index)) (\<lambda>view.
     if (case Option.bind (json_get L view ''buffer'') (json_as_u64 L) of Some b \<Rightarrow> b | None \<Rightarrow> 0) \<noteq> 0
     then bail ''metaverse model image references an unsupported buffer'' else
     let offset = (case Option.bind (json_get L view ''byteOffset'') (json_as_u64 L) of
           Some b \<Rightarrow> b | None \<Rightarrow> 0) in
     rbind (ok_or ''metaverse model image byte length is missing''
       (Option.bind (json_get L view ''byteLength'') (json_as_u64 L))) (\<lambda>len.
     let end_at = offset + len in
     rbind (ok_or ''metaverse model image range overflows''
       (if end_at \<le> u64_max then Some end_at else None)) (\<lambda>end_at.
     rbind (ok_or ''metaverse model image range is outside the binary chunk''
       (if offset \<le> end_at \<and> end_at \<le> length binary then Some (take (end_at - offset) (drop offset binary))
        else None)) (\<lambda>image_bytes.
     rbind (inspect_texture_dimensions I image_bytes) (\<lambda>(width, height).
     let max_width = max max_width width; max_height = max max_height height;
         decoded_bytes = sat_u64 (decoded_bytes + decoded_bytes_of width height) in
     if decoded_bytes > MAX_CONFIGURED_ASSET_BYTES
     then bail ''metaverse model embedded texture memory exceeds the inspection ceiling''
     else Inr (max_width, max_height, decoded_bytes))))))))"

definition model_images ::
    "image_lib \<Rightarrow> 'v json_lib \<Rightarrow> 'v \<Rightarrow> string option \<Rightarrow> MetaverseAssetBudgetMetadataV1 \<Rightarrow>
     MetaverseAssetBudgetMetadataV1 result" where
  "model_images I L document binary metadata =
     (case Option.bind (json_get L document ''images'') (json_as_array L) of
       Some (img # imgs) \<Rightarrow>
         rbind (ok_or ''metaverse model with embedded images must contain a binary GLB chunk'' binary) (\<lambda>binary.
         rbind (ok_or ''metaverse model embedded images require buffer views''
           (Option.bind (json_get L document ''bufferViews'') (json_as_array L))) (\<lambda>buffer_views.
         rbind (try_fold (measure_image I L binary buffer_views) (0, 0, 0) (img # imgs))
           (\<lambda>(max_width, max_height, decoded_bytes).
         Inr (metadata\<lparr>am_texture_width := Some max_width, am_texture_height := Some max_height,
           am_decoded_texture_bytes := decoded_bytes\<rparr>))))
     | _ \<Rightarrow> Inr metadata)"

definition inspect_model ::
    "image_lib \<Rightarrow> 'v json_lib \<Rightarrow> MetaverseAssetBudgetMetadataV1 \<Rightarrow> string \<Rightarrow> MetaverseAssetBudgetMetadataV1 result" where
  "inspect_model I L metadata bytes =
     rbind (glb_parts bytes) (\<lambda>(json, binary).
     rbind (with_context ''metaverse model JSON is invalid''
       (foreign ''serde_json'' (json_from_slice L json))) (\<lambda>document.
     let accessors = (case Option.bind (json_get L document ''accessors'') (json_as_array L) of
           Some a \<Rightarrow> a | None \<Rightarrow> []) in
     rbind (ok_or ''metaverse model has no meshes''
       (Option.bind (json_get L document ''meshes'') (json_as_array L))) (\<lambda>meshes.
     rbind (try_fold (count_mesh L accessors) (0, 0) meshes) (\<lambda>(triangles, primitives).
     model_images I L document binary
       (metadata\<lparr>am_model_triangles := triangles, am_model_primitives := primitives\<rparr>)))))"

definition inspect_metaverse_asset ::
    "image_lib \<Rightarrow> 'v json_lib \<Rightarrow> MetaverseAssetKind \<Rightarrow> string \<Rightarrow> MetaverseAssetBudgetMetadataV1 result" where
  "inspect_metaverse_asset I L kind bytes =
     (if bytes = [] \<or> length bytes > MAX_CONFIGURED_ASSET_BYTES
      then bail ''metaverse asset size is outside the inspection limit'' else
      let metadata = \<lparr>am_stored_bytes = length bytes, am_texture_width = None, am_texture_height = None,
        am_decoded_texture_bytes = 0, am_model_triangles = 0, am_model_primitives = 0\<rparr> in
      case kind of
        Texture \<Rightarrow> rbind (inspect_texture_dimensions I bytes) (\<lambda>(width, height).
          Inr (metadata\<lparr>am_texture_width := Some width, am_texture_height := Some height,
            am_decoded_texture_bytes := decoded_bytes_of width height\<rparr>))
      | OtherAsset \<Rightarrow> Inr metadata
      | _ \<Rightarrow> inspect_model I L metadata bytes)"

section \<open>What an accepted asset list uses\<close>

definition stored_bytes_of :: "MetaverseAssetRef \<Rightarrow> nat" where
  "stored_bytes_of asset = (case mar_budget_metadata asset of Some md \<Rightarrow> am_stored_bytes md | None \<Rightarrow> 0)"

definition triangles_of :: "MetaverseAssetRef \<Rightarrow> nat" where
  "triangles_of asset = (case mar_budget_metadata asset of Some md \<Rightarrow> am_model_triangles md | None \<Rightarrow> 0)"

definition total_by :: "(MetaverseAssetRef \<Rightarrow> bool) \<Rightarrow> (MetaverseAssetRef \<Rightarrow> nat) \<Rightarrow> MetaverseAssetRef list \<Rightarrow> nat" where
  "total_by P f assets = sum_list (map f (filter P assets))"

abbreviation is_texture :: "MetaverseAssetRef \<Rightarrow> bool" where
  "is_texture asset \<equiv> mar_kind asset = Texture"

abbreviation is_model :: "MetaverseAssetRef \<Rightarrow> bool" where
  "is_model asset \<equiv> mar_kind asset = Glb \<or> mar_kind asset = Vrm"

lemma sat_u64_add: "sat_u64 (sat_u64 a + b) = sat_u64 (a + b)"
  by (auto simp: sat_u64_def)

lemma sat_u64_zero [simp]: "sat_u64 0 = 0"
  by (simp add: sat_u64_def)

lemma total_by_simps [simp]:
  "total_by P f [] = 0"
  "total_by P f (assets @ [a]) = total_by P f assets + (if P a then f a else 0)"
  by (simp_all add: total_by_def)

lemma usage_fold_totals:
  assumes "metaverse_dome_resource_usage assets = Inr u"
  shows "use_texture_bytes u = sat_u64 (total_by is_texture stored_bytes_of assets) \<and>
    use_model_bytes u = sat_u64 (total_by is_model stored_bytes_of assets) \<and>
    use_model_triangles u = sat_u64 (total_by is_model triangles_of assets) \<and>
    use_session_asset_bytes u = sat_u64 (total_by (\<lambda>_. True) stored_bytes_of assets)"
  using assms
proof (induction assets arbitrary: u rule: rev_induct)
  case Nil
  then show ?case by (auto simp: metaverse_dome_resource_usage_def zero_usage_def)
next
  case (snoc a assets)
  obtain u0 md where u0: "metaverse_dome_resource_usage assets = Inr u0"
    and md: "mar_budget_metadata a = Some md" and u: "u = add_asset_usage (mar_kind a) md u0"
    using snoc.prems
    by (auto simp: metaverse_dome_resource_usage_def try_fold_append result_simps)
  show ?case
    using snoc.IH [OF u0] md u
    by (cases "mar_kind a")
      (simp_all add: add_asset_usage_def stored_bytes_of_def triangles_of_def sat_u64_add)
qed

lemma check_limit_Inr: "check_limit (s, r, observed, limit) = Inr x \<longleftrightarrow> observed \<le> limit"
  by (auto simp: check_limit_def)

lemma check_texture_dimension_Inr:
  assumes "check_texture_dimension b a = Inr x"
  obtains md where "mar_budget_metadata a = Some md"
    "\<And>w. am_texture_width md = Some w \<Longrightarrow> w \<le> max_texture_dimension (dome_budget b) \<and>
      (\<forall>h. am_texture_height md = Some h \<longrightarrow> h \<le> max_texture_dimension (dome_budget b))"
  using assms by (auto simp: check_texture_dimension_def rbind_eq_Inr expect_eq_Inr check_limit_Inr
      split: option.splits)

text \<open>Validated metadata has both sides of a texture or neither.\<close>

lemma validate_metadata_sides:
  assumes "validate_metaverse_asset_metadata kind declared (Some md) = Inr x" "am_texture_width md = None"
  shows "am_texture_height md = None"
  using assms
  by (cases kind) (auto simp: validate_metaverse_asset_metadata_def embedded_texture_shape_valid_def split: if_splits option.splits)

lemma usage_validates:
  assumes "metaverse_dome_resource_usage assets = Inr u" "a \<in> set assets"
  shows "\<exists>x. validate_metaverse_asset_metadata (mar_kind a) (mar_size_bytes a) (mar_budget_metadata a) = Inr x"
  using assms
proof (induction assets arbitrary: u rule: rev_induct)
  case (snoc b assets)
  then show ?case
    by (auto simp: metaverse_dome_resource_usage_def try_fold_append result_simps)
qed simp

lemma budget_ceiling:
  assumes "validate_budget b = Inr ()"
  shows "max_texture_bytes (dome_budget b) < u64_max" "max_model_bytes (dome_budget b) < u64_max"
    "max_model_triangles (dome_budget b) < u64_max" "max_session_asset_bytes (host_budget b) < u64_max"
proof -
  have "max_texture_bytes (dome_budget b) \<le> MAX_CONFIGURED_ASSET_BYTES \<and>
    max_model_bytes (dome_budget b) \<le> MAX_CONFIGURED_ASSET_BYTES \<and>
    max_model_triangles (dome_budget b) \<le> MAX_CONFIGURED_TRIANGLES \<and>
    max_session_asset_bytes (host_budget b) \<le> MAX_CONFIGURED_ASSET_BYTES"
    using assms by (simp add: validate_budget_def Let_def if_bail_eq_Inr not_less)
  then show "max_texture_bytes (dome_budget b) < u64_max" "max_model_bytes (dome_budget b) < u64_max"
    "max_model_triangles (dome_budget b) < u64_max" "max_session_asset_bytes (host_budget b) < u64_max"
    by (simp_all add: budget_constants)
qed

text \<open>
  C12. An accepted Dome fits its budget exactly: when a validated budget accepts an asset list, the
  true sums (no saturation hides an excess) of texture bytes, model bytes, triangles and all stored
  bytes are within the limits and are what is reported, and neither side of any texture, alone or
  embedded in a model, exceeds the dimension limit.
\<close>

theorem accepted_assets_within_budget:
  assumes "validate_dome_asset_budget assets b = Inr u" "validate_budget b = Inr ()"
  shows "use_texture_bytes u = total_by is_texture stored_bytes_of assets \<and>
      use_texture_bytes u \<le> max_texture_bytes (dome_budget b) \<and>
    use_model_bytes u = total_by is_model stored_bytes_of assets \<and>
      use_model_bytes u \<le> max_model_bytes (dome_budget b) \<and>
    use_model_triangles u = total_by is_model triangles_of assets \<and>
      use_model_triangles u \<le> max_model_triangles (dome_budget b) \<and>
    use_session_asset_bytes u = total_by (\<lambda>_. True) stored_bytes_of assets \<and>
      use_session_asset_bytes u \<le> max_session_asset_bytes (host_budget b) \<and>
    (\<forall>a \<in> set assets. \<exists>md. mar_budget_metadata a = Some md \<and>
       (\<forall>w. am_texture_width md = Some w \<longrightarrow> w \<le> max_texture_dimension (dome_budget b)) \<and>
       (\<forall>h. am_texture_height md = Some h \<longrightarrow> h \<le> max_texture_dimension (dome_budget b)))"
proof -
  have u: "metaverse_dome_resource_usage assets = Inr u"
    and le: "use_texture_bytes u \<le> max_texture_bytes (dome_budget b)"
      "use_model_bytes u \<le> max_model_bytes (dome_budget b)"
      "use_model_triangles u \<le> max_model_triangles (dome_budget b)"
      "use_session_asset_bytes u \<le> max_session_asset_bytes (host_budget b)"
    and dim: "\<forall>a \<in> set assets. check_texture_dimension b a = Inr ()"
    using assms(1)
    by (auto simp: validate_dome_asset_budget_def result_simps try_each_eq_Inr check_limit_Inr)
  note t = usage_fold_totals [OF u] and ceil = budget_ceiling [OF assms(2)]
  have "\<exists>md. mar_budget_metadata a = Some md \<and>
      (\<forall>w. am_texture_width md = Some w \<longrightarrow> w \<le> max_texture_dimension (dome_budget b)) \<and>
      (\<forall>h. am_texture_height md = Some h \<longrightarrow> h \<le> max_texture_dimension (dome_budget b))"
    if a: "a \<in> set assets" for a
  proof -
    obtain md where md: "mar_budget_metadata a = Some md"
      and sides: "\<And>w. am_texture_width md = Some w \<Longrightarrow> w \<le> max_texture_dimension (dome_budget b) \<and>
        (\<forall>h. am_texture_height md = Some h \<longrightarrow> h \<le> max_texture_dimension (dome_budget b))"
      using dim a check_texture_dimension_Inr by metis
    moreover have "am_texture_width md \<noteq> None \<or> am_texture_height md = None"
      using usage_validates [OF u a] unfolding md by (cases "am_texture_width md") (auto dest: validate_metadata_sides)
    ultimately show ?thesis by (cases "am_texture_width md") auto
  qed
  moreover have "use_texture_bytes u = total_by is_texture stored_bytes_of assets"
    using t le(1) ceil(1) sat_u64_le by metis
  moreover have "use_model_bytes u = total_by is_model stored_bytes_of assets"
    using t le(2) ceil(2) sat_u64_le by metis
  moreover have "use_model_triangles u = total_by is_model triangles_of assets"
    using t le(3) ceil(3) sat_u64_le by metis
  moreover have "use_session_asset_bytes u = total_by (\<lambda>_. True) stored_bytes_of assets"
    using t le(4) ceil(4) sat_u64_le by metis
  ultimately show ?thesis using le by blast
qed

definition sample_texture :: MetaverseAssetRef where
  "sample_texture = \<lparr>mar_kind = Texture, mar_blob_hash = ''h'', mar_mime_type = None,
     mar_size_bytes = Some 100, mar_name = None,
     mar_budget_metadata = Some \<lparr>am_stored_bytes = 100, am_texture_width = Some 4, am_texture_height = Some 4,
       am_decoded_texture_bytes = 64, am_model_triangles = 0, am_model_primitives = 0\<rparr>\<rparr>"

lemma default_budget_valid:
  "validate_budget default_budget = Inr ()" "validate_budget community_node_default = Inr ()"
  by (simp_all add: validate_budget_def community_node_default_def default_budget_def budget_constants)

lemmas sample_texture_evaluates = validate_dome_asset_budget_def metaverse_dome_resource_usage_def
  validate_metaverse_asset_metadata_def sample_texture_def decoded_bytes_of_def sat_u64_def
  add_asset_usage_def zero_usage_def try_each_def check_limit_def check_texture_dimension_def

theorem accepted_assets_within_budget_witness:
  "\<exists>u. validate_dome_asset_budget [sample_texture, sample_texture] default_budget = Inr u \<and>
     use_texture_bytes u = 200"
proof -
  have ok: "is_ok (validate_dome_asset_budget [sample_texture, sample_texture] default_budget)"
    by (simp add: sample_texture_evaluates default_budget_def budget_constants)
  then obtain u where u: "validate_dome_asset_budget [sample_texture, sample_texture] default_budget = Inr u"
    by (auto simp: is_ok_iff)
  from accepted_assets_within_budget [OF u default_budget_valid(1)] u show ?thesis
    by (simp add: total_by_def sample_texture_def stored_bytes_of_def)
qed

lemma check_limit_Inl: "check_limit (s, r, observed, limit) = Inl e \<Longrightarrow>
    e = Rejected (rejection s r LimitExceeded observed limit) \<and> observed > limit"
  by (auto simp: check_limit_def reject_def split: if_splits)

lemma validate_metadata_not_rejected: "validate_metaverse_asset_metadata k d m \<noteq> Inl (Rejected r)"
  by (cases m; cases k)
    (auto simp: validate_metaverse_asset_metadata_def bail_def split: option.splits)

lemma usage_not_rejected: "metaverse_dome_resource_usage assets \<noteq> Inl (Rejected r)"
proof
  assume "metaverse_dome_resource_usage assets = Inl (Rejected r)"
  from try_fold_Inl [OF this [unfolded metaverse_dome_resource_usage_def]] show False
    by (auto simp: rbind_eq_Inl expect_def validate_metadata_not_rejected split: option.splits)
qed

text \<open>
  A rejection tells the truth: when the budget check rejects an asset list with a typed
  rejection, the observed amount it reports exceeds the limit it reports.
\<close>

lemma asset_rejection_truthful:
  assumes "validate_dome_asset_budget assets b = Inl (Rejected r)"
  shows "rej_limit r < rej_observed r \<and> rej_reason r = LimitExceeded"
proof -
  have lim: "rej_limit r < rej_observed r \<and> rej_reason r = LimitExceeded"
    if "check_limit q = Inl (Rejected r)" for q
    using that by (cases q) (auto dest!: check_limit_Inl simp: rejection_def)
  have dim: "rej_limit r < rej_observed r \<and> rej_reason r = LimitExceeded"
    if "check_texture_dimension b a = Inl (Rejected r)" for a
  proof (cases "mar_budget_metadata a")
    case None
    with that show ?thesis by (simp add: check_texture_dimension_def)
  next
    case (Some md)
    with that lim show ?thesis by (auto simp: check_texture_dimension_def split: option.splits)
  qed
  obtain u where u: "metaverse_dome_resource_usage assets = Inr u"
    using assms usage_not_rejected [of assets r]
    by (cases "metaverse_dome_resource_usage assets") (simp_all add: validate_dome_asset_budget_def)
  then consider q where "check_limit q = Inl (Rejected r)"
    | a where "check_texture_dimension b a = Inl (Rejected r)"
    using assms unfolding validate_dome_asset_budget_def
    by (auto simp: rbind_eq_Inl dest!: try_each_Inl)
  then show ?thesis using lim dim by cases
qed

lemma asset_rejection_truthful_witness:
  "\<exists>r. validate_dome_asset_budget [sample_texture]
      (default_budget\<lparr>dome_budget := (dome_budget default_budget)\<lparr>max_texture_bytes := 99\<rparr>\<rparr>) = Inl (Rejected r) \<and>
     rej_limit r < rej_observed r"
proof -
  let ?b = "default_budget\<lparr>dome_budget := (dome_budget default_budget)\<lparr>max_texture_bytes := 99\<rparr>\<rparr>"
  have "(case validate_dome_asset_budget [sample_texture] ?b of Inl (Rejected _) \<Rightarrow> True | _ \<Rightarrow> False)"
    by (simp add: sample_texture_evaluates default_budget_def budget_constants reject_def rejection_def)
  then obtain r where r: "validate_dome_asset_budget [sample_texture] ?b = Inl (Rejected r)"
    by (auto split: sum.splits kerror.splits)
  with asset_rejection_truthful [OF r] show ?thesis by blast
qed

section \<open>What inspection establishes\<close>

lemma glb_parts_no_panic: "no_panic (glb_parts bytes)"
  unfolding glb_parts_def Let_def
  by (intro no_panic_rules) (auto simp: slice_eq_Inr sat_u64_def min_def split: if_splits)

lemma glb_parts_Inr:
  assumes "glb_parts bytes = Inr (json, binary)"
  shows "\<exists>n. json = take n (drop 20 bytes) \<and> 0 < n \<and> n \<le> MAX_GLTF_JSON_BYTES \<and> 20 + n \<le> length bytes \<and>
    (binary = None \<and> 20 + n = length bytes \<or>
     binary = Some (drop (20 + n + 8) bytes) \<and> 20 + n + 8 \<le> length bytes)"
  using assms
  by (auto simp: glb_parts_def Let_def result_simps sat_u64_def min_def split: if_splits
    intro!: exI [of _ "le_bytes_value (take 4 (drop 12 bytes))"])

text \<open>
  C33. A glTF container is split without loss and without a panic: the JSON chunk follows the
  twenty-byte header, the binary chunk follows an eight-byte chunk header, and the two are exactly
  the rest of the file.
\<close>

theorem glb_parts_layout:
  "no_panic (glb_parts bytes) \<and>
   (glb_parts bytes = Inr (json, binary) \<longrightarrow>
     (\<exists>header chunk. length header = 20 \<and> json \<noteq> [] \<and> length json \<le> MAX_GLTF_JSON_BYTES \<and>
        (case binary of
           None \<Rightarrow> bytes = header @ json
         | Some bin \<Rightarrow> length chunk = 8 \<and> bytes = header @ json @ chunk @ bin)))"
proof (intro conjI impI glb_parts_no_panic)
  assume "glb_parts bytes = Inr (json, binary)"
  from glb_parts_Inr [OF this] obtain n where json: "json = take n (drop 20 bytes)"
    and n: "0 < n" "n \<le> MAX_GLTF_JSON_BYTES" "20 + n \<le> length bytes"
    and bin: "binary = None \<and> 20 + n = length bytes \<or>
      binary = Some (drop (20 + n + 8) bytes) \<and> 20 + n + 8 \<le> length bytes"
    by blast
  have split: "bytes = take 20 bytes @ json @ drop (20 + n) bytes"
    unfolding json by (metis add.commute append_take_drop_id drop_drop)
  have len: "length (take 20 bytes) = 20" "json \<noteq> []" "length json \<le> MAX_GLTF_JSON_BYTES"
    using json n by auto
  show "\<exists>header chunk. length header = 20 \<and> json \<noteq> [] \<and> length json \<le> MAX_GLTF_JSON_BYTES \<and>
        (case binary of None \<Rightarrow> bytes = header @ json
         | Some bin \<Rightarrow> length chunk = 8 \<and> bytes = header @ json @ chunk @ bin)"
    using bin
  proof (elim disjE conjE)
    assume "binary = None" "20 + n = length bytes"
    with split len show ?thesis by (intro exI [of _ "take 20 bytes"]) simp
  next
    assume b: "binary = Some (drop (20 + n + 8) bytes)" "20 + n + 8 \<le> length bytes"
    have "drop (20 + n) bytes = take 8 (drop (20 + n) bytes) @ drop (20 + n + 8) bytes"
      by (metis add.commute append_take_drop_id drop_drop)
    with split have "bytes = take 20 bytes @ json @ take 8 (drop (20 + n) bytes) @ drop (20 + n + 8) bytes"
      by simp
    moreover have "length (take 8 (drop (20 + n) bytes)) = 8" using b by simp
    ultimately show ?thesis
      using len b(1) by (intro exI [of _ "take 20 bytes"] exI [of _ "take 8 (drop (20 + n) bytes)"]) simp
  qed
qed

definition sample_glb :: string where
  "sample_glb = [CHR ''g'', CHR ''l'', CHR ''T'', CHR ''F'', CHR 0x02, CHR 0x00, CHR 0x00, CHR 0x00,
     CHR 0x16, CHR 0x00, CHR 0x00, CHR 0x00, CHR 0x02, CHR 0x00, CHR 0x00, CHR 0x00,
     CHR ''J'', CHR ''S'', CHR ''O'', CHR ''N'', CHR ''{'', CHR ''}'']"

theorem glb_parts_layout_witness:
  "glb_parts sample_glb = Inr (''{}'', None) \<and> (\<exists>header. length header = 20 \<and> sample_glb = header @ ''{}'')"
proof -
  have g: "glb_parts sample_glb = Inr (''{}'', None)"
    by (simp add: sample_glb_def glb_parts_def slice_def sat_u64_def MAX_GLTF_JSON_BYTES_def)
  with glb_parts_layout [of sample_glb "''{}''" None] show ?thesis by auto
qed

lemma inspect_texture_Inr:
  assumes "inspect_texture_dimensions I bytes = Inr (w, h)"
  shows "0 < w \<and> 0 < h \<and> w \<le> MAX_TEXTURE_DIMENSION \<and> h \<le> MAX_TEXTURE_DIMENSION"
  using assms unfolding inspect_texture_dimensions_def rbind_eq_Inr [of "if _ then _ else _"]
  by (auto simp: if_bail_eq_Inr)

lemma inspect_texture_no_panic: "no_panic (inspect_texture_dimensions I bytes)"
  unfolding inspect_texture_dimensions_def by (intro no_panic_rules) (auto split: prod.split)

lemma decoded_bytes_positive: "0 < w \<Longrightarrow> 0 < h \<Longrightarrow> 0 < decoded_bytes_of w h"
  by (simp add: decoded_bytes_of_def sat_u64_def)

lemma count_primitive_Inr:
  "count_primitive L acc (t, p) x = Inr (t', p') \<Longrightarrow> t' \<le> MAX_CONFIGURED_TRIANGLES"
  by (auto simp: count_primitive_def Let_def result_simps)

lemma count_mesh_bound:
  assumes "count_mesh L acc (t, p) m = Inr (t', p')" "t \<le> MAX_CONFIGURED_TRIANGLES"
  shows "t' \<le> MAX_CONFIGURED_TRIANGLES"
proof -
  obtain prims where "try_fold (count_primitive L acc) (t, p) prims = Inr (t', p')"
    using assms(1) by (auto simp: count_mesh_def rbind_eq_Inr)
  then have "fst (t', p') \<le> MAX_CONFIGURED_TRIANGLES"
    by (rule try_fold_invariant [where I = "\<lambda>s. fst s \<le> MAX_CONFIGURED_TRIANGLES"])
      (use assms(2) count_primitive_Inr in \<open>fastforce+\<close>)
  then show ?thesis by simp
qed

lemma count_meshes_bound:
  assumes "try_fold (count_mesh L acc) (0, 0) meshes = Inr (t, p)"
  shows "t \<le> MAX_CONFIGURED_TRIANGLES"
proof -
  from assms have "fst (t, p) \<le> MAX_CONFIGURED_TRIANGLES"
    by (rule try_fold_invariant [where I = "\<lambda>s. fst s \<le> MAX_CONFIGURED_TRIANGLES"])
      (use count_mesh_bound in \<open>fastforce+\<close>)
  then show ?thesis by simp
qed

definition image_totals_ok :: "u32 \<times> u32 \<times> u64 \<Rightarrow> bool" where
  "image_totals_ok = (\<lambda>(w, h, d). 0 < w \<and> 0 < h \<and> w \<le> MAX_TEXTURE_DIMENSION \<and>
     h \<le> MAX_TEXTURE_DIMENSION \<and> 0 < d \<and> d \<le> MAX_CONFIGURED_ASSET_BYTES)"

lemma measure_image_Inr:
  assumes "measure_image I L bin views s img = Inr s'" "s = (0, 0, 0) \<or> image_totals_ok s"
  shows "image_totals_ok s'"
proof -
  obtain mw mh d where s: "s = (mw, mh, d)" by (cases s)
  from assms(1) obtain bytes w h where wh: "inspect_texture_dimensions I bytes = Inr (w, h)"
    and s': "s' = (max mw w, max mh h, sat_u64 (d + decoded_bytes_of w h))"
    and le: "sat_u64 (d + decoded_bytes_of w h) \<le> MAX_CONFIGURED_ASSET_BYTES"
    unfolding s measure_image_def Let_def by (auto simp: result_simps)
  have "0 < sat_u64 (d + decoded_bytes_of w h)"
    using decoded_bytes_positive inspect_texture_Inr [OF wh] by (simp add: sat_u64_def)
  with inspect_texture_Inr [OF wh] s s' le assms(2) show ?thesis
    by (auto simp: image_totals_ok_def max_def)
qed

lemma measure_images_ok:
  assumes "try_fold (measure_image I L bin views) (0, 0, 0) (img # imgs) = Inr s"
  shows "image_totals_ok s"
proof -
  obtain s1 where s1: "measure_image I L bin views (0, 0, 0) img = Inr s1"
    and s: "try_fold (measure_image I L bin views) s1 imgs = Inr s"
    using assms by (auto simp: rbind_eq_Inr)
  from s measure_image_Inr [OF s1] show ?thesis
    by (rule try_fold_invariant) (auto intro: measure_image_Inr)
qed

lemma inspect_model_steps:
  assumes "inspect_model I L md0 bytes = Inr md"
  obtains accessors meshes triangles primitives document binary where
    "try_fold (count_mesh L accessors) (0, 0) meshes = Inr (triangles, primitives)"
    "model_images I L document binary
       (md0\<lparr>am_model_triangles := triangles, am_model_primitives := primitives\<rparr>) = Inr md"
  using assms unfolding inspect_model_def rbind_eq_Inr Let_def by (auto simp: rbind_eq_Inr)

lemma model_images_shape:
  assumes "model_images I L document binary md0 = Inr md"
    and "am_texture_width md0 = None" "am_texture_height md0 = None" "am_decoded_texture_bytes md0 = 0"
  shows "embedded_texture_shape_valid md \<and> am_stored_bytes md = am_stored_bytes md0 \<and>
    am_model_triangles md = am_model_triangles md0 \<and> am_model_primitives md = am_model_primitives md0"
proof (cases "md = md0")
  case True
  with assms show ?thesis by (simp add: embedded_texture_shape_valid_def)
next
  case False
  then obtain bin views img imgs w h d where
    t: "try_fold (measure_image I L bin views) (0, 0, 0) (img # imgs) = Inr (w, h, d)"
    and md: "md = md0\<lparr>am_texture_width := Some w, am_texture_height := Some h, am_decoded_texture_bytes := d\<rparr>"
    using assms(1) by (auto simp: model_images_def rbind_eq_Inr simp del: try_fold.simps split: option.splits list.splits)
  from measure_images_ok [OF t] md show ?thesis
    by (simp add: image_totals_ok_def embedded_texture_shape_valid_def)
qed

lemma inspect_model_Inr:
  assumes "inspect_model I L md0 bytes = Inr md"
    and "am_texture_width md0 = None" "am_texture_height md0 = None" "am_decoded_texture_bytes md0 = 0"
  shows "am_stored_bytes md = am_stored_bytes md0 \<and> embedded_texture_shape_valid md \<and>
    am_model_triangles md \<le> MAX_CONFIGURED_TRIANGLES"
  using assms(1)
proof (rule inspect_model_steps)
  fix accessors meshes triangles primitives document binary
  assume t: "try_fold (count_mesh L accessors) (0, 0) meshes = Inr (triangles, primitives)"
    and m: "model_images I L document binary
       (md0\<lparr>am_model_triangles := triangles, am_model_primitives := primitives\<rparr>) = Inr md"
  from model_images_shape [OF m] count_meshes_bound [OF t] assms(2-4) show ?thesis by simp
qed

text \<open>
  C34. Inspection and validation agree: the metadata read off an asset's bytes passes validation
  against those bytes' length, except for a model without a single primitive, which only validation
  refuses.
\<close>

theorem inspected_metadata_validates:
  assumes "inspect_metaverse_asset I L kind bytes = Inr md"
  shows "am_stored_bytes md = length bytes \<and>
    (validate_metaverse_asset_metadata kind (Some (length bytes)) (Some md) = Inr () \<longleftrightarrow>
      (kind = Glb \<or> kind = Vrm \<longrightarrow> am_model_primitives md \<noteq> 0))"
proof -
  let ?md0 = "\<lparr>am_stored_bytes = length bytes, am_texture_width = None, am_texture_height = None,
        am_decoded_texture_bytes = 0, am_model_triangles = 0, am_model_primitives = 0\<rparr>"
  have ne: "bytes \<noteq> []" using assms by (auto simp: inspect_metaverse_asset_def)
  consider (tex) w h where "kind = Texture" "inspect_texture_dimensions I bytes = Inr (w, h)"
      "md = ?md0\<lparr>am_texture_width := Some w, am_texture_height := Some h,
        am_decoded_texture_bytes := decoded_bytes_of w h\<rparr>"
    | (other) "kind = OtherAsset" "md = ?md0"
    | (model) "kind = Glb \<or> kind = Vrm" "inspect_model I L ?md0 bytes = Inr md"
    using assms unfolding inspect_metaverse_asset_def Let_def
    by (cases kind) (auto simp: if_bail_eq_Inr rbind_eq_Inr)
  then show ?thesis
  proof cases
    case tex
    with ne inspect_texture_Inr [OF tex(2)] show ?thesis
      by (simp add: validate_metaverse_asset_metadata_def)
  next
    case other
    with ne show ?thesis by (simp add: validate_metaverse_asset_metadata_def)
  next
    case model
    with ne inspect_model_Inr [OF model(2)] show ?thesis
      by (auto simp: validate_metaverse_asset_metadata_def)
  qed
qed

theorem inspected_metadata_validates_witness:
  "\<exists>md. inspect_metaverse_asset \<lparr>guessed_format = Some, into_dimensions = (\<lambda>_. Some (4, 8))\<rparr>
      \<lparr>json_from_slice = Some, json_get = (\<lambda>_ _. None), json_as_array = (\<lambda>_. None), json_as_u64 = (\<lambda>_. None)\<rparr>
      Texture ''abc'' = Inr md \<and>
    validate_metaverse_asset_metadata Texture (Some 3) (Some md) = Inr ()"
proof -
  let ?I = "\<lparr>guessed_format = Some, into_dimensions = (\<lambda>_. Some (4, 8))\<rparr> :: image_lib"
  let ?L = "\<lparr>json_from_slice = Some, json_get = (\<lambda>_ _. None), json_as_array = (\<lambda>_. None),
    json_as_u64 = (\<lambda>_. None)\<rparr> :: string json_lib"
  obtain md where md: "inspect_metaverse_asset ?I ?L Texture ''abc'' = Inr md"
    by (simp add: inspect_metaverse_asset_def inspect_texture_dimensions_def budget_constants)
  from inspected_metadata_validates [OF md] md show ?thesis by (auto simp: numeral_3_eq_3)
qed

end
