(* ===== verification/Dome_Model.thy ===== *)
theory Dome_Model
  imports Resource_Budget
begin

text \<open>
  Domes and rooms (\<^verbatim>\<open>crates/core/src/game.rs\<close>,
  \<^verbatim>\<open>dome_envelopes.rs\<close>, the room events of
  \<^verbatim>\<open>metaverse_audio.rs\<close>, and the official game assets of
  \<^verbatim>\<open>game_assets.rs\<close>): manifests, their validators, the resolution of a room
  from an instance and its preset, environment interpolation and the fallback collider. The release
  build's \<open>i64\<close> arithmetic wraps; it is written with \<open>wrap_i64\<close> where nothing bounds the operands.
\<close>

section \<open>Game assets and action sessions\<close>

datatype GameAssetFormat =
  AssetGlb | AssetPng | AssetJpeg | AssetBundle string string

record GameAssetReleaseV1 =
  rel_application_id :: string
  rel_asset_id :: string
  rel_revision :: u64
  rel_blob_hash :: BlobHash
  rel_bytes :: u64
  rel_format :: GameAssetFormat
  rel_published_at :: i64

definition GAME_ASSET_RELEASE_KIND :: string where "GAME_ASSET_RELEASE_KIND = ''game-asset-release''"
definition GAME_ASSET_MAX_BYTES :: u64 where "GAME_ASSET_MAX_BYTES = 3 * 2 ^ 30"

fun game_asset_mime :: "GameAssetFormat \<Rightarrow> string" where
  "game_asset_mime AssetGlb = ''model/gltf-binary''"
| "game_asset_mime AssetPng = ''image/png''"
| "game_asset_mime AssetJpeg = ''image/jpeg''"
| "game_asset_mime (AssetBundle _ _) = ''application/vnd.unity.assetbundle''"

fun game_asset_extension :: "GameAssetFormat \<Rightarrow> string" where
  "game_asset_extension AssetGlb = ''glb''"
| "game_asset_extension AssetPng = ''png''"
| "game_asset_extension AssetJpeg = ''jpg''"
| "game_asset_extension (AssetBundle _ _) = ''bundle''"

fun matches_header :: "GameAssetFormat \<Rightarrow> string \<Rightarrow> bool" where
  "matches_header AssetGlb head \<longleftrightarrow> length head \<ge> 8 \<and> take 4 head = ''glTF'' \<and>
     take 4 (drop 4 head) = [CHR 0x02, CHR 0x00, CHR 0x00, CHR 0x00]"
| "matches_header AssetPng head \<longleftrightarrow> starts_with png_signature head"
| "matches_header AssetJpeg head \<longleftrightarrow> starts_with [CHR 0xFF, CHR 0xD8, CHR 0xFF] head"
| "matches_header (AssetBundle _ _) head \<longleftrightarrow> starts_with (''UnityFS'' @ [CHR 0x00]) head"

definition ascii_graphic :: "char \<Rightarrow> bool" where
  "ascii_graphic c \<longleftrightarrow> CHR ''!'' \<le> c \<and> c \<le> CHR ''~''"

definition validate_application_id :: "string \<Rightarrow> unit result" where
  "validate_application_id application_id =
     (if application_id = [] \<or> length application_id > 128 \<or> \<not> list_all ascii_graphic application_id
      then bail ''application_id must be 1-128 printable ASCII characters without spaces'' else Inr ())"

definition validate_asset_id :: "string \<Rightarrow> unit result" where
  "validate_asset_id asset_id =
     (if asset_id = [] \<or> length asset_id > 64 \<or>
        \<not> list_all (\<lambda>b. ascii_alphanumeric b \<or> b \<in> set ''._-'') asset_id
      then bail (''asset_id must be 1-64 characters of letters, digits, '' @ [CHR 0x27] @ ''.'' @ [CHR 0x27] @
        '', '' @ [CHR 0x27] @ ''_'' @ [CHR 0x27] @ '' or '' @ [CHR 0x27] @ ''-'' @ [CHR 0x27])
      else Inr ())"

definition validate_label :: "string \<Rightarrow> string \<Rightarrow> unit result" where
  "validate_label name v =
     (if v = [] \<or> length v > 64 \<or> \<not> list_all ascii_graphic v
      then bail (name @ '' must be 1-64 printable ASCII characters without spaces'') else Inr ())"

definition validate_game_asset_release :: "GameAssetReleaseV1 \<Rightarrow> unit result" where
  "validate_game_asset_release release =
     rbind (validate_application_id (rel_application_id release)) (\<lambda>_.
     rbind (validate_asset_id (rel_asset_id release)) (\<lambda>_.
     if rel_revision release = 0 then bail ''game asset revision must be at least 1''
     else if rel_bytes release = 0 \<or> rel_bytes release > GAME_ASSET_MAX_BYTES
     then bail ''game asset must be 1 byte to 3 GiB''
     else case rel_format release of
       AssetBundle unity_version build_target \<Rightarrow>
         rbind (validate_label ''unity_version'' unity_version) (\<lambda>_.
         rbind (validate_label ''build_target'' build_target) (\<lambda>_. Inr ()))
     | _ \<Rightarrow> Inr ()))"

definition build_game_asset_release_envelope ::
    "crypto_lib \<Rightarrow> u64 option \<Rightarrow> GameAssetReleaseV1 codec \<Rightarrow> KukuriKeys \<Rightarrow> GameAssetReleaseV1 \<Rightarrow>
     KukuriEnvelope result" where
  "build_game_asset_release_envelope C clock J keys release =
     rbind (validate_game_asset_release release) (\<lambda>_.
     sign_envelope_json C clock J keys GAME_ASSET_RELEASE_KIND
       [[''application'', rel_application_id release], [''asset'', rel_asset_id release],
        [''revision'', show_nat (rel_revision release)]] release)"

definition verify_game_asset_release ::
    "crypto_lib \<Rightarrow> GameAssetReleaseV1 codec \<Rightarrow> KukuriEnvelope \<Rightarrow> Pubkey \<Rightarrow> string \<Rightarrow> string \<Rightarrow>
     GameAssetReleaseV1 result" where
  "verify_game_asset_release C J envelope publisher application_id asset_id =
     rbind (verify C envelope) (\<lambda>_.
     if env_kind envelope \<noteq> GAME_ASSET_RELEASE_KIND \<or> env_pubkey envelope \<noteq> publisher
     then bail ''the game asset release is not signed by the trusted publisher''
     else
     rbind (foreign ''serde_json'' (from_json J (env_content envelope))) (\<lambda>release.
     rbind (validate_game_asset_release release) (\<lambda>_.
     if rel_application_id release \<noteq> application_id \<or> rel_asset_id release \<noteq> asset_id
     then bail ''the game asset release is for another asset''
     else Inr release)))"

record ActionSessionV1 =
  act_application_id :: string
  act_host_endpoint_id :: string
  act_max_players :: u32

definition validate_action_session :: "ActionSessionV1 \<Rightarrow> unit result" where
  "validate_action_session action =
     rbind (validate_application_id (act_application_id action)) (\<lambda>_.
     if act_host_endpoint_id action = [] then bail ''action session host endpoint id is required''
     else if act_max_players action = 0 then bail ''max_players must be at least 1''
     else Inr ())"

section \<open>Spatial contexts and the fixed Dome\<close>

type_synonym vec3 = "i64 \<times> i64 \<times> i64"

definition METAVERSE_WORLD_VERSION :: u64 where "METAVERSE_WORLD_VERSION = 7"
definition FIXED_DOME_SPEC_ID :: string where "FIXED_DOME_SPEC_ID = ''fixed_dome_v1''"

datatype SpatialContextV1 =
    ContextTopic TopicId
  | ContextChannel TopicId ChannelId

fun context_topic_id :: "SpatialContextV1 \<Rightarrow> TopicId" where
  "context_topic_id (ContextTopic t) = t"
| "context_topic_id (ContextChannel t _) = t"

fun context_channel_id :: "SpatialContextV1 \<Rightarrow> ChannelId option" where
  "context_channel_id (ContextTopic _) = None"
| "context_channel_id (ContextChannel _ c) = Some c"

fun canonical_id :: "SpatialContextV1 \<Rightarrow> string" where
  "canonical_id (ContextTopic t) = ''topic:'' @ t"
| "canonical_id (ContextChannel t c) = ''channel:'' @ t @ '':'' @ c"

datatype DomeDirection = North | East | South | West

record FixedDomeEndpointV1 =
  fde_direction :: DomeDirection
  fde_wall_midpoint_cm :: vec3
  fde_adjacent_dome_offset_cm :: vec3

record FixedDomeSpecV1 =
  fds_spec_id :: string
  fds_inner_radius_cm :: i64
  fds_outer_radius_cm :: i64
  fds_apex_height_cm :: i64
  fds_wall_thickness_cm :: i64
  fds_opening_width_cm :: i64
  fds_opening_height_cm :: i64
  fds_opening_arch_radius_cm :: i64
  fds_opening_rect_height_cm :: i64
  fds_connection_zone_depth_cm :: i64
  fds_connection_boundary_offset_cm :: i64
  fds_adjacent_dome_center_distance_cm :: i64
  fds_endpoints :: "FixedDomeEndpointV1 list"
  fds_gravity_direction :: vec3
  fds_physics_enabled :: bool

definition fixed_dome_v1 :: FixedDomeSpecV1 where
  "fixed_dome_v1 = \<lparr>
     fds_spec_id = FIXED_DOME_SPEC_ID, fds_inner_radius_cm = 2000, fds_outer_radius_cm = 2200,
     fds_apex_height_cm = 2000, fds_wall_thickness_cm = 200, fds_opening_width_cm = 500,
     fds_opening_height_cm = 1000, fds_opening_arch_radius_cm = 250,
     fds_opening_rect_height_cm = 750, fds_connection_zone_depth_cm = 1500,
     fds_connection_boundary_offset_cm = 2850, fds_adjacent_dome_center_distance_cm = 5700,
     fds_endpoints =
       [\<lparr>fde_direction = North, fde_wall_midpoint_cm = (0, 0, -2100), fde_adjacent_dome_offset_cm = (0, 0, -5700)\<rparr>,
        \<lparr>fde_direction = East, fde_wall_midpoint_cm = (2100, 0, 0), fde_adjacent_dome_offset_cm = (5700, 0, 0)\<rparr>,
        \<lparr>fde_direction = South, fde_wall_midpoint_cm = (0, 0, 2100), fde_adjacent_dome_offset_cm = (0, 0, 5700)\<rparr>,
        \<lparr>fde_direction = West, fde_wall_midpoint_cm = (-2100, 0, 0), fde_adjacent_dome_offset_cm = (-5700, 0, 0)\<rparr>],
     fds_gravity_direction = (0, -1, 0), fds_physics_enabled = True\<rparr>"

section \<open>Environment, colliders and customization\<close>

datatype DomeMaterialPreset = Concrete | Stone | Metal | Wood

record DomeSurfaceCustomizationV1 =
  wall_material :: DomeMaterialPreset
  floor_material :: DomeMaterialPreset
  wall_texture :: "MetaverseAssetRef option"
  floor_texture :: "MetaverseAssetRef option"

record DomeEnvironmentV1 =
  key_light_milli :: u32
  ambient_light_milli :: u32
  fog_density_micros :: u32
  gravity_milli :: u32

definition interpolate_component :: "nat \<Rightarrow> u32 \<Rightarrow> u32 \<Rightarrow> u32" where
  "interpolate_component progress left right = (
     let left' = int left; delta = int right - left'
     in nat ((left' + tdiv (delta * int progress) 1000) mod 2 ^ 32))"

definition interpolate_dome_environment ::
    "DomeEnvironmentV1 \<Rightarrow> DomeEnvironmentV1 \<Rightarrow> nat \<Rightarrow> DomeEnvironmentV1" where
  "interpolate_dome_environment e_from e_to progress_milli = (
     let progress = min progress_milli 1000 in
     \<lparr>key_light_milli = interpolate_component progress (key_light_milli e_from) (key_light_milli e_to),
      ambient_light_milli = interpolate_component progress (ambient_light_milli e_from) (ambient_light_milli e_to),
      fog_density_micros = interpolate_component progress (fog_density_micros e_from) (fog_density_micros e_to),
      gravity_milli = interpolate_component progress (gravity_milli e_from) (gravity_milli e_to)\<rparr>)"

datatype MetaverseInteractionKind = Grab | Throw | Push | Sit

datatype MetaversePrimitive = Cube | Sphere

datatype MetaverseColliderV1 =
    Capsule (capsule_center: vec3) (capsule_radius: i64) (capsule_half_height: i64)
  | Cuboid vec3 vec3

definition vec3_list :: "vec3 \<Rightarrow> i64 list" where
  "vec3_list = (\<lambda>(x, y, z). [x, y, z])"

definition validate_metaverse_collider :: "MetaverseColliderV1 \<Rightarrow> unit result" where
  "validate_metaverse_collider collider =
     rbind (case collider of
         Capsule center radius half_height \<Rightarrow>
           if radius \<le> 0 \<or> half_height < 0 \<or> radius > 2000 \<or> half_height > 2000
           then bail ''capsule collider dimensions are outside the supported range'' else Inr center
       | Cuboid center half_extents \<Rightarrow>
           if list_ex (\<lambda>extent. \<not> (1 \<le> extent \<and> extent \<le> 2000)) (vec3_list half_extents)
           then bail ''cuboid collider dimensions are outside the supported range'' else Inr center) (\<lambda>center.
     if list_ex (\<lambda>component. \<bar>component\<bar> > 4000) (vec3_list center)
     then bail ''collider center is outside the supported range'' else Inr ())"

definition fallback_capsule_collider :: "vec3 \<Rightarrow> vec3 \<Rightarrow> MetaverseColliderV1 result" where
  "fallback_capsule_collider = (\<lambda>(x0, y0, z0) (x1, y1, z1).
     if x0 \<ge> x1 \<or> y0 \<ge> y1 \<or> z0 \<ge> z1 then bail ''metaverse collider bounds must have positive volume''
     else
     let width = wrap_i64 (x1 - x0); height = wrap_i64 (y1 - y0); depth = wrap_i64 (z1 - z0);
         radius = tdiv (wrap_i64 (max width depth + 1)) 2;
         half_height = max (wrap_i64 (tdiv (wrap_i64 (height + 1)) 2 - radius)) 0
     in Inr (Capsule (tdiv (wrap_i64 (x0 + x1)) 2, tdiv (wrap_i64 (y0 + y1)) 2, tdiv (wrap_i64 (z0 + z1)) 2)
          radius half_height))"

record MetaversePersistentPropV1 =
  prop_id :: string
  prop_asset_ref :: "MetaverseAssetRef option"
  prop_primitive_fallback :: MetaversePrimitive
  prop_position :: vec3
  prop_rotation :: vec3
  prop_scale :: vec3
  prop_visual_only :: bool
  prop_interactions :: "MetaverseInteractionKind list"
  prop_collider :: "MetaverseColliderV1 option"

record DomeCustomizationV1 =
  cust_surface :: DomeSurfaceCustomizationV1
  cust_environment :: DomeEnvironmentV1
  cust_persistent_props :: "MetaversePersistentPropV1 list"

definition default_surface :: DomeSurfaceCustomizationV1 where
  "default_surface = \<lparr>wall_material = Concrete, floor_material = Stone, wall_texture = None, floor_texture = None\<rparr>"

definition default_environment :: DomeEnvironmentV1 where
  "default_environment = \<lparr>key_light_milli = 2400, ambient_light_milli = 400, fog_density_micros = 8000,
     gravity_milli = 9800\<rparr>"

definition default_customization :: DomeCustomizationV1 where
  "default_customization = \<lparr>cust_surface = default_surface, cust_environment = default_environment,
     cust_persistent_props = [\<lparr>prop_id = ''dome-prop-1'', prop_asset_ref = None,
       prop_primitive_fallback = Cube, prop_position = (0, 50, -240), prop_rotation = (0, 0, 0),
       prop_scale = (100, 100, 100), prop_visual_only = False,
       prop_interactions = [Grab, Throw, Push, Sit], prop_collider = None\<rparr>]\<rparr>"

record MetaverseDomeV1 =
  dome_spec_id :: string
  dome_customization :: DomeCustomizationV1

definition default_dome :: MetaverseDomeV1 where
  "default_dome = \<lparr>dome_spec_id = FIXED_DOME_SPEC_ID, dome_customization = default_customization\<rparr>"

definition validate_texture :: "MetaverseAssetRef option \<Rightarrow> string \<Rightarrow> unit result" where
  "validate_texture asset field = (case asset of
     Some a \<Rightarrow> if mar_kind a \<noteq> Texture then bail (field @ '' must reference a texture asset'') else Inr ()
   | None \<Rightarrow> Inr ())"

definition distance_squared :: "vec3 \<Rightarrow> i64" where
  "distance_squared = (\<lambda>(x, y, z).
     wrap_i64 (wrap_i64 (wrap_i64 (x * x) + wrap_i64 (y * y)) + wrap_i64 (z * z)))"

definition validate_persistent_prop :: "string set \<Rightarrow> MetaversePersistentPropV1 \<Rightarrow> string set result" where
  "validate_persistent_prop prop_ids prop =
     (if trim (prop_id prop) = [] \<or> prop_id prop \<in> prop_ids
      then bail ''persistent prop ids must be non-empty and unique''
      else if list_ex (\<lambda>scale. \<not> (1 \<le> scale \<and> scale \<le> 1000)) (vec3_list (prop_scale prop))
      then bail ''persistent prop scale is outside the supported range''
      else
      let y = fst (snd (prop_position prop)) in
      if y < 0 \<or> y > fds_apex_height_cm fixed_dome_v1 \<or>
        distance_squared (prop_position prop) >
          fds_inner_radius_cm fixed_dome_v1 * fds_inner_radius_cm fixed_dome_v1
      then bail ''persistent prop position is outside the fixed Dome''
      else if \<not> distinct (prop_interactions prop)
      then bail ''persistent prop interactions must be unique''
      else if prop_visual_only prop \<and> prop_interactions prop \<noteq> []
      then bail ''visual-only props cannot expose interactions''
      else
      rbind (case prop_collider prop of Some c \<Rightarrow> validate_metaverse_collider c | None \<Rightarrow> Inr ()) (\<lambda>_.
      Inr (insert (prop_id prop) prop_ids)))"

definition validate_dome_customization :: "DomeCustomizationV1 \<Rightarrow> unit result" where
  "validate_dome_customization c = (
     let environment = cust_environment c in
     rbind (validate_texture (wall_texture (cust_surface c)) ''wall texture'') (\<lambda>_.
     rbind (validate_texture (floor_texture (cust_surface c)) ''floor texture'') (\<lambda>_.
     if key_light_milli environment > 4000 then bail ''key light intensity is outside the supported range''
     else if ambient_light_milli environment > 2000
     then bail ''ambient light intensity is outside the supported range''
     else if fog_density_micros environment > 200000
     then bail ''fog density is outside the supported range''
     else if \<not> (1000 \<le> gravity_milli environment \<and> gravity_milli environment \<le> 30000)
     then bail ''gravity strength is outside the supported range''
     else if length (cust_persistent_props c) > 1024
     then bail ''a Dome supports at most 1024 persistent props''
     else rbind (try_fold validate_persistent_prop {} (cust_persistent_props c)) (\<lambda>_. Inr ()))))"

section \<open>Presets, instances and moves\<close>

record DomePresetRefV1 =
  pref_preset_id :: string
  pref_owner_pubkey :: Pubkey
  pref_revision :: u64
  pref_manifest_blob_hash :: string
  pref_manifest_mime :: string
  pref_manifest_bytes :: u64

record DomePresetManifestV1 =
  preset_id :: string
  preset_owner_pubkey :: Pubkey
  preset_revision :: u64
  preset_dome :: MetaverseDomeV1
  preset_asset_refs :: "MetaverseAssetRef list"
  preset_updated_at :: i64

datatype DomeInstanceStatusV1 = Staging | Active | Tombstoned

record DomeRelationshipDetachV1 =
  detach_move_id :: string
  detach_instance_generation :: u64
  detach_detached_at :: i64

record MetaverseRoomSpawnV1 =
  spawn_position :: vec3
  spawn_rotation :: vec3

record MetaverseRoomChatMessageV1 =
  chat_room_id :: string
  chat_message_id :: string
  chat_author_peer_id :: string
  chat_display_name :: "string option"
  chat_body :: string
  chat_created_at :: i64

record DomeInstanceManifestV1 =
  inst_instance_id :: string
  inst_spatial_context :: SpatialContextV1
  inst_owner_pubkey :: Pubkey
  inst_preset_ref :: DomePresetRefV1
  inst_title :: string
  inst_description :: string
  inst_max_peers :: "u32 option"
  inst_default_spawn :: MetaverseRoomSpawnV1
  inst_generation :: u64
  inst_status :: DomeInstanceStatusV1
  inst_relationship_detach :: "DomeRelationshipDetachV1 option"
  inst_replacement_instance_id :: "string option"
  inst_chat_history :: "MetaverseRoomChatMessageV1 list"
  inst_updated_at :: i64

datatype DomeMovePhaseV1 =
  MovePreparing | TargetStaged | SourceDetached | TargetActive | SourceTombstoned | MoveCompleted | MoveFailed

record DomeMoveRecordV1 =
  move_id :: string
  move_owner_pubkey :: Pubkey
  move_source_instance_id :: string
  move_source_context :: SpatialContextV1
  move_source_generation :: u64
  move_target_instance_id :: string
  move_target_context :: SpatialContextV1
  move_target_generation :: u64
  move_preset_ref :: DomePresetRefV1
  move_phase :: DomeMovePhaseV1
  move_failure_reason :: "string option"
  move_updated_at :: i64

record MetaverseRoomStateV1 =
  room_world_version :: u64
  room_instance_id :: string
  room_spatial_context :: SpatialContextV1
  room_instance_generation :: u64
  room_instance_status :: DomeInstanceStatusV1
  room_relationship_detach :: "DomeRelationshipDetachV1 option"
  room_replacement_instance_id :: "string option"
  room_preset_ref :: DomePresetRefV1
  room_session_id :: string
  room_max_peers :: "u32 option"
  room_dome :: MetaverseDomeV1
  room_default_spawn :: MetaverseRoomSpawnV1
  room_asset_refs :: "MetaverseAssetRef list"
  room_chat_history :: "MetaverseRoomChatMessageV1 list"

definition bad_max_peers :: "u32 option \<Rightarrow> bool" where
  "bad_max_peers m = (case m of Some n \<Rightarrow> \<not> (1 \<le> n \<and> n \<le> 512) | None \<Rightarrow> False)"

definition validate_metaverse_room_state :: "MetaverseRoomStateV1 \<Rightarrow> unit result" where
  "validate_metaverse_room_state state =
     (if room_world_version state \<noteq> METAVERSE_WORLD_VERSION
      then bail ''unsupported metaverse world version''
      else if dome_spec_id (room_dome state) \<noteq> FIXED_DOME_SPEC_ID
      then bail ''unsupported Dome spec id''
      else if trim (room_instance_id state) = [] \<or> trim (pref_preset_id (room_preset_ref state)) = []
        \<or> trim (pref_manifest_blob_hash (room_preset_ref state)) = []
        \<or> trim (room_session_id state) = [] \<or> room_instance_generation state = 0
      then bail ''metaverse instance identity is incomplete''
      else if room_instance_status state = Tombstoned
      then bail ''tombstoned Dome instance cannot be resolved as an active room''
      else if bad_max_peers (room_max_peers state)
      then bail ''max peers is outside the supported range''
      else validate_dome_customization (dome_customization (room_dome state)))"

definition collect_asset_hash :: "string set \<Rightarrow> MetaverseAssetRef \<Rightarrow> string set result" where
  "collect_asset_hash hashes asset =
     (if trim (mar_blob_hash asset) = [] \<or> mar_blob_hash asset \<in> hashes
      then bail ''Dome preset asset hashes must be non-empty and unique''
      else Inr (insert (mar_blob_hash asset) hashes))"

definition referenced_assets :: "DomeCustomizationV1 \<Rightarrow> MetaverseAssetRef list" where
  "referenced_assets c = List.map_filter prop_asset_ref (cust_persistent_props c)
     @ (case wall_texture (cust_surface c) of Some a \<Rightarrow> [a] | None \<Rightarrow> [])
     @ (case floor_texture (cust_surface c) of Some a \<Rightarrow> [a] | None \<Rightarrow> [])"

definition validate_dome_preset_manifest :: "DomePresetManifestV1 \<Rightarrow> unit result" where
  "validate_dome_preset_manifest manifest =
     (if trim (preset_id manifest) = [] then bail ''Dome preset id is required''
      else if trim (preset_owner_pubkey manifest) = [] then bail ''Dome preset owner is required''
      else if preset_revision manifest = 0 then bail ''Dome preset revision is required''
      else if dome_spec_id (preset_dome manifest) \<noteq> FIXED_DOME_SPEC_ID
      then bail ''unsupported Dome spec id''
      else
      rbind (validate_dome_customization (dome_customization (preset_dome manifest))) (\<lambda>_.
      rbind (try_fold collect_asset_hash {} (preset_asset_refs manifest)) (\<lambda>hashes.
      if \<not> list_all (\<lambda>a. mar_blob_hash a \<in> hashes) (referenced_assets (dome_customization (preset_dome manifest)))
      then bail ''Dome customization references an asset outside the Preset asset list''
      else rbind (metaverse_dome_resource_usage (preset_asset_refs manifest)) (\<lambda>_. Inr ()))))"

definition validate_dome_instance_manifest :: "DomeInstanceManifestV1 \<Rightarrow> unit result" where
  "validate_dome_instance_manifest manifest = (
     let preset_ref = inst_preset_ref manifest in
     if trim (inst_instance_id manifest) = [] \<or> trim (pref_preset_id preset_ref) = []
       \<or> pref_revision preset_ref = 0 \<or> trim (pref_manifest_blob_hash preset_ref) = []
       \<or> trim (pref_manifest_mime preset_ref) = [] \<or> inst_generation manifest = 0
     then bail ''Dome instance identity is incomplete''
     else if inst_owner_pubkey manifest \<noteq> pref_owner_pubkey preset_ref
     then bail ''Dome instance owner must match Dome preset owner''
     else if trim (inst_title manifest) = [] then bail ''Dome instance title is required''
     else if bad_max_peers (inst_max_peers manifest)
     then bail ''max peers is outside the supported range''
     else if inst_status manifest = Staging \<and> inst_relationship_detach manifest \<noteq> None
     then bail ''staging Dome instance cannot detach relationships''
     else case inst_relationship_detach manifest of
       Some detach \<Rightarrow>
         if trim (detach_move_id detach) = [] \<or> detach_instance_generation detach \<noteq> inst_generation manifest
         then bail ''Dome relationship detach does not match instance generation'' else Inr ()
     | None \<Rightarrow> Inr ())"

definition validate_dome_relationship_scope ::
    "DomeInstanceManifestV1 \<Rightarrow> DomeInstanceManifestV1 \<Rightarrow> unit result" where
  "validate_dome_relationship_scope left right =
     (if inst_spatial_context left \<noteq> inst_spatial_context right
      then bail ''Dome Connection endpoints must share one Spatial Context''
      else if inst_status left \<noteq> Active \<or> inst_status right \<noteq> Active
        \<or> inst_relationship_detach left \<noteq> None \<or> inst_relationship_detach right \<noteq> None
      then bail ''Dome Connection endpoints must be active and attached''
      else Inr ())"

definition validate_dome_move_record :: "DomeMoveRecordV1 \<Rightarrow> unit result" where
  "validate_dome_move_record record =
     (if trim (move_id record) = [] \<or> trim (move_source_instance_id record) = []
        \<or> trim (move_target_instance_id record) = [] \<or> move_source_generation record = 0
        \<or> move_target_generation record = 0
      then bail ''Dome move identity is incomplete''
      else if move_source_context record = move_target_context record
      then bail ''Dome move target must be a different Spatial Context''
      else if move_owner_pubkey record \<noteq> pref_owner_pubkey (move_preset_ref record)
      then bail ''Dome move owner must match Dome preset owner''
      else if move_phase record \<noteq> MoveFailed \<and> move_failure_reason record \<noteq> None
      then bail ''only a failed Dome move can contain a failure reason''
      else Inr ())"

definition room_state_of :: "DomeInstanceManifestV1 \<Rightarrow> DomePresetManifestV1 \<Rightarrow> MetaverseRoomStateV1" where
  "room_state_of inst preset =
     \<lparr>room_world_version = METAVERSE_WORLD_VERSION, room_instance_id = inst_instance_id inst,
      room_spatial_context = inst_spatial_context inst,
      room_instance_generation = inst_generation inst, room_instance_status = inst_status inst,
      room_relationship_detach = inst_relationship_detach inst,
      room_replacement_instance_id = inst_replacement_instance_id inst,
      room_preset_ref = inst_preset_ref inst, room_session_id = inst_instance_id inst,
      room_max_peers = inst_max_peers inst, room_dome = preset_dome preset,
      room_default_spawn = inst_default_spawn inst, room_asset_refs = preset_asset_refs preset,
      room_chat_history = inst_chat_history inst\<rparr>"

definition resolve_metaverse_room_state ::
    "DomeInstanceManifestV1 \<Rightarrow> DomePresetManifestV1 \<Rightarrow> MetaverseRoomStateV1 result" where
  "resolve_metaverse_room_state inst preset =
     rbind (validate_dome_instance_manifest inst) (\<lambda>_.
     rbind (validate_dome_preset_manifest preset) (\<lambda>_.
     if pref_preset_id (inst_preset_ref inst) \<noteq> preset_id preset
       \<or> pref_owner_pubkey (inst_preset_ref inst) \<noteq> preset_owner_pubkey preset
       \<or> pref_revision (inst_preset_ref inst) \<noteq> preset_revision preset
     then bail ''Dome instance preset reference does not match preset manifest''
     else if inst_status inst = Tombstoned then bail ''cannot resolve a tombstoned Dome instance''
     else
     let state = room_state_of inst preset in
     rbind (validate_metaverse_room_state state) (\<lambda>_. Inr state)))"

section \<open>Dome envelopes\<close>

fun move_phase_lowercase :: "DomeMovePhaseV1 \<Rightarrow> string" where
  "move_phase_lowercase MovePreparing = ''preparing''"
| "move_phase_lowercase TargetStaged = ''targetstaged''"
| "move_phase_lowercase SourceDetached = ''sourcedetached''"
| "move_phase_lowercase TargetActive = ''targetactive''"
| "move_phase_lowercase SourceTombstoned = ''sourcetombstoned''"
| "move_phase_lowercase MoveCompleted = ''completed''"
| "move_phase_lowercase MoveFailed = ''failed''"

definition build_dome_preset_envelope ::
    "crypto_lib \<Rightarrow> u64 option \<Rightarrow> DomePresetManifestV1 codec \<Rightarrow> KukuriKeys \<Rightarrow> DomePresetManifestV1 \<Rightarrow>
     KukuriEnvelope result" where
  "build_dome_preset_envelope C clock J keys manifest =
     (if preset_owner_pubkey manifest \<noteq> public_key C keys
      then bail ''Dome preset owner must match signer'' else
      rbind (validate_dome_preset_manifest manifest) (\<lambda>_.
      sign_envelope_json C clock J keys ''dome-preset''
        [[''author'', preset_owner_pubkey manifest], [''object'', ''dome-preset''],
         [''preset_id'', preset_id manifest]] manifest))"

definition build_dome_instance_envelope ::
    "crypto_lib \<Rightarrow> u64 option \<Rightarrow> DomeInstanceManifestV1 codec \<Rightarrow> KukuriKeys \<Rightarrow> DomeInstanceManifestV1 \<Rightarrow>
     KukuriEnvelope result" where
  "build_dome_instance_envelope C clock J keys manifest =
     (if inst_owner_pubkey manifest \<noteq> public_key C keys
      then bail ''Dome instance owner must match signer'' else
      rbind (validate_dome_instance_manifest manifest) (\<lambda>_.
      sign_envelope_json C clock J keys ''dome-instance''
        [[''author'', inst_owner_pubkey manifest], [''object'', ''dome-instance''],
         [''instance_id'', inst_instance_id manifest],
         [''context'', canonical_id (inst_spatial_context manifest)],
         [''generation'', show_nat (inst_generation manifest)]] manifest))"

definition build_dome_move_envelope ::
    "crypto_lib \<Rightarrow> u64 option \<Rightarrow> DomeMoveRecordV1 codec \<Rightarrow> KukuriKeys \<Rightarrow> DomeMoveRecordV1 \<Rightarrow>
     KukuriEnvelope result" where
  "build_dome_move_envelope C clock J keys record =
     (if move_owner_pubkey record \<noteq> public_key C keys
      then bail ''Dome move owner must match signer'' else
      rbind (validate_dome_move_record record) (\<lambda>_.
      sign_envelope_json C clock J keys ''dome-move''
        [[''author'', move_owner_pubkey record], [''object'', ''dome-move''],
         [''move_id'', move_id record], [''phase'', move_phase_lowercase (move_phase record)]] record))"

section \<open>Room events\<close>

record MetaverseRoomPresenceV1 =
  presence_room_id :: string
  presence_peer_id :: string
  presence_display_name :: "string option"
  presence_avatar_asset_ref :: "MetaverseAssetRef option"
  presence_joined_at :: i64
  presence_last_seen_at :: i64
  presence_microphone_enabled :: bool

datatype MetaverseRoomEventV1 =
    PresenceJoin MetaverseRoomPresenceV1
  | PresenceLeave string string i64
  | ChatMessage MetaverseRoomChatMessageV1

record MetaverseRoomEventEnvelopeContentV1 =
  event_id :: string
  event_topic_id :: TopicId
  event_channel_id :: "ChannelId option"
  event_room_id :: string
  event_spatial_context :: SpatialContextV1
  event_instance_generation :: u64
  event_session_id :: string
  event_peer_id :: string
  event_seq :: u64
  event_sent_at :: i64
  event_event :: MetaverseRoomEventV1

definition METAVERSE_MEDIA_TTL_MILLIS :: i64 where "METAVERSE_MEDIA_TTL_MILLIS = 10000"

definition validate_metaverse_room_event_content :: "MetaverseRoomEventEnvelopeContentV1 \<Rightarrow> unit result" where
  "validate_metaverse_room_event_content content =
     (if trim (event_id content) = [] \<or> trim (event_room_id content) = [] \<or>
        trim (event_session_id content) = [] \<or> trim (event_peer_id content) = [] \<or>
        event_instance_generation content = 0
      then bail ''metaverse room event identity is incomplete''
      else if event_session_id content \<noteq> event_room_id content
      then bail ''metaverse room event session does not match its Dome instance''
      else
      let expected_context = (case event_channel_id content of
            Some c \<Rightarrow> ContextChannel (event_topic_id content) c
          | None \<Rightarrow> ContextTopic (event_topic_id content)) in
      if event_spatial_context content \<noteq> expected_context
      then bail ''metaverse room event Spatial Context does not match topic/channel identity''
      else case event_event content of
        PresenceJoin presence \<Rightarrow>
          if presence_room_id presence \<noteq> event_room_id content
            \<or> presence_peer_id presence \<noteq> event_peer_id content
            \<or> presence_last_seen_at presence < presence_joined_at presence
            \<or> presence_last_seen_at presence > sat_i64 (event_sent_at content + METAVERSE_MEDIA_TTL_MILLIS)
          then bail ''metaverse presence identity or timestamp is invalid'' else Inr ()
      | PresenceLeave room_id peer_id left_at \<Rightarrow>
          if room_id \<noteq> event_room_id content \<or> peer_id \<noteq> event_peer_id content
            \<or> left_at > sat_i64 (event_sent_at content + METAVERSE_MEDIA_TTL_MILLIS)
          then bail ''metaverse presence leave identity or timestamp is invalid'' else Inr ()
      | ChatMessage message \<Rightarrow>
          if chat_room_id message \<noteq> event_room_id content \<or> chat_author_peer_id message \<noteq> event_peer_id content
          then bail ''metaverse chat identity is invalid'' else Inr ())"

definition metaverse_room_event_is_live :: "MetaverseRoomEventEnvelopeContentV1 \<Rightarrow> i64 \<Rightarrow> bool" where
  "metaverse_room_event_is_live content now_millis = (case event_event content of
     ChatMessage _ \<Rightarrow> True
   | _ \<Rightarrow> event_sent_at content \<le> sat_i64 (now_millis + METAVERSE_MEDIA_TTL_MILLIS) \<and>
       now_millis \<le> sat_i64 (event_sent_at content + METAVERSE_MEDIA_TTL_MILLIS))"

definition validate_metaverse_room_event_for_instance ::
    "MetaverseRoomEventEnvelopeContentV1 \<Rightarrow> DomeInstanceManifestV1 \<Rightarrow> unit result" where
  "validate_metaverse_room_event_for_instance content inst =
     rbind (validate_metaverse_room_event_content content) (\<lambda>_.
     rbind (validate_dome_instance_manifest inst) (\<lambda>_.
     if inst_status inst \<noteq> Active \<or> inst_relationship_detach inst \<noteq> None
     then bail ''metaverse room events require an active attached Dome instance''
     else if event_room_id content \<noteq> inst_instance_id inst \<or> event_session_id content \<noteq> inst_instance_id inst
       \<or> event_spatial_context content \<noteq> inst_spatial_context inst
       \<or> event_instance_generation content \<noteq> inst_generation inst
     then bail ''metaverse room event does not match the current Dome instance generation''
     else Inr ()))"

definition build_metaverse_room_event_envelope ::
    "crypto_lib \<Rightarrow> u64 option \<Rightarrow> MetaverseRoomEventEnvelopeContentV1 codec \<Rightarrow> KukuriKeys \<Rightarrow> TopicId \<Rightarrow> string \<Rightarrow>
     MetaverseRoomEventEnvelopeContentV1 \<Rightarrow> KukuriEnvelope result" where
  "build_metaverse_room_event_envelope C clock J keys topic room_id content =
     rbind (validate_metaverse_room_event_content content) (\<lambda>_.
     if event_topic_id content \<noteq> topic \<or> event_room_id content \<noteq> room_id
     then bail ''metaverse room event envelope identity does not match content''
     else sign_envelope_json C clock J keys ''metaverse-room-event''
       [[''topic'', topic], [''object'', ''metaverse-room-event''], [''room_id'', room_id],
        [''event_id'', event_id content]] content)"

definition spatial_audio_gain_milli :: "u64 \<Rightarrow> nat" where
  "spatial_audio_gain_milli distance_cm =
     (if distance_cm \<le> 100 then 1000 else min (sat_u64 (100 * 1000) div distance_cm) 1000)"

section \<open>Interpolation\<close>

lemma interpolate_step:
  fixes d :: int
  assumes "0 \<le> d" "p \<le> (1000 :: nat)"
  shows "0 \<le> d * int p div 1000 \<and> d * int p div 1000 \<le> d"
proof -
  have "d * int p \<le> d * 1000" using assms by (intro mult_left_mono) auto
  then have "d * int p div 1000 \<le> d * 1000 div 1000" by (rule zdiv_mono1) simp
  with assms show ?thesis by (simp add: pos_imp_zdiv_nonneg_iff)
qed

lemma interpolate_component_between:
  assumes "l \<le> u32_max" "r \<le> u32_max" "p \<le> 1000"
  shows "min l r \<le> interpolate_component p l r \<and> interpolate_component p l r \<le> max l r"
proof -
  let ?v = "int l + tdiv ((int r - int l) * int p) 1000"
  have v: "int (min l r) \<le> ?v \<and> ?v \<le> int (max l r)"
  proof (cases "l \<le> r")
    case True
    then have "tdiv ((int r - int l) * int p) 1000 = (int r - int l) * int p div 1000"
      by (intro tdiv_nonneg) auto
    with True interpolate_step [of "int r - int l" p] assms(3) show ?thesis by auto
  next
    case False
    have "tdiv ((int r - int l) * int p) 1000 = - ((int l - int r) * int p div 1000)"
    proof (cases "p = 0")
      case True
      then show ?thesis by (simp add: tdiv_def)
    next
      case p: False
      then have "(int r - int l) * int p < 0" using False by (simp add: mult_less_0_iff)
      moreover have "- ((int r - int l) * int p) = (int l - int r) * int p" by (simp add: algebra_simps)
      ultimately show ?thesis by (simp add: tdiv_neg)
    qed
    with False interpolate_step [of "int l - int r" p] assms(3) show ?thesis by auto
  qed
  moreover have "0 \<le> ?v" "?v < 2 ^ 32" using v assms(1,2) by (auto simp: max_def split: if_splits)
  ultimately show ?thesis by (auto simp: interpolate_component_def Let_def)
qed

lemma interpolate_component_ends:
  "l \<le> u32_max \<Longrightarrow> interpolate_component 0 l r = l"
  "r \<le> u32_max \<Longrightarrow> interpolate_component 1000 l r = r"
  by (auto simp: interpolate_component_def tdiv_def Let_def)

definition env_u32 :: "DomeEnvironmentV1 \<Rightarrow> bool" where
  "env_u32 e \<longleftrightarrow> key_light_milli e \<le> u32_max \<and> ambient_light_milli e \<le> u32_max \<and>
     fog_density_micros e \<le> u32_max \<and> gravity_milli e \<le> u32_max"

text \<open>
  Crossing between Domes blends their environments: at any progress every parameter lies
  between its two values, at progress 0 the blend is the old environment, and from 1000 on it is
  the new one.
\<close>

theorem interpolation_stays_between:
  assumes "env_u32 a" "env_u32 b"
  shows "(\<forall>f \<in> {key_light_milli, ambient_light_milli, fog_density_micros, gravity_milli}.
      min (f a) (f b) \<le> f (interpolate_dome_environment a b p) \<and>
      f (interpolate_dome_environment a b p) \<le> max (f a) (f b)) \<and>
    interpolate_dome_environment a b 0 = a \<and>
    (1000 \<le> p \<longrightarrow> interpolate_dome_environment a b p = b)"
  using assms interpolate_component_between [of _ _ "min p 1000"]
  by (simp add: interpolate_dome_environment_def env_u32_def interpolate_component_ends Let_def)

theorem interpolation_stays_between_witness:
  "gravity_milli (interpolate_dome_environment default_environment (default_environment\<lparr>gravity_milli := 1000\<rparr>) 250) \<le> 9800"
  using interpolation_stays_between [of default_environment "default_environment\<lparr>gravity_milli := 1000\<rparr>" 250]
  by (simp add: env_u32_def default_environment_def)

section \<open>The fallback collider\<close>

lemma midpoint_between:
  assumes "a < b" "\<bar>a\<bar> \<le> 2 ^ 61" "\<bar>b\<bar> \<le> 2 ^ 61"
  shows "a \<le> tdiv (wrap_i64 (a + b)) 2 \<and> tdiv (wrap_i64 (a + b)) 2 \<le> b"
proof -
  have "wrap_i64 (a + b) = a + b" using assms by (intro wrap_i64_id) (simp add: is_i64_def abs_le_iff)
  with assms(1) show ?thesis
    by (cases "0 \<le> a + b") (auto simp: tdiv_nonneg tdiv_neg)
qed

lemma half_up:
  assumes "0 < w" "w \<le> 2 ^ 62"
  shows "w \<le> 2 * tdiv (wrap_i64 (w + 1)) 2 \<and> 0 < tdiv (wrap_i64 (w + 1)) 2 \<and>
    tdiv (wrap_i64 (w + 1)) 2 \<le> 2 ^ 62"
proof -
  have "wrap_i64 (w + 1) = w + 1" using assms by (intro wrap_i64_id) (simp add: is_i64_def)
  then have "tdiv (wrap_i64 (w + 1)) 2 = (w + 1) div 2" using assms(1) by (simp add: tdiv_nonneg)
  moreover have "w \<le> 2 * ((w + 1) div 2)" "0 < (w + 1) div 2" "(w + 1) div 2 \<le> w" using assms(1) by linarith+
  ultimately show ?thesis using assms(2) by linarith
qed

text \<open>
  The fallback capsule covers the mesh it stands for: for bounds in the range of model
  coordinates it is centred inside the box, at least as wide and deep as the box, at least as tall,
  and fails only for a box without volume.
\<close>

theorem fallback_capsule_covers:
  assumes "\<forall>v \<in> {x0, y0, z0, x1, y1, z1}. \<bar>v\<bar> \<le> 2 ^ 61"
  shows "(fallback_capsule_collider (x0, y0, z0) (x1, y1, z1) = bail ''metaverse collider bounds must have positive volume'' \<longleftrightarrow>
      \<not> (x0 < x1 \<and> y0 < y1 \<and> z0 < z1)) \<and>
    (\<forall>c r h. fallback_capsule_collider (x0, y0, z0) (x1, y1, z1) = Inr (Capsule c r h) \<longrightarrow>
      x0 \<le> fst c \<and> fst c \<le> x1 \<and> y0 \<le> fst (snd c) \<and> fst (snd c) \<le> y1 \<and> z0 \<le> snd (snd c) \<and> snd (snd c) \<le> z1 \<and>
      x1 - x0 \<le> 2 * r \<and> z1 - z0 \<le> 2 * r \<and> y1 - y0 \<le> 2 * (h + r) \<and> 0 < r \<and> 0 \<le> h)"
proof (cases "x0 < x1 \<and> y0 < y1 \<and> z0 < z1")
  case False
  then show ?thesis by (auto simp: fallback_capsule_collider_def)
next
  case True
  let ?w = "x1 - x0" and ?h = "y1 - y0" and ?d = "z1 - z0"
  have wr: "wrap_i64 ?w = ?w" "wrap_i64 ?h = ?h" "wrap_i64 ?d = ?d"
    using assms True by (auto intro!: wrap_i64_id simp: is_i64_def abs_le_iff)
  let ?r = "tdiv (wrap_i64 (max ?w ?d + 1)) 2" and ?t = "tdiv (wrap_i64 (?h + 1)) 2"
  have r: "max ?w ?d \<le> 2 * ?r \<and> 0 < ?r \<and> ?r \<le> 2 ^ 62"
    using assms True by (intro half_up) (auto simp: abs_le_iff)
  have t: "?h \<le> 2 * ?t \<and> 0 < ?t \<and> ?t \<le> 2 ^ 62"
    using assms True by (intro half_up) (auto simp: abs_le_iff)
  have "wrap_i64 (?t - ?r) = ?t - ?r" using r t by (intro wrap_i64_id) (simp add: is_i64_def)
  moreover note midpoint_between [of x0 x1] midpoint_between [of y0 y1] midpoint_between [of z0 z1]
  moreover have "?h \<le> 2 * (max (?t - ?r) 0 + ?r)" using t by (simp add: max_def)
  ultimately show ?thesis
    using assms True r wr by (auto simp: fallback_capsule_collider_def Let_def)
qed

theorem fallback_capsule_covers_witness:
  "\<exists>r h. fallback_capsule_collider (-50, 0, -20) (50, 170, 20) = Inr (Capsule (0, 85, 0) r h) \<and> 100 \<le> 2 * r \<and> 170 \<le> 2 * (h + r)"
proof -
  have f: "fallback_capsule_collider (-50, 0, -20) (50, 170, 20) = Inr (Capsule (0, 85, 0) 50 35)"
    by (simp add: fallback_capsule_collider_def wrap_i64_id is_i64_def tdiv_nonneg)
  have b: "\<forall>v \<in> {-50, 0, -20, 50, 170, 20 :: int}. \<bar>v\<bar> \<le> 2 ^ 61" by simp
  from fallback_capsule_covers [OF b, THEN conjunct2, rule_format, OF f] show ?thesis
    by (intro exI [of _ 50] exI [of _ 35]) (simp add: f)
qed

section \<open>Customization\<close>

definition prop_inside :: "MetaversePersistentPropV1 \<Rightarrow> bool" where
  "prop_inside p \<longleftrightarrow> (case prop_position p of (x, y, z) \<Rightarrow>
     0 \<le> y \<and> y \<le> 2000 \<and> x * x + y * y + z * z \<le> 2000 * 2000)"

lemma square_bound: "\<bar>v\<bar> \<le> B \<Longrightarrow> v * v \<le> B * B" for v :: int
proof -
  assume "\<bar>v\<bar> \<le> B"
  then have "\<bar>v\<bar> * \<bar>v\<bar> \<le> B * B" by (intro mult_mono) auto
  then show ?thesis by simp
qed

lemma is_i64_small: "0 \<le> a \<Longrightarrow> a \<le> 2 ^ 62 \<Longrightarrow> is_i64 a"
  by (simp add: is_i64_def)

lemma distance_squared_exact:
  assumes "\<bar>x\<bar> \<le> 2 ^ 30" "\<bar>y\<bar> \<le> 2 ^ 30" "\<bar>z\<bar> \<le> 2 ^ 30"
  shows "distance_squared (x, y, z) = x * x + y * y + z * z"
proof -
  have "x * x \<le> 2 ^ 60" "y * y \<le> 2 ^ 60" "z * z \<le> 2 ^ 60"
    using assms [THEN square_bound] by simp_all
  then have "is_i64 (x * x)" "is_i64 (y * y)" "is_i64 (z * z)" "is_i64 (x * x + y * y)"
    "is_i64 (x * x + y * y + z * z)"
    by (auto intro!: is_i64_small)
  then show ?thesis by (simp add: distance_squared_def wrap_i64_id)
qed

lemma validate_prop_Inr:
  assumes "validate_persistent_prop ids p = Inr ids'"
  shows "trim (prop_id p) \<noteq> []" "prop_id p \<notin> ids" "ids' = insert (prop_id p) ids"
    "distinct (prop_interactions p)" "prop_visual_only p \<longrightarrow> prop_interactions p = []"
    "0 \<le> fst (snd (prop_position p))" "fst (snd (prop_position p)) \<le> 2000"
    "distance_squared (prop_position p) \<le> 2000 * 2000"
    "\<And>c. prop_collider p = Some c \<Longrightarrow> validate_metaverse_collider c = Inr ()"
  using assms
  by (auto simp: validate_persistent_prop_def result_simps Let_def fixed_dome_v1_def split: if_splits option.splits)

lemma validate_props_Inr:
  "try_fold validate_persistent_prop ids props = Inr ids' \<Longrightarrow>
     distinct (map prop_id props) \<and> ids \<inter> prop_id ` set props = {} \<and>
     (\<forall>p \<in> set props. \<exists>i j. validate_persistent_prop i p = Inr j)"
proof (induction props arbitrary: ids)
  case (Cons p props)
  from Cons.prems obtain i where i: "validate_persistent_prop ids p = Inr i"
    and r: "try_fold validate_persistent_prop i props = Inr ids'"
    by (auto simp: rbind_eq_Inr)
  note v = validate_prop_Inr(2,3) [OF i]
  from Cons.IH [OF r] i v show ?case by auto
qed simp

lemma trim_dome_prop_1: "trim ''dome-prop-1'' = ''dome-prop-1''"
  by code_simp

lemmas default_customization_evaluates = validate_dome_customization_def default_customization_def
  default_surface_def default_environment_def validate_texture_def validate_persistent_prop_def
  distance_squared_def wrap_i64_def fixed_dome_v1_def vec3_list_def trim_dome_prop_1

text \<open>
  C25. An accepted customization is a Dome one can walk in: light, fog and gravity are in range,
  prop ids are distinct, no visual-only prop is interactive, and every prop whose coordinates are
  at most 2^30 in magnitude really lies inside the hemisphere.
\<close>

theorem accepted_customization_inside:
  assumes "validate_dome_customization c = Inr ()"
  shows "key_light_milli (cust_environment c) \<le> 4000 \<and> ambient_light_milli (cust_environment c) \<le> 2000 \<and>
    fog_density_micros (cust_environment c) \<le> 200000 \<and>
    1000 \<le> gravity_milli (cust_environment c) \<and> gravity_milli (cust_environment c) \<le> 30000 \<and>
    length (cust_persistent_props c) \<le> 1024 \<and> distinct (map prop_id (cust_persistent_props c)) \<and>
    (\<forall>p \<in> set (cust_persistent_props c).
      (prop_visual_only p \<longrightarrow> prop_interactions p = []) \<and>
      ((\<forall>v \<in> set (vec3_list (prop_position p)). \<bar>v\<bar> \<le> 2 ^ 30) \<longrightarrow> prop_inside p))"
proof -
  obtain ids where ids: "try_fold validate_persistent_prop {} (cust_persistent_props c) = Inr ids"
    and env: "key_light_milli (cust_environment c) \<le> 4000" "ambient_light_milli (cust_environment c) \<le> 2000"
      "fog_density_micros (cust_environment c) \<le> 200000" "1000 \<le> gravity_milli (cust_environment c)"
      "gravity_milli (cust_environment c) \<le> 30000" "length (cust_persistent_props c) \<le> 1024"
    using assms by (auto simp: validate_dome_customization_def Let_def result_simps)
  have "(prop_visual_only p \<longrightarrow> prop_interactions p = []) \<and>
      ((\<forall>v \<in> set (vec3_list (prop_position p)). \<bar>v\<bar> \<le> 2 ^ 30) \<longrightarrow> prop_inside p)"
    if p: "p \<in> set (cust_persistent_props c)" for p
  proof -
    obtain i j where v: "validate_persistent_prop i p = Inr j"
      using validate_props_Inr [OF ids] p by blast
    obtain x y z where pos: "prop_position p = (x, y, z)" by (cases "prop_position p")
    from validate_prop_Inr(5-8) [OF v] distance_squared_exact [of x y z] show ?thesis
      by (auto simp: pos vec3_list_def prop_inside_def)
  qed
  with env validate_props_Inr [OF ids] show ?thesis by blast
qed

theorem accepted_customization_inside_witness:
  "validate_dome_customization default_customization = Inr () \<and>
   gravity_milli (cust_environment default_customization) \<le> 30000"
proof -
  have v: "validate_dome_customization default_customization = Inr ()"
    by (simp add: default_customization_evaluates)
  with accepted_customization_inside [OF v] show ?thesis by blast
qed

text \<open>
  Beyond such coordinates the position check trusts 64-bit squares: a prop at x = 2^32 centimetres, far outside the
  Dome, is accepted, because its squared distance wraps to 0 in the release build.
\<close>

lemma distance_wraps_outside:
  "\<exists>c p. validate_dome_customization c = Inr () \<and> p \<in> set (cust_persistent_props c) \<and>
     prop_position p = (2 ^ 32, 0, 0) \<and> is_i64 (2 ^ 32) \<and> \<not> prop_inside p"
proof -
  let ?p = "(hd (cust_persistent_props default_customization))\<lparr>prop_position := (2 ^ 32, 0, 0)\<rparr>"
  let ?c = "default_customization\<lparr>cust_persistent_props := [?p]\<rparr>"
  have "validate_dome_customization ?c = Inr ()"
    by (simp add: default_customization_evaluates distance_squared_def wrap_i64_def)
  moreover have "?p \<in> set (cust_persistent_props ?c)" "\<not> prop_inside ?p" "is_i64 (2 ^ 32)"
    by (simp_all add: prop_inside_def is_i64_def)
  ultimately show ?thesis by (intro exI [of _ ?c] exI [of _ ?p]) simp
qed

section \<open>Resolution and identity\<close>

lemma validate_instance_facts:
  assumes "validate_dome_instance_manifest inst = Inr ()"
  shows "trim (inst_instance_id inst) \<noteq> []" "trim (pref_preset_id (inst_preset_ref inst)) \<noteq> []"
    "trim (pref_manifest_blob_hash (inst_preset_ref inst)) \<noteq> []" "inst_generation inst \<noteq> 0"
    "\<not> bad_max_peers (inst_max_peers inst)" "inst_owner_pubkey inst = pref_owner_pubkey (inst_preset_ref inst)"
  using assms by (auto simp: validate_dome_instance_manifest_def Let_def result_simps)

lemma validate_preset_facts:
  assumes "validate_dome_preset_manifest preset = Inr ()"
  shows "dome_spec_id (preset_dome preset) = FIXED_DOME_SPEC_ID"
    "validate_dome_customization (dome_customization (preset_dome preset)) = Inr ()"
  using assms by (auto simp: validate_dome_preset_manifest_def result_simps)

text \<open>
  A room resolves exactly when its parts fit: the instance and the preset validate, the
  instance refers to this preset, owner and revision, and it is not tombstoned. The resolved room
  then always passes the room validator and belongs to the preset's owner, so the last check of the
  code never fails on its own.
\<close>

lemma room_resolution_exact:
  "resolve_metaverse_room_state inst preset = Inr state \<longleftrightarrow>
     validate_dome_instance_manifest inst = Inr () \<and> validate_dome_preset_manifest preset = Inr () \<and>
     pref_preset_id (inst_preset_ref inst) = preset_id preset \<and>
     pref_owner_pubkey (inst_preset_ref inst) = preset_owner_pubkey preset \<and>
     inst_owner_pubkey inst = preset_owner_pubkey preset \<and>
     pref_revision (inst_preset_ref inst) = preset_revision preset \<and>
     inst_status inst \<noteq> Tombstoned \<and> state = room_state_of inst preset \<and>
     validate_metaverse_room_state state = Inr ()"
proof -
  have "validate_metaverse_room_state (room_state_of inst preset) = Inr ()"
    if "validate_dome_instance_manifest inst = Inr ()" "validate_dome_preset_manifest preset = Inr ()"
      "inst_status inst \<noteq> Tombstoned"
    using validate_instance_facts [OF that(1)] validate_preset_facts [OF that(2)] that(3)
    by (simp add: validate_metaverse_room_state_def room_state_of_def)
  then show ?thesis
    using validate_instance_facts(6) [of inst]
    by (auto simp: resolve_metaverse_room_state_def Let_def result_simps)
qed

definition colon_free :: "SpatialContextV1 \<Rightarrow> bool" where
  "colon_free c \<longleftrightarrow> (case context_channel_id c of None \<Rightarrow> True | Some cid \<Rightarrow> CHR '':'' \<notin> set cid)"

lemma rsplit_unique:
  "sep \<notin> set b \<Longrightarrow> sep \<notin> set b' \<Longrightarrow> a @ sep # b = a' @ sep # b' \<longleftrightarrow> a = a' \<and> b = b'" for sep :: char
proof -
  assume b: "sep \<notin> set b" "sep \<notin> set b'"
  have "a = a' \<and> b = b'" if "a @ sep # b = a' @ sep # b'"
  proof -
    from that have "rev b @ sep # rev a = rev b' @ sep # rev a'"
      by (metis append.assoc append_Cons append_Nil rev.simps(2) rev_append)
    then have "split_once sep (rev b @ sep # rev a) = split_once sep (rev b' @ sep # rev a')" by simp
    with b show ?thesis by (simp add: split_once_append)
  qed
  then show ?thesis by blast
qed

text \<open>
  Spatial contexts have distinct names: two contexts whose channel ids contain no colon have
  the same canonical id only when they are the same context, whatever colons their topics contain.
\<close>

theorem canonical_id_injective:
  assumes "colon_free a" "colon_free b" "canonical_id a = canonical_id b"
  shows "a = b"
  using assms by (cases a; cases b) (auto simp: colon_free_def rsplit_unique)

theorem canonical_id_injective_witness:
  "canonical_id (ContextChannel ''kukuri:topic:a'' ''channel-1'') \<noteq> canonical_id (ContextChannel ''kukuri:topic'' ''channel-1'')"
  using canonical_id_injective [of "ContextChannel ''kukuri:topic:a'' ''channel-1''" "ContextChannel ''kukuri:topic'' ''channel-1''"]
  by (auto simp: colon_free_def)

text \<open>
  Official game assets come from the trusted publisher: an accepted release is signed by that
  key, is for the requested application and asset, has a revision and a size within 3 GiB, and a
  release the publisher builds is accepted for exactly its own application and asset.
\<close>

theorem game_asset_release_trusted:
  "(verify_game_asset_release C J e publisher app asset = Inr r \<longrightarrow>
     verify C e = Inr () \<and> env_pubkey e = publisher \<and> rel_application_id r = app \<and> rel_asset_id r = asset \<and>
     0 < rel_revision r \<and> 0 < rel_bytes r \<and> rel_bytes r \<le> 3 * 2 ^ 30 \<and> from_json J (env_content e) = Some r) \<and>
   (build_game_asset_release_envelope C clock J keys r = Inr e \<and> schnorr_correct C \<and> codec_round_trip J r \<longrightarrow>
     (verify_game_asset_release C J e (public_key C keys) app asset = Inr r \<longleftrightarrow>
        app = rel_application_id r \<and> asset = rel_asset_id r))"
proof (intro conjI impI)
  assume v: "verify_game_asset_release C J e publisher app asset = Inr r"
  then show "verify C e = Inr ()" "env_pubkey e = publisher" "rel_application_id r = app"
    "rel_asset_id r = asset" "from_json J (env_content e) = Some r"
    "0 < rel_revision r" "0 < rel_bytes r" "rel_bytes r \<le> 3 * 2 ^ 30"
    by (auto simp: verify_game_asset_release_def validate_game_asset_release_def result_simps GAME_ASSET_MAX_BYTES_def)
next
  assume "build_game_asset_release_envelope C clock J keys r = Inr e \<and> schnorr_correct C \<and> codec_round_trip J r"
  then obtain tags where val: "validate_game_asset_release r = Inr ()"
    and s: "sign_envelope_json C clock J keys GAME_ASSET_RELEASE_KIND tags r = Inr e"
    and c: "schnorr_correct C" "codec_round_trip J r"
    by (auto simp: build_game_asset_release_envelope_def result_simps)
  from sign_envelope_json_decodes [OF s c(2)] sign_envelope_json_verifies [OF s c(1)] val
  show "verify_game_asset_release C J e (public_key C keys) app asset = Inr r \<longleftrightarrow>
      app = rel_application_id r \<and> asset = rel_asset_id r"
    by (auto simp: verify_game_asset_release_def)
qed

definition sample_instance :: "string \<Rightarrow> string \<Rightarrow> DomeInstanceManifestV1" where
  "sample_instance i owner = \<lparr>inst_instance_id = i, inst_spatial_context = ContextTopic ''t'', inst_owner_pubkey = owner,
     inst_preset_ref = \<lparr>pref_preset_id = ''p'', pref_owner_pubkey = owner, pref_revision = 1, pref_manifest_blob_hash = ''h'',
       pref_manifest_mime = ''m'', pref_manifest_bytes = 1\<rparr>,
     inst_title = ''Dome'', inst_description = [], inst_max_peers = None,
     inst_default_spawn = \<lparr>spawn_position = (0, 0, 0), spawn_rotation = (0, 0, 0)\<rparr>, inst_generation = 1,
     inst_status = Active, inst_relationship_detach = None, inst_replacement_instance_id = None,
     inst_chat_history = [], inst_updated_at = 0\<rparr>"

definition sample_release :: GameAssetReleaseV1 where
  "sample_release = \<lparr>rel_application_id = ''app'', rel_asset_id = ''skin'', rel_revision = 1,
     rel_blob_hash = ''h'', rel_bytes = 10, rel_format = AssetPng, rel_published_at = 1\<rparr>"

theorem game_asset_release_trusted_witness:
  "\<exists>e. build_game_asset_release_envelope sample_crypto (Some 5) (sample_codec sample_release) \<lparr>secret_key = ''k''\<rparr> sample_release = Inr e \<and>
     verify_game_asset_release sample_crypto (sample_codec sample_release) e ''k'' ''app'' ''skin'' = Inr sample_release"
proof -
  let ?J = "sample_codec sample_release" and ?k = "\<lparr>secret_key = ''k''\<rparr>"
  have v: "validate_game_asset_release sample_release = Inr ()"
    by (simp add: validate_game_asset_release_def validate_application_id_def validate_asset_id_def
        sample_release_def GAME_ASSET_MAX_BYTES_def ascii_graphic_def ascii_alphanumeric_def ascii_lower_def)
  then obtain e where e: "build_game_asset_release_envelope sample_crypto (Some 5) ?J ?k sample_release = Inr e"
    using sign_envelope_json_ok [of ?J sample_release "''{}''" sample_crypto ?k 5 GAME_ASSET_RELEASE_KIND]
    by (auto simp: build_game_asset_release_envelope_def sample_codec_def sample_crypto_def)
  moreover note game_asset_release_trusted [of sample_crypto ?J e "''k''" "''app''" "''skin''" sample_release "Some 5" ?k]
  moreover have "rel_application_id sample_release = ''app''" "rel_asset_id sample_release = ''skin''"
    by (simp_all add: sample_release_def)
  ultimately show ?thesis by simp
qed

end
