(* ===== verification/Dome_Topology.thy ===== *)
theory Dome_Topology
  imports Dome_Model "HOL-Library.Sublist"
begin

text \<open>
  Connections between Domes and the topology they form
  (\<^verbatim>\<open>crates/core/src/dome_connections.rs\<close>): proposals, selections, agreements
  signed by both owners, connection records, and the resolution of a set of records into components
  with coordinates. The record digest (\<open>serde_json\<close> and \<open>blake3\<close>) is the argument \<open>D\<close>, the digest of
  a whole topology the argument \<open>T\<close>. Coordinates are sums of at most one offset of 5700 per
  instance, so \<open>i64\<close> addition does not overflow and is written on \<open>int\<close>.
\<close>

section \<open>Connections\<close>

definition DOME_CONNECTION_DRAIN_MILLIS :: i64 where "DOME_CONNECTION_DRAIN_MILLIS = 3000"

record DomeConnectionEndpointV1 =
  ep_instance_id :: string
  ep_instance_generation :: u64
  ep_owner_pubkey :: Pubkey
  ep_direction :: DomeDirection

definition endpoint_from_instance :: "DomeInstanceManifestV1 \<Rightarrow> DomeDirection \<Rightarrow> DomeConnectionEndpointV1" where
  "endpoint_from_instance inst direction =
     \<lparr>ep_instance_id = inst_instance_id inst, ep_instance_generation = inst_generation inst,
      ep_owner_pubkey = inst_owner_pubkey inst, ep_direction = direction\<rparr>"

record DomeConnectionProposalV1 =
  prop_proposal_id :: string
  prop_spatial_context :: SpatialContextV1
  prop_proposer :: DomeConnectionEndpointV1
  prop_receiver :: DomeConnectionEndpointV1
  prop_sequence :: u64
  prop_created_at :: i64

record DomeProposalSelectionV1 =
  sel_selection_id :: string
  sel_proposal_id :: string
  sel_spatial_context :: SpatialContextV1
  sel_receiver :: DomeConnectionEndpointV1
  sel_slot_generation :: u64
  sel_observed_active_connection_ids :: "string list"
  sel_selected_at :: i64

record DomeConnectionAgreementV1 =
  agr_connection_id :: string
  agr_proposal_id :: string
  agr_spatial_context :: SpatialContextV1
  agr_proposer :: DomeConnectionEndpointV1
  agr_receiver :: DomeConnectionEndpointV1
  agr_activation_generation :: u64

definition agreement_from_proposal :: "string \<Rightarrow> DomeConnectionProposalV1 \<Rightarrow> DomeConnectionAgreementV1" where
  "agreement_from_proposal connection_id proposal =
     \<lparr>agr_connection_id = connection_id, agr_proposal_id = prop_proposal_id proposal,
      agr_spatial_context = prop_spatial_context proposal, agr_proposer = prop_proposer proposal,
      agr_receiver = prop_receiver proposal, agr_activation_generation = prop_sequence proposal\<rparr>"

record SignedDomeConnectionAgreementV1 =
  sagr_agreement :: DomeConnectionAgreementV1
  sagr_proposer_signature :: KukuriEnvelope
  sagr_receiver_signature :: KukuriEnvelope

datatype DomeConnectionStatusV1 = ConnAccepted | ConnActive | ConnDraining | ConnRevoked

datatype DomeConnectionTerminalReasonV1 =
  OwnerRevoked | ProposerWithdrew | ProposerSlotOccupied | InstanceDetached | InstanceDeleted | OwnersBlocked

record DomeConnectionRecordV1 =
  rec_agreement :: DomeConnectionAgreementV1
  rec_receiver_slot_generation :: u64
  rec_observed_active_connection_ids :: "string list"
  rec_status :: DomeConnectionStatusV1
  rec_lifecycle_generation :: u64
  rec_lifecycle_actor :: "Pubkey option"
  rec_lifecycle_reason :: "DomeConnectionTerminalReasonV1 option"
  rec_lifecycle_deadline_at :: "i64 option"

datatype DomeProposalDerivedStatusV1 = Proposed | Reserved | Accepted | WaitingForSlot | Discarded

record DomeComponentTopologyV1 =
  comp_root_instance_id :: string
  comp_instance_ids :: "string list"
  comp_connection_ids :: "string list"
  comp_coordinates_cm :: "(string, vec3) btree_map"

record DomeTopologyV1 =
  topo_spatial_context :: SpatialContextV1
  topo_components :: "DomeComponentTopologyV1 list"
  topo_active_connection_ids :: "string list"
  topo_topology_digest :: string

text \<open>A rejection keeps the error itself; the code stores the text it displays.\<close>

record DomeRejectedConnectionV1 =
  rejc_connection_id :: string
  rejc_reason :: kerror

record DomeTopologyResolutionV1 =
  tres_topology :: DomeTopologyV1
  tres_rejected_connections :: "DomeRejectedConnectionV1 list"

fun opposite_dome_direction :: "DomeDirection \<Rightarrow> DomeDirection" where
  "opposite_dome_direction North = South"
| "opposite_dome_direction East = West"
| "opposite_dome_direction South = North"
| "opposite_dome_direction West = East"

definition is_valid_dome_record_id :: "string \<Rightarrow> nat \<Rightarrow> bool" where
  "is_valid_dome_record_id rid max_len \<longleftrightarrow> rid \<noteq> [] \<and> length rid \<le> max_len \<and>
     list_all (\<lambda>b. ascii_alphanumeric b \<or> b \<in> set ''-_.'') rid"

definition validate_unique_ids :: "string list \<Rightarrow> unit result" where
  "validate_unique_ids ids =
     (if list_ex (\<lambda>i. \<not> is_valid_dome_record_id i 160) ids \<or> \<not> distinct ids
      then bail ''Dome Connection causal ids must be non-empty and unique'' else Inr ())"

definition validate_endpoint_pair ::
    "SpatialContextV1 \<Rightarrow> DomeConnectionEndpointV1 \<Rightarrow> DomeConnectionEndpointV1 \<Rightarrow> DomeInstanceManifestV1 \<Rightarrow>
     DomeInstanceManifestV1 \<Rightarrow> unit result" where
  "validate_endpoint_pair spatial_context proposer_endpoint receiver_endpoint proposer receiver =
     rbind (validate_dome_relationship_scope proposer receiver) (\<lambda>_.
     if inst_spatial_context proposer \<noteq> spatial_context
       \<or> inst_spatial_context receiver \<noteq> spatial_context
       \<or> inst_instance_id proposer \<noteq> ep_instance_id proposer_endpoint
       \<or> inst_generation proposer \<noteq> ep_instance_generation proposer_endpoint
       \<or> inst_owner_pubkey proposer \<noteq> ep_owner_pubkey proposer_endpoint
       \<or> inst_instance_id receiver \<noteq> ep_instance_id receiver_endpoint
       \<or> inst_generation receiver \<noteq> ep_instance_generation receiver_endpoint
       \<or> inst_owner_pubkey receiver \<noteq> ep_owner_pubkey receiver_endpoint
     then bail ''Dome Connection endpoints do not match current instances''
     else if inst_instance_id proposer = inst_instance_id receiver
       \<or> inst_owner_pubkey proposer = inst_owner_pubkey receiver
     then bail ''Dome Connection endpoints must belong to different owners''
     else if ep_direction receiver_endpoint \<noteq> opposite_dome_direction (ep_direction proposer_endpoint)
     then bail ''Dome Connection endpoint directions are not opposites''
     else Inr ())"

definition validate_dome_connection_proposal ::
    "DomeConnectionProposalV1 \<Rightarrow> DomeInstanceManifestV1 \<Rightarrow> DomeInstanceManifestV1 \<Rightarrow> unit result" where
  "validate_dome_connection_proposal proposal proposer receiver =
     (if \<not> is_valid_dome_record_id (prop_proposal_id proposal) 128 \<or> prop_sequence proposal = 0
      then bail ''Dome Connection proposal identity is incomplete''
      else validate_endpoint_pair (prop_spatial_context proposal) (prop_proposer proposal)
        (prop_receiver proposal) proposer receiver)"

definition validate_dome_connection_selection ::
    "DomeProposalSelectionV1 \<Rightarrow> DomeConnectionProposalV1 \<Rightarrow> unit result" where
  "validate_dome_connection_selection selection proposal =
     (if \<not> is_valid_dome_record_id (sel_selection_id selection) 192
        \<or> sel_proposal_id selection \<noteq> prop_proposal_id proposal
        \<or> sel_slot_generation selection = 0
        \<or> sel_spatial_context selection \<noteq> prop_spatial_context proposal
        \<or> sel_receiver selection \<noteq> prop_receiver proposal
      then bail ''Dome Connection selection does not match proposal''
      else validate_unique_ids (sel_observed_active_connection_ids selection))"

definition validate_dome_connection_agreement ::
    "DomeConnectionAgreementV1 \<Rightarrow> DomeInstanceManifestV1 \<Rightarrow> DomeInstanceManifestV1 \<Rightarrow> unit result" where
  "validate_dome_connection_agreement agreement proposer receiver =
     (if \<not> is_valid_dome_record_id (agr_connection_id agreement) 160
        \<or> \<not> is_valid_dome_record_id (agr_proposal_id agreement) 128
        \<or> agr_activation_generation agreement = 0
      then bail ''Dome Connection agreement identity is incomplete''
      else validate_endpoint_pair (agr_spatial_context agreement) (agr_proposer agreement)
        (agr_receiver agreement) proposer receiver)"

definition validate_dome_connection_record :: "DomeConnectionRecordV1 \<Rightarrow> unit result" where
  "validate_dome_connection_record r =
     (if rec_lifecycle_generation r = 0 \<or> rec_receiver_slot_generation r = 0
      then bail ''Dome Connection lifecycle generations are required'' else
      rbind (validate_unique_ids (rec_observed_active_connection_ids r)) (\<lambda>_.
      if rec_status r \<in> {ConnAccepted, ConnActive}
      then if rec_lifecycle_reason r \<noteq> None \<or> rec_lifecycle_deadline_at r \<noteq> None
        then bail ''non-terminal Dome Connection cannot have a terminal reason'' else Inr ()
      else
      rbind (ok_or ''Dome Connection terminal lifecycle requires an actor'' (rec_lifecycle_actor r)) (\<lambda>actor.
      if actor \<noteq> ep_owner_pubkey (agr_proposer (rec_agreement r))
        \<and> actor \<noteq> ep_owner_pubkey (agr_receiver (rec_agreement r))
      then bail ''Dome Connection lifecycle actor is not an endpoint owner''
      else if rec_lifecycle_reason r = None
      then bail ''Dome Connection terminal lifecycle requires a reason''
      else if rec_status r = ConnDraining \<and> rec_lifecycle_deadline_at r = None
      then bail ''draining Dome Connection requires a deadline''
      else if rec_status r = ConnRevoked \<and> rec_lifecycle_deadline_at r \<noteq> None
      then bail ''revoked Dome Connection cannot retain a drain deadline''
      else Inr ())))"

section \<open>Signed agreements\<close>

definition connection_tags :: "string \<Rightarrow> string \<Rightarrow> string \<Rightarrow> string list list" where
  "connection_tags author object_id ctx =
     [[''author'', author], [''object'', ''dome-connection''], [''connection'', object_id], [''context'', ctx]]"

definition build_dome_connection_proposal_envelope ::
    "crypto_lib \<Rightarrow> u64 option \<Rightarrow> DomeConnectionProposalV1 codec \<Rightarrow> KukuriKeys \<Rightarrow> DomeConnectionProposalV1 \<Rightarrow>
     KukuriEnvelope result" where
  "build_dome_connection_proposal_envelope C clock J keys proposal =
     (if ep_owner_pubkey (prop_proposer proposal) \<noteq> public_key C keys
      then bail ''Dome Connection proposer must match signer''
      else sign_envelope_json C clock J keys ''dome-connection-proposal''
        (connection_tags (ep_owner_pubkey (prop_proposer proposal)) (prop_proposal_id proposal)
          (canonical_id (prop_spatial_context proposal))) proposal)"

definition build_dome_connection_selection_envelope ::
    "crypto_lib \<Rightarrow> u64 option \<Rightarrow> DomeProposalSelectionV1 codec \<Rightarrow> KukuriKeys \<Rightarrow> DomeProposalSelectionV1 \<Rightarrow>
     KukuriEnvelope result" where
  "build_dome_connection_selection_envelope C clock J keys selection =
     (if ep_owner_pubkey (sel_receiver selection) \<noteq> public_key C keys
      then bail ''Dome Connection receiver must match signer''
      else sign_envelope_json C clock J keys ''dome-connection-selection''
        (connection_tags (ep_owner_pubkey (sel_receiver selection)) (sel_proposal_id selection)
          (canonical_id (sel_spatial_context selection))) selection)"

definition build_dome_connection_agreement_envelope ::
    "crypto_lib \<Rightarrow> u64 option \<Rightarrow> DomeConnectionAgreementV1 codec \<Rightarrow> KukuriKeys \<Rightarrow> DomeConnectionAgreementV1 \<Rightarrow>
     KukuriEnvelope result" where
  "build_dome_connection_agreement_envelope C clock J keys agreement = (
     let signer = public_key C keys in
     if signer \<noteq> ep_owner_pubkey (agr_proposer agreement) \<and> signer \<noteq> ep_owner_pubkey (agr_receiver agreement)
     then bail ''Dome Connection agreement signer is not an endpoint owner''
     else sign_envelope_json C clock J keys ''dome-connection-agreement''
       (connection_tags signer (agr_connection_id agreement) (canonical_id (agr_spatial_context agreement)))
       agreement)"

definition build_signed_dome_connection_agreement ::
    "crypto_lib \<Rightarrow> u64 option \<Rightarrow> u64 option \<Rightarrow> DomeConnectionAgreementV1 codec \<Rightarrow> KukuriKeys \<Rightarrow> KukuriKeys \<Rightarrow>
     DomeConnectionAgreementV1 \<Rightarrow> SignedDomeConnectionAgreementV1 result" where
  "build_signed_dome_connection_agreement C clock1 clock2 J proposer_keys receiver_keys agreement =
     (if ep_owner_pubkey (agr_proposer agreement) \<noteq> public_key C proposer_keys
        \<or> ep_owner_pubkey (agr_receiver agreement) \<noteq> public_key C receiver_keys
      then bail ''Dome Connection agreement signers do not match endpoint owners'' else
      rbind (build_dome_connection_agreement_envelope C clock1 J proposer_keys agreement) (\<lambda>proposer_signature.
      rbind (build_dome_connection_agreement_envelope C clock2 J receiver_keys agreement) (\<lambda>receiver_signature.
      Inr \<lparr>sagr_agreement = agreement, sagr_proposer_signature = proposer_signature,
           sagr_receiver_signature = receiver_signature\<rparr>)))"

definition verify_signed_dome_connection_agreement ::
    "crypto_lib \<Rightarrow> DomeConnectionAgreementV1 codec \<Rightarrow> SignedDomeConnectionAgreementV1 \<Rightarrow> unit result" where
  "verify_signed_dome_connection_agreement C J signed = try_each (\<lambda>(envelope, owner).
     rbind (verify C envelope) (\<lambda>_.
     if env_kind envelope \<noteq> ''dome-connection-agreement'' \<or> env_pubkey envelope \<noteq> owner
     then bail ''Dome Connection agreement signature owner mismatch''
     else
     rbind (foreign ''serde_json'' (from_json J (env_content envelope))) (\<lambda>content.
     if content \<noteq> sagr_agreement signed
     then bail ''Dome Connection signatures must cover identical agreement content''
     else Inr ())))
     [(sagr_proposer_signature signed, ep_owner_pubkey (agr_proposer (sagr_agreement signed))),
      (sagr_receiver_signature signed, ep_owner_pubkey (agr_receiver (sagr_agreement signed)))]"

definition is_topology_active :: "DomeConnectionRecordV1 \<Rightarrow> bool" where
  "is_topology_active connection \<longleftrightarrow> rec_status connection \<in> {ConnActive, ConnDraining}"

definition derive_dome_proposal_status ::
    "DomeConnectionProposalV1 \<Rightarrow> DomeProposalSelectionV1 option \<Rightarrow> DomeConnectionRecordV1 list \<Rightarrow>
     DomeConnectionTerminalReasonV1 option \<Rightarrow> DomeProposalDerivedStatusV1" where
  "derive_dome_proposal_status proposal selection connections terminal_reason =
     (if terminal_reason \<noteq> None \<or> list_ex (\<lambda>c. is_topology_active c
          \<and> ep_instance_id (agr_proposer (rec_agreement c)) = ep_instance_id (prop_proposer proposal)
          \<and> ep_direction (agr_proposer (rec_agreement c)) = ep_direction (prop_proposer proposal)
          \<and> agr_proposal_id (rec_agreement c) \<noteq> prop_proposal_id proposal) connections
      then Discarded
      else if list_ex (\<lambda>c. is_topology_active c
          \<and> ep_instance_id (agr_receiver (rec_agreement c)) = ep_instance_id (prop_receiver proposal)
          \<and> ep_direction (agr_receiver (rec_agreement c)) = ep_direction (prop_receiver proposal)
          \<and> agr_proposal_id (rec_agreement c) \<noteq> prop_proposal_id proposal) connections
      then WaitingForSlot
      else if list_ex (\<lambda>c. agr_proposal_id (rec_agreement c) = prop_proposal_id proposal
          \<and> rec_status c \<in> {ConnAccepted, ConnActive, ConnDraining}) connections
      then Accepted
      else if (case selection of Some s \<Rightarrow> sel_proposal_id s = prop_proposal_id proposal | None \<Rightarrow> False)
      then Reserved else Proposed)"

section \<open>The order of connections\<close>

text \<open>
  \<open>Iterator::min_by\<close> keeps the first of equal minima; an enumerated element is a pair of index
  and value.
\<close>

definition min_index :: "('a \<Rightarrow> 'k::linorder) \<Rightarrow> (nat \<times> 'a) list \<Rightarrow> nat option" where
  "min_index key xs = (case xs of
     [] \<Rightarrow> None
   | x # rest \<Rightarrow> Some (fst (fold (\<lambda>y best. if key (snd y) < key (snd best) then y else best) rest x)))"

definition topology_order_key ::
    "(DomeConnectionRecordV1 \<Rightarrow> string) \<Rightarrow> DomeConnectionRecordV1 \<Rightarrow> nat \<times> string \<times> string" where
  "topology_order_key D c =
     (agr_activation_generation (rec_agreement c), D c, agr_connection_id (rec_agreement c))"

definition conn_id :: "DomeConnectionRecordV1 \<Rightarrow> string" where
  "conn_id c = agr_connection_id (rec_agreement c)"

definition causally_ready :: "string set \<Rightarrow> string set \<Rightarrow> DomeConnectionRecordV1 \<Rightarrow> bool" where
  "causally_ready candidate_ids emitted c \<longleftrightarrow>
     list_all (\<lambda>i. i \<in> emitted) (filter (\<lambda>i. i \<in> candidate_ids) (rec_observed_active_connection_ids c))"

definition next_index ::
    "(DomeConnectionRecordV1 \<Rightarrow> string) \<Rightarrow> string set \<Rightarrow> string set \<Rightarrow> DomeConnectionRecordV1 list \<Rightarrow> nat option" where
  "next_index D candidate_ids emitted remaining = opt_or
     (min_index (topology_order_key D)
        (filter (\<lambda>(_, c). causally_ready candidate_ids emitted c) (enumerate 0 remaining)))
     (min_index (topology_order_key D) (enumerate 0 remaining))"

lemma fold_min_mem:
  "fold (\<lambda>y best. if key (snd y) < key (snd best) then y else best) xs x \<in> insert x (set xs)"
  for key :: "'a \<Rightarrow> 'k::linorder"
  by (induction xs arbitrary: x) (auto split: if_splits)

lemma fold_min_le:
  "y \<in> insert x (set xs) \<Longrightarrow>
     key (snd (fold (\<lambda>y best. if key (snd y) < key (snd best) then y else best) xs x)) \<le> key (snd y)"
  for key :: "'a \<Rightarrow> 'k::linorder"
proof (induction xs arbitrary: x y)
  case (Cons z xs)
  let ?b = "if key (snd z) < key (snd x) then z else x"
  have "key (snd ?b) \<le> key (snd x)" "key (snd ?b) \<le> key (snd z)" by auto
  moreover have "key (snd (fold (\<lambda>y best. if key (snd y) < key (snd best) then y else best) xs ?b)) \<le> key (snd ?b)"
    by (rule Cons.IH) simp
  ultimately show ?case using Cons.prems Cons.IH [of y ?b] by auto
qed simp

lemma min_index_Some:
  assumes "min_index key xs = Some i"
  shows "\<exists>v. (i, v) \<in> set xs \<and> (\<forall>(j, w) \<in> set xs. key v \<le> key w)"
proof -
  obtain x rest where xs: "xs = x # rest"
    and i: "i = fst (fold (\<lambda>y best. if key (snd y) < key (snd best) then y else best) rest x)"
    using assms by (auto simp: min_index_def split: list.splits)
  let ?m = "fold (\<lambda>y best. if key (snd y) < key (snd best) then y else best) rest x"
  have "?m \<in> set xs" using fold_min_mem [of key rest x] xs by simp
  moreover have "\<forall>y \<in> set xs. key (snd ?m) \<le> key (snd y)"
    using fold_min_le [of _ x rest key] xs by simp
  ultimately show ?thesis using i by (intro exI [of _ "snd ?m"]) auto
qed

lemma min_index_Nil [simp]: "min_index key [] = None"
  by (simp add: min_index_def)

lemma min_index_None [simp]: "min_index key xs = None \<longleftrightarrow> xs = []"
  by (auto simp: min_index_def split: list.splits)

lemma in_enumerate: "(i, v) \<in> set (enumerate 0 xs) \<longleftrightarrow> i < length xs \<and> v = xs ! i"
  by (auto simp: in_set_enumerate_eq)

lemma min_index_enumerate:
  assumes "min_index key (filter (\<lambda>(_, c). P c) (enumerate 0 xs)) = Some i"
  shows "i < length xs \<and> P (xs ! i) \<and> (\<forall>c \<in> set xs. P c \<longrightarrow> key (xs ! i) \<le> key c)"
proof -
  let ?ys = "filter (\<lambda>(_, c). P c) (enumerate 0 xs)"
  obtain v where v: "(i, v) \<in> set ?ys" and le: "\<And>j w. (j, w) \<in> set ?ys \<Longrightarrow> key v \<le> key w"
    using min_index_Some [OF assms] by fast
  have i: "i < length xs" "v = xs ! i" "P v" using v by (auto simp: in_enumerate)
  have "key v \<le> key c" if c: "c \<in> set xs" "P c" for c
  proof -
    obtain j where "j < length xs" "xs ! j = c" using c(1) by (auto simp: in_set_conv_nth)
    with c(2) have "(j, c) \<in> set ?ys" by (simp add: in_enumerate)
    then show ?thesis by (rule le)
  qed
  with i show ?thesis by blast
qed

text \<open>The records to choose from: the ready ones or, failing any, all.\<close>

definition choice_pool :: "string set \<Rightarrow> string set \<Rightarrow> DomeConnectionRecordV1 set \<Rightarrow> DomeConnectionRecordV1 set" where
  "choice_pool cands emitted R =
     (if \<exists>c \<in> R. causally_ready cands emitted c then {c \<in> R. causally_ready cands emitted c} else R)"

lemma next_index_Some:
  assumes "next_index D cands emitted remaining = Some i"
  shows "i < length remaining" "remaining ! i \<in> choice_pool cands emitted (set remaining)"
    "\<And>c. c \<in> choice_pool cands emitted (set remaining) \<Longrightarrow>
       topology_order_key D (remaining ! i) \<le> topology_order_key D c"
proof -
  let ?P = "causally_ready cands emitted"
  let ?ready = "min_index (topology_order_key D) (filter (\<lambda>(_, c). ?P c) (enumerate 0 remaining))"
  have "i < length remaining \<and> remaining ! i \<in> choice_pool cands emitted (set remaining) \<and>
    (\<forall>c \<in> choice_pool cands emitted (set remaining).
       topology_order_key D (remaining ! i) \<le> topology_order_key D c)"
  proof (cases ?ready)
    case (Some k)
    with assms have "?ready = Some i" by (simp add: next_index_def)
    from min_index_enumerate [OF this] show ?thesis by (auto simp: choice_pool_def)
  next
    case None
    have none: "\<not> ?P c" if "c \<in> set remaining" for c
    proof
      assume "?P c"
      obtain j where "j < length remaining" "remaining ! j = c" using \<open>c \<in> set remaining\<close> by (auto simp: in_set_conv_nth)
      with \<open>?P c\<close> have "(j, c) \<in> set (filter (\<lambda>(_, c). ?P c) (enumerate 0 remaining))" by (simp add: in_enumerate)
      with None show False by simp
    qed
    have "min_index (topology_order_key D) (filter (\<lambda>(_, c). True) (enumerate 0 remaining)) = Some i"
      using assms unfolding next_index_def None by (simp add: split_def)
    from min_index_enumerate [OF this] none show ?thesis by (auto simp: choice_pool_def)
  qed
  then show "i < length remaining" "remaining ! i \<in> choice_pool cands emitted (set remaining)"
    "\<And>c. c \<in> choice_pool cands emitted (set remaining) \<Longrightarrow>
       topology_order_key D (remaining ! i) \<le> topology_order_key D c"
    by blast+
qed

lemma next_index_None [simp]: "next_index D cands emitted remaining = None \<longleftrightarrow> remaining = []"
  by (auto simp: next_index_def opt_or_def enumerate_eq_zip split: option.split)

text \<open>
  The loop panics where the code does: when there is no candidate among the remaining records (\<open>expect\<close>)
  or the chosen index is out of range (\<open>Vec::remove\<close>).
\<close>

function order_loop ::
    "(DomeConnectionRecordV1 \<Rightarrow> string) \<Rightarrow> string set \<Rightarrow> string set \<Rightarrow> DomeConnectionRecordV1 list \<Rightarrow>
     DomeConnectionRecordV1 list result" where
  "order_loop D candidate_ids emitted remaining =
     (if remaining = [] then Inr []
      else rbind (expect ''remaining topology candidate'' (next_index D candidate_ids emitted remaining)) (\<lambda>i.
        if i < length remaining
        then rbind (order_loop D candidate_ids (insert (conn_id (remaining ! i)) emitted)
               (take i remaining @ drop (Suc i) remaining)) (\<lambda>ordered.
             Inr (remaining ! i # ordered))
        else Inl (Panic ''remove'')))"
  by pat_completeness auto
termination
  by (relation "measure (\<lambda>(_, _, _, r). length r)") auto

declare order_loop.simps [simp del]

definition ordered_topology_connections ::
    "(DomeConnectionRecordV1 \<Rightarrow> string) \<Rightarrow> DomeConnectionRecordV1 list \<Rightarrow> DomeConnectionRecordV1 list result" where
  "ordered_topology_connections D connections = (
     let remaining = filter is_topology_active connections
     in order_loop D (set (map conn_id remaining)) {} remaining)"

text \<open>What the loop computes, as a list: neither panic can happen.\<close>

function order_records ::
    "(DomeConnectionRecordV1 \<Rightarrow> string) \<Rightarrow> string set \<Rightarrow> string set \<Rightarrow> DomeConnectionRecordV1 list \<Rightarrow>
     DomeConnectionRecordV1 list" where
  "order_records D candidate_ids emitted remaining =
     (case next_index D candidate_ids emitted remaining of
        None \<Rightarrow> []
      | Some i \<Rightarrow> remaining ! i #
          order_records D candidate_ids (insert (conn_id (remaining ! i)) emitted)
            (take i remaining @ drop (Suc i) remaining))"
  by pat_completeness auto
termination
  by (relation "measure (\<lambda>(_, _, _, r). length r)") (auto dest: next_index_Some)

declare order_records.simps [simp del]

lemma order_records_Nil [simp]: "order_records D cands emitted [] = []"
  by (subst order_records.simps) (simp add: next_index_def)

lemma order_loop_records: "order_loop D cands emitted remaining = Inr (order_records D cands emitted remaining)"
proof (induction D cands emitted remaining rule: order_records.induct)
  case (1 D cands emitted remaining)
  show ?case
  proof (cases "next_index D cands emitted remaining")
    case None
    then show ?thesis by (simp add: order_loop.simps)
  next
    case (Some i)
    then have "remaining \<noteq> []" by (metis next_index_None option.distinct(1))
    with Some 1 [OF Some] next_index_Some(1) [OF Some] show ?thesis
      by (subst order_loop.simps, subst order_records.simps) simp
  qed
qed

lemma ordered_topology_connections_Inr:
  "ordered_topology_connections D connections = Inr cs \<longleftrightarrow>
     cs = order_records D (conn_id ` set (filter is_topology_active connections)) {} (filter is_topology_active connections)"
  by (auto simp: ordered_topology_connections_def order_loop_records Let_def)

lemma ordered_topology_connections_ok: "\<exists>cs. ordered_topology_connections D connections = Inr cs"
  by (simp add: ordered_topology_connections_Inr)

section \<open>The order depends on the records only\<close>

lemma mset_remove_index: "i < length xs \<Longrightarrow> mset (take i xs @ drop (Suc i) xs) = mset xs - {#xs ! i#}"
proof -
  assume "i < length xs"
  then have "mset xs = mset (take i xs @ xs ! i # drop (Suc i) xs)" by (simp flip: id_take_nth_drop)
  then show ?thesis by simp
qed

lemma order_records_mset:
  "mset (order_records D cands emitted remaining) = mset remaining"
proof (induction D cands emitted remaining rule: order_records.induct)
  case (1 D cands emitted remaining)
  show ?case
  proof (cases "next_index D cands emitted remaining")
    case None
    then show ?thesis by simp
  next
    case (Some i)
    note i = next_index_Some(1) [OF Some]
    from 1 [OF Some] show ?thesis
      using i mset_remove_index [OF i]
      by (subst order_records.simps) (simp add: Some)
  qed
qed

lemma ordered_topology_connections_mset:
  "ordered_topology_connections D connections = Inr cs \<Longrightarrow> mset cs = mset (filter is_topology_active connections)"
  by (simp add: ordered_topology_connections_Inr order_records_mset)

lemma order_records_perm:
  assumes "mset xs = mset ys" "inj_on (topology_order_key D) (set xs)"
  shows "order_records D cands emitted xs = order_records D cands emitted ys"
  using assms
proof (induction D cands emitted xs arbitrary: ys rule: order_records.induct)
  case (1 D cands emitted xs)
  have set_eq: "set ys = set xs" using 1(2) by (metis set_mset_mset)
  show ?case
  proof (cases "next_index D cands emitted xs")
    case None
    then have "ys = []" using 1(2) by simp
    with None show ?thesis by simp
  next
    case (Some i)
    then have "ys \<noteq> []" using 1(2) next_index_Some(1) [OF Some] by auto
    then obtain j where j: "next_index D cands emitted ys = Some j"
      by (cases "next_index D cands emitted ys") simp_all
    note ni = next_index_Some [OF Some] and nj = next_index_Some [OF j]
    have "topology_order_key D (xs ! i) = topology_order_key D (ys ! j)"
      using ni(3) [of "ys ! j"] nj(3) [of "xs ! i"] ni(2) nj(2) by (simp add: set_eq order_antisym)
    moreover have "xs ! i \<in> set xs" "ys ! j \<in> set xs" using ni(1) nj(1) set_eq nth_mem by blast+
    ultimately have same: "xs ! i = ys ! j" using 1(3) by (rule_tac inj_onD)
    let ?xs = "take i xs @ drop (Suc i) xs" and ?ys = "take j ys @ drop (Suc j) ys"
    have "mset ?xs = mset ?ys"
      using mset_remove_index [OF ni(1)] mset_remove_index [OF nj(1)] 1(2) same by simp
    moreover have "inj_on (topology_order_key D) (set ?xs)"
      using 1(3) by (rule inj_on_subset) (auto dest: in_set_takeD in_set_dropD)
    ultimately have "order_records D cands (insert (conn_id (xs ! i)) emitted) ?xs =
        order_records D cands (insert (conn_id (xs ! i)) emitted) ?ys"
      by (rule 1(1) [OF Some])
    with same show ?thesis
      by (subst (1 2) order_records.simps) (simp add: Some j)
  qed
qed

text \<open>
  C11. Every peer orders a set of connection records the same way, in whatever order they were
  delivered: two deliveries of the same records give the same list, a rearrangement of the active
  ones, as long as the record digest tells records with equal generation and id apart.
\<close>

theorem topology_order_delivery_independent:
  assumes "mset xs = mset ys"
    and "inj_on (topology_order_key D) (set (filter is_topology_active xs))"
  shows "\<exists>cs. ordered_topology_connections D xs = Inr cs \<and> ordered_topology_connections D ys = Inr cs \<and>
    mset cs = mset (filter is_topology_active xs)"
proof -
  have m: "mset (filter is_topology_active xs) = mset (filter is_topology_active ys)"
    using assms(1) by simp
  then have "set (filter is_topology_active xs) = set (filter is_topology_active ys)"
    by (metis set_mset_mset)
  then show ?thesis
    using order_records_perm [OF m assms(2)]
    by (simp add: ordered_topology_connections_Inr order_records_mset assms(1) del: set_filter)
qed

definition sample_endpoint :: "string \<Rightarrow> string \<Rightarrow> DomeDirection \<Rightarrow> DomeConnectionEndpointV1" where
  "sample_endpoint inst owner d = \<lparr>ep_instance_id = inst, ep_instance_generation = 1, ep_owner_pubkey = owner, ep_direction = d\<rparr>"

definition sample_connection :: "nat \<Rightarrow> string \<Rightarrow> string list \<Rightarrow> DomeConnectionRecordV1" where
  "sample_connection g cid seen = \<lparr>
     rec_agreement = \<lparr>agr_connection_id = cid, agr_proposal_id = ''p'', agr_spatial_context = ContextTopic ''t'',
       agr_proposer = sample_endpoint ''a'' ''alice'' North, agr_receiver = sample_endpoint ''b'' ''bob'' South,
       agr_activation_generation = g\<rparr>,
     rec_receiver_slot_generation = 1, rec_observed_active_connection_ids = seen, rec_status = ConnActive,
     rec_lifecycle_generation = 1, rec_lifecycle_actor = None, rec_lifecycle_reason = None,
     rec_lifecycle_deadline_at = None\<rparr>"

theorem topology_order_delivery_independent_witness:
  "\<exists>cs. ordered_topology_connections conn_id [sample_connection 2 ''x'' [], sample_connection 1 ''y'' []] = Inr cs \<and>
     ordered_topology_connections conn_id [sample_connection 1 ''y'' [], sample_connection 2 ''x'' []] = Inr cs \<and> length cs = 2"
proof -
  let ?xs = "[sample_connection 2 ''x'' [], sample_connection 1 ''y'' []]"
  have f: "filter is_topology_active ?xs = ?xs" by (simp add: sample_connection_def is_topology_active_def)
  have "inj_on (topology_order_key conn_id) (set (filter is_topology_active ?xs))"
    unfolding f by (simp add: topology_order_key_def sample_connection_def)
  from topology_order_delivery_independent [OF _ this, of "rev ?xs"]
  obtain cs where cs: "ordered_topology_connections conn_id ?xs = Inr cs" "ordered_topology_connections conn_id (rev ?xs) = Inr cs"
    "mset cs = mset ?xs" unfolding f by auto
  then show ?thesis using mset_eq_length [OF cs(3)] by simp
qed

subsection \<open>Causality\<close>

text \<open>A rank for which every record is above the candidates it has observed: there is no causal cycle.\<close>

definition causal_rank :: "(string \<Rightarrow> nat) \<Rightarrow> DomeConnectionRecordV1 set \<Rightarrow> bool" where
  "causal_rank rank R \<longleftrightarrow> (\<forall>c \<in> R. \<forall>i \<in> set (rec_observed_active_connection_ids c).
     i \<in> conn_id ` R \<longrightarrow> rank i < rank (conn_id c))"

definition causal_prefix :: "string set \<Rightarrow> DomeConnectionRecordV1 list \<Rightarrow> bool" where
  "causal_prefix cands cs \<longleftrightarrow> (\<forall>k < length cs. \<forall>i \<in> set (rec_observed_active_connection_ids (cs ! k)).
     i \<in> cands \<longrightarrow> (\<exists>j < k. conn_id (cs ! j) = i))"

lemma some_ready:
  assumes "causal_rank rank R" "cands = conn_id ` R" "S \<subseteq> R" "S \<noteq> {}" "finite S"
    and "cands \<subseteq> emitted \<union> conn_id ` S"
  shows "\<exists>c \<in> S. causally_ready cands emitted c"
proof -
  obtain c where c: "c \<in> S" and least: "\<And>d. d \<in> S \<Longrightarrow> rank (conn_id c) \<le> rank (conn_id d)"
    using assms(4,5) ex_min_if_finite [of "(rank \<circ> conn_id) ` S"] by (fastforce simp: not_less)
  have "i \<in> emitted" if i: "i \<in> set (rec_observed_active_connection_ids c)" "i \<in> cands" for i
  proof (rule ccontr)
    assume "i \<notin> emitted"
    with i(2) assms(6) obtain d where d: "d \<in> S" "i = conn_id d" by auto
    have "rank i < rank (conn_id c)"
      using assms(1,2,3) c i unfolding causal_rank_def by blast
    with least [OF d(1)] d(2) show False by simp
  qed
  then show ?thesis using c by (auto simp: causally_ready_def list_all_iff)
qed

lemma order_records_causal:
  assumes "causal_rank rank R" "cands = conn_id ` R" "set remaining \<subseteq> R"
    and "cands \<subseteq> emitted \<union> conn_id ` set remaining"
  shows "\<forall>k < length (order_records D cands emitted remaining).
    \<forall>i \<in> set (rec_observed_active_connection_ids (order_records D cands emitted remaining ! k)). i \<in> cands \<longrightarrow>
      i \<in> emitted \<or> (\<exists>j < k. conn_id (order_records D cands emitted remaining ! j) = i)"
  using assms
proof (induction D cands emitted remaining rule: order_records.induct)
  case (1 D cands emitted remaining)
  show ?case
  proof (cases "next_index D cands emitted remaining")
    case None
    then show ?thesis by simp
  next
    case (Some n)
    let ?c = "remaining ! n" and ?rest = "take n remaining @ drop (Suc n) remaining"
    let ?e = "insert (conn_id ?c) emitted"
    note n = next_index_Some [OF Some]
    have ne: "set remaining \<noteq> {}" using n(1) by auto
    have ready: "causally_ready cands emitted ?c"
      using some_ready [OF 1(2,3,4) ne finite_set 1(5)] n(2) by (auto simp: choice_pool_def split: if_splits)
    have rest: "set remaining = insert ?c (set ?rest)"
      using n(1) by (metis id_take_nth_drop list.simps(15) set_append Un_insert_right)
    have IH: "\<forall>k < length (order_records D cands ?e ?rest).
      \<forall>i \<in> set (rec_observed_active_connection_ids (order_records D cands ?e ?rest ! k)). i \<in> cands \<longrightarrow>
        i \<in> ?e \<or> (\<exists>j < k. conn_id (order_records D cands ?e ?rest ! j) = i)"
      using 1(1) [OF Some 1(2,3)] 1(4,5) rest by auto
    have eq: "order_records D cands emitted remaining = ?c # order_records D cands ?e ?rest"
      by (subst order_records.simps) (simp add: Some)
    show ?thesis
      unfolding eq
    proof (intro allI impI ballI)
      fix k i
      assume k: "k < length (?c # order_records D cands ?e ?rest)"
        and i: "i \<in> set (rec_observed_active_connection_ids ((?c # order_records D cands ?e ?rest) ! k))" "i \<in> cands"
      show "i \<in> emitted \<or> (\<exists>j < k. conn_id ((?c # order_records D cands ?e ?rest) ! j) = i)"
      proof (cases k)
        case 0
        with i ready show ?thesis by (auto simp: causally_ready_def list_all_iff)
      next
        case (Suc k')
        with IH i k consider "i \<in> ?e" | j where "j < k'" "conn_id (order_records D cands ?e ?rest ! j) = i" by auto
        then show ?thesis
        proof cases
          case 1
          with Suc show ?thesis by (auto intro!: exI [of _ 0])
        next
          case 2
          with Suc show ?thesis by (auto intro!: exI [of _ "Suc j"])
        qed
      qed
    qed
  qed
qed

text \<open>
  C8. Causality is kept: unless the records claim to have observed each other in a circle, a
  connection comes after every active connection it names as already observed.
\<close>

theorem topology_order_causal:
  assumes "causal_rank rank (set (filter is_topology_active connections))"
  shows "\<exists>cs. ordered_topology_connections D connections = Inr cs \<and>
    mset cs = mset (filter is_topology_active connections) \<and>
    causal_prefix (conn_id ` set (filter is_topology_active connections)) cs"
  using order_records_causal [OF assms refl subset_refl, of "{}" D]
  by (simp add: ordered_topology_connections_Inr order_records_mset causal_prefix_def del: set_filter)

theorem topology_order_causal_witness:
  "\<exists>cs. ordered_topology_connections conn_id [sample_connection 1 ''x'' [''y''], sample_connection 2 ''y'' []] = Inr cs \<and>
     causal_prefix {''x'', ''y''} cs"
proof -
  let ?cs = "[sample_connection 1 ''x'' [''y''], sample_connection 2 ''y'' []]"
  have f: "filter is_topology_active ?cs = ?cs" by (simp add: sample_connection_def is_topology_active_def)
  have "causal_rank (\<lambda>i. if i = ''x'' then 1 else 0) (set ?cs)"
    by (simp add: causal_rank_def conn_id_def sample_connection_def)
  with topology_order_causal [of "\<lambda>i. if i = ''x'' then 1 else 0" ?cs conn_id]
  have "\<exists>cs. ordered_topology_connections conn_id ?cs = Inr cs \<and> causal_prefix (conn_id ` set ?cs) cs"
    unfolding f by blast
  moreover have "conn_id ` set ?cs = {''x'', ''y''}" by (auto simp: conn_id_def sample_connection_def)
  ultimately show ?thesis by simp
qed

section \<open>Components and coordinates\<close>

type_synonym topology_edge = "string \<times> DomeDirection \<times> string"
type_synonym topology_adjacency = "(string, topology_edge list) btree_map"

definition adj_edges :: "topology_adjacency \<Rightarrow> string \<Rightarrow> topology_edge list" where
  "adj_edges adj x = (case bm_get adj x of Some es \<Rightarrow> es | None \<Rightarrow> [])"

definition adj_neighbors :: "topology_adjacency \<Rightarrow> string \<Rightarrow> string list" where
  "adj_neighbors adj x = map fst (adj_edges adj x)"

definition adj_targets :: "topology_adjacency \<Rightarrow> string set" where
  "adj_targets adj = \<Union> ((\<lambda>(_, es). fst ` set es) ` set adj)"

lemma finite_adj_targets [simp]: "finite (adj_targets adj)"
  by (auto simp: adj_targets_def)

lemma adj_neighbors_targets: "set (adj_neighbors adj x) \<subseteq> adj_targets adj"
proof
  fix n
  assume "n \<in> set (adj_neighbors adj x)"
  then obtain es e where es: "bm_get adj x = Some es" and e: "e \<in> set es" "n = fst e"
    by (cases "bm_get adj x") (auto simp: adj_neighbors_def adj_edges_def)
  have "(x, es) \<in> set adj" using es by (rule bm_get_Some_in)
  moreover have "n \<in> (case (x, es) of (_, es) \<Rightarrow> fst ` set es)" using e by simp
  ultimately show "n \<in> adj_targets adj" unfolding adj_targets_def by (rule UN_I)
qed

function reach_loop :: "topology_adjacency \<Rightarrow> string list \<Rightarrow> string list \<Rightarrow> string list" where
  "reach_loop adj [] visited = visited"
| "reach_loop adj (x # queue) visited =
     (if x \<in> set visited then reach_loop adj queue visited
      else reach_loop adj
        (queue @ filter (\<lambda>n. n \<notin> set (bs_insert x visited)) (adj_neighbors adj x)) (bs_insert x visited))"
  by pat_completeness auto
termination
proof (relation "measures [\<lambda>(adj, queue, visited). card ((set queue \<union> adj_targets adj) - set visited),
    \<lambda>(adj, queue, visited). length queue]", goal_cases)
  case 1
  then show ?case by simp
next
  case (2 adj x queue visited)
  have "card ((set queue \<union> adj_targets adj) - set visited) \<le> card ((set (x # queue) \<union> adj_targets adj) - set visited)"
    by (rule card_mono) auto
  then show ?case by (auto simp: le_less)
next
  case (3 adj x queue visited)
  let ?q = "queue @ filter (\<lambda>n. n \<notin> set (bs_insert x visited)) (adj_neighbors adj x)"
  have "card ((set ?q \<union> adj_targets adj) - set (bs_insert x visited)) <
      card ((set (x # queue) \<union> adj_targets adj) - set visited)"
  proof (rule psubset_card_mono)
    show "(set ?q \<union> adj_targets adj) - set (bs_insert x visited) \<subset> (set (x # queue) \<union> adj_targets adj) - set visited"
      using 3 adj_neighbors_targets [of adj x] by auto
  qed simp
  then show ?case by simp
qed

definition reachable_instances :: "topology_adjacency \<Rightarrow> string \<Rightarrow> string list" where
  "reachable_instances adj start = reach_loop adj [start] []"

definition adj_rel :: "topology_adjacency \<Rightarrow> (string \<times> string) set" where
  "adj_rel adj = {(x, y). y \<in> set (adj_neighbors adj x)}"

lemma reach_loop_ok: "bs_ok visited \<Longrightarrow> bs_ok (reach_loop adj queue visited)"
  by (induction adj queue visited rule: reach_loop.induct) (auto simp: bs_ok_insert)

lemma reach_loop_grows: "set visited \<union> set queue \<subseteq> set (reach_loop adj queue visited)"
  by (induction adj queue visited rule: reach_loop.induct) auto

lemma reach_loop_within:
  "set (reach_loop adj queue visited) \<subseteq> set visited \<union> (adj_rel adj)\<^sup>* `` set queue"
proof (induction adj queue visited rule: reach_loop.induct)
  case (2 adj x queue visited)
  show ?case
  proof (cases "x \<in> set visited")
    case True
    with 2(1) show ?thesis by auto
  next
    case False
    have "(x, n) \<in> adj_rel adj" if "n \<in> set (adj_neighbors adj x)" for n
      using that by (simp add: adj_rel_def)
    with 2(2) [OF False] False show ?thesis
      by (auto intro: converse_rtrancl_into_rtrancl dest!: subsetD)
  qed
qed simp

lemma reach_loop_closed:
  assumes "\<And>a b. a \<in> set visited \<Longrightarrow> (a, b) \<in> adj_rel adj \<Longrightarrow> b \<in> set visited \<union> set queue"
    and "a \<in> set (reach_loop adj queue visited)" "(a, b) \<in> adj_rel adj"
  shows "b \<in> set (reach_loop adj queue visited)"
  using assms
proof (induction adj queue visited arbitrary: a b rule: reach_loop.induct)
  case (1 adj visited)
  then show ?case by auto
next
  case (2 adj x queue visited)
  show ?case
  proof (cases "x \<in> set visited")
    case True
    show ?thesis using 2(1) [OF True, of a b] 2(3) 2(4,5) True by auto
  next
    case False
    show ?thesis
      using 2(2) [OF False, of a b] 2(3) 2(4,5) False by (auto simp: adj_rel_def)
  qed
qed

text \<open>Breadth-first search finds exactly the instances connected to the start, in order.\<close>

lemma reachable_instances_exact:
  "set (reachable_instances adj start) = (adj_rel adj)\<^sup>* `` {start}"
proof
  show "set (reachable_instances adj start) \<subseteq> (adj_rel adj)\<^sup>* `` {start}"
    using reach_loop_within [of adj "[start]" "[]"] by (simp add: reachable_instances_def)
  have "y \<in> set (reachable_instances adj start)" if "(start, y) \<in> (adj_rel adj)\<^sup>*" for y
    using that
  proof (induction rule: rtrancl_induct)
    case base
    then show ?case using reach_loop_grows [of "[]" "[start]" adj] by (simp add: reachable_instances_def)
  next
    case (step y z)
    then show ?case
      unfolding reachable_instances_def by (intro reach_loop_closed [of "[]" adj "[start]" y z]) simp_all
  qed
  then show "(adj_rel adj)\<^sup>* `` {start} \<subseteq> set (reachable_instances adj start)" by auto
qed

lemma reachable_instances_ok: "bs_ok (reachable_instances adj start)"
  unfolding reachable_instances_def by (rule reach_loop_ok) (simp add: bs_ok_def)

definition direction_offset_cm :: "DomeDirection \<Rightarrow> vec3 result" where
  "direction_offset_cm direction = expect ''fixed Dome contains every direction''
     (map_option fde_adjacent_dome_offset_cm
        (find (\<lambda>endpoint. fde_direction endpoint = direction) (fds_endpoints fixed_dome_v1)))"

definition vec3_add :: "vec3 \<Rightarrow> vec3 \<Rightarrow> vec3" where
  "vec3_add = (\<lambda>(a, b, c) (x, y, z). (a + x, b + y, c + z))"

record coordinate_state =
  cs_coordinates :: "(string, vec3) btree_map"
  cs_owners :: "(vec3, string) btree_map"
  cs_connection_ids :: "string list"
  cs_queue :: "string list"

definition place_edge :: "vec3 \<Rightarrow> coordinate_state \<Rightarrow> topology_edge \<Rightarrow> coordinate_state result" where
  "place_edge current st = (\<lambda>(neighbor, direction, connection_id).
     let st = st\<lparr>cs_connection_ids := bs_insert connection_id (cs_connection_ids st)\<rparr> in
     rbind (direction_offset_cm direction) (\<lambda>offset.
     let coordinate = vec3_add current offset in
     case bm_get (cs_coordinates st) neighbor of
       Some existing \<Rightarrow>
         if existing \<noteq> coordinate
         then bail ''Dome Connection topology assigns inconsistent coordinates'' else Inr st
     | None \<Rightarrow>
         if (case bm_get (cs_owners st) coordinate of Some owner \<Rightarrow> owner \<noteq> neighbor | None \<Rightarrow> False)
         then bail ''Dome Connection topology has a coordinate collision''
         else Inr (st\<lparr>cs_owners := bm_insert coordinate neighbor (cs_owners st),
             cs_coordinates := bm_insert neighbor coordinate (cs_coordinates st),
             cs_queue := cs_queue st @ [neighbor]\<rparr>)))"

definition place_edges :: "topology_adjacency \<Rightarrow> string \<Rightarrow> vec3 \<Rightarrow> coordinate_state \<Rightarrow> coordinate_state result" where
  "place_edges adj instance_id current st =
     try_fold (place_edge current) st (sort_key (\<lambda>(_, _, cid). cid) (adj_edges adj instance_id))"

definition coordinate_measure :: "topology_adjacency \<Rightarrow> coordinate_state \<Rightarrow> nat" where
  "coordinate_measure adj st =
     2 * card (adj_targets adj - dom (bm_get (cs_coordinates st))) + length (cs_queue st)"

lemma place_edge_Inr:
  "place_edge current st (n, d, cid) = Inr st' \<longleftrightarrow> (\<exists>off. direction_offset_cm d = Inr off \<and>
     (bm_get (cs_coordinates st) n = Some (vec3_add current off) \<and>
        st' = st\<lparr>cs_connection_ids := bs_insert cid (cs_connection_ids st)\<rparr> \<or>
      bm_get (cs_coordinates st) n = None \<and>
        (\<forall>owner. bm_get (cs_owners st) (vec3_add current off) = Some owner \<longrightarrow> owner = n) \<and>
        st' = st\<lparr>cs_connection_ids := bs_insert cid (cs_connection_ids st),
          cs_owners := bm_insert (vec3_add current off) n (cs_owners st),
          cs_coordinates := bm_insert n (vec3_add current off) (cs_coordinates st),
          cs_queue := cs_queue st @ [n]\<rparr>))"
proof (cases "direction_offset_cm d")
  case (Inl e)
  then show ?thesis by (simp add: place_edge_def Let_def)
next
  case (Inr off)
  show ?thesis
  proof (cases "bm_get (cs_coordinates st) n")
    case None
    with Inr show ?thesis
      by (cases "bm_get (cs_owners st) (vec3_add current off)") (auto simp: place_edge_def Let_def)
  next
    case (Some co)
    with Inr show ?thesis by (auto simp: place_edge_def Let_def)
  qed
qed

lemma place_edge_measure:
  assumes "place_edge current st e = Inr st'" "fst e \<in> adj_targets adj"
  shows "coordinate_measure adj st' \<le> coordinate_measure adj st"
proof -
  obtain n d cid where e: "e = (n, d, cid)" by (cases e)
  show ?thesis
  proof (cases "bm_get (cs_coordinates st) n")
    case None
    then obtain off where st': "cs_coordinates st' = bm_insert n (vec3_add current off) (cs_coordinates st)"
        "cs_queue st' = cs_queue st @ [n]"
      using assms(1) unfolding e place_edge_Inr by (elim exE conjE disjE) simp_all
    let ?D = "dom (bm_get (cs_coordinates st))"
    have "n \<in> adj_targets adj - ?D" using assms(2) None e by auto
    then have "card (adj_targets adj - ?D) = Suc (card (adj_targets adj - ?D - {n}))"
      by (intro card.remove) simp_all
    moreover have "adj_targets adj - dom (bm_get (cs_coordinates st')) = adj_targets adj - ?D - {n}"
      by (auto simp: st')
    ultimately show ?thesis by (simp add: coordinate_measure_def st')
  next
    case (Some co)
    then have "cs_coordinates st' = cs_coordinates st" "cs_queue st' = cs_queue st"
      using assms(1) unfolding e place_edge_Inr by (elim exE conjE disjE; simp)+
    then show ?thesis by (simp add: coordinate_measure_def)
  qed
qed

lemma place_edges_measure:
  assumes "place_edges adj x current st = Inr st'"
  shows "coordinate_measure adj st' \<le> coordinate_measure adj st"
  using assms unfolding place_edges_def
proof (rule try_fold_invariant)
  fix s e s'
  assume "coordinate_measure adj s \<le> coordinate_measure adj st"
    and e: "e \<in> set (sort_key (\<lambda>(_, _, cid). cid) (adj_edges adj x))" and "place_edge current s e = Inr s'"
  moreover have "fst e \<in> adj_targets adj"
    using e adj_neighbors_targets [of adj x] by (auto simp: adj_neighbors_def)
  ultimately show "coordinate_measure adj s' \<le> coordinate_measure adj st"
    using place_edge_measure le_trans by blast
qed simp

function coordinate_loop :: "topology_adjacency \<Rightarrow> coordinate_state \<Rightarrow> coordinate_state result" where
  "coordinate_loop adj st = (case cs_queue st of
     [] \<Rightarrow> Inr st
   | instance_id # queue \<Rightarrow>
       rbind (expect ''coordinates_cm'' (bm_get (cs_coordinates st) instance_id)) (\<lambda>current.
       rbind (place_edges adj instance_id current (st\<lparr>cs_queue := queue\<rparr>)) (\<lambda>st'.
       coordinate_loop adj st')))"
  by pat_completeness auto
termination
proof (relation "measure (\<lambda>(adj, st). coordinate_measure adj st)", goal_cases)
  case 1
  then show ?case by simp
next
  case (2 adj st x queue current st')
  from place_edges_measure [OF 2(3)] 2(1) show ?case by (simp add: coordinate_measure_def)
qed

declare coordinate_loop.simps [simp del]

function components_loop :: "topology_adjacency \<Rightarrow> string list \<Rightarrow> DomeComponentTopologyV1 list result" where
  "components_loop adj remaining = (case remaining of
     [] \<Rightarrow> Inr []
   | root # _ \<Rightarrow>
       let instance_set = reachable_instances adj root;
           remaining' = filter (\<lambda>i. i \<notin> set instance_set) remaining in
       rbind (ok_or ''Dome component is empty'' (nth_opt instance_set 0)) (\<lambda>root_instance_id.
       rbind (coordinate_loop adj
         \<lparr>cs_coordinates = [(root_instance_id, (0, 0, 0))], cs_owners = [((0, 0, 0), root_instance_id)],
          cs_connection_ids = [], cs_queue = [root_instance_id]\<rparr>) (\<lambda>st.
       rbind (components_loop adj remaining') (\<lambda>components.
       Inr (\<lparr>comp_root_instance_id = root_instance_id, comp_instance_ids = instance_set,
             comp_connection_ids = cs_connection_ids st, comp_coordinates_cm = cs_coordinates st\<rparr>
            # components)))))"
  by pat_completeness auto
termination
proof (relation "measure (\<lambda>(adj, remaining). length remaining)", goal_cases)
  case 1
  then show ?case by simp
next
  case (2 adj remaining root rest inst remaining' root_id st)
  have "root \<in> set inst" using 2(2) by (simp add: reachable_instances_exact)
  with 2(1,3) show ?case by (simp add: le_imp_less_Suc)
qed

declare components_loop.simps [simp del]

definition derive_components :: "topology_adjacency \<Rightarrow> DomeComponentTopologyV1 list result" where
  "derive_components adj =
     rbind (components_loop adj (bm_keys adj)) (\<lambda>components. Inr (sort_key comp_root_instance_id components))"

section \<open>Resolution\<close>

definition index_instance ::
    "(string, DomeInstanceManifestV1) btree_map \<times> SpatialContextV1 option \<Rightarrow> DomeInstanceManifestV1 \<Rightarrow>
     ((string, DomeInstanceManifestV1) btree_map \<times> SpatialContextV1 option) result" where
  "index_instance = (\<lambda>(instance_by_id, spatial_context) inst.
     rbind (validate_dome_instance_manifest inst) (\<lambda>_.
     if inst_status inst \<noteq> Active \<or> inst_relationship_detach inst \<noteq> None
     then bail ''Dome topology requires active attached instances'' else
     rbind (case spatial_context of
         Some ctx \<Rightarrow> if ctx \<noteq> inst_spatial_context inst
           then bail ''Dome topology instances must share one Spatial Context'' else Inr ctx
       | None \<Rightarrow> Inr (inst_spatial_context inst)) (\<lambda>ctx.
     if bm_contains instance_by_id (inst_instance_id inst)
     then bail ''duplicate Dome instance in topology input''
     else Inr (bm_insert (inst_instance_id inst) inst instance_by_id, Some ctx))))"

record topology_state =
  ts_seen :: "string list"
  ts_adjacency :: topology_adjacency
  ts_slots :: "(string \<times> DomeDirection) set"

definition push_edge :: "string \<Rightarrow> string \<Rightarrow> topology_edge \<Rightarrow> topology_adjacency \<Rightarrow> topology_adjacency result" where
  "push_edge message instance_id edge adj =
     rbind (expect message (bm_get adj instance_id)) (\<lambda>es. Inr (bm_insert instance_id (es @ [edge]) adj))"

definition add_connection ::
    "(string, DomeInstanceManifestV1) btree_map \<Rightarrow> topology_state \<Rightarrow> DomeConnectionRecordV1 \<Rightarrow>
     topology_state result" where
  "add_connection instance_by_id st connection =
     rbind (validate_dome_connection_record connection) (\<lambda>_.
     let agreement = rec_agreement connection; cid = agr_connection_id agreement;
         p = ep_instance_id (agr_proposer agreement); r = ep_instance_id (agr_receiver agreement);
         pslot = (p, ep_direction (agr_proposer agreement));
         rslot = (r, ep_direction (agr_receiver agreement)) in
     if cid \<in> set (ts_seen st) then bail ''duplicate Dome Connection id'' else
     rbind (ok_or ''Dome Connection proposer instance is unavailable'' (bm_get instance_by_id p)) (\<lambda>proposer.
     rbind (ok_or ''Dome Connection receiver instance is unavailable'' (bm_get instance_by_id r)) (\<lambda>receiver.
     rbind (validate_dome_connection_agreement agreement proposer receiver) (\<lambda>_.
     if pslot \<in> ts_slots st \<or> rslot \<in> insert pslot (ts_slots st)
     then bail ''Dome Connection direction slot is already occupied'' else
     let proposer_component = reachable_instances (ts_adjacency st) p;
         receiver_component = reachable_instances (ts_adjacency st) r in
     if r \<in> set proposer_component then bail ''Dome Connection would create a cycle''
     else if length proposer_component > 1 \<and> length receiver_component > 1
     then bail ''Dome Connection cannot merge existing components'' else
     rbind (push_edge ''validated proposer'' p (r, ep_direction (agr_proposer agreement), cid) (ts_adjacency st)) (\<lambda>adj1.
     rbind (push_edge ''validated receiver'' r (p, ep_direction (agr_receiver agreement), cid) adj1) (\<lambda>adj2.
     rbind (derive_components adj2) (\<lambda>_.
     Inr \<lparr>ts_seen = bs_insert cid (ts_seen st), ts_adjacency = adj2,
          ts_slots = insert rslot (insert pslot (ts_slots st))\<rparr>)))))))"

definition resolve_dome_topology ::
    "(DomeConnectionRecordV1 \<Rightarrow> string) \<Rightarrow>
     (SpatialContextV1 \<Rightarrow> DomeComponentTopologyV1 list \<Rightarrow> string list \<Rightarrow> string option) \<Rightarrow>
     DomeInstanceManifestV1 list \<Rightarrow> DomeConnectionRecordV1 list \<Rightarrow> DomeTopologyV1 result" where
  "resolve_dome_topology D T instances connections =
     rbind (try_fold index_instance ([], None) instances) (\<lambda>(instance_by_id, spatial_context).
     rbind (ok_or ''Dome topology requires at least one instance'' spatial_context) (\<lambda>spatial_context.
     rbind (ordered_topology_connections D connections) (\<lambda>ordered.
     rbind (try_fold (add_connection instance_by_id)
       \<lparr>ts_seen = [], ts_adjacency = map (\<lambda>k. (k, [])) (bm_keys instance_by_id), ts_slots = {}\<rparr> ordered) (\<lambda>st.
     rbind (derive_components (ts_adjacency st)) (\<lambda>components.
     rbind (foreign ''serde_json'' (T spatial_context components (ts_seen st))) (\<lambda>digest.
     Inr \<lparr>topo_spatial_context = spatial_context, topo_components = components,
          topo_active_connection_ids = ts_seen st, topo_topology_digest = digest\<rparr>))))))"

definition try_candidate ::
    "(DomeConnectionRecordV1 \<Rightarrow> string) \<Rightarrow>
     (SpatialContextV1 \<Rightarrow> DomeComponentTopologyV1 list \<Rightarrow> string list \<Rightarrow> string option) \<Rightarrow>
     DomeInstanceManifestV1 list \<Rightarrow> DomeConnectionRecordV1 \<Rightarrow>
     DomeConnectionRecordV1 list \<times> DomeRejectedConnectionV1 list \<Rightarrow>
     (DomeConnectionRecordV1 list \<times> DomeRejectedConnectionV1 list) result" where
  "try_candidate D T instances candidate = (\<lambda>(accepted, rejected).
     case resolve_dome_topology D T instances (accepted @ [candidate]) of
       Inr _ \<Rightarrow> Inr (accepted @ [candidate], rejected)
     | Inl e \<Rightarrow> if is_panic e then Inl e
         else Inr (accepted, rejected @ [\<lparr>rejc_connection_id = conn_id candidate, rejc_reason = e\<rparr>]))"

definition resolve_dome_topology_candidates ::
    "(DomeConnectionRecordV1 \<Rightarrow> string) \<Rightarrow>
     (SpatialContextV1 \<Rightarrow> DomeComponentTopologyV1 list \<Rightarrow> string list \<Rightarrow> string option) \<Rightarrow>
     DomeInstanceManifestV1 list \<Rightarrow> DomeConnectionRecordV1 list \<Rightarrow> DomeTopologyResolutionV1 result" where
  "resolve_dome_topology_candidates D T instances connections =
     rbind (ordered_topology_connections D connections) (\<lambda>ordered.
     rbind (try_fold (\<lambda>s candidate. try_candidate D T instances candidate s) ([], []) ordered) (\<lambda>(accepted, rejected).
     rbind (resolve_dome_topology D T instances accepted) (\<lambda>topology.
     Inr \<lparr>tres_topology = topology, tres_rejected_connections = rejected\<rparr>)))"

section \<open>Coordinates are consistent\<close>

text \<open>Coordinates are handled as points, not as three components.\<close>

declare split_paired_Ex [simp del] split_paired_All [simp del]

lemma map_leD: "f \<subseteq>\<^sub>m g \<Longrightarrow> f x = Some c \<Longrightarrow> g x = Some c"
  by (metis domI map_le_def)

definition edge_placed :: "(string \<Rightarrow> vec3 option) \<Rightarrow> vec3 \<Rightarrow> topology_edge \<Rightarrow> bool" where
  "edge_placed coords current = (\<lambda>(n, d, _).
     \<exists>off. direction_offset_cm d = Inr off \<and> coords n = Some (vec3_add current off))"

definition coords_sound :: "coordinate_state \<Rightarrow> bool" where
  "coords_sound st \<longleftrightarrow> bm_ok (cs_coordinates st) \<and> bm_ok (cs_owners st) \<and>
     (\<forall>n c. bm_get (cs_coordinates st) n = Some c \<longleftrightarrow> bm_get (cs_owners st) c = Some n) \<and>
     set (cs_queue st) \<subseteq> dom (bm_get (cs_coordinates st))"

text \<open>What one step may change: coordinates are only added, each with its node queued.\<close>

definition coords_extend :: "coordinate_state \<Rightarrow> coordinate_state \<Rightarrow> bool" where
  "coords_extend st st' \<longleftrightarrow>
     bm_get (cs_coordinates st) \<subseteq>\<^sub>m bm_get (cs_coordinates st') \<and>
     set (cs_queue st) \<subseteq> set (cs_queue st') \<and>
     dom (bm_get (cs_coordinates st')) - dom (bm_get (cs_coordinates st)) \<subseteq> set (cs_queue st')"

lemma coords_extend_refl: "coords_extend st st"
  by (simp add: coords_extend_def)

lemma coords_extend_trans: "coords_extend a b \<Longrightarrow> coords_extend b c \<Longrightarrow> coords_extend a c"
  unfolding coords_extend_def by (intro conjI; (elim conjE)?) (blast intro: map_le_trans)+

lemma edge_placed_mono: "edge_placed f current e \<Longrightarrow> f \<subseteq>\<^sub>m g \<Longrightarrow> edge_placed g current e"
  by (cases e) (auto simp: edge_placed_def dest: map_leD)

lemma place_edge_sound:
  assumes "place_edge current st e = Inr st'" "coords_sound st"
  shows "coords_sound st'" "coords_extend st st'" "edge_placed (bm_get (cs_coordinates st')) current e"
    "dom (bm_get (cs_coordinates st')) \<subseteq> insert (fst e) (dom (bm_get (cs_coordinates st)))"
proof -
  obtain n d cid where e: "e = (n, d, cid)" by (cases e)
  from assms(1) obtain off where off: "direction_offset_cm d = Inr off"
    and or: "bm_get (cs_coordinates st) n = Some (vec3_add current off) \<and>
        st' = st\<lparr>cs_connection_ids := bs_insert cid (cs_connection_ids st)\<rparr> \<or>
      bm_get (cs_coordinates st) n = None \<and>
        (\<forall>owner. bm_get (cs_owners st) (vec3_add current off) = Some owner \<longrightarrow> owner = n) \<and>
        st' = st\<lparr>cs_connection_ids := bs_insert cid (cs_connection_ids st),
          cs_owners := bm_insert (vec3_add current off) n (cs_owners st),
          cs_coordinates := bm_insert n (vec3_add current off) (cs_coordinates st),
          cs_queue := cs_queue st @ [n]\<rparr>"
    unfolding e place_edge_Inr by blast
  from or have "coords_sound st' \<and> coords_extend st st' \<and> edge_placed (bm_get (cs_coordinates st')) current e \<and>
      dom (bm_get (cs_coordinates st')) \<subseteq> insert (fst e) (dom (bm_get (cs_coordinates st)))"
  proof (elim disjE conjE)
    assume "bm_get (cs_coordinates st) n = Some (vec3_add current off)"
      "st' = st\<lparr>cs_connection_ids := bs_insert cid (cs_connection_ids st)\<rparr>"
    with assms(2) off e show ?thesis
      by (auto simp: coords_sound_def coords_extend_def edge_placed_def)
  next
    let ?co = "vec3_add current off"
    assume none: "bm_get (cs_coordinates st) n = None"
      and own: "\<forall>owner. bm_get (cs_owners st) ?co = Some owner \<longrightarrow> owner = n"
      and st': "st' = st\<lparr>cs_connection_ids := bs_insert cid (cs_connection_ids st),
          cs_owners := bm_insert ?co n (cs_owners st),
          cs_coordinates := bm_insert n ?co (cs_coordinates st), cs_queue := cs_queue st @ [n]\<rparr>"
    have inv: "\<And>m c. bm_get (cs_coordinates st) m = Some c \<longleftrightarrow> bm_get (cs_owners st) c = Some m"
      using assms(2) by (simp add: coords_sound_def)
    have free: "bm_get (cs_owners st) ?co = None"
      using own none inv by (metis not_None_eq option.distinct(1))
    have "((bm_get (cs_coordinates st))(n \<mapsto> ?co)) m = Some c \<longleftrightarrow> ((bm_get (cs_owners st))(?co \<mapsto> n)) c = Some m" for m c
      using inv free none by (cases "m = n"; cases "c = ?co") (auto dest: inv [THEN iffD1] inv [THEN iffD2])
    then have "coords_sound st'"
      using assms(2) by (auto simp: coords_sound_def st' bm_ok_insert)
    moreover have "coords_extend st st'" using none by (auto simp: coords_extend_def st' map_le_def)
    moreover have "edge_placed (bm_get (cs_coordinates st')) current e" using off by (auto simp: e st' edge_placed_def)
    moreover have "dom (bm_get (cs_coordinates st')) \<subseteq> insert (fst e) (dom (bm_get (cs_coordinates st)))"
      by (auto simp: st' e)
    ultimately show ?thesis by blast
  qed
  then show "coords_sound st'" "coords_extend st st'" "edge_placed (bm_get (cs_coordinates st')) current e"
    "dom (bm_get (cs_coordinates st')) \<subseteq> insert (fst e) (dom (bm_get (cs_coordinates st)))" by auto
qed

lemma place_edge_list_sound:
  assumes "try_fold (place_edge current) st es = Inr st'" "coords_sound st"
  shows "coords_sound st' \<and> coords_extend st st' \<and>
    (\<forall>e \<in> set es. edge_placed (bm_get (cs_coordinates st')) current e) \<and>
    dom (bm_get (cs_coordinates st')) \<subseteq> dom (bm_get (cs_coordinates st)) \<union> fst ` set es"
  using assms
proof (induction es arbitrary: st)
  case Nil
  then show ?case by (simp add: coords_extend_refl)
next
  case (Cons e es)
  from Cons.prems(1) obtain s1 where s1: "place_edge current st e = Inr s1"
    and r: "try_fold (place_edge current) s1 es = Inr st'"
    by (auto simp: rbind_eq_Inr)
  note p = place_edge_sound [OF s1 Cons.prems(2)]
  note ih = Cons.IH [OF r p(1)]
  have "edge_placed (bm_get (cs_coordinates st')) current e"
    using p(3) ih edge_placed_mono unfolding coords_extend_def by blast
  moreover have "coords_extend st st'" using p(2) ih coords_extend_trans by blast
  moreover have "dom (bm_get (cs_coordinates st')) \<subseteq> dom (bm_get (cs_coordinates st)) \<union> fst ` set (e # es)"
  proof -
    have "dom (bm_get (cs_coordinates st')) \<subseteq> dom (bm_get (cs_coordinates s1)) \<union> fst ` set es" using ih by blast
    with p(4) show ?thesis unfolding list.set image_insert by blast
  qed
  ultimately show ?case using ih by simp
qed

definition node_placed :: "topology_adjacency \<Rightarrow> (string \<Rightarrow> vec3 option) \<Rightarrow> string \<Rightarrow> bool" where
  "node_placed adj coords x \<longleftrightarrow>
     (\<exists>c. coords x = Some c \<and> (\<forall>e \<in> set (adj_edges adj x). edge_placed coords c e))"

definition coordinate_inv :: "topology_adjacency \<Rightarrow> string \<Rightarrow> coordinate_state \<Rightarrow> bool" where
  "coordinate_inv adj root st \<longleftrightarrow> coords_sound st \<and>
     bm_get (cs_coordinates st) root = Some (0, 0, 0) \<and>
     dom (bm_get (cs_coordinates st)) \<subseteq> (adj_rel adj)\<^sup>* `` {root} \<and>
     (\<forall>x \<in> dom (bm_get (cs_coordinates st)) - set (cs_queue st). node_placed adj (bm_get (cs_coordinates st)) x)"

lemma node_placed_mono:
  assumes "node_placed adj f x" "f \<subseteq>\<^sub>m g"
  shows "node_placed adj g x"
proof -
  obtain c where c: "f x = Some c" "\<forall>e \<in> set (adj_edges adj x). edge_placed f c e"
    using assms(1) by (auto simp: node_placed_def)
  have "g x = Some c" using c(1) assms(2) by (auto dest: map_leD)
  with c(2) edge_placed_mono [OF _ assms(2)] show ?thesis by (auto simp: node_placed_def)
qed

lemma coordinate_step_inv:
  assumes inv: "coordinate_inv adj root st" and q: "cs_queue st = x # queue"
    and cur: "bm_get (cs_coordinates st) x = Some current"
    and p: "place_edges adj x current (st\<lparr>cs_queue := queue\<rparr>) = Inr st'"
  shows "coordinate_inv adj root st'"
proof -
  let ?st = "st\<lparr>cs_queue := queue\<rparr>" and ?f = "bm_get (cs_coordinates st)" and ?g = "bm_get (cs_coordinates st')"
  have i: "coords_sound st" "?f root = Some (0, 0, 0)" "dom ?f \<subseteq> (adj_rel adj)\<^sup>* `` {root}"
    "\<And>y. y \<in> dom ?f - set (cs_queue st) \<Longrightarrow> node_placed adj ?f y"
    using inv unfolding coordinate_inv_def by simp_all
  have "coords_sound ?st" using i(1) q by (simp add: coords_sound_def)
  note r = place_edge_list_sound [OF p [unfolded place_edges_def] this]
  have r1: "coords_sound st'" and r2: "\<forall>e \<in> set (adj_edges adj x). edge_placed ?g current e"
    and r3: "dom ?g \<subseteq> dom ?f \<union> fst ` set (adj_edges adj x)" and ext: "coords_extend ?st st'"
    using r by simp_all
  have le: "?f \<subseteq>\<^sub>m ?g" and qq: "set queue \<subseteq> set (cs_queue st')" "dom ?g - dom ?f \<subseteq> set (cs_queue st')"
    using ext by (simp_all add: coords_extend_def)
  have px: "node_placed adj ?g x"
    unfolding node_placed_def using map_leD [OF le cur] r2 by simp
  have "node_placed adj ?g y" if y: "y \<in> dom ?g - set (cs_queue st')" for y
  proof (cases "y = x")
    case True
    with px show ?thesis by simp
  next
    case False
    have "y \<in> dom ?f"
    proof (rule ccontr)
      assume "y \<notin> dom ?f"
      then have "y \<in> set (cs_queue st')" using y by (intro subsetD [OF qq(2)] DiffI) simp_all
      with y show False by simp
    qed
    moreover have "y \<notin> set (cs_queue st)" using y qq(1) False unfolding q list.set by (metis DiffE insertE subsetD)
    ultimately have "node_placed adj ?f y" by (intro i(4) DiffI)
    then show ?thesis using le by (rule node_placed_mono)
  qed
  moreover have "y \<in> (adj_rel adj)\<^sup>* `` {root}" if "y \<in> dom ?g" for y
  proof -
    have "x \<in> (adj_rel adj)\<^sup>* `` {root}" using i(3) cur by (metis domI subsetD)
    then have xr: "(root, x) \<in> (adj_rel adj)\<^sup>*" by simp
    from subsetD [OF r3 that] have "y \<in> dom ?f \<or> y \<in> fst ` set (adj_edges adj x)" by (simp only: Un_iff)
    then show ?thesis
    proof
      assume "y \<in> dom ?f"
      with i(3) show ?thesis by (rule subsetD)
    next
      assume "y \<in> fst ` set (adj_edges adj x)"
      then have "(x, y) \<in> adj_rel adj" by (simp add: adj_rel_def adj_neighbors_def)
      with xr show ?thesis by (simp add: rtrancl_into_rtrancl)
    qed
  qed
  moreover have "?g root = Some (0, 0, 0)" using le i(2) by (rule map_leD)
  ultimately show ?thesis using r1 unfolding coordinate_inv_def by (simp add: subsetI)
qed

lemma coordinate_loop_inv:
  "coordinate_loop adj st = Inr st' \<Longrightarrow> coordinate_inv adj root st \<Longrightarrow> coordinate_inv adj root st' \<and> cs_queue st' = []"
proof (induction adj st rule: coordinate_loop.induct)
  case (1 adj st)
  show ?case
  proof (cases "cs_queue st")
    case Nil
    with 1(2,3) show ?thesis by (simp add: coordinate_loop.simps [of adj st])
  next
    case (Cons x queue)
    from 1(2) Cons obtain current s1 where c: "bm_get (cs_coordinates st) x = Some current"
      and s1: "place_edges adj x current (st\<lparr>cs_queue := queue\<rparr>) = Inr s1" and r: "coordinate_loop adj s1 = Inr st'"
      by (auto simp: coordinate_loop.simps [of adj st] rbind_eq_Inr expect_eq_Inr)
    have "expect ''coordinates_cm'' (bm_get (cs_coordinates st) x) = Inr current" using c by simp
    from 1(1) [OF Cons this s1 r coordinate_step_inv [OF 1(3) Cons c s1]] show ?thesis .
  qed
qed

definition component_ok :: "topology_adjacency \<Rightarrow> DomeComponentTopologyV1 \<Rightarrow> bool" where
  "component_ok adj c \<longleftrightarrow> bs_ok (comp_instance_ids c) \<and> bm_ok (comp_coordinates_cm c) \<and>
     comp_root_instance_id c \<in> set (comp_instance_ids c) \<and>
     set (comp_instance_ids c) = (adj_rel adj)\<^sup>* `` {comp_root_instance_id c} \<and>
     dom (bm_get (comp_coordinates_cm c)) = set (comp_instance_ids c) \<and>
     bm_get (comp_coordinates_cm c) (comp_root_instance_id c) = Some (0, 0, 0) \<and>
     inj_on (bm_get (comp_coordinates_cm c)) (set (comp_instance_ids c)) \<and>
     (\<forall>x \<in> set (comp_instance_ids c). node_placed adj (bm_get (comp_coordinates_cm c)) x)"

lemma coordinate_inv_start:
  "coordinate_inv adj root \<lparr>cs_coordinates = [(root, (0, 0, 0))], cs_owners = [((0, 0, 0), root)],
     cs_connection_ids = [], cs_queue = [root]\<rparr>"
  by (auto simp: coordinate_inv_def coords_sound_def bm_ok_def bm_get_def split: if_splits)

lemma coords_sound_inj:
  assumes "coords_sound st"
  shows "inj_on (bm_get (cs_coordinates st)) (dom (bm_get (cs_coordinates st)))"
proof (rule inj_onI)
  fix x y
  assume x: "x \<in> dom (bm_get (cs_coordinates st))"
    and eq: "bm_get (cs_coordinates st) x = bm_get (cs_coordinates st) y"
  have i: "\<And>n c. bm_get (cs_coordinates st) n = Some c \<longleftrightarrow> bm_get (cs_owners st) c = Some n"
    using assms by (simp add: coords_sound_def)
  from domD [OF x] obtain c where c: "bm_get (cs_coordinates st) x = Some c" ..
  then have "bm_get (cs_coordinates st) y = Some c" using eq by simp
  then have "bm_get (cs_owners st) c = Some y" by (rule i [THEN iffD1])
  moreover have "bm_get (cs_owners st) c = Some x" using c by (rule i [THEN iffD1])
  ultimately show "x = y" by simp
qed

lemma node_placed_target:
  assumes "node_placed adj f x" "(x, y) \<in> adj_rel adj"
  shows "y \<in> dom f"
proof -
  obtain e where e: "e \<in> set (adj_edges adj x)" "y = fst e"
    using assms(2) by (auto simp: adj_rel_def adj_neighbors_def)
  obtain c where "edge_placed f c e" using assms(1) e(1) by (auto simp: node_placed_def)
  then show ?thesis by (cases e) (auto simp: edge_placed_def e(2))
qed

lemma coordinate_loop_component:
  assumes "coordinate_loop adj \<lparr>cs_coordinates = [(root, (0, 0, 0))], cs_owners = [((0, 0, 0), root)],
      cs_connection_ids = [], cs_queue = [root]\<rparr> = Inr st"
    and "bs_ok ids" "set ids = (adj_rel adj)\<^sup>* `` {root}"
  shows "component_ok adj \<lparr>comp_root_instance_id = root, comp_instance_ids = ids,
    comp_connection_ids = cs_connection_ids st, comp_coordinates_cm = cs_coordinates st\<rparr>"
proof -
  let ?f = "bm_get (cs_coordinates st)"
  from coordinate_loop_inv [OF assms(1) coordinate_inv_start]
  have s: "coords_sound st" and r: "?f root = Some (0, 0, 0)" and d: "dom ?f \<subseteq> set ids"
    and p: "\<forall>x \<in> dom ?f. node_placed adj ?f x"
    unfolding coordinate_inv_def assms(3) by simp_all
  have "y \<in> dom ?f" if "(root, y) \<in> (adj_rel adj)\<^sup>*" for y
    using that
  proof (induction rule: rtrancl_induct)
    case base
    then show ?case using r by (rule domI)
  next
    case (step y z)
    from step.IH p have "node_placed adj ?f y" by (rule bspec [rotated])
    then show ?case using step.hyps(2) by (rule node_placed_target)
  qed
  then have "set ids \<subseteq> dom ?f" unfolding assms(3) by (intro subsetI) simp
  with d have "dom ?f = set ids" by (rule subset_antisym)
  with s r p coords_sound_inj [OF s] assms(2,3) show ?thesis
    by (simp add: component_ok_def coords_sound_def)
qed

section \<open>Components partition the instances\<close>

definition conn_class :: "topology_adjacency \<Rightarrow> string \<Rightarrow> string set" where
  "conn_class adj x = (adj_rel adj)\<^sup>* `` {x}"

definition conn_classes :: "topology_adjacency \<Rightarrow> string set \<Rightarrow> string set set" where
  "conn_classes adj K = conn_class adj ` K"

lemma conn_class_self [simp]: "x \<in> conn_class adj x"
  by (simp add: conn_class_def)

lemma conn_class_eq: "sym (adj_rel adj) \<Longrightarrow> y \<in> conn_class adj x \<Longrightarrow> conn_class adj y = conn_class adj x"
  unfolding conn_class_def by (auto dest: symD [OF sym_rtrancl] intro: rtrancl_trans)

definition partition_of :: "topology_adjacency \<Rightarrow> string set \<Rightarrow> DomeComponentTopologyV1 list \<Rightarrow> bool" where
  "partition_of adj K comps \<longleftrightarrow> (\<forall>c \<in> set comps. component_ok adj c) \<and>
     set (concat (map comp_instance_ids comps)) = K \<and> distinct (concat (map comp_instance_ids comps)) \<and>
     length comps = card (conn_classes adj K)"

lemma partition_of_Cons:
  assumes "sym (adj_rel adj)" and c: "component_ok adj c" and rest: "partition_of adj (K - conn_class adj x) comps"
    and x: "x \<in> K" and fin: "finite K" and ids: "set (comp_instance_ids c) = conn_class adj x"
    and sub: "conn_class adj x \<subseteq> K"
  shows "partition_of adj K (c # comps)"
proof -
  let ?C = "conn_class adj x"
  have "conn_classes adj K = insert ?C (conn_classes adj (K - ?C))"
    using x conn_class_eq [OF assms(1)] unfolding conn_classes_def by auto
  moreover have "?C \<notin> conn_classes adj (K - ?C)"
    unfolding conn_classes_def by (metis DiffD2 conn_class_self imageE)
  ultimately have "card (conn_classes adj K) = Suc (card (conn_classes adj (K - ?C)))"
    using fin by (simp add: conn_classes_def)
  moreover have "distinct (comp_instance_ids c)" using c by (simp add: component_ok_def bs_ok_distinct)
  ultimately show ?thesis using c rest ids sub by (auto simp: partition_of_def)
qed

lemma components_loop_partition:
  assumes "sym (adj_rel adj)"
  shows "components_loop adj remaining = Inr comps \<Longrightarrow> (\<And>x. x \<in> set remaining \<Longrightarrow> conn_class adj x \<subseteq> set remaining) \<Longrightarrow>
    partition_of adj (set remaining) comps"
proof (induction "length remaining" arbitrary: remaining comps rule: less_induct)
  case less
  show ?case
  proof (cases remaining)
    case Nil
    with less.prems(1) show ?thesis by (simp add: components_loop.simps [of adj "[]"] partition_of_def conn_classes_def)
  next
    case (Cons root rest)
    let ?inst = "reachable_instances adj root" and ?rem = "filter (\<lambda>i. i \<notin> set (reachable_instances adj root)) remaining"
    from less.prems(1) Cons obtain r st comps' where r: "nth_opt ?inst 0 = Some r"
      and st: "coordinate_loop adj \<lparr>cs_coordinates = [(r, (0, 0, 0))], cs_owners = [((0, 0, 0), r)],
          cs_connection_ids = [], cs_queue = [r]\<rparr> = Inr st"
      and rec: "components_loop adj ?rem = Inr comps'"
      and comps: "comps = \<lparr>comp_root_instance_id = r, comp_instance_ids = ?inst,
          comp_connection_ids = cs_connection_ids st, comp_coordinates_cm = cs_coordinates st\<rparr> # comps'"
      by (subst (asm) components_loop.simps) (auto simp: result_simps Let_def)
    have set_inst: "set ?inst = conn_class adj root" by (simp add: reachable_instances_exact conn_class_def)
    have "r \<in> set ?inst" using r by (auto simp: nth_opt_def split: if_splits)
    then have "set ?inst = conn_class adj r" using set_inst conn_class_eq [OF assms] by simp
    then have c: "component_ok adj \<lparr>comp_root_instance_id = r, comp_instance_ids = ?inst,
        comp_connection_ids = cs_connection_ids st, comp_coordinates_cm = cs_coordinates st\<rparr>"
      by (intro coordinate_loop_component [OF st reachable_instances_ok]) (simp add: conn_class_def)
    have rem: "set ?rem = set remaining - conn_class adj root" using set_inst by auto
    have "partition_of adj (set ?rem) comps'"
    proof (rule less.hyps [OF _ rec])
      have "root \<in> set ?inst" using set_inst by simp
      then show "length ?rem < length remaining" using Cons by (simp add: le_imp_less_Suc)
      fix x
      assume x: "x \<in> set ?rem"
      have "y \<notin> conn_class adj root" if "y \<in> conn_class adj x" for y
        using that x rem conn_class_eq [OF assms] by (metis DiffD2 conn_class_self)
      moreover have "conn_class adj x \<subseteq> set remaining" using x by (intro less.prems(2)) simp
      ultimately show "conn_class adj x \<subseteq> set ?rem" unfolding rem by blast
    qed
    then show ?thesis unfolding comps rem
      using Cons less.prems(2) [of root] by (intro partition_of_Cons [OF assms c]) (simp_all add: set_inst)
  qed
qed

lemma mset_concat_map: "mset (concat (map f xs)) = sum_mset (image_mset (\<lambda>x. mset (f x)) (mset xs))"
  by (induction xs) auto

lemma partition_of_mset:
  assumes "mset comps = mset comps'"
  shows "partition_of adj K comps \<longleftrightarrow> partition_of adj K comps'"
proof -
  have "mset (concat (map comp_instance_ids comps)) = mset (concat (map comp_instance_ids comps'))"
    unfolding mset_concat_map assms ..
  then have "set (concat (map comp_instance_ids comps)) = set (concat (map comp_instance_ids comps'))"
    "distinct (concat (map comp_instance_ids comps)) \<longleftrightarrow> distinct (concat (map comp_instance_ids comps'))"
    by (rule mset_eq_setD, rule mset_eq_imp_distinct_iff)
  with mset_eq_setD [OF assms] mset_eq_length [OF assms] show ?thesis unfolding partition_of_def by simp
qed

lemma derive_components_partition:
  assumes "derive_components adj = Inr comps" "sym (adj_rel adj)" "adj_targets adj \<subseteq> set (bm_keys adj)"
  shows "partition_of adj (set (bm_keys adj)) comps \<and> sorted (map comp_root_instance_id comps)"
proof -
  obtain cs where cs: "components_loop adj (bm_keys adj) = Inr cs" and comps: "comps = sort_key comp_root_instance_id cs"
    using assms(1) by (auto simp: derive_components_def result_simps)
  have "y \<in> set (bm_keys adj)" if "(x, y) \<in> (adj_rel adj)\<^sup>*" "x \<in> set (bm_keys adj)" for x y
    using that
  proof (induction rule: rtrancl_induct)
    case (step y z)
    have "z \<in> set (adj_neighbors adj y)" using step.hyps(2) by (simp add: adj_rel_def)
    then have "z \<in> adj_targets adj" by (rule subsetD [OF adj_neighbors_targets])
    with assms(3) show ?case by (rule subsetD)
  qed
  then have "partition_of adj (set (bm_keys adj)) cs"
    by (intro components_loop_partition [OF assms(2) cs] subsetI) (simp add: conn_class_def)
  moreover have "mset comps = mset cs" by (simp add: comps)
  ultimately have "partition_of adj (set (bm_keys adj)) comps" using partition_of_mset [of comps cs] by simp
  then show ?thesis by (simp add: comps)
qed

section \<open>Joining two components\<close>

lemma joined_classes:
  assumes "sym R" and R': "R' = insert (a, b) (insert (b, a) R)"
  shows "R'\<^sup>* `` {x} = (if x \<in> R\<^sup>* `` {a} \<union> R\<^sup>* `` {b} then R\<^sup>* `` {a} \<union> R\<^sup>* `` {b} else R\<^sup>* `` {x})"
proof -
  let ?S = "R\<^sup>* `` {a} \<union> R\<^sup>* `` {b}"
  have sub: "R\<^sup>* \<subseteq> R'\<^sup>*" unfolding R' by (rule rtrancl_mono) auto
  have symS: "(u, v) \<in> R\<^sup>* \<Longrightarrow> (v, u) \<in> R\<^sup>*" for u v using symD [OF sym_rtrancl [OF assms(1)]] .
  have ab: "(a, b) \<in> R'\<^sup>*" "(b, a) \<in> R'\<^sup>*" unfolding R' by (auto intro: r_into_rtrancl)
  have stay: "z \<in> (if y \<in> ?S then ?S else R\<^sup>* `` {y})" if "(y, z) \<in> R'\<^sup>*" for y z
    using that
  proof (induction rule: rtrancl_induct)
    case (step u v)
    have "(u, v) \<in> R \<or> u = a \<and> v = b \<or> u = b \<and> v = a" using step.hyps(2) by (auto simp: R')
    then show ?case using step.IH by (auto split: if_splits intro: rtrancl_into_rtrancl symS)
  qed auto
  show ?thesis
  proof (cases "x \<in> ?S")
    case True
    then have "(x, a) \<in> R\<^sup>* \<or> (x, b) \<in> R\<^sup>*" using symS by auto
    then have xa: "(x, a) \<in> R'\<^sup>*" using subsetD [OF sub] rtrancl_trans [OF _ ab(2)] by blast
    have "?S \<subseteq> R'\<^sup>* `` {a}" using sub ab(1) by (auto intro: rtrancl_trans)
    then have "?S \<subseteq> R'\<^sup>* `` {x}" using xa by (auto intro: rtrancl_trans)
    moreover have "R'\<^sup>* `` {x} \<subseteq> ?S" using stay [of x] True by auto
    ultimately show ?thesis using True by auto
  next
    case False
    then show ?thesis using stay [of x] sub by auto
  qed
qed

lemma joined_classes_card:
  assumes "sym R" "R' = insert (a, b) (insert (b, a) R)" "b \<notin> R\<^sup>* `` {a}" "a \<in> K" "b \<in> K" "finite K"
  shows "Suc (card ((\<lambda>x. R'\<^sup>* `` {x}) ` K)) = card ((\<lambda>x. R\<^sup>* `` {x}) ` K)"
proof -
  let ?f = "\<lambda>x. R\<^sup>* `` {x}" and ?A = "R\<^sup>* `` {a}" and ?B = "R\<^sup>* `` {b}"
  have symS: "(u, v) \<in> R\<^sup>* \<Longrightarrow> (v, u) \<in> R\<^sup>*" for u v using symD [OF sym_rtrancl [OF assms(1)]] .
  have cls: "?f x = ?f y" if "x \<in> ?f y" for x y using that symS by (auto intro: rtrancl_trans)
  have AB: "?A \<noteq> ?B" using assms(3) by auto
  have "(\<lambda>x. R'\<^sup>* `` {x}) ` K = insert (?A \<union> ?B) (?f ` K - {?A, ?B})"
  proof -
    have "R'\<^sup>* `` {x} = ?A \<union> ?B" if "?f x = ?A \<or> ?f x = ?B" for x
      using that joined_classes [OF assms(1,2), of x] by auto
    moreover have "R'\<^sup>* `` {x} = ?f x \<and> ?f x \<noteq> ?A \<and> ?f x \<noteq> ?B" if "x \<notin> ?A \<union> ?B" for x
      using that joined_classes [OF assms(1,2), of x] by auto
    ultimately have "R'\<^sup>* `` {x} = (if ?f x \<in> {?A, ?B} then ?A \<union> ?B else ?f x)" for x
      using cls [of x a] cls [of x b] by (cases "x \<in> ?A \<union> ?B") auto
    then show ?thesis using assms(4) by (auto simp: image_iff)
  qed
  moreover have "?A \<union> ?B \<notin> ?f ` K - {?A, ?B}"
  proof
    assume "?A \<union> ?B \<in> ?f ` K - {?A, ?B}"
    then obtain x where x: "?A \<union> ?B = ?f x" "?f x \<noteq> ?A" by auto
    then have "a \<in> ?f x" by auto
    from cls [OF this] x(2) show False by simp
  qed
  moreover have "card (?f ` K) = Suc (Suc (card (?f ` K - {?A, ?B})))"
  proof -
    have "card (?f ` K - {?A, ?B}) = card (?f ` K) - card {?A, ?B}"
      using assms(4-6) by (intro card_Diff_subset) auto
    moreover have "card {?A, ?B} \<le> card (?f ` K)" using assms(4-6) by (intro card_mono) auto
    ultimately show ?thesis using AB by simp
  qed
  ultimately show ?thesis using assms(6) by simp
qed

lemma push_edge_eq_Inr [result_simps]:
  "push_edge m k e adj = Inr adj' \<longleftrightarrow> (\<exists>es. bm_get adj k = Some es \<and> adj' = bm_insert k (es @ [e]) adj)"
  by (auto simp: push_edge_def result_simps)

lemma adj_edges_insert:
  "bm_get adj k = Some es \<Longrightarrow>
     adj_edges (bm_insert k (es @ [e]) adj) x = (if x = k then adj_edges adj x @ [e] else adj_edges adj x)"
  by (simp add: adj_edges_def)

lemma adj_rel_insert:
  "bm_get adj k = Some es \<Longrightarrow> adj_rel (bm_insert k (es @ [e]) adj) = insert (k, fst e) (adj_rel adj)"
proof -
  assume "bm_get adj k = Some es"
  then have "adj_neighbors (bm_insert k (es @ [e]) adj) x =
      (if x = k then adj_neighbors adj x @ [fst e] else adj_neighbors adj x)" for x
    by (simp add: adj_neighbors_def adj_edges_insert)
  then show ?thesis by (auto simp: adj_rel_def split: if_splits)
qed

lemma adj_targets_rel: "bm_ok adj \<Longrightarrow> adj_targets adj = snd ` adj_rel adj"
proof -
  assume ok: "bm_ok adj"
  have "y \<in> adj_targets adj \<longleftrightarrow> (\<exists>x. (x, y) \<in> adj_rel adj)" for y
  proof
    assume "y \<in> adj_targets adj"
    then obtain x es where "(x, es) \<in> set adj" "y \<in> fst ` set es" unfolding adj_targets_def by auto
    then have "bm_get adj x = Some es" "y \<in> fst ` set es" using bm_get_iff [OF ok] by auto
    then have "(x, y) \<in> adj_rel adj" by (simp add: adj_rel_def adj_neighbors_def adj_edges_def)
    then show "\<exists>x. (x, y) \<in> adj_rel adj" ..
  next
    assume "\<exists>x. (x, y) \<in> adj_rel adj"
    then show "y \<in> adj_targets adj" using adj_neighbors_targets by (auto simp: adj_rel_def)
  qed
  then show ?thesis by force
qed

lemma set_bm_keys_insert: "set (bm_keys (bm_insert k v m)) = insert k (set (bm_keys m))"
  by (simp add: bm_keys_def bm_insert_keys)

lemma set_bm_keys: "set (bm_keys m) = dom (bm_get m)"
  unfolding bm_keys_def bm_get_def by (simp add: dom_map_of_conv_image_fst)

definition connection_edge :: "DomeConnectionRecordV1 \<Rightarrow> topology_edge" where
  "connection_edge c = (ep_instance_id (agr_receiver (rec_agreement c)),
     ep_direction (agr_proposer (rec_agreement c)), conn_id c)"

text \<open>What the loop over the records keeps, with \<open>done\<close> the records added so far.\<close>

definition resolution_inv :: "string set \<Rightarrow> DomeConnectionRecordV1 list \<Rightarrow> topology_state \<Rightarrow> bool" where
  "resolution_inv ids done st \<longleftrightarrow> bm_ok (ts_adjacency st) \<and> set (bm_keys (ts_adjacency st)) = ids \<and>
     sym (adj_rel (ts_adjacency st)) \<and> adj_targets (ts_adjacency st) \<subseteq> ids \<and>
     bs_ok (ts_seen st) \<and> set (ts_seen st) = conn_id ` set done \<and> distinct (map conn_id done) \<and>
     (\<forall>c \<in> set done. connection_edge c
        \<in> set (adj_edges (ts_adjacency st) (ep_instance_id (agr_proposer (rec_agreement c))))) \<and>
     card (conn_classes (ts_adjacency st) ids) + length done = card ids"

lemma add_connection_cases:
  assumes "add_connection M st c = Inr st'"
  obtains es1 es2 where
    "conn_id c \<notin> set (ts_seen st)"
    "ep_instance_id (agr_proposer (rec_agreement c)) \<in> dom (bm_get M)"
    "ep_instance_id (agr_receiver (rec_agreement c)) \<in> dom (bm_get M)"
    "ep_instance_id (agr_receiver (rec_agreement c)) \<notin>
       conn_class (ts_adjacency st) (ep_instance_id (agr_proposer (rec_agreement c)))"
    "bm_get (ts_adjacency st) (ep_instance_id (agr_proposer (rec_agreement c))) = Some es1"
    "bm_get (ts_adjacency st) (ep_instance_id (agr_receiver (rec_agreement c))) = Some es2"
    "ts_seen st' = bs_insert (conn_id c) (ts_seen st)"
    "ts_adjacency st' =
       bm_insert (ep_instance_id (agr_receiver (rec_agreement c)))
         (es2 @ [(ep_instance_id (agr_proposer (rec_agreement c)), ep_direction (agr_receiver (rec_agreement c)), conn_id c)])
         (bm_insert (ep_instance_id (agr_proposer (rec_agreement c)))
           (es1 @ [(ep_instance_id (agr_receiver (rec_agreement c)), ep_direction (agr_proposer (rec_agreement c)), conn_id c)])
           (ts_adjacency st))"
proof -
  let ?p = "ep_instance_id (agr_proposer (rec_agreement c))" and ?r = "ep_instance_id (agr_receiver (rec_agreement c))"
  have nc: "?r \<notin> conn_class (ts_adjacency st) ?p"
    using assms by (auto simp: add_connection_def Let_def result_simps reachable_instances_exact conn_class_def)
  then have "?r \<noteq> ?p" by auto
  then show ?thesis
    using assms nc unfolding add_connection_def Let_def result_simps sum.inject
    by (elim exE conjE) (hypsubst, rule that, (assumption | simp add: domI conn_id_def)+)
qed

lemma add_connection_inv:
  assumes "add_connection M st c = Inr st'" "resolution_inv ids done st" "dom (bm_get M) = ids" "finite ids"
  shows "resolution_inv ids (done @ [c]) st'"
proof -
  let ?p = "ep_instance_id (agr_proposer (rec_agreement c))" and ?r = "ep_instance_id (agr_receiver (rec_agreement c))"
  let ?adj = "ts_adjacency st" and ?adj' = "ts_adjacency st'"
  let ?e1 = "(?r, ep_direction (agr_proposer (rec_agreement c)), conn_id c)"
    and ?e2 = "(?p, ep_direction (agr_receiver (rec_agreement c)), conn_id c)"
  from assms(1) obtain es1 es2 where new: "conn_id c \<notin> set (ts_seen st)"
    and pr: "?p \<in> ids" "?r \<in> ids" and nc: "?r \<notin> conn_class ?adj ?p"
    and es: "bm_get ?adj ?p = Some es1" "bm_get ?adj ?r = Some es2"
    and seen: "ts_seen st' = bs_insert (conn_id c) (ts_seen st)"
    and adj': "?adj' = bm_insert ?r (es2 @ [?e2]) (bm_insert ?p (es1 @ [?e1]) ?adj)"
    by (rule add_connection_cases) (simp add: assms(3))
  have "?r \<noteq> ?p" using nc by auto
  then have es2: "bm_get (bm_insert ?p (es1 @ [?e1]) ?adj) ?r = Some es2" using es(2) by simp
  have inv: "bm_ok ?adj" "set (bm_keys ?adj) = ids" "sym (adj_rel ?adj)" "adj_targets ?adj \<subseteq> ids"
    "bs_ok (ts_seen st)" "set (ts_seen st) = conn_id ` set done" "distinct (map conn_id done)"
    "card (conn_classes ?adj ids) + length done = card ids"
    and edges: "\<And>k. k \<in> set done \<Longrightarrow> connection_edge k \<in> set (adj_edges ?adj (ep_instance_id (agr_proposer (rec_agreement k))))"
    using assms(2) by (simp_all add: resolution_inv_def)
  have ok': "bm_ok ?adj'" unfolding adj' by (intro bm_ok_insert inv(1))
  have rel': "adj_rel ?adj' = insert (?p, ?r) (insert (?r, ?p) (adj_rel ?adj))"
    unfolding adj' by (simp add: adj_rel_insert [OF es2] adj_rel_insert [OF es(1)] insert_commute)
  have "adj_targets ?adj' \<subseteq> ids"
    using inv(4) pr unfolding adj_targets_rel [OF ok'] adj_targets_rel [OF inv(1)] rel' by simp
  moreover have "sym (adj_rel ?adj')" unfolding rel' using inv(3) by (auto simp: sym_def)
  moreover have "set (bm_keys ?adj') = ids" using inv(2) pr by (auto simp: adj' set_bm_keys_insert)
  moreover have "connection_edge k \<in> set (adj_edges ?adj' (ep_instance_id (agr_proposer (rec_agreement k))))"
    if "k \<in> set (done @ [c])" for k
  proof -
    have "set (adj_edges ?adj x) \<subseteq> set (adj_edges ?adj' x)" for x
      unfolding adj' by (auto simp: adj_edges_insert [OF es2] adj_edges_insert [OF es(1)])
    moreover have "connection_edge c \<in> set (adj_edges ?adj' ?p)"
      unfolding adj' using \<open>?r \<noteq> ?p\<close>
      by (simp add: adj_edges_insert [OF es2] adj_edges_insert [OF es(1)] connection_edge_def)
    ultimately show ?thesis using that edges by auto
  qed
  moreover have "Suc (card (conn_classes ?adj' ids)) = card (conn_classes ?adj ids)"
    using joined_classes_card [OF inv(3) rel' _ pr assms(4)] nc by (simp add: conn_classes_def conn_class_def)
  ultimately show ?thesis
    using inv new ok' seen by (auto simp: resolution_inv_def bs_ok_insert)
qed

lemma index_instances:
  assumes "try_fold index_instance ([], None) instances = Inr (M, ctx)"
  shows "bm_ok M \<and> dom (bm_get M) = inst_instance_id ` set instances \<and> distinct (map inst_instance_id instances)"
proof -
  let ?P = "\<lambda>(ys :: DomeInstanceManifestV1 list) (M, ctx). bm_ok M \<and> dom (bm_get M) = inst_instance_id ` set ys \<and> distinct (map inst_instance_id ys)"
  have "?P instances (M, ctx)"
  proof (rule try_fold_prefix [OF assms])
    show "?P [] ([], None)" by (simp add: fun_eq_iff)
  next
    fix ys s x s'
    assume "?P ys s" "index_instance s x = Inr s'"
    then obtain N ctx' where N: "bm_ok N" "dom (bm_get N) = inst_instance_id ` set ys"
        "distinct (map inst_instance_id ys)" and r: "index_instance (N, ctx') x = Inr s'"
      by (cases s) auto
    have new: "inst_instance_id x \<notin> dom (bm_get N)" and s': "fst s' = bm_insert (inst_instance_id x) x N"
      using r by (auto simp: index_instance_def result_simps bm_contains_def)
    then have "dom (bm_get (fst s')) = inst_instance_id ` set (ys @ [x])" using N(2) by simp
    with N new s' show "?P (ys @ [x]) s'" unfolding N(2) by (cases s') (simp add: bm_ok_insert)
  qed
  then show ?thesis by simp
qed

lemma partition_edge_placed:
  assumes part: "partition_of adj K comps" and x: "x \<in> K" and e: "e \<in> set (adj_edges adj x)"
  obtains c v where "c \<in> set comps" "bm_get (comp_coordinates_cm c) x = Some v"
    "edge_placed (bm_get (comp_coordinates_cm c)) v e"
proof -
  obtain c where c: "c \<in> set comps" "x \<in> set (comp_instance_ids c)"
    using part x by (auto simp: partition_of_def)
  then have "node_placed adj (bm_get (comp_coordinates_cm c)) x"
    using part by (auto simp: partition_of_def component_ok_def)
  then obtain v where "bm_get (comp_coordinates_cm c) x = Some v" "edge_placed (bm_get (comp_coordinates_cm c)) v e"
    using e by (auto simp: node_placed_def)
  with c(1) show ?thesis by (rule that)
qed

lemma resolution_start:
  assumes "bm_ok M"
  shows "resolution_inv (set (bm_keys M)) [] \<lparr>ts_seen = [], ts_adjacency = map (\<lambda>k. (k, [])) (bm_keys M), ts_slots = {}\<rparr>"
proof -
  let ?adj = "map (\<lambda>k. (k, [])) (bm_keys M) :: topology_adjacency"
  have "adj_edges ?adj x = []" for x
    by (auto simp: adj_edges_def bm_get_def split: option.splits dest!: map_of_SomeD)
  then have rel: "adj_rel ?adj = {}" by (simp add: adj_rel_def adj_neighbors_def)
  then have "conn_classes ?adj (set (bm_keys M)) = (\<lambda>x. {x}) ` set (bm_keys M)"
    by (auto simp: conn_classes_def conn_class_def)
  then have "card (conn_classes ?adj (set (bm_keys M))) = card (set (bm_keys M))"
    by (simp add: card_image)
  moreover have ok: "bm_ok ?adj" using assms by (simp add: bm_ok_def bm_keys_def comp_def)
  ultimately show ?thesis
    using adj_targets_rel [OF ok] by (simp add: resolution_inv_def rel bs_ok_def sym_def) (simp add: bm_keys_def comp_def)
qed

lemma resolve_dome_topology_state:
  assumes "resolve_dome_topology D T instances connections = Inr topo"
  obtains st cs where "ordered_topology_connections D connections = Inr cs"
    "resolution_inv (inst_instance_id ` set instances) cs st"
    "derive_components (ts_adjacency st) = Inr (topo_components topo)"
    "topo_active_connection_ids topo = ts_seen st" "distinct (map inst_instance_id instances)"
proof -
  from assms obtain M ctx st cs where M: "try_fold index_instance ([], None) instances = Inr (M, ctx)"
    and cs: "ordered_topology_connections D connections = Inr cs"
    and st: "try_fold (add_connection M) \<lparr>ts_seen = [], ts_adjacency = map (\<lambda>k. (k, [])) (bm_keys M), ts_slots = {}\<rparr> cs = Inr st"
    and r: "derive_components (ts_adjacency st) = Inr (topo_components topo)"
      "topo_active_connection_ids topo = ts_seen st"
    unfolding resolve_dome_topology_def by (auto simp: result_simps)
  note ix = index_instances [OF M, THEN conjunct1] index_instances [OF M, THEN conjunct2, THEN conjunct1]
    index_instances [OF M, THEN conjunct2, THEN conjunct2]
  have "resolution_inv (set (bm_keys M)) cs st"
    using st
  proof (rule try_fold_prefix)
    show "resolution_inv (set (bm_keys M)) [] \<lparr>ts_seen = [], ts_adjacency = map (\<lambda>k. (k, [])) (bm_keys M), ts_slots = {}\<rparr>"
      using ix by (intro resolution_start) simp
  qed (rule add_connection_inv; (assumption | simp add: set_bm_keys [symmetric]))
  then show ?thesis using that cs r ix by (simp add: set_bm_keys)
qed

text \<open>
  C10. A resolved topology is a consistent map of the Domes. Its components partition the given
  instances; the listed connection ids are exactly those of the active records, each used once;
  there are as many connections as joins are needed, so every component is a tree; within a
  component the root is at the origin and no two Domes share coordinates; and each connection puts
  the receiver's Dome next to the proposer's, at the offset of the direction it was agreed for.
\<close>

theorem resolved_topology_consistent:
  assumes "resolve_dome_topology D T instances connections = Inr topo"
  shows "distinct (concat (map comp_instance_ids (topo_components topo))) \<and>
    set (concat (map comp_instance_ids (topo_components topo))) = inst_instance_id ` set instances \<and>
    distinct (map conn_id (filter is_topology_active connections)) \<and>
    topo_active_connection_ids topo = sort (map conn_id (filter is_topology_active connections)) \<and>
    length (topo_components topo) + length (filter is_topology_active connections) = length instances \<and>
    (\<forall>c \<in> set (topo_components topo).
       bm_get (comp_coordinates_cm c) (comp_root_instance_id c) = Some (0, 0, 0) \<and>
       dom (bm_get (comp_coordinates_cm c)) = set (comp_instance_ids c) \<and>
       inj_on (bm_get (comp_coordinates_cm c)) (set (comp_instance_ids c))) \<and>
    (\<forall>k \<in> set (filter is_topology_active connections). \<exists>c \<in> set (topo_components topo). \<exists>x off.
       bm_get (comp_coordinates_cm c) (ep_instance_id (agr_proposer (rec_agreement k))) = Some x \<and>
       direction_offset_cm (ep_direction (agr_proposer (rec_agreement k))) = Inr off \<and>
       bm_get (comp_coordinates_cm c) (ep_instance_id (agr_receiver (rec_agreement k))) = Some (vec3_add x off))"
proof -
  let ?ids = "inst_instance_id ` set instances" and ?act = "filter is_topology_active connections"
  obtain st cs where cs: "ordered_topology_connections D connections = Inr cs" and inv: "resolution_inv ?ids cs st"
    and comps: "derive_components (ts_adjacency st) = Inr (topo_components topo)"
    and seen: "topo_active_connection_ids topo = ts_seen st" and inst: "distinct (map inst_instance_id instances)"
    using assms by (rule resolve_dome_topology_state)
  note m = ordered_topology_connections_mset [OF cs]
  note m_set = mset_eq_setD [OF m] and m_len = mset_eq_length [OF m]
  have part: "partition_of (ts_adjacency st) ?ids (topo_components topo)"
    using derive_components_partition [OF comps] inv by (simp add: resolution_inv_def)
  have dist: "distinct (map conn_id ?act)"
    using inv m by (metis mset_eq_imp_distinct_iff mset_map resolution_inv_def)
  have "card (conn_classes (ts_adjacency st) ?ids) + length ?act = card ?ids"
    using inv m_len by (simp add: resolution_inv_def)
  moreover have "card ?ids = length instances" using distinct_card [OF inst] by simp
  ultimately have count: "length (topo_components topo) + length ?act = length instances"
    using part by (simp add: partition_of_def)
  have "bs_ok (ts_seen st)" "set (ts_seen st) = conn_id ` set ?act"
    using inv m_set by (simp_all add: resolution_inv_def)
  then have ids: "ts_seen st = sort (map conn_id ?act)"
    using dist by (intro sorted_distinct_set_unique) (simp_all add: bs_ok_distinct)
  have placed: "\<exists>c \<in> set (topo_components topo). \<exists>x off.
      bm_get (comp_coordinates_cm c) (ep_instance_id (agr_proposer (rec_agreement k))) = Some x \<and>
      direction_offset_cm (ep_direction (agr_proposer (rec_agreement k))) = Inr off \<and>
      bm_get (comp_coordinates_cm c) (ep_instance_id (agr_receiver (rec_agreement k))) = Some (vec3_add x off)"
    if k: "k \<in> set ?act" for k
  proof -
    let ?p = "ep_instance_id (agr_proposer (rec_agreement k))"
    have e: "connection_edge k \<in> set (adj_edges (ts_adjacency st) ?p)"
      using inv k m_set by (simp add: resolution_inv_def)
    have "?p \<in> ?ids"
    proof -
      have "bm_get (ts_adjacency st) ?p \<noteq> None" using e by (cases "bm_get (ts_adjacency st) ?p") (simp_all add: adj_edges_def)
      then have "?p \<in> set (bm_keys (ts_adjacency st))" unfolding set_bm_keys by (simp add: domIff)
      then show ?thesis using inv by (simp add: resolution_inv_def)
    qed
    from partition_edge_placed [OF part this e] obtain c x where "c \<in> set (topo_components topo)"
      "bm_get (comp_coordinates_cm c) ?p = Some x" "edge_placed (bm_get (comp_coordinates_cm c)) x (connection_edge k)" .
    then show ?thesis unfolding connection_edge_def edge_placed_def by auto
  qed
  show ?thesis
    using part dist count ids seen placed by (auto simp: partition_of_def component_ok_def)
qed

definition sample_topology :: DomeTopologyV1 where
  "sample_topology = \<lparr>topo_spatial_context = ContextTopic ''t'',
     topo_components = [\<lparr>comp_root_instance_id = ''a'', comp_instance_ids = [''a'', ''b''], comp_connection_ids = [''x''],
       comp_coordinates_cm = [(''a'', (0, 0, 0)), (''b'', (0, 0, -5700))]\<rparr>],
     topo_active_connection_ids = [''x''], topo_topology_digest = ''digest''\<rparr>"

lemma sample_topology_resolves:
  "resolve_dome_topology conn_id (\<lambda>_ _ _. Some ''digest'') [sample_instance ''b'' ''bob'', sample_instance ''a'' ''alice'']
     [sample_connection 1 ''x'' []] = Inr sample_topology"
  by code_simp

theorem resolved_topology_consistent_witness:
  "resolve_dome_topology conn_id (\<lambda>_ _ _. Some ''digest'') [sample_instance ''b'' ''bob'', sample_instance ''a'' ''alice'']
     [sample_connection 1 ''x'' []] = Inr sample_topology \<and>
   topo_active_connection_ids sample_topology =
     sort (map conn_id (filter is_topology_active [sample_connection 1 ''x'' []])) \<and>
   length (topo_components sample_topology) + 1 = 2"
  using sample_topology_resolves resolved_topology_consistent [OF sample_topology_resolves]
  by (simp add: sample_topology_def)

section \<open>Resolution never panics\<close>

lemma direction_offset_total: "\<exists>off. direction_offset_cm d = Inr off"
  by (cases d) (simp_all add: direction_offset_cm_def fixed_dome_v1_def)

lemma no_panic_place_edge: "no_panic (place_edge current st e)"
proof -
  obtain n d cid where e: "e = (n, d, cid)" by (cases e)
  obtain off where "direction_offset_cm d = Inr off" using direction_offset_total ..
  then show ?thesis by (simp add: e place_edge_def Let_def split: option.split)
qed

lemma no_panic_coordinate_loop:
  "coordinate_inv adj root st \<Longrightarrow> no_panic (coordinate_loop adj st)"
proof (induction adj st rule: coordinate_loop.induct)
  case (1 adj st)
  show ?case
  proof (cases "cs_queue st")
    case Nil
    then show ?thesis by (simp add: coordinate_loop.simps [of adj st])
  next
    case (Cons x queue)
    have "set (cs_queue st) \<subseteq> dom (bm_get (cs_coordinates st))"
      using 1(2) by (simp add: coordinate_inv_def coords_sound_def)
    then have "x \<in> dom (bm_get (cs_coordinates st))" unfolding Cons by simp
    from domD [OF this] obtain current where c: "bm_get (cs_coordinates st) x = Some current" ..
    then have ex: "expect ''coordinates_cm'' (bm_get (cs_coordinates st) x) = Inr current" by simp
    have np: "no_panic (place_edges adj x current (st\<lparr>cs_queue := queue\<rparr>))"
      unfolding place_edges_def by (intro no_panic_rules no_panic_place_edge)
    show ?thesis
      unfolding coordinate_loop.simps [of adj st] Cons list.case ex rbind_Inr
    proof (rule no_panic_rbind [OF np])
      fix st'
      assume s: "place_edges adj x current (st\<lparr>cs_queue := queue\<rparr>) = Inr st'"
      show "no_panic (coordinate_loop adj st')"
        by (rule 1(1) [OF Cons ex s coordinate_step_inv [OF 1(2) Cons c s]])
    qed
  qed
qed

lemma no_panic_components_loop: "no_panic (components_loop adj remaining)"
proof (induction adj remaining rule: components_loop.induct)
  case (1 adj remaining)
  show ?case
  proof (cases remaining)
    case Nil
    then show ?thesis by (simp add: components_loop.simps [of adj "[]"])
  next
    case (Cons root rest)
    note loop = no_panic_coordinate_loop [OF coordinate_inv_start]
    show ?thesis
      unfolding components_loop.simps [of adj remaining] unfolding Cons list.case Let_def
      by (intro no_panic_rbind loop 1 [unfolded Let_def]) (simp_all add: Cons)
  qed
qed

lemma no_panic_derive_components: "no_panic (derive_components adj)"
  unfolding derive_components_def by (intro no_panic_rbind no_panic_components_loop) simp

lemma no_panic_validators:
  "no_panic (validate_dome_instance_manifest m)" "no_panic (validate_unique_ids ids)"
  "no_panic (validate_dome_connection_record r)" "no_panic (validate_dome_connection_agreement a x y)"
proof -
  show ids: "no_panic (validate_unique_ids ids)" for ids
    unfolding validate_unique_ids_def by simp
  show "no_panic (validate_dome_instance_manifest m)"
    by (simp add: validate_dome_instance_manifest_def Let_def split: option.split)
  show "no_panic (validate_dome_connection_record r)"
    unfolding validate_dome_connection_record_def by (intro no_panic_rules ids) simp_all
  show "no_panic (validate_dome_connection_agreement a x y)"
    unfolding validate_dome_connection_agreement_def validate_endpoint_pair_def validate_dome_relationship_scope_def
    by (intro no_panic_rules) simp_all
qed

lemma no_panic_add_connection:
  assumes "resolution_inv (dom (bm_get M)) done st"
  shows "no_panic (add_connection M st c)"
proof -
  have key: "bm_get (ts_adjacency st) k \<noteq> None" if "bm_get M k = Some i" for k i
    using assms that unfolding resolution_inv_def set_bm_keys by (metis domI domIff)
  have push: "no_panic (push_edge m k e adj)" if "bm_get adj k \<noteq> None" for m k e and adj :: topology_adjacency
    using that by (auto simp: push_edge_def)
  show ?thesis
    unfolding add_connection_def Let_def
    by (intro no_panic_rules no_panic_validators no_panic_derive_components push)
      (auto simp: result_simps simp del: not_None_eq dest: key)
qed

lemma no_panic_resolve: "no_panic (resolve_dome_topology D T instances connections)"
proof -
  have ix: "no_panic (try_fold index_instance s instances)" for s
    by (intro no_panic_rules) (auto simp: index_instance_def split: option.split intro!: no_panic_rules no_panic_validators)
  have ordered: "no_panic (ordered_topology_connections D connections)"
    by (simp add: ordered_topology_connections_def order_loop_records Let_def)
  have "no_panic (try_fold (add_connection M) \<lparr>ts_seen = [], ts_adjacency = map (\<lambda>k. (k, [])) (bm_keys M), ts_slots = {}\<rparr> xs)"
    if M: "try_fold index_instance ([], None) instances = Inr (M, ctx)" for M ctx xs
  proof (rule no_panic_try_fold_inv [where I = "\<lambda>st. \<exists>done. resolution_inv (dom (bm_get M)) done st"])
    show "\<exists>done. resolution_inv (dom (bm_get M)) done \<lparr>ts_seen = [], ts_adjacency = map (\<lambda>k. (k, [])) (bm_keys M), ts_slots = {}\<rparr>"
      using resolution_start [of M] index_instances [OF M] by (auto simp: set_bm_keys)
  next
    fix st x st'
    assume "\<exists>done. resolution_inv (dom (bm_get M)) done st" "add_connection M st x = Inr st'"
    then show "\<exists>done. resolution_inv (dom (bm_get M)) done st'"
      by (elim exE) (rule exI, rule add_connection_inv; simp flip: set_bm_keys)
  qed (auto intro: no_panic_add_connection)
  then show ?thesis
    unfolding resolve_dome_topology_def
    by (intro no_panic_rbind ix) (auto intro!: no_panic_rbind no_panic_derive_components ordered)
qed

lemma try_candidate_eq:
  "try_candidate D T instances x (acc, rej) =
     Inr (case resolve_dome_topology D T instances (acc @ [x]) of
        Inr _ \<Rightarrow> (acc @ [x], rej)
      | Inl e \<Rightarrow> (acc, rej @ [\<lparr>rejc_connection_id = conn_id x, rejc_reason = e\<rparr>]))"
  using no_panic_resolve [of D T instances "acc @ [x]"]
  by (cases "resolve_dome_topology D T instances (acc @ [x])") (auto simp: try_candidate_def no_panic_def)

text \<open>
  C35. Resolving a topology never panics, whatever the instances and records: the loop that orders the records
  always finds a candidate and removes it at an index in range, the two adjacency lists a connection is entered
  into exist, every coordinate looked up is there, and only ordinary errors come back. Neither does resolving
  with rejection, which would pass a panic on. That a record can be serialized for its digest is the totality of
  the argument \<open>D\<close>.
\<close>

theorem resolve_dome_topology_no_panic:
  "no_panic (ordered_topology_connections D connections) \<and>
   no_panic (resolve_dome_topology D T instances connections) \<and>
   no_panic (resolve_dome_topology_candidates D T instances connections)"
proof (intro conjI no_panic_resolve)
  show ordered: "no_panic (ordered_topology_connections D connections)"
    by (simp add: ordered_topology_connections_def order_loop_records Let_def)
  have "no_panic (try_fold (\<lambda>s candidate. try_candidate D T instances candidate s) s xs)" for s xs
    by (intro no_panic_rules) (auto simp: try_candidate_eq)
  then show "no_panic (resolve_dome_topology_candidates D T instances connections)"
    unfolding resolve_dome_topology_candidates_def
    by (intro no_panic_rbind ordered) (auto intro!: no_panic_rbind no_panic_resolve)
qed

section \<open>Candidates\<close>

lemma fold_try_candidate:
  assumes "resolve_dome_topology D T instances acc = Inr t"
  shows "\<exists>acc' rej'. try_fold (\<lambda>s x. try_candidate D T instances x s) (acc, rej) xs = Inr (acc @ acc', rej @ rej') \<and>
    (\<exists>t'. resolve_dome_topology D T instances (acc @ acc') = Inr t') \<and> subseq acc' xs \<and>
    mset (map conn_id acc') + mset (map rejc_connection_id rej') = mset (map conn_id xs)"
  using assms
proof (induction xs arbitrary: acc rej t)
  case Nil
  then show ?case by (intro exI [of _ "[]"]) auto
next
  case (Cons x xs)
  show ?case
  proof (cases "resolve_dome_topology D T instances (acc @ [x])")
    case (Inl e)
    from Cons.IH [OF Cons.prems, of "rej @ [\<lparr>rejc_connection_id = conn_id x, rejc_reason = e\<rparr>]"]
    obtain acc' rej' where "try_fold (\<lambda>s x. try_candidate D T instances x s) (acc, rej @ [\<lparr>rejc_connection_id = conn_id x, rejc_reason = e\<rparr>]) xs =
        Inr (acc @ acc', rej @ \<lparr>rejc_connection_id = conn_id x, rejc_reason = e\<rparr> # rej')"
      and "\<exists>t'. resolve_dome_topology D T instances (acc @ acc') = Inr t'" "subseq acc' xs"
      "mset (map conn_id acc') + mset (map rejc_connection_id rej') = mset (map conn_id xs)"
      by auto
    then show ?thesis
      by (intro exI [of _ acc'] exI [of _ "\<lparr>rejc_connection_id = conn_id x, rejc_reason = e\<rparr> # rej'"])
        (simp add: try_candidate_eq Inl list_emb.intros(2))
  next
    case (Inr t2)
    from Cons.IH [OF Inr, of rej]
    obtain acc' rej' where "try_fold (\<lambda>s x. try_candidate D T instances x s) (acc @ [x], rej) xs = Inr (acc @ x # acc', rej @ rej')"
      and "\<exists>t'. resolve_dome_topology D T instances (acc @ x # acc') = Inr t'" "subseq acc' xs"
      "mset (map conn_id acc') + mset (map rejc_connection_id rej') = mset (map conn_id xs)"
      by auto
    then show ?thesis
      by (intro exI [of _ "x # acc'"] exI [of _ rej']) (simp add: try_candidate_eq Inr)
  qed
qed

text \<open>
  C36. A bad connection cannot take the map down: once the instances resolve on their own,
  resolving them with any connection records succeeds. Each active record is either part of the
  accepted ones, in their topology order, or reported as rejected, and the topology returned is the
  one of the accepted records.
\<close>

theorem candidate_resolution_total:
  assumes "resolve_dome_topology D T instances [] = Inr t0"
  shows "\<exists>res accepted ordered. resolve_dome_topology_candidates D T instances connections = Inr res \<and>
    resolve_dome_topology D T instances accepted = Inr (tres_topology res) \<and>
    ordered_topology_connections D connections = Inr ordered \<and> subseq accepted ordered \<and>
    mset (map conn_id accepted) + mset (map rejc_connection_id (tres_rejected_connections res)) =
      mset (map conn_id (filter is_topology_active connections))"
proof -
  obtain cs where cs: "ordered_topology_connections D connections = Inr cs" using ordered_topology_connections_ok by blast
  have m: "mset (map conn_id cs) = mset (map conn_id (filter is_topology_active connections))"
    using ordered_topology_connections_mset [OF cs] by (metis mset_map)
  from fold_try_candidate [OF assms, of "[]" cs]
  obtain acc rej t where "try_fold (\<lambda>s x. try_candidate D T instances x s) ([], []) cs = Inr (acc, rej)"
    and "resolve_dome_topology D T instances acc = Inr t" "subseq acc cs"
    "mset (map conn_id acc) + mset (map rejc_connection_id rej) = mset (map conn_id cs)"
    by auto
  with cs m show ?thesis
    by (intro exI [of _ "\<lparr>tres_topology = t, tres_rejected_connections = rej\<rparr>"] exI [of _ acc] exI [of _ cs])
      (simp add: resolve_dome_topology_candidates_def)
qed

theorem candidate_resolution_total_witness:
  "\<exists>res accepted. resolve_dome_topology_candidates conn_id (\<lambda>_ _ _. Some ''digest'') [sample_instance ''a'' ''alice'']
     [sample_connection 1 ''x'' []] = Inr res \<and>
   mset (map conn_id accepted) + mset (map rejc_connection_id (tres_rejected_connections res)) =
     mset (map conn_id (filter is_topology_active [sample_connection 1 ''x'' []]))"
proof -
  have "resolve_dome_topology conn_id (\<lambda>_ _ _. Some ''digest'') [sample_instance ''a'' ''alice''] [] =
      Inr \<lparr>topo_spatial_context = ContextTopic ''t'',
        topo_components = [\<lparr>comp_root_instance_id = ''a'', comp_instance_ids = [''a''], comp_connection_ids = [],
          comp_coordinates_cm = [(''a'', (0, 0, 0))]\<rparr>],
        topo_active_connection_ids = [], topo_topology_digest = ''digest''\<rparr>"
    by code_simp
  from candidate_resolution_total [OF this, of "[sample_connection 1 ''x'' []]"] show ?thesis by auto
qed

end
