(* ===== verification/Dome_Hosting.thy ===== *)
theory Dome_Hosting
  imports Dome_Model
begin

text \<open>
  Hosting of a Dome (\<^verbatim>\<open>crates/core/src/dome_hosting.rs\<close>, \<^verbatim>\<open>dome_recovery.rs\<close>,
  \<^verbatim>\<open>dome_layout.rs\<close>): the owner leases a Dome to a host, the host accepts, the owner
  activates or closes the lease, and any device resolves the hosting state from the records it has
  received. Session inputs, snapshots, heartbeats and layout candidates are signed contents of the
  same shape; their common contract is the locale \<open>authenticated_record\<close>. The codecs of the signed
  contents and the \<open>blake3\<close> digest are the fields of the argument \<open>L\<close>.
\<close>

section \<open>Leases and their records\<close>

definition DOME_HOSTING_MAX_LEASE_MILLIS :: i64 where
  "DOME_HOSTING_MAX_LEASE_MILLIS = 30 * 24 * 60 * 60 * 1000"
definition DOME_HOST_HEARTBEAT_INTERVAL_MILLIS :: i64 where "DOME_HOST_HEARTBEAT_INTERVAL_MILLIS = 5000"
definition DOME_HOSTING_HEARTBEAT_GRACE_MILLIS :: i64 where "DOME_HOSTING_HEARTBEAT_GRACE_MILLIS = 15000"
definition DOME_PARTICIPANT_TIMEOUT_MILLIS :: i64 where "DOME_PARTICIPANT_TIMEOUT_MILLIS = 30000"
definition DOME_SNAPSHOT_RING_CAPACITY :: nat where "DOME_SNAPSHOT_RING_CAPACITY = 100"

definition LEASE_KIND :: string where "LEASE_KIND = ''dome-hosting-lease''"
definition ACCEPTANCE_KIND :: string where "ACCEPTANCE_KIND = ''dome-hosting-acceptance''"
definition ACTIVATION_KIND :: string where "ACTIVATION_KIND = ''dome-hosting-activation''"
definition CLOSE_KIND :: string where "CLOSE_KIND = ''dome-hosting-close''"
definition INPUT_KIND :: string where "INPUT_KIND = ''dome-session-input''"
definition SNAPSHOT_KIND :: string where "SNAPSHOT_KIND = ''dome-physics-snapshot''"
definition HEARTBEAT_KIND :: string where "HEARTBEAT_KIND = ''dome-host-heartbeat''"
definition LAYOUT_CANDIDATE_KIND :: string where "LAYOUT_CANDIDATE_KIND = ''dome-layout-candidate''"
definition LAYOUT_COMMIT_KIND :: string where "LAYOUT_COMMIT_KIND = ''dome-layout-commit''"

datatype DomeHostTargetV1 =
    OwnerDevice (host_endpoint_id: string) (host_owner_pubkey: Pubkey)
  | CommunityNode (host_node_id: Pubkey) (host_api_base_url: string)

fun signing_pubkey :: "DomeHostTargetV1 \<Rightarrow> Pubkey" where
  "signing_pubkey (OwnerDevice _ host_pubkey) = host_pubkey"
| "signing_pubkey (CommunityNode node_id _) = node_id"

fun validate_host_target :: "DomeHostTargetV1 \<Rightarrow> unit result" where
  "validate_host_target (OwnerDevice endpoint_id host_pubkey) =
     (if trim endpoint_id = [] \<or> trim host_pubkey = []
      then bail ''owner device hosting target is incomplete'' else Inr ())"
| "validate_host_target (CommunityNode node_id api_base_url) =
     (if trim node_id = [] \<or>
        \<not> (starts_with ''https://'' api_base_url \<or> starts_with ''http://localhost'' api_base_url
           \<or> starts_with ''http://127.0.0.1'' api_base_url)
      then bail ''Community Node hosting target is invalid'' else Inr ())"

record DomeHostingLeaseV1 =
  lease_lease_id :: string
  lease_spatial_context :: SpatialContextV1
  lease_instance_id :: string
  lease_instance_generation :: u64
  lease_owner_pubkey :: Pubkey
  lease_host :: DomeHostTargetV1
  lease_manifest_blob_hash :: string
  lease_manifest_version :: u64
  lease_epoch :: u64
  lease_issued_at :: i64
  lease_expires_at :: i64

record SignedDomeHostingLeaseV1 =
  sl_lease :: DomeHostingLeaseV1
  sl_envelope :: KukuriEnvelope

record DomeHostingAcceptanceV1 =
  acc_lease_id :: string
  acc_lease_digest :: string
  acc_instance_id :: string
  acc_instance_generation :: u64
  acc_lease_epoch :: u64
  acc_session_id :: string
  acc_accepted_at :: i64

record SignedDomeHostingAcceptanceV1 =
  sa_acceptance :: DomeHostingAcceptanceV1
  sa_envelope :: KukuriEnvelope

record DomeHostingActivationV1 =
  act_lease_id :: string
  act_lease_digest :: string
  act_lease_epoch :: u64
  act_host_acceptance_envelope_id :: string
  act_activated_at :: i64

record SignedDomeHostingActivationV1 =
  sv_activation :: DomeHostingActivationV1
  sv_envelope :: KukuriEnvelope

record DomeHostingCloseV1 =
  close_lease_id :: string
  close_lease_digest :: string
  close_lease_epoch :: u64
  close_closed_at :: i64

record SignedDomeHostingCloseV1 =
  sc_close :: DomeHostingCloseV1
  sc_envelope :: KukuriEnvelope

datatype DomeHostingRecordV1 =
    LeaseIssued SignedDomeHostingLeaseV1
  | HostAccepted SignedDomeHostingAcceptanceV1
  | LeaseActivated SignedDomeHostingActivationV1
  | LeaseClosed SignedDomeHostingCloseV1

datatype DomeHostingStateKindV1 =
  HostingClosed | OwnerHosted | CommunityNodeHosted | GracePeriod | Transferring

record DomeHostingStateV1 =
  hst_kind :: DomeHostingStateKindV1
  hst_host :: "DomeHostTargetV1 option"
  hst_lease_id :: "string option"
  hst_lease_epoch :: "u64 option"
  hst_lease_expires_at :: "i64 option"
  hst_session_id :: "string option"
  hst_reason :: "string option"
  hst_last_heartbeat_at :: "i64 option"

definition hosting_closed :: "string \<Rightarrow> DomeHostingStateV1" where
  "hosting_closed reason = \<lparr>hst_kind = HostingClosed, hst_host = None, hst_lease_id = None, hst_lease_epoch = None,
     hst_lease_expires_at = None, hst_session_id = None, hst_reason = Some reason, hst_last_heartbeat_at = None\<rparr>"

section \<open>Session contents\<close>

datatype DomeSessionInputKindV1 =
    InputJoin "MetaverseColliderV1 option"
  | InputLeave
  | InputKeepAlive
  | InputMove vec3 vec3 string
  | InputGrab string
  | InputThrow string vec3
  | InputPush string vec3
  | InputSit string
  | InputPrepareTransition string DomeDirection
  | InputAbortTransition string
  | InputCompleteTransition string
  | InputSpawnGuestProp MetaversePersistentPropV1 i64
  | InputUpsertPersistentProp MetaversePersistentPropV1
  | InputDeletePersistentProp string

record DomeSessionInputV1 =
  in_input_id :: string
  in_instance_id :: string
  in_instance_generation :: u64
  in_lease_epoch :: u64
  in_session_id :: string
  in_participant_pubkey :: Pubkey
  in_sequence :: u64
  in_sent_at :: i64
  in_input :: DomeSessionInputKindV1

record SignedDomeSessionInputV1 =
  si_input :: DomeSessionInputV1
  si_envelope :: KukuriEnvelope

datatype DomePhysicsBodyKindV1 = AvatarBody | PersistentPropBody | GuestPropBody

record DomePhysicsBodyV1 =
  pb_entity_id :: string
  pb_kind :: DomePhysicsBodyKindV1
  pb_position :: vec3
  pb_rotation :: vec3
  pb_linear_velocity :: vec3
  pb_animation :: "string option"
  pb_grabbed_by :: "string option"
  pb_expires_at :: "i64 option"

record DomePhysicsSnapshotV1 =
  snap_instance_id :: string
  snap_instance_generation :: u64
  snap_lease_epoch :: u64
  snap_session_id :: string
  snap_host_pubkey :: Pubkey
  snap_sequence :: u64
  snap_simulated_at :: i64
  snap_sleeping :: bool
  snap_bodies :: "DomePhysicsBodyV1 list"

record SignedDomePhysicsSnapshotV1 =
  ss_snapshot :: DomePhysicsSnapshotV1
  ss_envelope :: KukuriEnvelope

record DomeHostHeartbeatV1 =
  hb_instance_id :: string
  hb_instance_generation :: u64
  hb_lease_epoch :: u64
  hb_session_id :: string
  hb_host_pubkey :: Pubkey
  hb_participants :: u32
  hb_sleeping :: bool
  hb_sequence :: u64
  hb_sent_at :: i64

record SignedDomeHostHeartbeatV1 =
  sh_heartbeat :: DomeHostHeartbeatV1
  sh_envelope :: KukuriEnvelope

record DomeLayoutCandidateV1 =
  lc_operation_id :: string
  lc_instance_id :: string
  lc_instance_generation :: u64
  lc_lease_epoch :: u64
  lc_session_id :: string
  lc_host_pubkey :: Pubkey
  lc_base_manifest_revision :: u64
  lc_snapshot_sequence :: u64
  lc_captured_at :: i64
  lc_persistent_props :: "MetaversePersistentPropV1 list"

record SignedDomeLayoutCandidateV1 =
  slc_candidate :: DomeLayoutCandidateV1
  slc_envelope :: KukuriEnvelope

record DomeLayoutCommitV1 =
  lm_operation_id :: string
  lm_instance_id :: string
  lm_instance_generation :: u64
  lm_owner_pubkey :: Pubkey
  lm_base_manifest_revision :: u64
  lm_next_manifest_revision :: u64
  lm_candidate_digest :: string
  lm_manifest_blob_hash :: string
  lm_committed_at :: i64

record SignedDomeLayoutCommitV1 =
  slm_commit :: DomeLayoutCommitV1
  slm_envelope :: KukuriEnvelope

text \<open>The third-party functions hosting calls: \<open>secp256k1\<close>, \<open>blake3\<close>, and \<open>serde_json\<close> per content.\<close>

record hosting_lib =
  hl_crypto :: crypto_lib
  hl_blake3_hex :: "string \<Rightarrow> string"
  hl_lease :: "DomeHostingLeaseV1 codec"
  hl_acceptance :: "DomeHostingAcceptanceV1 codec"
  hl_activation :: "DomeHostingActivationV1 codec"
  hl_close :: "DomeHostingCloseV1 codec"
  hl_input :: "DomeSessionInputV1 codec"
  hl_snapshot :: "DomePhysicsSnapshotV1 codec"
  hl_heartbeat :: "DomeHostHeartbeatV1 codec"
  hl_candidate :: "DomeLayoutCandidateV1 codec"
  hl_commit :: "DomeLayoutCommitV1 codec"

definition verify_envelope_content ::
    "crypto_lib \<Rightarrow> 'a codec \<Rightarrow> KukuriEnvelope \<Rightarrow> string \<Rightarrow> Pubkey \<Rightarrow> 'a \<Rightarrow> unit result" where
  "verify_envelope_content C J envelope expected_kind expected_signer expected_content =
     rbind (verify C envelope) (\<lambda>_.
     if env_kind envelope \<noteq> expected_kind \<or> env_pubkey envelope \<noteq> expected_signer
     then bail ''Dome Hosting envelope authority mismatch'' else
     rbind (with_context ''invalid Dome Hosting envelope content''
       (foreign ''serde_json'' (from_json J (env_content envelope)))) (\<lambda>decoded.
     if decoded \<noteq> expected_content then bail ''Dome Hosting envelope content mismatch'' else Inr ()))"

definition hosting_tags :: "string \<Rightarrow> u64 \<Rightarrow> string \<Rightarrow> string list list" where
  "hosting_tags instance_id epoch lease_id =
     [[''object'', ''dome-hosting''], [''instance_id'', instance_id], [''epoch'', show_nat epoch],
      [''lease_id'', lease_id]]"

definition session_tags :: "string \<Rightarrow> u64 \<Rightarrow> string \<Rightarrow> string list list" where
  "session_tags instance_id epoch session_id =
     [[''object'', ''dome-session''], [''instance_id'', instance_id], [''epoch'', show_nat epoch],
      [''session_id'', session_id]]"

section \<open>Issuing, accepting, activating and closing a lease\<close>

definition validate_dome_hosting_lease :: "DomeHostingLeaseV1 \<Rightarrow> DomeInstanceManifestV1 \<Rightarrow> unit result" where
  "validate_dome_hosting_lease lease inst =
     rbind (validate_dome_instance_manifest inst) (\<lambda>_.
     if inst_status inst \<noteq> Active \<or> inst_relationship_detach inst \<noteq> None
     then bail ''Dome Hosting Lease requires an active attached instance''
     else if trim (lease_lease_id lease) = [] \<or> trim (lease_instance_id lease) = []
       \<or> trim (lease_manifest_blob_hash lease) = [] \<or> lease_instance_generation lease = 0
       \<or> lease_manifest_version lease = 0 \<or> lease_epoch lease = 0
     then bail ''Dome Hosting Lease identity is incomplete''
     else if lease_owner_pubkey lease \<noteq> inst_owner_pubkey inst
       \<or> lease_spatial_context lease \<noteq> inst_spatial_context inst
       \<or> lease_instance_id lease \<noteq> inst_instance_id inst
       \<or> lease_instance_generation lease \<noteq> inst_generation inst
       \<or> lease_manifest_blob_hash lease \<noteq> pref_manifest_blob_hash (inst_preset_ref inst)
       \<or> lease_manifest_version lease \<noteq> pref_revision (inst_preset_ref inst)
     then bail ''Dome Hosting Lease does not match the current instance''
     else if lease_expires_at lease \<le> lease_issued_at lease
       \<or> wrap_i64 (lease_expires_at lease - lease_issued_at lease) > DOME_HOSTING_MAX_LEASE_MILLIS
     then bail ''Dome Hosting Lease expiry is outside the supported range''
     else validate_host_target (lease_host lease))"

definition dome_hosting_lease_digest :: "hosting_lib \<Rightarrow> DomeHostingLeaseV1 \<Rightarrow> string result" where
  "dome_hosting_lease_digest L lease =
     rbind (with_context ''failed to encode Dome Hosting Lease'' (foreign ''serde_json'' (to_json (hl_lease L) lease)))
       (\<lambda>bytes. Inr (hl_blake3_hex L bytes))"

definition build_signed_dome_hosting_lease ::
    "hosting_lib \<Rightarrow> u64 option \<Rightarrow> KukuriKeys \<Rightarrow> DomeHostingLeaseV1 \<Rightarrow> SignedDomeHostingLeaseV1 result" where
  "build_signed_dome_hosting_lease L clock owner_keys lease =
     (if lease_owner_pubkey lease \<noteq> public_key (hl_crypto L) owner_keys
      then bail ''Dome Hosting Lease owner must match signer'' else
      rbind (validate_host_target (lease_host lease)) (\<lambda>_.
      if trim (lease_lease_id lease) = [] \<or> lease_epoch lease = 0 \<or> lease_manifest_version lease = 0
        \<or> lease_expires_at lease \<le> lease_issued_at lease
        \<or> wrap_i64 (lease_expires_at lease - lease_issued_at lease) > DOME_HOSTING_MAX_LEASE_MILLIS
      then bail ''Dome Hosting Lease is invalid'' else
      rbind (sign_envelope_json (hl_crypto L) clock (hl_lease L) owner_keys LEASE_KIND
        (hosting_tags (lease_instance_id lease) (lease_epoch lease) (lease_lease_id lease)) lease) (\<lambda>envelope.
      Inr \<lparr>sl_lease = lease, sl_envelope = envelope\<rparr>)))"

definition verify_signed_dome_hosting_lease ::
    "hosting_lib \<Rightarrow> SignedDomeHostingLeaseV1 \<Rightarrow> DomeInstanceManifestV1 \<Rightarrow> unit result" where
  "verify_signed_dome_hosting_lease L signed inst =
     rbind (validate_dome_hosting_lease (sl_lease signed) inst) (\<lambda>_.
     verify_envelope_content (hl_crypto L) (hl_lease L) (sl_envelope signed) LEASE_KIND
       (lease_owner_pubkey (sl_lease signed)) (sl_lease signed))"

definition accept_dome_hosting_lease ::
    "hosting_lib \<Rightarrow> u64 option \<Rightarrow> KukuriKeys \<Rightarrow> SignedDomeHostingLeaseV1 \<Rightarrow> string \<Rightarrow> i64 \<Rightarrow>
     SignedDomeHostingAcceptanceV1 result" where
  "accept_dome_hosting_lease L clock host_keys signed session_id accepted_at =
     (let lease = sl_lease signed in
      if signing_pubkey (lease_host lease) \<noteq> public_key (hl_crypto L) host_keys
      then bail ''Dome host acceptance signer does not match lease target'' else
      rbind (verify (hl_crypto L) (sl_envelope signed)) (\<lambda>_.
      rbind (dome_hosting_lease_digest L lease) (\<lambda>digest.
      let acceptance = \<lparr>acc_lease_id = lease_lease_id lease, acc_lease_digest = digest,
        acc_instance_id = lease_instance_id lease, acc_instance_generation = lease_instance_generation lease,
        acc_lease_epoch = lease_epoch lease, acc_session_id = session_id, acc_accepted_at = accepted_at\<rparr> in
      if trim session_id = [] \<or> accepted_at < lease_issued_at lease \<or> lease_expires_at lease \<le> accepted_at
      then bail ''Dome host acceptance is outside the lease lifetime'' else
      rbind (sign_envelope_json (hl_crypto L) clock (hl_acceptance L) host_keys ACCEPTANCE_KIND
        (hosting_tags (lease_instance_id lease) (lease_epoch lease) (lease_lease_id lease)) acceptance) (\<lambda>envelope.
      Inr \<lparr>sa_acceptance = acceptance, sa_envelope = envelope\<rparr>))))"

definition verify_acceptance ::
    "hosting_lib \<Rightarrow> SignedDomeHostingLeaseV1 \<Rightarrow> SignedDomeHostingAcceptanceV1 \<Rightarrow> unit result" where
  "verify_acceptance L signed acceptance =
     (let content = sa_acceptance acceptance; lease = sl_lease signed in
      if acc_lease_id content \<noteq> lease_lease_id lease
      then bail ''Dome host acceptance does not match lease'' else
      rbind (dome_hosting_lease_digest L lease) (\<lambda>digest.
      if acc_lease_digest content \<noteq> digest
        \<or> acc_instance_id content \<noteq> lease_instance_id lease
        \<or> acc_instance_generation content \<noteq> lease_instance_generation lease
        \<or> acc_lease_epoch content \<noteq> lease_epoch lease
        \<or> trim (acc_session_id content) = []
        \<or> acc_accepted_at content < lease_issued_at lease
        \<or> lease_expires_at lease \<le> acc_accepted_at content
      then bail ''Dome host acceptance does not match lease'' else
      verify_envelope_content (hl_crypto L) (hl_acceptance L) (sa_envelope acceptance) ACCEPTANCE_KIND
        (signing_pubkey (lease_host lease)) content))"

definition activate_dome_hosting_lease ::
    "hosting_lib \<Rightarrow> u64 option \<Rightarrow> KukuriKeys \<Rightarrow> SignedDomeHostingLeaseV1 \<Rightarrow> SignedDomeHostingAcceptanceV1 \<Rightarrow> i64 \<Rightarrow>
     SignedDomeHostingActivationV1 result" where
  "activate_dome_hosting_lease L clock owner_keys signed acceptance activated_at =
     (let lease = sl_lease signed in
      if lease_owner_pubkey lease \<noteq> public_key (hl_crypto L) owner_keys
      then bail ''Dome Hosting activation owner must match signer'' else
      rbind (verify_acceptance L signed acceptance) (\<lambda>_.
      if activated_at < acc_accepted_at (sa_acceptance acceptance) \<or> lease_expires_at lease \<le> activated_at
      then bail ''Dome Hosting activation is outside the lease lifetime'' else
      rbind (dome_hosting_lease_digest L lease) (\<lambda>digest.
      let activation = \<lparr>act_lease_id = lease_lease_id lease, act_lease_digest = digest,
        act_lease_epoch = lease_epoch lease, act_host_acceptance_envelope_id = env_id (sa_envelope acceptance),
        act_activated_at = activated_at\<rparr> in
      rbind (sign_envelope_json (hl_crypto L) clock (hl_activation L) owner_keys ACTIVATION_KIND
        (hosting_tags (lease_instance_id lease) (lease_epoch lease) (lease_lease_id lease)) activation) (\<lambda>envelope.
      Inr \<lparr>sv_activation = activation, sv_envelope = envelope\<rparr>))))"

definition close_dome_hosting_lease ::
    "hosting_lib \<Rightarrow> u64 option \<Rightarrow> KukuriKeys \<Rightarrow> SignedDomeHostingLeaseV1 \<Rightarrow> i64 \<Rightarrow> SignedDomeHostingCloseV1 result" where
  "close_dome_hosting_lease L clock owner_keys signed closed_at =
     (let lease = sl_lease signed in
      if lease_owner_pubkey lease \<noteq> public_key (hl_crypto L) owner_keys \<or> closed_at < lease_issued_at lease
      then bail ''Dome Hosting close is invalid'' else
      rbind (dome_hosting_lease_digest L lease) (\<lambda>digest.
      let close = \<lparr>close_lease_id = lease_lease_id lease, close_lease_digest = digest,
        close_lease_epoch = lease_epoch lease, close_closed_at = closed_at\<rparr> in
      rbind (sign_envelope_json (hl_crypto L) clock (hl_close L) owner_keys CLOSE_KIND
        (hosting_tags (lease_instance_id lease) (lease_epoch lease) (lease_lease_id lease)) close) (\<lambda>envelope.
      Inr \<lparr>sc_close = close, sc_envelope = envelope\<rparr>)))"

definition verify_activation ::
    "hosting_lib \<Rightarrow> SignedDomeHostingLeaseV1 \<Rightarrow> SignedDomeHostingActivationV1 \<Rightarrow> unit result" where
  "verify_activation L signed activation =
     (let content = sv_activation activation; lease = sl_lease signed in
      if act_lease_id content \<noteq> lease_lease_id lease
      then bail ''Dome Hosting activation does not match lease'' else
      rbind (dome_hosting_lease_digest L lease) (\<lambda>digest.
      if act_lease_digest content \<noteq> digest
        \<or> act_lease_epoch content \<noteq> lease_epoch lease
        \<or> trim (act_host_acceptance_envelope_id content) = []
        \<or> act_activated_at content < lease_issued_at lease
        \<or> lease_expires_at lease \<le> act_activated_at content
      then bail ''Dome Hosting activation does not match lease'' else
      verify_envelope_content (hl_crypto L) (hl_activation L) (sv_envelope activation) ACTIVATION_KIND
        (lease_owner_pubkey lease) content))"

definition verify_close :: "hosting_lib \<Rightarrow> SignedDomeHostingLeaseV1 \<Rightarrow> SignedDomeHostingCloseV1 \<Rightarrow> unit result" where
  "verify_close L signed close =
     (let content = sc_close close; lease = sl_lease signed in
      if close_lease_id content \<noteq> lease_lease_id lease
      then bail ''Dome Hosting close does not match lease'' else
      rbind (dome_hosting_lease_digest L lease) (\<lambda>digest.
      if close_lease_digest content \<noteq> digest
        \<or> close_lease_epoch content \<noteq> lease_epoch lease
        \<or> close_closed_at content < lease_issued_at lease
      then bail ''Dome Hosting close does not match lease'' else
      verify_envelope_content (hl_crypto L) (hl_close L) (sc_envelope close) CLOSE_KIND
        (lease_owner_pubkey lease) content))"

section \<open>The hosting state\<close>

datatype DomeHostLivenessV1 = Online | OfflineGrace | LivenessClosed

definition resolve_dome_host_liveness :: "i64 option \<Rightarrow> i64 \<Rightarrow> DomeHostLivenessV1" where
  "resolve_dome_host_liveness last_heartbeat_at now_millis = (case last_heartbeat_at of
     None \<Rightarrow> OfflineGrace
   | Some heartbeat_at \<Rightarrow>
       let age = sat_i64 (now_millis - heartbeat_at) in
       if age > DOME_HOSTING_HEARTBEAT_GRACE_MILLIS then LivenessClosed
       else if age > DOME_HOST_HEARTBEAT_INTERVAL_MILLIS then OfflineGrace
       else Online)"

type_synonym lease_index = "(u64, (string, SignedDomeHostingLeaseV1) btree_map) btree_map"

definition index_lease ::
    "hosting_lib \<Rightarrow> DomeInstanceManifestV1 \<Rightarrow> lease_index \<Rightarrow> DomeHostingRecordV1 \<Rightarrow> lease_index result" where
  "index_lease L inst leases_by_epoch rec = (case rec of
     LeaseIssued signed \<Rightarrow>
       let lease = sl_lease signed;
           authentic = verify_envelope_content (hl_crypto L) (hl_lease L) (sl_envelope signed) LEASE_KIND
             (lease_owner_pubkey lease) lease in
       if lease_instance_generation lease < inst_generation inst then
         if lease_instance_id lease \<noteq> inst_instance_id inst \<or> lease_owner_pubkey lease \<noteq> inst_owner_pubkey inst
           \<or> lease_spatial_context lease \<noteq> inst_spatial_context inst
         then bail ''historical Dome lease identity mismatch''
         else rbind authentic (\<lambda>_. Inr leases_by_epoch)
       else if lease_manifest_version lease < pref_revision (inst_preset_ref inst) then
         if lease_instance_id lease \<noteq> inst_instance_id inst
           \<or> lease_instance_generation lease \<noteq> inst_generation inst
           \<or> lease_owner_pubkey lease \<noteq> inst_owner_pubkey inst
           \<or> lease_spatial_context lease \<noteq> inst_spatial_context inst
         then bail ''stale Dome Hosting Lease identity does not match the instance''
         else rbind authentic (\<lambda>_. Inr leases_by_epoch)
       else
         rbind (verify_signed_dome_hosting_lease L signed inst) (\<lambda>_.
         rbind (dome_hosting_lease_digest L lease) (\<lambda>digest.
         Inr (bm_insert (lease_epoch lease)
           (bm_insert digest signed
             (case bm_get leases_by_epoch (lease_epoch lease) of Some m \<Rightarrow> m | None \<Rightarrow> []))
           leases_by_epoch)))
   | _ \<Rightarrow> Inr leases_by_epoch)"

record hosting_scan =
  hs_acceptances :: "(string, SignedDomeHostingAcceptanceV1) btree_map"
  hs_activation_ids :: "string list"
  hs_closed :: bool

definition scan_record ::
    "hosting_lib \<Rightarrow> u64 \<Rightarrow> SignedDomeHostingLeaseV1 \<Rightarrow> string \<Rightarrow> hosting_scan \<Rightarrow> DomeHostingRecordV1 \<Rightarrow> hosting_scan result" where
  "scan_record L epoch signed digest scan rec = (case rec of
     HostAccepted acceptance \<Rightarrow>
       if acc_lease_epoch (sa_acceptance acceptance) = epoch \<and> acc_lease_digest (sa_acceptance acceptance) = digest
       then rbind (verify_acceptance L signed acceptance) (\<lambda>_.
         Inr (scan\<lparr>hs_acceptances := bm_insert (env_id (sa_envelope acceptance)) acceptance (hs_acceptances scan)\<rparr>))
       else Inr scan
   | LeaseActivated activation \<Rightarrow>
       if act_lease_epoch (sv_activation activation) = epoch \<and> act_lease_digest (sv_activation activation) = digest
       then rbind (verify_activation L signed activation) (\<lambda>_.
         Inr (scan\<lparr>hs_activation_ids :=
           bs_insert (act_host_acceptance_envelope_id (sv_activation activation)) (hs_activation_ids scan)\<rparr>))
       else Inr scan
   | LeaseClosed close \<Rightarrow>
       if close_lease_epoch (sc_close close) = epoch \<and> close_lease_digest (sc_close close) = digest
       then rbind (verify_close L signed close) (\<lambda>_. Inr (scan\<lparr>hs_closed := True\<rparr>))
       else Inr scan
   | _ \<Rightarrow> Inr scan)"

fun find_accepted :: "(string, SignedDomeHostingAcceptanceV1) btree_map \<Rightarrow> string list \<Rightarrow>
    SignedDomeHostingAcceptanceV1 option" where
  "find_accepted acceptances [] = None"
| "find_accepted acceptances (i # ids) =
     (case bm_get acceptances i of Some a \<Rightarrow> Some a | None \<Rightarrow> find_accepted acceptances ids)"

definition lease_state ::
    "DomeHostingLeaseV1 \<Rightarrow> DomeHostingStateKindV1 \<Rightarrow> string option \<Rightarrow> string option \<Rightarrow> i64 option \<Rightarrow> DomeHostingStateV1" where
  "lease_state lease kind session_id reason last_heartbeat_at =
     \<lparr>hst_kind = kind, hst_host = Some (lease_host lease), hst_lease_id = Some (lease_lease_id lease),
      hst_lease_epoch = Some (lease_epoch lease), hst_lease_expires_at = Some (lease_expires_at lease),
      hst_session_id = session_id, hst_reason = reason, hst_last_heartbeat_at = last_heartbeat_at\<rparr>"

definition active_lease_state ::
    "DomeHostingLeaseV1 \<Rightarrow> string \<Rightarrow> i64 option \<Rightarrow> i64 \<Rightarrow> DomeHostingStateV1" where
  "active_lease_state lease session_id last_heartbeat_at now_millis =
     (case resolve_dome_host_liveness last_heartbeat_at now_millis of
        LivenessClosed \<Rightarrow>
          lease_state lease HostingClosed (Some session_id) (Some ''heartbeat_timeout'') last_heartbeat_at
      | OfflineGrace \<Rightarrow>
          lease_state lease GracePeriod (Some session_id) (Some ''heartbeat_missing'') last_heartbeat_at
      | Online \<Rightarrow>
          lease_state lease
            (case lease_host lease of OwnerDevice _ _ \<Rightarrow> OwnerHosted | CommunityNode _ _ \<Rightarrow> CommunityNodeHosted)
            (Some session_id) None last_heartbeat_at)"

definition resolve_dome_hosting_state ::
    "hosting_lib \<Rightarrow> DomeInstanceManifestV1 \<Rightarrow> DomeHostingRecordV1 list \<Rightarrow> i64 \<Rightarrow> i64 option \<Rightarrow> DomeHostingStateV1 result" where
  "resolve_dome_hosting_state L inst records now_millis last_heartbeat_at =
     rbind (validate_dome_instance_manifest inst) (\<lambda>_.
     if inst_status inst \<noteq> Active \<or> inst_relationship_detach inst \<noteq> None
     then Inr (hosting_closed ''instance_inactive'') else
     rbind (try_fold (index_lease L inst) [] records) (\<lambda>leases_by_epoch.
     if leases_by_epoch = [] then Inr (hosting_closed ''no_lease'') else
     let (epoch, leases) = last leases_by_epoch in
     if length leases \<noteq> 1
     then Inr \<lparr>hst_kind = GracePeriod, hst_host = None, hst_lease_id = None, hst_lease_epoch = Some epoch,
       hst_lease_expires_at = None, hst_session_id = None, hst_reason = Some ''split_brain'',
       hst_last_heartbeat_at = last_heartbeat_at\<rparr> else
     rbind (expect ''one lease was checked above'' (nth_opt (bm_values leases) 0)) (\<lambda>signed.
     let lease = sl_lease signed in
     rbind (dome_hosting_lease_digest L lease) (\<lambda>digest.
     if lease_expires_at lease \<le> now_millis then Inr (hosting_closed ''lease_expired'') else
     rbind (try_fold (scan_record L epoch signed digest)
       \<lparr>hs_acceptances = [], hs_activation_ids = [], hs_closed = False\<rparr> records) (\<lambda>scan.
     if hs_closed scan then Inr (hosting_closed ''owner_closed'') else
     case find_accepted (hs_acceptances scan) (hs_activation_ids scan) of
       None \<Rightarrow> Inr (lease_state lease Transferring None (Some ''awaiting_activation'') last_heartbeat_at)
     | Some acceptance \<Rightarrow>
         Inr (active_lease_state lease (acc_session_id (sa_acceptance acceptance)) last_heartbeat_at now_millis))))))"

section \<open>Session inputs, snapshots and heartbeats\<close>

definition validate_session_prop :: "MetaversePersistentPropV1 \<Rightarrow> unit result" where
  "validate_session_prop prop =
     validate_dome_customization (default_customization\<lparr>cust_persistent_props := [prop]\<rparr>)"

definition validate_dome_session_input :: "DomeSessionInputV1 \<Rightarrow> unit result" where
  "validate_dome_session_input input =
     (if trim (in_input_id input) = [] \<or> trim (in_instance_id input) = [] \<or> trim (in_session_id input) = []
        \<or> in_instance_generation input = 0 \<or> in_lease_epoch input = 0 \<or> in_sequence input = 0
      then bail ''Dome session input identity is incomplete'' else
      case in_input input of
        InputJoin (Some collider) \<Rightarrow> validate_metaverse_collider collider
      | InputMove _ _ animation \<Rightarrow>
          if trim animation = [] then bail ''Dome avatar animation is required'' else Inr ()
      | InputGrab pid \<Rightarrow>
          if trim pid = [] then bail ''Dome interaction prop id is required'' else Inr ()
      | InputSit pid \<Rightarrow>
          if trim pid = [] then bail ''Dome interaction prop id is required'' else Inr ()
      | InputThrow pid impulse \<Rightarrow>
          if trim pid = [] \<or> list_all (\<lambda>component. component = 0) (vec3_list impulse)
          then bail ''Dome impulse input is incomplete'' else Inr ()
      | InputPush pid impulse \<Rightarrow>
          if trim pid = [] \<or> list_all (\<lambda>component. component = 0) (vec3_list impulse)
          then bail ''Dome impulse input is incomplete'' else Inr ()
      | InputSpawnGuestProp prop expires_at \<Rightarrow>
          rbind (validate_session_prop prop) (\<lambda>_.
          if expires_at \<le> in_sent_at input then bail ''Dome guest prop expiry must be in the future'' else Inr ())
      | InputUpsertPersistentProp prop \<Rightarrow> validate_session_prop prop
      | InputDeletePersistentProp pid \<Rightarrow>
          if trim pid = [] then bail ''Dome persistent prop id is required'' else Inr ()
      | _ \<Rightarrow> Inr ())"

definition validate_dome_physics_snapshot :: "DomeHostingLeaseV1 \<Rightarrow> DomePhysicsSnapshotV1 \<Rightarrow> unit result" where
  "validate_dome_physics_snapshot lease snapshot =
     (if snap_instance_id snapshot \<noteq> lease_instance_id lease
        \<or> snap_instance_generation snapshot \<noteq> lease_instance_generation lease
        \<or> snap_lease_epoch snapshot \<noteq> lease_epoch lease
        \<or> trim (snap_session_id snapshot) = []
        \<or> snap_host_pubkey snapshot \<noteq> signing_pubkey (lease_host lease)
        \<or> snap_sequence snapshot = 0
      then bail ''Dome physics snapshot does not match active lease''
      else if list_ex (\<lambda>body. trim (pb_entity_id body) = []) (snap_bodies snapshot)
        \<or> \<not> distinct (map pb_entity_id (snap_bodies snapshot))
      then bail ''Dome physics snapshot entity ids must be non-empty and unique'' else Inr ())"

definition validate_dome_host_heartbeat :: "DomeHostingLeaseV1 \<Rightarrow> DomeHostHeartbeatV1 \<Rightarrow> unit result" where
  "validate_dome_host_heartbeat lease heartbeat =
     (if hb_instance_id heartbeat \<noteq> lease_instance_id lease
        \<or> hb_instance_generation heartbeat \<noteq> lease_instance_generation lease
        \<or> hb_lease_epoch heartbeat \<noteq> lease_epoch lease
        \<or> trim (hb_session_id heartbeat) = []
        \<or> hb_host_pubkey heartbeat \<noteq> signing_pubkey (lease_host lease)
        \<or> hb_sequence heartbeat = 0
        \<or> hb_sent_at heartbeat < lease_issued_at lease
        \<or> lease_expires_at lease \<le> hb_sent_at heartbeat
      then bail ''Dome host heartbeat does not match active lease'' else Inr ())"

definition build_signed_dome_session_input ::
    "hosting_lib \<Rightarrow> u64 option \<Rightarrow> KukuriKeys \<Rightarrow> DomeSessionInputV1 \<Rightarrow> SignedDomeSessionInputV1 result" where
  "build_signed_dome_session_input L clock participant_keys input =
     rbind (validate_dome_session_input input) (\<lambda>_.
     if in_participant_pubkey input \<noteq> public_key (hl_crypto L) participant_keys
     then bail ''Dome session input participant must match signer'' else
     rbind (sign_envelope_json (hl_crypto L) clock (hl_input L) participant_keys INPUT_KIND
       (session_tags (in_instance_id input) (in_lease_epoch input) (in_session_id input)) input) (\<lambda>envelope.
     Inr \<lparr>si_input = input, si_envelope = envelope\<rparr>))"

definition verify_signed_dome_session_input ::
    "hosting_lib \<Rightarrow> SignedDomeSessionInputV1 \<Rightarrow> DomeHostingLeaseV1 \<Rightarrow> string \<Rightarrow> unit result" where
  "verify_signed_dome_session_input L signed lease session_id =
     rbind (validate_dome_session_input (si_input signed)) (\<lambda>_.
     let input = si_input signed in
     if in_instance_id input \<noteq> lease_instance_id lease
       \<or> in_instance_generation input \<noteq> lease_instance_generation lease
       \<or> in_lease_epoch input \<noteq> lease_epoch lease \<or> in_session_id input \<noteq> session_id
     then bail ''Dome session input does not match active lease and session'' else
     verify_envelope_content (hl_crypto L) (hl_input L) (si_envelope signed) INPUT_KIND
       (in_participant_pubkey input) input)"

definition build_signed_dome_physics_snapshot ::
    "hosting_lib \<Rightarrow> u64 option \<Rightarrow> KukuriKeys \<Rightarrow> DomeHostingLeaseV1 \<Rightarrow> DomePhysicsSnapshotV1 \<Rightarrow>
     SignedDomePhysicsSnapshotV1 result" where
  "build_signed_dome_physics_snapshot L clock host_keys lease snapshot =
     rbind (validate_dome_physics_snapshot lease snapshot) (\<lambda>_.
     if signing_pubkey (lease_host lease) \<noteq> public_key (hl_crypto L) host_keys
       \<or> snap_host_pubkey snapshot \<noteq> public_key (hl_crypto L) host_keys
     then bail ''Dome physics snapshot host must match lease target'' else
     rbind (sign_envelope_json (hl_crypto L) clock (hl_snapshot L) host_keys SNAPSHOT_KIND
       (session_tags (snap_instance_id snapshot) (snap_lease_epoch snapshot) (snap_session_id snapshot)) snapshot) (\<lambda>envelope.
     Inr \<lparr>ss_snapshot = snapshot, ss_envelope = envelope\<rparr>))"

definition verify_signed_dome_physics_snapshot ::
    "hosting_lib \<Rightarrow> SignedDomePhysicsSnapshotV1 \<Rightarrow> DomeHostingLeaseV1 \<Rightarrow> string \<Rightarrow> unit result" where
  "verify_signed_dome_physics_snapshot L signed lease session_id =
     rbind (validate_dome_physics_snapshot lease (ss_snapshot signed)) (\<lambda>_.
     if snap_session_id (ss_snapshot signed) \<noteq> session_id
     then bail ''Dome physics snapshot session is stale'' else
     verify_envelope_content (hl_crypto L) (hl_snapshot L) (ss_envelope signed) SNAPSHOT_KIND
       (signing_pubkey (lease_host lease)) (ss_snapshot signed))"

definition build_signed_dome_host_heartbeat ::
    "hosting_lib \<Rightarrow> u64 option \<Rightarrow> KukuriKeys \<Rightarrow> DomeHostingLeaseV1 \<Rightarrow> DomeHostHeartbeatV1 \<Rightarrow>
     SignedDomeHostHeartbeatV1 result" where
  "build_signed_dome_host_heartbeat L clock host_keys lease heartbeat =
     rbind (validate_dome_host_heartbeat lease heartbeat) (\<lambda>_.
     if signing_pubkey (lease_host lease) \<noteq> public_key (hl_crypto L) host_keys
       \<or> hb_host_pubkey heartbeat \<noteq> public_key (hl_crypto L) host_keys
     then bail ''Dome host heartbeat signer does not match lease target'' else
     rbind (sign_envelope_json (hl_crypto L) clock (hl_heartbeat L) host_keys HEARTBEAT_KIND
       (session_tags (hb_instance_id heartbeat) (hb_lease_epoch heartbeat) (hb_session_id heartbeat)) heartbeat) (\<lambda>envelope.
     Inr \<lparr>sh_heartbeat = heartbeat, sh_envelope = envelope\<rparr>))"

definition verify_signed_dome_host_heartbeat ::
    "hosting_lib \<Rightarrow> SignedDomeHostHeartbeatV1 \<Rightarrow> DomeHostingLeaseV1 \<Rightarrow> string \<Rightarrow> unit result" where
  "verify_signed_dome_host_heartbeat L signed lease session_id =
     rbind (validate_dome_host_heartbeat lease (sh_heartbeat signed)) (\<lambda>_.
     if hb_session_id (sh_heartbeat signed) \<noteq> session_id
     then bail ''Dome host heartbeat session is stale'' else
     verify_envelope_content (hl_crypto L) (hl_heartbeat L) (sh_envelope signed) HEARTBEAT_KIND
       (signing_pubkey (lease_host lease)) (sh_heartbeat signed))"

section \<open>Layout candidates and commits\<close>

definition dome_layout_candidate_digest :: "hosting_lib \<Rightarrow> DomeLayoutCandidateV1 \<Rightarrow> string result" where
  "dome_layout_candidate_digest L candidate =
     rbind (with_context ''failed to encode Dome layout candidate''
       (foreign ''serde_json'' (to_json (hl_candidate L) candidate))) (\<lambda>bytes. Inr (hl_blake3_hex L bytes))"

definition validate_dome_layout_candidate :: "DomeHostingLeaseV1 \<Rightarrow> DomeLayoutCandidateV1 \<Rightarrow> unit result" where
  "validate_dome_layout_candidate lease candidate =
     (if trim (lc_operation_id candidate) = []
        \<or> lc_instance_id candidate \<noteq> lease_instance_id lease
        \<or> lc_instance_generation candidate \<noteq> lease_instance_generation lease
        \<or> lc_lease_epoch candidate \<noteq> lease_epoch lease
        \<or> trim (lc_session_id candidate) = []
        \<or> lc_host_pubkey candidate \<noteq> signing_pubkey (lease_host lease)
        \<or> lc_base_manifest_revision candidate \<noteq> lease_manifest_version lease
        \<or> lc_snapshot_sequence candidate = 0
      then bail ''Dome layout candidate does not match active lease'' else
      validate_dome_customization (default_customization\<lparr>cust_persistent_props := lc_persistent_props candidate\<rparr>))"

definition validate_dome_layout_commit ::
    "hosting_lib \<Rightarrow> DomeHostingLeaseV1 \<Rightarrow> DomeLayoutCandidateV1 \<Rightarrow> DomeLayoutCommitV1 \<Rightarrow> unit result" where
  "validate_dome_layout_commit L lease candidate commit =
     (if lm_operation_id commit \<noteq> lc_operation_id candidate
        \<or> lm_instance_id commit \<noteq> lease_instance_id lease
        \<or> lm_instance_generation commit \<noteq> lease_instance_generation lease
        \<or> lm_owner_pubkey commit \<noteq> lease_owner_pubkey lease
        \<or> lm_base_manifest_revision commit \<noteq> lc_base_manifest_revision candidate
        \<or> lm_next_manifest_revision commit \<noteq> sat_u64 (lm_base_manifest_revision commit + 1)
        \<or> trim (lm_manifest_blob_hash commit) = []
      then bail ''Dome layout commit does not match candidate and active lease'' else
      rbind (dome_layout_candidate_digest L candidate) (\<lambda>digest.
      if lm_candidate_digest commit \<noteq> digest \<or> lm_committed_at commit < lc_captured_at candidate
      then bail ''Dome layout commit does not match candidate and active lease'' else Inr ()))"

definition build_signed_dome_layout_candidate ::
    "hosting_lib \<Rightarrow> u64 option \<Rightarrow> KukuriKeys \<Rightarrow> DomeHostingLeaseV1 \<Rightarrow> DomeLayoutCandidateV1 \<Rightarrow>
     SignedDomeLayoutCandidateV1 result" where
  "build_signed_dome_layout_candidate L clock host_keys lease candidate =
     rbind (validate_dome_layout_candidate lease candidate) (\<lambda>_.
     if signing_pubkey (lease_host lease) \<noteq> public_key (hl_crypto L) host_keys
       \<or> lc_host_pubkey candidate \<noteq> public_key (hl_crypto L) host_keys
     then bail ''Dome layout candidate host must match lease target'' else
     rbind (sign_envelope_json (hl_crypto L) clock (hl_candidate L) host_keys LAYOUT_CANDIDATE_KIND
       (session_tags (lc_instance_id candidate) (lc_lease_epoch candidate) (lc_session_id candidate)) candidate) (\<lambda>envelope.
     Inr \<lparr>slc_candidate = candidate, slc_envelope = envelope\<rparr>))"

definition verify_signed_dome_layout_candidate ::
    "hosting_lib \<Rightarrow> SignedDomeLayoutCandidateV1 \<Rightarrow> DomeHostingLeaseV1 \<Rightarrow> string \<Rightarrow> unit result" where
  "verify_signed_dome_layout_candidate L signed lease session_id =
     rbind (validate_dome_layout_candidate lease (slc_candidate signed)) (\<lambda>_.
     if lc_session_id (slc_candidate signed) \<noteq> session_id
     then bail ''Dome layout candidate session is stale'' else
     verify_envelope_content (hl_crypto L) (hl_candidate L) (slc_envelope signed) LAYOUT_CANDIDATE_KIND
       (signing_pubkey (lease_host lease)) (slc_candidate signed))"

definition build_signed_dome_layout_commit ::
    "hosting_lib \<Rightarrow> u64 option \<Rightarrow> KukuriKeys \<Rightarrow> DomeHostingLeaseV1 \<Rightarrow> SignedDomeLayoutCandidateV1 \<Rightarrow>
     DomeLayoutCommitV1 \<Rightarrow> SignedDomeLayoutCommitV1 result" where
  "build_signed_dome_layout_commit L clock owner_keys lease candidate commit =
     rbind (verify_signed_dome_layout_candidate L candidate lease (lc_session_id (slc_candidate candidate))) (\<lambda>_.
     rbind (validate_dome_layout_commit L lease (slc_candidate candidate) commit) (\<lambda>_.
     if lm_owner_pubkey commit \<noteq> public_key (hl_crypto L) owner_keys \<or> lm_owner_pubkey commit \<noteq> lease_owner_pubkey lease
     then bail ''Dome layout commit owner must match signer and lease'' else
     rbind (sign_envelope_json (hl_crypto L) clock (hl_commit L) owner_keys LAYOUT_COMMIT_KIND
       (hosting_tags (lm_instance_id commit) (lease_epoch lease) (lm_operation_id commit)) commit) (\<lambda>envelope.
     Inr \<lparr>slm_commit = commit, slm_envelope = envelope\<rparr>)))"

definition verify_signed_dome_layout_commit ::
    "hosting_lib \<Rightarrow> SignedDomeLayoutCommitV1 \<Rightarrow> DomeHostingLeaseV1 \<Rightarrow> SignedDomeLayoutCandidateV1 \<Rightarrow> unit result" where
  "verify_signed_dome_layout_commit L signed lease candidate =
     rbind (verify_signed_dome_layout_candidate L candidate lease (lc_session_id (slc_candidate candidate))) (\<lambda>_.
     rbind (validate_dome_layout_commit L lease (slc_candidate candidate) (slm_commit signed)) (\<lambda>_.
     verify_envelope_content (hl_crypto L) (hl_commit L) (slm_envelope signed) LAYOUT_COMMIT_KIND
       (lease_owner_pubkey lease) (slm_commit signed)))"

section \<open>Evacuation\<close>

datatype DomeEvacuationReasonV1 = HostOffline | AccessRevoked | Blocked | TopologyInvalid | UserRequested

fun evacuation_code :: "DomeEvacuationReasonV1 \<Rightarrow> string" where
  "evacuation_code HostOffline = ''DOME_EVACUATION_HOST_OFFLINE''"
| "evacuation_code AccessRevoked = ''DOME_EVACUATION_ACCESS_REVOKED''"
| "evacuation_code Blocked = ''DOME_EVACUATION_BLOCKED''"
| "evacuation_code TopologyInvalid = ''DOME_EVACUATION_TOPOLOGY_INVALID''"
| "evacuation_code UserRequested = ''DOME_EVACUATION_USER_REQUESTED''"

datatype DomeEvacuationCandidateKindV1 =
  EstablishedTransition | ActiveAdjacent | OwnHosted | LastVisited | ChannelEntry | StableFallback

text \<open>The derived \<open>Ord\<close> compares the position of a variant.\<close>

fun candidate_kind_rank :: "DomeEvacuationCandidateKindV1 \<Rightarrow> nat" where
  "candidate_kind_rank EstablishedTransition = 0"
| "candidate_kind_rank ActiveAdjacent = 1"
| "candidate_kind_rank OwnHosted = 2"
| "candidate_kind_rank LastVisited = 3"
| "candidate_kind_rank ChannelEntry = 4"
| "candidate_kind_rank StableFallback = 5"

instantiation DomeEvacuationCandidateKindV1 :: linorder
begin

definition less_eq_DomeEvacuationCandidateKindV1 ::
    "DomeEvacuationCandidateKindV1 \<Rightarrow> DomeEvacuationCandidateKindV1 \<Rightarrow> bool" where
  "less_eq_DomeEvacuationCandidateKindV1 a b \<longleftrightarrow> candidate_kind_rank a \<le> candidate_kind_rank b"

definition less_DomeEvacuationCandidateKindV1 ::
    "DomeEvacuationCandidateKindV1 \<Rightarrow> DomeEvacuationCandidateKindV1 \<Rightarrow> bool" where
  "less_DomeEvacuationCandidateKindV1 a b \<longleftrightarrow> candidate_kind_rank a < candidate_kind_rank b"

instance
proof
  fix x y :: DomeEvacuationCandidateKindV1
  show "x \<le> y \<Longrightarrow> y \<le> x \<Longrightarrow> x = y"
    by (cases x; cases y) (simp_all add: less_eq_DomeEvacuationCandidateKindV1_def)
qed (auto simp: less_eq_DomeEvacuationCandidateKindV1_def less_DomeEvacuationCandidateKindV1_def)

end

record DomeEvacuationCandidateV1 =
  evc_instance_id :: string
  evc_kind :: DomeEvacuationCandidateKindV1
  evc_available :: bool

fun retain_first :: "string set \<Rightarrow> DomeEvacuationCandidateV1 list \<Rightarrow> DomeEvacuationCandidateV1 list" where
  "retain_first seen [] = []"
| "retain_first seen (c # cs) =
     (if evc_instance_id c \<in> seen then retain_first seen cs
      else c # retain_first (insert (evc_instance_id c) seen) cs)"

definition order_dome_evacuation_candidates ::
    "string \<Rightarrow> DomeEvacuationCandidateV1 list \<Rightarrow> DomeEvacuationCandidateV1 list" where
  "order_dome_evacuation_candidates current_instance_id candidates =
     retain_first {} (sort_key (\<lambda>c. (evc_kind c, evc_instance_id c))
       (filter (\<lambda>c. evc_available c \<and> evc_instance_id c \<noteq> current_instance_id) candidates))"

section \<open>The contract of signed contents\<close>

lemma verify_envelope_content_iff:
  "verify_envelope_content C J e kind signer d = Inr u \<longleftrightarrow>
     verify C e = Inr () \<and> env_kind e = kind \<and> env_pubkey e = signer \<and> from_json J (env_content e) = Some d"
  by (auto simp: verify_envelope_content_def result_simps)

lemma signed_content_verifies:
  assumes "sign_envelope_json C clock J keys kind tags d = Inr e" "schnorr_correct C" "codec_round_trip J d"
  shows "verify_envelope_content C J e kind (public_key C keys) d = Inr ()"
  using sign_envelope_json_verifies [OF assms(1,2)] sign_envelope_json_decodes [OF assms(1,3)]
  by (simp add: verify_envelope_content_iff)

text \<open>
  A kind of signed record: \<open>built\<close> is what its builder returns for a key pair, \<open>accepts\<close> what its
  verifier lets through, \<open>fits\<close> what the verifier demands of the content besides authenticity, and
  \<open>signer\<close> the key it must be signed with.
\<close>

locale authenticated_record =
  fixes C :: crypto_lib
    and J :: "'c codec"
    and kind :: string
    and envelope_of :: "'s \<Rightarrow> KukuriEnvelope"
    and content_of :: "'s \<Rightarrow> 'c"
    and signer :: "'c \<Rightarrow> Pubkey"
    and fits :: "'c \<Rightarrow> bool"
    and built :: "KukuriKeys \<Rightarrow> 's \<Rightarrow> bool"
    and accepts :: "'s \<Rightarrow> bool"
  assumes built_signs: "built keys s \<Longrightarrow> signer (content_of s) = public_key C keys \<and>
      signs C J keys kind (content_of s) (envelope_of s)"
    and accepts_iff: "accepts s \<longleftrightarrow> fits (content_of s) \<and>
      verify_envelope_content C J (envelope_of s) kind (signer (content_of s)) (content_of s) = Inr ()"
begin

lemma built_accepted:
  assumes "built keys s" "fits (content_of s)" "schnorr_correct C" "codec_round_trip J (content_of s)"
  shows "accepts s"
  using built_signs [OF assms(1)] assms(2-4) by (auto simp: accepts_iff signs_def dest: signed_content_verifies)

lemma accepted_authentic:
  assumes "accepts s"
  shows "verify C (envelope_of s) = Inr ()" "env_pubkey (envelope_of s) = signer (content_of s)"
    "env_kind (envelope_of s) = kind" "fits (content_of s)"
    "from_json J (env_content (envelope_of s)) = Some (content_of s)"
  using assms by (simp_all add: accepts_iff verify_envelope_content_iff)

lemma accepted_content_determined:
  assumes "accepts s" "accepts t" "env_content (envelope_of s) = env_content (envelope_of t)"
  shows "content_of s = content_of t"
  using accepted_authentic(5) [OF assms(1)] accepted_authentic(5) [OF assms(2)] assms(3) by simp

end

lemmas verifier_defs = verify_signed_dome_hosting_lease_def verify_acceptance_def verify_activation_def
  verify_close_def verify_signed_dome_session_input_def verify_signed_dome_physics_snapshot_def
  verify_signed_dome_host_heartbeat_def verify_signed_dome_layout_candidate_def

lemmas builder_defs = build_signed_dome_hosting_lease_def accept_dome_hosting_lease_def
  activate_dome_hosting_lease_def close_dome_hosting_lease_def build_signed_dome_session_input_def
  build_signed_dome_physics_snapshot_def build_signed_dome_host_heartbeat_def
  build_signed_dome_layout_candidate_def build_signed_dome_layout_commit_def

definition lease_fits :: "DomeInstanceManifestV1 \<Rightarrow> DomeHostingLeaseV1 \<Rightarrow> bool" where
  "lease_fits inst lease \<longleftrightarrow> validate_dome_hosting_lease lease inst = Inr ()"

interpretation lease_rec: authenticated_record "hl_crypto L" "hl_lease L" LEASE_KIND sl_envelope sl_lease
  lease_owner_pubkey "lease_fits inst"
  "\<lambda>keys s. \<exists>clock c. build_signed_dome_hosting_lease L clock keys c = Inr s"
  "\<lambda>s. verify_signed_dome_hosting_lease L s inst = Inr ()" for L inst
  by unfold_locales (auto simp: verifier_defs builder_defs lease_fits_def result_simps)

definition acceptance_fits :: "hosting_lib \<Rightarrow> DomeHostingLeaseV1 \<Rightarrow> DomeHostingAcceptanceV1 \<Rightarrow> bool" where
  "acceptance_fits L lease c \<longleftrightarrow> acc_lease_id c = lease_lease_id lease \<and>
     dome_hosting_lease_digest L lease = Inr (acc_lease_digest c) \<and>
     acc_instance_id c = lease_instance_id lease \<and> acc_instance_generation c = lease_instance_generation lease \<and>
     acc_lease_epoch c = lease_epoch lease \<and> trim (acc_session_id c) \<noteq> [] \<and>
     lease_issued_at lease \<le> acc_accepted_at c \<and> acc_accepted_at c < lease_expires_at lease"

interpretation acc_rec: authenticated_record "hl_crypto L" "hl_acceptance L" ACCEPTANCE_KIND sa_envelope sa_acceptance
  "\<lambda>_. signing_pubkey (lease_host (sl_lease signed))" "acceptance_fits L (sl_lease signed)"
  "\<lambda>keys a. \<exists>clock sid t. accept_dome_hosting_lease L clock keys signed sid t = Inr a"
  "\<lambda>a. verify_acceptance L signed a = Inr ()" for L signed
  by unfold_locales (auto simp: verifier_defs builder_defs acceptance_fits_def result_simps Let_def not_less)

definition activation_fits :: "hosting_lib \<Rightarrow> DomeHostingLeaseV1 \<Rightarrow> DomeHostingActivationV1 \<Rightarrow> bool" where
  "activation_fits L lease c \<longleftrightarrow> act_lease_id c = lease_lease_id lease \<and>
     dome_hosting_lease_digest L lease = Inr (act_lease_digest c) \<and> act_lease_epoch c = lease_epoch lease \<and>
     trim (act_host_acceptance_envelope_id c) \<noteq> [] \<and>
     lease_issued_at lease \<le> act_activated_at c \<and> act_activated_at c < lease_expires_at lease"

interpretation act_rec: authenticated_record "hl_crypto L" "hl_activation L" ACTIVATION_KIND sv_envelope sv_activation
  "\<lambda>_. lease_owner_pubkey (sl_lease signed)" "activation_fits L (sl_lease signed)"
  "\<lambda>keys a. \<exists>clock acc t. activate_dome_hosting_lease L clock keys signed acc t = Inr a"
  "\<lambda>a. verify_activation L signed a = Inr ()" for L signed
  by unfold_locales (auto simp: verifier_defs builder_defs activation_fits_def result_simps Let_def not_less)

definition close_fits :: "hosting_lib \<Rightarrow> DomeHostingLeaseV1 \<Rightarrow> DomeHostingCloseV1 \<Rightarrow> bool" where
  "close_fits L lease c \<longleftrightarrow> close_lease_id c = lease_lease_id lease \<and>
     dome_hosting_lease_digest L lease = Inr (close_lease_digest c) \<and> close_lease_epoch c = lease_epoch lease \<and>
     lease_issued_at lease \<le> close_closed_at c"

interpretation close_rec: authenticated_record "hl_crypto L" "hl_close L" CLOSE_KIND sc_envelope sc_close
  "\<lambda>_. lease_owner_pubkey (sl_lease signed)" "close_fits L (sl_lease signed)"
  "\<lambda>keys a. \<exists>clock t. close_dome_hosting_lease L clock keys signed t = Inr a"
  "\<lambda>a. verify_close L signed a = Inr ()" for L signed
  by unfold_locales (auto simp: verifier_defs builder_defs close_fits_def result_simps Let_def not_less)

definition input_fits :: "DomeHostingLeaseV1 \<Rightarrow> string \<Rightarrow> DomeSessionInputV1 \<Rightarrow> bool" where
  "input_fits lease session_id i \<longleftrightarrow> validate_dome_session_input i = Inr () \<and>
     in_instance_id i = lease_instance_id lease \<and> in_instance_generation i = lease_instance_generation lease \<and>
     in_lease_epoch i = lease_epoch lease \<and> in_session_id i = session_id"

interpretation input_rec: authenticated_record "hl_crypto L" "hl_input L" INPUT_KIND si_envelope si_input
  in_participant_pubkey "input_fits lease session_id"
  "\<lambda>keys s. \<exists>clock c. build_signed_dome_session_input L clock keys c = Inr s"
  "\<lambda>s. verify_signed_dome_session_input L s lease session_id = Inr ()" for L lease session_id
  by unfold_locales (auto simp: verifier_defs builder_defs input_fits_def result_simps Let_def)

definition snapshot_fits :: "DomeHostingLeaseV1 \<Rightarrow> string \<Rightarrow> DomePhysicsSnapshotV1 \<Rightarrow> bool" where
  "snapshot_fits lease session_id s \<longleftrightarrow>
     validate_dome_physics_snapshot lease s = Inr () \<and> snap_session_id s = session_id"

interpretation snapshot_rec: authenticated_record "hl_crypto L" "hl_snapshot L" SNAPSHOT_KIND ss_envelope ss_snapshot
  "\<lambda>_. signing_pubkey (lease_host lease)" "snapshot_fits lease session_id"
  "\<lambda>keys s. \<exists>clock c. build_signed_dome_physics_snapshot L clock keys lease c = Inr s"
  "\<lambda>s. verify_signed_dome_physics_snapshot L s lease session_id = Inr ()" for L lease session_id
  by unfold_locales (auto simp: verifier_defs builder_defs snapshot_fits_def result_simps Let_def)

definition heartbeat_fits :: "DomeHostingLeaseV1 \<Rightarrow> string \<Rightarrow> DomeHostHeartbeatV1 \<Rightarrow> bool" where
  "heartbeat_fits lease session_id h \<longleftrightarrow>
     validate_dome_host_heartbeat lease h = Inr () \<and> hb_session_id h = session_id"

interpretation heartbeat_rec: authenticated_record "hl_crypto L" "hl_heartbeat L" HEARTBEAT_KIND sh_envelope sh_heartbeat
  "\<lambda>_. signing_pubkey (lease_host lease)" "heartbeat_fits lease session_id"
  "\<lambda>keys s. \<exists>clock c. build_signed_dome_host_heartbeat L clock keys lease c = Inr s"
  "\<lambda>s. verify_signed_dome_host_heartbeat L s lease session_id = Inr ()" for L lease session_id
  by unfold_locales (auto simp: verifier_defs builder_defs heartbeat_fits_def result_simps Let_def)

definition candidate_fits :: "DomeHostingLeaseV1 \<Rightarrow> string \<Rightarrow> DomeLayoutCandidateV1 \<Rightarrow> bool" where
  "candidate_fits lease session_id c \<longleftrightarrow>
     validate_dome_layout_candidate lease c = Inr () \<and> lc_session_id c = session_id"

interpretation candidate_rec: authenticated_record "hl_crypto L" "hl_candidate L" LAYOUT_CANDIDATE_KIND
  slc_envelope slc_candidate "\<lambda>_. signing_pubkey (lease_host lease)" "candidate_fits lease session_id"
  "\<lambda>keys s. \<exists>clock c. build_signed_dome_layout_candidate L clock keys lease c = Inr s"
  "\<lambda>s. verify_signed_dome_layout_candidate L s lease session_id = Inr ()" for L lease session_id
  by unfold_locales (auto simp: verifier_defs builder_defs candidate_fits_def result_simps Let_def)

definition commit_fits ::
    "hosting_lib \<Rightarrow> DomeHostingLeaseV1 \<Rightarrow> SignedDomeLayoutCandidateV1 \<Rightarrow> DomeLayoutCommitV1 \<Rightarrow> bool" where
  "commit_fits L lease candidate m \<longleftrightarrow>
     verify_signed_dome_layout_candidate L candidate lease (lc_session_id (slc_candidate candidate)) = Inr () \<and>
     validate_dome_layout_commit L lease (slc_candidate candidate) m = Inr ()"

interpretation commit_rec: authenticated_record "hl_crypto L" "hl_commit L" LAYOUT_COMMIT_KIND
  slm_envelope slm_commit "\<lambda>_. lease_owner_pubkey lease" "commit_fits L lease candidate"
  "\<lambda>keys s. \<exists>clock c. build_signed_dome_layout_commit L clock keys lease candidate c = Inr s"
  "\<lambda>s. verify_signed_dome_layout_commit L s lease candidate = Inr ()" for L lease candidate
  by unfold_locales (auto simp: verify_signed_dome_layout_commit_def builder_defs commit_fits_def result_simps)

section \<open>What the hosting state is made of\<close>

lemma try_fold_guarded:
  assumes "\<And>s x. ok x \<Longrightarrow> f s x = Inr (g x s)" "\<And>s x. \<not> ok x \<Longrightarrow> \<exists>e. f s x = Inl e"
  shows "try_fold f s xs = Inr t \<longleftrightarrow> (\<forall>x \<in> set xs. ok x) \<and> t = fold g xs s"
proof (induction xs arbitrary: s)
  case (Cons x xs)
  show ?case
  proof (cases "ok x")
    case True
    with Cons assms(1) show ?thesis by simp
  next
    case False
    with assms(2) [of x s] show ?thesis by auto
  qed
qed auto

text \<open>The current leases: neither of an earlier generation of the instance nor of an earlier revision.\<close>

definition current_lease :: "DomeInstanceManifestV1 \<Rightarrow> DomeHostingLeaseV1 \<Rightarrow> bool" where
  "current_lease inst lease \<longleftrightarrow> inst_generation inst \<le> lease_instance_generation lease \<and>
     pref_revision (inst_preset_ref inst) \<le> lease_manifest_version lease"

definition lease_record_ok :: "hosting_lib \<Rightarrow> DomeInstanceManifestV1 \<Rightarrow> DomeHostingRecordV1 \<Rightarrow> bool" where
  "lease_record_ok L inst r \<longleftrightarrow> is_ok (index_lease L inst [] r)"

definition lease_digest :: "hosting_lib \<Rightarrow> DomeHostingLeaseV1 \<Rightarrow> string" where
  "lease_digest L lease = hl_blake3_hex L (the (to_json (hl_lease L) lease))"

definition add_lease :: "hosting_lib \<Rightarrow> DomeInstanceManifestV1 \<Rightarrow> DomeHostingRecordV1 \<Rightarrow> lease_index \<Rightarrow> lease_index" where
  "add_lease L inst r m = (case r of
     LeaseIssued s \<Rightarrow>
       if current_lease inst (sl_lease s)
       then bm_insert (lease_epoch (sl_lease s))
         (bm_insert (lease_digest L (sl_lease s)) s
           (case bm_get m (lease_epoch (sl_lease s)) of Some x \<Rightarrow> x | None \<Rightarrow> [])) m
       else m
   | _ \<Rightarrow> m)"

lemma dome_hosting_lease_digest_Inr [result_simps]:
  "dome_hosting_lease_digest L lease = Inr d \<longleftrightarrow> to_json (hl_lease L) lease \<noteq> None \<and> d = lease_digest L lease"
  by (auto simp: dome_hosting_lease_digest_def lease_digest_def result_simps)

lemma index_lease_cases:
  "index_lease L inst m r = (if lease_record_ok L inst r then Inr (add_lease L inst r m) else index_lease L inst [] r)"
proof (cases r)
  case (LeaseIssued s)
  then show ?thesis
    by (auto simp: index_lease_def lease_record_ok_def add_lease_def current_lease_def is_ok_rbind Let_def rbind_def
        dome_hosting_lease_digest_def lease_digest_def with_context_def foreign_def
        split: sum.splits option.splits if_splits)
qed (simp_all add: index_lease_def lease_record_ok_def add_lease_def)

lemma index_leases_eq:
  "try_fold (index_lease L inst) [] records = Inr m \<longleftrightarrow>
     (\<forall>r \<in> set records. lease_record_ok L inst r) \<and> m = fold (add_lease L inst) records []"
proof (rule try_fold_guarded)
  show "index_lease L inst s x = Inr (add_lease L inst x s)" if "lease_record_ok L inst x" for s x
    using that index_lease_cases [of L inst s x] by simp
  show "\<exists>e. index_lease L inst s x = Inl e" if "\<not> lease_record_ok L inst x" for s x
    using that index_lease_cases [of L inst s x] by (cases "index_lease L inst [] x") (auto simp: lease_record_ok_def)
qed

lemma lease_record_ok_current:
  assumes "lease_record_ok L inst (LeaseIssued s)" "current_lease inst (sl_lease s)"
  shows "verify_signed_dome_hosting_lease L s inst = Inr ()" "to_json (hl_lease L) (sl_lease s) \<noteq> None"
  using assms
  by (auto simp: lease_record_ok_def index_lease_def current_lease_def Let_def is_ok_rbind is_ok_iff result_simps not_less
      split: if_splits)

lemma lease_record_ok_authentic:
  assumes "lease_record_ok L inst (LeaseIssued s)"
  shows "verify_envelope_content (hl_crypto L) (hl_lease L) (sl_envelope s) LEASE_KIND
      (lease_owner_pubkey (sl_lease s)) (sl_lease s) = Inr ()" "lease_owner_pubkey (sl_lease s) = inst_owner_pubkey inst"
  using assms
  by (auto simp: lease_record_ok_def index_lease_def Let_def is_ok_rbind is_ok_iff result_simps
      verify_signed_dome_hosting_lease_def validate_dome_hosting_lease_def split: if_splits)

text \<open>The lease of a digest, as the index has it for an epoch.\<close>

definition epoch_leases :: "lease_index \<Rightarrow> u64 \<Rightarrow> (string, SignedDomeHostingLeaseV1) btree_map" where
  "epoch_leases m e = (case bm_get m e of Some x \<Rightarrow> x | None \<Rightarrow> [])"

definition issued :: "DomeInstanceManifestV1 \<Rightarrow> DomeHostingRecordV1 set \<Rightarrow> SignedDomeHostingLeaseV1 \<Rightarrow> bool" where
  "issued inst R s \<longleftrightarrow> LeaseIssued s \<in> R \<and> current_lease inst (sl_lease s)"

definition index_inv :: "hosting_lib \<Rightarrow> DomeInstanceManifestV1 \<Rightarrow> DomeHostingRecordV1 list \<Rightarrow> lease_index \<Rightarrow> bool" where
  "index_inv L inst records m \<longleftrightarrow> bm_ok m \<and> (\<forall>e. bm_ok (epoch_leases m e)) \<and>
     (\<forall>e. e \<in> dom (bm_get m) \<longleftrightarrow> epoch_leases m e \<noteq> []) \<and>
     (\<forall>e d. d \<in> dom (bm_get (epoch_leases m e)) \<longleftrightarrow>
        (\<exists>s. issued inst (set records) s \<and> lease_epoch (sl_lease s) = e \<and>
           lease_digest L (sl_lease s) = d)) \<and>
     (\<forall>e d s. bm_get (epoch_leases m e) d = Some s \<longrightarrow> issued inst (set records) s \<and> lease_epoch (sl_lease s) = e \<and> lease_digest L (sl_lease s) = d)"

lemma epoch_leases_insert: "epoch_leases (bm_insert k v m) e = (if e = k then v else epoch_leases m e)"
  by (simp add: epoch_leases_def)

lemma add_lease_inv:
  assumes "index_inv L inst records m"
  shows "index_inv L inst (records @ [r]) (add_lease L inst r m)"
proof (cases "\<exists>s. r = LeaseIssued s \<and> current_lease inst (sl_lease s)")
  case False
  then have "add_lease L inst r m = m" by (auto simp: add_lease_def split: DomeHostingRecordV1.split)
  moreover have "issued inst (set (records @ [r])) = issued inst (set records)"
    using False by (auto simp: issued_def fun_eq_iff)
  ultimately show ?thesis using assms by (simp add: index_inv_def)
next
  case True
  then obtain s where r: "r = LeaseIssued s" and cur: "current_lease inst (sl_lease s)" by blast
  let ?e = "lease_epoch (sl_lease s)" and ?d = "lease_digest L (sl_lease s)"
  have eq: "add_lease L inst r m = bm_insert ?e (bm_insert ?d s (epoch_leases m ?e)) m"
    by (simp add: add_lease_def r cur epoch_leases_def)
  have ne: "bm_insert ?d s x \<noteq> []" for x :: "(string, SignedDomeHostingLeaseV1) btree_map"
    by (cases x) (auto split: if_splits)
  have inv: "bm_ok m" "\<And>e. bm_ok (epoch_leases m e)" "\<And>e. e \<in> dom (bm_get m) \<longleftrightarrow> epoch_leases m e \<noteq> []"
    "\<And>e d. d \<in> dom (bm_get (epoch_leases m e)) \<longleftrightarrow>
        (\<exists>s. issued inst (set records) s \<and> lease_epoch (sl_lease s) = e \<and>
           lease_digest L (sl_lease s) = d)"
    "\<And>e d s. bm_get (epoch_leases m e) d = Some s \<Longrightarrow> issued inst (set records) s \<and> lease_epoch (sl_lease s) = e \<and> lease_digest L (sl_lease s) = d"
    using assms unfolding index_inv_def by blast+
  have "bm_ok (add_lease L inst r m)" unfolding eq by (intro bm_ok_insert inv)
  moreover have "bm_ok (epoch_leases (add_lease L inst r m) e)" for e
    unfolding eq by (simp add: epoch_leases_insert bm_ok_insert inv)
  moreover have "e \<in> dom (bm_get (add_lease L inst r m)) \<longleftrightarrow> epoch_leases (add_lease L inst r m) e \<noteq> []" for e
    unfolding eq epoch_leases_insert using inv(3) [of e] ne by (simp add: domIff)
  moreover have "d \<in> dom (bm_get (epoch_leases (add_lease L inst r m) e)) \<longleftrightarrow>
      (\<exists>s. issued inst (set (records @ [r])) s \<and> lease_epoch (sl_lease s) = e \<and>
         lease_digest L (sl_lease s) = d)" for e d
  proof -
    have "d \<in> dom (bm_get (epoch_leases (add_lease L inst r m) e)) \<longleftrightarrow>
        e = ?e \<and> d = ?d \<or> d \<in> dom (bm_get (epoch_leases m e))"
      unfolding eq epoch_leases_insert by auto
    then show ?thesis unfolding inv(4) by (auto simp: r cur issued_def)
  qed
  moreover have "issued inst (set (records @ [r])) t \<and>
      lease_epoch (sl_lease t) = e \<and> lease_digest L (sl_lease t) = d"
    if "bm_get (epoch_leases (add_lease L inst r m) e) d = Some t" for e d t
    using that inv(5) [of e d t] cur unfolding eq epoch_leases_insert by (auto simp: r issued_def split: if_splits)
  ultimately show ?thesis unfolding index_inv_def by blast
qed

lemma index_inv_fold: "index_inv L inst records (fold (add_lease L inst) records [])"
proof (induction records rule: rev_induct)
  case Nil
  then show ?case by (simp add: index_inv_def epoch_leases_def issued_def domIff)
next
  case (snoc r records)
  then show ?case using add_lease_inv by simp
qed

definition accepted_in :: "u64 \<Rightarrow> string \<Rightarrow> DomeHostingRecordV1 set \<Rightarrow> SignedDomeHostingAcceptanceV1 \<Rightarrow> bool" where
  "accepted_in e d R a \<longleftrightarrow> HostAccepted a \<in> R \<and>
     acc_lease_epoch (sa_acceptance a) = e \<and> acc_lease_digest (sa_acceptance a) = d"

definition activated_in :: "u64 \<Rightarrow> string \<Rightarrow> DomeHostingRecordV1 set \<Rightarrow> SignedDomeHostingActivationV1 \<Rightarrow> bool" where
  "activated_in e d R v \<longleftrightarrow> LeaseActivated v \<in> R \<and>
     act_lease_epoch (sv_activation v) = e \<and> act_lease_digest (sv_activation v) = d"

definition closed_in :: "u64 \<Rightarrow> string \<Rightarrow> DomeHostingRecordV1 set \<Rightarrow> SignedDomeHostingCloseV1 \<Rightarrow> bool" where
  "closed_in e d R c \<longleftrightarrow> LeaseClosed c \<in> R \<and>
     close_lease_epoch (sc_close c) = e \<and> close_lease_digest (sc_close c) = d"

definition no_scan :: hosting_scan where
  "no_scan = \<lparr>hs_acceptances = [], hs_activation_ids = [], hs_closed = False\<rparr>"

definition scan_ok :: "hosting_lib \<Rightarrow> u64 \<Rightarrow> SignedDomeHostingLeaseV1 \<Rightarrow> string \<Rightarrow> DomeHostingRecordV1 \<Rightarrow> bool" where
  "scan_ok L e s d r \<longleftrightarrow> is_ok (scan_record L e s d no_scan r)"

definition add_scan :: "u64 \<Rightarrow> string \<Rightarrow> DomeHostingRecordV1 \<Rightarrow> hosting_scan \<Rightarrow> hosting_scan" where
  "add_scan e d r scan = (case r of
     HostAccepted a \<Rightarrow>
       if acc_lease_epoch (sa_acceptance a) = e \<and> acc_lease_digest (sa_acceptance a) = d
       then scan\<lparr>hs_acceptances := bm_insert (env_id (sa_envelope a)) a (hs_acceptances scan)\<rparr> else scan
   | LeaseActivated v \<Rightarrow>
       if act_lease_epoch (sv_activation v) = e \<and> act_lease_digest (sv_activation v) = d
       then scan\<lparr>hs_activation_ids := bs_insert (act_host_acceptance_envelope_id (sv_activation v)) (hs_activation_ids scan)\<rparr>
       else scan
   | LeaseClosed c \<Rightarrow>
       if close_lease_epoch (sc_close c) = e \<and> close_lease_digest (sc_close c) = d
       then scan\<lparr>hs_closed := True\<rparr> else scan
   | _ \<Rightarrow> scan)"

lemma scan_record_cases:
  "scan_record L e s d scan r = (if scan_ok L e s d r then Inr (add_scan e d r scan) else scan_record L e s d no_scan r)"
  by (cases r)
    (auto simp: scan_record_def scan_ok_def add_scan_def is_ok_rbind rbind_def split: sum.splits)

lemma scan_records_eq:
  "try_fold (scan_record L e s d) no_scan records = Inr scan \<longleftrightarrow>
     (\<forall>r \<in> set records. scan_ok L e s d r) \<and> scan = fold (add_scan e d) records no_scan"
proof (rule try_fold_guarded)
  show "scan_record L e s d sc x = Inr (add_scan e d x sc)" if "scan_ok L e s d x" for sc x
    using that scan_record_cases [of L e s d sc x] by simp
  show "\<exists>er. scan_record L e s d sc x = Inl er" if "\<not> scan_ok L e s d x" for sc x
    using that scan_record_cases [of L e s d sc x] by (cases "scan_record L e s d no_scan x") (auto simp: scan_ok_def)
qed

lemma scan_ok_iff:
  "scan_ok L e s d (LeaseIssued t)"
  "scan_ok L e s d (HostAccepted a) \<longleftrightarrow>
     (acc_lease_epoch (sa_acceptance a) = e \<and> acc_lease_digest (sa_acceptance a) = d \<longrightarrow> verify_acceptance L s a = Inr ())"
  "scan_ok L e s d (LeaseActivated v) \<longleftrightarrow>
     (act_lease_epoch (sv_activation v) = e \<and> act_lease_digest (sv_activation v) = d \<longrightarrow> verify_activation L s v = Inr ())"
  "scan_ok L e s d (LeaseClosed c) \<longleftrightarrow>
     (close_lease_epoch (sc_close c) = e \<and> close_lease_digest (sc_close c) = d \<longrightarrow> verify_close L s c = Inr ())"
  by (auto simp: scan_ok_def scan_record_def is_ok_rbind)

lemma scan_ok_lease: "sl_lease s = sl_lease t \<Longrightarrow> scan_ok L e s d r = scan_ok L e t d r"
  by (cases r) (simp_all add: scan_ok_iff verify_acceptance_def verify_activation_def verify_close_def)

lemma add_scan_fields:
  "hs_acceptances (add_scan e d r scan) = (case r of
     HostAccepted a \<Rightarrow>
       if acc_lease_epoch (sa_acceptance a) = e \<and> acc_lease_digest (sa_acceptance a) = d
       then bm_insert (env_id (sa_envelope a)) a (hs_acceptances scan) else hs_acceptances scan
   | _ \<Rightarrow> hs_acceptances scan)"
  "hs_activation_ids (add_scan e d r scan) = (case r of
     LeaseActivated v \<Rightarrow>
       if act_lease_epoch (sv_activation v) = e \<and> act_lease_digest (sv_activation v) = d
       then bs_insert (act_host_acceptance_envelope_id (sv_activation v)) (hs_activation_ids scan)
       else hs_activation_ids scan
   | _ \<Rightarrow> hs_activation_ids scan)"
  "hs_closed (add_scan e d r scan) \<longleftrightarrow> hs_closed scan \<or>
     (\<exists>c. r = LeaseClosed c \<and> close_lease_epoch (sc_close c) = e \<and> close_lease_digest (sc_close c) = d)"
  by (auto simp: add_scan_def split: DomeHostingRecordV1.splits)

lemma scan_acceptances:
  fixes records :: "DomeHostingRecordV1 list" and e d
  defines "m \<equiv> bm_get (hs_acceptances (fold (add_scan e d) records no_scan))"
  shows "(accepted_in e d (set records) a \<longrightarrow> m (env_id (sa_envelope a)) \<noteq> None) \<and>
    (m i = Some a \<longrightarrow> accepted_in e d (set records) a \<and> env_id (sa_envelope a) = i)"
  unfolding m_def
proof (induction records rule: rev_induct)
  case Nil
  then show ?case by (simp add: no_scan_def accepted_in_def)
next
  case (snoc r records)
  have "accepted_in e d (set (records @ [r])) a \<longleftrightarrow> accepted_in e d (set records) a \<or> r = HostAccepted a \<and>
      acc_lease_epoch (sa_acceptance a) = e \<and> acc_lease_digest (sa_acceptance a) = d"
    by (auto simp: accepted_in_def)
  note step = this
  show ?case
  proof (cases "\<exists>b. r = HostAccepted b \<and> acc_lease_epoch (sa_acceptance b) = e \<and> acc_lease_digest (sa_acceptance b) = d")
    case True
    then obtain b where "r = HostAccepted b" "acc_lease_epoch (sa_acceptance b) = e" "acc_lease_digest (sa_acceptance b) = d"
      by blast
    then have b: "accepted_in e d (set (records @ [r])) b" and r: "r = HostAccepted b"
      and eq: "hs_acceptances (add_scan e d r scan) = bm_insert (env_id (sa_envelope b)) b (hs_acceptances scan)" for scan
      by (auto simp: accepted_in_def add_scan_fields)
    have "accepted_in e d (set (records @ [r])) a \<longleftrightarrow> accepted_in e d (set records) a \<or> a = b"
      using step b r by (auto simp: accepted_in_def)
    with snoc b show ?thesis by (simp add: eq)
  next
    case False
    then have "hs_acceptances (add_scan e d r scan) = hs_acceptances scan" for scan
      by (auto simp: add_scan_fields split: DomeHostingRecordV1.split)
    with snoc False show ?thesis unfolding step by auto
  qed
qed

lemma scan_activations:
  "bs_ok (hs_activation_ids (fold (add_scan e d) records no_scan)) \<and>
   set (hs_activation_ids (fold (add_scan e d) records no_scan)) =
     {act_host_acceptance_envelope_id (sv_activation v) | v. activated_in e d (set records) v}"
proof (induction records rule: rev_induct)
  case Nil
  then show ?case by (simp add: no_scan_def activated_in_def bs_ok_def)
next
  case (snoc r records)
  have "activated_in e d (set (records @ [r])) v \<longleftrightarrow> activated_in e d (set records) v \<or> r = LeaseActivated v \<and>
      act_lease_epoch (sv_activation v) = e \<and> act_lease_digest (sv_activation v) = d" for v
    by (auto simp: activated_in_def)
  with snoc show ?case
    by (auto simp: add_scan_fields bs_ok_insert split: DomeHostingRecordV1.splits)
qed

lemma scan_closed: "hs_closed (fold (add_scan e d) records no_scan) \<longleftrightarrow> (\<exists>c. closed_in e d (set records) c)"
  by (induction records rule: rev_induct) (auto simp: no_scan_def closed_in_def add_scan_fields)

lemma find_accepted_Some:
  "find_accepted m ids = Some a \<Longrightarrow> \<exists>i \<in> set ids. bm_get m i = Some a"
  by (induction ids) (auto split: option.splits)

lemma find_accepted_None: "find_accepted m ids = None \<longleftrightarrow> (\<forall>i \<in> set ids. bm_get m i = None)"
  by (induction ids) (auto split: option.split)

lemma dom_bm_get: "dom (bm_get m) = fst ` set m"
  by (rule set_eqI) (metis bm_get_None_iff domIff)

lemma bm_last_greatest:
  assumes "bm_ok m" "k \<in> dom (bm_get m)"
  shows "k \<le> fst (last m)"
proof -
  have "x \<le> last xs" if "sorted xs" "x \<in> set xs" for x :: 'a and xs
    using that by (induction xs) auto
  moreover have "sorted (map fst m)" using assms(1) unfolding bm_ok_def by (simp add: strict_sorted_iff)
  moreover have "k \<in> set (map fst m)" using assms(2) by (simp add: dom_bm_get)
  ultimately have "k \<le> last (map fst m)" by blast
  moreover have "m \<noteq> []" using assms(2) by (auto simp: dom_bm_get)
  ultimately show ?thesis by (simp add: last_map)
qed

lemma no_scan_eq: "\<lparr>hs_acceptances = [], hs_activation_ids = [], hs_closed = False\<rparr> = no_scan"
  by (simp add: no_scan_def)

text \<open>
  The resolution once the records have been indexed: \<open>hosting_outcome\<close> is what the code returns for
  the leases of the latest epoch.
\<close>

definition newest_epoch :: "DomeInstanceManifestV1 \<Rightarrow> DomeHostingRecordV1 set \<Rightarrow> u64 \<Rightarrow> bool" where
  "newest_epoch inst R e \<longleftrightarrow> (\<exists>s. issued inst R s \<and> lease_epoch (sl_lease s) = e) \<and>
     (\<forall>s. issued inst R s \<longrightarrow> lease_epoch (sl_lease s) \<le> e)"

definition epoch_digests :: "hosting_lib \<Rightarrow> DomeInstanceManifestV1 \<Rightarrow> DomeHostingRecordV1 set \<Rightarrow> u64 \<Rightarrow> string set" where
  "epoch_digests L inst R e = {lease_digest L (sl_lease s) | s. issued inst R s \<and> lease_epoch (sl_lease s) = e}"

lemma index_last:
  assumes inv: "index_inv L inst records m" and "m \<noteq> []" and l: "last m = (e, leases)"
  shows "newest_epoch inst (set records) e" "leases = epoch_leases m e" "bm_ok leases"
    "set (map fst leases) = epoch_digests L inst (set records) e"
proof -
  have ok: "bm_ok m" and okl: "\<And>e. bm_ok (epoch_leases m e)"
    and ne: "\<And>e. e \<in> dom (bm_get m) \<longleftrightarrow> epoch_leases m e \<noteq> []"
    and dig: "\<And>e d. d \<in> dom (bm_get (epoch_leases m e)) \<longleftrightarrow>
       (\<exists>s. issued inst (set records) s \<and> lease_epoch (sl_lease s) = e \<and> lease_digest L (sl_lease s) = d)"
    using inv unfolding index_inv_def by blast+
  have mem: "(e, leases) \<in> set m" using l assms(2) by (metis last_in_set)
  then have get: "bm_get m e = Some leases" using bm_get_iff [OF ok] by simp
  then show el: "leases = epoch_leases m e" by (simp add: epoch_leases_def)
  show "bm_ok leases" unfolding el by (rule okl)
  have keys: "set (map fst xs) = dom (bm_get xs)" for xs :: "(string, SignedDomeHostingLeaseV1) btree_map"
    by (simp add: dom_bm_get)
  show "set (map fst leases) = epoch_digests L inst (set records) e"
    unfolding keys el epoch_digests_def by (rule set_eqI, unfold dig) auto
  have dom: "k \<in> dom (bm_get m) \<longleftrightarrow> (\<exists>s. issued inst (set records) s \<and> lease_epoch (sl_lease s) = k)" for k
  proof -
    have "k \<in> dom (bm_get m) \<longleftrightarrow> dom (bm_get (epoch_leases m k)) \<noteq> {}"
      unfolding ne keys [symmetric] by simp
    also have "\<dots> \<longleftrightarrow> (\<exists>s. issued inst (set records) s \<and> lease_epoch (sl_lease s) = k)" using dig by blast
    finally show ?thesis .
  qed
  have top: "k \<le> e" if "k \<in> dom (bm_get m)" for k
    using bm_last_greatest [OF ok that] l by simp
  show "newest_epoch inst (set records) e"
    unfolding newest_epoch_def using dom top mem get by (metis domI)
qed

lemma index_empty: "index_inv L inst records [] \<Longrightarrow> \<not> issued inst (set records) s"
proof
  assume inv: "index_inv L inst records []" and "issued inst (set records) s"
  then have "lease_digest L (sl_lease s) \<in> dom (bm_get (epoch_leases [] (lease_epoch (sl_lease s))))"
    unfolding index_inv_def by blast
  then show False by (simp add: epoch_leases_def dom_bm_get del: domIff)
qed


text \<open>All a hosted state rests on.\<close>

definition hosting_authority ::
    "hosting_lib \<Rightarrow> DomeInstanceManifestV1 \<Rightarrow> DomeHostingRecordV1 list \<Rightarrow> SignedDomeHostingLeaseV1 \<Rightarrow>
     SignedDomeHostingAcceptanceV1 \<Rightarrow> SignedDomeHostingActivationV1 \<Rightarrow> bool" where
  "hosting_authority L inst records s a v \<longleftrightarrow>
     LeaseIssued s \<in> set records \<and> verify_signed_dome_hosting_lease L s inst = Inr () \<and>
     HostAccepted a \<in> set records \<and> verify_acceptance L s a = Inr () \<and>
     LeaseActivated v \<in> set records \<and> verify_activation L s v = Inr () \<and>
     act_host_acceptance_envelope_id (sv_activation v) = env_id (sa_envelope a) \<and>
     (\<forall>c. LeaseClosed c \<in> set records \<longrightarrow> verify_close L s c \<noteq> Inr ()) \<and>
     (\<forall>t. LeaseIssued t \<in> set records \<longrightarrow> current_lease inst (sl_lease t) \<longrightarrow>
        lease_epoch (sl_lease t) \<le> lease_epoch (sl_lease s) \<and>
        (lease_epoch (sl_lease t) = lease_epoch (sl_lease s) \<longrightarrow>
           lease_digest L (sl_lease t) = lease_digest L (sl_lease s)))"

lemma bm_values_single:
  "length leases = 1 \<Longrightarrow> \<exists>d s. leases = [(d, s)] \<and> nth_opt (bm_values leases) 0 = Some s"
  by (cases leases) (auto simp: bm_values_def nth_opt_def)

lemma resolve_active:
  assumes r: "resolve_dome_hosting_state L inst records now hb = Inr st" and sess: "hst_session_id st \<noteq> None"
  obtains s a v where "hosting_authority L inst records s a v"
    "st = active_lease_state (sl_lease s) (acc_session_id (sa_acceptance a)) hb now"
    "now < lease_expires_at (sl_lease s)" "inst_status inst = Active" "inst_relationship_detach inst = None"
proof -
  let ?m = "fold (add_lease L inst) records []"
  obtain e leases where lm: "last ?m = (e, leases)" by (cases "last ?m")
  from r sess have act: "inst_status inst = Active" "inst_relationship_detach inst = None"
    and ok: "\<forall>r \<in> set records. lease_record_ok L inst r" and ne: "?m \<noteq> []" and one: "length leases = 1"
    by (auto simp: resolve_dome_hosting_state_def result_simps index_leases_eq lm hosting_closed_def split: if_splits)
  obtain d s where ls: "leases = [(d, s)]" "nth_opt (bm_values leases) 0 = Some s"
    using bm_values_single [OF one] by blast
  note il = index_last [OF index_inv_fold ne lm]
  have inv: "index_inv L inst records ?m" by (rule index_inv_fold)
  have "bm_get (epoch_leases ?m e) d = Some s" unfolding il(2) [symmetric] ls(1) by (simp add: bm_get_def)
  then have s: "issued inst (set records) s" "lease_epoch (sl_lease s) = e" "lease_digest L (sl_lease s) = d"
    using inv unfolding index_inv_def by blast+
  note lok = lease_record_ok_current [of L inst s]
  have ver: "verify_signed_dome_hosting_lease L s inst = Inr ()" and enc: "to_json (hl_lease L) (sl_lease s) \<noteq> None"
    using lok ok s(1) by (auto simp: issued_def)
  from r sess act ok ne one ls(2) s(3) enc obtain a
    where live: "now < lease_expires_at (sl_lease s)"
      and scan: "\<forall>r \<in> set records. scan_ok L e s d r" and open': "\<not> (\<exists>c. closed_in e d (set records) c)"
      and a: "find_accepted (hs_acceptances (fold (add_scan e d) records no_scan))
        (hs_activation_ids (fold (add_scan e d) records no_scan)) = Some a"
      and st: "st = active_lease_state (sl_lease s) (acc_session_id (sa_acceptance a)) hb now"
    unfolding resolve_dome_hosting_state_def
    by (auto simp: result_simps Let_def index_leases_eq lm no_scan_eq scan_records_eq scan_closed hosting_closed_def lease_state_def
        split: if_splits option.splits)
  from find_accepted_Some [OF a] obtain i where i: "i \<in> set (hs_activation_ids (fold (add_scan e d) records no_scan))"
      "bm_get (hs_acceptances (fold (add_scan e d) records no_scan)) i = Some a" by blast
  then have acc: "accepted_in e d (set records) a" "env_id (sa_envelope a) = i"
    using scan_acceptances by blast+
  obtain v where v: "activated_in e d (set records) v" "act_host_acceptance_envelope_id (sv_activation v) = i"
    using i(1) scan_activations [of e d records] by auto
  have "verify_close L s c \<noteq> Inr ()" if "LeaseClosed c \<in> set records" for c
  proof
    assume "verify_close L s c = Inr ()"
    then have "close_fits L (sl_lease s) (sc_close c)" by (rule close_rec.accepted_authentic)
    then have "closed_in e d (set records) c"
      using that s by (auto simp: close_fits_def closed_in_def result_simps)
    with open' show False by blast
  qed
  moreover have "lease_epoch (sl_lease t) \<le> e \<and> (lease_epoch (sl_lease t) = e \<longrightarrow> lease_digest L (sl_lease t) = d)"
    if "LeaseIssued t \<in> set records" "current_lease inst (sl_lease t)" for t
  proof -
    have t: "issued inst (set records) t" using that by (simp add: issued_def)
    have "epoch_digests L inst (set records) e = {d}" using il(4) ls(1) by simp
    then show ?thesis using t il(1) by (auto simp: newest_epoch_def epoch_digests_def)
  qed
  ultimately have "hosting_authority L inst records s a v"
    using s acc v scan ver by (auto simp: hosting_authority_def issued_def accepted_in_def activated_in_def scan_ok_iff)
  from that [OF this st live act] show ?thesis .
qed

section \<open>The hosting state as a function of the set of records\<close>

text \<open>
  The specification: which state a \<^emph>\<open>set\<close> of records stands for. The newest epoch decides; two
  leases in it are a split brain; an expired or closed lease closes the Dome; an acceptance counts
  once the owner has activated it, and among several the one with the least envelope id.
\<close>

definition handed_over ::
    "u64 \<Rightarrow> string \<Rightarrow> DomeHostingRecordV1 set \<Rightarrow> SignedDomeHostingAcceptanceV1 \<Rightarrow> bool" where
  "handed_over e d R a \<longleftrightarrow> accepted_in e d R a \<and>
     (\<exists>v. activated_in e d R v \<and> act_host_acceptance_envelope_id (sv_activation v) = env_id (sa_envelope a))"

definition split_brain_state :: "u64 \<Rightarrow> i64 option \<Rightarrow> DomeHostingStateV1" where
  "split_brain_state e hb = \<lparr>hst_kind = GracePeriod, hst_host = None, hst_lease_id = None, hst_lease_epoch = Some e,
     hst_lease_expires_at = None, hst_session_id = None, hst_reason = Some ''split_brain'', hst_last_heartbeat_at = hb\<rparr>"

definition lease_outcome ::
    "hosting_lib \<Rightarrow> DomeHostingRecordV1 set \<Rightarrow> i64 \<Rightarrow> i64 option \<Rightarrow> SignedDomeHostingLeaseV1 \<Rightarrow> DomeHostingStateV1 \<Rightarrow> bool" where
  "lease_outcome L R now hb s st \<longleftrightarrow> (let e = lease_epoch (sl_lease s); d = lease_digest L (sl_lease s) in
     if lease_expires_at (sl_lease s) \<le> now then st = hosting_closed ''lease_expired''
     else (\<forall>r \<in> R. scan_ok L e s d r) \<and>
       (if \<exists>c. closed_in e d R c then st = hosting_closed ''owner_closed''
        else if \<nexists>a. handed_over e d R a
        then st = lease_state (sl_lease s) Transferring None (Some ''awaiting_activation'') hb
        else \<exists>a. handed_over e d R a \<and>
          (\<forall>b. handed_over e d R b \<longrightarrow> env_id (sa_envelope a) \<le> env_id (sa_envelope b)) \<and>
          st = active_lease_state (sl_lease s) (acc_session_id (sa_acceptance a)) hb now))"

definition hosting_outcome ::
    "hosting_lib \<Rightarrow> DomeInstanceManifestV1 \<Rightarrow> DomeHostingRecordV1 set \<Rightarrow> i64 \<Rightarrow> i64 option \<Rightarrow> DomeHostingStateV1 \<Rightarrow> bool" where
  "hosting_outcome L inst R now hb st \<longleftrightarrow>
     validate_dome_instance_manifest inst = Inr () \<and>
     (if inst_status inst \<noteq> Active \<or> inst_relationship_detach inst \<noteq> None
      then st = hosting_closed ''instance_inactive''
      else (\<forall>r \<in> R. lease_record_ok L inst r) \<and>
        (if \<nexists>s. issued inst R s then st = hosting_closed ''no_lease''
         else \<exists>e. newest_epoch inst R e \<and>
           (if \<not> is_singleton (epoch_digests L inst R e) then st = split_brain_state e hb
            else \<exists>s. issued inst R s \<and> lease_epoch (sl_lease s) = e \<and> lease_outcome L R now hb s st)))"

text \<open>
  What collision resistance gives: among the records at hand, a lease digest stands for one lease and
  an envelope id for one acceptance.
\<close>

definition digests_bind :: "hosting_lib \<Rightarrow> DomeHostingRecordV1 set \<Rightarrow> bool" where
  "digests_bind L R \<longleftrightarrow>
     (\<forall>s t. LeaseIssued s \<in> R \<longrightarrow> LeaseIssued t \<in> R \<longrightarrow> lease_digest L (sl_lease s) = lease_digest L (sl_lease t) \<longrightarrow>
        sl_lease s = sl_lease t) \<and>
     (\<forall>a b. HostAccepted a \<in> R \<longrightarrow> HostAccepted b \<in> R \<longrightarrow> env_id (sa_envelope a) = env_id (sa_envelope b) \<longrightarrow>
        sa_acceptance a = sa_acceptance b)"

lemma newest_epoch_unique: "newest_epoch inst R e \<Longrightarrow> newest_epoch inst R e' \<Longrightarrow> e = e'"
  unfolding newest_epoch_def by (meson order_antisym)

lemma find_accepted_least:
  assumes "find_accepted m ids = Some a" "sorted ids" "\<And>i b. m' i \<Longrightarrow> i \<in> set ids \<and> bm_get m i \<noteq> None"
  shows "\<exists>i \<in> set ids. bm_get m i = Some a \<and> (\<forall>j. m' j \<longrightarrow> i \<le> j)"
  using assms
proof (induction ids)
  case (Cons x ids)
  show ?case
  proof (cases "bm_get m x")
    case (Some b)
    with Cons.prems show ?thesis by auto
  next
    case None
    have "m' i \<Longrightarrow> i \<in> set ids \<and> bm_get m i \<noteq> None" for i
      using Cons.prems(3) [of i] None by auto
    with Cons.IH Cons.prems(1,2) None show ?thesis by auto
  qed
qed simp

lemma scan_handed_over:
  assumes "find_accepted (hs_acceptances (fold (add_scan e d) records no_scan))
      (hs_activation_ids (fold (add_scan e d) records no_scan)) = found"
  shows "found = None \<longleftrightarrow> (\<nexists>a. handed_over e d (set records) a)"
    and "found = Some a \<Longrightarrow> handed_over e d (set records) a \<and>
      (\<forall>b. handed_over e d (set records) b \<longrightarrow> env_id (sa_envelope a) \<le> env_id (sa_envelope b))"
proof -
  let ?m = "hs_acceptances (fold (add_scan e d) records no_scan)"
    and ?ids = "hs_activation_ids (fold (add_scan e d) records no_scan)"
  note acc = scan_acceptances [of e d records]
  have ids: "i \<in> set ?ids \<longleftrightarrow> (\<exists>v. activated_in e d (set records) v \<and> act_host_acceptance_envelope_id (sv_activation v) = i)" for i
    using scan_activations [of e d records] by auto
  have srt: "sorted ?ids" using scan_activations [of e d records] by (simp add: bs_ok_distinct)
  have in_ids: "env_id (sa_envelope b) \<in> set ?ids \<and> bm_get ?m (env_id (sa_envelope b)) \<noteq> None"
    if "handed_over e d (set records) b" for b
    using that acc [of b] unfolding handed_over_def ids by blast
  have ho: "handed_over e d (set records) b" if "i \<in> set ?ids" "bm_get ?m i = Some b" for i b
  proof -
    have "accepted_in e d (set records) b" "env_id (sa_envelope b) = i" using acc [of b i] that(2) by simp_all
    with that(1) show ?thesis unfolding ids handed_over_def by simp
  qed
  show "found = None \<longleftrightarrow> (\<nexists>a. handed_over e d (set records) a)"
    unfolding assms [symmetric] find_accepted_None using in_ids ho by (metis not_None_eq)
  assume "found = Some a"
  then have fs: "find_accepted ?m ?ids = Some a" using assms by simp
  from find_accepted_least [OF this srt, of "\<lambda>j. \<exists>b. handed_over e d (set records) b \<and> env_id (sa_envelope b) = j"] in_ids
  obtain i where i: "i \<in> set ?ids" "bm_get ?m i = Some a"
    "\<And>j. \<exists>b. handed_over e d (set records) b \<and> env_id (sa_envelope b) = j \<Longrightarrow> i \<le> j" by blast
  moreover have "env_id (sa_envelope a) = i" using acc [of a i] i(2) by blast
  ultimately show "handed_over e d (set records) a \<and>
      (\<forall>b. handed_over e d (set records) b \<longrightarrow> env_id (sa_envelope a) \<le> env_id (sa_envelope b))"
    using ho by blast
qed

text \<open>The part of the resolution that follows the choice of the lease.\<close>

definition resolve_with_lease ::
    "hosting_lib \<Rightarrow> DomeHostingRecordV1 list \<Rightarrow> i64 \<Rightarrow> i64 option \<Rightarrow> u64 \<Rightarrow> SignedDomeHostingLeaseV1 \<Rightarrow> DomeHostingStateV1 result" where
  "resolve_with_lease L records now hb epoch signed =
     rbind (dome_hosting_lease_digest L (sl_lease signed)) (\<lambda>digest.
     if lease_expires_at (sl_lease signed) \<le> now then Inr (hosting_closed ''lease_expired'') else
     rbind (try_fold (scan_record L epoch signed digest) no_scan records) (\<lambda>scan.
     if hs_closed scan then Inr (hosting_closed ''owner_closed'') else
     case find_accepted (hs_acceptances scan) (hs_activation_ids scan) of
       None \<Rightarrow> Inr (lease_state (sl_lease signed) Transferring None (Some ''awaiting_activation'') hb)
     | Some acceptance \<Rightarrow>
         Inr (active_lease_state (sl_lease signed) (acc_session_id (sa_acceptance acceptance)) hb now)))"

lemma lease_outcome_cong: "sl_lease s = sl_lease t \<Longrightarrow> lease_outcome L R now hb s st = lease_outcome L R now hb t st"
proof -
  assume eq: "sl_lease s = sl_lease t"
  have "scan_ok L e s d = scan_ok L e t d" for e d using scan_ok_lease [OF eq] by (simp add: fun_eq_iff)
  then show ?thesis unfolding lease_outcome_def Let_def eq by (simp only:)
qed

lemma resolve_with_lease_iff:
  assumes bind: "digests_bind L (set records)" and enc: "to_json (hl_lease L) (sl_lease s) \<noteq> None"
    and e: "e = lease_epoch (sl_lease s)"
  shows "resolve_with_lease L records now hb e s = Inr st \<longleftrightarrow> lease_outcome L (set records) now hb s st"
proof -
  let ?d = "lease_digest L (sl_lease s)"
  define found where "found = find_accepted (hs_acceptances (fold (add_scan e ?d) records no_scan))
    (hs_activation_ids (fold (add_scan e ?d) records no_scan))"
  note fo = scan_handed_over [OF found_def [symmetric]]
  have same: "acc_session_id (sa_acceptance a) = acc_session_id (sa_acceptance b)"
    if "handed_over e ?d (set records) a" "handed_over e ?d (set records) b"
      "env_id (sa_envelope a) = env_id (sa_envelope b)" for a b
  proof -
    have "HostAccepted a \<in> set records" "HostAccepted b \<in> set records"
      using that(1,2) by (simp_all add: handed_over_def accepted_in_def)
    with that(3) bind have "sa_acceptance a = sa_acceptance b" unfolding digests_bind_def by blast
    then show ?thesis by simp
  qed
  have dig: "dome_hosting_lease_digest L (sl_lease s) = Inr ?d" using enc by (simp add: result_simps)
  show ?thesis
  proof (cases found)
    case None
    then have "\<not> (\<exists>a. handed_over e ?d (set records) a)" using fo(1) by simp
    then show ?thesis using None
      unfolding resolve_with_lease_def lease_outcome_def dig Let_def e [symmetric] found_def
      by (auto simp: result_simps scan_records_eq scan_closed)
  next
    case (Some a)
    note a = fo(2) [OF Some]
    have "(\<exists>b. handed_over e ?d (set records) b \<and>
        (\<forall>b'. handed_over e ?d (set records) b' \<longrightarrow> env_id (sa_envelope b) \<le> env_id (sa_envelope b')) \<and>
        st = active_lease_state (sl_lease s) (acc_session_id (sa_acceptance b)) hb now) \<longleftrightarrow>
      st = active_lease_state (sl_lease s) (acc_session_id (sa_acceptance a)) hb now"
      using a same by (metis order_antisym)
    moreover have "\<exists>a. handed_over e ?d (set records) a" using a by blast
    ultimately show ?thesis using Some
      unfolding resolve_with_lease_def lease_outcome_def dig Let_def e [symmetric] found_def
      by (auto simp: result_simps scan_records_eq scan_closed)
  qed
qed

lemma resolve_hosting_eq:
  "resolve_dome_hosting_state L inst records now hb =
     rbind (validate_dome_instance_manifest inst) (\<lambda>_.
     if inst_status inst \<noteq> Active \<or> inst_relationship_detach inst \<noteq> None
     then Inr (hosting_closed ''instance_inactive'') else
     rbind (try_fold (index_lease L inst) [] records) (\<lambda>m.
     if m = [] then Inr (hosting_closed ''no_lease'') else
     if length (snd (last m)) \<noteq> 1 then Inr (split_brain_state (fst (last m)) hb) else
     rbind (expect ''one lease was checked above'' (nth_opt (bm_values (snd (last m))) 0)) (\<lambda>s.
     resolve_with_lease L records now hb (fst (last m)) s)))"
  unfolding resolve_dome_hosting_state_def resolve_with_lease_def split_brain_state_def no_scan_eq Let_def split_def ..

lemma newest_lease_iff:
  assumes bind: "digests_bind L (set records)" and ok: "\<forall>r \<in> set records. lease_record_ok L inst r"
    and s: "issued inst (set records) s" "lease_epoch (sl_lease s) = e"
    and sing: "epoch_digests L inst (set records) e = {lease_digest L (sl_lease s)}"
  shows "resolve_with_lease L records now hb e s = Inr st \<longleftrightarrow>
    (\<exists>t. issued inst (set records) t \<and> lease_epoch (sl_lease t) = e \<and> lease_outcome L (set records) now hb t st)"
proof -
  have "to_json (hl_lease L) (sl_lease s) \<noteq> None"
    using lease_record_ok_current(2) [of L inst s] ok s(1) by (auto simp: issued_def)
  note iff = resolve_with_lease_iff [OF bind this s(2) [symmetric]]
  have "sl_lease t = sl_lease s" if "issued inst (set records) t" "lease_epoch (sl_lease t) = e" for t
  proof -
    have "lease_digest L (sl_lease t) = lease_digest L (sl_lease s)" using that sing by (auto simp: epoch_digests_def)
    then show ?thesis using bind that(1) s(1) unfolding digests_bind_def issued_def by blast
  qed
  then show ?thesis unfolding iff using s lease_outcome_cong by metis
qed

lemma resolve_hosting_iff:
  assumes "digests_bind L (set records)"
  shows "resolve_dome_hosting_state L inst records now hb = Inr st \<longleftrightarrow> hosting_outcome L inst (set records) now hb st"
proof -
  let ?R = "set records" and ?m = "fold (add_lease L inst) records []"
  have inv: "index_inv L inst records ?m" by (rule index_inv_fold)
  consider (early) "inst_status inst \<noteq> Active \<or> inst_relationship_detach inst \<noteq> None \<or> \<not> (\<forall>r \<in> ?R. lease_record_ok L inst r)"
    | (live) "inst_status inst = Active" "inst_relationship_detach inst = None" "\<forall>r \<in> ?R. lease_record_ok L inst r"
    by blast
  then show ?thesis
  proof cases
    case early
    then show ?thesis by (auto simp: resolve_dome_hosting_state_def hosting_outcome_def result_simps index_leases_eq)
  next
    case live
    show ?thesis
    proof (cases "?m = []")
      case True
      then have "\<nexists>s. issued inst ?R s" using index_empty inv by metis
      with live True show ?thesis
        by (auto simp: resolve_dome_hosting_state_def hosting_outcome_def result_simps index_leases_eq)
    next
      case ne: False
      obtain e leases where lm: "last ?m = (e, leases)" by (cases "last ?m")
      note il = index_last [OF inv ne lm]
      have some: "\<exists>s. issued inst ?R s" using il(1) by (auto simp: newest_epoch_def)
      have newest: "newest_epoch inst ?R e' \<longleftrightarrow> e' = e" for e' using il(1) newest_epoch_unique by blast
      have "card (epoch_digests L inst ?R e) = length leases"
        unfolding il(4) [symmetric] using bm_ok_distinct [OF il(3)] by (metis distinct_card length_map)
      then have n1: "is_singleton (epoch_digests L inst ?R e) \<longleftrightarrow> length leases = 1"
        by (auto simp: is_singleton_altdef)
      show ?thesis
      proof (cases "length leases = 1")
        case False
        with live ne some newest n1 lm show ?thesis
          by (auto simp: resolve_hosting_eq hosting_outcome_def result_simps index_leases_eq)
      next
        case True
        then obtain d s where ls: "leases = [(d, s)]" "nth_opt (bm_values leases) 0 = Some s"
          using bm_values_single by blast
        have "bm_get (epoch_leases ?m e) d = Some s" unfolding il(2) [symmetric] ls(1) by (simp add: bm_get_def)
        then have s: "issued inst ?R s" "lease_epoch (sl_lease s) = e" "lease_digest L (sl_lease s) = d"
          using inv unfolding index_inv_def by blast+
        have "epoch_digests L inst ?R e = {lease_digest L (sl_lease s)}" using il(4) ls(1) s(3) by simp
        note new = newest_lease_iff [OF assms live(3) s(1,2) this]
        show ?thesis
          using live ne lm ls(2) True some newest n1
          by (auto simp: resolve_hosting_eq hosting_outcome_def result_simps index_leases_eq new)
      qed
    qed
  qed
qed

text \<open>
  C3. The hosting state is a function of the set of records: resolving a list of records returns
  exactly the state the specification gives for their set, so devices that have received the same
  records agree on who hosts a Dome, in whatever order and however often the records arrived.
\<close>

theorem hosting_state_refines_outcome:
  assumes "digests_bind L (set records)"
  shows "resolve_dome_hosting_state L inst records now hb = Inr st \<longleftrightarrow> hosting_outcome L inst (set records) now hb st"
  using assms by (rule resolve_hosting_iff)

section \<open>Authority, handover and time\<close>

lemma hosting_state_fields [simp]:
  "hst_kind (hosting_closed r) = HostingClosed" "hst_kind (lease_state l k i rs h) = k"
  "hst_session_id (lease_state l k i rs h) = i" "hst_host (lease_state l k i rs h) = Some (lease_host l)"
  "hst_session_id (active_lease_state l sid h now) = Some sid" "hst_host (active_lease_state l sid h now) = Some (lease_host l)"
  by (simp_all add: hosting_closed_def lease_state_def active_lease_state_def split: DomeHostLivenessV1.split)

text \<open>
  C4. A hosted Dome has its owner's word and its host's: when the resolved state says a Dome is
  hosted, the records hold a lease for the current instance signed by the instance's owner, an
  acceptance signed by the host the lease names, and an activation of exactly that acceptance signed
  by the owner; no authentic close of the lease is present, no current lease has a later epoch, and
  the lease has not expired.
\<close>

theorem hosted_state_authorised:
  assumes "resolve_dome_hosting_state L inst records now hb = Inr st"
    and "hst_kind st = OwnerHosted \<or> hst_kind st = CommunityNodeHosted"
  shows "\<exists>s a v. hosting_authority L inst records s a v \<and>
    verify (hl_crypto L) (sl_envelope s) = Inr () \<and> env_pubkey (sl_envelope s) = inst_owner_pubkey inst \<and>
    verify (hl_crypto L) (sa_envelope a) = Inr () \<and> env_pubkey (sa_envelope a) = signing_pubkey (lease_host (sl_lease s)) \<and>
    verify (hl_crypto L) (sv_envelope v) = Inr () \<and> env_pubkey (sv_envelope v) = inst_owner_pubkey inst \<and>
    now < lease_expires_at (sl_lease s) \<and> hst_host st = Some (lease_host (sl_lease s)) \<and>
    hst_session_id st = Some (acc_session_id (sa_acceptance a))"
proof -
  have "hst_session_id st \<noteq> None"
    using assms
    by (auto simp: resolve_dome_hosting_state_def result_simps Let_def split: if_splits prod.splits option.splits)
  from resolve_active [OF assms(1) this] obtain s a v where auth: "hosting_authority L inst records s a v"
    and st: "st = active_lease_state (sl_lease s) (acc_session_id (sa_acceptance a)) hb now"
    and live: "now < lease_expires_at (sl_lease s)" .
  have ls: "verify_signed_dome_hosting_lease L s inst = Inr ()" and va: "verify_acceptance L s a = Inr ()"
    and vv: "verify_activation L s v = Inr ()"
    using auth by (simp_all add: hosting_authority_def)
  note lease = lease_rec.accepted_authentic [OF ls] and acc = acc_rec.accepted_authentic [OF va]
    and act = act_rec.accepted_authentic [OF vv]
  have own: "lease_owner_pubkey (sl_lease s) = inst_owner_pubkey inst"
    using lease(4) by (auto simp: lease_fits_def validate_dome_hosting_lease_def result_simps)
  have "hst_host st = Some (lease_host (sl_lease s)) \<and> hst_session_id st = Some (acc_session_id (sa_acceptance a))"
    by (simp add: st)
  with auth lease acc act own live show ?thesis
    by (intro exI [of _ s] exI [of _ a] exI [of _ v]) simp
qed

text \<open>What the age of the last heartbeat makes of an active lease.\<close>

lemma sat_i64_gt: "i64_min \<le> c \<Longrightarrow> c < i64_max \<Longrightarrow> c < sat_i64 x \<longleftrightarrow> c < x"
  by (auto simp: sat_i64_def)

lemma active_lease_state_fields:
  "hst_host (active_lease_state l sid hb now) = Some (lease_host l)" "hst_lease_id (active_lease_state l sid hb now) = Some (lease_lease_id l)"
  "hst_lease_epoch (active_lease_state l sid hb now) = Some (lease_epoch l)"
  "hst_lease_expires_at (active_lease_state l sid hb now) = Some (lease_expires_at l)"
  "hst_session_id (active_lease_state l sid hb now) = Some sid" "hst_last_heartbeat_at (active_lease_state l sid hb now) = hb"
  by (simp_all add: active_lease_state_def lease_state_def split: DomeHostLivenessV1.split)

lemma active_lease_state_kind:
  "hst_kind (active_lease_state l sid hb now) = (case hb of
      None \<Rightarrow> GracePeriod
    | Some h \<Rightarrow> if now - h > 15000 then HostingClosed else if now - h > 5000 then GracePeriod
        else (case lease_host l of OwnerDevice _ _ \<Rightarrow> OwnerHosted | CommunityNode _ _ \<Rightarrow> CommunityNodeHosted))"
  by (simp add: active_lease_state_def lease_state_def resolve_dome_host_liveness_def Let_def sat_i64_gt
      DOME_HOSTING_HEARTBEAT_GRACE_MILLIS_def DOME_HOST_HEARTBEAT_INTERVAL_MILLIS_def split: option.split)

text \<open>
  C37. The handover works: a lease that fits the instance, built by the owner, accepted by the host it names and
  activated by the owner, gives the Dome that host and the session the host chose until the lease expires, in
  whatever order the three records arrive. Until then the Dome is hosted, by the owner's device or the Community Node
  of the lease, exactly while a heartbeat at most five seconds old is known; it is in its grace period when none is known
  or the last is at most fifteen seconds old, and closed when it is older.
\<close>

theorem handover_hosts:
  assumes fit: "validate_dome_hosting_lease lease inst = Inr ()"
    and lease: "build_signed_dome_hosting_lease L c1 owner lease = Inr s"
    and acc: "accept_dome_hosting_lease L c2 host s sid t1 = Inr a"
    and act: "activate_dome_hosting_lease L c3 owner s a t2 = Inr v"
    and lib: "schnorr_correct (hl_crypto L)" "codec_round_trip (hl_lease L) lease"
      "codec_round_trip (hl_acceptance L) (sa_acceptance a)" "codec_round_trip (hl_activation L) (sv_activation v)"
      "trim (env_id (sa_envelope a)) \<noteq> []"
    and now: "now < lease_expires_at lease" and set: "set records = {LeaseIssued s, HostAccepted a, LeaseActivated v}"
  shows "\<exists>st. resolve_dome_hosting_state L inst records now hb = Inr st \<and>
    hst_host st = Some (lease_host lease) \<and> hst_session_id st = Some sid \<and> hst_lease_id st = Some (lease_lease_id lease) \<and>
    hst_lease_epoch st = Some (lease_epoch lease) \<and> hst_lease_expires_at st = Some (lease_expires_at lease) \<and>
    hst_kind st = (case hb of
        None \<Rightarrow> GracePeriod
      | Some h \<Rightarrow> if now - h > 15000 then HostingClosed else if now - h > 5000 then GracePeriod
          else (case lease_host lease of OwnerDevice _ _ \<Rightarrow> OwnerHosted | CommunityNode _ _ \<Rightarrow> CommunityNodeHosted))"
proof -
  have sl: "sl_lease s = lease" using lease by (auto simp: builder_defs result_simps)
  have enc: "to_json (hl_lease L) lease \<noteq> None" using lib(2) by (auto simp: codec_round_trip_def)
  let ?d = "lease_digest L lease" and ?e = "lease_epoch lease"
  have a: "acceptance_fits L lease (sa_acceptance a)" "acc_session_id (sa_acceptance a) = sid"
    using acc enc by (auto simp: builder_defs result_simps Let_def sl acceptance_fits_def)
  have v: "activation_fits L lease (sv_activation v)"
    "act_host_acceptance_envelope_id (sv_activation v) = env_id (sa_envelope a)"
    using act enc lib(5) a by (auto simp: builder_defs result_simps Let_def sl activation_fits_def acceptance_fits_def)
  have vs: "verify_signed_dome_hosting_lease L s inst = Inr ()"
    by (rule lease_rec.built_accepted) (use lease fit lib sl in \<open>auto simp: lease_fits_def\<close>)
  have va: "verify_acceptance L s a = Inr ()"
    by (rule acc_rec.built_accepted) (use acc a lib sl in auto)
  have vv: "verify_activation L s v = Inr ()"
    by (rule act_rec.built_accepted) (use act v lib sl in auto)
  have cur: "current_lease inst lease" and inst: "validate_dome_instance_manifest inst = Inr ()"
    "inst_status inst = Active" "inst_relationship_detach inst = None"
    using fit by (auto simp: validate_dome_hosting_lease_def current_lease_def result_simps split: if_splits)
  have keys: "acc_lease_epoch (sa_acceptance a) = ?e" "acc_lease_digest (sa_acceptance a) = ?d"
    "act_lease_epoch (sv_activation v) = ?e" "act_lease_digest (sv_activation v) = ?d"
    using a v enc by (auto simp: acceptance_fits_def activation_fits_def result_simps)
  have ok: "\<forall>r \<in> set records. lease_record_ok L inst r"
    using vs cur enc by (auto simp: set lease_record_ok_def index_lease_def sl current_lease_def Let_def is_ok_rbind result_simps)
  have iss: "issued inst (set records) t \<longleftrightarrow> t = s" for t using cur by (auto simp: issued_def set sl)
  have ho: "handed_over ?e ?d (set records) b \<longleftrightarrow> b = a" for b
    using keys v(2) by (auto simp: handed_over_def accepted_in_def activated_in_def set)
  have "digests_bind L (set records)" by (auto simp: digests_bind_def set)
  moreover have "lease_outcome L (set records) now hb s (active_lease_state lease sid hb now)"
    using now va vv ho a(2) by (auto simp: lease_outcome_def Let_def sl set scan_ok_iff closed_in_def)
  moreover have "newest_epoch inst (set records) ?e" "is_singleton (epoch_digests L inst (set records) ?e)"
    by (auto simp: newest_epoch_def epoch_digests_def iss sl is_singleton_def)
  ultimately have "resolve_dome_hosting_state L inst records now hb = Inr (active_lease_state lease sid hb now)"
    using inst ok sl iss by (subst resolve_hosting_iff) (auto simp: hosting_outcome_def)
  then show ?thesis by (simp add: active_lease_state_fields active_lease_state_kind)
qed

text \<open>Time enters the resolution through the expiry and the age of the last heartbeat only.\<close>

lemma liveness_monotone:
  assumes "now \<le> now'" "resolve_dome_host_liveness hb now = LivenessClosed"
  shows "resolve_dome_host_liveness hb now' = LivenessClosed"
proof (cases hb)
  case (Some h)
  have "sat_i64 (now - h) \<le> sat_i64 (now' - h)" using assms(1) by (intro sat_i64_mono) simp
  with assms(2) Some show ?thesis by (auto simp: resolve_dome_host_liveness_def Let_def split: if_splits)
qed (use assms(2) in \<open>simp add: resolve_dome_host_liveness_def\<close>)

lemma resolve_with_lease_closed:
  assumes "resolve_with_lease L records now hb e s = Inr st" "hst_kind st = HostingClosed" "now \<le> now'"
  shows "\<exists>st'. resolve_with_lease L records now' hb e s = Inr st' \<and> hst_kind st' = HostingClosed"
proof -
  obtain d where d: "dome_hosting_lease_digest L (sl_lease s) = Inr d"
    using assms(1) by (auto simp: resolve_with_lease_def result_simps)
  show ?thesis
  proof (cases "lease_expires_at (sl_lease s) \<le> now'")
    case True
    then show ?thesis by (simp add: resolve_with_lease_def d)
  next
    case False
    with assms(3) have "\<not> lease_expires_at (sl_lease s) \<le> now" by simp
    with assms(1,2) obtain scan where sc: "try_fold (scan_record L e s d) no_scan records = Inr scan"
      and r: "hs_closed scan \<or> (\<exists>a. find_accepted (hs_acceptances scan) (hs_activation_ids scan) = Some a \<and>
        hst_kind (active_lease_state (sl_lease s) (acc_session_id (sa_acceptance a)) hb now) = HostingClosed)"
      by (auto simp: resolve_with_lease_def d result_simps split: if_splits option.splits)
    have "hst_kind (active_lease_state l i hb now') = HostingClosed"
      if "hst_kind (active_lease_state l i hb now) = HostingClosed" for l i
      using that liveness_monotone [OF assms(3), of hb]
      by (auto simp: active_lease_state_def split: DomeHostLivenessV1.splits DomeHostTargetV1.splits)
    with False sc r show ?thesis by (auto simp: resolve_with_lease_def d)
  qed
qed

text \<open>
  Closed stays closed: without new records or heartbeats, a Dome that resolves as closed at some
  moment resolves as closed at every later one, so no device revives a host merely by waiting.
\<close>

lemma closed_hosting_is_final:
  assumes "resolve_dome_hosting_state L inst records now hb = Inr st" "hst_kind st = HostingClosed" "now \<le> now'"
  shows "\<exists>st'. resolve_dome_hosting_state L inst records now' hb = Inr st' \<and> hst_kind st' = HostingClosed"
proof -
  have v: "validate_dome_instance_manifest inst = Inr ()" using assms(1) by (auto simp: resolve_hosting_eq result_simps)
  show ?thesis
  proof (cases "inst_status inst = Active \<and> inst_relationship_detach inst = None")
    case True
    then obtain m where m: "try_fold (index_lease L inst) [] records = Inr m"
      using assms(1) v by (auto simp: resolve_hosting_eq result_simps)
    show ?thesis
    proof (cases "m = []")
      case False
      from assms(1,2) v True m False obtain s where n: "length (snd (last m)) = 1"
        and s: "nth_opt (bm_values (snd (last m))) 0 = Some s"
        and r: "resolve_with_lease L records now hb (fst (last m)) s = Inr st"
        by (auto simp: resolve_hosting_eq result_simps split_brain_state_def split: if_splits)
      from resolve_with_lease_closed [OF r assms(2,3)] v True m False n s show ?thesis
        by (simp add: resolve_hosting_eq result_simps)
    qed (use v True m in \<open>simp add: resolve_hosting_eq\<close>)
  qed (use v in \<open>auto simp: resolve_hosting_eq\<close>)
qed

text \<open>
  A lease has a bounded life, if it was issued after the epoch: an accepted lease with
  non-negative 64-bit times runs for at most thirty days.
\<close>

theorem lease_lifetime_bounded:
  assumes "validate_dome_hosting_lease lease inst = Inr ()"
    and "0 \<le> lease_issued_at lease" "is_i64 (lease_expires_at lease)"
  shows "lease_issued_at lease < lease_expires_at lease \<and>
    lease_expires_at lease - lease_issued_at lease \<le> 30 * 24 * 60 * 60 * 1000"
proof -
  have r: "lease_issued_at lease < lease_expires_at lease"
    "wrap_i64 (lease_expires_at lease - lease_issued_at lease) \<le> DOME_HOSTING_MAX_LEASE_MILLIS"
    using assms(1) by (auto simp: validate_dome_hosting_lease_def result_simps split: if_splits)
  moreover have "is_i64 (lease_expires_at lease - lease_issued_at lease)"
    using r(1) assms(2,3) by (auto simp: is_i64_def)
  ultimately show ?thesis by (simp add: wrap_i64_id DOME_HOSTING_MAX_LEASE_MILLIS_def)
qed

section \<open>A handover, evaluated\<close>

definition sample_lease :: DomeHostingLeaseV1 where
  "sample_lease = \<lparr>lease_lease_id = ''l'', lease_spatial_context = ContextTopic ''t'', lease_instance_id = ''a'',
     lease_instance_generation = 1, lease_owner_pubkey = ''alice'', lease_host = OwnerDevice ''e'' ''bob'',
     lease_manifest_blob_hash = ''h'', lease_manifest_version = 1, lease_epoch = 1, lease_issued_at = 0,
     lease_expires_at = 9000\<rparr>"

definition sample_acceptance :: DomeHostingAcceptanceV1 where
  "sample_acceptance = \<lparr>acc_lease_id = ''l'', acc_lease_digest = ''{}'', acc_instance_id = ''a'', acc_instance_generation = 1,
     acc_lease_epoch = 1, acc_session_id = ''s'', acc_accepted_at = 10\<rparr>"

definition sample_signed_lease :: SignedDomeHostingLeaseV1 where
  "sample_signed_lease = \<lparr>sl_lease = sample_lease,
     sl_envelope = projr (sign_envelope_json sample_crypto (Some 1) (sample_codec sample_lease) \<lparr>secret_key = ''alice''\<rparr> LEASE_KIND
       (hosting_tags ''a'' 1 ''l'') sample_lease)\<rparr>"

definition sample_signed_acceptance :: SignedDomeHostingAcceptanceV1 where
  "sample_signed_acceptance = \<lparr>sa_acceptance = sample_acceptance,
     sa_envelope = projr (sign_envelope_json sample_crypto (Some 2) (sample_codec sample_acceptance) \<lparr>secret_key = ''bob''\<rparr>
       ACCEPTANCE_KIND (hosting_tags ''a'' 1 ''l'') sample_acceptance)\<rparr>"

definition sample_activation :: DomeHostingActivationV1 where
  "sample_activation = \<lparr>act_lease_id = ''l'', act_lease_digest = ''{}'', act_lease_epoch = 1,
     act_host_acceptance_envelope_id = env_id (sa_envelope sample_signed_acceptance), act_activated_at = 20\<rparr>"

definition sample_signed_activation :: SignedDomeHostingActivationV1 where
  "sample_signed_activation = \<lparr>sv_activation = sample_activation,
     sv_envelope = projr (sign_envelope_json sample_crypto (Some 3) (sample_codec sample_activation) \<lparr>secret_key = ''alice''\<rparr>
       ACTIVATION_KIND (hosting_tags ''a'' 1 ''l'') sample_activation)\<rparr>"

definition sample_close :: DomeHostingCloseV1 where
  "sample_close = \<lparr>close_lease_id = ''l'', close_lease_digest = ''{}'', close_lease_epoch = 1, close_closed_at = 30\<rparr>"

definition sample_candidate :: DomeLayoutCandidateV1 where
  "sample_candidate = \<lparr>lc_operation_id = ''o'', lc_instance_id = ''a'', lc_instance_generation = 1, lc_lease_epoch = 1,
     lc_session_id = ''s'', lc_host_pubkey = ''bob'', lc_base_manifest_revision = 1, lc_snapshot_sequence = 1,
     lc_captured_at = 40, lc_persistent_props = []\<rparr>"

definition sample_commit :: DomeLayoutCommitV1 where
  "sample_commit = \<lparr>lm_operation_id = ''o'', lm_instance_id = ''a'', lm_instance_generation = 1, lm_owner_pubkey = ''alice'',
     lm_base_manifest_revision = 1, lm_next_manifest_revision = 2, lm_candidate_digest = ''{}'',
     lm_manifest_blob_hash = ''h2'', lm_committed_at = 50\<rparr>"

definition sample_input :: DomeSessionInputV1 where
  "sample_input = \<lparr>in_input_id = ''i'', in_instance_id = ''a'', in_instance_generation = 1, in_lease_epoch = 1,
     in_session_id = ''s'', in_participant_pubkey = ''carol'', in_sequence = 1, in_sent_at = 30, in_input = InputKeepAlive\<rparr>"

definition sample_snapshot :: DomePhysicsSnapshotV1 where
  "sample_snapshot = \<lparr>snap_instance_id = ''a'', snap_instance_generation = 1, snap_lease_epoch = 1, snap_session_id = ''s'',
     snap_host_pubkey = ''bob'', snap_sequence = 1, snap_simulated_at = 30, snap_sleeping = False, snap_bodies = []\<rparr>"

definition sample_heartbeat :: DomeHostHeartbeatV1 where
  "sample_heartbeat = \<lparr>hb_instance_id = ''a'', hb_instance_generation = 1, hb_lease_epoch = 1, hb_session_id = ''s'',
     hb_host_pubkey = ''bob'', hb_participants = 1, hb_sleeping = False, hb_sequence = 1, hb_sent_at = 30\<rparr>"

definition sample_hosting :: hosting_lib where
  "sample_hosting = \<lparr>hl_crypto = sample_crypto, hl_blake3_hex = (\<lambda>m. m), hl_lease = sample_codec sample_lease,
     hl_acceptance = sample_codec sample_acceptance, hl_activation = sample_codec sample_activation,
     hl_close = sample_codec sample_close, hl_input = sample_codec sample_input, hl_snapshot = sample_codec sample_snapshot,
     hl_heartbeat = sample_codec sample_heartbeat, hl_candidate = sample_codec sample_candidate,
     hl_commit = sample_codec sample_commit\<rparr>"

definition sample_handover :: "DomeHostingRecordV1 list" where
  "sample_handover = [LeaseActivated sample_signed_activation, HostAccepted sample_signed_acceptance, LeaseIssued sample_signed_lease]"

definition sample_hosted :: DomeHostingStateV1 where
  "sample_hosted = active_lease_state sample_lease ''s'' (Some 900) 1000"

lemma sample_handover_resolves:
  "resolve_dome_hosting_state sample_hosting (sample_instance ''a'' ''alice'') sample_handover 1000 (Some 900) = Inr sample_hosted"
  by code_simp

lemma sample_handover_expires:
  "resolve_dome_hosting_state sample_hosting (sample_instance ''a'' ''alice'') sample_handover 9000 (Some 900) =
     Inr (hosting_closed ''lease_expired'')"
  by code_simp

lemma sample_lease_builds:
  "build_signed_dome_hosting_lease sample_hosting (Some 1) \<lparr>secret_key = ''alice''\<rparr> sample_lease = Inr sample_signed_lease"
  by code_simp

lemma sample_acceptance_builds:
  "accept_dome_hosting_lease sample_hosting (Some 2) \<lparr>secret_key = ''bob''\<rparr> sample_signed_lease ''s'' 10 =
     Inr sample_signed_acceptance"
  by code_simp

lemma sample_activation_builds:
  "activate_dome_hosting_lease sample_hosting (Some 3) \<lparr>secret_key = ''alice''\<rparr> sample_signed_lease
     sample_signed_acceptance 20 = Inr sample_signed_activation"
  by code_simp

lemma sample_lease_valid: "validate_dome_hosting_lease sample_lease (sample_instance ''a'' ''alice'') = Inr ()"
  by code_simp

theorem hosting_state_refines_outcome_witness:
  "digests_bind sample_hosting (set sample_handover) \<and>
   hosting_outcome sample_hosting (sample_instance ''a'' ''alice'') (set sample_handover) 1000 (Some 900) sample_hosted"
proof -
  have b: "digests_bind sample_hosting (set sample_handover)" by (auto simp: digests_bind_def sample_handover_def)
  with hosting_state_refines_outcome [OF b, THEN iffD1, OF sample_handover_resolves] show ?thesis by blast
qed

theorem hosted_state_authorised_witness:
  "\<exists>s a v. hosting_authority sample_hosting (sample_instance ''a'' ''alice'') sample_handover s a v \<and>
     env_pubkey (sl_envelope s) = ''alice'' \<and> hst_session_id sample_hosted = Some (acc_session_id (sa_acceptance a))"
proof -
  have "hst_kind sample_hosted = OwnerHosted \<or> hst_kind sample_hosted = CommunityNodeHosted" by code_simp
  from hosted_state_authorised [OF sample_handover_resolves this] show ?thesis by (auto simp: sample_instance_def)
qed

theorem handover_hosts_witness:
  "\<exists>st. resolve_dome_hosting_state sample_hosting (sample_instance ''a'' ''alice'') sample_handover 1000 (Some 900) = Inr st \<and>
     hst_session_id st = Some ''s'' \<and> hst_kind st = OwnerHosted"
proof -
  have "trim (env_id (sa_envelope sample_signed_acceptance)) \<noteq> []" by code_simp
  moreover have "sa_acceptance sample_signed_acceptance = sample_acceptance"
    "sv_activation sample_signed_activation = sample_activation" "hl_crypto sample_hosting = sample_crypto"
    "hl_lease sample_hosting = sample_codec sample_lease" "hl_acceptance sample_hosting = sample_codec sample_acceptance"
    "hl_activation sample_hosting = sample_codec sample_activation" "1000 < lease_expires_at sample_lease"
    "set sample_handover = {LeaseIssued sample_signed_lease, HostAccepted sample_signed_acceptance,
       LeaseActivated sample_signed_activation}"
    by (auto simp: sample_signed_acceptance_def sample_signed_activation_def sample_hosting_def sample_lease_def sample_handover_def)
  moreover have "lease_host sample_lease = OwnerDevice ''e'' ''bob''" by (simp add: sample_lease_def)
  ultimately show ?thesis
    using handover_hosts [OF sample_lease_valid sample_lease_builds sample_acceptance_builds sample_activation_builds,
        of 1000 sample_handover "Some 900"]
    by auto
qed

lemma closed_hosting_is_final_witness:
  "\<exists>st'. resolve_dome_hosting_state sample_hosting (sample_instance ''a'' ''alice'') sample_handover 10000 (Some 900) = Inr st' \<and>
     hst_kind st' = HostingClosed"
  by (rule closed_hosting_is_final [OF sample_handover_expires]) simp_all

theorem lease_lifetime_bounded_witness:
  "validate_dome_hosting_lease sample_lease (sample_instance ''a'' ''alice'') = Inr () \<and>
   lease_expires_at sample_lease - lease_issued_at sample_lease \<le> 30 * 24 * 60 * 60 * 1000"
  using lease_lifetime_bounded [OF sample_lease_valid] sample_lease_valid
  by (simp add: sample_lease_def is_i64_def)

text \<open>
  Without the hypothesis on the time of issue the bound fails: the subtraction of the two times wraps,
  and a lease over the whole range of the clock is accepted.
\<close>

lemma lease_lifetime_wraps:
  "let lease = sample_lease\<lparr>lease_issued_at := - (2 ^ 63), lease_expires_at := 2 ^ 63 - 1\<rparr> in
   validate_dome_hosting_lease lease (sample_instance ''a'' ''alice'') = Inr () \<and>
   lease_expires_at lease - lease_issued_at lease = 2 ^ 64 - 1"
  by code_simp

section \<open>Layout commits and evacuation\<close>

text \<open>
  A layout commit is one step of its Dome's history: a commit that verifies is signed by the
  owner of the lease, names exactly the candidate that verifies as the host's (through its digest),
  and moves the manifest from the revision the lease is for to the next one.
\<close>

lemma layout_commit_step:
  assumes "verify_signed_dome_layout_commit L signed lease candidate = Inr ()"
    and "lease_manifest_version lease < u64_max"
  shows "env_pubkey (slm_envelope signed) = lease_owner_pubkey lease \<and>
    env_pubkey (slc_envelope candidate) = signing_pubkey (lease_host lease) \<and>
    verify (hl_crypto L) (slm_envelope signed) = Inr () \<and> verify (hl_crypto L) (slc_envelope candidate) = Inr () \<and>
    from_json (hl_commit L) (env_content (slm_envelope signed)) = Some (slm_commit signed) \<and>
    from_json (hl_candidate L) (env_content (slc_envelope candidate)) = Some (slc_candidate candidate) \<and>
    dome_layout_candidate_digest L (slc_candidate candidate) = Inr (lm_candidate_digest (slm_commit signed)) \<and>
    lm_base_manifest_revision (slm_commit signed) = lease_manifest_version lease \<and>
    lm_next_manifest_revision (slm_commit signed) = Suc (lease_manifest_version lease)"
proof -
  let ?c = "slc_candidate candidate" and ?m = "slm_commit signed"
  have cand: "verify_signed_dome_layout_candidate L candidate lease (lc_session_id ?c) = Inr ()"
    and val: "validate_dome_layout_commit L lease ?c ?m = Inr ()"
    using assms(1) by (auto simp: verify_signed_dome_layout_commit_def result_simps)
  note com = commit_rec.accepted_authentic [OF assms(1)] and c = candidate_rec.accepted_authentic [OF cand]
  have "validate_dome_layout_candidate lease ?c = Inr ()"
    using cand by (auto simp: verify_signed_dome_layout_candidate_def result_simps)
  then have rev: "lc_base_manifest_revision ?c = lease_manifest_version lease"
    by (auto simp: validate_dome_layout_candidate_def split: if_splits)
  with val assms(2) show ?thesis
    using com c by (auto simp: validate_dome_layout_commit_def result_simps sat_u64_def split: if_splits)
qed

lemma layout_commit_step_witness:
  "\<exists>c m. verify_signed_dome_layout_commit sample_hosting m sample_lease c = Inr () \<and>
     lm_next_manifest_revision (slm_commit m) = 2"
proof -
  let ?c = "\<lparr>slc_candidate = sample_candidate, slc_envelope = projr (sign_envelope_json sample_crypto (Some 4)
    (sample_codec sample_candidate) \<lparr>secret_key = ''bob''\<rparr> LAYOUT_CANDIDATE_KIND (session_tags ''a'' 1 ''s'') sample_candidate)\<rparr>"
  let ?m = "\<lparr>slm_commit = sample_commit, slm_envelope = projr (sign_envelope_json sample_crypto (Some 5)
    (sample_codec sample_commit) \<lparr>secret_key = ''alice''\<rparr> LAYOUT_COMMIT_KIND (hosting_tags ''a'' 1 ''o'') sample_commit)\<rparr>"
  have t: "trim ''o'' \<noteq> []" "trim ''s'' \<noteq> []" "trim ''h2'' \<noteq> []" by code_simp+
  have "validate_dome_layout_candidate sample_lease sample_candidate = Inr ()"
    by (simp add: validate_dome_layout_candidate_def sample_lease_def sample_candidate_def
        default_customization_evaluates t)
  moreover have "verify_envelope_content sample_crypto (sample_codec sample_candidate) (slc_envelope ?c)
      LAYOUT_CANDIDATE_KIND ''bob'' sample_candidate = Inr ()" by code_simp
  moreover have "verify_envelope_content sample_crypto (sample_codec sample_commit) (slm_envelope ?m) LAYOUT_COMMIT_KIND
      ''alice'' sample_commit = Inr ()" by code_simp
  moreover have "validate_dome_layout_commit sample_hosting sample_lease sample_candidate sample_commit = Inr ()"
    by (simp add: validate_dome_layout_commit_def sample_hosting_def sample_lease_def sample_candidate_def sample_commit_def
        dome_layout_candidate_digest_def sample_codec_def sat_u64_def t)
  ultimately have v: "verify_signed_dome_layout_commit sample_hosting ?m sample_lease ?c = Inr ()"
    by (simp add: verify_signed_dome_layout_commit_def verify_signed_dome_layout_candidate_def)
       (simp add: sample_hosting_def sample_lease_def)
  from layout_commit_step [OF v] show ?thesis
    by (intro exI [of _ ?c] exI [of _ ?m] conjI v) (simp add: sample_lease_def)
qed

lemma retain_first_mem:
  "c \<in> set (retain_first seen cs) \<Longrightarrow> c \<in> set cs \<and> evc_instance_id c \<notin> seen"
  by (induction seen cs rule: retain_first.induct) (auto split: if_splits)

lemma retain_first_distinct: "distinct (map evc_instance_id (retain_first seen cs))"
  by (induction seen cs rule: retain_first.induct) (auto dest: retain_first_mem)

lemma retain_first_sorted: "sorted (map k cs) \<Longrightarrow> sorted (map k (retain_first seen cs))"
  by (induction seen cs rule: retain_first.induct) (auto dest: retain_first_mem)

lemma retain_first_covers:
  assumes "sorted (map k cs)" "c \<in> set cs" "evc_instance_id c \<notin> seen"
  shows "\<exists>d \<in> set (retain_first seen cs). evc_instance_id d = evc_instance_id c \<and> k d \<le> k c"
  using assms
proof (induction seen cs rule: retain_first.induct)
  case (2 seen d cs)
  then show ?case by (cases "evc_instance_id d = evc_instance_id c") auto
qed simp

text \<open>
  C38. The evacuation list is a plan: it is ordered by preference (the kind, then the instance id),
  offers each instance once, only available ones and never the instance being left, and for every
  eligible candidate it offers that instance with the same or a better preference. The order in which
  candidates are found does not matter.
\<close>

theorem evacuation_order_correct:
  "let out = order_dome_evacuation_candidates here cs in
   sorted (map (\<lambda>c. (evc_kind c, evc_instance_id c)) out) \<and> distinct (map evc_instance_id out) \<and>
   set out \<subseteq> {c \<in> set cs. evc_available c \<and> evc_instance_id c \<noteq> here} \<and>
   (\<forall>c \<in> set cs. evc_available c \<longrightarrow> evc_instance_id c \<noteq> here \<longrightarrow>
      (\<exists>d \<in> set out. evc_instance_id d = evc_instance_id c \<and> evc_kind d \<le> evc_kind c)) \<and>
   (\<forall>cs'. mset cs' = mset cs \<longrightarrow> order_dome_evacuation_candidates here cs' = out)"
proof -
  let ?k = "\<lambda>c. (evc_kind c, evc_instance_id c)"
    and ?ok = "\<lambda>c. evc_available c \<and> evc_instance_id c \<noteq> here"
  let ?s = "sort_key ?k (filter ?ok cs)"
  have srt: "sorted (map ?k ?s)" by simp
  have cov: "\<exists>d \<in> set (retain_first {} ?s). evc_instance_id d = evc_instance_id c \<and> evc_kind d \<le> evc_kind c"
    if "c \<in> set cs" "?ok c" for c
    using retain_first_covers [OF srt, of c "{}"] that by (auto simp: less_eq_prod_def)
  have same: "sort_key ?k (filter ?ok cs') = ?s" if "mset cs' = mset cs" for cs'
  proof -
    let ?t = "sort_key ?k (filter ?ok cs')"
    have "mset ?t = mset ?s" using that by simp
    then have "sort (map ?k ?t) = map ?k ?s" "sort (map ?k ?t) = map ?k ?t"
      by (auto intro!: properties_for_sort simp: mset_map simp del: mset_sort)
    moreover have "inj_on ?k (set ?t \<union> set ?s)" by (rule inj_onI) auto
    ultimately show ?thesis by (intro map_inj_on [of ?k ?t ?s]) simp_all
  qed
  show ?thesis
    unfolding order_dome_evacuation_candidates_def Let_def
  proof (intro conjI ballI allI impI)
    show "set (retain_first {} ?s) \<subseteq> {c \<in> set cs. ?ok c}" using retain_first_mem by fastforce
    show "retain_first {} (sort_key ?k (filter ?ok cs')) = retain_first {} ?s" if "mset cs' = mset cs" for cs'
      using same [OF that] by (rule arg_cong)
  qed (use retain_first_sorted [OF srt] retain_first_distinct cov in blast)+
qed

theorem evacuation_order_correct_witness:
  "let a = \<lparr>evc_instance_id = ''a'', evc_kind = LastVisited, evc_available = True\<rparr>;
       b = \<lparr>evc_instance_id = ''a'', evc_kind = OwnHosted, evc_available = True\<rparr>;
       c = \<lparr>evc_instance_id = ''c'', evc_kind = EstablishedTransition, evc_available = False\<rparr> in
   order_dome_evacuation_candidates ''x'' [a, b, c] = [b] \<and> order_dome_evacuation_candidates ''x'' [c, b, a] = [b]"
proof -
  let ?a = "\<lparr>evc_instance_id = ''a'', evc_kind = LastVisited, evc_available = True\<rparr>"
    and ?b = "\<lparr>evc_instance_id = ''a'', evc_kind = OwnHosted, evc_available = True\<rparr>"
    and ?c = "\<lparr>evc_instance_id = ''c'', evc_kind = EstablishedTransition, evc_available = False\<rparr>"
  have "order_dome_evacuation_candidates ''x'' [?a, ?b, ?c] = [?b]" by code_simp
  moreover have "mset [?c, ?b, ?a] = mset [?a, ?b, ?c]" by simp
  moreover note evacuation_order_correct [of "''x''" "[?a, ?b, ?c]", unfolded Let_def, THEN conjunct2, THEN conjunct2,
      THEN conjunct2, THEN conjunct2, rule_format, of "[?c, ?b, ?a]"]
  ultimately show ?thesis by (simp only: Let_def)
qed

end
