(* ===== verification/Private_Channels.thy ===== *)
theory Private_Channels
  imports Envelope
begin

text \<open>
  Private channels (\<^verbatim>\<open>crates/core/src/private_channels.rs\<close>): the invitations into a
  channel, its policy and participant documents, the grant that hands a member the secret of the next
  epoch, and the seal that keeps epoch secrets in a device's rows. The key agreement, key derivation
  and validation functions of \<^verbatim>\<open>crypto.rs\<close> they use come first. The cipher, the
  curve operations, \<open>hkdf\<close>, \<open>blake3\<close>, \<open>hex::decode\<close> and the codecs are the fields of the
  argument \<open>L\<close>; a nonce drawn from the random generator and the reading of a clock are arguments.
\<close>

section \<open>Documents\<close>

datatype ChannelAudienceKind = InviteOnly | FriendOnly | FriendPlus

datatype ChannelSharingState = SharingOpen | SharingFrozen

datatype PrivateChannelJoinMode = OwnerSeed | InviteToken | FriendOnlyGrant | FriendPlusShare | RotationRedeem

record CreatePrivateChannelInput =
  cpc_topic_id :: TopicId
  cpc_label :: string
  cpc_audience_kind :: ChannelAudienceKind

record PrivateChannelMetadataDocV1 =
  pcm_channel_id :: ChannelId
  pcm_topic_id :: TopicId
  pcm_label :: string
  pcm_creator_pubkey :: Pubkey
  pcm_created_at :: i64
  pcm_audience_kind :: ChannelAudienceKind
  pcm_owner_pubkey :: Pubkey

record PrivateChannelPolicyDocV1 =
  pol_channel_id :: ChannelId
  pol_topic_id :: TopicId
  pol_audience_kind :: ChannelAudienceKind
  pol_owner_pubkey :: Pubkey
  pol_epoch_id :: string
  pol_sharing_state :: ChannelSharingState
  pol_rotated_at :: "i64 option"
  pol_previous_epoch_id :: "string option"
  pol_entry_dome_instance_id :: "string option"

record PrivateChannelParticipantDocV1 =
  par_channel_id :: ChannelId
  par_topic_id :: TopicId
  par_epoch_id :: string
  par_participant_pubkey :: Pubkey
  par_joined_at :: i64
  par_is_owner :: bool
  par_join_mode :: "PrivateChannelJoinMode option"
  par_sponsor_pubkey :: "Pubkey option"
  par_share_token_id :: "string option"
  par_left_at :: "i64 option"

record KukuriPrivateChannelInviteEnvelopeContentV1 =
  inv_channel_id :: ChannelId
  inv_topic_id :: TopicId
  inv_channel_label :: string
  inv_owner_pubkey :: Pubkey
  inv_epoch_id :: string
  inv_namespace_secret_hex :: string
  inv_expires_at :: "i64 option"

record PrivateChannelInviteTokenV1 =
  itok_envelope :: KukuriEnvelope

record PrivateChannelInvitePreview =
  ipv_channel_id :: ChannelId
  ipv_topic_id :: TopicId
  ipv_channel_label :: string
  ipv_inviter_pubkey :: Pubkey
  ipv_owner_pubkey :: Pubkey
  ipv_epoch_id :: string
  ipv_expires_at :: "i64 option"
  ipv_namespace_secret_hex :: string

record KukuriFriendOnlyGrantEnvelopeContentV1 =
  fog_channel_id :: ChannelId
  fog_topic_id :: TopicId
  fog_channel_label :: string
  fog_owner_pubkey :: Pubkey
  fog_epoch_id :: string
  fog_namespace_secret_hex :: string
  fog_expires_at :: "i64 option"

record FriendOnlyGrantTokenV1 =
  gtok_envelope :: KukuriEnvelope

record FriendOnlyGrantPreview =
  gpv_channel_id :: ChannelId
  gpv_topic_id :: TopicId
  gpv_channel_label :: string
  gpv_owner_pubkey :: Pubkey
  gpv_epoch_id :: string
  gpv_expires_at :: "i64 option"
  gpv_namespace_secret_hex :: string

record KukuriFriendPlusShareEnvelopeContentV1 =
  fps_channel_id :: ChannelId
  fps_topic_id :: TopicId
  fps_channel_label :: string
  fps_owner_pubkey :: Pubkey
  fps_sponsor_pubkey :: Pubkey
  fps_epoch_id :: string
  fps_namespace_secret_hex :: string
  fps_expires_at :: "i64 option"

record FriendPlusShareTokenV1 =
  stok_envelope :: KukuriEnvelope

record FriendPlusSharePreview =
  spv_channel_id :: ChannelId
  spv_topic_id :: TopicId
  spv_channel_label :: string
  spv_owner_pubkey :: Pubkey
  spv_sponsor_pubkey :: Pubkey
  spv_epoch_id :: string
  spv_expires_at :: "i64 option"
  spv_namespace_secret_hex :: string
  spv_share_token_id :: string

record PrivateChannelEpochHandoffGrantPayloadV1 =
  hgp_channel_id :: ChannelId
  hgp_topic_id :: TopicId
  hgp_owner_pubkey :: Pubkey
  hgp_recipient_pubkey :: Pubkey
  hgp_old_epoch_id :: string
  hgp_new_epoch_id :: string
  hgp_new_namespace_secret_hex :: string

record PrivateChannelEpochHandoffGrantDocV1 =
  hgd_channel_id :: ChannelId
  hgd_topic_id :: TopicId
  hgd_owner_pubkey :: Pubkey
  hgd_recipient_pubkey :: Pubkey
  hgd_old_epoch_id :: string
  hgd_new_epoch_id :: string
  hgd_nonce_hex :: string
  hgd_ciphertext_hex :: string

record PrivateChannelInviteTokenParams =
  itp_topic :: TopicId
  itp_channel_id :: ChannelId
  itp_channel_label :: string
  itp_owner_pubkey :: Pubkey
  itp_epoch_id :: string
  itp_namespace_secret_hex :: string
  itp_expires_at :: "i64 option"

text \<open>The third-party functions private channels call.\<close>

record channel_lib =
  cl_crypto :: crypto_lib
  cl_hex_decode :: "string \<Rightarrow> string option"
  cl_even_point :: "string \<Rightarrow> string"
  cl_odd_parity :: "string \<Rightarrow> bool"
  cl_negate :: "string \<Rightarrow> string"
  cl_shared_secret :: "string \<Rightarrow> string \<Rightarrow> string"
  cl_hkdf :: "string \<Rightarrow> string \<Rightarrow> string \<Rightarrow> string option"
  cl_blake3_derive_key :: "string \<Rightarrow> string \<Rightarrow> string"
  cl_cipher_new :: "string \<Rightarrow> string option"
  cl_encrypt :: "string \<Rightarrow> string \<Rightarrow> string \<Rightarrow> string \<Rightarrow> string option"
  cl_decrypt :: "string \<Rightarrow> string \<Rightarrow> string \<Rightarrow> string \<Rightarrow> string option"
  cl_invite :: "KukuriPrivateChannelInviteEnvelopeContentV1 codec"
  cl_invite_token :: "PrivateChannelInviteTokenV1 codec"
  cl_grant :: "KukuriFriendOnlyGrantEnvelopeContentV1 codec"
  cl_grant_token :: "FriendOnlyGrantTokenV1 codec"
  cl_share :: "KukuriFriendPlusShareEnvelopeContentV1 codec"
  cl_share_token :: "FriendPlusShareTokenV1 codec"
  cl_policy :: "PrivateChannelPolicyDocV1 codec"
  cl_participant :: "PrivateChannelParticipantDocV1 codec"
  cl_handoff_payload :: "PrivateChannelEpochHandoffGrantPayloadV1 codec"
  cl_handoff_doc :: "PrivateChannelEpochHandoffGrantDocV1 codec"

section \<open>Keys and clocks\<close>

definition pairwise_shared_secret :: "channel_lib \<Rightarrow> KukuriKeys \<Rightarrow> Pubkey \<Rightarrow> string result" where
  "pairwise_shared_secret L local_keys remote_pubkey =
     rbind (with_context ''invalid remote x-only public key''
       (foreign ''secp256k1'' (xonly_from_str (cl_crypto L) remote_pubkey))) (\<lambda>remote_xonly.
     let remote_public = cl_even_point L remote_xonly;
         local_secret = (if cl_odd_parity L (secret_key local_keys)
           then cl_negate L (secret_key local_keys) else secret_key local_keys) in
     Inr (cl_shared_secret L remote_public local_secret))"

definition validate_pubkey :: "crypto_lib \<Rightarrow> string \<Rightarrow> unit result" where
  "validate_pubkey C value =
     rbind (with_context ''invalid x-only public key'' (foreign ''secp256k1'' (xonly_from_str C value)))
       (\<lambda>_. Inr ())"

text \<open>The clock in milliseconds since the Unix epoch, or nothing before it; the cast to \<open>i64\<close> wraps.\<close>

definition now_timestamp_millis :: "nat option \<Rightarrow> i64 result" where
  "now_timestamp_millis clock =
     rbind (with_context ''system clock is before unix epoch'' (foreign ''std::time'' clock))
       (\<lambda>ms. Inr (wrap_i64 (int ms)))"

definition derive_hkdf_key :: "channel_lib \<Rightarrow> string \<Rightarrow> string \<Rightarrow> string \<Rightarrow> string \<Rightarrow> string result" where
  "derive_hkdf_key L salt ikm info label = ok_or (''failed to derive '' @ label) (cl_hkdf L salt ikm info)"

definition validate_private_channel_secret_hex :: "channel_lib \<Rightarrow> string \<Rightarrow> string \<Rightarrow> unit result" where
  "validate_private_channel_secret_hex L value label =
     rbind (with_context (''invalid '' @ label @ '' hex'') (foreign ''hex'' (cl_hex_decode L (trim value))))
       (\<lambda>secret_bytes. if length secret_bytes \<noteq> 32 then bail (label @ '' must be 32 bytes'') else Inr ())"

text \<open>The check of an optional expiry, which reads the clock only when there is one.\<close>

definition check_not_expired :: "nat option \<Rightarrow> i64 option \<Rightarrow> string \<Rightarrow> unit result" where
  "check_not_expired clock expires_at msg = (case expires_at of
     None \<Rightarrow> Inr ()
   | Some t \<Rightarrow> rbind (now_timestamp_millis clock) (\<lambda>now. if t < now then bail msg else Inr ()))"

section \<open>Invitations\<close>

definition build_private_channel_invite_token ::
    "channel_lib \<Rightarrow> u64 option \<Rightarrow> KukuriKeys \<Rightarrow> PrivateChannelInviteTokenParams \<Rightarrow> string result" where
  "build_private_channel_invite_token L clock keys params =
     rbind (sign_envelope_json (cl_crypto L) clock (cl_invite L) keys ''channel-invite''
       [[''topic'', itp_topic params], [''object'', ''channel-invite''], [''channel'', itp_channel_id params]]
       \<lparr>inv_channel_id = itp_channel_id params, inv_topic_id = itp_topic params,
        inv_channel_label = trim (itp_channel_label params), inv_owner_pubkey = itp_owner_pubkey params,
        inv_epoch_id = trim (itp_epoch_id params),
        inv_namespace_secret_hex = trim (itp_namespace_secret_hex params),
        inv_expires_at = itp_expires_at params\<rparr>) (\<lambda>envelope.
     with_context ''failed to encode private channel invite token''
       (foreign ''serde_json'' (to_json (cl_invite_token L) \<lparr>itok_envelope = envelope\<rparr>)))"

definition build_friend_only_grant_token ::
    "channel_lib \<Rightarrow> u64 option \<Rightarrow> KukuriKeys \<Rightarrow> TopicId \<Rightarrow> ChannelId \<Rightarrow> string \<Rightarrow> string \<Rightarrow> string \<Rightarrow> i64 option \<Rightarrow>
     string result" where
  "build_friend_only_grant_token L clock keys topic channel_id channel_label epoch_id namespace_secret_hex expires_at =
     rbind (sign_envelope_json (cl_crypto L) clock (cl_grant L) keys ''channel-friend-grant''
       [[''topic'', topic], [''object'', ''channel-friend-grant''], [''channel'', channel_id], [''epoch'', trim epoch_id]]
       \<lparr>fog_channel_id = channel_id, fog_topic_id = topic, fog_channel_label = trim channel_label,
        fog_owner_pubkey = public_key (cl_crypto L) keys, fog_epoch_id = trim epoch_id,
        fog_namespace_secret_hex = trim namespace_secret_hex, fog_expires_at = expires_at\<rparr>) (\<lambda>envelope.
     with_context ''failed to encode friend-only grant token''
       (foreign ''serde_json'' (to_json (cl_grant_token L) \<lparr>gtok_envelope = envelope\<rparr>)))"

definition build_friend_plus_share_token ::
    "channel_lib \<Rightarrow> u64 option \<Rightarrow> KukuriKeys \<Rightarrow> TopicId \<Rightarrow> ChannelId \<Rightarrow> string \<Rightarrow> Pubkey \<Rightarrow> string \<Rightarrow> string \<Rightarrow>
     i64 option \<Rightarrow> string result" where
  "build_friend_plus_share_token L clock keys topic channel_id channel_label owner_pubkey epoch_id namespace_secret_hex
     expires_at =
     rbind (sign_envelope_json (cl_crypto L) clock (cl_share L) keys ''channel-share''
       [[''topic'', topic], [''object'', ''channel-share''], [''channel'', channel_id], [''epoch'', trim epoch_id],
        [''owner'', owner_pubkey]]
       \<lparr>fps_channel_id = channel_id, fps_topic_id = topic, fps_channel_label = trim channel_label,
        fps_owner_pubkey = owner_pubkey, fps_sponsor_pubkey = public_key (cl_crypto L) keys,
        fps_epoch_id = trim epoch_id, fps_namespace_secret_hex = trim namespace_secret_hex,
        fps_expires_at = expires_at\<rparr>) (\<lambda>envelope.
     with_context ''failed to encode friend-plus share token''
       (foreign ''serde_json'' (to_json (cl_share_token L) \<lparr>stok_envelope = envelope\<rparr>)))"

definition parse_private_channel_invite_token ::
    "channel_lib \<Rightarrow> nat option \<Rightarrow> string \<Rightarrow> PrivateChannelInvitePreview result" where
  "parse_private_channel_invite_token L clock text =
     rbind (with_context ''failed to parse private channel invite token''
       (foreign ''serde_json'' (from_json (cl_invite_token L) text))) (\<lambda>token.
     let envelope = itok_envelope token in
     rbind (verify (cl_crypto L) envelope) (\<lambda>_.
     if env_kind envelope \<noteq> ''channel-invite'' then bail ''invite envelope kind must be channel-invite'' else
     rbind (with_context ''failed to decode private channel invite content''
       (foreign ''serde_json'' (from_json (cl_invite L) (env_content envelope)))) (\<lambda>content.
     if trim (inv_channel_label content) = [] then bail ''channel invite label is required'' else
     rbind (with_context ''invalid channel invite owner'' (validate_pubkey (cl_crypto L) (inv_owner_pubkey content))) (\<lambda>_.
     if trim (inv_epoch_id content) = [] then bail ''channel invite epoch id is required'' else
     rbind (with_context ''invalid invite secret hex''
       (foreign ''hex'' (cl_hex_decode L (trim (inv_namespace_secret_hex content))))) (\<lambda>secret_bytes.
     if length secret_bytes \<noteq> 32 then bail ''invite secret must be 32 bytes'' else
     rbind (check_not_expired clock (inv_expires_at content) ''invite has expired'') (\<lambda>_.
     Inr \<lparr>ipv_channel_id = inv_channel_id content, ipv_topic_id = inv_topic_id content,
       ipv_channel_label = inv_channel_label content, ipv_inviter_pubkey = env_pubkey envelope,
       ipv_owner_pubkey = inv_owner_pubkey content, ipv_epoch_id = inv_epoch_id content,
       ipv_expires_at = inv_expires_at content,
       ipv_namespace_secret_hex = inv_namespace_secret_hex content\<rparr>))))))"

definition parse_friend_only_grant_token ::
    "channel_lib \<Rightarrow> nat option \<Rightarrow> string \<Rightarrow> FriendOnlyGrantPreview result" where
  "parse_friend_only_grant_token L clock text =
     rbind (with_context ''failed to parse friend-only grant token''
       (foreign ''serde_json'' (from_json (cl_grant_token L) text))) (\<lambda>token.
     let envelope = gtok_envelope token in
     rbind (verify (cl_crypto L) envelope) (\<lambda>_.
     if env_kind envelope \<noteq> ''channel-friend-grant''
     then bail ''grant envelope kind must be channel-friend-grant'' else
     rbind (with_context ''failed to decode friend-only grant content''
       (foreign ''serde_json'' (from_json (cl_grant L) (env_content envelope)))) (\<lambda>content.
     rbind (with_context ''invalid friend-only grant owner'' (validate_pubkey (cl_crypto L) (fog_owner_pubkey content))) (\<lambda>_.
     if env_pubkey envelope \<noteq> fog_owner_pubkey content
     then bail ''friend-only grant owner pubkey must match envelope signer'' else
     if trim (fog_channel_label content) = [] then bail ''friend-only grant label is required'' else
     if trim (fog_epoch_id content) = [] then bail ''friend-only grant epoch id is required'' else
     rbind (with_context ''invalid grant secret hex''
       (foreign ''hex'' (cl_hex_decode L (trim (fog_namespace_secret_hex content))))) (\<lambda>secret_bytes.
     if length secret_bytes \<noteq> 32 then bail ''grant secret must be 32 bytes'' else
     rbind (check_not_expired clock (fog_expires_at content) ''friend-only grant has expired'') (\<lambda>_.
     Inr \<lparr>gpv_channel_id = fog_channel_id content, gpv_topic_id = fog_topic_id content,
       gpv_channel_label = fog_channel_label content, gpv_owner_pubkey = fog_owner_pubkey content,
       gpv_epoch_id = fog_epoch_id content, gpv_expires_at = fog_expires_at content,
       gpv_namespace_secret_hex = fog_namespace_secret_hex content\<rparr>))))))"

definition parse_friend_plus_share_token ::
    "channel_lib \<Rightarrow> nat option \<Rightarrow> string \<Rightarrow> FriendPlusSharePreview result" where
  "parse_friend_plus_share_token L clock text =
     rbind (with_context ''failed to parse friend-plus share token''
       (foreign ''serde_json'' (from_json (cl_share_token L) text))) (\<lambda>token.
     let envelope = stok_envelope token in
     rbind (verify (cl_crypto L) envelope) (\<lambda>_.
     if env_kind envelope \<noteq> ''channel-share'' then bail ''share envelope kind must be channel-share'' else
     rbind (with_context ''failed to decode friend-plus share content''
       (foreign ''serde_json'' (from_json (cl_share L) (env_content envelope)))) (\<lambda>content.
     rbind (with_context ''invalid friend-plus share owner'' (validate_pubkey (cl_crypto L) (fps_owner_pubkey content))) (\<lambda>_.
     rbind (with_context ''invalid friend-plus share sponsor''
       (validate_pubkey (cl_crypto L) (fps_sponsor_pubkey content))) (\<lambda>_.
     if env_pubkey envelope \<noteq> fps_sponsor_pubkey content
     then bail ''friend-plus share sponsor pubkey must match envelope signer'' else
     if trim (fps_channel_label content) = [] then bail ''friend-plus share label is required'' else
     if trim (fps_epoch_id content) = [] then bail ''friend-plus share epoch id is required'' else
     rbind (validate_private_channel_secret_hex L (fps_namespace_secret_hex content) ''friend-plus share secret'') (\<lambda>_.
     rbind (check_not_expired clock (fps_expires_at content) ''friend-plus share has expired'') (\<lambda>_.
     Inr \<lparr>spv_channel_id = fps_channel_id content, spv_topic_id = fps_topic_id content,
       spv_channel_label = fps_channel_label content, spv_owner_pubkey = fps_owner_pubkey content,
       spv_sponsor_pubkey = fps_sponsor_pubkey content, spv_epoch_id = fps_epoch_id content,
       spv_expires_at = fps_expires_at content, spv_namespace_secret_hex = fps_namespace_secret_hex content,
       spv_share_token_id = env_id envelope\<rparr>)))))))"

section \<open>Policy and participant documents\<close>

definition build_private_channel_policy_envelope ::
    "channel_lib \<Rightarrow> nat option \<Rightarrow> KukuriKeys \<Rightarrow> PrivateChannelPolicyDocV1 \<Rightarrow> KukuriEnvelope result" where
  "build_private_channel_policy_envelope L clock keys doc =
     (if public_key (cl_crypto L) keys \<noteq> pol_owner_pubkey doc
      then bail ''channel policy owner pubkey must match signer'' else
      rbind (now_timestamp_millis clock) (\<lambda>created_at.
      rbind (with_context ''failed to encode channel policy doc''
        (foreign ''serde_json'' (to_json (cl_policy L) doc))) (\<lambda>encoded.
      sign_envelope_at (cl_crypto L) keys ''channel-policy''
        [[''topic'', pol_topic_id doc], [''channel'', pol_channel_id doc], [''epoch'', pol_epoch_id doc],
         [''object'', ''channel-policy'']] encoded created_at)))"

definition parse_private_channel_policy ::
    "channel_lib \<Rightarrow> KukuriEnvelope \<Rightarrow> PrivateChannelPolicyDocV1 option result" where
  "parse_private_channel_policy L envelope =
     (if env_kind envelope \<noteq> ''channel-policy'' then Inr None else
      rbind (with_context ''failed to parse channel policy''
        (foreign ''serde_json'' (from_json (cl_policy L) (env_content envelope)))) (\<lambda>doc.
      rbind (with_context ''invalid channel policy owner pubkey''
        (validate_pubkey (cl_crypto L) (pol_owner_pubkey doc))) (\<lambda>_.
      if env_pubkey envelope \<noteq> pol_owner_pubkey doc
      then bail ''channel policy owner pubkey must match envelope signer'' else
      if trim (pol_epoch_id doc) = [] then bail ''channel policy epoch id is required'' else
      if (case pol_previous_epoch_id doc of Some value \<Rightarrow> trim value = [] | None \<Rightarrow> False)
      then bail ''channel policy previous epoch id must not be empty'' else Inr (Some doc))))"

definition build_private_channel_participant_envelope ::
    "channel_lib \<Rightarrow> nat option \<Rightarrow> KukuriKeys \<Rightarrow> PrivateChannelParticipantDocV1 \<Rightarrow> KukuriEnvelope result" where
  "build_private_channel_participant_envelope L clock keys doc =
     (if public_key (cl_crypto L) keys \<noteq> par_participant_pubkey doc
      then bail ''channel participant pubkey must match signer'' else
      rbind (now_timestamp_millis clock) (\<lambda>created_at.
      rbind (with_context ''failed to encode channel participant doc''
        (foreign ''serde_json'' (to_json (cl_participant L) doc))) (\<lambda>encoded.
      sign_envelope_at (cl_crypto L) keys ''channel-participant''
        [[''topic'', par_topic_id doc], [''channel'', par_channel_id doc], [''epoch'', par_epoch_id doc],
         [''participant'', par_participant_pubkey doc], [''object'', ''channel-participant'']]
        encoded created_at)))"

definition parse_private_channel_participant ::
    "channel_lib \<Rightarrow> KukuriEnvelope \<Rightarrow> PrivateChannelParticipantDocV1 option result" where
  "parse_private_channel_participant L envelope =
     (if env_kind envelope \<noteq> ''channel-participant'' then Inr None else
      rbind (with_context ''failed to parse channel participant''
        (foreign ''serde_json'' (from_json (cl_participant L) (env_content envelope)))) (\<lambda>doc.
      rbind (with_context ''invalid channel participant pubkey''
        (validate_pubkey (cl_crypto L) (par_participant_pubkey doc))) (\<lambda>_.
      if env_pubkey envelope \<noteq> par_participant_pubkey doc
      then bail ''channel participant pubkey must match envelope signer'' else
      if trim (par_epoch_id doc) = [] then bail ''channel participant epoch id is required'' else
      rbind (case par_sponsor_pubkey doc of
          Some sponsor \<Rightarrow> with_context ''invalid channel participant sponsor pubkey''
            (validate_pubkey (cl_crypto L) sponsor)
        | None \<Rightarrow> Inr ()) (\<lambda>_.
      if (case par_share_token_id doc of Some value \<Rightarrow> trim value = [] | None \<Rightarrow> False)
      then bail ''channel participant share token id must not be empty'' else Inr (Some doc)))))"

section \<open>Handing over an epoch\<close>

definition epoch_handoff_grant_aad :: "PrivateChannelEpochHandoffGrantPayloadV1 \<Rightarrow> string" where
  "epoch_handoff_grant_aad payload =
     ''kukuri:rotation-grant:'' @ hgp_channel_id payload @ '':'' @ hgp_topic_id payload @ '':'' @
     hgp_owner_pubkey payload @ '':'' @ hgp_recipient_pubkey payload @ '':'' @ hgp_new_epoch_id payload"

definition derive_epoch_handoff_grant_key ::
    "channel_lib \<Rightarrow> KukuriKeys \<Rightarrow> Pubkey \<Rightarrow> PrivateChannelEpochHandoffGrantPayloadV1 \<Rightarrow> string result" where
  "derive_epoch_handoff_grant_key L local_keys remote_pubkey payload =
     rbind (pairwise_shared_secret L local_keys remote_pubkey) (\<lambda>shared.
     derive_hkdf_key L ''kukuri/private-channel/rotation-grant'' shared (epoch_handoff_grant_aad payload)
       ''channel epoch handoff grant key'')"

definition encrypt_private_channel_epoch_handoff_grant ::
    "channel_lib \<Rightarrow> string \<Rightarrow> KukuriKeys \<Rightarrow> PrivateChannelEpochHandoffGrantPayloadV1 \<Rightarrow>
     PrivateChannelEpochHandoffGrantDocV1 result" where
  "encrypt_private_channel_epoch_handoff_grant L nonce owner_keys payload =
     (if public_key (cl_crypto L) owner_keys \<noteq> hgp_owner_pubkey payload
      then bail ''channel epoch handoff grant owner pubkey must match signer'' else
      rbind (with_context ''invalid channel epoch handoff grant recipient pubkey''
        (validate_pubkey (cl_crypto L) (hgp_recipient_pubkey payload))) (\<lambda>_.
      if trim (hgp_old_epoch_id payload) = [] then bail ''channel epoch handoff grant old epoch id is required'' else
      if trim (hgp_new_epoch_id payload) = [] then bail ''channel epoch handoff grant new epoch id is required'' else
      rbind (validate_private_channel_secret_hex L (hgp_new_namespace_secret_hex payload)
        ''channel epoch handoff grant secret'') (\<lambda>_.
      rbind (with_context ''failed to encode channel epoch handoff grant payload''
        (foreign ''serde_json'' (to_json (cl_handoff_payload L) payload))) (\<lambda>plaintext.
      rbind (derive_epoch_handoff_grant_key L owner_keys (hgp_recipient_pubkey payload) payload) (\<lambda>key.
      rbind (with_context ''failed to initialize epoch handoff grant cipher''
        (foreign ''chacha20poly1305'' (cl_cipher_new L key))) (\<lambda>cipher.
      rbind (ok_or ''failed to encrypt channel epoch handoff grant''
        (cl_encrypt L cipher nonce plaintext (epoch_handoff_grant_aad payload))) (\<lambda>ciphertext.
      Inr \<lparr>hgd_channel_id = hgp_channel_id payload, hgd_topic_id = hgp_topic_id payload,
        hgd_owner_pubkey = hgp_owner_pubkey payload, hgd_recipient_pubkey = hgp_recipient_pubkey payload,
        hgd_old_epoch_id = hgp_old_epoch_id payload, hgd_new_epoch_id = hgp_new_epoch_id payload,
        hgd_nonce_hex = hex_encode (cl_crypto L) nonce,
        hgd_ciphertext_hex = hex_encode (cl_crypto L) ciphertext\<rparr>)))))))"

definition handoff_stub :: "PrivateChannelEpochHandoffGrantDocV1 \<Rightarrow> PrivateChannelEpochHandoffGrantPayloadV1" where
  "handoff_stub doc = \<lparr>hgp_channel_id = hgd_channel_id doc, hgp_topic_id = hgd_topic_id doc,
     hgp_owner_pubkey = hgd_owner_pubkey doc, hgp_recipient_pubkey = hgd_recipient_pubkey doc,
     hgp_old_epoch_id = hgd_old_epoch_id doc, hgp_new_epoch_id = hgd_new_epoch_id doc,
     hgp_new_namespace_secret_hex = []\<rparr>"

definition decrypt_private_channel_epoch_handoff_grant ::
    "channel_lib \<Rightarrow> KukuriKeys \<Rightarrow> PrivateChannelEpochHandoffGrantDocV1 \<Rightarrow>
     PrivateChannelEpochHandoffGrantPayloadV1 result" where
  "decrypt_private_channel_epoch_handoff_grant L local_keys doc =
     (if public_key (cl_crypto L) local_keys \<noteq> hgd_recipient_pubkey doc
      then bail ''channel epoch handoff grant recipient pubkey must match decrypting author'' else
      rbind (with_context ''invalid channel epoch handoff grant nonce''
        (foreign ''hex'' (cl_hex_decode L (trim (hgd_nonce_hex doc))))) (\<lambda>nonce.
      if length nonce \<noteq> 24 then bail ''channel epoch handoff grant nonce must be 24 bytes'' else
      rbind (with_context ''invalid channel epoch handoff grant ciphertext''
        (foreign ''hex'' (cl_hex_decode L (trim (hgd_ciphertext_hex doc))))) (\<lambda>ciphertext.
      let payload_stub = handoff_stub doc in
      rbind (derive_epoch_handoff_grant_key L local_keys (hgd_owner_pubkey doc) payload_stub) (\<lambda>key.
      rbind (with_context ''failed to initialize epoch handoff grant cipher''
        (foreign ''chacha20poly1305'' (cl_cipher_new L key))) (\<lambda>cipher.
      rbind (ok_or ''failed to decrypt channel epoch handoff grant''
        (cl_decrypt L cipher nonce ciphertext (epoch_handoff_grant_aad payload_stub))) (\<lambda>plaintext.
      rbind (with_context ''failed to decode channel epoch handoff grant payload''
        (foreign ''serde_json'' (from_json (cl_handoff_payload L) plaintext))) (\<lambda>payload.
      if hgp_channel_id payload \<noteq> hgd_channel_id doc \<or> hgp_topic_id payload \<noteq> hgd_topic_id doc
      then bail ''channel epoch handoff grant payload does not match doc identity'' else
      if hgp_owner_pubkey payload \<noteq> hgd_owner_pubkey doc \<or> hgp_recipient_pubkey payload \<noteq> hgd_recipient_pubkey doc
      then bail ''channel epoch handoff grant payload does not match doc recipients'' else
      if hgp_old_epoch_id payload \<noteq> hgd_old_epoch_id doc \<or> hgp_new_epoch_id payload \<noteq> hgd_new_epoch_id doc
      then bail ''channel epoch handoff grant payload does not match doc epochs'' else
      rbind (validate_private_channel_secret_hex L (hgp_new_namespace_secret_hex payload)
        ''channel epoch handoff grant secret'') (\<lambda>_. Inr payload))))))))"

definition build_private_channel_epoch_handoff_grant_envelope ::
    "channel_lib \<Rightarrow> nat option \<Rightarrow> KukuriKeys \<Rightarrow> PrivateChannelEpochHandoffGrantDocV1 \<Rightarrow> KukuriEnvelope result" where
  "build_private_channel_epoch_handoff_grant_envelope L clock owner_keys doc =
     (if public_key (cl_crypto L) owner_keys \<noteq> hgd_owner_pubkey doc
      then bail ''channel epoch handoff grant owner pubkey must match signer'' else
      rbind (now_timestamp_millis clock) (\<lambda>created_at.
      rbind (with_context ''failed to encode channel epoch handoff grant doc''
        (foreign ''serde_json'' (to_json (cl_handoff_doc L) doc))) (\<lambda>encoded.
      sign_envelope_at (cl_crypto L) owner_keys ''channel-rotation-grant''
        [[''topic'', hgd_topic_id doc], [''channel'', hgd_channel_id doc], [''epoch'', hgd_old_epoch_id doc],
         [''recipient'', hgd_recipient_pubkey doc], [''object'', ''channel-rotation-grant'']]
        encoded created_at)))"

definition parse_private_channel_epoch_handoff_grant ::
    "channel_lib \<Rightarrow> KukuriEnvelope \<Rightarrow> PrivateChannelEpochHandoffGrantDocV1 option result" where
  "parse_private_channel_epoch_handoff_grant L envelope =
     (if env_kind envelope \<noteq> ''channel-rotation-grant'' then Inr None else
      rbind (with_context ''failed to parse channel epoch handoff grant''
        (foreign ''serde_json'' (from_json (cl_handoff_doc L) (env_content envelope)))) (\<lambda>doc.
      rbind (with_context ''invalid channel epoch handoff grant owner''
        (validate_pubkey (cl_crypto L) (hgd_owner_pubkey doc))) (\<lambda>_.
      rbind (with_context ''invalid channel epoch handoff grant recipient''
        (validate_pubkey (cl_crypto L) (hgd_recipient_pubkey doc))) (\<lambda>_.
      if env_pubkey envelope \<noteq> hgd_owner_pubkey doc
      then bail ''channel epoch handoff grant owner pubkey must match envelope signer'' else
      if trim (hgd_old_epoch_id doc) = [] then bail ''channel epoch handoff grant old epoch id is required'' else
      if trim (hgd_new_epoch_id doc) = [] then bail ''channel epoch handoff grant new epoch id is required'' else
      if hgd_old_epoch_id doc = hgd_new_epoch_id doc
      then bail ''channel epoch handoff grant must rotate to a new epoch'' else
      rbind (with_context ''invalid channel epoch handoff grant nonce''
        (foreign ''hex'' (cl_hex_decode L (trim (hgd_nonce_hex doc))))) (\<lambda>nonce.
      if length nonce \<noteq> 24 then bail ''channel epoch handoff grant nonce must be 24 bytes'' else
      rbind (with_context ''invalid channel epoch handoff grant ciphertext''
        (foreign ''hex'' (cl_hex_decode L (trim (hgd_ciphertext_hex doc))))) (\<lambda>_.
      Inr (Some doc)))))))"

section \<open>Sealed key rows\<close>

definition KEY_ROW_CONTEXT :: string where "KEY_ROW_CONTEXT = ''kukuri.app 2026-10-02 private channel key rows v1''"
definition KEY_ROW_AAD_DOMAIN :: string where
  "KEY_ROW_AAD_DOMAIN = ''kukuri private channel key row v1'' @ [CHR 0x00]"

record PrivateChannelKeyRowSeal =
  seal_account :: Pubkey
  seal_key :: string

definition derive_private_channel_key_row_seal :: "channel_lib \<Rightarrow> KukuriKeys \<Rightarrow> PrivateChannelKeyRowSeal" where
  "derive_private_channel_key_row_seal L keys =
     \<lparr>seal_account = public_key (cl_crypto L) keys,
      seal_key = cl_blake3_derive_key L KEY_ROW_CONTEXT (secret_key keys)\<rparr>"

definition seal_aad :: "PrivateChannelKeyRowSeal \<Rightarrow> string \<Rightarrow> string \<Rightarrow> string" where
  "seal_aad s channel_id epoch_id =
     fold (\<lambda>part aad. aad @ part @ [CHR 0x00]) [seal_account s, channel_id, epoch_id] KEY_ROW_AAD_DOMAIN"

definition seal_cipher :: "channel_lib \<Rightarrow> PrivateChannelKeyRowSeal \<Rightarrow> string result" where
  "seal_cipher L s = ok_or ''failed to initialize private channel key row cipher'' (cl_cipher_new L (seal_key s))"

definition seal_row ::
    "channel_lib \<Rightarrow> string \<Rightarrow> PrivateChannelKeyRowSeal \<Rightarrow> string \<Rightarrow> string \<Rightarrow> string \<Rightarrow> string result" where
  "seal_row L nonce s channel_id epoch_id secret_hex =
     rbind (validate_private_channel_secret_hex L secret_hex ''private channel epoch secret'') (\<lambda>_.
     rbind (foreign ''hex'' (cl_hex_decode L (trim secret_hex))) (\<lambda>secret.
     let aad = seal_aad s channel_id epoch_id in
     rbind (seal_cipher L s) (\<lambda>cipher.
     rbind (ok_or ''failed to seal private channel key row'' (cl_encrypt L cipher nonce secret aad)) (\<lambda>ciphertext.
     Inr (nonce @ ciphertext)))))"

definition open_row ::
    "channel_lib \<Rightarrow> PrivateChannelKeyRowSeal \<Rightarrow> string \<Rightarrow> string \<Rightarrow> string \<Rightarrow> string result" where
  "open_row L s channel_id epoch_id sealed =
     rbind (ok_or ''private channel key row is too short''
       (if 24 \<le> length sealed then Some (take 24 sealed, drop 24 sealed) else None)) (\<lambda>(nonce, ciphertext).
     let aad = seal_aad s channel_id epoch_id in
     rbind (seal_cipher L s) (\<lambda>cipher.
     rbind (ok_or ''private channel key row failed authentication'' (cl_decrypt L cipher nonce ciphertext aad)) (\<lambda>bytes.
     let secret = hex_encode (cl_crypto L) bytes in
     rbind (validate_private_channel_secret_hex L secret ''private channel epoch secret'') (\<lambda>_.
     Inr secret))))"

section \<open>The contract of invitations\<close>

lemma validate_pubkey_Inr [result_simps]: "validate_pubkey C k = Inr u \<longleftrightarrow> xonly_from_str C k \<noteq> None"
  by (auto simp: validate_pubkey_def result_simps)

lemma now_timestamp_millis_Inr [result_simps]:
  "now_timestamp_millis clock = Inr t \<longleftrightarrow> (\<exists>ms. clock = Some ms \<and> t = wrap_i64 (int ms))"
  by (auto simp: now_timestamp_millis_def result_simps)

definition secret_ok :: "channel_lib \<Rightarrow> string \<Rightarrow> bool" where
  "secret_ok L s \<longleftrightarrow> (\<exists>bytes. cl_hex_decode L (trim s) = Some bytes \<and> length bytes = 32)"

definition not_expired :: "nat option \<Rightarrow> i64 option \<Rightarrow> bool" where
  "not_expired clock expires \<longleftrightarrow>
     (case expires of None \<Rightarrow> True | Some t \<Rightarrow> (\<exists>ms. clock = Some ms \<and> wrap_i64 (int ms) \<le> t))"

lemma validate_secret_Inr [result_simps]: "validate_private_channel_secret_hex L s label = Inr u \<longleftrightarrow> secret_ok L s"
  by (auto simp: validate_private_channel_secret_hex_def secret_ok_def result_simps)

lemma check_not_expired_Inr [result_simps]: "check_not_expired clock t m = Inr u \<longleftrightarrow> not_expired clock t"
  by (auto simp: check_not_expired_def not_expired_def result_simps split: option.split)

text \<open>
  The three invitations have one shape: a content signed into an envelope, wrapped as a token and
  printed; reading a token back accepts exactly the contents that fit their signer and the clock.
\<close>

definition codec_reads_back :: "'a codec \<Rightarrow> string \<Rightarrow> bool" where
  "codec_reads_back J s \<longleftrightarrow> (\<forall>x. to_json J x = Some s \<longrightarrow> from_json J s = Some x)"

locale channel_token =
  fixes C :: crypto_lib and Jt :: "'t codec" and Jc :: "'c codec" and kind :: string
    and wrap :: "KukuriEnvelope \<Rightarrow> 't" and unwrap :: "'t \<Rightarrow> KukuriEnvelope"
    and fits :: "nat option \<Rightarrow> Pubkey \<Rightarrow> 'c \<Rightarrow> bool" and preview :: "KukuriEnvelope \<Rightarrow> 'c \<Rightarrow> 'p"
    and built :: "KukuriKeys \<Rightarrow> 'c \<Rightarrow> string \<Rightarrow> bool" and parse :: "nat option \<Rightarrow> string \<Rightarrow> 'p result"
  assumes unwrap_wrap: "unwrap (wrap e) = e"
    and built_signs: "built keys c text \<Longrightarrow> \<exists>e. signs C Jc keys kind c e \<and> to_json Jt (wrap e) = Some text"
    and parse_iff: "parse clock text = Inr p \<longleftrightarrow> (\<exists>tok c. from_json Jt text = Some tok \<and>
      verify C (unwrap tok) = Inr () \<and> env_kind (unwrap tok) = kind \<and>
      from_json Jc (env_content (unwrap tok)) = Some c \<and> fits clock (env_pubkey (unwrap tok)) c \<and>
      p = preview (unwrap tok) c)"
begin

lemma built_parses_iff:
  assumes "built keys c text" "schnorr_correct C" "codec_round_trip Jc c" "codec_reads_back Jt text"
  shows "\<exists>e. from_json Jt text = Some (wrap e) \<and> env_pubkey e = public_key C keys \<and>
    (\<forall>clock p. parse clock text = Inr p \<longleftrightarrow> fits clock (public_key C keys) c \<and> p = preview e c)"
proof -
  obtain e cl tags where e: "sign_envelope_json C cl Jc keys kind tags c = Inr e" and t: "to_json Jt (wrap e) = Some text"
    using built_signs [OF assms(1)] by (auto simp: signs_def)
  have v: "verify C e = Inr ()" using sign_envelope_json_verifies [OF e assms(2)] .
  have "from_json Jt text = Some (wrap e)" using assms(4) t by (simp add: codec_reads_back_def)
  with v sign_envelope_json_decodes [OF e assms(3)] show ?thesis
    unfolding parse_iff by (intro exI [of _ e]) (auto simp: unwrap_wrap)
qed

lemma parsed_authentic:
  assumes "parse clock text = Inr p"
  obtains tok c where "from_json Jt text = Some tok" "verify C (unwrap tok) = Inr ()" "env_kind (unwrap tok) = kind"
    "from_json Jc (env_content (unwrap tok)) = Some c" "fits clock (env_pubkey (unwrap tok)) c" "p = preview (unwrap tok) c"
  using assms unfolding parse_iff by blast

end

definition invite_fits :: "channel_lib \<Rightarrow> nat option \<Rightarrow> Pubkey \<Rightarrow> KukuriPrivateChannelInviteEnvelopeContentV1 \<Rightarrow> bool" where
  "invite_fits L clock signer c \<longleftrightarrow> trim (inv_channel_label c) \<noteq> [] \<and>
     xonly_from_str (cl_crypto L) (inv_owner_pubkey c) \<noteq> None \<and> trim (inv_epoch_id c) \<noteq> [] \<and>
     secret_ok L (inv_namespace_secret_hex c) \<and> not_expired clock (inv_expires_at c)"

definition invite_preview :: "KukuriEnvelope \<Rightarrow> KukuriPrivateChannelInviteEnvelopeContentV1 \<Rightarrow> PrivateChannelInvitePreview" where
  "invite_preview e c = \<lparr>ipv_channel_id = inv_channel_id c, ipv_topic_id = inv_topic_id c,
     ipv_channel_label = inv_channel_label c, ipv_inviter_pubkey = env_pubkey e, ipv_owner_pubkey = inv_owner_pubkey c,
     ipv_epoch_id = inv_epoch_id c, ipv_expires_at = inv_expires_at c,
     ipv_namespace_secret_hex = inv_namespace_secret_hex c\<rparr>"

definition invite_of :: "PrivateChannelInviteTokenParams \<Rightarrow> KukuriPrivateChannelInviteEnvelopeContentV1" where
  "invite_of p = \<lparr>inv_channel_id = itp_channel_id p, inv_topic_id = itp_topic p, inv_channel_label = trim (itp_channel_label p),
     inv_owner_pubkey = itp_owner_pubkey p, inv_epoch_id = trim (itp_epoch_id p),
     inv_namespace_secret_hex = trim (itp_namespace_secret_hex p), inv_expires_at = itp_expires_at p\<rparr>"

interpretation invite_tok: channel_token "cl_crypto L" "cl_invite_token L" "cl_invite L" "''channel-invite''"
  "\<lambda>e. \<lparr>itok_envelope = e\<rparr>" itok_envelope "invite_fits L" invite_preview
  "\<lambda>keys c text. \<exists>clock p. c = invite_of p \<and> build_private_channel_invite_token L clock keys p = Inr text"
  "parse_private_channel_invite_token L" for L
  by unfold_locales
    (auto simp: build_private_channel_invite_token_def parse_private_channel_invite_token_def invite_of_def
      invite_fits_def invite_preview_def secret_ok_def result_simps Let_def)

definition grant_fits :: "channel_lib \<Rightarrow> nat option \<Rightarrow> Pubkey \<Rightarrow> KukuriFriendOnlyGrantEnvelopeContentV1 \<Rightarrow> bool" where
  "grant_fits L clock signer c \<longleftrightarrow> xonly_from_str (cl_crypto L) (fog_owner_pubkey c) \<noteq> None \<and> signer = fog_owner_pubkey c \<and>
     trim (fog_channel_label c) \<noteq> [] \<and> trim (fog_epoch_id c) \<noteq> [] \<and>
     secret_ok L (fog_namespace_secret_hex c) \<and> not_expired clock (fog_expires_at c)"

definition grant_preview :: "KukuriEnvelope \<Rightarrow> KukuriFriendOnlyGrantEnvelopeContentV1 \<Rightarrow> FriendOnlyGrantPreview" where
  "grant_preview e c = \<lparr>gpv_channel_id = fog_channel_id c, gpv_topic_id = fog_topic_id c,
     gpv_channel_label = fog_channel_label c, gpv_owner_pubkey = fog_owner_pubkey c, gpv_epoch_id = fog_epoch_id c,
     gpv_expires_at = fog_expires_at c, gpv_namespace_secret_hex = fog_namespace_secret_hex c\<rparr>"

definition grant_of ::
    "Pubkey \<Rightarrow> TopicId \<Rightarrow> ChannelId \<Rightarrow> string \<Rightarrow> string \<Rightarrow> string \<Rightarrow> i64 option \<Rightarrow> KukuriFriendOnlyGrantEnvelopeContentV1" where
  "grant_of owner topic channel label epoch secret expires = \<lparr>fog_channel_id = channel, fog_topic_id = topic,
     fog_channel_label = trim label, fog_owner_pubkey = owner, fog_epoch_id = trim epoch,
     fog_namespace_secret_hex = trim secret, fog_expires_at = expires\<rparr>"

interpretation grant_tok: channel_token "cl_crypto L" "cl_grant_token L" "cl_grant L" "''channel-friend-grant''"
  "\<lambda>e. \<lparr>gtok_envelope = e\<rparr>" gtok_envelope "grant_fits L" grant_preview
  "\<lambda>keys c text. \<exists>clock topic channel label epoch secret expires.
     c = grant_of (public_key (cl_crypto L) keys) topic channel label epoch secret expires \<and>
     build_friend_only_grant_token L clock keys topic channel label epoch secret expires = Inr text"
  "parse_friend_only_grant_token L" for L
  by unfold_locales
    (auto simp: build_friend_only_grant_token_def parse_friend_only_grant_token_def grant_of_def
      grant_fits_def grant_preview_def secret_ok_def result_simps Let_def)

definition share_fits :: "channel_lib \<Rightarrow> nat option \<Rightarrow> Pubkey \<Rightarrow> KukuriFriendPlusShareEnvelopeContentV1 \<Rightarrow> bool" where
  "share_fits L clock signer c \<longleftrightarrow> xonly_from_str (cl_crypto L) (fps_owner_pubkey c) \<noteq> None \<and>
     xonly_from_str (cl_crypto L) (fps_sponsor_pubkey c) \<noteq> None \<and> signer = fps_sponsor_pubkey c \<and>
     trim (fps_channel_label c) \<noteq> [] \<and> trim (fps_epoch_id c) \<noteq> [] \<and>
     secret_ok L (fps_namespace_secret_hex c) \<and> not_expired clock (fps_expires_at c)"

definition share_preview :: "KukuriEnvelope \<Rightarrow> KukuriFriendPlusShareEnvelopeContentV1 \<Rightarrow> FriendPlusSharePreview" where
  "share_preview e c = \<lparr>spv_channel_id = fps_channel_id c, spv_topic_id = fps_topic_id c,
     spv_channel_label = fps_channel_label c, spv_owner_pubkey = fps_owner_pubkey c, spv_sponsor_pubkey = fps_sponsor_pubkey c,
     spv_epoch_id = fps_epoch_id c, spv_expires_at = fps_expires_at c,
     spv_namespace_secret_hex = fps_namespace_secret_hex c, spv_share_token_id = env_id e\<rparr>"

definition share_of ::
    "Pubkey \<Rightarrow> TopicId \<Rightarrow> ChannelId \<Rightarrow> string \<Rightarrow> Pubkey \<Rightarrow> string \<Rightarrow> string \<Rightarrow> i64 option \<Rightarrow>
     KukuriFriendPlusShareEnvelopeContentV1" where
  "share_of sponsor topic channel label owner epoch secret expires = \<lparr>fps_channel_id = channel, fps_topic_id = topic,
     fps_channel_label = trim label, fps_owner_pubkey = owner, fps_sponsor_pubkey = sponsor, fps_epoch_id = trim epoch,
     fps_namespace_secret_hex = trim secret, fps_expires_at = expires\<rparr>"

interpretation share_tok: channel_token "cl_crypto L" "cl_share_token L" "cl_share L" "''channel-share''"
  "\<lambda>e. \<lparr>stok_envelope = e\<rparr>" stok_envelope "share_fits L" share_preview
  "\<lambda>keys c text. \<exists>clock topic channel label owner epoch secret expires.
     c = share_of (public_key (cl_crypto L) keys) topic channel label owner epoch secret expires \<and>
     build_friend_plus_share_token L clock keys topic channel label owner epoch secret expires = Inr text"
  "parse_friend_plus_share_token L" for L
  by unfold_locales
    (auto simp: build_friend_plus_share_token_def parse_friend_plus_share_token_def share_of_def
      share_fits_def share_preview_def result_simps Let_def)

text \<open>A key pair's own public key is a valid key, so a grant fits its owner and a share its sponsor.\<close>

lemma own_key_valid: "schnorr_correct C \<Longrightarrow> xonly_from_str C (public_key C keys) \<noteq> None"
  unfolding schnorr_correct_def public_key_def by (metis option.distinct(1))

lemma secret_ok_trim [simp]: "secret_ok L (trim s) \<longleftrightarrow> secret_ok L s"
  by (simp add: secret_ok_def)

text \<open>
  C14. An invitation says who stands behind it, and reaches the invited. Whatever text a device is given, a
  preview it shows comes from the very envelope in that text: it verifies, has the kind of its token, and
  decodes to the previewed values; its signer is the inviter of an invite, the owner of a friend-only grant and
  the sponsor of a friend-plus share; label and epoch are not blank, the secret has 32 bytes and the token has
  not expired. The builders do not check their arguments; the token they make is read back exactly when
  the label and the epoch given to them are not blank, the secret given has 32 bytes, the owner named is a valid
  key, and the token has not expired, and then it shows the values it was made for.
\<close>

theorem channel_invitations_sound_complete:
  assumes "schnorr_correct (cl_crypto L)"
  shows "(\<forall>clock tk p. parse_private_channel_invite_token L clock tk = Inr p \<longrightarrow>
      (\<exists>e c. from_json (cl_invite_token L) tk = Some \<lparr>itok_envelope = e\<rparr> \<and> verify (cl_crypto L) e = Inr () \<and>
        env_kind e = ''channel-invite'' \<and> from_json (cl_invite L) (env_content e) = Some c \<and>
        p = invite_preview e c \<and> ipv_inviter_pubkey p = env_pubkey e \<and> trim (ipv_channel_label p) \<noteq> [] \<and>
        trim (ipv_epoch_id p) \<noteq> [] \<and> secret_ok L (ipv_namespace_secret_hex p) \<and> not_expired clock (ipv_expires_at p))) \<and>
    (\<forall>clock tk p. parse_friend_only_grant_token L clock tk = Inr p \<longrightarrow>
      (\<exists>e c. from_json (cl_grant_token L) tk = Some \<lparr>gtok_envelope = e\<rparr> \<and> verify (cl_crypto L) e = Inr () \<and>
        env_kind e = ''channel-friend-grant'' \<and> from_json (cl_grant L) (env_content e) = Some c \<and>
        p = grant_preview e c \<and> gpv_owner_pubkey p = env_pubkey e \<and> trim (gpv_channel_label p) \<noteq> [] \<and>
        trim (gpv_epoch_id p) \<noteq> [] \<and> secret_ok L (gpv_namespace_secret_hex p) \<and> not_expired clock (gpv_expires_at p))) \<and>
    (\<forall>clock tk p. parse_friend_plus_share_token L clock tk = Inr p \<longrightarrow>
      (\<exists>e c. from_json (cl_share_token L) tk = Some \<lparr>stok_envelope = e\<rparr> \<and> verify (cl_crypto L) e = Inr () \<and>
        env_kind e = ''channel-share'' \<and> from_json (cl_share L) (env_content e) = Some c \<and>
        p = share_preview e c \<and> spv_sponsor_pubkey p = env_pubkey e \<and> spv_share_token_id p = env_id e \<and>
        trim (spv_channel_label p) \<noteq> [] \<and> trim (spv_epoch_id p) \<noteq> [] \<and>
        secret_ok L (spv_namespace_secret_hex p) \<and> not_expired clock (spv_expires_at p))) \<and>
    (\<forall>cl keys ps tk. build_private_channel_invite_token L cl keys ps = Inr tk \<longrightarrow>
      codec_reads_back (cl_invite_token L) tk \<longrightarrow> codec_round_trip (cl_invite L) (invite_of ps) \<longrightarrow>
      (\<exists>e. from_json (cl_invite_token L) tk = Some \<lparr>itok_envelope = e\<rparr> \<and> env_pubkey e = public_key (cl_crypto L) keys \<and>
        (\<forall>clock p. parse_private_channel_invite_token L clock tk = Inr p \<longleftrightarrow>
          trim (itp_channel_label ps) \<noteq> [] \<and> xonly_from_str (cl_crypto L) (itp_owner_pubkey ps) \<noteq> None \<and>
          trim (itp_epoch_id ps) \<noteq> [] \<and> secret_ok L (itp_namespace_secret_hex ps) \<and> not_expired clock (itp_expires_at ps) \<and>
          p = invite_preview e (invite_of ps)))) \<and>
    (\<forall>cl keys t ch l ep sec ex tk. build_friend_only_grant_token L cl keys t ch l ep sec ex = Inr tk \<longrightarrow>
      codec_reads_back (cl_grant_token L) tk \<longrightarrow>
      codec_round_trip (cl_grant L) (grant_of (public_key (cl_crypto L) keys) t ch l ep sec ex) \<longrightarrow>
      (\<exists>e. from_json (cl_grant_token L) tk = Some \<lparr>gtok_envelope = e\<rparr> \<and> env_pubkey e = public_key (cl_crypto L) keys \<and>
        (\<forall>clock p. parse_friend_only_grant_token L clock tk = Inr p \<longleftrightarrow>
          trim l \<noteq> [] \<and> trim ep \<noteq> [] \<and> secret_ok L sec \<and> not_expired clock ex \<and>
          p = grant_preview e (grant_of (public_key (cl_crypto L) keys) t ch l ep sec ex)))) \<and>
    (\<forall>cl keys t ch l ow ep sec ex tk. build_friend_plus_share_token L cl keys t ch l ow ep sec ex = Inr tk \<longrightarrow>
      codec_reads_back (cl_share_token L) tk \<longrightarrow>
      codec_round_trip (cl_share L) (share_of (public_key (cl_crypto L) keys) t ch l ow ep sec ex) \<longrightarrow>
      (\<exists>e. from_json (cl_share_token L) tk = Some \<lparr>stok_envelope = e\<rparr> \<and> env_pubkey e = public_key (cl_crypto L) keys \<and>
        (\<forall>clock p. parse_friend_plus_share_token L clock tk = Inr p \<longleftrightarrow>
          xonly_from_str (cl_crypto L) ow \<noteq> None \<and> trim l \<noteq> [] \<and> trim ep \<noteq> [] \<and> secret_ok L sec \<and> not_expired clock ex \<and>
          p = share_preview e (share_of (public_key (cl_crypto L) keys) t ch l ow ep sec ex))))"
proof (intro conjI allI impI, goal_cases)
  case (1 clock tk p)
  then show ?case
    by (rule invite_tok.parsed_authentic)
      (rule exI [of _ "itok_envelope _"], rule exI, auto simp: invite_fits_def invite_preview_def)
next
  case (2 clock tk p)
  then show ?case
    by (rule grant_tok.parsed_authentic)
      (rule exI [of _ "gtok_envelope _"], rule exI, auto simp: grant_fits_def grant_preview_def)
next
  case (3 clock tk p)
  then show ?case
    by (rule share_tok.parsed_authentic)
      (rule exI [of _ "stok_envelope _"], rule exI, auto simp: share_fits_def share_preview_def)
next
  case (4 cl keys ps tk)
  have "\<exists>cl p. invite_of ps = invite_of p \<and> build_private_channel_invite_token L cl keys p = Inr tk" using 4(1) by blast
  from invite_tok.built_parses_iff [OF this assms 4(3) 4(2)] show ?case
    by (simp add: invite_fits_def invite_of_def conj_assoc)
next
  case (5 cl keys t ch l ep sec ex tk)
  let ?c = "grant_of (public_key (cl_crypto L) keys) t ch l ep sec ex"
  have "\<exists>cl t' ch' l' ep' sec' ex'. ?c = grant_of (public_key (cl_crypto L) keys) t' ch' l' ep' sec' ex' \<and>
      build_friend_only_grant_token L cl keys t' ch' l' ep' sec' ex' = Inr tk" using 5(1) by blast
  from grant_tok.built_parses_iff [OF this assms 5(3) 5(2)] own_key_valid [OF assms] show ?case
    by (simp add: grant_fits_def grant_of_def conj_assoc)
next
  case (6 cl keys t ch l ow ep sec ex tk)
  let ?c = "share_of (public_key (cl_crypto L) keys) t ch l ow ep sec ex"
  have "\<exists>cl t' ch' l' ow' ep' sec' ex'. ?c = share_of (public_key (cl_crypto L) keys) t' ch' l' ow' ep' sec' ex' \<and>
      build_friend_plus_share_token L cl keys t' ch' l' ow' ep' sec' ex' = Inr tk" using 6(1) by blast
  from share_tok.built_parses_iff [OF this assms 6(3) 6(2)] own_key_valid [OF assms] show ?case
    by (simp add: share_fits_def share_of_def conj_assoc)
qed

section \<open>Epoch grants\<close>

text \<open>
  What the libraries document: hexadecimal text reads back and has no white space, decryption undoes
  encryption under the same key, nonce and associated data, and the key agreement is symmetric (the
  even point of a public key belongs to the secret key, negated if its own point is odd).
\<close>

definition hex_reads_back :: "channel_lib \<Rightarrow> bool" where
  "hex_reads_back L \<longleftrightarrow> (\<forall>x. cl_hex_decode L (hex_encode (cl_crypto L) x) = Some x \<and>
     trim (hex_encode (cl_crypto L) x) = hex_encode (cl_crypto L) x)"

definition aead_correct :: "channel_lib \<Rightarrow> bool" where
  "aead_correct L \<longleftrightarrow> (\<forall>k n m a c. cl_encrypt L k n m a = Some c \<longrightarrow> cl_decrypt L k n c a = Some m)"

definition ecdh_symmetric :: "channel_lib \<Rightarrow> bool" where
  "ecdh_symmetric L \<longleftrightarrow> (\<exists>point.
     (\<forall>sk k. xonly_from_str (cl_crypto L) (public_key_of (cl_crypto L) sk) = Some k \<longrightarrow>
        cl_even_point L k = point (if cl_odd_parity L sk then cl_negate L sk else sk)) \<and>
     (\<forall>a b. cl_shared_secret L (point a) b = cl_shared_secret L (point b) a))"

lemma pairwise_shared_secret_agrees:
  assumes "ecdh_symmetric L" "pairwise_shared_secret L a (public_key (cl_crypto L) b) = Inr s"
    and "xonly_from_str (cl_crypto L) (public_key (cl_crypto L) a) \<noteq> None"
  shows "pairwise_shared_secret L b (public_key (cl_crypto L) a) = Inr s"
  using assms unfolding ecdh_symmetric_def pairwise_shared_secret_def public_key_def Let_def
  by (auto simp: result_simps)

lemma handoff_key_agrees:
  assumes "ecdh_symmetric L" "derive_epoch_handoff_grant_key L a (public_key (cl_crypto L) b) p = Inr k"
    and "xonly_from_str (cl_crypto L) (public_key (cl_crypto L) a) \<noteq> None"
    and "epoch_handoff_grant_aad q = epoch_handoff_grant_aad p"
  shows "derive_epoch_handoff_grant_key L b (public_key (cl_crypto L) a) q = Inr k"
  using assms(2,4) pairwise_shared_secret_agrees [OF assms(1) _ assms(3)]
  by (auto simp: derive_epoch_handoff_grant_key_def result_simps)

lemma schnorr_xonly: "schnorr_correct C \<Longrightarrow> xonly_from_str C (public_key C keys) \<noteq> None"
  unfolding schnorr_correct_def public_key_def by (metis option.distinct(1))

text \<open>
  C39. An epoch grant reaches its recipient: a grant the owner encrypts and publishes for a member
  verifies, parses, and decrypts under the member's key to the payload, and a key pair under which the
  grant decrypts at all is the recipient's and yields the channel, owner, recipient and epochs the
  published document names.
\<close>

theorem epoch_grant_delivered:
  assumes "encrypt_private_channel_epoch_handoff_grant L nonce owner payload = Inr doc"
    and "build_private_channel_epoch_handoff_grant_envelope L clock owner doc = Inr e"
    and "public_key (cl_crypto L) member = hgp_recipient_pubkey payload" "length nonce = 24"
    and "hgp_old_epoch_id payload \<noteq> hgp_new_epoch_id payload"
    and lib: "schnorr_correct (cl_crypto L)" "hex_reads_back L" "aead_correct L" "ecdh_symmetric L"
      "codec_round_trip (cl_handoff_payload L) payload" "codec_round_trip (cl_handoff_doc L) doc"
  shows "verify (cl_crypto L) e = Inr () \<and> parse_private_channel_epoch_handoff_grant L e = Inr (Some doc) \<and>
    decrypt_private_channel_epoch_handoff_grant L member doc = Inr payload \<and>
    (\<forall>keys p. decrypt_private_channel_epoch_handoff_grant L keys doc = Inr p \<longrightarrow>
      public_key (cl_crypto L) keys = public_key (cl_crypto L) member \<and>
      p = payload\<lparr>hgp_new_namespace_secret_hex := hgp_new_namespace_secret_hex p\<rparr>)"
proof -
  have own: "hgp_owner_pubkey payload = public_key (cl_crypto L) owner" and sec: "secret_ok L (hgp_new_namespace_secret_hex payload)"
    and ep: "trim (hgp_old_epoch_id payload) \<noteq> []" "trim (hgp_new_epoch_id payload) \<noteq> []"
    and rec: "xonly_from_str (cl_crypto L) (hgp_recipient_pubkey payload) \<noteq> None"
    using assms(1) by (auto simp: encrypt_private_channel_epoch_handoff_grant_def result_simps)
  from assms(1) obtain tk key cipher ct where
    j: "to_json (cl_handoff_payload L) payload = Some tk"
    and key: "derive_epoch_handoff_grant_key L owner (hgp_recipient_pubkey payload) payload = Inr key"
    and ci: "cl_cipher_new L key = Some cipher"
    and ct: "cl_encrypt L cipher nonce tk (epoch_handoff_grant_aad payload) = Some ct"
    and doc: "doc = \<lparr>hgd_channel_id = hgp_channel_id payload, hgd_topic_id = hgp_topic_id payload,
        hgd_owner_pubkey = hgp_owner_pubkey payload, hgd_recipient_pubkey = hgp_recipient_pubkey payload,
        hgd_old_epoch_id = hgp_old_epoch_id payload, hgd_new_epoch_id = hgp_new_epoch_id payload,
        hgd_nonce_hex = hex_encode (cl_crypto L) nonce, hgd_ciphertext_hex = hex_encode (cl_crypto L) ct\<rparr>"
    by (auto simp: encrypt_private_channel_epoch_handoff_grant_def result_simps)
  have aad: "epoch_handoff_grant_aad (handoff_stub doc) = epoch_handoff_grant_aad payload"
    by (simp add: epoch_handoff_grant_aad_def handoff_stub_def doc)
  have "derive_epoch_handoff_grant_key L member (public_key (cl_crypto L) owner) (handoff_stub doc) = Inr key"
    by (rule handoff_key_agrees [OF lib(4) _ schnorr_xonly [OF lib(1)] aad]) (use key assms(3) in simp)
  then have key': "derive_epoch_handoff_grant_key L member (hgp_owner_pubkey payload) (handoff_stub doc) = Inr key"
    using own by simp
  have pt: "cl_decrypt L cipher nonce ct (epoch_handoff_grant_aad payload) = Some tk"
    using ct lib(3) by (simp add: aead_correct_def)
  have from_j: "from_json (cl_handoff_payload L) tk = Some payload"
    using lib(5) j by (auto simp: codec_round_trip_def)
  have hex: "cl_hex_decode L (trim (hex_encode (cl_crypto L) x)) = Some x" for x
    using lib(2) by (simp add: hex_reads_back_def)
  have dec: "decrypt_private_channel_epoch_handoff_grant L member doc = Inr payload"
    using key' aad pt from_j ci sec assms(3,4) hex
    by (simp add: decrypt_private_channel_epoch_handoff_grant_def doc result_simps Let_def)
  have sig: "sign_envelope_at (cl_crypto L) owner ''channel-rotation-grant''
        [[''topic'', hgd_topic_id doc], [''channel'', hgd_channel_id doc], [''epoch'', hgd_old_epoch_id doc],
         [''recipient'', hgd_recipient_pubkey doc], [''object'', ''channel-rotation-grant'']] (env_content e) (env_created_at e) = Inr e"
    and cont: "to_json (cl_handoff_doc L) doc = Some (env_content e)"
    using assms(2) sign_envelope_at_fields
    by (auto simp: build_private_channel_epoch_handoff_grant_envelope_def result_simps)
  note f = sign_envelope_at_fields [OF sig]
  have "from_json (cl_handoff_doc L) (env_content e) = Some doc" using lib(6) cont by (auto simp: codec_round_trip_def)
  moreover have "xonly_from_str (cl_crypto L) (hgp_owner_pubkey payload) \<noteq> None" using schnorr_xonly [OF lib(1)] own by simp
  ultimately have "parse_private_channel_epoch_handoff_grant L e = Inr (Some doc)"
    using f(1,2) own rec ep assms(4,5) hex
    by (simp add: parse_private_channel_epoch_handoff_grant_def doc result_simps)
  moreover have "verify (cl_crypto L) e = Inr ()" by (rule sign_envelope_at_verifies [OF sig lib(1)])
  moreover have "public_key (cl_crypto L) keys = public_key (cl_crypto L) member \<and>
      p = payload\<lparr>hgp_new_namespace_secret_hex := hgp_new_namespace_secret_hex p\<rparr>"
    if "decrypt_private_channel_epoch_handoff_grant L keys doc = Inr p" for keys p
    using that assms(3) by (auto simp: decrypt_private_channel_epoch_handoff_grant_def doc result_simps Let_def)
  ultimately show ?thesis using dec by blast
qed

section \<open>Key rows\<close>

lemma terminated_inject:
  "c \<notin> set a \<Longrightarrow> c \<notin> set b \<Longrightarrow> a @ c # x = b @ c # y \<longleftrightarrow> a = b \<and> x = y" for c :: char
  by (metis split_once_append option.inject prod.inject)

lemma seal_aad_inject:
  assumes "CHR 0x00 \<notin> set (seal_account s)" "CHR 0x00 \<notin> set (seal_account t)" "CHR 0x00 \<notin> set ch" "CHR 0x00 \<notin> set ch'"
    and "seal_aad s ch ep = seal_aad t ch' ep'"
  shows "seal_account s = seal_account t \<and> ch = ch' \<and> ep = ep'"
  using assms by (auto simp: seal_aad_def terminated_inject)

text \<open>
  A sealed key row opens where it was sealed, and only there: sealing an epoch secret and opening
  the row for the same account, channel and epoch gives the secret back, and a row that opens for any
  account, channel and epoch was sealed for them, unless it exhibits a forgery of the cipher (a
  ciphertext that decrypts under other associated data than it was made with).
\<close>

lemma key_row_bound:
  assumes "seal_row L nonce s channel epoch secret = Inr row" "length nonce = 24"
    and lib: "hex_reads_back L" "aead_correct L"
    and "CHR 0x00 \<notin> set (seal_account s)" "CHR 0x00 \<notin> set channel"
  shows "(\<exists>bytes. cl_hex_decode L (trim secret) = Some bytes \<and> length bytes = 32 \<and>
      open_row L s channel epoch row = Inr (hex_encode (cl_crypto L) bytes)) \<and>
    (\<forall>t channel' epoch' x. CHR 0x00 \<notin> set (seal_account t) \<longrightarrow> CHR 0x00 \<notin> set channel' \<longrightarrow>
      open_row L t channel' epoch' row = Inr x \<longrightarrow>
      seal_account t = seal_account s \<and> channel' = channel \<and> epoch' = epoch \<or>
      (\<exists>k k' n m m' a a' c. cl_encrypt L k n m a = Some c \<and> cl_decrypt L k' n c a' = Some m' \<and> a \<noteq> a'))"
proof -
  from assms(1) obtain bytes cipher ct where b: "cl_hex_decode L (trim secret) = Some bytes" "length bytes = 32"
    and ci: "cl_cipher_new L (seal_key s) = Some cipher"
    and ct: "cl_encrypt L cipher nonce bytes (seal_aad s channel epoch) = Some ct" and row: "row = nonce @ ct"
    by (auto simp: seal_row_def seal_cipher_def secret_ok_def result_simps Let_def)
  have "cl_decrypt L cipher nonce ct (seal_aad s channel epoch) = Some bytes" using ct lib(2) by (simp add: aead_correct_def)
  moreover have "secret_ok L (hex_encode (cl_crypto L) bytes)" using b(2) lib(1) by (simp add: secret_ok_def hex_reads_back_def)
  ultimately have "open_row L s channel epoch row = Inr (hex_encode (cl_crypto L) bytes)"
    using ci assms(2) by (simp add: open_row_def seal_cipher_def row result_simps Let_def)
  moreover have "seal_account t = seal_account s \<and> channel' = channel \<and> epoch' = epoch \<or>
      (\<exists>k k' n m m' a a' c. cl_encrypt L k n m a = Some c \<and> cl_decrypt L k' n c a' = Some m' \<and> a \<noteq> a')"
    if nul: "CHR 0x00 \<notin> set (seal_account t)" "CHR 0x00 \<notin> set channel'" and o: "open_row L t channel' epoch' row = Inr x"
    for t channel' epoch' x
  proof -
    obtain k' m' where d: "cl_decrypt L k' nonce ct (seal_aad t channel' epoch') = Some m'"
      using o assms(2) by (auto simp: open_row_def row result_simps)
    show ?thesis
    proof (cases "seal_aad t channel' epoch' = seal_aad s channel epoch")
      case True
      then show ?thesis using seal_aad_inject nul assms(5,6) by blast
    next
      case False
      with ct d show ?thesis by metis
    qed
  qed
  ultimately show ?thesis using b by blast
qed

section \<open>Samples\<close>

text \<open>A codec that knows one document, and a toy cipher that prefixes the key, nonce and associated data.\<close>

definition pinned_codec :: "'a \<Rightarrow> 'a codec" where
  "pinned_codec d = \<lparr>to_json = (\<lambda>x. if x = d then Some ''{}'' else None), from_json = (\<lambda>_. Some d)\<rparr>"

definition sample_secret :: string where "sample_secret = ''x0123456789abcdef0123456789abcdefx''"
definition sample_nonce :: string where "sample_nonce = ''012345678901234567890123''"

definition fenced_crypto :: crypto_lib where
  "fenced_crypto = sample_crypto\<lparr>hex_encode := (\<lambda>m. ''x'' @ m @ ''x'')\<rparr>"

definition fenced_decode :: "string \<Rightarrow> string option" where
  "fenced_decode s = map_option butlast (strip_prefix ''x'' s)"

definition sample_invite_params :: PrivateChannelInviteTokenParams where
  "sample_invite_params = \<lparr>itp_topic = ''t'', itp_channel_id = ''c'', itp_channel_label = ''Den'', itp_owner_pubkey = ''alice'',
     itp_epoch_id = ''e1'', itp_namespace_secret_hex = sample_secret, itp_expires_at = Some 9\<rparr>"

definition sample_invite_token :: PrivateChannelInviteTokenV1 where
  "sample_invite_token = \<lparr>itok_envelope = projr (sign_envelope_json fenced_crypto (Some 1) (sample_codec (invite_of sample_invite_params))
     \<lparr>secret_key = ''bob''\<rparr> ''channel-invite'' [[''topic'', ''t''], [''object'', ''channel-invite''], [''channel'', ''c'']]
     (invite_of sample_invite_params))\<rparr>"

definition sample_handoff :: PrivateChannelEpochHandoffGrantPayloadV1 where
  "sample_handoff = \<lparr>hgp_channel_id = ''c'', hgp_topic_id = ''t'', hgp_owner_pubkey = ''alice'', hgp_recipient_pubkey = ''bob'',
     hgp_old_epoch_id = ''e1'', hgp_new_epoch_id = ''e2'', hgp_new_namespace_secret_hex = sample_secret\<rparr>"

definition sample_policy :: PrivateChannelPolicyDocV1 where
  "sample_policy = \<lparr>pol_channel_id = ''c'', pol_topic_id = ''t'', pol_audience_kind = InviteOnly, pol_owner_pubkey = ''alice'',
     pol_epoch_id = ''e1'', pol_sharing_state = SharingOpen, pol_rotated_at = None, pol_previous_epoch_id = None,
     pol_entry_dome_instance_id = None\<rparr>"

definition sample_participant :: PrivateChannelParticipantDocV1 where
  "sample_participant = \<lparr>par_channel_id = ''c'', par_topic_id = ''t'', par_epoch_id = ''e1'', par_participant_pubkey = ''bob'',
     par_joined_at = 3, par_is_owner = False, par_join_mode = Some InviteToken, par_sponsor_pubkey = None,
     par_share_token_id = None, par_left_at = None\<rparr>"

definition sample_handoff_doc :: PrivateChannelEpochHandoffGrantDocV1 where
  "sample_handoff_doc = \<lparr>hgd_channel_id = ''c'', hgd_topic_id = ''t'', hgd_owner_pubkey = ''alice'', hgd_recipient_pubkey = ''bob'',
     hgd_old_epoch_id = ''e1'', hgd_new_epoch_id = ''e2'', hgd_nonce_hex = ''x'' @ sample_nonce @ ''x'',
     hgd_ciphertext_hex = ''xalicebob'' @ sample_nonce @ epoch_handoff_grant_aad sample_handoff @ ''{}x''\<rparr>"

definition sample_channels :: channel_lib where
  "sample_channels = \<lparr>cl_crypto = fenced_crypto, cl_hex_decode = fenced_decode, cl_even_point = (\<lambda>k. k), cl_odd_parity = (\<lambda>_. False),
     cl_negate = (\<lambda>k. k), cl_shared_secret = (\<lambda>p s. if p \<le> s then p @ s else s @ p),
     cl_hkdf = (\<lambda>_ ikm _. Some ikm), cl_blake3_derive_key = (\<lambda>_ k. k), cl_cipher_new = Some,
     cl_encrypt = (\<lambda>k n m a. Some (k @ n @ a @ m)), cl_decrypt = (\<lambda>k n c a. strip_prefix (k @ n @ a) c),
     cl_invite = sample_codec (invite_of sample_invite_params), cl_invite_token = pinned_codec sample_invite_token,
     cl_grant = sample_codec (grant_of [] [] [] [] [] [] None), cl_grant_token = pinned_codec \<lparr>gtok_envelope = itok_envelope sample_invite_token\<rparr>,
     cl_share = sample_codec (share_of [] [] [] [] [] [] [] None), cl_share_token = pinned_codec \<lparr>stok_envelope = itok_envelope sample_invite_token\<rparr>,
     cl_policy = sample_codec sample_policy, cl_participant = sample_codec sample_participant,
     cl_handoff_payload = sample_codec sample_handoff, cl_handoff_doc = sample_codec sample_handoff_doc\<rparr>"

lemma trim_fenced: "trim (''x'' @ m @ ''x'') = ''x'' @ m @ ''x''"
  by (auto simp: trim_fixed_iff skip_front_def skip_back_def skip_by_def white1_def white2_def white3_def split: list.split)

lemma sample_channels_laws:
  "schnorr_correct (cl_crypto sample_channels)" "hex_reads_back sample_channels" "aead_correct sample_channels" "ecdh_symmetric sample_channels"
  "codec_reads_back (cl_invite_token sample_channels) x"
  "codec_round_trip (cl_invite sample_channels) (invite_of sample_invite_params)"
  "codec_round_trip (cl_handoff_payload sample_channels) sample_handoff"
  "codec_round_trip (cl_handoff_doc sample_channels) sample_handoff_doc"
proof -
  show "schnorr_correct (cl_crypto sample_channels)"
    using sample_crypto_correct by (simp add: schnorr_correct_def sample_channels_def fenced_crypto_def)
  show "hex_reads_back sample_channels"
    using trim_fenced by (simp add: hex_reads_back_def sample_channels_def fenced_crypto_def fenced_decode_def strip_prefix_def starts_with_def)
  show "aead_correct sample_channels"
    by (simp add: aead_correct_def sample_channels_def strip_prefix_Some)
  show "ecdh_symmetric sample_channels"
    unfolding ecdh_symmetric_def by (rule exI [of _ "\<lambda>k. k"]) (auto simp: sample_channels_def sample_crypto_def fenced_crypto_def)
qed (auto simp: sample_channels_def codec_reads_back_def pinned_codec_def split: if_splits)

text \<open>The sample invite is read while it is in date, and refused afterwards.\<close>

theorem channel_invitations_witness:
  "\<exists>tk e. build_private_channel_invite_token sample_channels (Some 1) \<lparr>secret_key = ''bob''\<rparr> sample_invite_params = Inr tk \<and>
     env_pubkey e = ''bob'' \<and>
     parse_private_channel_invite_token sample_channels (Some 5) tk = Inr (invite_preview e (invite_of sample_invite_params)) \<and>
     (\<forall>p. parse_private_channel_invite_token sample_channels (Some 10) tk \<noteq> Inr p)"
proof -
  have b: "build_private_channel_invite_token sample_channels (Some 1) \<lparr>secret_key = ''bob''\<rparr> sample_invite_params = Inr ''{}''"
    by code_simp
  have "trim ''Den'' = ''Den''" "trim ''e1'' = ''e1''" "trim sample_secret = sample_secret" "map_option length (fenced_decode sample_secret) = Some 32"
    by code_simp+
  then have usable: "trim (itp_channel_label sample_invite_params) \<noteq> []" "trim (itp_epoch_id sample_invite_params) \<noteq> []"
      "xonly_from_str (cl_crypto sample_channels) (itp_owner_pubkey sample_invite_params) \<noteq> None"
      "secret_ok sample_channels (itp_namespace_secret_hex sample_invite_params)"
    by (simp_all add: sample_invite_params_def secret_ok_def sample_channels_def sample_crypto_def fenced_crypto_def)
  have dates: "not_expired (Some 5) (itp_expires_at sample_invite_params)" "\<not> not_expired (Some 10) (itp_expires_at sample_invite_params)"
    by (simp_all add: not_expired_def sample_invite_params_def wrap_i64_def)
  have k: "public_key (cl_crypto sample_channels) \<lparr>secret_key = ''bob''\<rparr> = ''bob''" by code_simp
  from channel_invitations_sound_complete [OF sample_channels_laws(1), THEN conjunct2, THEN conjunct2, THEN conjunct2,
      THEN conjunct1, rule_format, OF b sample_channels_laws(5,6)] b usable dates
  show ?thesis unfolding k by auto
qed

theorem epoch_grant_delivered_witness:
  "\<exists>e. build_private_channel_epoch_handoff_grant_envelope sample_channels (Some 4) \<lparr>secret_key = ''alice''\<rparr> sample_handoff_doc = Inr e \<and>
     parse_private_channel_epoch_handoff_grant sample_channels e = Inr (Some sample_handoff_doc) \<and>
     decrypt_private_channel_epoch_handoff_grant sample_channels \<lparr>secret_key = ''bob''\<rparr> sample_handoff_doc = Inr sample_handoff"
proof -
  have enc: "encrypt_private_channel_epoch_handoff_grant sample_channels sample_nonce \<lparr>secret_key = ''alice''\<rparr> sample_handoff =
      Inr sample_handoff_doc" by code_simp
  obtain e where e: "build_private_channel_epoch_handoff_grant_envelope sample_channels (Some 4) \<lparr>secret_key = ''alice''\<rparr>
      sample_handoff_doc = Inr e"
  proof -
    have "is_ok (build_private_channel_epoch_handoff_grant_envelope sample_channels (Some 4) \<lparr>secret_key = ''alice''\<rparr>
        sample_handoff_doc)" by code_simp
    then show ?thesis using that by (auto simp: is_ok_iff)
  qed
  have "public_key (cl_crypto sample_channels) \<lparr>secret_key = ''bob''\<rparr> = hgp_recipient_pubkey sample_handoff"
    "length sample_nonce = 24" "hgp_old_epoch_id sample_handoff \<noteq> hgp_new_epoch_id sample_handoff" by code_simp+
  from epoch_grant_delivered [OF enc e this sample_channels_laws(1,2,3,4,7,8)] e show ?thesis by blast
qed

lemma key_row_bound_witness:
  "\<exists>row. seal_row sample_channels sample_nonce \<lparr>seal_account = ''alice'', seal_key = ''k''\<rparr> ''c'' ''e1'' sample_secret = Inr row \<and>
     is_ok (open_row sample_channels \<lparr>seal_account = ''alice'', seal_key = ''k''\<rparr> ''c'' ''e1'' row)"
proof -
  let ?s = "\<lparr>seal_account = ''alice'', seal_key = ''k''\<rparr>"
  have "is_ok (seal_row sample_channels sample_nonce ?s ''c'' ''e1'' sample_secret)" by code_simp
  then obtain row where r: "seal_row sample_channels sample_nonce ?s ''c'' ''e1'' sample_secret = Inr row"
    by (auto simp: is_ok_iff)
  have "length sample_nonce = 24" "CHR 0x00 \<notin> set (seal_account ?s)" "CHR 0x00 \<notin> set ''c''" by code_simp+
  from key_row_bound [OF r this(1) sample_channels_laws(2,3) this(2,3)] r show ?thesis by (auto simp: is_ok_iff)
qed

end
