(* ===== verification/Dome_Transition.thy ===== *)
theory Dome_Transition
  imports Dome_Topology Dome_Hosting Private_Channels
begin

text \<open>
  Walking from one Dome to the next (\<^verbatim>\<open>crates/core/src/dome_transition.rs\<close>,
  \<^verbatim>\<open>dome_session.rs\<close>): the admission request and ticket, the proof of access to a
  Spatial Context that a visitor shows a host, the phases of a transition, the geometry of the
  connection zone, and the requests of the session route. A proof for a private channel carries the
  channel's policy and the visitor's participant document, so this is where Domes meet private
  channels: \<open>L\<close> is the \<open>channel_lib\<close> and \<open>J\<close> the codec of the access statement.
\<close>

section \<open>Requests, tickets and proofs\<close>

definition DOME_TRANSITION_TICKET_TTL_MILLIS :: i64 where "DOME_TRANSITION_TICKET_TTL_MILLIS = 15000"
definition DOME_TRANSITION_CROSSING_HYSTERESIS_CM :: i64 where "DOME_TRANSITION_CROSSING_HYSTERESIS_CM = 10"
definition DOME_ACCESS_PROOF_TTL_MILLIS :: i64 where "DOME_ACCESS_PROOF_TTL_MILLIS = 10000"

datatype DomeTransitionDenialReasonV1 =
    HostUnavailable | AccessDenied | OwnersBlocked | VisitorBlocked | CapacityFull | AssetsUnavailable
  | StaleTopology | StaleSession | InvalidTicket

fun denial_code :: "DomeTransitionDenialReasonV1 \<Rightarrow> string" where
  "denial_code HostUnavailable = ''DOME_TRANSITION_HOST_UNAVAILABLE''"
| "denial_code AccessDenied = ''DOME_TRANSITION_ACCESS_DENIED''"
| "denial_code OwnersBlocked = ''DOME_TRANSITION_OWNERS_BLOCKED''"
| "denial_code VisitorBlocked = ''DOME_TRANSITION_VISITOR_BLOCKED''"
| "denial_code CapacityFull = ''DOME_TRANSITION_CAPACITY_FULL''"
| "denial_code AssetsUnavailable = ''DOME_TRANSITION_ASSETS_UNAVAILABLE''"
| "denial_code StaleTopology = ''DOME_TRANSITION_STALE_TOPOLOGY''"
| "denial_code StaleSession = ''DOME_TRANSITION_STALE_SESSION''"
| "denial_code InvalidTicket = ''DOME_TRANSITION_INVALID_TICKET''"

datatype DomeTransitionPhaseV1 =
  PhaseClosed | PhaseLoading | PhaseReady | Preparing | Provisional | Committing | Committed | PhaseFailed

record DomeTransitionAdmissionRequestV1 =
  tr_transition_id :: string
  tr_connection_id :: string
  tr_topology_digest :: string
  tr_spatial_context :: SpatialContextV1
  tr_source_instance_id :: string
  tr_source_instance_generation :: u64
  tr_target_instance_id :: string
  tr_target_instance_generation :: u64
  tr_participant_pubkey :: Pubkey
  tr_direction :: DomeDirection
  tr_requested_at :: i64

record DomeTransitionAdmissionTicketV1 =
  tk_request :: DomeTransitionAdmissionRequestV1
  tk_target_lease_epoch :: u64
  tk_target_session_id :: string
  tk_expires_at :: i64

datatype DomeTransitionAccessDecisionV1 = AccessAllowed | AccessDecisionDenied DomeTransitionDenialReasonV1

record DomeSpatialAccessStatementV1 =
  st_spatial_context :: SpatialContextV1
  st_participant_pubkey :: Pubkey
  st_target_owner_pubkey :: Pubkey
  st_issued_at :: i64
  st_expires_at :: i64

record DomeSpatialAccessProofV1 =
  ap_statement :: DomeSpatialAccessStatementV1
  ap_participant_signature :: KukuriEnvelope
  ap_channel_policy_signature :: "KukuriEnvelope option"
  ap_channel_participant_signature :: "KukuriEnvelope option"

definition verify_channel_policy_evidence ::
    "channel_lib \<Rightarrow> KukuriEnvelope option \<Rightarrow> PrivateChannelPolicyDocV1 result" where
  "verify_channel_policy_evidence L evidence =
     rbind (ok_or ''channel policy proof is required'' evidence) (\<lambda>envelope.
     rbind (verify (cl_crypto L) envelope) (\<lambda>_.
     rbind (parse_private_channel_policy L envelope) (\<lambda>parsed.
     ok_or ''channel policy proof is invalid'' parsed)))"

definition verify_channel_participant_evidence ::
    "channel_lib \<Rightarrow> KukuriEnvelope option \<Rightarrow> Pubkey \<Rightarrow> PrivateChannelParticipantDocV1 result" where
  "verify_channel_participant_evidence L evidence participant_pubkey =
     rbind (ok_or ''channel participant proof is required'' evidence) (\<lambda>envelope.
     rbind (verify (cl_crypto L) envelope) (\<lambda>_.
     rbind (parse_private_channel_participant L envelope) (\<lambda>parsed.
     rbind (ok_or ''channel participant proof is invalid'' parsed) (\<lambda>participant.
     if par_participant_pubkey participant \<noteq> participant_pubkey
     then bail ''channel participant proof does not match transition participant'' else Inr participant))))"

definition verify_at ::
    "channel_lib \<Rightarrow> DomeSpatialAccessStatementV1 codec \<Rightarrow> DomeSpatialAccessProofV1 \<Rightarrow> i64 \<Rightarrow> unit result" where
  "verify_at L J proof now_millis =
     (let signature = ap_participant_signature proof; statement = ap_statement proof in
      rbind (verify (cl_crypto L) signature) (\<lambda>_.
      if env_kind signature \<noteq> ''dome-access-proof'' \<or> env_pubkey signature \<noteq> st_participant_pubkey statement
      then bail ''Dome access proof participant signature is invalid'' else
      rbind (foreign ''serde_json'' (from_json J (env_content signature))) (\<lambda>signed_statement.
      if signed_statement \<noteq> statement \<or> st_issued_at statement \<le> 0 \<or> st_expires_at statement \<le> now_millis
        \<or> st_expires_at statement > sat_i64 (st_issued_at statement + DOME_ACCESS_PROOF_TTL_MILLIS)
      then bail ''Dome access proof is invalid or expired'' else
      case st_spatial_context statement of
        ContextTopic _ \<Rightarrow>
          if ap_channel_policy_signature proof \<noteq> None \<or> ap_channel_participant_signature proof \<noteq> None
          then bail ''public topic Dome access proof must not include channel evidence'' else Inr ()
      | ContextChannel topic_id channel_id \<Rightarrow>
          rbind (verify_channel_policy_evidence L (ap_channel_policy_signature proof)) (\<lambda>policy.
          rbind (verify_channel_participant_evidence L (ap_channel_participant_signature proof)
            (st_participant_pubkey statement)) (\<lambda>participant.
          if pol_topic_id policy \<noteq> topic_id \<or> pol_channel_id policy \<noteq> channel_id
            \<or> par_topic_id participant \<noteq> topic_id \<or> par_channel_id participant \<noteq> channel_id
            \<or> par_epoch_id participant \<noteq> pol_epoch_id policy \<or> par_left_at participant \<noteq> None
          then bail ''private channel Dome access evidence is stale or mismatched'' else Inr ())))))"

definition verify_for ::
    "channel_lib \<Rightarrow> DomeSpatialAccessStatementV1 codec \<Rightarrow> DomeSpatialAccessProofV1 \<Rightarrow> Pubkey \<Rightarrow> SpatialContextV1 \<Rightarrow>
     Pubkey \<Rightarrow> i64 \<Rightarrow> unit result" where
  "verify_for L J proof participant_pubkey spatial_context target_owner_pubkey now_millis =
     (if st_participant_pubkey (ap_statement proof) \<noteq> participant_pubkey
        \<or> st_spatial_context (ap_statement proof) \<noteq> spatial_context
        \<or> st_target_owner_pubkey (ap_statement proof) \<noteq> target_owner_pubkey
      then bail ''Dome access proof is bound to another participant, context, or owner''
      else verify_at L J proof now_millis)"

definition build_dome_spatial_access_proof ::
    "channel_lib \<Rightarrow> DomeSpatialAccessStatementV1 codec \<Rightarrow> u64 option \<Rightarrow> KukuriKeys \<Rightarrow> SpatialContextV1 \<Rightarrow> Pubkey \<Rightarrow> i64 \<Rightarrow>
     KukuriEnvelope option \<Rightarrow> KukuriEnvelope option \<Rightarrow> DomeSpatialAccessProofV1 result" where
  "build_dome_spatial_access_proof L J clock participant_keys spatial_context target_owner_pubkey issued_at
     channel_policy_signature channel_participant_signature =
     (let statement = \<lparr>st_spatial_context = spatial_context,
        st_participant_pubkey = public_key (cl_crypto L) participant_keys, st_target_owner_pubkey = target_owner_pubkey,
        st_issued_at = issued_at, st_expires_at = sat_i64 (issued_at + DOME_ACCESS_PROOF_TTL_MILLIS)\<rparr> in
      rbind (sign_envelope_json (cl_crypto L) clock J participant_keys ''dome-access-proof''
        [[''participant'', st_participant_pubkey statement], [''context'', canonical_id (st_spatial_context statement)],
         [''target_owner'', st_target_owner_pubkey statement]] statement) (\<lambda>participant_signature.
      let proof = \<lparr>ap_statement = statement, ap_participant_signature = participant_signature,
        ap_channel_policy_signature = channel_policy_signature,
        ap_channel_participant_signature = channel_participant_signature\<rparr> in
      rbind (verify_at L J proof issued_at) (\<lambda>_. Inr proof)))"

definition validate_admission_request :: "DomeTransitionAdmissionRequestV1 \<Rightarrow> unit result" where
  "validate_admission_request request =
     (if trim (tr_transition_id request) = [] \<or> trim (tr_connection_id request) = []
        \<or> trim (tr_topology_digest request) = [] \<or> trim (tr_source_instance_id request) = []
        \<or> trim (tr_target_instance_id request) = []
        \<or> tr_source_instance_id request = tr_target_instance_id request
        \<or> tr_source_instance_generation request = 0 \<or> tr_target_instance_generation request = 0
        \<or> tr_requested_at request \<le> 0
      then bail ''Dome transition admission request is invalid'' else Inr ())"

definition ticket_validate_for ::
    "DomeTransitionAdmissionTicketV1 \<Rightarrow> DomeTransitionAdmissionRequestV1 \<Rightarrow> u64 \<Rightarrow> string \<Rightarrow> i64 \<Rightarrow> unit result" where
  "ticket_validate_for ticket request epoch session_id now_millis =
     rbind (validate_admission_request request) (\<lambda>_.
     if tk_request ticket \<noteq> request \<or> tk_target_lease_epoch ticket \<noteq> epoch
       \<or> tk_target_session_id ticket \<noteq> session_id \<or> tk_expires_at ticket \<le> now_millis
     then bail ''Dome transition admission ticket is invalid or expired'' else Inr ())"

section \<open>Phases\<close>

fun phase_change_valid :: "DomeTransitionPhaseV1 \<Rightarrow> DomeTransitionPhaseV1 \<Rightarrow> bool" where
  "phase_change_valid PhaseClosed PhaseLoading = True"
| "phase_change_valid PhaseLoading PhaseReady = True"
| "phase_change_valid PhaseReady Preparing = True"
| "phase_change_valid Preparing Provisional = True"
| "phase_change_valid Provisional Committing = True"
| "phase_change_valid Committing Committed = True"
| "phase_change_valid PhaseLoading PhaseFailed = True"
| "phase_change_valid PhaseReady PhaseFailed = True"
| "phase_change_valid Preparing PhaseFailed = True"
| "phase_change_valid Provisional PhaseFailed = True"
| "phase_change_valid Committing PhaseFailed = True"
| "phase_change_valid _ _ = False"

definition advance_dome_transition_phase ::
    "DomeTransitionPhaseV1 \<Rightarrow> DomeTransitionPhaseV1 \<Rightarrow> DomeTransitionPhaseV1 result" where
  "advance_dome_transition_phase current next_phase =
     (let valid = phase_change_valid current next_phase in
      if current = next_phase then Inr current
      else if \<not> valid then bail ''invalid Dome transition phase change''
      else Inr next_phase)"

section \<open>The geometry of the connection zone\<close>

fun dome_transition_component_position_cm :: "vec3 \<Rightarrow> vec3 \<Rightarrow> vec3" where
  "dome_transition_component_position_cm (a, b, c) (x, y, z) = (wrap_i64 (a + x), wrap_i64 (b + y), wrap_i64 (c + z))"

fun dome_transition_local_position_cm :: "vec3 \<Rightarrow> vec3 \<Rightarrow> vec3" where
  "dome_transition_local_position_cm (x, y, z) (a, b, c) = (wrap_i64 (x - a), wrap_i64 (y - b), wrap_i64 (z - c))"

definition transform_avatar_between_domes_cm :: "vec3 \<Rightarrow> vec3 \<Rightarrow> vec3 \<Rightarrow> vec3" where
  "transform_avatar_between_domes_cm source_local_position_cm source_coordinate_cm target_coordinate_cm =
     dome_transition_local_position_cm
       (dome_transition_component_position_cm source_coordinate_cm source_local_position_cm) target_coordinate_cm"

fun dome_transition_axis_cm :: "vec3 \<Rightarrow> DomeDirection \<Rightarrow> i64" where
  "dome_transition_axis_cm (x, y, z) North = wrap_i64 (- z)"
| "dome_transition_axis_cm (x, y, z) East = x"
| "dome_transition_axis_cm (x, y, z) South = z"
| "dome_transition_axis_cm (x, y, z) West = wrap_i64 (- x)"

definition dome_transition_progress_millionths :: "vec3 \<Rightarrow> DomeDirection \<Rightarrow> u32" where
  "dome_transition_progress_millionths position_cm direction =
     (let spec = fixed_dome_v1;
          start = fds_connection_boundary_offset_cm spec - tdiv (fds_connection_zone_depth_cm spec) 2;
          axis = dome_transition_axis_cm position_cm direction;
          travelled = max 0 (min (fds_connection_zone_depth_cm spec) (sat_i64 (axis - start))) in
      nat (tdiv (travelled * 1000000) (fds_connection_zone_depth_cm spec) mod 2 ^ 32))"

definition crossed_dome_transition_center :: "vec3 \<Rightarrow> vec3 \<Rightarrow> DomeDirection \<Rightarrow> bool" where
  "crossed_dome_transition_center previous_position_cm current_position_cm direction =
     (let center = fds_connection_boundary_offset_cm fixed_dome_v1 in
      dome_transition_axis_cm previous_position_cm direction \<le> center - DOME_TRANSITION_CROSSING_HYSTERESIS_CM \<and>
      center + DOME_TRANSITION_CROSSING_HYSTERESIS_CM \<le> dome_transition_axis_cm current_position_cm direction)"

section \<open>The session route\<close>

definition DOME_SESSION_REQUEST_MAX_BYTES :: nat where "DOME_SESSION_REQUEST_MAX_BYTES = 256 * 1024"
definition DOME_SESSION_RESPONSE_MAX_BYTES :: nat where "DOME_SESSION_RESPONSE_MAX_BYTES = 8 * 1024 * 1024"
definition DOME_SESSION_RESYNC_MAX_BYTES :: nat where "DOME_SESSION_RESYNC_MAX_BYTES = 16 * 1024 * 1024"

datatype DomeSessionRequestV1 =
    RequestInput SignedDomeSessionInputV1
  | ResyncSnapshots string u64 DomeSpatialAccessProofV1
  | RequestPrepareTransition DomeTransitionAdmissionRequestV1 DomeSpatialAccessProofV1
  | RequestCommitTransition DomeTransitionAdmissionTicketV1 vec3 vec3
  | RequestAbortTransition DomeTransitionAdmissionTicketV1

fun response_limit :: "DomeSessionRequestV1 \<Rightarrow> nat" where
  "response_limit (ResyncSnapshots _ _ _) = DOME_SESSION_RESYNC_MAX_BYTES"
| "response_limit _ = DOME_SESSION_RESPONSE_MAX_BYTES"

datatype DomeSessionResponseV1 =
    ResponseSnapshot SignedDomePhysicsSnapshotV1
  | ResponseSnapshots "SignedDomePhysicsSnapshotV1 list"
  | ResponseTicket DomeTransitionAdmissionTicketV1
  | ResponseAccepted
  | ResponseRejected string "MetaverseResourceRejection option"

section \<open>Access proofs\<close>

lemma policy_evidence_Inr [result_simps]:
  "verify_channel_policy_evidence L ev = Inr p \<longleftrightarrow> (\<exists>e. ev = Some e \<and> verify (cl_crypto L) e = Inr () \<and>
     parse_private_channel_policy L e = Inr (Some p))"
  by (auto simp: verify_channel_policy_evidence_def result_simps)

lemma participant_evidence_Inr [result_simps]:
  "verify_channel_participant_evidence L ev k = Inr p \<longleftrightarrow> (\<exists>e. ev = Some e \<and> verify (cl_crypto L) e = Inr () \<and>
     parse_private_channel_participant L e = Inr (Some p) \<and> par_participant_pubkey p = k)"
  by (auto simp: verify_channel_participant_evidence_def result_simps)

lemma parsed_participant:
  "parse_private_channel_participant L e = Inr (Some p) \<Longrightarrow>
     env_kind e = ''channel-participant'' \<and> env_pubkey e = par_participant_pubkey p \<and>
     from_json (cl_participant L) (env_content e) = Some p"
  by (auto simp: parse_private_channel_participant_def result_simps split: if_splits)

lemma parsed_policy:
  "parse_private_channel_policy L e = Inr (Some p) \<Longrightarrow>
     env_kind e = ''channel-policy'' \<and> env_pubkey e = pol_owner_pubkey p \<and> from_json (cl_policy L) (env_content e) = Some p"
  by (auto simp: parse_private_channel_policy_def result_simps split: if_splits)

definition channel_evidence :: "channel_lib \<Rightarrow> DomeSpatialAccessProofV1 \<Rightarrow> bool" where
  "channel_evidence L pr \<longleftrightarrow> (case st_spatial_context (ap_statement pr) of
     ContextTopic _ \<Rightarrow> ap_channel_policy_signature pr = None \<and> ap_channel_participant_signature pr = None
   | ContextChannel t c \<Rightarrow> (\<exists>pe me pol par. ap_channel_policy_signature pr = Some pe \<and>
       ap_channel_participant_signature pr = Some me \<and> verify (cl_crypto L) pe = Inr () \<and> verify (cl_crypto L) me = Inr () \<and>
       parse_private_channel_policy L pe = Inr (Some pol) \<and> parse_private_channel_participant L me = Inr (Some par) \<and>
       pol_topic_id pol = t \<and> pol_channel_id pol = c \<and> par_topic_id par = t \<and> par_channel_id par = c \<and>
       par_participant_pubkey par = st_participant_pubkey (ap_statement pr) \<and>
       par_epoch_id par = pol_epoch_id pol \<and> par_left_at par = None))"

lemma verify_at_iff:
  "verify_at L J pr now = Inr u \<longleftrightarrow> verify (cl_crypto L) (ap_participant_signature pr) = Inr () \<and>
     env_kind (ap_participant_signature pr) = ''dome-access-proof'' \<and>
     env_pubkey (ap_participant_signature pr) = st_participant_pubkey (ap_statement pr) \<and>
     from_json J (env_content (ap_participant_signature pr)) = Some (ap_statement pr) \<and>
     0 < st_issued_at (ap_statement pr) \<and> now < st_expires_at (ap_statement pr) \<and>
     st_expires_at (ap_statement pr) \<le> sat_i64 (st_issued_at (ap_statement pr) + DOME_ACCESS_PROOF_TTL_MILLIS) \<and>
     channel_evidence L pr"
  by (cases "st_spatial_context (ap_statement pr)")
    (auto simp: verify_at_def channel_evidence_def result_simps Let_def not_le not_less)

lemma verify_for_iff:
  "verify_for L J pr visitor ctx owner now = Inr u \<longleftrightarrow> st_participant_pubkey (ap_statement pr) = visitor \<and>
     st_spatial_context (ap_statement pr) = ctx \<and> st_target_owner_pubkey (ap_statement pr) = owner \<and>
     verify_at L J pr now = Inr ()"
  by (auto simp: verify_for_def result_simps split: if_splits)

text \<open>The statement a visitor signs, and the documents a proof for a private channel rests on.\<close>

definition statement_of :: "channel_lib \<Rightarrow> KukuriKeys \<Rightarrow> SpatialContextV1 \<Rightarrow> Pubkey \<Rightarrow> i64 \<Rightarrow> DomeSpatialAccessStatementV1" where
  "statement_of L keys ctx owner at = \<lparr>st_spatial_context = ctx, st_participant_pubkey = public_key (cl_crypto L) keys,
     st_target_owner_pubkey = owner, st_issued_at = at, st_expires_at = sat_i64 (at + DOME_ACCESS_PROOF_TTL_MILLIS)\<rparr>"

definition membership_docs ::
    "channel_lib \<Rightarrow> string \<Rightarrow> string \<Rightarrow> PrivateChannelPolicyDocV1 \<Rightarrow> PrivateChannelParticipantDocV1 \<Rightarrow> bool" where
  "membership_docs L t c pol par \<longleftrightarrow> pol_topic_id pol = t \<and> pol_channel_id pol = c \<and> par_topic_id par = t \<and> par_channel_id par = c \<and>
     par_epoch_id par = pol_epoch_id pol \<and> par_left_at par = None \<and> trim (pol_epoch_id pol) \<noteq> [] \<and>
     (\<forall>ep. pol_previous_epoch_id pol = Some ep \<longrightarrow> trim ep \<noteq> []) \<and>
     (\<forall>k. par_sponsor_pubkey par = Some k \<longrightarrow> xonly_from_str (cl_crypto L) k \<noteq> None) \<and>
     (\<forall>tok. par_share_token_id par = Some tok \<longrightarrow> trim tok \<noteq> [])"

lemma built_policy_parses:
  assumes "build_private_channel_policy_envelope L clock keys pol = Inr pe" "schnorr_correct (cl_crypto L)"
    "codec_round_trip (cl_policy L) pol" "membership_docs L t c pol par"
  shows "verify (cl_crypto L) pe = Inr ()" "parse_private_channel_policy L pe = Inr (Some pol)"
  using assms own_key_valid [OF assms(2), of keys]
  by (auto simp: build_private_channel_policy_envelope_def parse_private_channel_policy_def result_simps membership_docs_def
      codec_round_trip_def dest: sign_envelope_at_fields sign_envelope_at_verifies split: if_splits option.splits)

lemma built_participant_parses:
  assumes "build_private_channel_participant_envelope L clock keys par = Inr me" "schnorr_correct (cl_crypto L)"
    "codec_round_trip (cl_participant L) par" "membership_docs L t c pol par"
  shows "verify (cl_crypto L) me = Inr ()" "parse_private_channel_participant L me = Inr (Some par)"
    "par_participant_pubkey par = public_key (cl_crypto L) keys"
  using assms own_key_valid [OF assms(2), of keys]
  by (auto simp: build_private_channel_participant_envelope_def parse_private_channel_participant_def result_simps
      membership_docs_def codec_round_trip_def dest: sign_envelope_at_fields sign_envelope_at_verifies
      split: if_splits option.splits)

lemma built_proof:
  assumes "build_dome_spatial_access_proof L J clock keys ctx owner at pe me = Inr pr"
  shows "ap_statement pr = statement_of L keys ctx owner at" "ap_channel_policy_signature pr = pe"
    "ap_channel_participant_signature pr = me" "verify_at L J pr at = Inr ()"
  using assms by (auto simp: build_dome_spatial_access_proof_def statement_of_def Let_def result_simps)

lemma proof_built:
  assumes "schnorr_correct (cl_crypto L)" "canonical_total (cl_crypto L)"
    and J: "codec_round_trip J (statement_of L keys ctx owner at)"
    and t: "0 < at" "at < i64_max"
    and ev: "\<And>e. channel_evidence L \<lparr>ap_statement = statement_of L keys ctx owner at, ap_participant_signature = e,
      ap_channel_policy_signature = pe, ap_channel_participant_signature = me\<rparr>"
  shows "\<exists>pr. build_dome_spatial_access_proof L J (Some clock) keys ctx owner at pe me = Inr pr"
proof -
  let ?s = "statement_of L keys ctx owner at"
  let ?tags = "[[''participant'', public_key (cl_crypto L) keys], [''context'', canonical_id ctx], [''target_owner'', owner]]"
  obtain body where "to_json J ?s = Some body" using J by (auto simp: codec_round_trip_def)
  from sign_envelope_json_ok [OF this, of "cl_crypto L" keys clock "''dome-access-proof''" ?tags] assms(2)
  obtain e where e: "sign_envelope_json (cl_crypto L) (Some clock) J keys ''dome-access-proof'' ?tags ?s = Inr e"
    by (auto simp: canonical_total_def)
  have "at < sat_i64 (at + DOME_ACCESS_PROOF_TTL_MILLIS)"
    using t by (simp add: sat_i64_def DOME_ACCESS_PROOF_TTL_MILLIS_def)
  with sign_envelope_json_decodes [OF e J] sign_envelope_json_verifies [OF e assms(1)] ev [of e] t(1)
  have "verify_at L J \<lparr>ap_statement = ?s, ap_participant_signature = e, ap_channel_policy_signature = pe,
      ap_channel_participant_signature = me\<rparr> at = Inr ()"
    by (simp add: verify_at_iff statement_of_def)
  with e show ?thesis by (simp add: build_dome_spatial_access_proof_def statement_of_def)
qed

text \<open>
  C15. Access to a Dome is proved by the visitor. A proof a host accepts for a visitor, Spatial Context
  and owner is a statement about exactly these, signed by the visitor, not expired, and valid for at
  most ten seconds from the time it says it was issued. For a public topic it carries no channel
  evidence. For a private channel the two envelopes it carries verify: its policy envelope holds a policy
  of that channel, signed by the owner the policy names, and its participant envelope holds a
  participant document the visitor signed for that channel and the policy's epoch, without having left.
  The time of issue is not compared with the clock, so an accepted proof would have been accepted at any
  earlier time as well. Conversely every proof the builder returns, for a topic or a channel, carries the
  evidence it was given and is accepted for its visitor, context and owner at every time before it
  expires; and the builder returns one, at a positive time of issue, for every topic without evidence, and
  for every channel with the envelopes the policy builder and the participant builder made of the
  documents of a current member.
\<close>

theorem access_proof_sound_complete:
  assumes "schnorr_correct (cl_crypto L)" "canonical_total (cl_crypto L)"
  shows "(\<forall>pr visitor ctx owner now. verify_for L J pr visitor ctx owner now = Inr () \<longrightarrow>
      (let s = ap_statement pr; e = ap_participant_signature pr in
       verify (cl_crypto L) e = Inr () \<and> env_kind e = ''dome-access-proof'' \<and> env_pubkey e = visitor \<and>
       from_json J (env_content e) = Some s \<and>
       st_participant_pubkey s = visitor \<and> st_spatial_context s = ctx \<and> st_target_owner_pubkey s = owner \<and>
       now < st_expires_at s \<and> st_expires_at s \<le> st_issued_at s + 10000 \<and> 0 < st_issued_at s \<and>
       (\<forall>t. ctx = ContextTopic t \<longrightarrow> ap_channel_policy_signature pr = None \<and> ap_channel_participant_signature pr = None) \<and>
       (\<forall>t c. ctx = ContextChannel t c \<longrightarrow> (\<exists>pe me pol par. ap_channel_policy_signature pr = Some pe \<and>
          ap_channel_participant_signature pr = Some me \<and> verify (cl_crypto L) pe = Inr () \<and>
          verify (cl_crypto L) me = Inr () \<and> env_kind pe = ''channel-policy'' \<and> env_kind me = ''channel-participant'' \<and>
          env_pubkey me = visitor \<and> env_pubkey pe = pol_owner_pubkey pol \<and>
          from_json (cl_policy L) (env_content pe) = Some pol \<and> from_json (cl_participant L) (env_content me) = Some par \<and>
          par_participant_pubkey par = visitor \<and>
          pol_channel_id pol = c \<and> par_channel_id par = c \<and> pol_topic_id pol = t \<and> par_topic_id par = t \<and>
          par_epoch_id par = pol_epoch_id pol \<and> par_left_at par = None)) \<and>
       (\<forall>early \<le> now. verify_for L J pr visitor ctx owner early = Inr ()))) \<and>
    (\<forall>clock keys ctx owner at pe me pr now. build_dome_spatial_access_proof L J clock keys ctx owner at pe me = Inr pr \<longrightarrow>
      ap_channel_policy_signature pr = pe \<and> ap_channel_participant_signature pr = me \<and>
      (verify_for L J pr (public_key (cl_crypto L) keys) ctx owner now = Inr () \<longleftrightarrow> now < sat_i64 (at + 10000))) \<and>
    (\<forall>clock keys t owner at. 0 < at \<longrightarrow> at < i64_max \<longrightarrow>
      codec_round_trip J (statement_of L keys (ContextTopic t) owner at) \<longrightarrow>
      (\<exists>pr. build_dome_spatial_access_proof L J (Some clock) keys (ContextTopic t) owner at None None = Inr pr)) \<and>
    (\<forall>clock keys t c owner at cp okeys pol pe cm par me. 0 < at \<longrightarrow> at < i64_max \<longrightarrow>
      codec_round_trip J (statement_of L keys (ContextChannel t c) owner at) \<longrightarrow>
      build_private_channel_policy_envelope L cp okeys pol = Inr pe \<longrightarrow> codec_round_trip (cl_policy L) pol \<longrightarrow>
      build_private_channel_participant_envelope L cm keys par = Inr me \<longrightarrow> codec_round_trip (cl_participant L) par \<longrightarrow>
      membership_docs L t c pol par \<longrightarrow>
      (\<exists>pr. build_dome_spatial_access_proof L J (Some clock) keys (ContextChannel t c) owner at (Some pe) (Some me) = Inr pr))"
proof (intro conjI allI impI, goal_cases)
  case (1 pr visitor ctx owner now)
  have sat: "sat_i64 (z + 10000) \<le> z + 10000" if "0 < z" for z using that by (simp add: sat_i64_def)
  note v = 1 [unfolded verify_for_iff verify_at_iff]
  have "\<forall>early \<le> now. verify_for L J pr visitor ctx owner early = Inr ()"
    using v by (auto simp: verify_for_iff verify_at_iff)
  with v sat [of "st_issued_at (ap_statement pr)"] show ?case
    by (cases ctx) (fastforce simp: Let_def DOME_ACCESS_PROOF_TTL_MILLIS_def channel_evidence_def
      dest: parsed_policy parsed_participant)+
next
  case (2 clock keys ctx owner at pe me pr now)
  then show ?case by (rule built_proof(2))
next
  case (3 clock keys ctx owner at pe me pr now)
  then show ?case by (rule built_proof(3))
next
  case (4 clock keys ctx owner at pe me pr now)
  from built_proof(1,4) [OF 4] show ?case
    by (simp add: verify_for_iff verify_at_iff) (auto simp: statement_of_def DOME_ACCESS_PROOF_TTL_MILLIS_def)
next
  case (5 clock keys t owner at)
  show ?case by (rule proof_built [OF assms 5(3,1,2)]) (simp add: channel_evidence_def statement_of_def)
next
  case (6 clock keys t c owner at cp okeys pol pe cm par me)
  note p = built_policy_parses [OF 6(4) assms(1) 6(5,8)] and m = built_participant_parses [OF 6(6) assms(1) 6(7,8)]
  show ?case
    by (rule proof_built [OF assms 6(3,1,2)])
      (use p m 6(8) in \<open>simp add: channel_evidence_def statement_of_def membership_docs_def\<close>)
qed

section \<open>The phases of a transition\<close>

inductive phase_step :: "DomeTransitionPhaseV1 \<Rightarrow> DomeTransitionPhaseV1 \<Rightarrow> bool" where
  "advance_dome_transition_phase p q = Inr r \<Longrightarrow> p \<noteq> r \<Longrightarrow> phase_step p r"

fun phase_rank :: "DomeTransitionPhaseV1 \<Rightarrow> nat" where
  "phase_rank PhaseClosed = 0" | "phase_rank PhaseLoading = 1" | "phase_rank PhaseReady = 2" | "phase_rank Preparing = 3"
| "phase_rank Provisional = 4" | "phase_rank Committing = 5" | "phase_rank Committed = 6" | "phase_rank PhaseFailed = 6"

lemma phase_step_iff: "phase_step p q \<longleftrightarrow> phase_change_valid p q \<and> p \<noteq> q"
  by (auto simp: phase_step.simps advance_dome_transition_phase_def Let_def split: if_splits)

lemma phase_step_rank: "phase_step p q \<Longrightarrow> phase_rank p < phase_rank q"
  unfolding phase_step_iff by (cases p; cases q) auto

lemma phase_step_succ: "phase_step p q \<Longrightarrow> q \<noteq> PhaseFailed \<Longrightarrow> phase_rank q = Suc (phase_rank p)"
  unfolding phase_step_iff by (cases p; cases q) auto

text \<open>
  C28. A transition comes to an end, and only commits by the book: phases never repeat, so every run of
  accepted phase changes has at most six steps; the runs from closed to committed are exactly those
  through all six phases; committed and failed are the phases without a successor; and every phase
  that has begun can still fail.
\<close>

theorem transition_phases_terminate:
  "((phase_step ^^ n) p q \<longrightarrow> n \<le> 6) \<and> ((phase_step ^^ n) PhaseClosed Committed \<longleftrightarrow> n = 6) \<and>
   ((\<nexists>r. phase_step p r) \<longleftrightarrow> p = Committed \<or> p = PhaseFailed) \<and>
   (phase_step p PhaseFailed \<longleftrightarrow> p \<noteq> PhaseClosed \<and> p \<noteq> Committed \<and> p \<noteq> PhaseFailed)"
proof -
  have rank: "(phase_step ^^ n) p q \<Longrightarrow> phase_rank p + n \<le> phase_rank q" for n p q
    by (induction n arbitrary: q) (fastforce dest: phase_step_rank)+
  have bound: "phase_rank q \<le> 6" for q by (cases q) auto
  have run: "(phase_step ^^ n) p q \<Longrightarrow> q \<noteq> PhaseFailed \<Longrightarrow> phase_rank q = phase_rank p + n" for n p q
  proof (induction n arbitrary: q)
    case (Suc n)
    then obtain r where r: "(phase_step ^^ n) p r" "phase_step r q" by auto
    have "r \<noteq> PhaseFailed" using r(2) by (cases q) (auto simp: phase_step_iff)
    with Suc r phase_step_succ show ?case by fastforce
  qed auto
  have step: "phase_step PhaseClosed PhaseLoading" "phase_step PhaseLoading PhaseReady" "phase_step PhaseReady Preparing"
    "phase_step Preparing Provisional" "phase_step Provisional Committing" "phase_step Committing Committed"
    by (simp_all add: phase_step_iff)
  have "(phase_step ^^ Suc (Suc (Suc (Suc (Suc (Suc 0)))))) PhaseClosed Committed"
    by (rule relpowp_Suc_I2 [of phase_step, OF step(1)], rule relpowp_Suc_I2 [of phase_step, OF step(2)], rule relpowp_Suc_I2 [of phase_step, OF step(3)],
        rule relpowp_Suc_I2 [of phase_step, OF step(4)], rule relpowp_Suc_I2 [of phase_step, OF step(5)], rule relpowp_Suc_I2 [of phase_step, OF step(6)], rule relpowp_0_I)
  moreover have "Suc (Suc (Suc (Suc (Suc (Suc 0))))) = 6" by simp
  ultimately have "(phase_step ^^ 6) PhaseClosed Committed" by (simp only:)
  with run [of n PhaseClosed Committed] have "(phase_step ^^ n) PhaseClosed Committed \<longleftrightarrow> n = 6" by auto
  moreover have "(\<nexists>r. phase_step p r) \<longleftrightarrow> p = Committed \<or> p = PhaseFailed"
    unfolding phase_step_iff
    by (cases p) (auto intro: exI [of _ PhaseLoading] exI [of _ PhaseReady] exI [of _ PhaseFailed])
  moreover have "phase_step p PhaseFailed \<longleftrightarrow> p \<noteq> PhaseClosed \<and> p \<noteq> Committed \<and> p \<noteq> PhaseFailed"
    unfolding phase_step_iff by (cases p) auto
  ultimately show ?thesis using rank [of n p q] bound [of q] by auto
qed

section \<open>Geometry\<close>

definition near_vec3 :: "vec3 \<Rightarrow> bool" where
  "near_vec3 v \<longleftrightarrow> list_all (\<lambda>c. \<bar>c\<bar> \<le> 2 ^ 60) (vec3_list v)"

lemma wrap_near: "- (2 ^ 62) \<le> z \<Longrightarrow> z \<le> 2 ^ 62 \<Longrightarrow> wrap_i64 z = z"
  by (rule wrap_i64_id) (simp add: is_i64_def)

lemma wrap_i64_diff: "wrap_i64 (wrap_i64 u - w) = wrap_i64 (u - w)"
  by (simp add: wrap_i64_def mod_simps algebra_simps)

lemma wrap_i64_add: "wrap_i64 (u + wrap_i64 w) = wrap_i64 (u + w)"
  by (simp add: wrap_i64_def mod_simps algebra_simps)

definition vec3_sub :: "vec3 \<Rightarrow> vec3 \<Rightarrow> vec3" where
  "vec3_sub = (\<lambda>(x, y, z) (a, b, c). (x - a, y - b, z - c))"

lemma direction_offsets:
  "direction_offset_cm North = Inr (0, 0, - 5700)" "direction_offset_cm East = Inr (5700, 0, 0)"
  "direction_offset_cm South = Inr (0, 0, 5700)" "direction_offset_cm West = Inr (- 5700, 0, 0)"
  by (simp_all add: direction_offset_cm_def fixed_dome_v1_def)

lemma adjacent_frame:
  assumes "direction_offset_cm d = Inr off" "near_vec3 src" "near_vec3 v"
  shows "transform_avatar_between_domes_cm v src (vec3_add src off) = vec3_sub v off \<and>
      dome_transition_component_position_cm src v = vec3_add src v \<and>
      dome_transition_component_position_cm (vec3_add src off) (vec3_sub v off) = vec3_add src v \<and>
      transform_avatar_between_domes_cm (vec3_sub v off) (vec3_add src off) src = v \<and>
      dome_transition_axis_cm (vec3_sub v off) (opposite_dome_direction d) = 5700 - dome_transition_axis_cm v d"
proof -
  obtain a b c x y z where sv: "src = (a, b, c)" "v = (x, y, z)" by (metis prod_cases3)
  have n: "- (2 ^ 60) \<le> w \<and> w \<le> 2 ^ 60" if "w \<in> {a, b, c, x, y, z}" for w
    using assms(2,3) that by (auto simp: near_vec3_def sv vec3_list_def abs_le_iff)
  have w: "wrap_i64 (i + j - (i + k)) = j - k" "wrap_i64 (i + j) = i + j" "wrap_i64 (i + k + (j - k)) = i + j"
      "wrap_i64 (i + k + (j - k) - i) = j" "wrap_i64 (- j) = - j" "wrap_i64 (k - j) = k - j"
    if "i \<in> {a, b, c, x, y, z}" "j \<in> {a, b, c, x, y, z}" "- 5700 \<le> k" "k \<le> 5700" for i j k
    using n [OF that(1)] n [OF that(2)] that(3,4) by (simp_all add: wrap_near)
  have "off \<in> {(0, 0, - 5700), (5700, 0, 0), (0, 0, 5700), (- 5700, 0, 0)}"
    using assms(1) by (cases d) (simp_all add: direction_offsets)
  then obtain p q r where off: "off = (p, q, r)" "- 5700 \<le> p" "p \<le> 5700" "- 5700 \<le> q" "q \<le> 5700" "- 5700 \<le> r" "r \<le> 5700"
    by auto
  have "dome_transition_axis_cm (vec3_sub v off) (opposite_dome_direction d) = 5700 - dome_transition_axis_cm v d"
    using assms(1) w(5) [of a z 0] w(5) [of a x 0] w(6) [of a z 5700] w(6) [of a x 5700] w(6) [of a x "- 5700"] w(6) [of a z "- 5700"]
      w(1) [of a z 5700] w(1) [of a x 5700] w(1) [of a x "- 5700"] w(1) [of a z "- 5700"]
    by (cases d) (auto simp: direction_offsets sv vec3_sub_def)
  then show ?thesis
    unfolding off(1) sv vec3_add_def vec3_sub_def transform_avatar_between_domes_cm_def
    using w(1) [of a x p] w(1) [of b y q] w(1) [of c z r] w(2) [of a x 0] w(2) [of b y 0] w(2) [of c z 0]
      w(4) [of a x 0] w(4) [of b y 0] w(4) [of c z 0] off
    by (simp add: wrap_i64_diff)
qed

lemma axis_near: "near_vec3 v \<Longrightarrow> \<bar>dome_transition_axis_cm v d\<bar> \<le> 2 ^ 60"
  by (cases v; cases d) (auto simp: near_vec3_def vec3_list_def wrap_near abs_le_iff)

lemma progress_eq:
  assumes "\<bar>dome_transition_axis_cm v d\<bar> \<le> 2 ^ 61"
  shows "dome_transition_progress_millionths v d = nat (max 0 (min 1500 (dome_transition_axis_cm v d - 2100)) * 1000000 div 1500)"
proof -
  let ?t = "max 0 (min 1500 (dome_transition_axis_cm v d - 2100))"
  have "sat_i64 (dome_transition_axis_cm v d - 2100) = dome_transition_axis_cm v d - 2100"
    by (rule sat_i64_id) (use assms in \<open>auto simp: is_i64_def\<close>)
  moreover have "0 \<le> ?t * 1000000 div 1500" "?t * 1000000 div 1500 < 2 ^ 32" by (auto simp: max_def min_def)
  ultimately show ?thesis
    unfolding dome_transition_progress_millionths_def Let_def
    by (simp add: fixed_dome_v1_def tdiv_nonneg del: max_def min_def)
qed

lemma progress_opposite:
  assumes "dome_transition_axis_cm m e = 5700 - dome_transition_axis_cm l d" "\<bar>dome_transition_axis_cm l d\<bar> \<le> 2 ^ 60"
  shows "dome_transition_progress_millionths l d \<le> 1000000 \<and>
    dome_transition_progress_millionths l d + dome_transition_progress_millionths m e \<in> {999999, 1000000}"
proof -
  define t where "t = max 0 (min 1500 (dome_transition_axis_cm l d - 2100))"
  have t: "0 \<le> t" "t \<le> 1500" by (auto simp: t_def)
  have l: "dome_transition_progress_millionths l d = nat (t * 1000000 div 1500)"
    unfolding t_def by (rule progress_eq) (use assms(2) in simp)
  have "max 0 (min 1500 (dome_transition_axis_cm m e - 2100)) = 1500 - t"
    unfolding t_def assms(1) by (auto simp: max_def min_def)
  moreover have "dome_transition_progress_millionths m e =
      nat (max 0 (min 1500 (dome_transition_axis_cm m e - 2100)) * 1000000 div 1500)"
    by (rule progress_eq) (use assms in simp)
  ultimately have "dome_transition_progress_millionths m e = nat ((1500 - t) * 1000000 div 1500)" by simp
  moreover have div: "u * 1000000 div 1500 = 2000 * u div 3" for u :: int
    using div_mult_mult1 [of 500 "2000 * u" 3] by (simp add: mult.commute mult.left_commute)
  ultimately have m: "dome_transition_progress_millionths m e = nat (2000 * (1500 - t) div 3)" by (simp only: div)
  have l': "dome_transition_progress_millionths l d = nat (2000 * t div 3)" unfolding l by (simp only: div)
  have sum: "nat A \<le> 1000000 \<and> nat A + nat B \<in> {999999, 1000000}"
    if "A + B = 999999 \<or> A + B = 1000000" "0 \<le> A" "0 \<le> B" "A \<le> 1000000" for A B :: int
    using that by auto
  define A B where "A = 2000 * t div 3" and "B = 2000 * (1500 - t) div 3"
  have third: "3 * (u div 3) \<le> u" "u < 3 * (u div 3) + 3" for u :: int by linarith+
  have AB: "3 * A \<le> 2000 * t" "2000 * t < 3 * A + 3" "3 * B \<le> 3000000 - 2000 * t" "3000000 - 2000 * t < 3 * B + 3"
    using third [of "2000 * t"] third [of "2000 * (1500 - t)"] by (simp_all add: A_def B_def right_diff_distrib)
  have "A + B = 999999 \<or> A + B = 1000000" using AB by linarith
  moreover have "0 \<le> A" using AB t by linarith
  moreover have "0 \<le> B" using AB t by linarith
  moreover have "A \<le> 1000000" using AB t by linarith
  ultimately show ?thesis unfolding m l' A_def [symmetric] B_def [symmetric] by (rule sum)
qed

text \<open>
  C29. Walking through a connection loses no position: for an avatar in a Dome and the Dome next to it
  in a direction, the position in the target's frame stands for the same place of the component, its
  distance along the way back is the rest of the way (57 m in all), crossing the middle in one frame is
  coming back across it in the other, and the progress shown to the two sides adds up to the whole, up to
  the rounding of one millionth.
\<close>

theorem transition_geometry:
  assumes "direction_offset_cm d = Inr off" "near_vec3 src" "near_vec3 l" "near_vec3 l'"
  defines "tgt \<equiv> vec3_add src off"
  defines "m \<equiv> transform_avatar_between_domes_cm l src tgt" and "m' \<equiv> transform_avatar_between_domes_cm l' src tgt"
  shows "dome_transition_component_position_cm tgt m = dome_transition_component_position_cm src l \<and>
    transform_avatar_between_domes_cm m tgt src = l \<and>
    dome_transition_axis_cm m (opposite_dome_direction d) = 5700 - dome_transition_axis_cm l d \<and>
    (crossed_dome_transition_center m' m (opposite_dome_direction d) \<longleftrightarrow> crossed_dome_transition_center l l' d) \<and>
    dome_transition_progress_millionths l d \<le> 1000000 \<and>
    dome_transition_progress_millionths l d + dome_transition_progress_millionths m (opposite_dome_direction d) \<in> {999999, 1000000}"
proof -
  have id: "near_vec3 v \<Longrightarrow> transform_avatar_between_domes_cm v src tgt = vec3_sub v off \<and>
      dome_transition_component_position_cm src v = vec3_add src v \<and>
      dome_transition_component_position_cm tgt (vec3_sub v off) = vec3_add src v \<and>
      transform_avatar_between_domes_cm (vec3_sub v off) tgt src = v \<and>
      dome_transition_axis_cm (vec3_sub v off) (opposite_dome_direction d) = 5700 - dome_transition_axis_cm v d" for v
    using assms(1,2) adjacent_frame [of d off src v] by (simp add: tgt_def)
  have m: "m = vec3_sub l off" "m' = vec3_sub l' off" using id assms(3,4) by (simp_all add: m_def m'_def)
  have ax: "dome_transition_axis_cm m (opposite_dome_direction d) = 5700 - dome_transition_axis_cm l d"
    "dome_transition_axis_cm m' (opposite_dome_direction d) = 5700 - dome_transition_axis_cm l' d"
    using id assms(3,4) m by simp_all
  have "crossed_dome_transition_center m' m (opposite_dome_direction d) \<longleftrightarrow> crossed_dome_transition_center l l' d"
    unfolding crossed_dome_transition_center_def ax Let_def
    by (auto simp: fixed_dome_v1_def DOME_TRANSITION_CROSSING_HYSTERESIS_CM_def)
  moreover note progress_opposite [OF ax(1) axis_near [OF assms(3)]]
  ultimately show ?thesis using id [OF assms(3)] ax(1) m(1) by simp
qed

section \<open>Samples\<close>

theorem transition_phases_terminate_witness:
  "(phase_step ^^ 6) PhaseClosed Committed \<and> (\<nexists>r. phase_step Committed r) \<and> \<not> (phase_step ^^ 7) PhaseClosed PhaseFailed"
  using transition_phases_terminate [of 6 Committed Committed] transition_phases_terminate [of 7 PhaseClosed PhaseFailed] by auto

theorem transition_geometry_witness:
  "let m = transform_avatar_between_domes_cm (0, 0, - 2900) (0, 0, 0) (0, 0, - 5700) in
   m = (0, 0, 2800) \<and> dome_transition_axis_cm m South = 5700 - dome_transition_axis_cm (0, 0, - 2900) North"
proof -
  have n: "near_vec3 (0, 0, 0)" "near_vec3 (0, 0, - 2900)" by code_simp+
  have "transform_avatar_between_domes_cm (0, 0, - 2900) (0, 0, 0) (0, 0, - 5700) = (0, 0, 2800)" by code_simp
  with transition_geometry [OF direction_offsets(1) n n(2)] show ?thesis by (simp add: vec3_add_def)
qed

definition sample_statement :: "SpatialContextV1 \<Rightarrow> DomeSpatialAccessStatementV1" where
  "sample_statement ctx = \<lparr>st_spatial_context = ctx, st_participant_pubkey = ''bob'', st_target_owner_pubkey = ''alice'',
     st_issued_at = 1000, st_expires_at = 11000\<rparr>"

lemma sample_statement_codec:
  "codec_round_trip (sample_codec (sample_statement ctx)) (statement_of sample_channels \<lparr>secret_key = ''bob''\<rparr> ctx ''alice'' 1000)"
proof -
  have "statement_of sample_channels \<lparr>secret_key = ''bob''\<rparr> ctx ''alice'' 1000 = sample_statement ctx"
    by (simp add: statement_of_def sample_statement_def sample_channels_def fenced_crypto_def sample_crypto_def public_key_def
        DOME_ACCESS_PROOF_TTL_MILLIS_def sat_i64_def)
  then show ?thesis by simp
qed

text \<open>Proofs for a public topic and for a private channel, accepted a millisecond before they expire and refused at expiry.\<close>

theorem access_proof_sound_complete_witness:
  "(\<exists>pr. build_dome_spatial_access_proof sample_channels (sample_codec (sample_statement (ContextTopic ''t''))) (Some 1)
       \<lparr>secret_key = ''bob''\<rparr> (ContextTopic ''t'') ''alice'' 1000 None None = Inr pr \<and>
     verify_for sample_channels (sample_codec (sample_statement (ContextTopic ''t''))) pr ''bob'' (ContextTopic ''t'') ''alice'' 10999 = Inr () \<and>
     env_pubkey (ap_participant_signature pr) = ''bob'') \<and>
   (\<exists>pe me pr. build_dome_spatial_access_proof sample_channels (sample_codec (sample_statement (ContextChannel ''t'' ''c''))) (Some 1)
       \<lparr>secret_key = ''bob''\<rparr> (ContextChannel ''t'' ''c'') ''alice'' 1000 (Some pe) (Some me) = Inr pr \<and>
     verify_for sample_channels (sample_codec (sample_statement (ContextChannel ''t'' ''c''))) pr ''bob'' (ContextChannel ''t'' ''c'') ''alice'' 10999 = Inr () \<and>
     verify_for sample_channels (sample_codec (sample_statement (ContextChannel ''t'' ''c''))) pr ''bob'' (ContextChannel ''t'' ''c'') ''alice'' 11000 \<noteq> Inr ())"
proof -
  let ?k = "\<lparr>secret_key = ''bob''\<rparr>" and ?T = "ContextTopic ''t''" and ?C = "ContextChannel ''t'' ''c''"
  let ?J = "\<lambda>ctx. sample_codec (sample_statement ctx)"
  have k: "public_key (cl_crypto sample_channels) ?k = ''bob''" by code_simp
  have tot: "canonical_total (cl_crypto sample_channels)"
    by (simp add: canonical_total_def sample_channels_def fenced_crypto_def sample_crypto_def)
  have sat: "sat_i64 11000 = 11000" by (simp add: sat_i64_def)
  note th = access_proof_sound_complete [OF sample_channels_laws(1) tot]
  note sound = th [THEN conjunct1, rule_format]
    and kept = th [THEN conjunct2, THEN conjunct1, rule_format, THEN conjunct2, THEN conjunct2]
    and topic = th [THEN conjunct2, THEN conjunct2, THEN conjunct1, rule_format, OF _ _ sample_statement_codec]
    and channel = th [THEN conjunct2, THEN conjunct2, THEN conjunct2, rule_format, OF _ _ sample_statement_codec]
  obtain pr where pr: "build_dome_spatial_access_proof sample_channels (?J ?T) (Some 1) ?k ?T ''alice'' 1000 None None = Inr pr"
    using topic [of "''t''" 1] by auto
  have v: "verify_for sample_channels (?J ?T) pr ''bob'' ?T ''alice'' 10999 = Inr ()" using kept [OF pr, of 10999] by (simp add: k sat)
  from sound [OF v] have "env_pubkey (ap_participant_signature pr) = ''bob''" by (simp add: Let_def)
  moreover have "is_ok (build_private_channel_policy_envelope sample_channels (Some 1) \<lparr>secret_key = ''alice''\<rparr> sample_policy)"
    "is_ok (build_private_channel_participant_envelope sample_channels (Some 1) ?k sample_participant)" by code_simp+
  then obtain pe me where ev: "build_private_channel_policy_envelope sample_channels (Some 1) \<lparr>secret_key = ''alice''\<rparr> sample_policy = Inr pe"
    "build_private_channel_participant_envelope sample_channels (Some 1) ?k sample_participant = Inr me" by (auto simp: is_ok_iff)
  have epoch: "trim ''e1'' \<noteq> []" by code_simp
  have docs: "membership_docs sample_channels ''t'' ''c'' sample_policy sample_participant"
    using epoch by (simp add: membership_docs_def sample_policy_def sample_participant_def)
  have codecs: "codec_round_trip (cl_policy sample_channels) sample_policy"
    "codec_round_trip (cl_participant sample_channels) sample_participant" by (simp_all add: sample_channels_def)
  obtain pr' where pr': "build_dome_spatial_access_proof sample_channels (?J ?C) (Some 1) ?k ?C ''alice'' 1000 (Some pe) (Some me) = Inr pr'"
    using channel [OF _ _ ev(1) codecs(1) ev(2) codecs(2) docs, of 1] by auto
  have "verify_for sample_channels (?J ?C) pr' ''bob'' ?C ''alice'' now = Inr () \<longleftrightarrow> now < 11000" for now
    using kept [OF pr', of now] by (simp add: k sat)
  then have "verify_for sample_channels (?J ?C) pr' ''bob'' ?C ''alice'' 10999 = Inr ()"
    "verify_for sample_channels (?J ?C) pr' ''bob'' ?C ''alice'' 11000 \<noteq> Inr ()" by simp_all
  ultimately show ?thesis using pr v pr' by blast
qed

end
