(* ===== verification/Host_Support.thy ===== *)
theory Host_Support
  imports Dome_Transition
begin

text \<open>
  What the host of a Dome session is built from (\<^verbatim>\<open>crates/metaverse-host/src/support.rs\<close>
  and the constants and small structures of \<^verbatim>\<open>lib.rs\<close>): the ledger that refuses
  replayed inputs, the rate windows, the limits, the shapes handed to the physics engine, and the
  conversions between centimetres and the engine's units. \<open>rapier3d\<close> is the record \<open>rapier\<close> of its
  functions over a world \<open>'w\<close>, body handles \<open>'h\<close> and floating point numbers \<open>'f\<close>; the arithmetic of
  \<open>f32\<close> is the record \<open>f32\<close>.
\<close>

section \<open>Counters\<close>

text \<open>A counter advanced by \<open>+= 1\<close>.\<close>

definition wrap_u64 :: "nat \<Rightarrow> u64" where
  "wrap_u64 n = n mod 2 ^ 64"

text \<open>Saturation and wrap-around at the width, evaluated on integers.\<close>

lemma sat_u64_code [code]: "sat_u64 n = (if int n \<le> 18446744073709551615 then n else nat 18446744073709551615)"
  by (auto simp: sat_u64_def)

lemma sat_u32_code [code]: "sat_u32 n = (if int n \<le> 4294967295 then n else nat 4294967295)"
  by (auto simp: sat_u32_def)

lemma wrap_u64_code [code]: "wrap_u64 n = (if int n < 18446744073709551616 then n else nat (int n mod 18446744073709551616))"
  by (auto simp: wrap_u64_def nat_mod_distrib)

section \<open>The input ledger\<close>

record InputMark =
  mark_sequence :: u64
  mark_sent_at :: i64

definition default_mark :: InputMark where
  "default_mark = \<lparr>mark_sequence = 0, mark_sent_at = 0\<rparr>"

record InputLedger =
  il_active :: "(string, InputMark) btree_map"
  il_departed :: "(string, u64 \<times> InputMark) btree_map"
  il_departures :: u64

definition default_ledger :: InputLedger where
  "default_ledger = \<lparr>il_active = [], il_departed = [], il_departures = 0\<rparr>"

definition input_expired :: "i64 \<Rightarrow> i64 \<Rightarrow> bool" where
  "input_expired sent_at now_millis \<longleftrightarrow> sat_i64 (sent_at + DOME_ACCESS_PROOF_TTL_MILLIS) \<le> now_millis"

definition ledger_mark :: "InputLedger \<Rightarrow> string \<Rightarrow> InputMark option" where
  "ledger_mark l participant_id =
     opt_or (bm_get (il_active l) participant_id) (map_option snd (bm_get (il_departed l) participant_id))"

definition ledger_check :: "DomeSessionInputV1 \<Rightarrow> i64 \<Rightarrow> (InputLedger, unit) host_op" where
  "ledger_check input now_millis l =
     (let l = l\<lparr>il_departed := bm_retain (\<lambda>_ (_, mark). \<not> input_expired (mark_sent_at mark) now_millis) (il_departed l)\<rparr> in
      (if input_expired (in_sent_at input) now_millis then bail ''DOME_SESSION_INPUT_EXPIRED''
       else if in_sequence input \<le>
         (case ledger_mark l (in_participant_pubkey input) of Some mark \<Rightarrow> mark_sequence mark | None \<Rightarrow> 0)
       then bail ''stale Dome session input sequence'' else Inr (), l))"

definition ledger_record :: "DomeSessionInputV1 \<Rightarrow> bool \<Rightarrow> InputLedger \<Rightarrow> InputLedger" where
  "ledger_record input active l =
     (let id = in_participant_pubkey input;
          mark = \<lparr>mark_sequence = in_sequence input,
            mark_sent_at = (case ledger_mark l id of None \<Rightarrow> in_sent_at input
              | Some mark \<Rightarrow> max (mark_sent_at mark) (in_sent_at input))\<rparr> in
      if active then l\<lparr>il_departed := bm_remove id (il_departed l), il_active := bm_insert id mark (il_active l)\<rparr>
      else case bm_get (il_departed l) id of
        Some (order, _) \<Rightarrow> l\<lparr>il_departed := bm_insert id (order, mark) (il_departed l)\<rparr>
      | None \<Rightarrow> l)"

text \<open>\<open>Iterator::min_by_key\<close>: the first entry with the least order.\<close>

fun oldest_departed :: "(string \<times> u64 \<times> InputMark) list \<Rightarrow> string option" where
  "oldest_departed [] = None"
| "oldest_departed ((i, o1, m) # xs) = (case xs of
     [] \<Rightarrow> Some i
   | _ \<Rightarrow> (if \<forall>(_, o2, _) \<in> set xs. o1 \<le> o2 then Some i else oldest_departed xs))"

definition ledger_retire :: "string \<Rightarrow> nat \<Rightarrow> InputLedger \<Rightarrow> InputLedger" where
  "ledger_retire participant_id limit l =
     (let mark = (case ledger_mark l participant_id of Some m \<Rightarrow> m | None \<Rightarrow> default_mark);
          departures = wrap_u64 (il_departures l + 1);
          departed = bm_insert participant_id (departures, mark) (il_departed l);
          l = l\<lparr>il_active := bm_remove participant_id (il_active l), il_departures := departures, il_departed := departed\<rparr> in
      if length departed > limit
      then (case oldest_departed departed of
          Some oldest \<Rightarrow> l\<lparr>il_departed := bm_remove oldest departed\<rparr> | None \<Rightarrow> l)
      else l)"

section \<open>Limits and rate windows\<close>

definition host_check_limit :: "MetaverseBudgetScope \<Rightarrow> MetaverseBudgetResource \<Rightarrow> u64 \<Rightarrow> u64 \<Rightarrow> unit result" where
  "host_check_limit scope resource observed limit =
     (if observed > limit then reject (rejection scope resource LimitExceeded observed limit) else Inr ())"

record RateWindow =
  rw_started_at :: i64
  rw_count :: u64

definition default_window :: RateWindow where
  "default_window = \<lparr>rw_started_at = 0, rw_count = 0\<rparr>"

definition window_allows :: "i64 \<Rightarrow> i64 \<Rightarrow> u64 \<Rightarrow> u64 \<Rightarrow> RateWindow \<Rightarrow> bool \<times> RateWindow" where
  "window_allows now_millis duration_millis amount limit window =
     (let window = (if rw_started_at window = 0 \<or> sat_i64 (now_millis - rw_started_at window) \<ge> duration_millis
            then \<lparr>rw_started_at = now_millis, rw_count = 0\<rparr> else window);
          window = window\<lparr>rw_count := sat_u64 (rw_count window + amount)\<rparr> in
      (rw_count window \<le> limit, window))"

record PlayerBudgetState =
  pbs_input_bytes :: RateWindow
  pbs_spawns :: RateWindow
  pbs_interactions :: RateWindow

definition default_player_budget :: PlayerBudgetState where
  "default_player_budget = \<lparr>pbs_input_bytes = default_window, pbs_spawns = default_window, pbs_interactions = default_window\<rparr>"

section \<open>Numbers and shapes for the physics engine\<close>

record 'f f32 =
  f_of_i64 :: "i64 \<Rightarrow> 'f"
  f_to_i64 :: "'f \<Rightarrow> i64"
  f_add :: "'f \<Rightarrow> 'f \<Rightarrow> 'f"
  f_sub :: "'f \<Rightarrow> 'f \<Rightarrow> 'f"
  f_mul :: "'f \<Rightarrow> 'f \<Rightarrow> 'f"
  f_div :: "'f \<Rightarrow> 'f \<Rightarrow> 'f"
  f_neg :: "'f \<Rightarrow> 'f"
  f_abs :: "'f \<Rightarrow> 'f"
  f_sqrt :: "'f \<Rightarrow> 'f"
  f_round :: "'f \<Rightarrow> 'f"
  f_min :: "'f \<Rightarrow> 'f \<Rightarrow> 'f"
  f_max :: "'f \<Rightarrow> 'f \<Rightarrow> 'f"
  f_clamp :: "'f \<Rightarrow> 'f \<Rightarrow> 'f \<Rightarrow> 'f"
  f_le :: "'f \<Rightarrow> 'f \<Rightarrow> bool"
  f_lt :: "'f \<Rightarrow> 'f \<Rightarrow> bool"

text \<open>A decimal literal is the quotient of two integers, rounded once, as a division is.\<close>

definition f_lit :: "'f f32 \<Rightarrow> int \<Rightarrow> int \<Rightarrow> 'f" where
  "f_lit F a b = f_div F (f_of_i64 F a) (f_of_i64 F b)"

type_synonym 'f fvec = "'f \<times> 'f \<times> 'f"

fun map_vec3 :: "('a \<Rightarrow> 'b) \<Rightarrow> 'a \<times> 'a \<times> 'a \<Rightarrow> 'b \<times> 'b \<times> 'b" where
  "map_vec3 g (x, y, z) = (g x, g y, g z)"

definition centimeters_to_meters :: "'f f32 \<Rightarrow> vec3 \<Rightarrow> 'f fvec" where
  "centimeters_to_meters F = map_vec3 (\<lambda>c. f_div F (f_of_i64 F c) (f_of_i64 F 100))"

definition meters_to_centimeters :: "'f f32 \<Rightarrow> 'f fvec \<Rightarrow> vec3" where
  "meters_to_centimeters F = map_vec3 (\<lambda>c. f_to_i64 F (f_round F (f_mul F c (f_of_i64 F 100))))"

definition milliradians_to_radians :: "'f f32 \<Rightarrow> vec3 \<Rightarrow> 'f fvec" where
  "milliradians_to_radians F = map_vec3 (\<lambda>c. f_div F (f_of_i64 F c) (f_of_i64 F 1000))"

definition radians_to_milliradians :: "'f f32 \<Rightarrow> 'f fvec \<Rightarrow> vec3" where
  "radians_to_milliradians F = map_vec3 (\<lambda>c. f_to_i64 F (f_round F (f_mul F c (f_of_i64 F 1000))))"

datatype body_type = FixedBody | DynamicBody | KinematicBody

record 'f body_spec =
  bsp_type :: body_type
  bsp_translation :: "'f fvec"
  bsp_rotation :: "'f fvec option"
  bsp_ccd :: bool

datatype 'f shape = CapsuleY 'f 'f | CuboidShape 'f 'f 'f

record 'f collider_spec =
  csp_shape :: "'f shape"
  csp_translation :: "'f fvec option"
  csp_friction :: "'f option"
  csp_restitution :: "'f option"

definition collider_builder :: "'f f32 \<Rightarrow> MetaverseColliderV1 option \<Rightarrow> 'f collider_spec" where
  "collider_builder F collider =
     (let cm = (\<lambda>c. f_div F (f_of_i64 F c) (f_of_i64 F 100)) in
      \<lparr>csp_shape = (case collider of
          Some (Capsule _ radius half_height) \<Rightarrow> CapsuleY (cm half_height) (cm radius)
        | Some (Cuboid _ (x, y, z)) \<Rightarrow> CuboidShape (cm x) (cm y) (cm z)
        | None \<Rightarrow> CapsuleY (f_lit F 1 2) (f_lit F 1 4)),
       csp_translation = (case collider of
          Some (Capsule center _ _) \<Rightarrow> Some (map_vec3 cm center)
        | Some (Cuboid center _) \<Rightarrow> Some (map_vec3 cm center)
        | None \<Rightarrow> None),
       csp_friction = None, csp_restitution = None\<rparr>)"

text \<open>
  The functions of the engine: insert a body, attach a collider, remove a body with its colliders,
  read a body's translation, rotation (as a scaled axis) and velocity, set them, push it, advance the
  world by one step, and the boxes around a body's colliders.
\<close>

record ('w, 'h, 'f) rapier =
  rp_new :: "'f \<Rightarrow> 'w"
  rp_insert :: "'f body_spec \<Rightarrow> 'w \<Rightarrow> 'h \<times> 'w"
  rp_attach :: "'f collider_spec \<Rightarrow> 'h \<Rightarrow> 'w \<Rightarrow> 'w"
  rp_remove :: "'h \<Rightarrow> 'w \<Rightarrow> 'w"
  rp_body :: "'w \<Rightarrow> 'h \<Rightarrow> ('f fvec \<times> 'f fvec \<times> 'f fvec) option"
  rp_set_translation :: "'h \<Rightarrow> 'f fvec \<Rightarrow> 'w \<Rightarrow> 'w"
  rp_set_rotation :: "'h \<Rightarrow> 'f fvec \<Rightarrow> 'w \<Rightarrow> 'w"
  rp_apply_impulse :: "'h \<Rightarrow> 'f fvec \<Rightarrow> 'w \<Rightarrow> 'w"
  rp_step :: "'f fvec \<Rightarrow> 'w \<Rightarrow> 'w"
  rp_collider_boxes :: "'w \<Rightarrow> 'h \<Rightarrow> ('f fvec \<times> 'f fvec) option list"

section \<open>Spawn places\<close>

type_synonym box = "vec3 \<times> vec3"

definition collider_bounds_cm :: "MetaverseColliderV1 \<Rightarrow> vec3 \<Rightarrow> i64 \<Rightarrow> box" where
  "collider_bounds_cm collider origin margin =
     (let (center, extents) = (case collider of
          Capsule center radius half_height \<Rightarrow> (center, (radius, wrap_i64 (half_height + radius), radius))
        | Cuboid center half_extents \<Rightarrow> (center, half_extents));
          (ox, oy, oz) = origin; (cx, cy, cz) = center; (ex, ey, ez) = extents;
          x = wrap_i64 (ox + cx); y = wrap_i64 (oy + cy); z = wrap_i64 (oz + cz) in
      ((wrap_i64 (wrap_i64 (x - ex) - margin), wrap_i64 (y - ey), wrap_i64 (wrap_i64 (z - ez) - margin)),
       (wrap_i64 (wrap_i64 (x + ex) + margin), wrap_i64 (y + ey), wrap_i64 (wrap_i64 (z + ez) + margin))))"

definition spawn_bounds_inside_dome :: "box \<Rightarrow> bool" where
  "spawn_bounds_inside_dome bounds =
     (let ((x0, y0, z0), (x1, y1, z1)) = bounds; radius = fds_inner_radius_cm fixed_dome_v1;
          radius_squared = radius * radius in
      0 \<le> y0 \<and> (\<forall>x \<in> set [x0, x1]. \<forall>z \<in> set [z0, z1].
        x * x + z * z < radius_squared \<and> y1 * y1 \<le> radius_squared - (x * x + z * z)))"

fun aabb_overlaps :: "box \<Rightarrow> box \<Rightarrow> bool" where
  "aabb_overlaps ((ax0, ay0, az0), (ax1, ay1, az1)) ((bx0, by0, bz0), (bx1, by1, bz1)) \<longleftrightarrow>
     ax0 < bx1 \<and> ax1 > bx0 \<and> ay0 < by1 \<and> ay1 > by0 \<and> az0 < bz1 \<and> az1 > bz0"

definition STEP_CM :: i64 where "STEP_CM = 150"
definition SAFETY_MARGIN_CM :: i64 where "SAFETY_MARGIN_CM = 25"

definition OFFSETS :: "(i64 \<times> i64) list" where
  "OFFSETS = [(0, 0), (1, 0), (0, 1), (-1, 0), (0, -1), (1, 1), (-1, 1), (-1, -1), (1, -1), (2, 0), (0, 2), (-2, 0),
     (0, -2), (2, 1), (1, 2), (-1, 2), (-2, 1), (-2, -1), (-1, -2), (1, -2), (2, -1), (2, 2), (-2, 2), (-2, -2), (2, -2)]"

section \<open>Replays are refused\<close>

lemma ledger_mark_alt:
  "ledger_mark l i = (case bm_get (il_active l) i of Some m \<Rightarrow> Some m | None \<Rightarrow> map_option snd (bm_get (il_departed l) i))"
  by (simp add: ledger_mark_def split: option.split)

section \<open>What a rate window lets through\<close>

text \<open>A window that is charged at the given times with the given amounts; what it let through, with the times.\<close>

fun window_run :: "i64 \<Rightarrow> u64 \<Rightarrow> RateWindow \<Rightarrow> (i64 \<times> u64) list \<Rightarrow> (i64 \<times> u64) list" where
  "window_run duration limit w [] = []"
| "window_run duration limit w ((t, amount) # charges) =
     (let (allowed, w) = window_allows t duration amount limit w in
      (if allowed then [(t, amount)] else []) @ window_run duration limit w charges)"

definition passed :: "(i64 \<Rightarrow> bool) \<Rightarrow> (i64 \<times> u64) list \<Rightarrow> nat" where
  "passed P rows = sum_list (map snd (filter (P \<circ> fst) rows))"

lemma passed_simps [simp]: "passed P [] = 0" "passed P (rows @ rows2) = passed P rows + passed P rows2"
    "passed P [(t, a)] = (if P t then a else 0)"
  by (simp_all add: passed_def)

lemma passed_False [simp]: "passed (\<lambda>_. False) rows = 0"
  by (simp add: passed_def comp_def)

lemma passed_mono: "(\<And>t a. (t, a) \<in> set rows \<Longrightarrow> P t \<Longrightarrow> Q t) \<Longrightarrow> passed P rows \<le> passed Q rows"
proof (induction rows)
  case (Cons row rows)
  then have "passed P rows \<le> passed Q rows" "P (fst row) \<Longrightarrow> Q (fst row)" by (auto intro: Cons.IH) (metis prod.collapse)
  then show ?case by (auto simp: passed_def)
qed simp

lemma window_run_times: "(t, a) \<in> set (window_run d k w cs) \<Longrightarrow> t \<in> fst ` set cs"
  by (induction d k w cs rule: window_run.induct) (auto split: prod.splits if_splits)

definition clocked :: "(i64 \<times> u64) list \<Rightarrow> bool" where
  "clocked cs \<longleftrightarrow> sorted (map fst cs) \<and> (\<forall>t \<in> fst ` set cs. 0 < t \<and> is_i64 t)"

lemma clocked_Cons: "clocked ((t, a) # cs) \<longleftrightarrow> clocked cs \<and> 0 < t \<and> is_i64 t \<and> (\<forall>u \<in> fst ` set cs. t \<le> u)"
  by (auto simp: clocked_def)

lemma window_kept:
  assumes "0 < rw_started_at w" "rw_started_at w \<le> t" "t < rw_started_at w + d" "is_i64 t" "k < u64_max"
  shows "\<exists>v. window_allows t d a k w = (rw_count w + a \<le> k, v) \<and> rw_started_at v = rw_started_at w \<and>
    k - rw_count v = k - (rw_count w + a)"
proof -
  have "sat_i64 (t - rw_started_at w) = t - rw_started_at w" using assms(1,2,4) by (intro sat_i64_id) (auto simp: is_i64_def)
  then show ?thesis using assms(3,5) sat_u64_le [of "rw_count w + a" k] sat_u64_id [of "rw_count w + a"] assms(1)
    by (cases "rw_count w + a \<le> k") (auto simp: window_allows_def Let_def sat_u64_def)
qed

text \<open>In one window, at most what is left of the limit passes.\<close>

lemma window_rest:
  assumes "clocked cs" "0 < rw_started_at w" "\<forall>t \<in> fst ` set cs. rw_started_at w \<le> t" "k < u64_max"
  shows "passed (\<lambda>t. t < rw_started_at w + d) (window_run d k w cs) \<le> k - rw_count w"
  using assms
proof (induction cs arbitrary: w)
  case (Cons c cs)
  obtain t a where c: "c = (t, a)" by fastforce
  show ?case
  proof (cases "t < rw_started_at w + d")
    case True
    then obtain v where v: "window_allows t d a k w = (rw_count w + a \<le> k, v)" "rw_started_at v = rw_started_at w"
        "k - rw_count v = k - (rw_count w + a)"
      using window_kept [of w t d k a] Cons.prems by (auto simp: c clocked_Cons)
    have "passed (\<lambda>t. t < rw_started_at v + d) (window_run d k v cs) \<le> k - rw_count v"
      using Cons.prems v(2) by (intro Cons.IH) (auto simp: c clocked_Cons)
    then show ?thesis using v True by (auto simp: c)
  next
    case False
    have "\<not> u < rw_started_at w + d" if "(u, b) \<in> set (window_run d k w (c # cs))" for u b
      using window_run_times [OF that] False Cons.prems(1) by (auto simp: c clocked_Cons)
    then have "passed (\<lambda>t. t < rw_started_at w + d) (window_run d k w (c # cs)) \<le> passed (\<lambda>_. False) (window_run d k w (c # cs))"
      by (intro passed_mono) blast
    then show ?thesis by simp
  qed
qed simp

lemma window_reset:
  assumes "rw_started_at w = 0 \<or> rw_started_at w + d \<le> t" "rw_started_at w \<le> t" "0 \<le> rw_started_at w" "is_i64 t" "0 < t" "k < u64_max"
  shows "\<exists>v. window_allows t d a k w = (a \<le> k, v) \<and> rw_started_at v = t \<and> k - rw_count v = k - a"
proof -
  have "sat_i64 (t - rw_started_at w) = t - rw_started_at w" using assms(2-5) by (intro sat_i64_id) (auto simp: is_i64_def)
  then show ?thesis using assms(1,6) sat_u64_le [of a k] sat_u64_id [of a]
    by (cases "a \<le> k") (auto simp: window_allows_def Let_def sat_u64_def)
qed

lemma window_rest_later:
  assumes "clocked ((t, a) # cs)" "k < u64_max" "rw_started_at v = t" "lo \<le> t"
  shows "passed (\<lambda>u. lo \<le> u \<and> u < lo + d) (window_run d k v cs) \<le> k - rw_count v"
proof -
  have "passed (\<lambda>u. lo \<le> u \<and> u < lo + d) (window_run d k v cs) \<le> passed (\<lambda>u. u < rw_started_at v + d) (window_run d k v cs)"
    using assms(3,4) by (intro passed_mono) auto
  also have "\<dots> \<le> k - rw_count v" using assms by (intro window_rest) (auto simp: clocked_Cons)
  finally show ?thesis .
qed

text \<open>From a time on, at most what is left of the current window and one more limit pass before the duration is over.\<close>

lemma window_two:
  assumes "clocked cs" "0 \<le> rw_started_at w" "\<forall>t \<in> fst ` set cs. rw_started_at w \<le> t \<and> lo \<le> t" "k < u64_max"
  shows "passed (\<lambda>t. lo \<le> t \<and> t < lo + d) (window_run d k w cs) \<le> (k - rw_count w) + k"
  using assms
proof (induction cs arbitrary: w)
  case (Cons c cs)
  obtain t a where c: "c = (t, a)" by fastforce
  show ?case
  proof (cases "rw_started_at w = 0 \<or> rw_started_at w + d \<le> t")
    case True
    then obtain v where v: "window_allows t d a k w = (a \<le> k, v)" "rw_started_at v = t" "k - rw_count v = k - a"
      using window_reset [of w d t k a] Cons.prems by (auto simp: c clocked_Cons)
    have "passed (\<lambda>u. lo \<le> u \<and> u < lo + d) (window_run d k v cs) \<le> k - rw_count v"
      using Cons.prems v(2) by (intro window_rest_later [of t a]) (auto simp: c)
    then show ?thesis using v by (auto simp: c)
  next
    case False
    then obtain v where v: "window_allows t d a k w = (rw_count w + a \<le> k, v)" "rw_started_at v = rw_started_at w"
        "k - rw_count v = k - (rw_count w + a)"
      using window_kept [of w t d k a] Cons.prems by (auto simp: c clocked_Cons)
    have "passed (\<lambda>t. lo \<le> t \<and> t < lo + d) (window_run d k v cs) \<le> (k - rw_count v) + k"
      using Cons.prems v(2) by (intro Cons.IH) (auto simp: c clocked_Cons)
    then show ?thesis using v by (auto simp: c)
  qed
qed simp

lemma window_started:
  assumes "clocked ((t, a) # cs)" "0 \<le> rw_started_at w" "rw_started_at w \<le> t"
  shows "rw_started_at (snd (window_allows t d a k w)) \<in> {rw_started_at w, t}"
  by (simp add: window_allows_def Let_def)

lemma window_allows_amount: "window_allows t d a k w = (True, v) \<Longrightarrow> k < u64_max \<Longrightarrow> a \<le> k"
  using sat_u64_le [of "rw_count w + a" k] sat_u64_le [of a k] by (auto simp: window_allows_def Let_def split: if_splits)

lemma window_run_amounts: "k < u64_max \<Longrightarrow> (t, a) \<in> set (window_run d k w cs) \<Longrightarrow> a \<le> k"
proof (induction d k w cs rule: window_run.induct)
  case (2 d k w u b cs)
  obtain ok v where v: "window_allows u d b k w = (ok, v)" by fastforce
  from 2(3) consider "ok" "a = b" | "(t, a) \<in> set (window_run d k v cs)" by (auto simp: v split: if_splits)
  then show ?case using window_allows_amount [of u d b k w v] 2(1) [OF v [symmetric] refl 2(2)] 2(2) v by cases simp_all
qed simp

text \<open>
  C30. A rate window that starts empty lets at most twice its limit through in any span of its length,
  wherever the span begins, as long as the clock does not go back: with the limit of input bytes per second,
  no signer gets more than two seconds' worth of bytes into one second. An amount above the limit never
  passes.
\<close>

theorem window_rate_bounded:
  assumes "clocked charges" "limit < u64_max"
  shows "passed (\<lambda>t. lo \<le> t \<and> t < lo + duration) (window_run duration limit default_window charges) \<le> 2 * limit \<and>
    (\<forall>(t, amount) \<in> set (window_run duration limit default_window charges). amount \<le> limit)"
proof -
  have "clocked cs \<Longrightarrow> 0 \<le> rw_started_at w \<Longrightarrow> \<forall>t \<in> fst ` set cs. rw_started_at w \<le> t \<Longrightarrow>
      passed (\<lambda>t. lo \<le> t \<and> t < lo + duration) (window_run duration limit w cs) \<le> 2 * limit" for w cs
  proof (induction cs arbitrary: w)
    case (Cons c cs)
    obtain t a where c: "c = (t, a)" by fastforce
    show ?case
    proof (cases "lo \<le> t")
      case True
      with Cons.prems window_two [of "c # cs" w lo limit duration] assms(2) show ?thesis by (force simp: c clocked_Cons)
    next
      case False
      obtain ok v where v: "window_allows t duration a limit w = (ok, v)" by fastforce
      have "rw_started_at v \<in> {rw_started_at w, t}" using window_started [of t a cs w duration limit] Cons.prems v by (simp add: c)
      then have "passed (\<lambda>t. lo \<le> t \<and> t < lo + duration) (window_run duration limit v cs) \<le> 2 * limit"
        using Cons.prems by (intro Cons.IH) (auto simp: c clocked_Cons)
      with False show ?thesis by (simp add: c v)
    qed
  qed simp
  from this [OF assms(1), of default_window] assms show ?thesis
    by (fastforce simp: default_window_def clocked_def dest: window_run_amounts)
qed

theorem window_rate_bounded_witness:
  "window_run 1000 5 default_window [(1, 1), (990, 4), (995, 1), (1001, 5)] = [(1, 1), (990, 4), (1001, 5)] \<and>
   passed (\<lambda>t. 500 \<le> t \<and> t < 500 + 1000) [(1, 1), (990, 4), (1001, 5)] \<le> 10"
proof -
  have run: "window_run 1000 5 default_window [(1, 1), (990, 4), (995, 1), (1001, 5)] = [(1, 1), (990, 4), (1001, 5)]"
    by code_simp
  have "clocked [(1, 1), (990, 4), (995, 1), (1001, 5)]" by code_simp
  from window_rate_bounded [OF this, of 5 500 1000] run show ?thesis by simp
qed

end
