(* ===== verification/Session_Host.thy ===== *)
theory Session_Host
  imports Host_Support
begin

text \<open>
  The authoritative host of a Dome session (\<^verbatim>\<open>crates/metaverse-host/src/lib.rs\<close> and
  \<^verbatim>\<open>transition.rs\<close>): who takes part, what the participants hold, sit on and prepare to
  leave through, the admission tickets of visitors from adjacent Domes, the budgets, the physics world
  and the ring of signed snapshots. Every public operation of \<open>DomeSessionRuntime\<close> is a definition over
  the record of the same fields; the fields of the physics engine are the one field \<open>rt_world\<close>.
\<close>

section \<open>The state of a session\<close>

definition DOME_SIMULATION_HZ :: u32 where "DOME_SIMULATION_HZ = 30"

record GuestPropSpec =
  gps_prop_id :: string
  gps_position :: vec3
  gps_expires_at :: i64

record 'h RuntimeBody =
  body_handle :: 'h
  body_kind :: DomePhysicsBodyKindV1
  body_animation :: "string option"
  body_grabbed_by :: "string option"
  body_expires_at :: "i64 option"
  body_persistent_definition :: "MetaversePersistentPropV1 option"
  body_created_by :: "string option"
  body_asset_bytes :: u64

record PreparedExit =
  pe_transition_id :: string
  pe_direction :: DomeDirection

record ('w, 'h) DomeSessionRuntime =
  rt_lease :: SignedDomeHostingLeaseV1
  rt_host_keys :: KukuriKeys
  rt_session_id :: string
  rt_participants :: "string list"
  rt_transition_reservations :: "(string, DomeTransitionAdmissionTicketV1) btree_map"
  rt_committed_transitions :: "(string, DomeTransitionAdmissionTicketV1) btree_map"
  rt_prepared_exits :: "(string, PreparedExit) btree_map"
  rt_transition_entries :: "(string, DomeDirection) btree_map"
  rt_seated_on :: "(string, string) btree_map"
  rt_inputs :: InputLedger
  rt_participant_last_seen_at :: "(string, i64) btree_map"
  rt_bodies_by_id :: "(string, 'h RuntimeBody) btree_map"
  rt_world :: 'w
  rt_tick :: u64
  rt_snapshot_sequence :: u64
  rt_heartbeat_sequence :: u64
  rt_snapshot_ring :: "SignedDomePhysicsSnapshotV1 list"
  rt_last_simulated_at :: i64
  rt_budget :: MetaverseResourceBudgetConfig
  rt_verified_assets :: "(string, MetaverseAssetRef) btree_map"
  rt_participant_limit :: u32
  rt_default_spawn :: MetaverseRoomSpawnV1
  rt_player_budgets :: "(string, PlayerBudgetState) btree_map"
  rt_rejection_counts :: "(string, u64) btree_map"
  rt_rejected_total :: u64
  rt_participant_high_water :: u32
  rt_rigid_body_high_water :: u32
  rt_snapshot_bytes :: u64
  rt_snapshot_throttled :: u64
  rt_last_snapshot_at :: "i64 option"
  rt_snapshot_bandwidth :: RateWindow

text \<open>
  What the host calls that is not part of the repository: the signing and encoding functions, \<open>f32\<close>,
  \<open>rapier3d\<close>, and the encoding of a signed snapshot, whose length is counted against the bandwidth.
\<close>

record ('w, 'h, 'f) host_lib =
  hs_lib :: hosting_lib
  hs_f32 :: "'f f32"
  hs_rapier :: "('w, 'h, 'f) rapier"
  hs_signed_snapshot :: "SignedDomePhysicsSnapshotV1 codec"

abbreviation rt_lease_body :: "('w, 'h) DomeSessionRuntime \<Rightarrow> DomeHostingLeaseV1" where
  "rt_lease_body s \<equiv> sl_lease (rt_lease s)"

definition is_sleeping :: "('w, 'h) DomeSessionRuntime \<Rightarrow> bool" where
  "is_sleeping s \<longleftrightarrow> rt_participants s = []"

definition participant_count :: "('w, 'h) DomeSessionRuntime \<Rightarrow> nat" where
  "participant_count s = length (rt_participants s)"

definition avatar_id :: "string \<Rightarrow> string" where
  "avatar_id participant_id = ''avatar:'' @ participant_id"

section \<open>Counting rejections\<close>

fun scope_name :: "MetaverseBudgetScope \<Rightarrow> string" where
  "scope_name ScopeDome = ''DOME''" | "scope_name ScopePlayer = ''PLAYER''"
| "scope_name ScopeHost = ''HOST''" | "scope_name ScopeClient = ''CLIENT''"

fun resource_name :: "MetaverseBudgetResource \<Rightarrow> string" where
  "resource_name PersistentProps = ''PERSISTENT_PROPS''" | "resource_name GuestProps = ''GUEST_PROPS''"
| "resource_name TextureBytes = ''TEXTURE_BYTES''" | "resource_name TextureDimension = ''TEXTURE_DIMENSION''"
| "resource_name ModelBytes = ''MODEL_BYTES''" | "resource_name ModelTriangles = ''MODEL_TRIANGLES''"
| "resource_name Colliders = ''COLLIDERS''" | "resource_name RigidBodies = ''RIGID_BODIES''"
| "resource_name Participants = ''PARTICIPANTS''" | "resource_name AvatarAssetBytes = ''AVATAR_ASSET_BYTES''"
| "resource_name PropSpawnRate = ''PROP_SPAWN_RATE''" | "resource_name InteractionRate = ''INTERACTION_RATE''"
| "resource_name InputBandwidth = ''INPUT_BANDWIDTH''" | "resource_name ProposalRate = ''PROPOSAL_RATE''"
| "resource_name Impulse = ''IMPULSE''" | "resource_name SnapshotFrequency = ''SNAPSHOT_FREQUENCY''"
| "resource_name SnapshotBandwidth = ''SNAPSHOT_BANDWIDTH''" | "resource_name SessionAssetBytes = ''SESSION_ASSET_BYTES''"
| "resource_name RenderedAvatars = ''RENDERED_AVATARS''" | "resource_name TextureMemory = ''TEXTURE_MEMORY''"
| "resource_name RenderedTriangles = ''RENDERED_TRIANGLES''" | "resource_name InterpolatedBodies = ''INTERPOLATED_BODIES''"
| "resource_name NeighborDomes = ''NEIGHBOR_DOMES''" | "resource_name CacheCapacity = ''CACHE_CAPACITY''"
| "resource_name AssetFormat = ''ASSET_FORMAT''" | "resource_name AudioFrameRate = ''AUDIO_FRAME_RATE''"
| "resource_name AudioBandwidth = ''AUDIO_BANDWIDTH''" | "resource_name ConcurrentAudioStreams = ''CONCURRENT_AUDIO_STREAMS''"
| "resource_name AudioJitterFrames = ''AUDIO_JITTER_FRAMES''"

fun reason_name :: "MetaverseResourceRejectionReason \<Rightarrow> string" where
  "reason_name LimitExceeded = ''LIMIT_EXCEEDED''" | "reason_name RateExceeded = ''RATE_EXCEEDED''"
| "reason_name InvalidValue = ''INVALID_VALUE''" | "reason_name UnverifiedAsset = ''UNVERIFIED_ASSET''"

definition rejection_code :: "MetaverseResourceRejection \<Rightarrow> string" where
  "rejection_code r = ''METAVERSE_'' @ scope_name (rej_scope r) @ ''_'' @ resource_name (rej_resource r) @ ''_'' @
     reason_name (rej_reason r)"

text \<open>\<open>downcast_ref\<close> looks through contexts.\<close>

fun downcast_rejection :: "kerror \<Rightarrow> MetaverseResourceRejection option" where
  "downcast_rejection (Rejected r) = Some r"
| "downcast_rejection (Context _ e) = downcast_rejection e"
| "downcast_rejection _ = None"

definition record_rejection :: "MetaverseResourceRejection \<Rightarrow> ('w, 'h) DomeSessionRuntime \<Rightarrow> ('w, 'h) DomeSessionRuntime" where
  "record_rejection r s =
     (let code = rejection_code r;
          count = (case bm_get (rt_rejection_counts s) code of Some n \<Rightarrow> n | None \<Rightarrow> 0) in
      s\<lparr>rt_rejected_total := sat_u64 (rt_rejected_total s + 1),
        rt_rejection_counts := bm_insert code (wrap_u64 (count + 1)) (rt_rejection_counts s)\<rparr>)"

record MetaverseResourceMetricsV1 =
  rm_rejected_total :: u64
  rm_rejection_counts :: "(string \<times> u64) list"
  rm_participant_high_water :: u32
  rm_rigid_body_high_water :: u32
  rm_snapshot_bytes :: u64
  rm_snapshot_throttled :: u64

definition resource_metrics :: "('w, 'h) DomeSessionRuntime \<Rightarrow> MetaverseResourceMetricsV1" where
  "resource_metrics s = \<lparr>rm_rejected_total = rt_rejected_total s, rm_rejection_counts = rt_rejection_counts s,
     rm_participant_high_water = rt_participant_high_water s, rm_rigid_body_high_water = rt_rigid_body_high_water s,
     rm_snapshot_bytes = rt_snapshot_bytes s, rm_snapshot_throttled = rt_snapshot_throttled s\<rparr>"

section \<open>Bodies\<close>

definition remove_body ::
    "('w, 'h, 'f) host_lib \<Rightarrow> string \<Rightarrow> ('w, 'h) DomeSessionRuntime \<Rightarrow> ('w, 'h) DomeSessionRuntime" where
  "remove_body H entity_id s = (case bm_get (rt_bodies_by_id s) entity_id of
     Some body \<Rightarrow> s\<lparr>rt_bodies_by_id := bm_remove entity_id (rt_bodies_by_id s),
       rt_world := rp_remove (hs_rapier H) (body_handle body) (rt_world s)\<rparr>
   | None \<Rightarrow> s)"

definition insert_dome_boundaries ::
    "('w, 'h, 'f) host_lib \<Rightarrow> ('w, 'h) DomeSessionRuntime \<Rightarrow> ('w, 'h) DomeSessionRuntime" where
  "insert_dome_boundaries H s =
     (let F = hs_f32 H; R = hs_rapier H;
          (floor_handle, w) = rp_insert R \<lparr>bsp_type = FixedBody, bsp_translation = (f_lit F 0 1, f_lit F (-1) 10, f_lit F 0 1),
            bsp_rotation = None, bsp_ccd = False\<rparr> (rt_world s) in
      s\<lparr>rt_world := rp_attach R \<lparr>csp_shape = CuboidShape (f_lit F 20 1) (f_lit F 1 10) (f_lit F 20 1), csp_translation = None,
          csp_friction = Some (f_lit F 8 10), csp_restitution = None\<rparr> floor_handle w\<rparr>)"

text \<open>Both kinds of insertion end by counting the bodies.\<close>

definition add_body ::
    "string \<Rightarrow> 'h RuntimeBody \<Rightarrow> 'w \<Rightarrow> ('w, 'h) DomeSessionRuntime \<Rightarrow> ('w, 'h) DomeSessionRuntime" where
  "add_body entity_id body w s =
     (let bodies = bm_insert entity_id body (rt_bodies_by_id s) in
      s\<lparr>rt_world := w, rt_bodies_by_id := bodies,
        rt_rigid_body_high_water := max (rt_rigid_body_high_water s) (sat_u32 (length bodies))\<rparr>)"

definition asset_bytes :: "MetaversePersistentPropV1 \<Rightarrow> u64" where
  "asset_bytes prop = (case prop_asset_ref prop of
     Some asset \<Rightarrow> (case mar_size_bytes asset of Some n \<Rightarrow> n | None \<Rightarrow> 0) | None \<Rightarrow> 0)"

definition insert_prop ::
    "('w, 'h, 'f) host_lib \<Rightarrow> MetaversePersistentPropV1 \<Rightarrow> DomePhysicsBodyKindV1 \<Rightarrow> i64 option \<Rightarrow> string option \<Rightarrow>
     (('w, 'h) DomeSessionRuntime, unit) host_op" where
  "insert_prop H prop kind expires_at created_by s =
     (if bm_contains (rt_bodies_by_id s) (prop_id prop) then (bail ''Dome physics entity id already exists'', s) else
      let F = hs_f32 H; R = hs_rapier H;
          (handle, w) = rp_insert R \<lparr>bsp_type = DynamicBody, bsp_translation = centimeters_to_meters F (prop_position prop),
            bsp_rotation = Some (milliradians_to_radians F (prop_rotation prop)), bsp_ccd = True\<rparr> (rt_world s);
          collider = (collider_builder F (prop_collider prop))\<lparr>csp_friction := Some (f_lit F 7 10),
            csp_restitution := Some (f_lit F 15 100)\<rparr>;
          body = \<lparr>body_handle = handle, body_kind = kind, body_animation = None, body_grabbed_by = None,
            body_expires_at = expires_at,
            body_persistent_definition = (if kind = PersistentPropBody then Some prop else None),
            body_created_by = created_by, body_asset_bytes = asset_bytes prop\<rparr> in
      (Inr (), add_body (prop_id prop) body (rp_attach R collider handle w) s))"

definition add_guest_prop ::
    "('w, 'h, 'f) host_lib \<Rightarrow> GuestPropSpec \<Rightarrow> (('w, 'h) DomeSessionRuntime, unit) host_op" where
  "add_guest_prop H spec s =
     (if trim (gps_prop_id spec) = [] \<or> gps_expires_at spec \<le> rt_last_simulated_at s
        \<or> bm_contains (rt_bodies_by_id s) (gps_prop_id spec)
      then (bail ''guest prop specification is invalid'', s)
      else insert_prop H \<lparr>prop_id = gps_prop_id spec, prop_asset_ref = None, prop_primitive_fallback = Cube,
        prop_position = gps_position spec, prop_rotation = (0, 0, 0), prop_scale = (100, 100, 100),
        prop_visual_only = False, prop_interactions = [], prop_collider = None\<rparr>
        GuestPropBody (Some (gps_expires_at spec)) None s)"

definition spawn_bounds_overlap_body :: "('w, 'h, 'f) host_lib \<Rightarrow> ('w, 'h) DomeSessionRuntime \<Rightarrow> box \<Rightarrow> bool" where
  "spawn_bounds_overlap_body H s candidate =
     list_ex (\<lambda>body. case rp_body (hs_rapier H) (rt_world s) (body_handle body) of
         None \<Rightarrow> True
       | Some _ \<Rightarrow> list_ex (\<lambda>collider. case collider of
             None \<Rightarrow> True
           | Some (lo, hi) \<Rightarrow> aabb_overlaps candidate (meters_to_centimeters (hs_f32 H) lo, meters_to_centimeters (hs_f32 H) hi))
           (rp_collider_boxes (hs_rapier H) (rt_world s) (body_handle body)))
       (bm_values (rt_bodies_by_id s))"

definition spawn_candidate :: "MetaverseRoomSpawnV1 \<Rightarrow> i64 \<times> i64 \<Rightarrow> MetaverseRoomSpawnV1" where
  "spawn_candidate spawn offset =
     (let (x, y, z) = spawn_position spawn; (offset_x, offset_z) = offset in
      \<lparr>spawn_position = (wrap_i64 (x + offset_x * STEP_CM), y, wrap_i64 (z + offset_z * STEP_CM)),
       spawn_rotation = spawn_rotation spawn\<rparr>)"

definition safe_avatar_spawn ::
    "('w, 'h, 'f) host_lib \<Rightarrow> ('w, 'h) DomeSessionRuntime \<Rightarrow> MetaverseColliderV1 \<Rightarrow> MetaverseRoomSpawnV1 result" where
  "safe_avatar_spawn H s collider =
     (case find (\<lambda>candidate. let bounds = collider_bounds_cm collider (spawn_position candidate) SAFETY_MARGIN_CM in
          spawn_bounds_inside_dome bounds \<and> \<not> spawn_bounds_overlap_body H s bounds)
        (map (spawn_candidate (rt_default_spawn s)) OFFSETS) of
        Some candidate \<Rightarrow> Inr candidate | None \<Rightarrow> bail ''DOME_ENTRY_NO_SAFE_SPAWN'')"

definition ensure_avatar ::
    "('w, 'h, 'f) host_lib \<Rightarrow> string \<Rightarrow> MetaverseColliderV1 option \<Rightarrow> (('w, 'h) DomeSessionRuntime, unit) host_op" where
  "ensure_avatar H participant_id collider s =
     (let entity_id = avatar_id participant_id; F = hs_f32 H; R = hs_rapier H in
      if bm_contains (rt_bodies_by_id s) entity_id then (Inr (), s) else
      case fallback_capsule_collider (-25, 0, -25) (25, 180, 25) of Inl e \<Rightarrow> (Inl e, s) | Inr fallback \<Rightarrow>
      let collider = (case collider of Some c \<Rightarrow> c | None \<Rightarrow> fallback) in
      case safe_avatar_spawn H s collider of Inl e \<Rightarrow> (Inl e, s) | Inr spawn \<Rightarrow>
      let (handle, w) = rp_insert R \<lparr>bsp_type = KinematicBody, bsp_translation = centimeters_to_meters F (spawn_position spawn),
            bsp_rotation = None, bsp_ccd = False\<rparr> (rt_world s);
          body = \<lparr>body_handle = handle, body_kind = AvatarBody, body_animation = Some ''idle'', body_grabbed_by = None,
            body_expires_at = None, body_persistent_definition = None, body_created_by = None, body_asset_bytes = 0\<rparr> in
      (Inr (), add_body entity_id body (rp_attach R (collider_builder F (Some collider)) handle w) s))"

definition expire_guest_props ::
    "('w, 'h, 'f) host_lib \<Rightarrow> i64 \<Rightarrow> ('w, 'h) DomeSessionRuntime \<Rightarrow> ('w, 'h) DomeSessionRuntime" where
  "expire_guest_props H now_millis s =
     (let expired = map fst (filter (\<lambda>(_, body). body_kind body = GuestPropBody \<and>
        (case body_expires_at body of Some t \<Rightarrow> t \<le> now_millis | None \<Rightarrow> False)) (rt_bodies_by_id s)) in
      fold (remove_body H) expired s)"

section \<open>Keeping bodies inside the Dome\<close>

text \<open>
  One body of \<open>clamp_bodies_to_dome\<close>: its new translation, and whether its avatar has completed its entry.
\<close>

definition clamp_translation :: "'f f32 \<Rightarrow> DomeDirection option \<Rightarrow> 'f fvec \<Rightarrow> 'f fvec \<times> bool" where
  "clamp_translation F permitted_direction translation =
     (let spec = fixed_dome_v1;
          radius = f_div F (f_of_i64 F (fds_inner_radius_cm spec)) (f_of_i64 F 100);
          corridor_limit = f_div F (f_of_i64 F (fds_connection_boundary_offset_cm spec + tdiv (fds_connection_zone_depth_cm spec) 2))
            (f_of_i64 F 100);
          opening_half_width = f_div F (f_of_i64 F (fds_opening_width_cm spec)) (f_of_i64 F 200);
          opening_height = f_div F (f_of_i64 F (fds_opening_height_cm spec)) (f_of_i64 F 100);
          zero = f_of_i64 F 0;
          (x, y0, z) = translation;
          y = f_clamp F y0 zero radius;
          (axis, tangent) = (case permitted_direction of
              Some North \<Rightarrow> (f_neg F z, x) | Some East \<Rightarrow> (x, z) | Some South \<Rightarrow> (z, x) | Some West \<Rightarrow> (f_neg F x, z)
            | None \<Rightarrow> (zero, zero));
          inside_opening = (permitted_direction \<noteq> None \<and> f_le F (f_abs F tangent) opening_half_width \<and> f_le F y opening_height) in
      if inside_opening \<and> f_le F radius axis
      then let clamped_axis = f_min F axis corridor_limit in
        ((case permitted_direction of
            Some North \<Rightarrow> (x, y, f_neg F clamped_axis) | Some East \<Rightarrow> (clamped_axis, y, z)
          | Some South \<Rightarrow> (x, y, clamped_axis) | Some West \<Rightarrow> (f_neg F clamped_axis, y, z)
          | None \<Rightarrow> (x, y, z)), False)
      else let horizontal_limit = f_sqrt F (f_sub F (f_mul F radius radius) (f_mul F y y));
               horizontal_distance = f_sqrt F (f_add F (f_mul F x x) (f_mul F z z)) in
        (if f_lt F horizontal_limit horizontal_distance \<and> f_lt F zero horizontal_distance
         then let scale = f_div F (f_max F (f_sub F horizontal_limit (f_lit F 5 100)) zero) horizontal_distance in
           (f_mul F x scale, y, f_mul F z scale)
         else (x, y, z), True))"

definition permitted_direction ::
    "(string, PreparedExit) btree_map \<Rightarrow> (string, DomeDirection) btree_map \<Rightarrow> string option \<Rightarrow> DomeDirection option" where
  "permitted_direction exits entries participant_id = (case participant_id of None \<Rightarrow> None
     | Some p \<Rightarrow> opt_or (map_option pe_direction (bm_get exits p)) (bm_get entries p))"

definition clamp_body ::
    "('w, 'h, 'f) host_lib \<Rightarrow> (string, PreparedExit) btree_map \<Rightarrow> (string, DomeDirection) btree_map \<Rightarrow>
     string \<times> 'h RuntimeBody \<Rightarrow> 'w \<times> string list \<Rightarrow> 'w \<times> string list" where
  "clamp_body H exits entries = (\<lambda>(entity_id, body) (w, completed).
     case rp_body (hs_rapier H) w (body_handle body) of
       None \<Rightarrow> (w, completed)
     | Some (translation, _) \<Rightarrow>
         let participant_id = strip_prefix ''avatar:'' entity_id;
             (t, inside) = clamp_translation (hs_f32 H) (permitted_direction exits entries participant_id) translation in
         (rp_set_translation (hs_rapier H) (body_handle body) t w,
          case participant_id of
            Some p \<Rightarrow> if inside \<and> bm_contains entries p then completed @ [p] else completed
          | None \<Rightarrow> completed))"

definition clamp_bodies_to_dome ::
    "('w, 'h, 'f) host_lib \<Rightarrow> ('w, 'h) DomeSessionRuntime \<Rightarrow> ('w, 'h) DomeSessionRuntime" where
  "clamp_bodies_to_dome H s =
     (let (w, completed) = fold (clamp_body H (rt_prepared_exits s) (rt_transition_entries s)) (rt_bodies_by_id s)
        (rt_world s, []) in
      s\<lparr>rt_world := w, rt_transition_entries := fold bm_remove completed (rt_transition_entries s)\<rparr>)"


section \<open>Leaving a session\<close>

definition ticket_kept :: "Pubkey \<Rightarrow> string option \<Rightarrow> DomeTransitionAdmissionTicketV1 \<Rightarrow> bool" where
  "ticket_kept participant_pubkey connection_id ticket \<longleftrightarrow> tr_participant_pubkey (tk_request ticket) \<noteq> participant_pubkey \<and>
     (case connection_id of None \<Rightarrow> True | Some i \<Rightarrow> tr_connection_id (tk_request ticket) \<noteq> i)"

definition revoke_transition_access ::
    "Pubkey \<Rightarrow> string option \<Rightarrow> ('w, 'h) DomeSessionRuntime \<Rightarrow> nat \<times> ('w, 'h) DomeSessionRuntime" where
  "revoke_transition_access participant_pubkey connection_id s =
     (let keep = (\<lambda>_. ticket_kept participant_pubkey connection_id);
          reservations = bm_retain keep (rt_transition_reservations s) in
      (length (rt_transition_reservations s) - length reservations,
       s\<lparr>rt_transition_reservations := reservations,
         rt_committed_transitions := bm_retain keep (rt_committed_transitions s),
         rt_prepared_exits := bm_remove participant_pubkey (rt_prepared_exits s)\<rparr>))"

definition drain_connection :: "string \<Rightarrow> ('w, 'h) DomeSessionRuntime \<Rightarrow> nat \<times> ('w, 'h) DomeSessionRuntime" where
  "drain_connection connection_id s =
     (let participants = map (\<lambda>ticket. tr_participant_pubkey (tk_request ticket))
            (filter (\<lambda>ticket. tr_connection_id (tk_request ticket) = connection_id) (bm_values (rt_transition_reservations s)));
          reservations = bm_retain (\<lambda>_ ticket. tr_connection_id (tk_request ticket) \<noteq> connection_id)
            (rt_transition_reservations s) in
      (length (rt_transition_reservations s) - length reservations,
       s\<lparr>rt_transition_reservations := reservations,
         rt_prepared_exits := fold bm_remove participants (rt_prepared_exits s)\<rparr>))"

definition release_grabs :: "string \<Rightarrow> (string, 'h RuntimeBody) btree_map \<Rightarrow> (string, 'h RuntimeBody) btree_map" where
  "release_grabs participant_id bodies = map (\<lambda>(i, body). (i,
     if body_grabbed_by body = Some participant_id then body\<lparr>body_grabbed_by := None\<rparr> else body)) bodies"

definition evict_participant ::
    "('w, 'h, 'f) host_lib \<Rightarrow> Pubkey \<Rightarrow> ('w, 'h) DomeSessionRuntime \<Rightarrow> bool \<times> ('w, 'h) DomeSessionRuntime" where
  "evict_participant H participant_id s =
     (let evicted = (participant_id \<in> set (rt_participants s));
          s = snd (revoke_transition_access participant_id None
            (s\<lparr>rt_participants := bs_remove participant_id (rt_participants s)\<rparr>));
          s = s\<lparr>rt_transition_entries := bm_remove participant_id (rt_transition_entries s),
                rt_seated_on := bm_remove participant_id (rt_seated_on s),
                rt_inputs := (if evicted \<and> participant_id \<noteq> lease_owner_pubkey (rt_lease_body s)
                  then ledger_retire participant_id (rt_participant_limit s) (rt_inputs s) else rt_inputs s),
                rt_participant_last_seen_at := bm_remove participant_id (rt_participant_last_seen_at s),
                rt_player_budgets := bm_remove participant_id (rt_player_budgets s)\<rparr>;
          s = remove_body H (avatar_id participant_id) s;
          s = s\<lparr>rt_bodies_by_id := release_grabs participant_id (rt_bodies_by_id s)\<rparr> in
      (evicted, s))"

definition stale_participants :: "i64 \<Rightarrow> ('w, 'h) DomeSessionRuntime \<Rightarrow> string list" where
  "stale_participants now_millis s = map fst (filter (\<lambda>(_, last_seen).
     sat_i64 (now_millis - last_seen) > DOME_PARTICIPANT_TIMEOUT_MILLIS) (rt_participant_last_seen_at s))"

definition expire_stale_participants ::
    "('w, 'h, 'f) host_lib \<Rightarrow> i64 \<Rightarrow> ('w, 'h) DomeSessionRuntime \<Rightarrow> ('w, 'h) DomeSessionRuntime" where
  "expire_stale_participants H now_millis s =
     fold (\<lambda>participant_id s. snd (evict_participant H participant_id s)) (stale_participants now_millis s) s"

section \<open>Leaving through a connection\<close>

definition require_participant :: "('w, 'h) DomeSessionRuntime \<Rightarrow> string \<Rightarrow> unit result" where
  "require_participant s participant_id =
     (if participant_id \<notin> set (rt_participants s) then bail ''Dome session input requires a joined participant'' else Inr ())"

definition prepare_transition_exit ::
    "string \<Rightarrow> string \<Rightarrow> DomeDirection \<Rightarrow> (('w, 'h) DomeSessionRuntime, unit) host_op" where
  "prepare_transition_exit participant_id transition_id direction s =
     (case require_participant s participant_id of Inl e \<Rightarrow> (Inl e, s) | Inr _ \<Rightarrow>
      if trim transition_id = [] then (bail ''Dome transition id is required'', s) else
      case bm_get (rt_prepared_exits s) participant_id of
        Some existing \<Rightarrow>
          if pe_transition_id existing = transition_id \<and> pe_direction existing = direction then (Inr (), s)
          else (bail ''participant already has another prepared Dome transition'', s)
      | None \<Rightarrow> (Inr (), s\<lparr>rt_bodies_by_id := release_grabs participant_id (rt_bodies_by_id s),
          rt_seated_on := bm_remove participant_id (rt_seated_on s),
          rt_prepared_exits := bm_insert participant_id \<lparr>pe_transition_id = transition_id, pe_direction = direction\<rparr>
            (rt_prepared_exits s)\<rparr>))"

definition abort_transition_exit :: "string \<Rightarrow> string \<Rightarrow> (('w, 'h) DomeSessionRuntime, unit) host_op" where
  "abort_transition_exit participant_id transition_id s =
     (case bm_get (rt_prepared_exits s) participant_id of
        Some prepared \<Rightarrow>
          if pe_transition_id prepared \<noteq> transition_id then (bail ''DOME_TRANSITION_INVALID_TICKET'', s)
          else (Inr (), s\<lparr>rt_prepared_exits := bm_remove participant_id (rt_prepared_exits s)\<rparr>)
      | None \<Rightarrow> (Inr (), s))"

definition complete_transition_exit ::
    "('w, 'h, 'f) host_lib \<Rightarrow> Pubkey \<Rightarrow> string \<Rightarrow> (('w, 'h) DomeSessionRuntime, unit) host_op" where
  "complete_transition_exit H participant_pubkey transition_id s =
     (if participant_pubkey \<notin> set (rt_participants s) then (Inr (), s) else
      case bm_get (rt_prepared_exits s) participant_pubkey of
        None \<Rightarrow> (bail ''participant has no prepared Dome transition'', s)
      | Some prepared \<Rightarrow>
          if pe_transition_id prepared \<noteq> transition_id then (bail ''DOME_TRANSITION_INVALID_TICKET'', s)
          else (Inr (), snd (evict_participant H participant_pubkey s)))"

section \<open>Admission from an adjacent Dome\<close>

definition transition_reservation ::
    "('w, 'h) DomeSessionRuntime \<Rightarrow> string \<Rightarrow> DomeTransitionAdmissionTicketV1 option" where
  "transition_reservation s transition_id = bm_get (rt_transition_reservations s) transition_id"

definition expire_transition_reservations ::
    "i64 \<Rightarrow> ('w, 'h) DomeSessionRuntime \<Rightarrow> ('w, 'h) DomeSessionRuntime" where
  "expire_transition_reservations now_millis s =
     s\<lparr>rt_transition_reservations := bm_retain (\<lambda>_ ticket. tk_expires_at ticket > now_millis) (rt_transition_reservations s)\<rparr>"

definition check_body_capacity :: "('w, 'h) DomeSessionRuntime \<Rightarrow> u64 \<Rightarrow> unit result" where
  "check_body_capacity s added =
     (let observed = length (rt_bodies_by_id s) + added; d = dome_budget (rt_budget s) in
      rbind (host_check_limit ScopeDome RigidBodies observed (max_rigid_bodies d)) (\<lambda>_.
      rbind (host_check_limit ScopeDome Colliders observed (max_colliders d)) (\<lambda>_.
      host_check_limit ScopeHost RigidBodies observed (max_simulated_rigid_bodies (host_budget (rt_budget s))))))"

definition prepare_transition_admission ::
    "DomeTransitionAdmissionRequestV1 \<Rightarrow> DomeTransitionAccessDecisionV1 \<Rightarrow> i64 \<Rightarrow>
     (('w, 'h) DomeSessionRuntime, DomeTransitionAdmissionTicketV1) host_op" where
  "prepare_transition_admission request access now_millis s =
     (let s = expire_transition_reservations now_millis s; lease = rt_lease_body s in
      case validate_admission_request request of Inl e \<Rightarrow> (Inl e, s) | Inr _ \<Rightarrow>
      case access of AccessDecisionDenied reason \<Rightarrow> (bail (denial_code reason), s) | AccessAllowed \<Rightarrow>
      if tr_spatial_context request \<noteq> lease_spatial_context lease \<or> tr_target_instance_id request \<noteq> lease_instance_id lease
        \<or> tr_target_instance_generation request \<noteq> lease_instance_generation lease
      then (bail ''DOME_TRANSITION_STALE_TOPOLOGY'', s) else
      case bm_get (rt_committed_transitions s) (tr_transition_id request) of
        Some ticket \<Rightarrow> (if tk_request ticket = request then Inr ticket else bail ''DOME_TRANSITION_INVALID_TICKET'', s)
      | None \<Rightarrow>
      case bm_get (rt_transition_reservations s) (tr_transition_id request) of
        Some ticket \<Rightarrow> (if tk_request ticket = request then Inr ticket else bail ''DOME_TRANSITION_INVALID_TICKET'', s)
      | None \<Rightarrow>
      if list_ex (\<lambda>ticket. tr_participant_pubkey (tk_request ticket) = tr_participant_pubkey request)
        (bm_values (rt_transition_reservations s))
      then (bail ''participant already has another Dome transition reservation'', s) else
      let already_joined = (tr_participant_pubkey request \<in> set (rt_participants s));
          participant_slots = length (rt_participants s) + length (rt_transition_reservations s) + (if already_joined then 0 else 1) in
      if participant_slots > rt_participant_limit s then (bail ''DOME_TRANSITION_CAPACITY_FULL'', s) else
      case (if already_joined then Inr () else check_body_capacity s 1) of Inl e \<Rightarrow> (Inl e, s) | Inr _ \<Rightarrow>
      let ticket = \<lparr>tk_request = request, tk_target_lease_epoch = lease_epoch lease, tk_target_session_id = rt_session_id s,
            tk_expires_at = sat_i64 (now_millis + DOME_TRANSITION_TICKET_TTL_MILLIS)\<rparr> in
      (Inr ticket, s\<lparr>rt_transition_reservations := bm_insert (tr_transition_id request) ticket (rt_transition_reservations s)\<rparr>))"

definition set_avatar_transform ::
    "('w, 'h, 'f) host_lib \<Rightarrow> string \<Rightarrow> vec3 \<Rightarrow> vec3 \<Rightarrow> (('w, 'h) DomeSessionRuntime, unit) host_op" where
  "set_avatar_transform H participant_id position rotation s =
     (let F = hs_f32 H; R = hs_rapier H in
      case bm_get (rt_bodies_by_id s) (avatar_id participant_id) of
        None \<Rightarrow> (bail ''participant avatar body is missing'', s)
      | Some body \<Rightarrow> case rp_body R (rt_world s) (body_handle body) of
          None \<Rightarrow> (bail ''participant avatar rigid body is missing'', s)
        | Some _ \<Rightarrow> (Inr (), s\<lparr>rt_world := rp_set_rotation R (body_handle body) (milliradians_to_radians F rotation)
            (rp_set_translation R (body_handle body) (centimeters_to_meters F position) (rt_world s))\<rparr>))"

definition commit_transition_admission ::
    "('w, 'h, 'f) host_lib \<Rightarrow> DomeTransitionAdmissionTicketV1 \<Rightarrow> vec3 \<Rightarrow> vec3 \<Rightarrow> i64 \<Rightarrow>
     (('w, 'h) DomeSessionRuntime, unit) host_op" where
  "commit_transition_admission H ticket position rotation now_millis s =
     (let s = expire_transition_reservations now_millis s; request = tk_request ticket;
          epoch = lease_epoch (rt_lease_body s); participant_id = tr_participant_pubkey request in
      case bm_get (rt_committed_transitions s) (tr_transition_id request) of
        Some committed \<Rightarrow>
          (if committed = ticket \<and> tk_target_lease_epoch ticket = epoch \<and> tk_target_session_id ticket = rt_session_id s
           then Inr () else bail ''DOME_TRANSITION_INVALID_TICKET'', s)
      | None \<Rightarrow>
      case ticket_validate_for ticket request epoch (rt_session_id s) now_millis of Inl e \<Rightarrow> (Inl e, s) | Inr _ \<Rightarrow>
      if bm_get (rt_transition_reservations s) (tr_transition_id request) \<noteq> Some ticket
      then (bail ''DOME_TRANSITION_INVALID_TICKET'', s) else
      mbind (ensure_avatar H participant_id None) (\<lambda>_.
      mbind (mmod (\<lambda>s. s\<lparr>rt_participants := bs_insert participant_id (rt_participants s),
        rt_participant_last_seen_at := bm_insert participant_id now_millis (rt_participant_last_seen_at s)\<rparr>)) (\<lambda>_.
      mbind (set_avatar_transform H participant_id position rotation) (\<lambda>_.
      mmod (\<lambda>s.
        let s = s\<lparr>rt_transition_entries := bm_insert participant_id (opposite_dome_direction (tr_direction request))
                (rt_transition_entries s),
              rt_prepared_exits := bm_remove participant_id (rt_prepared_exits s),
              rt_transition_reservations := bm_remove (tr_transition_id request) (rt_transition_reservations s),
              rt_committed_transitions := bm_insert (tr_transition_id request) ticket
                (bm_retain (\<lambda>_ committed. tr_participant_pubkey (tk_request committed) \<noteq> participant_id)
                  (rt_committed_transitions s))\<rparr>;
            s = clamp_bodies_to_dome H s in
        s\<lparr>rt_participant_high_water := max (rt_participant_high_water s) (sat_u32 (length (rt_participants s)))\<rparr>)))) s)"

definition abort_transition_admission ::
    "string \<Rightarrow> Pubkey \<Rightarrow> i64 \<Rightarrow> (('w, 'h) DomeSessionRuntime, unit) host_op" where
  "abort_transition_admission transition_id participant_pubkey now_millis s =
     (let s = expire_transition_reservations now_millis s in
      if bm_contains (rt_committed_transitions s) transition_id then (Inr (), s) else
      if (case bm_get (rt_transition_reservations s) transition_id of
          Some ticket \<Rightarrow> tr_participant_pubkey (tk_request ticket) \<noteq> participant_pubkey | None \<Rightarrow> False)
      then (bail ''DOME_TRANSITION_INVALID_TICKET'', s)
      else (Inr (), s\<lparr>rt_transition_reservations := bm_remove transition_id (rt_transition_reservations s)\<rparr>))"

section \<open>Inputs\<close>

definition require_owner :: "('w, 'h) DomeSessionRuntime \<Rightarrow> DomeSessionInputV1 \<Rightarrow> unit result" where
  "require_owner s input = (if in_participant_pubkey input \<noteq> lease_owner_pubkey (rt_lease_body s)
     then bail ''only the Dome owner can change persistent props'' else Inr ())"

definition check_verified_asset :: "('w, 'h) DomeSessionRuntime \<Rightarrow> MetaverseAssetRef option \<Rightarrow> unit result" where
  "check_verified_asset s asset = (case asset of None \<Rightarrow> Inr () | Some asset \<Rightarrow>
     rbind (validate_metaverse_asset_metadata (mar_kind asset) (mar_size_bytes asset) (mar_budget_metadata asset)) (\<lambda>_.
     if bm_get (rt_verified_assets s) (mar_blob_hash asset) \<noteq> Some asset
     then reject (rejection ScopeHost AssetFormat UnverifiedAsset 1 0) else Inr ()))"

text \<open>One rate window of a player: the row is made when it is missing, and kept when the limit is passed.\<close>

definition charge_player ::
    "(PlayerBudgetState \<Rightarrow> RateWindow) \<Rightarrow> ((RateWindow \<Rightarrow> RateWindow) \<Rightarrow> PlayerBudgetState \<Rightarrow> PlayerBudgetState) \<Rightarrow>
     MetaverseBudgetResource \<Rightarrow> i64 \<Rightarrow> u64 \<Rightarrow> u64 \<Rightarrow> i64 \<Rightarrow> string \<Rightarrow> (('w, 'h) DomeSessionRuntime, unit) host_op" where
  "charge_player window set_window resource duration amount limit now_millis participant_id s =
     (let player = (case bm_get (rt_player_budgets s) participant_id of Some b \<Rightarrow> b | None \<Rightarrow> default_player_budget);
          (allowed, w) = window_allows now_millis duration amount limit (window player);
          s = s\<lparr>rt_player_budgets := bm_insert participant_id (set_window (\<lambda>_. w) player) (rt_player_budgets s)\<rparr> in
      (if allowed then Inr () else reject (rejection ScopePlayer resource RateExceeded (rw_count w) limit), s))"

fun fenced_input :: "DomeSessionInputKindV1 \<Rightarrow> bool" where
  "fenced_input (InputJoin _) = True" | "fenced_input (InputGrab _) = True" | "fenced_input (InputThrow _ _) = True"
| "fenced_input (InputPush _ _) = True" | "fenced_input (InputSit _) = True" | "fenced_input _ = False"

definition impulse_size :: "vec3 \<Rightarrow> u64" where
  "impulse_size impulse = Max (set (map (\<lambda>value. nat \<bar>value\<bar>) (vec3_list impulse)))"

definition guest_usage :: "('w, 'h) DomeSessionRuntime \<Rightarrow> string \<Rightarrow> u64 \<times> u64" where
  "guest_usage s participant_id =
     fold (\<lambda>body (n, bytes). (n + 1, sat_u64 (bytes + body_asset_bytes body)))
       (filter (\<lambda>body. body_kind body = GuestPropBody \<and> body_created_by body = Some participant_id)
         (bm_values (rt_bodies_by_id s))) (0, 0)"

definition check_guest_prop :: "('w, 'h) DomeSessionRuntime \<Rightarrow> string \<Rightarrow> MetaversePersistentPropV1 \<Rightarrow> unit result" where
  "check_guest_prop s participant_id prop =
     (let (guest_count, guest_bytes) = guest_usage s participant_id; pb = player_budget (rt_budget s) in
      rbind (host_check_limit ScopePlayer GuestProps (guest_count + 1) (max_guest_props pb)) (\<lambda>_.
      rbind (check_verified_asset s (prop_asset_ref prop)) (\<lambda>_.
      rbind (host_check_limit ScopePlayer ModelBytes (sat_u64 (guest_bytes + asset_bytes prop)) (max_guest_prop_bytes pb)) (\<lambda>_.
      check_body_capacity s 1))))"

definition check_persistent_prop :: "('w, 'h) DomeSessionRuntime \<Rightarrow> MetaversePersistentPropV1 \<Rightarrow> unit result" where
  "check_persistent_prop s prop =
     rbind (check_verified_asset s (prop_asset_ref prop)) (\<lambda>_.
     let replacing = bm_contains (rt_bodies_by_id s) (prop_id prop);
         persistent = length (filter (\<lambda>body. body_kind body = PersistentPropBody) (bm_values (rt_bodies_by_id s))) in
     rbind (host_check_limit ScopeDome PersistentProps (persistent + (if replacing then 0 else 1))
       (max_persistent_props (dome_budget (rt_budget s)))) (\<lambda>_.
     if \<not> replacing then check_body_capacity s 1 else Inr ()))"

definition check_impulse :: "('w, 'h) DomeSessionRuntime \<Rightarrow> vec3 \<Rightarrow> unit result" where
  "check_impulse s impulse = host_check_limit ScopePlayer Impulse (impulse_size impulse)
     (nat (max_impulse_centimeters (player_budget (rt_budget s)) mod 2 ^ 64))"

text \<open>The checks of one kind of input, after the fence and the input bandwidth.\<close>

definition preflight_kind ::
    "DomeSessionInputV1 \<Rightarrow> PlayerResourceBudget \<Rightarrow> i64 \<Rightarrow> (('w, 'h) DomeSessionRuntime, unit) host_op" where
  "preflight_kind input pb now_millis s =
     (let participant_id = in_participant_pubkey input;
          interaction = charge_player pbs_interactions pbs_interactions_update InteractionRate 1000 1
            (max_interactions_per_second pb) now_millis participant_id in
      case in_input input of
        InputJoin _ \<Rightarrow>
          if participant_id \<notin> set (rt_participants s)
          then mlift (rbind (host_check_limit ScopeHost Participants (length (rt_participants s) + 1) (rt_participant_limit s))
            (\<lambda>_. check_body_capacity s 1)) s
          else (Inr (), s)
      | InputSpawnGuestProp prop _ \<Rightarrow>
          mbind (charge_player pbs_spawns pbs_spawns_update PropSpawnRate 60000 1
            (max_prop_spawns_per_minute pb) now_millis participant_id) (\<lambda>_ s. mlift (check_guest_prop s participant_id prop) s) s
      | InputUpsertPersistentProp prop \<Rightarrow> mlift (check_persistent_prop s prop) s
      | InputGrab _ \<Rightarrow> interaction s
      | InputSit _ \<Rightarrow> interaction s
      | InputThrow _ impulse \<Rightarrow> mbind interaction (\<lambda>_ s. mlift (check_impulse s impulse) s) s
      | InputPush _ impulse \<Rightarrow> mbind interaction (\<lambda>_ s. mlift (check_impulse s impulse) s) s
      | _ \<Rightarrow> (Inr (), s))"

definition preflight_input ::
    "('w, 'h, 'f) host_lib \<Rightarrow> DomeSessionInputV1 \<Rightarrow> i64 \<Rightarrow> (('w, 'h) DomeSessionRuntime, unit) host_op" where
  "preflight_input H input now_millis s0 =
     (let participant_id = in_participant_pubkey input; pb = player_budget (rt_budget s0) in
      case foreign ''serde_json'' (to_json (hl_input (hs_lib H)) input) of Inl e \<Rightarrow> (Inl e, s0) | Inr encoded \<Rightarrow>
      mbind (charge_player pbs_input_bytes pbs_input_bytes_update InputBandwidth 1000 (length encoded)
        (max_input_bytes_per_second pb) now_millis participant_id) (\<lambda>_ s.
      if bm_contains (rt_prepared_exits s) participant_id \<and> fenced_input (in_input input)
      then (bail ''DOME_TRANSITION_SOURCE_INPUT_FENCED'', s) else preflight_kind input pb now_millis s) s0)"

text \<open>The two inputs that push a body: throwing also requires that the participant holds it.\<close>

definition apply_impulse ::
    "('w, 'h, 'f) host_lib \<Rightarrow> bool \<Rightarrow> string \<Rightarrow> string \<Rightarrow> vec3 \<Rightarrow> (('w, 'h) DomeSessionRuntime, unit) host_op" where
  "apply_impulse H throw participant_id pid impulse s =
     (case require_participant s participant_id of Inl e \<Rightarrow> (Inl e, s) | Inr _ \<Rightarrow>
      case bm_get (rt_bodies_by_id s) pid of None \<Rightarrow> (bail ''Dome prop does not exist'', s) | Some body \<Rightarrow>
      if throw \<and> body_grabbed_by body \<noteq> Some participant_id
      then (bail ''participant cannot throw a prop it is not grabbing'', s) else
      case rp_body (hs_rapier H) (rt_world s) (body_handle body) of None \<Rightarrow> (bail ''Dome prop rigid body is missing'', s) | Some _ \<Rightarrow>
      (Inr (), s\<lparr>rt_world := rp_apply_impulse (hs_rapier H) (body_handle body) (centimeters_to_meters (hs_f32 H) impulse) (rt_world s),
        rt_bodies_by_id := bm_insert pid (body\<lparr>body_grabbed_by := None\<rparr>) (rt_bodies_by_id s)\<rparr>))"

definition apply_move ::
    "('w, 'h, 'f) host_lib \<Rightarrow> string \<Rightarrow> vec3 \<Rightarrow> vec3 \<Rightarrow> string \<Rightarrow> (('w, 'h) DomeSessionRuntime, unit) host_op" where
  "apply_move H participant_id position rotation animation s =
     (case require_participant s participant_id of Inl e \<Rightarrow> (Inl e, s) | Inr _ \<Rightarrow>
      case set_avatar_transform H participant_id position rotation s of (Inl e, t) \<Rightarrow> (Inl e, t) | (Inr _, t) \<Rightarrow>
      (Inr (), case bm_get (rt_bodies_by_id t) (avatar_id participant_id) of
          Some body \<Rightarrow> t\<lparr>rt_bodies_by_id := bm_insert (avatar_id participant_id) (body\<lparr>body_animation := Some animation\<rparr>)
            (rt_bodies_by_id t)\<rparr>
        | None \<Rightarrow> t))"

definition apply_input ::
    "('w, 'h, 'f) host_lib \<Rightarrow> DomeSessionInputV1 \<Rightarrow> (('w, 'h) DomeSessionRuntime, unit) host_op" where
  "apply_input H input s =
     (let participant_id = in_participant_pubkey input in
      case in_input input of
        InputJoin avatar_collider \<Rightarrow>
          mbind (ensure_avatar H participant_id avatar_collider) (\<lambda>_. mmod (\<lambda>s.
            let participants = bs_insert participant_id (rt_participants s) in
            s\<lparr>rt_participants := participants,
              rt_participant_high_water := max (rt_participant_high_water s) (sat_u32 (length participants))\<rparr>)) s
      | InputLeave \<Rightarrow> (Inr (), snd (evict_participant H participant_id s))
      | InputKeepAlive \<Rightarrow> mlift (require_participant s participant_id) s
      | InputMove position rotation animation \<Rightarrow> apply_move H participant_id position rotation animation s
      | InputGrab pid \<Rightarrow>
          (case require_participant s participant_id of Inl e \<Rightarrow> (Inl e, s) | Inr _ \<Rightarrow>
           case bm_get (rt_bodies_by_id s) pid of None \<Rightarrow> (bail ''Dome prop does not exist'', s) | Some body \<Rightarrow>
           (Inr (), s\<lparr>rt_bodies_by_id := bm_insert pid (body\<lparr>body_grabbed_by := Some participant_id\<rparr>) (rt_bodies_by_id s)\<rparr>))
      | InputThrow pid impulse \<Rightarrow> apply_impulse H True participant_id pid impulse s
      | InputPush pid impulse \<Rightarrow> apply_impulse H False participant_id pid impulse s
      | InputSit pid \<Rightarrow>
          (case require_participant s participant_id of Inl e \<Rightarrow> (Inl e, s) | Inr _ \<Rightarrow>
           if \<not> bm_contains (rt_bodies_by_id s) pid then (bail ''Dome seat prop does not exist'', s)
           else (Inr (), s\<lparr>rt_seated_on := bm_insert participant_id pid (rt_seated_on s)\<rparr>))
      | InputPrepareTransition transition_id direction \<Rightarrow> prepare_transition_exit participant_id transition_id direction s
      | InputAbortTransition transition_id \<Rightarrow> abort_transition_exit participant_id transition_id s
      | InputCompleteTransition transition_id \<Rightarrow> complete_transition_exit H participant_id transition_id s
      | InputSpawnGuestProp prop expires_at \<Rightarrow>
          (case require_participant s participant_id of Inl e \<Rightarrow> (Inl e, s) | Inr _ \<Rightarrow>
           if expires_at \<le> rt_last_simulated_at s then (bail ''Dome guest prop is already expired'', s)
           else insert_prop H prop GuestPropBody (Some expires_at) (Some participant_id) s)
      | InputUpsertPersistentProp prop \<Rightarrow>
          (case require_owner s input of Inl e \<Rightarrow> (Inl e, s) | Inr _ \<Rightarrow>
           insert_prop H prop PersistentPropBody None None (remove_body H (prop_id prop) s))
      | InputDeletePersistentProp pid \<Rightarrow>
          (case require_owner s input of Inl e \<Rightarrow> (Inl e, s) | Inr _ \<Rightarrow>
           if (case bm_get (rt_bodies_by_id s) pid of None \<Rightarrow> True | Some body \<Rightarrow> body_kind body \<noteq> PersistentPropBody)
           then (bail ''Dome persistent prop does not exist'', s)
           else (Inr (), remove_body H pid s)))"

definition apply_signed_input_at ::
    "('w, 'h, 'f) host_lib \<Rightarrow> SignedDomeSessionInputV1 \<Rightarrow> i64 \<Rightarrow> (('w, 'h) DomeSessionRuntime, unit) host_op" where
  "apply_signed_input_at H signed now_millis s =
     (case verify_signed_dome_session_input (hs_lib H) signed (rt_lease_body s) (rt_session_id s) of
        Inl e \<Rightarrow> (Inl e, s)
      | Inr _ \<Rightarrow>
      let input = si_input signed; participant_id = in_participant_pubkey input;
          (checked, inputs) = ledger_check input now_millis (rt_inputs s);
          s = s\<lparr>rt_inputs := inputs\<rparr> in
      case checked of Inl e \<Rightarrow> (Inl e, s) | Inr _ \<Rightarrow>
      let (applied, s) = mbind (preflight_input H input now_millis) (\<lambda>_. apply_input H input) s;
          participating = (participant_id \<in> set (rt_participants s));
          s = (if \<not> participating then s\<lparr>rt_player_budgets := bm_remove participant_id (rt_player_budgets s)\<rparr> else s) in
      case applied of
        Inl error \<Rightarrow>
          (Inl error, case downcast_rejection error of Some r \<Rightarrow> record_rejection r s | None \<Rightarrow> s)
      | Inr _ \<Rightarrow>
          let owner = (participant_id = lease_owner_pubkey (rt_lease_body s));
              s = s\<lparr>rt_inputs := ledger_record input (participating \<or> owner) (rt_inputs s)\<rparr>;
              s = (if participating
                then s\<lparr>rt_participant_last_seen_at := bm_insert participant_id now_millis (rt_participant_last_seen_at s)\<rparr>
                else s) in
          (Inr (), clamp_bodies_to_dome H s))"

definition apply_signed_input ::
    "('w, 'h, 'f) host_lib \<Rightarrow> SignedDomeSessionInputV1 \<Rightarrow> (('w, 'h) DomeSessionRuntime, unit) host_op" where
  "apply_signed_input H signed = apply_signed_input_at H signed (in_sent_at (si_input signed))"

section \<open>Simulation and snapshots\<close>

definition simulate_step ::
    "('w, 'h, 'f) host_lib \<Rightarrow> ('w, 'h) DomeSessionRuntime \<Rightarrow> ('w, 'h) DomeSessionRuntime" where
  "simulate_step H s =
     (let F = hs_f32 H;
          s = clamp_bodies_to_dome H (s\<lparr>rt_world := rp_step (hs_rapier H) (f_lit F 0 1, f_lit F (-981) 100, f_lit F 0 1) (rt_world s)\<rparr>) in
      s\<lparr>rt_tick := sat_u64 (rt_tick s + 1)\<rparr>)"

definition simulation_steps :: "i64 \<Rightarrow> nat" where
  "simulation_steps elapsed_millis = nat (min (tdiv elapsed_millis (tdiv 1000 (int DOME_SIMULATION_HZ))) (int DOME_SIMULATION_HZ * 5))"

definition advance_to :: "('w, 'h, 'f) host_lib \<Rightarrow> i64 \<Rightarrow> (('w, 'h) DomeSessionRuntime, unit) host_op" where
  "advance_to H now_millis s =
     (if now_millis < rt_last_simulated_at s then (bail ''Dome session clock cannot move backwards'', s) else
      let s = expire_guest_props H now_millis s;
          s = expire_stale_participants H now_millis s in
      if rt_participants s = [] then (Inr (), s\<lparr>rt_last_simulated_at := now_millis\<rparr>) else
      let s = (simulate_step H ^^ simulation_steps (sat_i64 (now_millis - rt_last_simulated_at s))) s in
      (Inr (), s\<lparr>rt_last_simulated_at := now_millis\<rparr>))"

definition advance_for_read :: "('w, 'h, 'f) host_lib \<Rightarrow> i64 \<Rightarrow> (('w, 'h) DomeSessionRuntime, unit) host_op" where
  "advance_for_read H now_millis s = advance_to H (max now_millis (rt_last_simulated_at s)) s"

definition snapshot_body :: "('w, 'h, 'f) host_lib \<Rightarrow> 'w \<Rightarrow> string \<times> 'h RuntimeBody \<Rightarrow> DomePhysicsBodyV1 option" where
  "snapshot_body H w = (\<lambda>(entity_id, body). map_option (\<lambda>(translation, rotation, velocity).
     \<lparr>pb_entity_id = entity_id, pb_kind = body_kind body, pb_position = meters_to_centimeters (hs_f32 H) translation,
      pb_rotation = radians_to_milliradians (hs_f32 H) rotation,
      pb_linear_velocity = meters_to_centimeters (hs_f32 H) velocity, pb_animation = body_animation body,
      pb_grabbed_by = body_grabbed_by body, pb_expires_at = body_expires_at body\<rparr>)
     (rp_body (hs_rapier H) w (body_handle body)))"

definition current_snapshot :: "('w, 'h, 'f) host_lib \<Rightarrow> i64 \<Rightarrow> ('w, 'h) DomeSessionRuntime \<Rightarrow> DomePhysicsSnapshotV1" where
  "current_snapshot H now_millis s =
     (let lease = rt_lease_body s in
      \<lparr>snap_instance_id = lease_instance_id lease, snap_instance_generation = lease_instance_generation lease,
       snap_lease_epoch = lease_epoch lease, snap_session_id = rt_session_id s,
       snap_host_pubkey = public_key (hl_crypto (hs_lib H)) (rt_host_keys s),
       snap_sequence = sat_u64 (rt_snapshot_sequence s + 1), snap_simulated_at = now_millis, snap_sleeping = is_sleeping s,
       snap_bodies = List.map_filter (snapshot_body H (rt_world s)) (rt_bodies_by_id s)\<rparr>)"

definition throttled :: "('w, 'h) DomeSessionRuntime \<Rightarrow> ('w, 'h) DomeSessionRuntime" where
  "throttled s = s\<lparr>rt_snapshot_throttled := sat_u64 (rt_snapshot_throttled s + 1)\<rparr>"

text \<open>\<open>while len > capacity { pop_front }\<close>.\<close>

definition push_ring :: "'a \<Rightarrow> 'a list \<Rightarrow> 'a list" where
  "push_ring x ring = (let ring = ring @ [x] in drop (length ring - DOME_SNAPSHOT_RING_CAPACITY) ring)"

definition signed_snapshot_inner ::
    "('w, 'h, 'f) host_lib \<Rightarrow> u64 option \<Rightarrow> i64 \<Rightarrow> bool \<Rightarrow> (('w, 'h) DomeSessionRuntime, SignedDomePhysicsSnapshotV1) host_op" where
  "signed_snapshot_inner H clock now_millis apply_stream_throttle s0 =
     mbind (advance_to H now_millis) (\<lambda>_ s.
     if max_snapshot_hz (dome_budget (rt_budget s)) = 0 then (Inl (Panic ''division by zero''), s) else
     let minimum_interval = tdiv 1000 (int (max_snapshot_hz (dome_budget (rt_budget s)))) in
     if apply_stream_throttle \<and> rt_snapshot_ring s \<noteq> [] \<and>
       (case rt_last_snapshot_at s of Some t \<Rightarrow> sat_i64 (now_millis - t) < minimum_interval | None \<Rightarrow> False)
     then (Inr (last (rt_snapshot_ring s)), throttled s) else
     case build_signed_dome_physics_snapshot (hs_lib H) clock (rt_host_keys s) (rt_lease_body s) (current_snapshot H now_millis s) of
       Inl e \<Rightarrow> (Inl e, s) | Inr signed \<Rightarrow>
     case foreign ''serde_json'' (to_json (hs_signed_snapshot H) signed) of Inl e \<Rightarrow> (Inl e, s) | Inr encoded \<Rightarrow>
     let snapshot_bytes = length encoded; limit = max_snapshot_bytes_per_second (host_budget (rt_budget s));
         (allowed, window) = (if apply_stream_throttle
           then window_allows now_millis 1000 snapshot_bytes limit (rt_snapshot_bandwidth s)
           else (True, rt_snapshot_bandwidth s));
         s = s\<lparr>rt_snapshot_bandwidth := window\<rparr> in
     if \<not> allowed then
       (let s = throttled s in
        if rt_snapshot_ring s \<noteq> [] then (Inr (last (rt_snapshot_ring s)), s) else
        let r = rejection ScopeHost SnapshotBandwidth LimitExceeded snapshot_bytes limit in
        (Inl (Rejected r), record_rejection r s)) else
     (Inr signed, s\<lparr>rt_snapshot_sequence := sat_u64 (rt_snapshot_sequence s + 1), rt_last_snapshot_at := Some now_millis,
       rt_snapshot_bytes := sat_u64 (rt_snapshot_bytes s + snapshot_bytes),
       rt_snapshot_ring := push_ring signed (rt_snapshot_ring s)\<rparr>)) s0"

definition signed_snapshot ::
    "('w, 'h, 'f) host_lib \<Rightarrow> u64 option \<Rightarrow> i64 \<Rightarrow> (('w, 'h) DomeSessionRuntime, SignedDomePhysicsSnapshotV1) host_op" where
  "signed_snapshot H clock now_millis = signed_snapshot_inner H clock now_millis True"

definition signed_admission_snapshot ::
    "('w, 'h, 'f) host_lib \<Rightarrow> u64 option \<Rightarrow> i64 \<Rightarrow> (('w, 'h) DomeSessionRuntime, SignedDomePhysicsSnapshotV1) host_op" where
  "signed_admission_snapshot H clock now_millis = signed_snapshot_inner H clock now_millis False"

definition snapshots_after :: "('w, 'h) DomeSessionRuntime \<Rightarrow> u64 \<Rightarrow> SignedDomePhysicsSnapshotV1 list" where
  "snapshots_after s after_sequence = (case rt_snapshot_ring s of [] \<Rightarrow> [] | front # _ \<Rightarrow>
     if after_sequence \<noteq> 0 \<and> after_sequence < snap_sequence (ss_snapshot front) then [last (rt_snapshot_ring s)]
     else filter (\<lambda>snapshot. snap_sequence (ss_snapshot snapshot) > after_sequence) (rt_snapshot_ring s))"

definition persistent_layout ::
    "('w, 'h, 'f) host_lib \<Rightarrow> ('w, 'h) DomeSessionRuntime \<Rightarrow> MetaversePersistentPropV1 list result" where
  "persistent_layout H s =
     try_fold (\<lambda>props body. case body_persistent_definition body of
         None \<Rightarrow> Inr props
       | Some prop \<Rightarrow>
           rbind (ok_or ''persistent prop rigid body is missing'' (rp_body (hs_rapier H) (rt_world s) (body_handle body)))
             (\<lambda>(translation, rotation, _).
             Inr (props @ [prop\<lparr>prop_position := meters_to_centimeters (hs_f32 H) translation,
               prop_rotation := radians_to_milliradians (hs_f32 H) rotation\<rparr>])))
       [] (bm_values (rt_bodies_by_id s))"

definition signed_layout_candidate ::
    "('w, 'h, 'f) host_lib \<Rightarrow> u64 option \<Rightarrow> string \<Rightarrow> i64 \<Rightarrow> (('w, 'h) DomeSessionRuntime, SignedDomeLayoutCandidateV1) host_op" where
  "signed_layout_candidate H clock operation_id now_millis =
     mbind (signed_snapshot H clock now_millis) (\<lambda>snapshot s.
     mlift (rbind (persistent_layout H s) (\<lambda>props. let lease = rt_lease_body s in
       build_signed_dome_layout_candidate (hs_lib H) clock (rt_host_keys s) lease
         \<lparr>lc_operation_id = operation_id, lc_instance_id = lease_instance_id lease,
          lc_instance_generation = lease_instance_generation lease, lc_lease_epoch = lease_epoch lease,
          lc_session_id = rt_session_id s, lc_host_pubkey = public_key (hl_crypto (hs_lib H)) (rt_host_keys s),
          lc_base_manifest_revision = lease_manifest_version lease,
          lc_snapshot_sequence = snap_sequence (ss_snapshot snapshot), lc_captured_at = now_millis,
          lc_persistent_props = sort_key prop_id props\<rparr>)) s)"

definition signed_heartbeat ::
    "('w, 'h, 'f) host_lib \<Rightarrow> u64 option \<Rightarrow> i64 \<Rightarrow> (('w, 'h) DomeSessionRuntime, SignedDomeHostHeartbeatV1) host_op" where
  "signed_heartbeat H clock now_millis s =
     (let lease = rt_lease_body s; sequence = sat_u64 (rt_heartbeat_sequence s + 1) in
      (build_signed_dome_host_heartbeat (hs_lib H) clock (rt_host_keys s) lease
         \<lparr>hb_instance_id = lease_instance_id lease, hb_instance_generation = lease_instance_generation lease,
          hb_lease_epoch = lease_epoch lease, hb_session_id = rt_session_id s,
          hb_host_pubkey = public_key (hl_crypto (hs_lib H)) (rt_host_keys s),
          hb_participants = sat_u32 (participant_count s), hb_sleeping = is_sleeping s, hb_sequence = sequence,
          hb_sent_at = now_millis\<rparr>,
       s\<lparr>rt_heartbeat_sequence := wrap_u64 (rt_heartbeat_sequence s + 1)\<rparr>))"

section \<open>Starting a session\<close>

definition new_runtime ::
    "('w, 'h, 'f) host_lib \<Rightarrow> SignedDomeHostingLeaseV1 \<Rightarrow> KukuriKeys \<Rightarrow> DomeInstanceManifestV1 \<Rightarrow> DomePresetManifestV1 \<Rightarrow> string \<Rightarrow>
     i64 \<Rightarrow> MetaverseResourceBudgetConfig \<Rightarrow> ('w, 'h) DomeSessionRuntime" where
  "new_runtime H lease host_keys inst preset session_id started_at budget =
     (let limit = max_participants (host_budget budget) in
      \<lparr>rt_lease = lease, rt_host_keys = host_keys, rt_session_id = session_id, rt_participants = [],
       rt_transition_reservations = [], rt_committed_transitions = [], rt_prepared_exits = [], rt_transition_entries = [],
       rt_seated_on = [], rt_inputs = default_ledger, rt_participant_last_seen_at = [], rt_bodies_by_id = [],
       rt_world = rp_new (hs_rapier H) (f_div (hs_f32 H) (f_of_i64 (hs_f32 H) 1) (f_of_i64 (hs_f32 H) (int DOME_SIMULATION_HZ))),
       rt_tick = 0, rt_snapshot_sequence = 0, rt_heartbeat_sequence = 0, rt_snapshot_ring = [],
       rt_last_simulated_at = started_at, rt_budget = budget,
       rt_verified_assets = bm_of_list (map (\<lambda>asset. (mar_blob_hash asset, asset)) (preset_asset_refs preset)),
       rt_participant_limit = min (case inst_max_peers inst of Some n \<Rightarrow> n | None \<Rightarrow> limit) limit,
       rt_default_spawn = inst_default_spawn inst, rt_player_budgets = [], rt_rejection_counts = [], rt_rejected_total = 0,
       rt_participant_high_water = 0, rt_rigid_body_high_water = 0, rt_snapshot_bytes = 0, rt_snapshot_throttled = 0,
       rt_last_snapshot_at = None, rt_snapshot_bandwidth = default_window\<rparr>)"

fun insert_props ::
    "('w, 'h, 'f) host_lib \<Rightarrow> MetaversePersistentPropV1 list \<Rightarrow> ('w, 'h) DomeSessionRuntime \<Rightarrow> ('w, 'h) DomeSessionRuntime result" where
  "insert_props H [] s = Inr s"
| "insert_props H (prop # props) s = (case insert_prop H prop PersistentPropBody None None s of
     (Inl e, _) \<Rightarrow> Inl e | (Inr _, t) \<Rightarrow> insert_props H props t)"

definition start_with_budget ::
    "('w, 'h, 'f) host_lib \<Rightarrow> SignedDomeHostingLeaseV1 \<Rightarrow> KukuriKeys \<Rightarrow> DomeInstanceManifestV1 \<Rightarrow> DomePresetManifestV1 \<Rightarrow> string \<Rightarrow>
     i64 \<Rightarrow> MetaverseResourceBudgetConfig \<Rightarrow> ('w, 'h) DomeSessionRuntime result" where
  "start_with_budget H lease host_keys inst preset session_id started_at budget =
     (let props = cust_persistent_props (dome_customization (preset_dome preset)); n = length props;
          d = dome_budget budget; l = sl_lease lease in
      rbind (validate_budget budget) (\<lambda>_.
      rbind (validate_dome_instance_manifest inst) (\<lambda>_.
      rbind (validate_dome_preset_manifest preset) (\<lambda>_.
      rbind (validate_dome_asset_budget (preset_asset_refs preset) budget) (\<lambda>_.
      rbind (host_check_limit ScopeDome PersistentProps n (max_persistent_props d)) (\<lambda>_.
      rbind (host_check_limit ScopeDome Colliders n (max_colliders d)) (\<lambda>_.
      rbind (host_check_limit ScopeDome RigidBodies n (max_rigid_bodies d)) (\<lambda>_.
      rbind (host_check_limit ScopeHost RigidBodies n (max_simulated_rigid_bodies (host_budget budget))) (\<lambda>_.
      rbind (verify_signed_dome_hosting_lease (hs_lib H) lease inst) (\<lambda>_.
      if signing_pubkey (lease_host l) \<noteq> public_key (hl_crypto (hs_lib H)) host_keys
      then bail ''Dome session host key does not match lease target''
      else if pref_preset_id (inst_preset_ref inst) \<noteq> preset_id preset
        \<or> pref_manifest_blob_hash (inst_preset_ref inst) \<noteq> lease_manifest_blob_hash l
        \<or> started_at < lease_issued_at l \<or> lease_expires_at l \<le> started_at
      then bail ''Dome session manifest or start time does not match lease''
      else if trim session_id = [] then bail ''Dome session id is required''
      else insert_props H props
        (insert_dome_boundaries H (new_runtime H lease host_keys inst preset session_id started_at budget))))))))))))"

definition start_with_session_id ::
    "('w, 'h, 'f) host_lib \<Rightarrow> SignedDomeHostingLeaseV1 \<Rightarrow> KukuriKeys \<Rightarrow> DomeInstanceManifestV1 \<Rightarrow> DomePresetManifestV1 \<Rightarrow> string \<Rightarrow>
     i64 \<Rightarrow> ('w, 'h) DomeSessionRuntime result" where
  "start_with_session_id H lease host_keys inst preset session_id started_at =
     start_with_budget H lease host_keys inst preset session_id started_at default_budget"

definition start_session ::
    "('w, 'h, 'f) host_lib \<Rightarrow> string \<Rightarrow> SignedDomeHostingLeaseV1 \<Rightarrow> KukuriKeys \<Rightarrow> DomeInstanceManifestV1 \<Rightarrow> DomePresetManifestV1 \<Rightarrow>
     i64 \<Rightarrow> ('w, 'h) DomeSessionRuntime result" where
  "start_session H uuid lease host_keys inst preset started_at =
     start_with_session_id H lease host_keys inst preset (''dome-session-'' @ uuid) started_at"

end
