(* ===== verification/Session_Invariant.thy ===== *)
theory Session_Invariant
  imports Session_Host
begin

text \<open>
  What every operation of the session host keeps: the maps are in order, nobody who has left is referred
  to by what the session still holds, and admissions stay within the limit. The passage of time is one
  locale, \<open>time_invariant\<close>: what a step of the engine, the removal of a body and the eviction of a
  participant keep, advancing the clock keeps.
\<close>

section \<open>Keys, grabs and methods\<close>

abbreviation keys_of :: "('k, 'v) btree_map \<Rightarrow> 'k set" where
  "keys_of m \<equiv> fst ` set m"

lemma keys_remove [simp]: "keys_of (bm_remove k m) = keys_of m - {k}"
  by (force simp: bm_remove_def)

lemma keys_retain: "keys_of (bm_retain P m) \<subseteq> keys_of m"
  by (auto simp: bm_retain_def)

lemma keys_fold_remove [simp]: "keys_of (fold bm_remove ks m) = keys_of m - set ks"
  by (induction ks arbitrary: m) auto

lemma bm_contains_keys: "bm_contains m k \<longleftrightarrow> k \<in> keys_of m"
  by (simp add: bm_contains_def bm_get_None_iff)

lemma bm_ok_fold_remove: "bm_ok m \<Longrightarrow> bm_ok (fold bm_remove ks m)"
  by (induction ks arbitrary: m) (auto simp: bm_ok_remove)

lemma bm_insert_subset: "set (bm_insert k v m) \<subseteq> insert (k, v) (set m)"
  by (induction k v m rule: bm_insert.induct) auto

lemma length_bm_insert_le: "length (bm_insert k v m) \<le> Suc (length m)"
  by (induction k v m rule: bm_insert.induct) auto

lemma length_bs_insert: "bs_ok s \<Longrightarrow> length (bs_insert x s) = (if x \<in> set s then length s else Suc (length s))"
proof (induction s)
  case (Cons y s)
  have "x \<notin> set s" if "x < y" using Cons.prems that by (auto simp: bs_ok_def)
  with Cons show ?case by (auto simp: bs_ok_def)
qed simp

lemma length_bs_remove_le: "length (bs_remove x s) \<le> length s"
  by (simp add: bs_remove_def)

lemma length_bs_remove: "x \<in> set s \<Longrightarrow> length (bs_remove x s) < length s"
  unfolding bs_remove_def by (rule length_filter_less) auto

definition grabbers :: "(string, 'h RuntimeBody) btree_map \<Rightarrow> string set" where
  "grabbers m = {p. \<exists>b \<in> snd ` set m. body_grabbed_by b = Some p}"

lemma grabbers_insert: "grabbers (bm_insert i b m) \<subseteq> set_option (body_grabbed_by b) \<union> grabbers m"
  using bm_insert_subset [of i b m] by (force simp: grabbers_def)

lemma grabbers_mono: "set m \<subseteq> set n \<Longrightarrow> grabbers m \<subseteq> grabbers n"
  by (auto simp: grabbers_def)

lemma grabbers_remove: "grabbers (bm_remove i m) \<subseteq> grabbers m"
  by (rule grabbers_mono) (auto simp: bm_remove_def)

lemma grabbers_Nil [simp]: "grabbers [] = {}"
  by (simp add: grabbers_def)

lemma grabbers_Cons [simp]: "grabbers ((i, b) # m) = set_option (body_grabbed_by b) \<union> grabbers m"
  by (auto simp: grabbers_def)

lemma grabbers_release [simp]: "grabbers (release_grabs p m) = grabbers m - {p}"
  unfolding release_grabs_def
proof (induction m)
  case (Cons a m)
  obtain i b where a: "a = (i, b)" by (cases a)
  have "set_option (body_grabbed_by (if body_grabbed_by b = Some p then b\<lparr>body_grabbed_by := None\<rparr> else b)) =
      set_option (body_grabbed_by b) - {p}"
    by (cases "body_grabbed_by b") simp_all
  with Cons show ?case unfolding a by (simp add: Un_Diff)
qed simp

lemma keys_release [simp]: "map fst (release_grabs p m) = map fst m"
  by (induction m) (auto simp: release_grabs_def)

lemma bm_ok_release: "bm_ok m \<Longrightarrow> bm_ok (release_grabs p m)"
  by (simp add: bm_ok_def)

definition maps_ok :: "('w, 'h) DomeSessionRuntime \<Rightarrow> bool" where
  "maps_ok s \<longleftrightarrow> bs_ok (rt_participants s) \<and> bm_ok (rt_transition_reservations s) \<and> bm_ok (rt_committed_transitions s) \<and>
     bm_ok (rt_prepared_exits s) \<and> bm_ok (rt_transition_entries s) \<and> bm_ok (rt_seated_on s) \<and>
     bm_ok (rt_participant_last_seen_at s) \<and> bm_ok (rt_bodies_by_id s) \<and> bm_ok (rt_player_budgets s) \<and>
     bm_ok (rt_rejection_counts s) \<and> bm_ok (il_active (rt_inputs s)) \<and> bm_ok (il_departed (rt_inputs s))"

definition keeps :: "('s \<Rightarrow> bool) \<Rightarrow> ('s, 'a) host_op \<Rightarrow> bool" where
  "keeps I m \<longleftrightarrow> (\<forall>s. I s \<longrightarrow> I (snd (m s)))"

lemma keepsD: "keeps I m \<Longrightarrow> I s \<Longrightarrow> I (snd (m s))"
  by (simp add: keeps_def)

lemma keeps_mbind: "keeps I m \<Longrightarrow> (\<And>x. keeps I (f x)) \<Longrightarrow> keeps I (mbind m f)"
  by (auto simp: keeps_def mbind_def split: prod.split sum.split)

lemma keeps_mmod: "(\<And>s. I s \<Longrightarrow> I (h s)) \<Longrightarrow> keeps I (mmod h)"
  by (simp add: keeps_def mmod_def)

lemma keeps_mlift [simp]: "keeps I (mlift r)"
  by (simp add: keeps_def mlift_def)

lemma keeps_pure [simp]: "keeps I (\<lambda>s. (g s, s))"
  by (simp add: keeps_def)

lemma keeps_if: "keeps I m \<Longrightarrow> keeps I n \<Longrightarrow> keeps I (\<lambda>s. if c s then m s else n s)"
  by (simp add: keeps_def)

lemma case_bail [simp]: "(case bail m of Inl e \<Rightarrow> f e | Inr x \<Rightarrow> g x) = f (Bail m)"
  by (simp add: bail_def)

lemmas bm_oks = bm_ok_insert bm_ok_remove bm_ok_retain bm_ok_fold_remove bm_ok_release bs_ok_insert bs_ok_remove


section \<open>What the operations change\<close>

lemma remove_body_form:
  obtains w where "remove_body H i s = s\<lparr>rt_bodies_by_id := bm_remove i (rt_bodies_by_id s), rt_world := w\<rparr>"
proof (cases "bm_get (rt_bodies_by_id s) i")
  case None
  then have "bm_remove i (rt_bodies_by_id s) = rt_bodies_by_id s"
    by (force simp: bm_get_None_iff bm_remove_def intro!: filter_True)
  with None that [of "rt_world s"] show ?thesis by (simp add: remove_body_def)
qed (auto simp: remove_body_def intro: that)

definition evict_ledger :: "string \<Rightarrow> ('w, 'h) DomeSessionRuntime \<Rightarrow> InputLedger" where
  "evict_ledger p s = (if p \<in> set (rt_participants s) \<and> p \<noteq> lease_owner_pubkey (rt_lease_body s)
     then ledger_retire p (rt_participant_limit s) (rt_inputs s) else rt_inputs s)"

lemma evict_form:
  obtains w where "snd (evict_participant H p s) = s\<lparr>rt_participants := bs_remove p (rt_participants s),
    rt_transition_reservations := bm_retain (\<lambda>_. ticket_kept p None) (rt_transition_reservations s),
    rt_committed_transitions := bm_retain (\<lambda>_. ticket_kept p None) (rt_committed_transitions s),
    rt_prepared_exits := bm_remove p (rt_prepared_exits s), rt_transition_entries := bm_remove p (rt_transition_entries s),
    rt_seated_on := bm_remove p (rt_seated_on s), rt_inputs := evict_ledger p s,
    rt_participant_last_seen_at := bm_remove p (rt_participant_last_seen_at s),
    rt_player_budgets := bm_remove p (rt_player_budgets s),
    rt_bodies_by_id := release_grabs p (bm_remove (avatar_id p) (rt_bodies_by_id s)), rt_world := w\<rparr>"
proof -
  let ?t = "s\<lparr>rt_participants := bs_remove p (rt_participants s),
    rt_transition_reservations := bm_retain (\<lambda>_. ticket_kept p None) (rt_transition_reservations s),
    rt_committed_transitions := bm_retain (\<lambda>_. ticket_kept p None) (rt_committed_transitions s),
    rt_prepared_exits := bm_remove p (rt_prepared_exits s), rt_transition_entries := bm_remove p (rt_transition_entries s),
    rt_seated_on := bm_remove p (rt_seated_on s), rt_inputs := evict_ledger p s,
    rt_participant_last_seen_at := bm_remove p (rt_participant_last_seen_at s),
    rt_player_budgets := bm_remove p (rt_player_budgets s)\<rparr>"
  obtain w where w: "remove_body H (avatar_id p) ?t =
      ?t\<lparr>rt_bodies_by_id := bm_remove (avatar_id p) (rt_bodies_by_id ?t), rt_world := w\<rparr>"
    by (rule remove_body_form)
  have "snd (evict_participant H p s) = (let t = remove_body H (avatar_id p) ?t in
      t\<lparr>rt_bodies_by_id := release_grabs p (rt_bodies_by_id t)\<rparr>)"
    by (simp add: evict_participant_def Let_def revoke_transition_access_def evict_ledger_def)
  then show ?thesis unfolding w by (intro that [of w]) (simp add: Let_def)
qed

lemma clamp_form:
  obtains w ps where "clamp_bodies_to_dome H s = s\<lparr>rt_world := w, rt_transition_entries := fold bm_remove ps (rt_transition_entries s)\<rparr>"
  by (cases "fold (clamp_body H (rt_prepared_exits s) (rt_transition_entries s)) (rt_bodies_by_id s) (rt_world s, [])")
    (auto simp: clamp_bodies_to_dome_def intro: that)

lemma simulate_step_form:
  obtains w ps where "simulate_step H s = s\<lparr>rt_world := w, rt_transition_entries := fold bm_remove ps (rt_transition_entries s),
    rt_tick := sat_u64 (rt_tick s + 1)\<rparr>"
proof -
  let ?t = "s\<lparr>rt_world := rp_step (hs_rapier H) (f_lit (hs_f32 H) 0 1, f_lit (hs_f32 H) (-981) 100, f_lit (hs_f32 H) 0 1) (rt_world s)\<rparr>"
  obtain w ps where "clamp_bodies_to_dome H ?t = ?t\<lparr>rt_world := w, rt_transition_entries := fold bm_remove ps (rt_transition_entries ?t)\<rparr>"
    by (rule clamp_form)
  then show ?thesis by (intro that) (simp add: simulate_step_def Let_def)
qed

text \<open>
  An invariant that looks neither at the physics world nor at the counters, and that the removal of
  bodies and entries and the eviction of a participant keep, is kept by the passage of time.
\<close>

locale time_invariant =
  fixes H :: "('w, 'h, 'f) host_lib" and I :: "('w, 'h) DomeSessionRuntime \<Rightarrow> bool"
  assumes physics: "I s \<Longrightarrow> I (s\<lparr>rt_world := w, rt_transition_entries := fold bm_remove ps (rt_transition_entries s)\<rparr>)"
    and ticks: "I s \<Longrightarrow> I (s\<lparr>rt_tick := sat_u64 (rt_tick s + 1)\<rparr>)"
    and clock: "I s \<Longrightarrow> I (s\<lparr>rt_last_simulated_at := t\<rparr>)"
    and removal: "I s \<Longrightarrow> I (s\<lparr>rt_bodies_by_id := bm_remove i (rt_bodies_by_id s), rt_world := w\<rparr>)"
    and eviction: "I s \<Longrightarrow> I (snd (evict_participant H p s))"
begin

lemma keeps_remove_body: "I s \<Longrightarrow> I (remove_body H i s)"
  by (rule remove_body_form [of H i s]) (simp add: removal)

lemma keeps_clamp: "I s \<Longrightarrow> I (clamp_bodies_to_dome H s)"
  by (rule clamp_form [of H s]) (simp add: physics)

lemma keeps_simulation: "I s \<Longrightarrow> I ((simulate_step H ^^ n) s)"
proof (induction n)
  case (Suc n)
  let ?t = "(simulate_step H ^^ n) s"
  obtain w ps where "simulate_step H ?t = ?t\<lparr>rt_world := w, rt_transition_entries := fold bm_remove ps (rt_transition_entries ?t),
      rt_tick := sat_u64 (rt_tick ?t + 1)\<rparr>"
    by (rule simulate_step_form)
  with ticks [OF physics [OF Suc.IH [OF Suc.prems]]] show ?case by simp
qed simp

lemma keeps_expire_props: "I s \<Longrightarrow> I (expire_guest_props H now s)"
proof -
  have "I s \<Longrightarrow> I (fold (remove_body H) ids s)" for ids
    by (induction ids arbitrary: s) (auto intro: keeps_remove_body)
  then show "I s \<Longrightarrow> ?thesis" by (simp add: expire_guest_props_def)
qed

lemma keeps_expire_participants: "I s \<Longrightarrow> I (expire_stale_participants H now s)"
proof -
  have "I s \<Longrightarrow> I (fold (\<lambda>p s. snd (evict_participant H p s)) ps s)" for ps
    by (induction ps arbitrary: s) (auto intro: eviction)
  then show "I s \<Longrightarrow> ?thesis" by (simp add: expire_stale_participants_def)
qed

lemma keeps_advance_to: "keeps I (advance_to H now)"
  by (auto simp: keeps_def advance_to_def Let_def intro!: clock keeps_simulation keeps_expire_participants keeps_expire_props)

lemma keeps_advance_for_read: "keeps I (advance_for_read H now)"
  using keeps_advance_to unfolding keeps_def advance_for_read_def by blast

end

section \<open>The invariant\<close>

text \<open>
  \<open>attached A s\<close>: nothing of the session refers to someone who does not take part, where the participants
  \<open>A\<close> are the ones whose input is being processed.
\<close>

definition attached :: "string set \<Rightarrow> ('w, 'h) DomeSessionRuntime \<Rightarrow> bool" where
  "attached A s \<longleftrightarrow> (let P = set (rt_participants s) in
     keys_of (rt_participant_last_seen_at s) \<subseteq> P \<and> P \<subseteq> keys_of (rt_participant_last_seen_at s) \<union> A \<and>
     keys_of (rt_player_budgets s) \<subseteq> P \<union> A \<and> keys_of (rt_prepared_exits s) \<subseteq> P \<and>
     keys_of (rt_transition_entries s) \<subseteq> P \<and> keys_of (rt_seated_on s) \<subseteq> P \<and> grabbers (rt_bodies_by_id s) \<subseteq> P)"

definition awaiting :: "('w, 'h) DomeSessionRuntime \<Rightarrow> DomeTransitionAdmissionTicketV1 list" where
  "awaiting s = filter (\<lambda>ticket. tr_participant_pubkey (tk_request ticket) \<notin> set (rt_participants s))
     (bm_values (rt_transition_reservations s))"

abbreviation visitor :: "DomeTransitionAdmissionTicketV1 \<Rightarrow> Pubkey" where
  "visitor ticket \<equiv> tr_participant_pubkey (tk_request ticket)"

definition admissions_ok :: "('w, 'h) DomeSessionRuntime \<Rightarrow> bool" where
  "admissions_ok s \<longleftrightarrow> length (rt_transition_reservations s) \<le> rt_participant_limit s \<and>
     length (rt_participants s) + length (awaiting s) \<le> 2 * rt_participant_limit s \<and>
     distinct (map visitor (bm_values (rt_transition_reservations s))) \<and>
     distinct (map visitor (bm_values (rt_committed_transitions s)))"

lemma awaiting_le: "length (awaiting s) \<le> length (rt_transition_reservations s)"
  by (simp add: awaiting_def bm_values_def length_filter_le [THEN order_trans])

lemma bm_values_retain: "bm_values (bm_retain (\<lambda>_. Q) m) = filter Q (bm_values m)"
  by (induction m) (auto simp: bm_values_def bm_retain_def)

lemma ledger_retire_ok: "bm_ok (il_active l) \<Longrightarrow> bm_ok (il_departed l) \<Longrightarrow>
    bm_ok (il_active (ledger_retire p n l)) \<and> bm_ok (il_departed (ledger_retire p n l))"
  by (auto simp: ledger_retire_def Let_def bm_oks split: option.split)

lemma maps_evict: "maps_ok s \<Longrightarrow> maps_ok (snd (evict_participant H p s))"
  by (rule evict_form [of H p s])
    (simp add: maps_ok_def bm_oks evict_ledger_def ledger_retire_ok)

lemma attached_evict: "attached A s \<Longrightarrow> attached (A - {p}) (snd (evict_participant H p s))"
proof (rule evict_form [of H p s], goal_cases)
  case (1 w)
  then show ?case using grabbers_remove [of "avatar_id p" "rt_bodies_by_id s"]
    unfolding 1(2) attached_def by (auto simp: Let_def set_bs_remove simp del: image_iff)
qed

lemma admissions_evict: "admissions_ok s \<Longrightarrow> admissions_ok (snd (evict_participant H p s))"
proof (rule evict_form [of H p s], goal_cases)
  case (1 w)
  let ?t = "snd (evict_participant H p s)"
  have res: "bm_values (rt_transition_reservations ?t) = filter (ticket_kept p None) (bm_values (rt_transition_reservations s))"
    and com: "bm_values (rt_committed_transitions ?t) = filter (ticket_kept p None) (bm_values (rt_committed_transitions s))"
    by (simp_all add: 1(2) bm_values_retain)
  have "awaiting ?t = filter (\<lambda>t. visitor t \<noteq> p) (awaiting s)"
    unfolding awaiting_def res by (auto simp: 1(2) set_bs_remove ticket_kept_def intro!: filter_cong)
  then have "length (awaiting ?t) \<le> length (awaiting s)" by simp
  moreover have "length (rt_participants ?t) \<le> length (rt_participants s)" by (simp add: 1(2) length_bs_remove_le)
  moreover have "length (rt_transition_reservations ?t) \<le> length (rt_transition_reservations s)"
    by (simp add: 1(2) bm_retain_def)
  moreover have "rt_participant_limit ?t = rt_participant_limit s" by (simp add: 1(2))
  ultimately show ?case using 1(1) by (simp add: admissions_ok_def res com distinct_map_filter)
qed

definition session_ok :: "string set \<Rightarrow> ('w, 'h) DomeSessionRuntime \<Rightarrow> bool" where
  "session_ok A s \<longleftrightarrow> maps_ok s \<and> attached A s \<and> admissions_ok s"

lemma attached_mono: "attached A s \<Longrightarrow> A \<subseteq> B \<Longrightarrow> attached B s"
  by (auto simp: attached_def Let_def)

lemma session_ok_mono: "session_ok A s \<Longrightarrow> A \<subseteq> B \<Longrightarrow> session_ok B s"
  by (auto simp: session_ok_def intro: attached_mono)

lemma session_ok_evict: "session_ok A s \<Longrightarrow> session_ok (A - {p}) (snd (evict_participant H p s))"
  by (simp add: session_ok_def maps_evict attached_evict admissions_evict)

text \<open>The fields the invariant does not look at.\<close>

lemma session_ok_irrelevant [simp]:
  "session_ok A (s\<lparr>rt_world := w\<rparr>) = session_ok A s"
  "session_ok A (s\<lparr>rt_tick := n\<rparr>) = session_ok A s"
  "session_ok A (s\<lparr>rt_last_simulated_at := t\<rparr>) = session_ok A s"
  "session_ok A (s\<lparr>rt_snapshot_throttled := n\<rparr>) = session_ok A s"
  "session_ok A (s\<lparr>rt_snapshot_bandwidth := v\<rparr>) = session_ok A s"
  "session_ok A (s\<lparr>rt_snapshot_sequence := n\<rparr>) = session_ok A s"
  "session_ok A (s\<lparr>rt_heartbeat_sequence := n\<rparr>) = session_ok A s"
  "session_ok A (s\<lparr>rt_last_snapshot_at := x\<rparr>) = session_ok A s"
  "session_ok A (s\<lparr>rt_snapshot_bytes := n\<rparr>) = session_ok A s"
  "session_ok A (s\<lparr>rt_snapshot_ring := ring\<rparr>) = session_ok A s"
  "session_ok A (s\<lparr>rt_rejected_total := n\<rparr>) = session_ok A s"
  "session_ok A (s\<lparr>rt_participant_high_water := n\<rparr>) = session_ok A s"
  "session_ok A (s\<lparr>rt_rigid_body_high_water := n\<rparr>) = session_ok A s"
  by (simp_all add: session_ok_def maps_ok_def attached_def admissions_ok_def awaiting_def)

lemma session_ok_entries: "session_ok A s \<Longrightarrow> session_ok A (s\<lparr>rt_transition_entries := fold bm_remove ps (rt_transition_entries s)\<rparr>)"
  by (auto simp: session_ok_def maps_ok_def attached_def admissions_ok_def awaiting_def bm_oks Let_def)

lemma session_ok_fewer_bodies: "session_ok A s \<Longrightarrow> session_ok A (s\<lparr>rt_bodies_by_id := bm_remove i (rt_bodies_by_id s)\<rparr>)"
  using grabbers_remove [of i "rt_bodies_by_id s"]
  by (auto simp: session_ok_def maps_ok_def attached_def admissions_ok_def awaiting_def bm_oks Let_def)

lemma session_ok_body:
  assumes "session_ok A s" "set_option (body_grabbed_by b) \<subseteq> set (rt_participants s)"
  shows "session_ok A (s\<lparr>rt_bodies_by_id := bm_insert i b (rt_bodies_by_id s)\<rparr>)"
proof -
  have "grabbers (bm_insert i b (rt_bodies_by_id s)) \<subseteq> set (rt_participants s)"
    using assms grabbers_insert [of i b "rt_bodies_by_id s"] by (auto simp: session_ok_def attached_def Let_def)
  with assms(1) show ?thesis by (simp add: session_ok_def maps_ok_def attached_def admissions_ok_def awaiting_def bm_oks Let_def)
qed

interpretation presence: time_invariant H "session_ok A" for H :: "('w, 'h, 'f) host_lib" and A
proof
  fix s :: "('w, 'h) DomeSessionRuntime" and p ps w i n t
  assume ok: "session_ok A s"
  then show "session_ok A (snd (evict_participant H p s))" by (rule session_ok_mono [OF session_ok_evict]) auto
  show "session_ok A (s\<lparr>rt_world := w, rt_transition_entries := fold bm_remove ps (rt_transition_entries s)\<rparr>)"
    using session_ok_entries [of A "s\<lparr>rt_world := w\<rparr>" ps] ok by simp
  show "session_ok A (s\<lparr>rt_bodies_by_id := bm_remove i (rt_bodies_by_id s), rt_world := w\<rparr>)"
    using ok by (simp add: session_ok_fewer_bodies)
qed simp_all

lemma session_ok_add_body:
  "session_ok A s \<Longrightarrow> body_grabbed_by b = None \<Longrightarrow> session_ok A (add_body i b w s)"
  using session_ok_body [of A "s\<lparr>rt_world := w\<rparr>" b i] by (simp add: add_body_def Let_def)

lemma keeps_insert_prop: "keeps (session_ok A) (insert_prop H prop kind expires_at created_by)"
  by (auto simp: keeps_def insert_prop_def Let_def intro!: session_ok_add_body split: prod.split)

lemma keeps_ensure_avatar: "keeps (session_ok A) (ensure_avatar H p collider)"
  by (auto simp: keeps_def ensure_avatar_def Let_def intro!: session_ok_add_body split: prod.split sum.split option.split)

lemma keeps_set_avatar_transform: "keeps (session_ok A) (set_avatar_transform H p position rotation)"
  by (auto simp: keeps_def set_avatar_transform_def Let_def split: option.split)

lemma session_ok_seats: "session_ok A s \<Longrightarrow> keys_of m \<subseteq> set (rt_participants s) \<Longrightarrow> bm_ok m \<Longrightarrow> session_ok A (s\<lparr>rt_seated_on := m\<rparr>)"
  and session_ok_exits: "session_ok A s \<Longrightarrow> keys_of e \<subseteq> set (rt_participants s) \<Longrightarrow> bm_ok e \<Longrightarrow> session_ok A (s\<lparr>rt_prepared_exits := e\<rparr>)"
  and session_ok_budgets: "session_ok A s \<Longrightarrow> keys_of b \<subseteq> set (rt_participants s) \<union> A \<Longrightarrow> bm_ok b \<Longrightarrow> session_ok A (s\<lparr>rt_player_budgets := b\<rparr>)"
  and session_ok_counts: "session_ok A s \<Longrightarrow> bm_ok c \<Longrightarrow> session_ok A (s\<lparr>rt_rejection_counts := c\<rparr>)"
  and session_ok_inputs: "session_ok A s \<Longrightarrow> bm_ok (il_active l) \<Longrightarrow> bm_ok (il_departed l) \<Longrightarrow> session_ok A (s\<lparr>rt_inputs := l\<rparr>)"
  by (simp_all add: session_ok_def maps_ok_def attached_def admissions_ok_def awaiting_def Let_def)

lemma session_ok_keys:
  "session_ok A s \<Longrightarrow> keys_of (rt_prepared_exits s) \<subseteq> set (rt_participants s) \<and> keys_of (rt_seated_on s) \<subseteq> set (rt_participants s) \<and>
     keys_of (rt_player_budgets s) \<subseteq> set (rt_participants s) \<union> A \<and> grabbers (rt_bodies_by_id s) \<subseteq> set (rt_participants s)"
  by (simp add: session_ok_def attached_def Let_def)

lemma session_ok_maps: "session_ok A s \<Longrightarrow> maps_ok s"
  by (simp add: session_ok_def)

lemma session_ok_release: "session_ok A s \<Longrightarrow> session_ok A (s\<lparr>rt_bodies_by_id := release_grabs p (rt_bodies_by_id s)\<rparr>)"
  by (auto simp: session_ok_def maps_ok_def attached_def admissions_ok_def awaiting_def bm_oks Let_def)

lemma keeps_prepare_exit: "keeps (session_ok A) (prepare_transition_exit p i d)"
  unfolding keeps_def
proof (intro allI impI)
  fix s :: "('a, 'b) DomeSessionRuntime"
  assume ok: "session_ok A s"
  note k = session_ok_keys [OF ok] session_ok_maps [OF ok]
  let ?t = "s\<lparr>rt_bodies_by_id := release_grabs p (rt_bodies_by_id s), rt_seated_on := bm_remove p (rt_seated_on s),
    rt_prepared_exits := bm_insert p \<lparr>pe_transition_id = i, pe_direction = d\<rparr> (rt_prepared_exits s)\<rparr>"
  have "session_ok A ?t" if "p \<in> set (rt_participants s)"
    by (intro session_ok_exits session_ok_seats) (use k that ok in \<open>auto simp: session_ok_release bm_insert_keys maps_ok_def bm_oks\<close>)
  then show "session_ok A (snd (prepare_transition_exit p i d s))"
    using ok by (auto simp: prepare_transition_exit_def require_participant_def split: option.split)
qed

lemma keeps_abort_exit: "keeps (session_ok A) (abort_transition_exit p i)"
  unfolding keeps_def
proof (intro allI impI)
  fix s :: "('a, 'b) DomeSessionRuntime"
  assume ok: "session_ok A s"
  have "session_ok A (s\<lparr>rt_prepared_exits := bm_remove p (rt_prepared_exits s)\<rparr>)"
    using session_ok_keys [OF ok] session_ok_maps [OF ok]
    by (intro session_ok_exits ok) (auto simp: maps_ok_def bm_oks)
  with ok show "session_ok A (snd (abort_transition_exit p i s))"
    by (auto simp: abort_transition_exit_def split: option.split)
qed

lemma keeps_complete_exit: "keeps (session_ok A) (complete_transition_exit H p i)"
  by (auto simp: keeps_def complete_transition_exit_def presence.eviction split: option.split)

lemma charge_player_form:
  obtains b where "snd (charge_player g u r d n l now p s) = s\<lparr>rt_player_budgets := bm_insert p b (rt_player_budgets s)\<rparr>"
proof -
  obtain a w where "window_allows now d n l (g (case bm_get (rt_player_budgets s) p of None \<Rightarrow> default_player_budget | Some b \<Rightarrow> b)) = (a, w)"
    by fastforce
  then show ?thesis by (intro that) (simp add: charge_player_def Let_def)
qed

lemma keeps_charge_player: "p \<in> A \<Longrightarrow> keeps (session_ok A) (charge_player g u r d n l now p)"
  unfolding keeps_def
proof (intro allI impI)
  fix s :: "('a, 'b) DomeSessionRuntime"
  assume p: "p \<in> A" and ok: "session_ok A s"
  obtain b where b: "snd (charge_player g u r d n l now p s) = s\<lparr>rt_player_budgets := bm_insert p b (rt_player_budgets s)\<rparr>"
    by (rule charge_player_form)
  show "session_ok A (snd (charge_player g u r d n l now p s))"
    unfolding b using session_ok_keys [OF ok] session_ok_maps [OF ok] p
    by (intro session_ok_budgets ok) (auto simp: bm_insert_keys maps_ok_def bm_oks)
qed

text \<open>The preflight only charges the budgets of the signer.\<close>

definition only_budgets :: "('w, 'h) DomeSessionRuntime \<Rightarrow> ('w, 'h) DomeSessionRuntime \<Rightarrow> bool" where
  "only_budgets s t \<longleftrightarrow> (\<exists>b. t = s\<lparr>rt_player_budgets := b\<rparr>)"

lemma only_budgets_refl [simp]: "only_budgets s s"
  unfolding only_budgets_def by (rule exI [of _ "rt_player_budgets s"]) simp

lemma only_budgets_trans: "only_budgets s t \<Longrightarrow> only_budgets t u \<Longrightarrow> only_budgets s u"
  by (auto simp: only_budgets_def)

lemma charge_only_budgets: "charge_player g u r d n l now p s = (q, t) \<Longrightarrow> only_budgets s t"
  by (rule charge_player_form [of g u r d n l now p s]) (auto simp: only_budgets_def)

lemma keeps_preflight:
  assumes charge: "\<And>g u r d n l. keeps I (charge_player g u r d n l now (in_participant_pubkey input))"
  shows "keeps I (preflight_input H input now)"
proof -
  have kind: "keeps I (preflight_kind input pb now)" for pb
    unfolding preflight_kind_def Let_def
    by (cases "in_input input") (auto simp: mlift_def charge intro!: keeps_if keeps_mbind)
  show ?thesis unfolding keeps_def
  proof (intro allI impI)
    fix s assume "I s"
    show "I (snd (preflight_input H input now s))"
    proof (cases "to_json (hl_input (hs_lib H)) input")
      case (Some encoded)
      show ?thesis unfolding preflight_input_def Let_def Some foreign_simps sum.case
        by (rule keepsD [OF keeps_mbind [OF charge keeps_if [OF keeps_pure kind]] \<open>I s\<close>])
    qed (use \<open>I s\<close> in \<open>simp add: preflight_input_def Let_def\<close>)
  qed
qed

lemma preflight_ok: "session_ok {in_participant_pubkey input} s \<Longrightarrow>
    session_ok {in_participant_pubkey input} (snd (preflight_input H input now s))"
  by (rule keepsD [OF keeps_preflight]) (auto intro: keeps_charge_player)

lemma preflight_only_budgets: "only_budgets s (snd (preflight_input H input now s))"
  by (rule keepsD [OF keeps_preflight]) (auto simp: keeps_def intro: only_budgets_trans charge_only_budgets [OF surjective_pairing])

lemma preflight_join:
  assumes "preflight_input H input now s = (Inr (), t)" "in_input input = InputJoin c" "in_participant_pubkey input \<notin> set (rt_participants s)"
  shows "length (rt_participants s) + 1 \<le> rt_participant_limit s"
proof -
  from assms(1,2) obtain g u r d n l v where v: "charge_player g u r d n l now (in_participant_pubkey input) s = (Inr (), v)"
    and w: "in_participant_pubkey input \<notin> set (rt_participants v) \<longrightarrow>
      host_check_limit ScopeHost Participants (length (rt_participants v) + 1) (rt_participant_limit v) = Inr ()"
    by (fastforce simp: preflight_input_def preflight_kind_def Let_def op_simps mbind_Inr mlift_def rbind_eq_Inr foreign_def split: if_splits option.splits)
  from charge_only_budgets [OF v] w assms(3) show ?thesis
    by (auto simp: only_budgets_def host_check_limit_def split: if_splits)
qed

lemma body_grabber: "session_ok A s \<Longrightarrow> bm_get (rt_bodies_by_id s) i = Some b \<Longrightarrow> set_option (body_grabbed_by b) \<subseteq> set (rt_participants s)"
proof -
  assume "session_ok A s" "bm_get (rt_bodies_by_id s) i = Some b"
  then have "set_option (body_grabbed_by b) \<subseteq> grabbers (rt_bodies_by_id s)"
    by (force simp: grabbers_def dest: bm_get_Some_in)
  also have "\<dots> \<subseteq> set (rt_participants s)" using session_ok_keys [OF \<open>session_ok A s\<close>] by simp
  finally show ?thesis .
qed

lemma keeps_apply_impulse: "keeps (session_ok A) (apply_impulse H throw p pid impulse)"
  unfolding keeps_def
proof (intro allI impI)
  fix s :: "('a, 'b) DomeSessionRuntime"
  assume ok: "session_ok A s"
  have "session_ok A (s\<lparr>rt_world := w, rt_bodies_by_id := bm_insert pid (b\<lparr>body_grabbed_by := None\<rparr>) (rt_bodies_by_id s)\<rparr>)" for w b
    using session_ok_body [of A "s\<lparr>rt_world := w\<rparr>" "b\<lparr>body_grabbed_by := None\<rparr>" pid] ok by simp
  with ok show "session_ok A (snd (apply_impulse H throw p pid impulse s))"
    by (simp add: apply_impulse_def require_participant_def split: option.split)
qed

lemma keeps_apply_move: "keeps (session_ok A) (apply_move H p position rotation animation)"
  unfolding keeps_def
proof (intro allI impI)
  fix s :: "('a, 'b) DomeSessionRuntime"
  assume ok: "session_ok A s"
  obtain r t where t: "set_avatar_transform H p position rotation s = (r, t)" by fastforce
  have ok': "session_ok A t" using keepsD [OF keeps_set_avatar_transform ok, of H p position rotation] t by simp
  have "session_ok A (t\<lparr>rt_bodies_by_id := bm_insert (avatar_id p) (b\<lparr>body_animation := Some animation\<rparr>) (rt_bodies_by_id t)\<rparr>)"
    if "bm_get (rt_bodies_by_id t) (avatar_id p) = Some b" for b
    using body_grabber [OF ok' that] by (intro session_ok_body ok') simp
  with ok ok' show "session_ok A (snd (apply_move H p position rotation animation s))"
    by (simp add: apply_move_def require_participant_def t split: option.split sum.split)
qed

lemma session_ok_join:
  assumes ok: "session_ok {p} s" and room: "p \<in> set (rt_participants s) \<or> length (rt_participants s) + 1 \<le> rt_participant_limit s"
  shows "session_ok {p} (s\<lparr>rt_participants := bs_insert p (rt_participants s)\<rparr>)"
proof -
  let ?t = "s\<lparr>rt_participants := bs_insert p (rt_participants s)\<rparr>"
  have P: "bs_ok (rt_participants s)" using ok by (simp add: session_ok_def maps_ok_def)
  have "awaiting ?t = filter (\<lambda>t. visitor t \<noteq> p) (awaiting s)"
    by (auto simp: awaiting_def intro!: filter_cong)
  then have len: "length (awaiting ?t) \<le> length (awaiting s)" by simp
  have "awaiting ?t = awaiting s" if "p \<in> set (rt_participants s)"
    using that by (simp add: awaiting_def insert_absorb)
  then have "length (rt_participants ?t) + length (awaiting ?t) \<le> 2 * rt_participant_limit s"
    using ok room awaiting_le [of s] length_bs_insert [OF P, of p] len by (auto simp: session_ok_def admissions_ok_def)
  then show ?thesis using ok
    by (auto simp: session_ok_def maps_ok_def attached_def admissions_ok_def Let_def bm_oks)
qed

lemma ensure_avatar_cases: "snd (ensure_avatar H p c s) = s \<or> (\<exists>b w. snd (ensure_avatar H p c s) = add_body (avatar_id p) b w s)"
  by (simp add: ensure_avatar_def Let_def split: sum.split prod.split) blast

lemma ensure_avatar_fields: "rt_participants (snd (ensure_avatar H p c s)) = rt_participants s"
    "rt_participant_limit (snd (ensure_avatar H p c s)) = rt_participant_limit s"
  using ensure_avatar_cases [of H p c s] by (auto simp: add_body_def Let_def)

lemma apply_input_ok:
  assumes ok: "session_ok {in_participant_pubkey input} s"
    and room: "\<And>c. in_input input = InputJoin c \<Longrightarrow> in_participant_pubkey input \<notin> set (rt_participants s) \<Longrightarrow>
      length (rt_participants s) + 1 \<le> rt_participant_limit s"
  shows "session_ok {in_participant_pubkey input} (snd (apply_input H input s))"
proof -
  let ?p = "in_participant_pubkey input"
  note keep = keepsD [where I = "session_ok {?p}" and s = s, OF _ ok]
  show ?thesis
  proof (cases "in_input input")
    case (InputJoin c)
    obtain r t where t: "ensure_avatar H ?p c s = (r, t)" by fastforce
    have f: "rt_participants t = rt_participants s" "rt_participant_limit t = rt_participant_limit s"
      using ensure_avatar_fields [of H ?p c s] t by simp_all
    have "session_ok {?p} t" using keep [OF keeps_ensure_avatar, of H ?p c] t by simp
    moreover have "session_ok {?p} (t\<lparr>rt_participants := bs_insert ?p (rt_participants t)\<rparr>)"
      by (rule session_ok_join) (use \<open>session_ok {?p} t\<close> room [OF InputJoin] f in auto)
    ultimately show ?thesis
      by (simp add: apply_input_def InputJoin Let_def mbind_def t mmod_def split: sum.split)
  next
    case (InputGrab pid)
    have "session_ok {?p} (s\<lparr>rt_bodies_by_id := bm_insert pid (b\<lparr>body_grabbed_by := Some ?p\<rparr>) (rt_bodies_by_id s)\<rparr>)"
      if "?p \<in> set (rt_participants s)" for b
      using that by (intro session_ok_body ok) simp
    then show ?thesis using ok
      by (auto simp: apply_input_def InputGrab Let_def require_participant_def split: option.split)
  next
    case (InputSit pid)
    have "session_ok {?p} (s\<lparr>rt_seated_on := bm_insert ?p pid (rt_seated_on s)\<rparr>)" if "?p \<in> set (rt_participants s)"
      using session_ok_keys [OF ok] session_ok_maps [OF ok] that
      by (intro session_ok_seats ok) (auto simp: bm_insert_keys maps_ok_def bm_oks)
    then show ?thesis using ok by (auto simp: apply_input_def InputSit Let_def require_participant_def)
  next
    case (InputSpawnGuestProp q t)
    then show ?thesis using ok keep [OF keeps_insert_prop]
      by (auto simp: apply_input_def Let_def require_participant_def)
  next
    case (InputUpsertPersistentProp q)
    then show ?thesis using ok keepsD [OF keeps_insert_prop presence.keeps_remove_body [OF ok]]
      by (auto simp: apply_input_def Let_def require_owner_def)
  next
    case (InputDeletePersistentProp pid)
    then show ?thesis using ok presence.keeps_remove_body [OF ok]
      by (auto simp: apply_input_def Let_def require_owner_def split: option.split)
  qed (use ok in \<open>simp_all add: apply_input_def Let_def presence.eviction mlift_def keep keeps_apply_move keeps_apply_impulse
      keeps_prepare_exit keeps_abort_exit keeps_complete_exit\<close>)
qed

lemma apply_input_error:
  assumes "apply_input H input s = (Inl e, t)"
  shows "t = s"
proof (cases "in_input input")
  case (InputJoin c)
  have "ensure_avatar H p c s = (Inl e, t) \<Longrightarrow> t = s" for p
    by (auto simp: ensure_avatar_def Let_def split: if_splits sum.splits prod.splits)
  with assms InputJoin show ?thesis by (auto simp: apply_input_def Let_def mbind_Inl mmod_def)
next
  case (InputMove position rotation animation)
  have "set_avatar_transform H p position rotation s = (Inl e, t) \<Longrightarrow> t = s" for p
    by (auto simp: set_avatar_transform_def Let_def split: option.splits)
  with assms InputMove show ?thesis
    by (auto simp: apply_input_def apply_move_def Let_def split: sum.splits prod.splits)
next
  case (InputUpsertPersistentProp q)
  have "\<not> bm_contains (rt_bodies_by_id (remove_body H i s)) i" for i
    by (rule remove_body_form [of H i s]) (auto simp: bm_contains_def)
  with assms InputUpsertPersistentProp show ?thesis
    by (auto simp: apply_input_def insert_prop_def Let_def split: sum.splits prod.splits)
qed (use assms in \<open>auto simp: apply_input_def apply_impulse_def insert_prop_def prepare_transition_exit_def abort_transition_exit_def
    complete_transition_exit_def mlift_def Let_def split: sum.splits prod.splits option.splits if_splits\<close>)

text \<open>An input that is refused changes nothing but the books: expired rows, budgets and rejection counts.\<close>

lemma preflight_apply_error:
  assumes "mbind (preflight_input H input now) (\<lambda>_. apply_input H input) s = (Inl e, t)"
  shows "only_budgets s t"
  using assms preflight_only_budgets [of s H input now] by (auto simp: mbind_Inl dest: apply_input_error)

lemma ledger_check_ok: "bm_ok (il_active l) \<Longrightarrow> bm_ok (il_departed l) \<Longrightarrow> ledger_check input now l = (r, m) \<Longrightarrow>
    bm_ok (il_active m) \<and> bm_ok (il_departed m)"
  by (auto simp: ledger_check_def Let_def bm_oks)

lemma ledger_record_ok: "bm_ok (il_active l) \<Longrightarrow> bm_ok (il_departed l) \<Longrightarrow>
    bm_ok (il_active (ledger_record input a l)) \<and> bm_ok (il_departed (ledger_record input a l))"
  by (auto simp: ledger_record_def Let_def bm_oks split: option.split)

lemma session_ok_record_rejection: "session_ok A s \<Longrightarrow> session_ok A (record_rejection r s)"
  using session_ok_counts [of A "s\<lparr>rt_rejected_total := n\<rparr>" for n] session_ok_maps [of A s]
  by (simp add: record_rejection_def Let_def maps_ok_def bm_oks)

lemma preflight_apply_ok:
  assumes "session_ok {in_participant_pubkey input} s"
  shows "session_ok {in_participant_pubkey input} (snd (mbind (preflight_input H input now) (\<lambda>_. apply_input H input) s))"
proof -
  obtain r t where t: "preflight_input H input now s = (r, t)" by fastforce
  have ok: "session_ok {in_participant_pubkey input} t" using preflight_ok [OF assms, of H now] t by simp
  have o: "only_budgets s t" using preflight_only_budgets [of s H input now] t by simp
  show ?thesis
  proof (cases r)
    case (Inr u)
    have "session_ok {in_participant_pubkey input} (snd (apply_input H input t))"
      by (rule apply_input_ok [OF ok]) (use preflight_join [of H input now s t] o t Inr in \<open>auto simp: only_budgets_def\<close>)
    then show ?thesis by (simp add: mbind_def t Inr)
  qed (use ok in \<open>simp add: mbind_def t\<close>)
qed

lemma session_ok_settle:
  assumes ok: "session_ok {p} s" and gone: "p \<notin> set (rt_participants s)"
  shows "session_ok {} (s\<lparr>rt_player_budgets := bm_remove p (rt_player_budgets s)\<rparr>)"
  using assms unfolding session_ok_def maps_ok_def attached_def admissions_ok_def awaiting_def
  by (auto simp: Let_def bm_oks)

lemma session_ok_seen:
  assumes ok: "session_ok {p} s" and here: "p \<in> set (rt_participants s)"
  shows "session_ok {} (s\<lparr>rt_participant_last_seen_at := bm_insert p now (rt_participant_last_seen_at s)\<rparr>)"
  using assms unfolding session_ok_def maps_ok_def attached_def admissions_ok_def awaiting_def
  by (auto simp: Let_def bm_oks bm_insert_keys)

text \<open>The ways an input ends: not verified, refused by the ledger, refused by a check, or accepted.\<close>

definition settle :: "string \<Rightarrow> ('w, 'h) DomeSessionRuntime \<Rightarrow> ('w, 'h) DomeSessionRuntime" where
  "settle p t = (if p \<notin> set (rt_participants t) then t\<lparr>rt_player_budgets := bm_remove p (rt_player_budgets t)\<rparr> else t)"

definition registered :: "DomeSessionInputV1 \<Rightarrow> i64 \<Rightarrow> ('w, 'h) DomeSessionRuntime \<Rightarrow> ('w, 'h) DomeSessionRuntime" where
  "registered input now t = (let p = in_participant_pubkey input; here = (p \<in> set (rt_participants t));
     u = t\<lparr>rt_inputs := ledger_record input (here \<or> p = lease_owner_pubkey (rt_lease_body t)) (rt_inputs t)\<rparr> in
     if here then u\<lparr>rt_participant_last_seen_at := bm_insert p now (rt_participant_last_seen_at u)\<rparr> else u)"

lemma settle_fields [simp]: "rt_participants (settle p t) = rt_participants t" "rt_lease (settle p t) = rt_lease t"
    "rt_inputs (settle p t) = rt_inputs t" "rt_participant_last_seen_at (settle p t) = rt_participant_last_seen_at t"
    "rt_participant_limit (settle p t) = rt_participant_limit t"
  by (simp_all add: settle_def)

lemma settle_cases:
  "p \<in> set (rt_participants t) \<Longrightarrow> settle p t = t"
  "p \<notin> set (rt_participants t) \<Longrightarrow> settle p t = t\<lparr>rt_player_budgets := bm_remove p (rt_player_budgets t)\<rparr>"
  by (simp_all add: settle_def)

lemma registered_cases:
  "in_participant_pubkey input \<in> set (rt_participants t) \<Longrightarrow> registered input now t =
     t\<lparr>rt_inputs := ledger_record input True (rt_inputs t),
       rt_participant_last_seen_at := bm_insert (in_participant_pubkey input) now (rt_participant_last_seen_at t)\<rparr>"
  "in_participant_pubkey input \<notin> set (rt_participants t) \<Longrightarrow> registered input now t =
     t\<lparr>rt_inputs := ledger_record input (in_participant_pubkey input = lease_owner_pubkey (rt_lease_body t)) (rt_inputs t)\<rparr>"
  by (simp_all add: registered_def Let_def)

lemma apply_signed_input_cases:
  fixes s :: "('w, 'h) DomeSessionRuntime"
  obtains (unverified) e where "verify_signed_dome_session_input (hs_lib H) signed (rt_lease_body s) (rt_session_id s) = Inl e"
      "apply_signed_input_at H signed now s = (Inl e, s)"
  | (ledgered) e l where "ledger_check (si_input signed) now (rt_inputs s) = (Inl e, l)"
      "apply_signed_input_at H signed now s = (Inl e, s\<lparr>rt_inputs := l\<rparr>)"
  | (refused) e l t where "ledger_check (si_input signed) now (rt_inputs s) = (Inr (), l)"
      "mbind (preflight_input H (si_input signed) now) (\<lambda>_. apply_input H (si_input signed)) (s\<lparr>rt_inputs := l\<rparr>) = (Inl e, t)"
      "apply_signed_input_at H signed now s = (Inl e, (let u = settle (in_participant_pubkey (si_input signed)) t in
         case downcast_rejection e of Some r \<Rightarrow> record_rejection r u | None \<Rightarrow> u))"
  | (accepted) l t where "verify_signed_dome_session_input (hs_lib H) signed (rt_lease_body s) (rt_session_id s) = Inr ()"
      "ledger_check (si_input signed) now (rt_inputs s) = (Inr (), l)"
      "mbind (preflight_input H (si_input signed) now) (\<lambda>_. apply_input H (si_input signed)) (s\<lparr>rt_inputs := l\<rparr>) = (Inr (), t)"
      "apply_signed_input_at H signed now s = (Inr (), clamp_bodies_to_dome H (registered (si_input signed) now
         (settle (in_participant_pubkey (si_input signed)) t)))"
proof (cases "verify_signed_dome_session_input (hs_lib H) signed (rt_lease_body s) (rt_session_id s)")
  case (Inl e)
  then show ?thesis by (intro unverified) (simp_all add: apply_signed_input_at_def)
next
  case v: (Inr u)
  obtain c l where c: "ledger_check (si_input signed) now (rt_inputs s) = (c, l)" by fastforce
  obtain r t where t: "mbind (preflight_input H (si_input signed) now) (\<lambda>_. apply_input H (si_input signed)) (s\<lparr>rt_inputs := l\<rparr>) = (r, t)"
    by fastforce
  show ?thesis
  proof (cases c)
    case (Inl e)
    then show ?thesis using v c by (intro ledgered) (simp_all add: apply_signed_input_at_def Let_def)
  next
    case c': (Inr x)
    show ?thesis
    proof (cases r)
      case (Inl e)
      then show ?thesis using v c c' t
        by (intro refused) (simp_all add: apply_signed_input_at_def Let_def settle_def)
    next
      case (Inr y)
      have "apply_signed_input_at H signed now s = (Inr (), clamp_bodies_to_dome H (registered (si_input signed) now
          (settle (in_participant_pubkey (si_input signed)) t)))"
        using v c c' t Inr by (cases "in_participant_pubkey (si_input signed) \<in> set (rt_participants t)")
          (simp_all add: apply_signed_input_at_def Let_def settle_cases registered_cases)
      with v c c' t Inr show ?thesis by (intro accepted) simp_all
    qed
  qed
qed

lemma session_ok_unseen:
  assumes "session_ok {} s" "only_budgets s t" "session_ok {p} t"
  shows "session_ok {} (settle p t)"
proof (cases "p \<in> set (rt_participants t)")
  case True
  obtain b where b: "t = s\<lparr>rt_player_budgets := b\<rparr>" using assms(2) by (auto simp: only_budgets_def)
  have "keys_of b \<subseteq> set (rt_participants s) \<union> {}" "bm_ok b"
    using session_ok_keys [OF assms(3)] session_ok_maps [OF assms(3)] True by (auto simp: b maps_ok_def)
  then have "session_ok {} t" unfolding b by (rule session_ok_budgets [OF assms(1)])
  with True show ?thesis by (simp add: settle_def)
qed (use assms(3) in \<open>simp add: settle_def session_ok_settle\<close>)

lemma session_ok_registered:
  assumes "session_ok {in_participant_pubkey input} t"
  shows "session_ok {} (registered input now (settle (in_participant_pubkey input) t))"
proof -
  let ?p = "in_participant_pubkey input"
  have ledger: "session_ok A (v\<lparr>rt_inputs := ledger_record input a (rt_inputs v)\<rparr>)"
    if "session_ok A v" for A a and v :: "('a, 'b) DomeSessionRuntime"
    by (rule session_ok_inputs [OF that]) (use ledger_record_ok session_ok_maps [OF that] in \<open>simp_all add: maps_ok_def\<close>)
  show ?thesis
  proof (cases "?p \<in> set (rt_participants t)")
    case True
    then show ?thesis using session_ok_seen [OF ledger [OF assms]] by (simp add: registered_def settle_def Let_def)
  next
    case False
    then show ?thesis using ledger [OF session_ok_settle [OF assms]] by (simp add: registered_def settle_def Let_def)
  qed
qed

lemma keeps_apply_signed_input: "keeps (session_ok {}) (apply_signed_input_at H signed now)"
  unfolding keeps_def
proof (intro allI impI)
  fix s :: "('a, 'b) DomeSessionRuntime"
  assume ok: "session_ok {} s"
  let ?input = "si_input signed" let ?p = "in_participant_pubkey ?input"
  have ok1: "session_ok {} (s\<lparr>rt_inputs := l\<rparr>)" if "ledger_check ?input now (rt_inputs s) = (c, l)" for c l
    by (rule session_ok_inputs [OF ok]) (use ledger_check_ok [OF _ _ that] session_ok_maps [OF ok] in \<open>simp_all add: maps_ok_def\<close>)
  note okt = preflight_apply_ok [OF session_ok_mono [OF ok1, of _ _ "{?p}"], of _ _ H now]
  show "session_ok {} (snd (apply_signed_input_at H signed now s))"
  proof (cases rule: apply_signed_input_cases [of H signed s now])
    case (refused e l t)
    have "session_ok {?p} t" using okt [OF refused(1)] refused(2) by simp
    then have "session_ok {} (settle ?p t)"
      by (rule session_ok_unseen [OF ok1 [OF refused(1)] preflight_apply_error [OF refused(2)]])
    then show ?thesis by (auto simp: refused(3) Let_def session_ok_record_rejection split: option.split)
  next
    case (accepted l t)
    have "session_ok {?p} t" using okt [OF accepted(2)] accepted(3) by simp
    then show ?thesis by (simp add: accepted(4) session_ok_registered presence.keeps_clamp)
  qed (use ok ok1 in auto)
qed

lemma mset_bm_insert: "bm_get m k = None \<Longrightarrow> mset (bm_insert k v m) = add_mset (k, v) (mset m)"
proof (induction k v m rule: bm_insert.induct)
  case (2 k v a b m)
  then show ?case by (auto simp: bm_get_def split: if_splits)
qed simp

lemma distinct_visitors_insert:
  assumes "bm_get m k = None"
  shows "distinct (map visitor (bm_values (bm_insert k t m))) \<longleftrightarrow>
    visitor t \<notin> visitor ` set (bm_values m) \<and> distinct (map visitor (bm_values m))"
proof -
  have "mset (map visitor (bm_values (bm_insert k t m))) = mset (visitor t # map visitor (bm_values m))"
    using mset_bm_insert [OF assms, of t] by (simp add: bm_values_def)
  from mset_eq_imp_distinct_iff [OF this] show ?thesis by simp
qed

lemma length_awaiting_insert:
  assumes "bm_get (rt_transition_reservations s) k = None"
  shows "length (awaiting (s\<lparr>rt_transition_reservations := bm_insert k t (rt_transition_reservations s)\<rparr>)) =
    length (awaiting s) + (if visitor t \<in> set (rt_participants s) then 0 else 1)"
proof -
  let ?P = "\<lambda>t. visitor t \<notin> set (rt_participants s)"
  have "mset (bm_values (bm_insert k t (rt_transition_reservations s))) = add_mset t (mset (bm_values (rt_transition_reservations s)))"
    using mset_bm_insert [OF assms, of t] by (simp add: bm_values_def)
  then have "size (filter_mset ?P (mset (bm_values (bm_insert k t (rt_transition_reservations s))))) =
      size (filter_mset ?P (mset (bm_values (rt_transition_reservations s)))) + (if ?P t then 1 else 0)" by simp
  then show ?thesis by (simp add: awaiting_def flip: mset_filter split: if_splits)
qed

lemma length_mset_bm_insert: "bm_get m k = None \<Longrightarrow> length (bm_insert k v m) = Suc (length m)"
  using mset_bm_insert [of m k v] by (metis size_add_mset size_mset)

lemma session_ok_fewer_reservations:
  assumes ok: "session_ok A s"
  shows "session_ok A (s\<lparr>rt_transition_reservations := filter Q (rt_transition_reservations s)\<rparr>)"
proof -
  let ?t = "s\<lparr>rt_transition_reservations := filter Q (rt_transition_reservations s)\<rparr>"
  have "length (awaiting ?t) \<le> length (awaiting s)"
    unfolding awaiting_def bm_values_def
    by (simp add: filter_map comp_def, rule order_trans [OF _ length_filter_le [of Q]])
      (simp add: conj_commute)
  moreover have "length (filter Q (rt_transition_reservations s)) \<le> rt_participant_limit s"
    by (rule order_trans [OF length_filter_le]) (use ok in \<open>simp add: session_ok_def admissions_ok_def\<close>)
  moreover have "distinct (map visitor (bm_values (filter Q m)))" if "distinct (map visitor (bm_values m))" for m
    using that unfolding bm_values_def map_map by (rule distinct_map_filter)
  ultimately show ?thesis using ok
    by (simp add: session_ok_def maps_ok_def attached_def admissions_ok_def bm_ok_filter)
qed

lemma session_ok_expire: "session_ok A s \<Longrightarrow> session_ok A (expire_transition_reservations now s)"
  by (simp add: expire_transition_reservations_def bm_retain_def session_ok_fewer_reservations)

lemma keeps_abort_admission: "keeps (session_ok A) (abort_transition_admission i p now)"
proof -
  have "session_ok A (s\<lparr>rt_transition_reservations := bm_remove i (rt_transition_reservations s)\<rparr>)"
    if "session_ok A s" for s :: "('a, 'b) DomeSessionRuntime"
    using that by (simp add: bm_remove_def session_ok_fewer_reservations)
  then show ?thesis
    by (auto simp: keeps_def abort_transition_admission_def Let_def session_ok_expire split: option.split)
qed

lemma session_ok_reserve:
  assumes ok: "session_ok A s" and fresh: "bm_get (rt_transition_reservations s) k = None"
    and single: "visitor t \<notin> visitor ` set (bm_values (rt_transition_reservations s))"
    and room: "length (rt_participants s) + length (rt_transition_reservations s) +
      (if visitor t \<in> set (rt_participants s) then 0 else 1) \<le> rt_participant_limit s"
  shows "session_ok A (s\<lparr>rt_transition_reservations := bm_insert k t (rt_transition_reservations s)\<rparr>)"
proof -
  have "0 < length (rt_participants s)" if "visitor t \<in> set (rt_participants s)" using that by (cases "rt_participants s") auto
  then have "Suc (length (rt_transition_reservations s)) \<le> rt_participant_limit s"
    using room by (cases "visitor t \<in> set (rt_participants s)") (simp_all del: length_greater_0_conv)
  then show ?thesis using ok fresh single room awaiting_le [of s]
    by (auto simp: session_ok_def maps_ok_def attached_def admissions_ok_def bm_oks length_awaiting_insert
        distinct_visitors_insert length_mset_bm_insert split: if_splits)
qed

lemma keeps_prepare_admission: "keeps (session_ok A) (prepare_transition_admission request access now)"
  unfolding keeps_def
proof (intro allI impI)
  fix s :: "('a, 'b) DomeSessionRuntime"
  assume "session_ok A s"
  then have ok: "session_ok A (expire_transition_reservations now s)" by (rule session_ok_expire)
  show "session_ok A (snd (prepare_transition_admission request access now s))"
    using ok by (auto simp: prepare_transition_admission_def Let_def list_ex_iff intro!: session_ok_reserve
        split: sum.split option.split DomeTransitionAccessDecisionV1.split)
qed

lemma keepsI: "(\<And>s. I s \<Longrightarrow> I (snd (m s))) \<Longrightarrow> keeps I m"
  by (simp add: keeps_def)

lemma session_ok_fewer_exits:
  assumes ok: "session_ok A s"
  shows "session_ok A (s\<lparr>rt_transition_reservations := filter Q (rt_transition_reservations s),
    rt_prepared_exits := fold bm_remove ps (rt_prepared_exits s)\<rparr>)"
  by (rule session_ok_exits [OF session_ok_fewer_reservations [OF ok]])
    (use session_ok_keys [OF ok] session_ok_maps [OF ok] in \<open>auto simp: maps_ok_def bm_oks\<close>)

lemma session_ok_fewer_committed:
  "session_ok A s \<Longrightarrow> session_ok A (s\<lparr>rt_committed_transitions := bm_retain (\<lambda>_. Q) (rt_committed_transitions s)\<rparr>)"
  by (simp add: session_ok_def maps_ok_def attached_def admissions_ok_def awaiting_def bm_oks bm_values_retain distinct_map_filter)

lemma keeps_revoke:
  assumes ok: "session_ok A s"
  shows "session_ok A (snd (revoke_transition_access p c s))"
proof -
  have "session_ok A (s\<lparr>rt_transition_reservations := bm_retain (\<lambda>_. ticket_kept p c) (rt_transition_reservations s),
      rt_committed_transitions := bm_retain (\<lambda>_. ticket_kept p c) (rt_committed_transitions s)\<rparr>)"
    using session_ok_fewer_committed [OF session_ok_fewer_reservations [OF ok, of "\<lambda>(_, t). ticket_kept p c t"], of "ticket_kept p c"]
    by (simp add: bm_retain_def)
  from session_ok_exits [OF this, of "bm_remove p (rt_prepared_exits s)"] show ?thesis
    using session_ok_keys [OF ok] session_ok_maps [OF ok]
    by (auto simp: revoke_transition_access_def Let_def maps_ok_def bm_oks)
qed

lemma keeps_drain: "session_ok A s \<Longrightarrow> session_ok A (snd (drain_connection c s))"
  using session_ok_fewer_exits [of A s _ "\<lambda>(_, t). tr_connection_id (tk_request t) \<noteq> c"]
  by (simp add: drain_connection_def Let_def bm_retain_def)

lemma set_avatar_transform_form: "\<exists>w. snd (set_avatar_transform H p position rotation s) = s\<lparr>rt_world := w\<rparr>"
proof (cases "bm_get (rt_bodies_by_id s) (avatar_id p)")
  case None
  then show ?thesis by (intro exI [of _ "rt_world s"]) (simp add: set_avatar_transform_def Let_def)
next
  case (Some b)
  show ?thesis
  proof (cases "rp_body (hs_rapier H) (rt_world s) (body_handle b)")
    case None
    with Some show ?thesis by (intro exI [of _ "rt_world s"]) (simp add: set_avatar_transform_def Let_def)
  next
    case inner: (Some t)
    show ?thesis unfolding set_avatar_transform_def Let_def Some inner option.case snd_conv by (rule exI) (rule refl)
  qed
qed

lemma session_ok_admit:
  assumes ok: "session_ok {} s" and res: "bm_get (rt_transition_reservations s) k = Some t" and p: "visitor t = p"
  shows "session_ok {} (s\<lparr>rt_participants := bs_insert p (rt_participants s),
    rt_participant_last_seen_at := bm_insert p now (rt_participant_last_seen_at s)\<rparr>)" (is "session_ok {} ?t")
proof -
  have P: "bs_ok (rt_participants s)" using ok by (simp add: session_ok_def maps_ok_def)
  have w: "awaiting ?t = filter (\<lambda>t. visitor t \<noteq> p) (awaiting s)"
    by (auto simp: awaiting_def intro!: filter_cong)
  have "length (awaiting ?t) < length (awaiting s)" if "p \<notin> set (rt_participants s)"
  proof -
    have "t \<in> set (awaiting s)" using res p that by (force simp: awaiting_def bm_values_def dest: bm_get_Some_in)
    then show ?thesis unfolding w using p by (intro length_filter_less) auto
  qed
  moreover have "length (awaiting ?t) \<le> length (awaiting s)" unfolding w by simp
  ultimately have "length (rt_participants ?t) + length (awaiting ?t) \<le> length (rt_participants s) + length (awaiting s)"
    using length_bs_insert [OF P, of p] by (cases "p \<in> set (rt_participants s)") auto
  then show ?thesis using ok
    by (auto simp: session_ok_def maps_ok_def attached_def admissions_ok_def Let_def bm_oks bm_insert_keys)
qed

lemma session_ok_admitted:
  assumes ok: "session_ok {} s" and p: "visitor t = p" "p \<in> set (rt_participants s)"
    and fresh: "bm_get (rt_committed_transitions s) k = None"
  shows "session_ok {} (s\<lparr>rt_transition_entries := bm_insert p d (rt_transition_entries s),
    rt_prepared_exits := bm_remove p (rt_prepared_exits s),
    rt_transition_reservations := bm_remove k (rt_transition_reservations s),
    rt_committed_transitions := bm_insert k t (bm_retain (\<lambda>_ committed. visitor committed \<noteq> p) (rt_committed_transitions s))\<rparr>)"
proof -
  let ?m = "bm_retain (\<lambda>_ committed. visitor committed \<noteq> p) (rt_committed_transitions s)"
  have ok': "session_ok {} (s\<lparr>rt_transition_reservations := bm_remove k (rt_transition_reservations s)\<rparr>)"
    using ok by (simp add: bm_remove_def session_ok_fewer_reservations)
  have "bm_get ?m k = None" using fresh ok by (simp add: session_ok_def maps_ok_def bm_get_retain)
  moreover have "visitor t \<notin> visitor ` set (bm_values ?m)" using p by (auto simp: bm_values_retain)
  moreover have "distinct (map visitor (bm_values ?m))"
    using ok by (simp add: bm_values_retain distinct_map_filter session_ok_def admissions_ok_def)
  ultimately have "distinct (map visitor (bm_values (bm_insert k t ?m)))" by (simp add: distinct_visitors_insert)
  then show ?thesis using ok' p
    by (auto simp: session_ok_def maps_ok_def attached_def admissions_ok_def awaiting_def Let_def bm_oks bm_insert_keys)
qed

lemma keeps_commit_admission: "keeps (session_ok {}) (commit_transition_admission H ticket position rotation now)"
  unfolding keeps_def
proof (intro allI impI)
  fix s0 :: "('a, 'b) DomeSessionRuntime"
  assume "session_ok {} s0"
  let ?s = "expire_transition_reservations now s0" let ?k = "tr_transition_id (tk_request ticket)" let ?p = "visitor ticket"
  have ok: "session_ok {} ?s" by (rule session_ok_expire) fact
  obtain r1 t1 where t1: "ensure_avatar H ?p None ?s = (r1, t1)" by fastforce
  have ok1: "session_ok {} t1" using keepsD [OF keeps_ensure_avatar ok, of H ?p None] t1 by simp
  have f1: "rt_transition_reservations t1 = rt_transition_reservations ?s" "rt_committed_transitions t1 = rt_committed_transitions ?s"
    using ensure_avatar_cases [of H ?p None ?s] t1 by (auto simp: add_body_def Let_def)
  let ?t2 = "t1\<lparr>rt_participants := bs_insert ?p (rt_participants t1),
    rt_participant_last_seen_at := bm_insert ?p now (rt_participant_last_seen_at t1)\<rparr>"
  obtain r3 t3 where t3: "set_avatar_transform H ?p position rotation ?t2 = (r3, t3)" by fastforce
  obtain w where w: "t3 = ?t2\<lparr>rt_world := w\<rparr>" using set_avatar_transform_form [of H ?p position rotation ?t2] t3 by auto
  have ok3: "session_ok {} t3" if "bm_get (rt_transition_reservations ?s) ?k = Some ticket"
    using session_ok_admit [OF ok1, of ?k ticket ?p now] that f1 by (simp add: w)
  note ok4 = session_ok_admitted [OF ok3, of ticket ?p ?k, THEN presence.keeps_clamp, where H = H]
  show "session_ok {} (snd (commit_transition_admission H ticket position rotation now s0))"
    using ok ok1 ok3 ok4 f1
    by (auto simp: commit_transition_admission_def Let_def mbind_def mmod_def t1 t3 w split: option.split sum.split)
qed

lemma keeps_snapshot: "keeps (session_ok A) (signed_snapshot_inner H clock now throttle)"
  unfolding signed_snapshot_inner_def
  by (rule keepsI, rule keepsD [OF keeps_mbind [OF presence.keeps_advance_to keepsI]])
    (auto simp: Let_def throttled_def session_ok_record_rejection split: sum.split prod.split)

lemma keeps_layout: "keeps (session_ok A) (signed_layout_candidate H clock i now)"
  unfolding signed_layout_candidate_def signed_snapshot_def
  by (rule keeps_mbind [OF keeps_snapshot]) (simp add: keeps_def mlift_def)

lemma keeps_heartbeat: "keeps (session_ok A) (signed_heartbeat H clock now)"
  by (simp add: keeps_def signed_heartbeat_def Let_def)

lemma keeps_add_guest_prop: "keeps (session_ok A) (add_guest_prop H spec)"
  by (rule keepsI) (simp add: add_guest_prop_def keepsD [OF keeps_insert_prop])

lemma insert_props_ok: "insert_props H props s = Inr t \<Longrightarrow> session_ok A s \<Longrightarrow> session_ok A t"
proof (induction H props s rule: insert_props.induct)
  case (2 H p ps s)
  obtain r u where u: "insert_prop H p PersistentPropBody None None s = (r, u)" by fastforce
  have "session_ok A u" using keepsD [OF keeps_insert_prop 2(3), of H p PersistentPropBody None None] u by simp
  with 2 u show ?case by (cases r) auto
qed simp

lemma started_ok: "start_with_budget H lease keys inst preset sid now budget = Inr s \<Longrightarrow> session_ok {} s"
proof -
  assume *: "start_with_budget H lease keys inst preset sid now budget = Inr s"
  have "session_ok {} (insert_dome_boundaries H (new_runtime H lease keys inst preset sid now budget))"
    by (simp add: insert_dome_boundaries_def Let_def split: prod.split)
      (simp add: new_runtime_def session_ok_def maps_ok_def attached_def admissions_ok_def awaiting_def bm_values_def bs_ok_def
        default_ledger_def Let_def)
  with * show ?thesis by (auto simp: start_with_budget_def Let_def result_simps dest: insert_props_ok split: if_splits)
qed

section \<open>The books of a session\<close>

definition is_u64 :: "nat \<Rightarrow> bool" where "is_u64 n \<longleftrightarrow> n \<le> u64_max"
definition is_u32 :: "nat \<Rightarrow> bool" where "is_u32 n \<longleftrightarrow> n \<le> u32_max"

definition counters_ok :: "('w, 'h) DomeSessionRuntime \<Rightarrow> bool" where
  "counters_ok s \<longleftrightarrow> is_u64 (rt_tick s) \<and> is_u64 (rt_snapshot_sequence s) \<and> is_u64 (rt_heartbeat_sequence s) \<and>
     is_u64 (rt_rejected_total s) \<and> is_u64 (rt_snapshot_bytes s) \<and> is_u64 (rt_snapshot_throttled s) \<and>
     is_u32 (rt_participant_high_water s) \<and> is_u32 (rt_rigid_body_high_water s) \<and>
     is_u64 (il_departures (rt_inputs s)) \<and> (\<forall>n \<in> snd ` set (rt_rejection_counts s). is_u64 (n))"

definition names_session :: "('w, 'h, 'f) host_lib \<Rightarrow> ('w, 'h) DomeSessionRuntime \<Rightarrow> DomePhysicsSnapshotV1 \<Rightarrow> bool" where
  "names_session H s snap \<longleftrightarrow> snap_session_id snap = rt_session_id s \<and> snap_instance_id snap = lease_instance_id (rt_lease_body s) \<and>
     snap_instance_generation snap = lease_instance_generation (rt_lease_body s) \<and>
     snap_lease_epoch snap = lease_epoch (rt_lease_body s) \<and>
     snap_host_pubkey snap = public_key (hl_crypto (hs_lib H)) (rt_host_keys s)"

definition ring_ok :: "('w, 'h, 'f) host_lib \<Rightarrow> ('w, 'h) DomeSessionRuntime \<Rightarrow> bool" where
  "ring_ok H s \<longleftrightarrow> length (rt_snapshot_ring s) \<le> DOME_SNAPSHOT_RING_CAPACITY \<and>
     length (rt_snapshot_ring s) \<le> rt_snapshot_sequence s \<and>
     (\<forall>e \<in> set (rt_snapshot_ring s). names_session H s (ss_snapshot e)) \<and>
     (rt_snapshot_sequence s < u64_max \<longrightarrow> map (\<lambda>e. snap_sequence (ss_snapshot e)) (rt_snapshot_ring s) =
       [Suc (rt_snapshot_sequence s) - length (rt_snapshot_ring s) ..< Suc (rt_snapshot_sequence s)])"

text \<open>\<open>books_ok L H s\<close> also fixes the lease \<open>L\<close> with what is set once at the start of a session.\<close>

type_synonym terms = "SignedDomeHostingLeaseV1 \<times> KukuriKeys \<times> string \<times> u32 \<times> MetaverseResourceBudgetConfig"

definition terms_of :: "('w, 'h) DomeSessionRuntime \<Rightarrow> terms" where
  "terms_of s = (rt_lease s, rt_host_keys s, rt_session_id s, rt_participant_limit s, rt_budget s)"

definition books_ok :: "terms \<Rightarrow> ('w, 'h, 'f) host_lib \<Rightarrow> ('w, 'h) DomeSessionRuntime \<Rightarrow> bool" where
  "books_ok T H s \<longleftrightarrow> counters_ok s \<and> ring_ok H s \<and> terms_of s = T"

lemma is_u64_sat [simp]: "is_u64 (sat_u64 n)" and is_u32_sat [simp]: "is_u32 (sat_u32 n)" and is_u64_wrap [simp]: "is_u64 (wrap_u64 n)"
proof -
  show "is_u64 (sat_u64 n)" by (simp add: sat_u64_def is_u64_def)
  show "is_u32 (sat_u32 n)" by (simp add: sat_u32_def is_u32_def)
  have "n mod 2 ^ 64 < (2 ^ 64 :: nat)" by simp
  then show "is_u64 (wrap_u64 n)" unfolding wrap_u64_def is_u64_def by linarith
qed

lemma is_u32_max [simp]: "is_u32 m \<Longrightarrow> is_u32 n \<Longrightarrow> is_u32 (max m n)"
  by (simp add: is_u32_def)

lemmas books_defs = books_ok_def counters_ok_def ring_ok_def names_session_def terms_of_def

lemma departures_ok: "is_u64 (il_departures (ledger_retire p n l))"
  by (simp add: ledger_retire_def Let_def split: option.split)

text \<open>The fields the books do not look at.\<close>

lemma books_irrelevant [simp]:
  "books_ok T H (s\<lparr>rt_world := w\<rparr>) = books_ok T H s"
  "books_ok T H (s\<lparr>rt_participants := x1\<rparr>) = books_ok T H s"
  "books_ok T H (s\<lparr>rt_transition_reservations := x2\<rparr>) = books_ok T H s"
  "books_ok T H (s\<lparr>rt_committed_transitions := x3\<rparr>) = books_ok T H s"
  "books_ok T H (s\<lparr>rt_prepared_exits := x4\<rparr>) = books_ok T H s"
  "books_ok T H (s\<lparr>rt_transition_entries := x5\<rparr>) = books_ok T H s"
  "books_ok T H (s\<lparr>rt_seated_on := x6\<rparr>) = books_ok T H s"
  "books_ok T H (s\<lparr>rt_participant_last_seen_at := x7\<rparr>) = books_ok T H s"
  "books_ok T H (s\<lparr>rt_bodies_by_id := x8\<rparr>) = books_ok T H s"
  "books_ok T H (s\<lparr>rt_last_simulated_at := x9\<rparr>) = books_ok T H s"
  "books_ok T H (s\<lparr>rt_player_budgets := x10\<rparr>) = books_ok T H s"
  "books_ok T H (s\<lparr>rt_last_snapshot_at := x11\<rparr>) = books_ok T H s"
  "books_ok T H (s\<lparr>rt_snapshot_bandwidth := x12\<rparr>) = books_ok T H s"
  by (simp_all add: books_defs)

lemma books_counters:
  assumes "books_ok T H s"
  shows "is_u64 (n) \<Longrightarrow> books_ok T H (s\<lparr>rt_tick := n\<rparr>)"
    "is_u64 (n) \<Longrightarrow> books_ok T H (s\<lparr>rt_heartbeat_sequence := n\<rparr>)"
    "is_u64 (n) \<Longrightarrow> books_ok T H (s\<lparr>rt_snapshot_throttled := n\<rparr>)"
    "is_u64 (n) \<Longrightarrow> books_ok T H (s\<lparr>rt_snapshot_bytes := n\<rparr>)"
    "is_u64 (n) \<Longrightarrow> books_ok T H (s\<lparr>rt_rejected_total := n\<rparr>)"
    "is_u32 (n) \<Longrightarrow> books_ok T H (s\<lparr>rt_participant_high_water := max (rt_participant_high_water s) n\<rparr>)"
    "is_u32 (n) \<Longrightarrow> books_ok T H (s\<lparr>rt_rigid_body_high_water := max (rt_rigid_body_high_water s) n\<rparr>)"
    "is_u64 (il_departures l) \<Longrightarrow> books_ok T H (s\<lparr>rt_inputs := l\<rparr>)"
    "(\<forall>n \<in> snd ` set c. is_u64 (n)) \<Longrightarrow> books_ok T H (s\<lparr>rt_rejection_counts := c\<rparr>)"
  using assms by (simp_all add: books_defs)

lemma books_facts: "books_ok T H s \<Longrightarrow> is_u64 (il_departures (rt_inputs s))"
    "books_ok T H s \<Longrightarrow> n \<in> snd ` set (rt_rejection_counts s) \<Longrightarrow> is_u64 (n)"
  by (auto simp: books_defs)

lemma books_record_rejection: "books_ok T H s \<Longrightarrow> books_ok T H (record_rejection r s)"
proof -
  assume ok: "books_ok T H s"
  have "\<forall>n \<in> snd ` set (bm_insert c (wrap_u64 m) (rt_rejection_counts s)). is_u64 n" for c m
    using bm_insert_subset [of c "wrap_u64 m" "rt_rejection_counts s"] books_facts(2) [OF ok] by force
  from books_counters(9) [OF books_counters(5) [OF ok is_u64_sat] this] show ?thesis
    by (simp add: record_rejection_def Let_def)
qed

lemma books_evict: "books_ok T H s \<Longrightarrow> books_ok T H (snd (evict_participant G p s))"
proof (rule evict_form [of G p s], goal_cases)
  case (1 w)
  have "is_u64 (il_departures (evict_ledger p s))"
    using books_facts(1) [OF 1(1)] by (simp add: evict_ledger_def departures_ok)
  with 1(1) show ?case unfolding 1(2) by (simp add: books_counters(8))
qed

interpretation books: time_invariant H "books_ok T H" for H :: "('w, 'h, 'f) host_lib" and T
  by unfold_locales (auto intro: books_counters books_evict)

lemma books_add_body: "books_ok T H s \<Longrightarrow> books_ok T H (add_body i b w s)"
  using books_counters(7) [of T H "s\<lparr>rt_world := w, rt_bodies_by_id := bm_insert i b (rt_bodies_by_id s)\<rparr>"]
  by (simp add: add_body_def Let_def)

lemma books_insert_prop: "keeps (books_ok T H) (insert_prop G prop kind expires_at created_by)"
  by (auto simp: keeps_def insert_prop_def Let_def intro!: books_add_body split: prod.split)

lemma books_ensure_avatar: "keeps (books_ok T H) (ensure_avatar G p c)"
proof (rule keepsI)
  show "books_ok T H s \<Longrightarrow> books_ok T H (snd (ensure_avatar G p c s))" for s
    using ensure_avatar_cases [of G p c s] by (auto simp: books_add_body)
qed

lemma books_preflight: "keeps (books_ok T H) (preflight_input G input now)"
proof (rule keepsI)
  show "books_ok T H s \<Longrightarrow> books_ok T H (snd (preflight_input G input now s))" for s
    using preflight_only_budgets [of s G input now] by (auto simp: only_budgets_def)
qed

lemma books_apply_input: "keeps (books_ok T H) (apply_input H input)"
proof (rule keepsI)
  fix s :: "('a, 'b) DomeSessionRuntime"
  assume ok: "books_ok T H s"
  note keep = keepsD [where I = "books_ok T H" and s = s, OF _ ok]
  let ?p = "in_participant_pubkey input"
  show "books_ok T H (snd (apply_input H input s))"
  proof (cases "in_input input")
    case (InputJoin c)
    obtain r t where t: "ensure_avatar H ?p c s = (r, t)" by fastforce
    have "books_ok T H t" using keep [OF books_ensure_avatar, of H ?p c] t by simp
    then show ?thesis using books_counters(6) [of T H "t\<lparr>rt_participants := bs_insert ?p (rt_participants t)\<rparr>"]
      by (simp add: apply_input_def InputJoin Let_def mbind_def t mmod_def split: sum.split)
  next
    case (InputMove position rotation animation)
    obtain r t where t: "set_avatar_transform H ?p position rotation s = (r, t)" by fastforce
    obtain w where "t = s\<lparr>rt_world := w\<rparr>" using set_avatar_transform_form [of H ?p position rotation s] t by auto
    then show ?thesis using ok t
      by (auto simp: apply_input_def apply_move_def InputMove Let_def split: sum.split option.split)
  next
    case (InputUpsertPersistentProp q)
    then show ?thesis using ok keepsD [OF books_insert_prop books.keeps_remove_body [OF ok]]
      by (auto simp: apply_input_def Let_def require_owner_def)
  qed (use ok in \<open>auto simp: apply_input_def apply_impulse_def prepare_transition_exit_def abort_transition_exit_def
      complete_transition_exit_def Let_def books.eviction mlift_def keep [OF books_insert_prop] books.keeps_remove_body
      split: sum.split option.split\<close>)
qed

lemma ledger_departures: "ledger_check input now l = (r, m) \<Longrightarrow> il_departures m = il_departures l"
    "il_departures (ledger_record input a l) = il_departures l"
  by (auto simp: ledger_check_def ledger_record_def Let_def split: option.split)

lemma books_apply_signed_input: "keeps (books_ok T H) (apply_signed_input_at H signed now)"
proof (rule keepsI)
  fix s :: "('a, 'b) DomeSessionRuntime"
  assume ok: "books_ok T H s"
  let ?input = "si_input signed"
  have ok1: "books_ok T H (s\<lparr>rt_inputs := l\<rparr>)" if "ledger_check ?input now (rt_inputs s) = (c, l)" for c l
    using ledger_departures(1) [OF that] books_facts(1) [OF ok] by (simp add: books_counters(8) [OF ok])
  have okt: "books_ok T H t" if "ledger_check ?input now (rt_inputs s) = (c, l)"
    "mbind (preflight_input H ?input now) (\<lambda>_. apply_input H ?input) (s\<lparr>rt_inputs := l\<rparr>) = (r, t)" for c l r t
    using keepsD [OF keeps_mbind [OF books_preflight [where G = H and input = ?input and now = now]
      books_apply_input [where input = ?input]] ok1 [OF that(1)]] that(2) by simp
  have set: "books_ok T H (settle p t)" if "books_ok T H t" for p t
    using that by (simp add: settle_def)
  show "books_ok T H (snd (apply_signed_input_at H signed now s))"
  proof (cases rule: apply_signed_input_cases [of H signed s now])
    case (refused e l t)
    show ?thesis using set [OF okt [OF refused(1,2)]]
      by (auto simp: refused(3) Let_def books_record_rejection split: option.split)
  next
    case (accepted l t)
    let ?u = "settle (in_participant_pubkey ?input) t"
    have u: "books_ok T H ?u" by (rule set [OF okt [OF accepted(2,3)]])
    have "books_ok T H (?u\<lparr>rt_inputs := ledger_record ?input a (rt_inputs ?u)\<rparr>)" for a
      using books_facts(1) [OF u] by (intro books_counters(8) [OF u]) (simp add: ledger_departures)
    then have "books_ok T H (registered ?input now ?u)" by (simp add: registered_def Let_def)
    then show ?thesis by (simp add: accepted(4) books.keeps_clamp)
  qed (use ok ok1 in auto)
qed

lemma books_prepare_admission: "keeps (books_ok T H) (prepare_transition_admission request access now)"
  by (auto simp: keeps_def prepare_transition_admission_def expire_transition_reservations_def Let_def
      split: sum.split option.split DomeTransitionAccessDecisionV1.split)

lemma books_abort_admission: "keeps (books_ok T H) (abort_transition_admission i p now)"
  by (auto simp: keeps_def abort_transition_admission_def expire_transition_reservations_def Let_def)

lemma books_commit_admission: "keeps (books_ok T H) (commit_transition_admission H ticket position rotation now)"
proof (rule keepsI)
  fix s0 :: "('a, 'b) DomeSessionRuntime"
  assume "books_ok T H s0"
  then have ok: "books_ok T H (expire_transition_reservations now s0)" by (simp add: expire_transition_reservations_def)
  let ?p = "visitor ticket"
  have mods: "keeps (books_ok T H) (mbind (ensure_avatar H ?p None) (\<lambda>_. mbind (mmod f) (\<lambda>_.
      mbind (set_avatar_transform H ?p position rotation) (\<lambda>_. mmod g))))"
    if "\<And>s. books_ok T H s \<Longrightarrow> books_ok T H (f s)" "\<And>s. books_ok T H s \<Longrightarrow> books_ok T H (g s)" for f g
  proof (intro keeps_mbind keeps_mmod books_ensure_avatar keepsI that)
    show "books_ok T H s \<Longrightarrow> books_ok T H (snd (set_avatar_transform H ?p position rotation s))" for s
      using set_avatar_transform_form [of H ?p position rotation s] by auto
  qed
  have water: "books_ok T H (let s = clamp_bodies_to_dome H s in
      s\<lparr>rt_participant_high_water := max (rt_participant_high_water s) (sat_u32 (length (rt_participants s)))\<rparr>)"
    if "books_ok T H s" for s :: "('a, 'b) DomeSessionRuntime"
    using books_counters(6) [OF books.keeps_clamp [OF that]] by (simp add: Let_def)
  show "books_ok T H (snd (commit_transition_admission H ticket position rotation now s0))"
    using ok unfolding commit_transition_admission_def Let_def
    by (auto intro!: keepsD [OF mods] water [unfolded Let_def] split: option.split sum.split)
qed

lemma push_ring_upt:
  assumes "map f ring = [Suc n - length ring ..< Suc n]" "length ring \<le> n" "f x = Suc n"
  shows "map f (push_ring x ring) = [Suc (Suc n) - length (push_ring x ring) ..< Suc (Suc n)]"
proof -
  let ?r = "ring @ [x]"
  have "map f ?r = [Suc (Suc n) - length ?r ..< Suc (Suc n)]"
    using assms by (simp add: Suc_diff_le)
  then have "map f (drop k ?r) = [Suc (Suc n) - length ?r + k ..< Suc (Suc n)]" for k
    by (simp only: drop_map [symmetric] drop_upt)
  moreover have "Suc (Suc n) - length ?r + k = Suc (Suc n) - length (drop k ?r)" if "k \<le> length ?r" for k
    using assms(2) that by simp
  ultimately show ?thesis unfolding push_ring_def Let_def by (metis diff_le_self)
qed

lemma push_ring_length: "length (push_ring x ring) \<le> DOME_SNAPSHOT_RING_CAPACITY" "length (push_ring x ring) \<le> Suc (length ring)"
  by (simp_all add: push_ring_def Let_def)

lemma set_push_ring: "set (push_ring x ring) \<subseteq> insert x (set ring)"
  using set_drop_subset by (fastforce simp: push_ring_def Let_def)

lemma books_push:
  assumes ok: "books_ok T H s" and e: "ss_snapshot e = current_snapshot H now s"
  shows "books_ok T H (s\<lparr>rt_snapshot_sequence := sat_u64 (rt_snapshot_sequence s + 1), rt_snapshot_ring := push_ring e (rt_snapshot_ring s)\<rparr>)"
    (is "books_ok T H ?t")
proof -
  let ?n = "rt_snapshot_sequence s"
  have r: "ring_ok H s" and n: "?n \<le> u64_max" using ok by (simp_all add: books_ok_def counters_ok_def is_u64_def)
  have "ring_ok H ?t"
  proof (cases "?n < u64_max")
    case True
    then have "sat_u64 (?n + 1) = Suc ?n" by (simp add: sat_u64_def)
    moreover have "map (\<lambda>e. snap_sequence (ss_snapshot e)) (push_ring e (rt_snapshot_ring s)) =
        [Suc (Suc ?n) - length (push_ring e (rt_snapshot_ring s)) ..< Suc (Suc ?n)]"
      by (rule push_ring_upt) (use r True e \<open>sat_u64 (?n + 1) = Suc ?n\<close> in \<open>simp_all add: ring_ok_def current_snapshot_def Let_def\<close>)
    ultimately show ?thesis
      using r e push_ring_length [of e "rt_snapshot_ring s"] set_push_ring [of e "rt_snapshot_ring s"]
      by (auto simp: ring_ok_def names_session_def current_snapshot_def Let_def)
  next
    case False
    with n have m: "sat_u64 (?n + 1) = u64_max" "?n = u64_max" by (simp_all add: sat_u64_def)
    have "length (push_ring e (rt_snapshot_ring s)) \<le> u64_max"
      using push_ring_length(1) [of e "rt_snapshot_ring s"] by (simp add: DOME_SNAPSHOT_RING_CAPACITY_def)
    then show ?thesis
      using r e push_ring_length [of e "rt_snapshot_ring s"] set_push_ring [of e "rt_snapshot_ring s"] m
      by (auto simp: ring_ok_def names_session_def current_snapshot_def Let_def)
  qed
  then show ?thesis using ok by (simp add: books_ok_def counters_ok_def terms_of_def)
qed

lemma books_throttled: "books_ok T H s \<Longrightarrow> books_ok T H (throttled s)"
  by (simp add: throttled_def books_counters)

lemma built_snapshot: "build_signed_dome_physics_snapshot L clock keys lease snap = Inr e \<Longrightarrow> ss_snapshot e = snap"
  by (auto simp: build_signed_dome_physics_snapshot_def result_simps split: if_splits)

lemma books_snapshot: "keeps (books_ok T H) (signed_snapshot_inner H clock now throttle)"
  unfolding signed_snapshot_inner_def
proof (rule keepsI, rule keepsD [OF keeps_mbind [OF books.keeps_advance_to keepsI]], assumption?, goal_cases)
  case (1 s0 u s)
  have push: "books_ok T H (s\<lparr>rt_snapshot_bandwidth := b, rt_snapshot_sequence := sat_u64 (rt_snapshot_sequence s + 1),
      rt_last_snapshot_at := Some now, rt_snapshot_bytes := sat_u64 n, rt_snapshot_ring := push_ring e (rt_snapshot_ring s)\<rparr>)"
    if "ss_snapshot e = current_snapshot H now s" for e b n
  proof -
    have "books_ok T H (s\<lparr>rt_snapshot_sequence := sat_u64 (rt_snapshot_sequence s + 1), rt_snapshot_ring := push_ring e (rt_snapshot_ring s)\<rparr>)"
      by (rule books_push [OF 1(2) that])
    then show ?thesis by (simp add: books_defs)
  qed
  show ?case using 1(2) push push [where b = "rt_snapshot_bandwidth s"]
    by (auto simp: Let_def books_throttled books_record_rejection dest!: built_snapshot split: sum.split prod.split)
qed simp

lemma books_layout: "keeps (books_ok T H) (signed_layout_candidate H clock i now)"
  unfolding signed_layout_candidate_def signed_snapshot_def
  by (rule keeps_mbind [OF books_snapshot]) (simp add: keeps_def mlift_def)

lemma books_heartbeat: "keeps (books_ok T H) (signed_heartbeat H clock now)"
  by (simp add: keeps_def signed_heartbeat_def Let_def books_counters)

lemma books_insert_props: "insert_props H props s = Inr t \<Longrightarrow> books_ok T H s \<Longrightarrow> books_ok T H t"
proof (induction H props s rule: insert_props.induct)
  case (2 H p ps s)
  obtain r u where u: "insert_prop H p PersistentPropBody None None s = (r, u)" by fastforce
  have "books_ok T H u" using keepsD [OF books_insert_prop 2(3), of H p PersistentPropBody None None] u by simp
  with 2 u show ?case by (cases r) auto
qed simp

definition start_terms ::
    "SignedDomeHostingLeaseV1 \<Rightarrow> KukuriKeys \<Rightarrow> DomeInstanceManifestV1 \<Rightarrow> string \<Rightarrow> MetaverseResourceBudgetConfig \<Rightarrow> terms" where
  "start_terms lease keys inst sid budget = (lease, keys, sid,
     min (case inst_max_peers inst of Some n \<Rightarrow> n | None \<Rightarrow> max_participants (host_budget budget)) (max_participants (host_budget budget)), budget)"

lemma started_books: "start_with_budget H lease keys inst preset sid now budget = Inr s \<Longrightarrow>
    books_ok (start_terms lease keys inst sid budget) H s"
proof -
  assume *: "start_with_budget H lease keys inst preset sid now budget = Inr s"
  have "books_ok (start_terms lease keys inst sid budget) H (insert_dome_boundaries H (new_runtime H lease keys inst preset sid now budget))"
    by (simp add: insert_dome_boundaries_def Let_def split: prod.split)
      (simp add: new_runtime_def books_defs default_ledger_def is_u64_def is_u32_def start_terms_def Let_def)
  with * show ?thesis by (auto simp: start_with_budget_def Let_def result_simps dest: books_insert_props split: if_splits)
qed

section \<open>Runs of a session\<close>

text \<open>Every public operation of the runtime, whatever it answers; inputs are the ones that look at the ledger.\<close>

inductive quiet_step :: "('w, 'h, 'f) host_lib \<Rightarrow> ('w, 'h) DomeSessionRuntime \<Rightarrow> ('w, 'h) DomeSessionRuntime \<Rightarrow> bool"
  for H :: "('w, 'h, 'f) host_lib" where
  guest: "quiet_step H s (snd (add_guest_prop H spec s))"
| advance: "quiet_step H s (snd (advance_to H now s))"
| read: "quiet_step H s (snd (advance_for_read H now s))"
| snapshot: "quiet_step H s (snd (signed_snapshot_inner H clock now throttle s))"
| layout: "quiet_step H s (snd (signed_layout_candidate H clock i now s))"
| heartbeat: "quiet_step H s (snd (signed_heartbeat H clock now s))"
| revoke: "quiet_step H s (snd (revoke_transition_access p c s))"
| drain: "quiet_step H s (snd (drain_connection c s))"
| evict: "quiet_step H s (snd (evict_participant H p s))"
| prepare: "quiet_step H s (snd (prepare_transition_admission request access now s))"
| commit: "quiet_step H s (snd (commit_transition_admission H ticket position rotation now s))"
| abort: "quiet_step H s (snd (abort_transition_admission i p now s))"

inductive host_step :: "('w, 'h, 'f) host_lib \<Rightarrow> ('w, 'h) DomeSessionRuntime \<Rightarrow> ('w, 'h) DomeSessionRuntime \<Rightarrow> bool"
  for H :: "('w, 'h, 'f) host_lib" where
  quiet: "quiet_step H s t \<Longrightarrow> host_step H s t"
| input: "host_step H s (snd (apply_signed_input_at H signed now s))"

text \<open>The states of a session with its terms, fixed when it starts.\<close>

inductive session_state :: "('w, 'h, 'f) host_lib \<Rightarrow> terms \<Rightarrow> ('w, 'h) DomeSessionRuntime \<Rightarrow> bool" for H :: "('w, 'h, 'f) host_lib" where
  start: "start_with_budget H lease keys inst preset sid now budget = Inr s \<Longrightarrow>
    session_state H (start_terms lease keys inst sid budget) s"
| step: "session_state H T s \<Longrightarrow> host_step H s t \<Longrightarrow> session_state H T t"

lemma quiet_step_ok: "quiet_step H s t \<Longrightarrow> session_ok {} s \<Longrightarrow> session_ok {} t"
proof (induction rule: quiet_step.induct)
  case (revoke p c s) then show ?case by (rule keeps_revoke)
next
  case (drain c s) then show ?case by (rule keeps_drain)
next
  case (evict p s) then show ?case by (rule presence.eviction)
qed (blast intro: keepsD keeps_add_guest_prop presence.keeps_advance_to presence.keeps_advance_for_read
    keeps_snapshot keeps_layout keeps_heartbeat keeps_prepare_admission keeps_commit_admission keeps_abort_admission)+

lemma quiet_step_books: "quiet_step H s t \<Longrightarrow> books_ok T H s \<Longrightarrow> books_ok T H t"
proof (induction rule: quiet_step.induct)
  case (guest spec s)
  then show ?case by (simp add: add_guest_prop_def keepsD [OF books_insert_prop])
next
  case (revoke p c s) then show ?case by (simp add: revoke_transition_access_def Let_def)
next
  case (drain c s) then show ?case by (simp add: drain_connection_def Let_def)
next
  case (evict p s) then show ?case by (rule books_evict)
qed (blast intro: keepsD books.keeps_advance_to books.keeps_advance_for_read
    books_snapshot books_layout books_heartbeat books_prepare_admission books_commit_admission books_abort_admission)+

lemma host_step_ok: "host_step H s t \<Longrightarrow> session_ok {} s \<Longrightarrow> books_ok T H s \<Longrightarrow> session_ok {} t \<and> books_ok T H t"
  by (induction rule: host_step.induct)
    (auto intro: quiet_step_ok quiet_step_books keepsD [OF keeps_apply_signed_input] keepsD [OF books_apply_signed_input])

lemma session_state_ok: "session_state H T s \<Longrightarrow> session_ok {} s \<and> books_ok T H s"
  by (induction rule: session_state.induct) (auto intro: started_ok started_books dest: host_step_ok)

end
