(* ===== verification/Session_Sample.thy ===== *)
theory Session_Sample
  imports Session_Invariant
begin

text \<open>
  A session of a Dome at a small host, for evaluating the theorems about sessions on concrete runs. Not a model
  of the program: the engine and the codecs, which are parameters of the model, are instantiated here.
\<close>

section \<open>A small host\<close>

text \<open>
  The numbers of the engine are integers, its world is the list of the
  translations of its bodies, and three inputs have distinct encodings.
\<close>

definition sample_f32 :: "int f32" where
  "sample_f32 = \<lparr>f_of_i64 = (\<lambda>x. x), f_to_i64 = (\<lambda>x. x), f_add = (+), f_sub = (-), f_mul = (*), f_div = (div),
     f_neg = uminus, f_abs = abs, f_sqrt = (\<lambda>x. x), f_round = (\<lambda>x. x), f_min = min, f_max = max,
     f_clamp = (\<lambda>x lo hi. max lo (min x hi)), f_le = (\<le>), f_lt = (<)\<rparr>"

definition sample_rapier :: "(int fvec list, nat, int) rapier" where
  "sample_rapier = \<lparr>rp_new = (\<lambda>_. []), rp_insert = (\<lambda>b w. (length w, w @ [bsp_translation b])), rp_attach = (\<lambda>_ _ w. w),
     rp_remove = (\<lambda>_ w. w), rp_body = (\<lambda>w h. map_option (\<lambda>t. (t, (0, 0, 0), (0, 0, 0))) (nth_opt w h)),
     rp_set_translation = (\<lambda>h t w. list_update w h t), rp_set_rotation = (\<lambda>_ _ w. w), rp_apply_impulse = (\<lambda>_ _ w. w),
     rp_step = (\<lambda>_ w. w), rp_collider_boxes = (\<lambda>_ _. [])\<rparr>"

definition listed_codec :: "'a list \<Rightarrow> 'a codec" where
  "listed_codec xs = \<lparr>to_json = (\<lambda>x. if x \<in> set xs then Some (replicate (length (takeWhile (\<lambda>y. y \<noteq> x) xs)) CHR ''x'') else None),
     from_json = (\<lambda>s. nth_opt xs (length s))\<rparr>"

definition session_input :: "string \<Rightarrow> nat \<Rightarrow> i64 \<Rightarrow> DomeSessionInputKindV1 \<Rightarrow> DomeSessionInputV1" where
  "session_input p n t kind = sample_input\<lparr>in_participant_pubkey := p, in_sequence := n, in_sent_at := t, in_input := kind\<rparr>"

definition sample_inputs :: "DomeSessionInputV1 list" where
  "sample_inputs = [session_input ''carol'' 1 100 (InputJoin None), session_input ''dave'' 1 200 (InputJoin None),
     session_input ''carol'' 2 300 InputLeave]"

definition closed_codec :: "'a codec" where
  "closed_codec = \<lparr>to_json = (\<lambda>_. Some ''{}''), from_json = (\<lambda>_. None)\<rparr>"

definition sample_host :: "(int fvec list, nat, int) host_lib" where
  "sample_host = \<lparr>hs_lib = \<lparr>hl_crypto = sample_crypto, hl_blake3_hex = (\<lambda>m. m), hl_lease = sample_codec sample_lease,
       hl_acceptance = closed_codec, hl_activation = closed_codec, hl_close = closed_codec,
       hl_input = listed_codec sample_inputs, hl_snapshot = closed_codec, hl_heartbeat = closed_codec,
       hl_candidate = closed_codec, hl_commit = closed_codec\<rparr>,
     hs_f32 = sample_f32, hs_rapier = sample_rapier, hs_signed_snapshot = closed_codec\<rparr>"

definition signed_sample :: "DomeSessionInputV1 \<Rightarrow> SignedDomeSessionInputV1" where
  "signed_sample input = projr (build_signed_dome_session_input (hs_lib sample_host) (Some 1)
     \<lparr>secret_key = in_participant_pubkey input\<rparr> input)"

definition sample_preset :: DomePresetManifestV1 where
  "sample_preset = \<lparr>preset_id = ''p'', preset_owner_pubkey = ''alice'', preset_revision = 1,
     preset_dome = default_dome\<lparr>dome_customization := default_customization\<lparr>cust_persistent_props := []\<rparr>\<rparr>,
     preset_asset_refs = [], preset_updated_at = 0\<rparr>"

definition sample_budget :: "nat \<Rightarrow> MetaverseResourceBudgetConfig" where
  "sample_budget limit = \<lparr>
     dome_budget = \<lparr>max_persistent_props = 4, max_texture_bytes = 4, max_texture_dimension = 4, max_model_bytes = 4,
       max_model_triangles = 4, max_colliders = 4, max_rigid_bodies = 4, max_snapshot_hz = 4\<rparr>,
     player_budget = \<lparr>max_guest_props = 4, max_guest_prop_bytes = 4, max_avatar_asset_bytes = 4, max_prop_spawns_per_minute = 4,
       max_interactions_per_second = 4, max_input_bytes_per_second = 4, max_proposals_per_ten_minutes_per_slot = 4,
       max_impulse_centimeters = 4, max_audio_frames_per_second = 4, max_audio_bytes_per_second = 4\<rparr>,
     host_budget = \<lparr>max_participants = limit, max_simulated_rigid_bodies = 4, max_snapshot_bytes_per_second = 4,
       max_session_asset_bytes = 4\<rparr>,
     client_budget = \<lparr>max_rendered_avatars = 4, max_texture_memory_bytes = 4, max_rendered_triangles = 4,
       max_interpolated_bodies = 4, max_neighbor_domes = 4, cache_capacity_bytes = 4, max_concurrent_audio_streams = 4,
       max_audio_jitter_frames = 4\<rparr>\<rparr>"

definition started_sample :: "nat \<Rightarrow> (int fvec list, nat) DomeSessionRuntime" where
  "started_sample limit = \<lparr>rt_lease = sample_signed_lease, rt_host_keys = \<lparr>secret_key = ''bob''\<rparr>, rt_session_id = ''s'', rt_participants = [],
     rt_transition_reservations = [], rt_committed_transitions = [], rt_prepared_exits = [], rt_transition_entries = [],
     rt_seated_on = [], rt_inputs = default_ledger, rt_participant_last_seen_at = [], rt_bodies_by_id = [],
     rt_world = [(0, -1, 0)], rt_tick = 0, rt_snapshot_sequence = 0, rt_heartbeat_sequence = 0, rt_snapshot_ring = [],
     rt_last_simulated_at = 50, rt_budget = sample_budget limit, rt_verified_assets = [], rt_participant_limit = limit,
     rt_default_spawn = \<lparr>spawn_position = (0, 0, 0), spawn_rotation = (0, 0, 0)\<rparr>, rt_player_budgets = [], rt_rejection_counts = [],
     rt_rejected_total = 0, rt_participant_high_water = 0, rt_rigid_body_high_water = 0, rt_snapshot_bytes = 0,
     rt_snapshot_throttled = 0, rt_last_snapshot_at = None, rt_snapshot_bandwidth = default_window\<rparr>"

lemma started_sample_alt: "started_sample limit = insert_dome_boundaries sample_host (new_runtime sample_host sample_signed_lease
    \<lparr>secret_key = ''bob''\<rparr> (sample_instance ''a'' ''alice'') sample_preset ''s'' 50 (sample_budget limit))"
  by (simp add: started_sample_def insert_dome_boundaries_def new_runtime_def Let_def sample_host_def sample_rapier_def sample_f32_def
    f_lit_def sample_instance_def sample_preset_def sample_budget_def bm_of_list_def)

lemma sample_budget_valid: "0 < limit \<Longrightarrow> limit \<le> 512 \<Longrightarrow> validate_budget (sample_budget limit) = Inr ()"
  by (simp add: validate_budget_def sample_budget_def budget_constants Let_def)

lemma sample_session_checks:
  "validate_dome_instance_manifest (sample_instance ''a'' ''alice'') = Inr ()"
  "verify_signed_dome_hosting_lease (hs_lib sample_host) sample_signed_lease (sample_instance ''a'' ''alice'') = Inr ()"
  "trim ''s'' \<noteq> []" "trim ''p'' \<noteq> []" "trim ''alice'' \<noteq> []"
  by code_simp+

lemma sample_session_fields:
  "public_key (hl_crypto (hs_lib sample_host)) \<lparr>secret_key = ''bob''\<rparr> = ''bob''"
  "cust_persistent_props (dome_customization (preset_dome sample_preset)) = []"
  "signing_pubkey (lease_host (sl_lease sample_signed_lease)) = ''bob''"
  "lease_issued_at (sl_lease sample_signed_lease) = 0"
  "lease_expires_at (sl_lease sample_signed_lease) = 9000"
  "lease_manifest_blob_hash (sl_lease sample_signed_lease) = pref_manifest_blob_hash (inst_preset_ref (sample_instance ''a'' ''alice''))"
  "pref_preset_id (inst_preset_ref (sample_instance ''a'' ''alice'')) = preset_id sample_preset"
  by (simp_all add: sample_host_def sample_hosting_def sample_preset_def sample_signed_lease_def sample_lease_def sample_instance_def)

lemma sample_assets_fit: "validate_dome_asset_budget (preset_asset_refs sample_preset) (sample_budget limit) = Inr zero_usage"
  by (simp add: validate_dome_asset_budget_def metaverse_dome_resource_usage_def sample_preset_def sample_budget_def
    check_limit_def zero_usage_def result_simps try_each_def)

lemma sample_preset_valid: "validate_dome_preset_manifest sample_preset = Inr ()"
  by (simp add: validate_dome_preset_manifest_def sample_preset_def default_dome_def default_customization_evaluates
    metaverse_dome_resource_usage_def referenced_assets_def sample_session_checks)

lemma sample_starts:
  assumes "0 < limit" "limit \<le> 512"
  shows "start_with_budget sample_host sample_signed_lease \<lparr>secret_key = ''bob''\<rparr> (sample_instance ''a'' ''alice'')
    sample_preset ''s'' 50 (sample_budget limit) = Inr (started_sample limit)"
  by (simp add: start_with_budget_def Let_def sample_budget_valid assms sample_session_checks sample_session_fields sample_preset_valid
    sample_assets_fit host_check_limit_def started_sample_alt del: not_less)

lemma sample_session: "0 < limit \<Longrightarrow> limit \<le> 512 \<Longrightarrow>
    session_state sample_host (start_terms sample_signed_lease \<lparr>secret_key = ''bob''\<rparr> (sample_instance ''a'' ''alice'') ''s''
      (sample_budget limit)) (started_sample limit)"
  by (rule session_state.start [OF sample_starts])

section \<open>Visits\<close>

text \<open>Carol joins, and leaves again.\<close>

definition joined_sample :: "nat \<Rightarrow> (int fvec list, nat) DomeSessionRuntime" where
  "joined_sample limit = snd (apply_signed_input_at sample_host (signed_sample (sample_inputs ! 0)) 150 (started_sample limit))"

definition left_sample :: "nat \<Rightarrow> (int fvec list, nat) DomeSessionRuntime" where
  "left_sample limit = snd (apply_signed_input_at sample_host (signed_sample (sample_inputs ! 2)) 350 (joined_sample limit))"

definition sample_view ::
    "unit result \<times> (int fvec list, nat) DomeSessionRuntime \<Rightarrow> bool \<times> string list \<times> i64 \<times> (string, i64) btree_map" where
  "sample_view r = (isl (fst r), rt_participants (snd r), rt_last_simulated_at (snd r), rt_participant_last_seen_at (snd r))"

lemma joined_sample_view: "sample_view (apply_signed_input_at sample_host (signed_sample (sample_inputs ! 0)) 150 (started_sample 2)) =
    (False, [''carol''], 50, [(''carol'', 150)])"
  by code_simp

lemma joined_sample_accepted: "apply_signed_input_at sample_host (signed_sample (sample_inputs ! 0)) 150 (started_sample 2) = (Inr (), joined_sample 2)"
  using joined_sample_view by (cases "fst (apply_signed_input_at sample_host (signed_sample (sample_inputs ! 0)) 150 (started_sample 2))")
    (simp_all add: sample_view_def joined_sample_def prod_eq_iff)

lemma joined_sample_fields: "rt_participants (joined_sample 2) = [''carol'']" "rt_last_simulated_at (joined_sample 2) = 50"
    "rt_participant_last_seen_at (joined_sample 2) = [(''carol'', 150)]"
  using joined_sample_view by (simp_all add: sample_view_def joined_sample_accepted)

lemma left_sample_participants: "rt_participants (left_sample 2) = []"
  by code_simp

lemma joined_sample_session: "0 < limit \<Longrightarrow> limit \<le> 512 \<Longrightarrow>
    session_state sample_host (start_terms sample_signed_lease \<lparr>secret_key = ''bob''\<rparr> (sample_instance ''a'' ''alice'') ''s''
      (sample_budget limit)) (joined_sample limit)"
  unfolding joined_sample_def by (intro session_state.step [OF sample_session] host_step.input)

end
