(* ===== verification/Session_Replay.thy ===== *)
theory Session_Replay
  imports Session_Sample
begin

text \<open>
  A session accepts an input once. The input ledger (\<open>crates/metaverse-host/src/support.rs\<close>) is followed through the
  runs of a session: every run of the host is a run of the ledger, and in a run of the ledger a recorded
  input stays refused while the number of departures is below the participant limit.
\<close>

section \<open>Replayed inputs\<close>

text \<open>
  A run of the ledger between two times of a clock that does not go back: the operations in the order the
  host performs them, with the number of departures. An input is recorded only after its sequence number
  was found to be beyond the mark of its signer.
\<close>

definition beyond_mark :: "DomeSessionInputV1 \<Rightarrow> InputLedger \<Rightarrow> bool" where
  "beyond_mark input l \<longleftrightarrow> (case ledger_mark l (in_participant_pubkey input) of
     None \<Rightarrow> True | Some mark \<Rightarrow> mark_sequence mark < in_sequence input)"

inductive ledger_run :: "nat \<Rightarrow> nat \<Rightarrow> i64 \<Rightarrow> InputLedger \<Rightarrow> i64 \<Rightarrow> InputLedger \<Rightarrow> bool" for limit where
  start: "ledger_run limit 0 c l c l"
| wait: "ledger_run limit n c l d m \<Longrightarrow> d \<le> now \<Longrightarrow> ledger_run limit n c l now m"
| check: "ledger_run limit n c l d m \<Longrightarrow> d \<le> now \<Longrightarrow> ledger_run limit n c l now (snd (ledger_check input now m))"
| recorded: "ledger_run limit n c l d m \<Longrightarrow> beyond_mark input m \<Longrightarrow> ledger_run limit n c l d (ledger_record input active m)"
| retire: "ledger_run limit n c l d m \<Longrightarrow> ledger_run limit (Suc n) c l d (ledger_retire p limit m)"

definition order_of :: "string \<times> u64 \<times> InputMark \<Rightarrow> u64" where
  "order_of row = fst (snd row)"

definition ledger_ok :: "InputLedger \<Rightarrow> bool" where
  "ledger_ok l \<longleftrightarrow> bm_ok (il_active l) \<and> bm_ok (il_departed l) \<and> inj_on order_of (set (il_departed l)) \<and>
     (\<forall>ord \<in> order_of ` set (il_departed l). ord \<le> il_departures l)"

definition covers :: "InputMark \<Rightarrow> DomeSessionInputV1 \<Rightarrow> bool" where
  "covers mark input \<longleftrightarrow> in_sequence input \<le> mark_sequence mark \<and> in_sent_at input \<le> mark_sent_at mark"

text \<open>The departures after the one with order \<open>ord\<close> that are still remembered.\<close>

definition later_rows :: "u64 \<Rightarrow> InputLedger \<Rightarrow> nat" where
  "later_rows ord l = card {o2 \<in> order_of ` set (il_departed l). ord < o2}"

definition guarded :: "DomeSessionInputV1 \<Rightarrow> nat \<Rightarrow> i64 \<Rightarrow> InputLedger \<Rightarrow> bool" where
  "guarded input n now l \<longleftrightarrow> input_expired (in_sent_at input) now \<or>
     (case bm_get (il_active l) (in_participant_pubkey input) of
        Some mark \<Rightarrow> covers mark input
      | None \<Rightarrow> (case bm_get (il_departed l) (in_participant_pubkey input) of
          Some (ord, mark) \<Rightarrow> covers mark input \<and> later_rows ord l \<le> n | None \<Rightarrow> False))"

lemma input_expired_mono: "input_expired t c \<Longrightarrow> c \<le> d \<Longrightarrow> input_expired t d"
  by (simp add: input_expired_def)

lemma input_expired_older: "input_expired t c \<Longrightarrow> u \<le> t \<Longrightarrow> input_expired u c"
  using sat_i64_mono [of "u + DOME_ACCESS_PROOF_TTL_MILLIS" "t + DOME_ACCESS_PROOF_TTL_MILLIS"] by (simp add: input_expired_def)

lemma later_rows_mono:
  "order_of ` set (il_departed m) \<subseteq> insert ord (order_of ` set (il_departed l)) \<Longrightarrow> later_rows ord m \<le> later_rows ord l"
  unfolding later_rows_def by (rule card_mono) auto

lemma ledger_check_fields:
  "il_active (snd (ledger_check input now l)) = il_active l"
  "il_departed (snd (ledger_check input now l)) = bm_retain (\<lambda>_ (_, mark). \<not> input_expired (mark_sent_at mark) now) (il_departed l)"
  "il_departures (snd (ledger_check input now l)) = il_departures l"
  by (simp_all add: ledger_check_def Let_def)

lemma ledger_ok_check: "ledger_ok l \<Longrightarrow> ledger_ok (snd (ledger_check input now l))"
  by (auto simp: ledger_ok_def ledger_check_fields bm_retain_def bm_ok_filter intro: inj_on_subset)

lemma guarded_after_check:
  assumes ok: "ledger_ok l" and g: "guarded input n d l" and "d \<le> now"
  shows "guarded input n now (snd (ledger_check input2 now l))"
proof (cases "input_expired (in_sent_at input) now")
  case False
  let ?m = "snd (ledger_check input2 now l)" let ?p = "in_participant_pubkey input"
  from False g input_expired_mono \<open>d \<le> now\<close> have g': "case bm_get (il_active l) ?p of Some mark \<Rightarrow> covers mark input
      | None \<Rightarrow> (case bm_get (il_departed l) ?p of Some (ord, mark) \<Rightarrow> covers mark input \<and> later_rows ord l \<le> n | None \<Rightarrow> False)"
    by (auto simp: guarded_def)
  have rows: "later_rows ord ?m \<le> later_rows ord l" for ord
    by (rule later_rows_mono) (auto simp: ledger_check_fields bm_retain_def)
  have keep: "bm_get (il_departed ?m) ?p = Some (ord, mark)" if "bm_get (il_departed l) ?p = Some (ord, mark)" "covers mark input" for ord mark
    using that ok False input_expired_older [of "mark_sent_at mark" now "in_sent_at input"]
    by (auto simp: ledger_check_fields ledger_ok_def bm_get_retain covers_def)
  show ?thesis using g' rows keep
    by (auto simp: guarded_def ledger_check_fields(1) split: option.splits intro: order_trans [OF rows])
qed (simp add: guarded_def)

lemma guarded_check:
  assumes "ledger_ok l" "guarded input n d l" "d \<le> now"
  shows "\<exists>e. fst (ledger_check input now l) = Inl e"
proof -
  let ?m = "snd (ledger_check input now l)"
  have m: "?m = l\<lparr>il_departed := bm_retain (\<lambda>_ (_, mark). \<not> input_expired (mark_sent_at mark) now) (il_departed l)\<rparr>"
    by (simp add: ledger_check_def Let_def)
  have "in_sequence input \<le> (case ledger_mark ?m (in_participant_pubkey input) of Some mark \<Rightarrow> mark_sequence mark | None \<Rightarrow> 0)"
    if "\<not> input_expired (in_sent_at input) now"
    using guarded_after_check [OF assms, of input] that
    by (auto simp: guarded_def ledger_mark_alt covers_def split: option.splits)
  then show ?thesis by (auto simp: ledger_check_def Let_def m bail_def)
qed

lemma order_of_insert: "order_of ` set (bm_insert k (o1, mk) m) \<subseteq> insert o1 (order_of ` set m)"
  using bm_insert_subset [of k "(o1, mk)" m] by (force simp: order_of_def)

lemma ledger_ok_record: "ledger_ok l \<Longrightarrow> ledger_ok (ledger_record input a l)"
proof -
  assume ok: "ledger_ok l"
  let ?p = "in_participant_pubkey input"
  have 1: "ledger_ok (l\<lparr>il_departed := bm_remove p (il_departed l), il_active := bm_insert p mk (il_active l)\<rparr>)" for p mk
    using ok by (auto simp: ledger_ok_def bm_oks bm_remove_def bm_ok_filter intro: inj_on_subset)
  have 2: "ledger_ok (l\<lparr>il_departed := bm_insert ?p (ord, mk) (il_departed l)\<rparr>)" if "bm_get (il_departed l) ?p = Some (ord, x)" for ord x mk
  proof -
    have row: "(?p, ord, x) \<in> set (il_departed l)" using that by (rule bm_get_Some_in)
    have "inj_on order_of (set (bm_insert ?p (ord, mk) (il_departed l)))"
    proof (rule inj_onI)
      fix r1 r2
      assume r: "r1 \<in> set (bm_insert ?p (ord, mk) (il_departed l))" "r2 \<in> set (bm_insert ?p (ord, mk) (il_departed l))" "order_of r1 = order_of r2"
      have inj: "r = (?p, ord, x)" if "r \<in> set (il_departed l)" "order_of r = ord" for r
        using ok row that by (auto simp: ledger_ok_def order_of_def dest: inj_onD [of order_of _ r "(?p, ord, x)"])
      show "r1 = r2"
        using r ok inj by (auto simp: ledger_ok_def bm_set_insert order_of_def dest: inj_onD [of order_of _ r1 r2])
    qed
    moreover have "order_of ` set (bm_insert ?p (ord, mk) (il_departed l)) \<subseteq> order_of ` set (il_departed l)"
      using order_of_insert [of ?p ord mk "il_departed l"] row by (force simp: order_of_def)
    ultimately show ?thesis using ok by (auto simp: ledger_ok_def bm_oks)
  qed
  show ?thesis using ok 1 2 by (auto simp: ledger_record_def Let_def split: option.split)
qed

lemma guarded_record:
  assumes ok: "ledger_ok l" and g: "guarded input n d l" and b: "beyond_mark input2 l"
  shows "guarded input n d (ledger_record input2 a l)"
proof (cases "input_expired (in_sent_at input) d")
  case False
  let ?p = "in_participant_pubkey input" let ?q = "in_participant_pubkey input2"
  have g': "case bm_get (il_active l) ?p of Some mark \<Rightarrow> covers mark input
      | None \<Rightarrow> (case bm_get (il_departed l) ?p of Some (ord, mark) \<Rightarrow> covers mark input \<and> later_rows ord l \<le> n | None \<Rightarrow> False)"
    using False g by (auto simp: guarded_def)
  define mk where "mk = \<lparr>mark_sequence = in_sequence input2, mark_sent_at = (case ledger_mark l ?q of None \<Rightarrow> in_sent_at input2
      | Some mark \<Rightarrow> max (mark_sent_at mark) (in_sent_at input2))\<rparr>"
  have new: "covers mk input" if "?q = ?p"
    using g' b that by (auto simp: mk_def beyond_mark_def covers_def ledger_mark_alt split: option.splits)
  have rem: "later_rows ord (l\<lparr>il_departed := bm_remove ?q (il_departed l), il_active := A\<rparr>) \<le> later_rows ord l" for ord A
    by (rule later_rows_mono) (auto simp: bm_remove_def)
  have upd: "later_rows ord (l\<lparr>il_departed := bm_insert ?q (o2, mk) (il_departed l)\<rparr>) \<le> later_rows ord l"
    if "bm_get (il_departed l) ?q = Some (o2, x)" for ord o2 x
    using order_of_insert [of ?q o2 mk "il_departed l"] bm_get_Some_in [OF that]
    by (intro later_rows_mono) (force simp: order_of_def)
  have act: "guarded input n d (l\<lparr>il_departed := bm_remove ?q (il_departed l), il_active := bm_insert ?q mk (il_active l)\<rparr>)"
    using g' new rem by (cases "?q = ?p") (auto simp: guarded_def split: option.splits intro: order_trans [OF rem])
  have dep: "guarded input n d (l\<lparr>il_departed := bm_insert ?q (o2, mk) (il_departed l)\<rparr>)" if "bm_get (il_departed l) ?q = Some (o2, x)" for o2 x
    using g' new that order_trans [OF upd [OF that]] by (cases "?q = ?p") (auto simp: guarded_def split: option.splits)
  show ?thesis unfolding ledger_record_def Let_def mk_def [symmetric]
    using act dep g by (auto split: option.split)
qed (simp add: guarded_def)

lemma oldest_departed_least:
  "oldest_departed rows = Some j \<Longrightarrow> \<exists>ord mk. (j, ord, mk) \<in> set rows \<and> (\<forall>r \<in> set rows. ord \<le> order_of r)"
proof (induction rows rule: oldest_departed.induct)
  case (2 i o1 m xs)
  show ?case
  proof (cases "\<forall>(_, o2, _) \<in> set xs. o1 \<le> o2")
    case True
    with 2(2) have "j = i" by (auto split: list.splits if_splits)
    with True show ?thesis by (force simp: order_of_def)
  next
    case False
    then obtain x ys where xs: "xs = x # ys" by (cases xs) auto
    with 2(2) False have "oldest_departed xs = Some j" by (auto split: if_splits)
    with 2(1) [OF xs] False xs obtain ord mk where om: "(j, ord, mk) \<in> set xs" "\<forall>r \<in> set xs. ord \<le> order_of r" by auto
    with False have "ord \<le> o1" by (force simp: order_of_def)
    with om show ?thesis by (force simp: order_of_def)
  qed
qed simp

text \<open>A row is forgotten only when as many later departures as the limit are remembered.\<close>

lemma oldest_departed_rows:
  assumes ok: "ledger_ok l" and old: "oldest_departed (il_departed l) = Some p" and row: "bm_get (il_departed l) p = Some (ord, mk)"
  shows "later_rows ord l = length (il_departed l) - 1"
proof -
  obtain o2 mk2 where o2: "(p, o2, mk2) \<in> set (il_departed l)" "\<forall>r \<in> set (il_departed l). o2 \<le> order_of r"
    using oldest_departed_least [OF old] by auto
  then have o2': "o2 = ord" using row ok by (auto simp: bm_get_iff [symmetric] ledger_ok_def)
  have "{o2 \<in> order_of ` set (il_departed l). ord < o2} = order_of ` set (il_departed l) - {ord}"
    using o2(2) o2' by force
  moreover have "ord \<in> order_of ` set (il_departed l)" using o2(1) o2' by (force simp: order_of_def)
  moreover have "card (order_of ` set (il_departed l)) = length (il_departed l)"
    using ok bm_ok_distinct [of "il_departed l"] by (simp add: ledger_ok_def card_image distinct_card distinct_map)
  ultimately show ?thesis by (simp add: later_rows_def)
qed

definition retired :: "string \<Rightarrow> InputLedger \<Rightarrow> InputLedger" where
  "retired p l = (let mark = (case ledger_mark l p of Some m \<Rightarrow> m | None \<Rightarrow> default_mark); n = wrap_u64 (il_departures l + 1) in
     l\<lparr>il_active := bm_remove p (il_active l), il_departures := n, il_departed := bm_insert p (n, mark) (il_departed l)\<rparr>)"

lemma ledger_retire_eq:
  "ledger_retire p k l = (let m = retired p l in
     if length (il_departed m) > k then (case oldest_departed (il_departed m) of
       Some oldest \<Rightarrow> m\<lparr>il_departed := bm_remove oldest (il_departed m)\<rparr> | None \<Rightarrow> m) else m)"
  by (simp add: ledger_retire_def retired_def Let_def split: option.split)

lemma wrap_u64_id: "n \<le> u64_max \<Longrightarrow> wrap_u64 n = n"
  by (simp add: wrap_u64_def)

lemma ledger_ok_retired: 
  assumes ok: "ledger_ok l" and n: "il_departures l + 1 \<le> u64_max"
  shows "ledger_ok (retired p l)"
proof -
  let ?n = "Suc (il_departures l)"
  have w: "wrap_u64 ?n = ?n" using wrap_u64_id [of ?n] n by simp
  have "inj_on order_of (set (bm_insert p (?n, mk) (il_departed l)))" for mk
  proof (rule inj_onI)
    fix r1 r2
    assume r: "r1 \<in> set (bm_insert p (?n, mk) (il_departed l))" "r2 \<in> set (bm_insert p (?n, mk) (il_departed l))" "order_of r1 = order_of r2"
    have "order_of r \<noteq> ?n" if "r \<in> set (il_departed l)" for r using ok that by (auto simp: ledger_ok_def)
    with r ok show "r1 = r2" by (auto simp: ledger_ok_def bm_set_insert order_of_def dest: inj_onD [of order_of _ r1 r2])
  qed
  moreover have "ord \<le> ?n" if "ord \<in> order_of ` set (bm_insert p (?n, mk) (il_departed l))" for ord mk
    using subsetD [OF order_of_insert that] ok by (auto simp: ledger_ok_def)
  ultimately show ?thesis using ok by (auto simp: ledger_ok_def retired_def Let_def w bm_oks)
qed

lemma ledger_ok_retire: "ledger_ok l \<Longrightarrow> il_departures l + 1 \<le> u64_max \<Longrightarrow> ledger_ok (ledger_retire p k l)"
  using ledger_ok_retired [of l p]
  by (auto simp: ledger_retire_eq Let_def ledger_ok_def bm_remove_def bm_ok_filter intro: inj_on_subset split: option.split)

lemma guarded_retired:
  assumes ok: "ledger_ok l" and n: "il_departures l + 1 \<le> u64_max" and g: "guarded input n d l"
  shows "guarded input (Suc n) d (retired p l)"
proof (cases "input_expired (in_sent_at input) d")
  case False
  let ?p = "in_participant_pubkey input" let ?n = "Suc (il_departures l)"
  have w: "wrap_u64 ?n = ?n" using wrap_u64_id [of ?n] n by simp
  have g': "case bm_get (il_active l) ?p of Some mark \<Rightarrow> covers mark input
      | None \<Rightarrow> (case bm_get (il_departed l) ?p of Some (ord, mark) \<Rightarrow> covers mark input \<and> later_rows ord l \<le> n | None \<Rightarrow> False)"
    using False g by (auto simp: guarded_def)
  have orders: "order_of ` set (il_departed (retired p l)) \<subseteq> insert ?n (order_of ` set (il_departed l))"
    using order_of_insert by (simp add: retired_def Let_def w)
  show ?thesis
  proof (cases "p = ?p")
    case True
    have "{o2 \<in> order_of ` set (il_departed (retired p l)). ?n < o2} = {}"
      using orders ok by (fastforce simp: ledger_ok_def)
    then have "later_rows ?n (retired p l) = 0" unfolding later_rows_def by simp
    then show ?thesis using g' True
      by (auto simp: guarded_def retired_def Let_def w ledger_mark_alt split: option.splits)
  next
    case False
    have "later_rows ord (retired p l) \<le> Suc (later_rows ord l)" for ord
    proof -
      have "{o2 \<in> order_of ` set (il_departed (retired p l)). ord < o2} \<subseteq> insert ?n {o2 \<in> order_of ` set (il_departed l). ord < o2}"
        using orders by auto
      then have "later_rows ord (retired p l) \<le> card (insert ?n {o2 \<in> order_of ` set (il_departed l). ord < o2})"
        unfolding later_rows_def by (intro card_mono) auto
      also have "\<dots> \<le> Suc (later_rows ord l)" unfolding later_rows_def by (simp add: card_insert_if)
      finally show ?thesis .
    qed
    moreover have "bm_get (il_active (retired p l)) ?p = bm_get (il_active l) ?p" "bm_get (il_departed (retired p l)) ?p = bm_get (il_departed l) ?p"
      using False by (auto simp: retired_def Let_def)
    ultimately show ?thesis using g' by (auto simp: guarded_def split: option.splits intro: order_trans)
  qed
qed (simp add: guarded_def)

lemma guarded_retire:
  assumes ok: "ledger_ok l" and n: "il_departures l + 1 \<le> u64_max" and g: "guarded input n d l" and k: "Suc n < k"
  shows "guarded input (Suc n) d (ledger_retire p k l)"
proof (cases "input_expired (in_sent_at input) d")
  case False
  let ?m = "retired p l" let ?p = "in_participant_pubkey input"
  have gm: "guarded input (Suc n) d ?m" by (rule guarded_retired [OF ok n g])
  have rem: "guarded input (Suc n) d (?m\<lparr>il_departed := bm_remove old (il_departed ?m)\<rparr>)"
    if len: "length (il_departed ?m) > k" and old: "oldest_departed (il_departed ?m) = Some old" for old
  proof -
    have keep: "old \<noteq> ?p" if "bm_get (il_departed ?m) ?p = Some (ord, mk)" "later_rows ord ?m \<le> Suc n" for ord mk
      using oldest_departed_rows [OF ledger_ok_retired [OF ok n], of p ?p ord mk] old that len k by auto
    have rows: "later_rows ord (?m\<lparr>il_departed := bm_remove old (il_departed ?m)\<rparr>) \<le> later_rows ord ?m" for ord
      by (rule later_rows_mono) (auto simp: bm_remove_def)
    show ?thesis using gm keep False
      by (auto simp: guarded_def split: option.splits intro: order_trans [OF rows])
  qed
  with gm show ?thesis by (auto simp: ledger_retire_eq Let_def split: option.split)
qed (simp add: guarded_def)

lemma ledger_retire_departures: "il_departures l + 1 \<le> u64_max \<Longrightarrow> il_departures (ledger_retire p k l) = il_departures l + 1"
  using wrap_u64_id [of "il_departures l + 1"] by (simp add: ledger_retire_eq retired_def Let_def split: option.split)

lemma ledger_run_ok:
  "ledger_run k n c l d m \<Longrightarrow> ledger_ok l \<Longrightarrow> il_departures l + n \<le> u64_max \<Longrightarrow>
     ledger_ok m \<and> il_departures m = il_departures l + n \<and> c \<le> d"
proof (induction rule: ledger_run.induct)
  case (retire n c l d m p)
  then show ?case using ledger_ok_retire [of m p k] ledger_retire_departures [of m p k] by simp
qed (auto simp: ledger_ok_check ledger_ok_record ledger_check_fields ledger_departures)

lemma ledger_run_guarded:
  assumes "ledger_run k n c l d m" "ledger_ok l" "il_departures l + n \<le> u64_max" "guarded input 0 c l" "n < k"
  shows "guarded input n d m"
  using assms
proof (induction rule: ledger_run.induct)
  case (wait n c l d m now)
  then show ?case using input_expired_mono by (auto simp: guarded_def)
next
  case (check n c l d m now input2)
  then show ?case using ledger_run_ok [OF check(1)] by (intro guarded_after_check) auto
next
  case (recorded n c l d m input2 a)
  then show ?case using ledger_run_ok [OF recorded(1)] by (intro guarded_record) auto
next
  case (retire n c l d m p)
  then show ?case using ledger_run_ok [OF retire(1)] by (intro guarded_retire) auto
qed

section \<open>The host as a run of the ledger\<close>

definition departed :: "('w, 'h) DomeSessionRuntime \<Rightarrow> ('w, 'h) DomeSessionRuntime \<Rightarrow> nat" where
  "departed s t = card (set (rt_participants s) - set (rt_participants t))"

text \<open>A run of the session on a clock that does not go back, with the number of departures.\<close>

inductive session_run :: "('w, 'h, 'f) host_lib \<Rightarrow> nat \<Rightarrow> i64 \<Rightarrow> ('w, 'h) DomeSessionRuntime \<Rightarrow> i64 \<Rightarrow> ('w, 'h) DomeSessionRuntime \<Rightarrow> bool"
  for H :: "('w, 'h, 'f) host_lib" where
  stay: "session_run H 0 c s c s"
| quiet: "session_run H n c s d t \<Longrightarrow> quiet_step H t u \<Longrightarrow> session_run H (n + departed t u) c s d u"
| input: "session_run H n c s d t \<Longrightarrow> d \<le> now \<Longrightarrow> u = snd (apply_signed_input_at H signed now t) \<Longrightarrow>
    session_run H (n + departed t u) c s now u"

definition follows ::
    "nat \<Rightarrow> nat \<Rightarrow> i64 \<Rightarrow> InputLedger \<Rightarrow> i64 \<Rightarrow> string set \<Rightarrow> ('w, 'h) DomeSessionRuntime \<Rightarrow> bool" where
  "follows k m c l d P s \<longleftrightarrow> rt_participant_limit s = k \<and> set (rt_participants s) \<subseteq> P \<and> finite P \<and>
     (\<exists>n \<le> card (P - set (rt_participants s)). ledger_run k (m + n) c l d (rt_inputs s))"

lemma follows_irrelevant [simp]:
  "follows k m c l d P (s\<lparr>rt_world := x0\<rparr>) = follows k m c l d P s"
  "follows k m c l d P (s\<lparr>rt_transition_reservations := x2\<rparr>) = follows k m c l d P s"
  "follows k m c l d P (s\<lparr>rt_committed_transitions := x3\<rparr>) = follows k m c l d P s"
  "follows k m c l d P (s\<lparr>rt_prepared_exits := x4\<rparr>) = follows k m c l d P s"
  "follows k m c l d P (s\<lparr>rt_transition_entries := x5\<rparr>) = follows k m c l d P s"
  "follows k m c l d P (s\<lparr>rt_seated_on := x6\<rparr>) = follows k m c l d P s"
  "follows k m c l d P (s\<lparr>rt_participant_last_seen_at := x7\<rparr>) = follows k m c l d P s"
  "follows k m c l d P (s\<lparr>rt_bodies_by_id := x8\<rparr>) = follows k m c l d P s"
  "follows k m c l d P (s\<lparr>rt_last_simulated_at := x9\<rparr>) = follows k m c l d P s"
  "follows k m c l d P (s\<lparr>rt_player_budgets := x10\<rparr>) = follows k m c l d P s"
  "follows k m c l d P (s\<lparr>rt_last_snapshot_at := x11\<rparr>) = follows k m c l d P s"
  "follows k m c l d P (s\<lparr>rt_snapshot_bandwidth := x12\<rparr>) = follows k m c l d P s"
  "follows k m c l d P (s\<lparr>rt_tick := x13\<rparr>) = follows k m c l d P s"
  "follows k m c l d P (s\<lparr>rt_snapshot_sequence := x14\<rparr>) = follows k m c l d P s"
  "follows k m c l d P (s\<lparr>rt_heartbeat_sequence := x15\<rparr>) = follows k m c l d P s"
  "follows k m c l d P (s\<lparr>rt_snapshot_throttled := x16\<rparr>) = follows k m c l d P s"
  "follows k m c l d P (s\<lparr>rt_snapshot_bytes := x17\<rparr>) = follows k m c l d P s"
  "follows k m c l d P (s\<lparr>rt_snapshot_ring := x18\<rparr>) = follows k m c l d P s"
  "follows k m c l d P (s\<lparr>rt_rejected_total := x19\<rparr>) = follows k m c l d P s"
  "follows k m c l d P (s\<lparr>rt_rejection_counts := x20\<rparr>) = follows k m c l d P s"
  "follows k m c l d P (s\<lparr>rt_participant_high_water := x21\<rparr>) = follows k m c l d P s"
  "follows k m c l d P (s\<lparr>rt_rigid_body_high_water := x22\<rparr>) = follows k m c l d P s"
  by (simp_all add: follows_def)

lemma follows_evict: "follows k m c l d P s \<Longrightarrow> follows k m c l d P (snd (evict_participant H p s))"
proof (rule evict_form [of H p s], goal_cases)
  case (1 w)
  let ?P = "set (rt_participants s)"
  from 1(1) obtain n where n: "n \<le> card (P - ?P)" "ledger_run k (m + n) c l d (rt_inputs s)" and P: "?P \<subseteq> P" "finite P" "rt_participant_limit s = k"
    by (auto simp: follows_def)
  have mono: "card (P - ?P) \<le> card (P - (?P - {p}))" using P by (intro card_mono) auto
  have "Suc (card (P - ?P)) = card (P - (?P - {p}))" if "p \<in> ?P"
  proof -
    have "P - (?P - {p}) = insert p (P - ?P)" using that P by auto
    with that P show ?thesis by simp
  qed
  with n ledger_run.retire [OF n(2), of p] mono have "\<exists>n \<le> card (P - (?P - {p})). ledger_run k (m + n) c l d (evict_ledger p s)"
    by (cases "p \<in> ?P \<and> p \<noteq> lease_owner_pubkey (rt_lease_body s)")
      (force simp: evict_ledger_def P(3) intro: exI [of _ "Suc n"], auto simp: evict_ledger_def intro: order_trans exI [of _ n])
  then show ?case unfolding 1(2) using P by (auto simp: follows_def set_bs_remove)
qed

interpretation following: time_invariant H "follows k m c l d P" for H :: "('w, 'h, 'f) host_lib" and k m c l d P
  by unfold_locales (simp_all add: follows_evict)

lemma follows_insert_prop: "keeps (follows k m c l d P) (insert_prop G prop kind expires_at created_by)"
  by (auto simp: keeps_def insert_prop_def add_body_def Let_def split: prod.split)

lemma follows_record_rejection [simp]: "follows k m c l d P (record_rejection r s) = follows k m c l d P s"
  by (simp add: record_rejection_def Let_def)

lemma follows_snapshot: "keeps (follows k m c l d P) (signed_snapshot_inner H clock now throttle)"
  unfolding signed_snapshot_inner_def
  by (rule keepsI, rule keepsD [OF keeps_mbind [OF following.keeps_advance_to keepsI]])
    (auto simp: Let_def throttled_def split: sum.split prod.split)

lemma follows_layout: "keeps (follows k m c l d P) (signed_layout_candidate H clock i now)"
  unfolding signed_layout_candidate_def signed_snapshot_def
  by (rule keeps_mbind [OF follows_snapshot]) (simp add: keeps_def mlift_def)

lemma follows_prepare: "keeps (follows k m c l d P) (prepare_transition_admission request access now)"
  by (auto simp: keeps_def prepare_transition_admission_def expire_transition_reservations_def Let_def
      split: sum.split option.split DomeTransitionAccessDecisionV1.split)

lemma commit_ledger:
  "rt_inputs (snd (commit_transition_admission H ticket position rotation now s)) = rt_inputs s \<and>
   set (rt_participants s) \<subseteq> set (rt_participants (snd (commit_transition_admission H ticket position rotation now s)))"
proof -
  let ?s = "expire_transition_reservations now s" let ?p = "visitor ticket"
  obtain r1 t1 where t1: "ensure_avatar H ?p None ?s = (r1, t1)" by fastforce
  have f1: "rt_inputs t1 = rt_inputs s" "rt_participants t1 = rt_participants s"
    using ensure_avatar_cases [of H ?p None ?s] t1 by (auto simp: add_body_def Let_def expire_transition_reservations_def)
  let ?t2 = "t1\<lparr>rt_participants := bs_insert ?p (rt_participants t1),
    rt_participant_last_seen_at := bm_insert ?p now (rt_participant_last_seen_at t1)\<rparr>"
  obtain r3 t3 where t3: "set_avatar_transform H ?p position rotation ?t2 = (r3, t3)" by fastforce
  obtain w where w: "t3 = ?t2\<lparr>rt_world := w\<rparr>" using set_avatar_transform_form [of H ?p position rotation ?t2] t3 by auto
  have clamp: "rt_inputs (clamp_bodies_to_dome H v) = rt_inputs v" "rt_participants (clamp_bodies_to_dome H v) = rt_participants v"
    for v :: "('a, 'b) DomeSessionRuntime" by (rule clamp_form [of H v]; simp)+
  have e: "rt_inputs ?s = rt_inputs s" "rt_participants ?s = rt_participants s" by (simp_all add: expire_transition_reservations_def)
  show ?thesis unfolding commit_transition_admission_def Let_def mbind_def mmod_def t1 t3
    by (auto simp: w f1 [symmetric] e clamp t3 split: option.split sum.split)
qed

text \<open>A step that is not an input: the ledger changes by departures only.\<close>

lemma quiet_follows:
  "quiet_step H s t \<Longrightarrow> follows k m c l d P s \<Longrightarrow>
     follows k m c l d P t \<or> rt_inputs t = rt_inputs s \<and> set (rt_participants s) \<subseteq> set (rt_participants t)"
proof (induction rule: quiet_step.induct)
  case (guest spec s)
  then show ?case by (simp add: add_guest_prop_def keepsD [OF follows_insert_prop])
next
  case (commit ticket position rotation now s)
  then show ?case using commit_ledger by blast
next
  case (evict p s)
  then show ?case by (simp add: follows_evict)
qed (simp_all add: keepsD [OF following.keeps_advance_to] keepsD [OF following.keeps_advance_for_read] keepsD [OF follows_snapshot]
    keepsD [OF follows_layout] keepsD [OF follows_prepare] signed_heartbeat_def revoke_transition_access_def drain_connection_def
    abort_transition_admission_def expire_transition_reservations_def Let_def)

lemma quiet_ledger:
  assumes "quiet_step H s t" "ledger_run (rt_participant_limit s) m c l d (rt_inputs s)"
  shows "\<exists>n \<le> departed s t. ledger_run (rt_participant_limit s) (m + n) c l d (rt_inputs t)"
proof -
  have "follows (rt_participant_limit s) m c l d (set (rt_participants s)) s"
    using assms(2) by (auto simp: follows_def intro: exI [of _ 0])
  from quiet_follows [OF assms(1) this] show ?thesis
    using assms(2) by (auto simp: follows_def departed_def intro: exI [of _ 0])
qed

section \<open>An input as a run of the ledger\<close>

lemma apply_input_ledger:
  "(rt_inputs (snd (apply_input H input s)) = rt_inputs s \<and> set (rt_participants s) \<subseteq> set (rt_participants (snd (apply_input H input s)))) \<or>
   (rt_inputs (snd (apply_input H input s)) = evict_ledger (in_participant_pubkey input) s \<and>
    rt_participants (snd (apply_input H input s)) = bs_remove (in_participant_pubkey input) (rt_participants s))"
proof -
  let ?p = "in_participant_pubkey input" let ?t = "snd (apply_input H input s)"
  have ev: "rt_inputs (snd (evict_participant H p s)) = evict_ledger p s \<and> rt_participants (snd (evict_participant H p s)) = bs_remove p (rt_participants s)" for p
    by (rule evict_form [of H p s]) simp
  have ins: "rt_inputs (snd (insert_prop H q kind e c v)) = rt_inputs v \<and> rt_participants (snd (insert_prop H q kind e c v)) = rt_participants v"
    for q kind e c and v :: "('a, 'b) DomeSessionRuntime"
    by (auto simp: insert_prop_def add_body_def Let_def split: prod.split)
  have rem: "rt_inputs (remove_body H i s) = rt_inputs s \<and> rt_participants (remove_body H i s) = rt_participants s" for i
    by (rule remove_body_form [of H i s]) simp
  show ?thesis
  proof (cases "in_input input")
    case (InputJoin c)
    obtain r t where t: "ensure_avatar H ?p c s = (r, t)" by fastforce
    have "rt_inputs t = rt_inputs s" "rt_participants t = rt_participants s"
      using ensure_avatar_cases [of H ?p c s] t by (auto simp: add_body_def Let_def)
    then show ?thesis
      by (auto simp: apply_input_def InputJoin Let_def mbind_def t mmod_def split: sum.split)
  next
    case (InputMove position rotation animation)
    obtain r t where t: "set_avatar_transform H ?p position rotation s = (r, t)" by fastforce
    obtain w where "t = s\<lparr>rt_world := w\<rparr>" using set_avatar_transform_form [of H ?p position rotation s] t by auto
    then show ?thesis using t
      by (auto simp: apply_input_def apply_move_def InputMove Let_def split: sum.split option.split)
  qed (use ev in \<open>auto simp: apply_input_def apply_impulse_def prepare_transition_exit_def abort_transition_exit_def
      complete_transition_exit_def Let_def mlift_def ins rem split: sum.split option.split\<close>)
qed

lemma beyond_checked: "ledger_check input now l = (Inr (), m) \<Longrightarrow> beyond_mark input m \<and> 0 < in_sequence input"
  by (auto simp: ledger_check_def beyond_mark_def Let_def split: if_splits option.splits)

lemma beyond_retire:
  assumes "beyond_mark input l" "0 < in_sequence input"
  shows "beyond_mark input (ledger_retire (in_participant_pubkey input) k l)"
proof -
  let ?p = "in_participant_pubkey input"
  have "beyond_mark input (retired ?p l)"
    using assms by (auto simp: beyond_mark_def retired_def ledger_mark_alt default_mark_def Let_def split: option.splits)
  moreover have "beyond_mark input (m\<lparr>il_departed := bm_remove i (il_departed m)\<rparr>)" if "beyond_mark input m" for m i
    using that by (auto simp: beyond_mark_def ledger_mark_alt split: option.splits)
  ultimately show ?thesis by (auto simp: ledger_retire_eq Let_def split: option.split)
qed

lemma only_budgets_fields: "only_budgets s t \<Longrightarrow> rt_inputs t = rt_inputs s \<and> rt_participants t = rt_participants s \<and> rt_lease t = rt_lease s \<and>
    rt_participant_limit t = rt_participant_limit s"
  by (auto simp: only_budgets_def)

text \<open>What an accepted input does to the ledger.\<close>

definition after_input :: "DomeSessionInputV1 \<Rightarrow> ('w, 'h) DomeSessionRuntime \<Rightarrow> ('w, 'h) DomeSessionRuntime \<Rightarrow> InputLedger" where
  "after_input input s t = (if in_participant_pubkey input \<in> set (rt_participants s) - set (rt_participants t) \<and>
      in_participant_pubkey input \<noteq> lease_owner_pubkey (rt_lease_body s)
    then ledger_retire (in_participant_pubkey input) (rt_participant_limit s) (rt_inputs s) else rt_inputs s)"

lemma preflight_apply_ledger:
  assumes "mbind (preflight_input H input now) (\<lambda>_. apply_input H input) s = (Inr (), t)"
  shows "rt_inputs t = after_input input s t \<and> set (rt_participants s) - {in_participant_pubkey input} \<subseteq> set (rt_participants t)"
proof -
  let ?p = "in_participant_pubkey input"
  obtain v where v: "preflight_input H input now s = (Inr (), v)" "apply_input H input v = (Inr (), t)"
    using assms by (auto simp: mbind_Inr)
  have b: "rt_inputs v = rt_inputs s" "rt_participants v = rt_participants s" "rt_lease v = rt_lease s" "rt_participant_limit v = rt_participant_limit s"
    using only_budgets_fields [OF preflight_only_budgets [of s H input now]] v(1) by simp_all
  from apply_input_ledger [of H input v] show ?thesis
    unfolding v(2) snd_conv after_input_def evict_ledger_def b by (auto simp: set_bs_remove)
qed

lemma clamp_fields [simp]: "rt_inputs (clamp_bodies_to_dome H s) = rt_inputs s"
    "rt_participants (clamp_bodies_to_dome H s) = rt_participants s"
  by (rule clamp_form [of H s]; simp)+

lemma registered_fields:
  "rt_inputs (registered input now t) = ledger_record input (in_participant_pubkey input \<in> set (rt_participants t) \<or>
     in_participant_pubkey input = lease_owner_pubkey (rt_lease_body t)) (rt_inputs t)"
  "rt_participants (registered input now t) = rt_participants t"
  by (simp_all add: registered_def Let_def)

lemma accepted_ledger:
  assumes "apply_signed_input_at H signed now s = (Inr (), u)"
  obtains l t a where "ledger_check (si_input signed) now (rt_inputs s) = (Inr (), l)"
    "rt_inputs u = ledger_record (si_input signed) a (after_input (si_input signed) (s\<lparr>rt_inputs := l\<rparr>) u)"
    "set (rt_participants s) - {in_participant_pubkey (si_input signed)} \<subseteq> set (rt_participants u)"
    "rt_lease u = rt_lease s \<Longrightarrow> a \<longleftrightarrow> in_participant_pubkey (si_input signed) \<in> set (rt_participants u) \<or>
       in_participant_pubkey (si_input signed) = lease_owner_pubkey (rt_lease_body s)"
proof (cases rule: apply_signed_input_cases [of H signed s now])
  case (accepted l t)
  let ?p = "in_participant_pubkey (si_input signed)"
  have u: "u = clamp_bodies_to_dome H (registered (si_input signed) now (settle ?p t))" using assms accepted(4) by simp
  have P: "rt_participants u = rt_participants t" by (simp add: u registered_fields)
  have L: "rt_lease u = rt_lease t" unfolding u
    by (rule clamp_form [of H "registered (si_input signed) now (settle ?p t)"]) (simp add: registered_def Let_def)
  note f = preflight_apply_ledger [OF accepted(3)]
  have A: "after_input (si_input signed) (s\<lparr>rt_inputs := l\<rparr>) u = rt_inputs t" using f by (simp add: after_input_def P)
  let ?a = "?p \<in> set (rt_participants t) \<or> ?p = lease_owner_pubkey (rt_lease_body t)"
  have I: "rt_inputs u = ledger_record (si_input signed) ?a (rt_inputs t)" by (simp add: u registered_fields)
  show ?thesis by (rule that [OF accepted(2), of ?a]) (use f P L I A in simp_all)
qed (use assms in auto)

lemma input_ledger:
  assumes run: "ledger_run (rt_participant_limit s) m c l d (rt_inputs s)" and now: "d \<le> now"
    and t: "t = snd (apply_signed_input_at H signed now s)"
  shows "\<exists>n \<le> departed s t. ledger_run (rt_participant_limit s) (m + n) c l now (rt_inputs t)"
proof -
  let ?input = "si_input signed" let ?p = "in_participant_pubkey ?input" let ?k = "rt_participant_limit s"
  obtain r where r: "apply_signed_input_at H signed now s = (r, t)" unfolding t by (metis prod.collapse)
  have chk: "ledger_run ?k m c l now q" if "ledger_check ?input now (rt_inputs s) = (x, q)" for x q
    using ledger_run.check [OF run now, of ?input] that by simp
  show ?thesis
  proof (cases r)
    case (Inr u)
    with r have acc: "apply_signed_input_at H signed now s = (Inr (), t)" by simp
    obtain q a where q: "ledger_check ?input now (rt_inputs s) = (Inr (), q)"
      and i: "rt_inputs t = ledger_record ?input a (after_input ?input (s\<lparr>rt_inputs := q\<rparr>) t)"
      by (rule accepted_ledger [OF acc])
    note b = beyond_checked [OF q]
    show ?thesis
    proof (cases "?p \<in> set (rt_participants s) - set (rt_participants t) \<and> ?p \<noteq> lease_owner_pubkey (rt_lease_body s)")
      case True
      then have "0 < departed s t" by (auto simp: departed_def card_gt_0_iff)
      moreover have "rt_inputs t = ledger_record ?input a (ledger_retire ?p ?k q)" using i True by (simp add: after_input_def)
      moreover have "ledger_run ?k (Suc m) c l now (ledger_record ?input a (ledger_retire ?p ?k q))"
        by (rule ledger_run.recorded [OF ledger_run.retire [OF chk [OF q]]]) (use b beyond_retire in auto)
      ultimately show ?thesis by (intro exI [of _ 1]) simp
    next
      case False
      then have "rt_inputs t = ledger_record ?input a q" using i by (auto simp: after_input_def)
      with ledger_run.recorded [OF chk [OF q]] b show ?thesis by (intro exI [of _ 0]) simp
    qed
  next
    case (Inl e)
    have "rt_inputs t = rt_inputs s \<or> (\<exists>x. ledger_check ?input now (rt_inputs s) = (x, rt_inputs t))"
    proof (cases rule: apply_signed_input_cases [of H signed s now])
      case (refused e2 q v)
      have "rt_inputs (record_rejection x y) = rt_inputs y" for x and y :: "('a, 'b) DomeSessionRuntime"
        by (simp add: record_rejection_def Let_def)
      then have "rt_inputs t = rt_inputs v" using refused(3) r by (auto simp: Let_def split: option.splits)
      with only_budgets_fields [OF preflight_apply_error [OF refused(2)]] refused(1) show ?thesis by simp
    qed (use r Inl in auto)
    then have "ledger_run ?k m c l now (rt_inputs t)" using chk ledger_run.wait [OF run now] by auto
    then show ?thesis by (intro exI [of _ 0]) simp
  qed
qed

lemma session_run_ledger:
  assumes "session_run H n c s d t" "session_ok {} s" "books_ok T H s"
  shows "books_ok T H t \<and> session_ok {} t \<and> (\<exists>m \<le> n. ledger_run (rt_participant_limit s) m c (rt_inputs s) d (rt_inputs t))"
  using assms
proof (induction rule: session_run.induct)
  case (stay c s)
  then show ?case by (auto intro: ledger_run.start)
next
  case (quiet n c s d t u)
  then obtain m where m: "m \<le> n" "ledger_run (rt_participant_limit s) m c (rt_inputs s) d (rt_inputs t)" by auto
  have k: "rt_participant_limit t = rt_participant_limit s" using quiet by (auto simp: books_ok_def terms_of_def)
  obtain j where "j \<le> departed t u" "ledger_run (rt_participant_limit s) (m + j) c (rt_inputs s) d (rt_inputs u)"
    using quiet_ledger [OF quiet(2), unfolded k, OF m(2)] by auto
  then show ?case using quiet m(1) quiet_step_ok [OF quiet(2)] quiet_step_books [OF quiet(2)]
    by (auto intro!: exI [of _ "m + j"])
next
  case (input n c s d t now u signed)
  then obtain m where m: "m \<le> n" "ledger_run (rt_participant_limit s) m c (rt_inputs s) d (rt_inputs t)" by auto
  have k: "rt_participant_limit t = rt_participant_limit s" using input by (auto simp: books_ok_def terms_of_def)
  obtain j where "j \<le> departed t u" "ledger_run (rt_participant_limit s) (m + j) c (rt_inputs s) now (rt_inputs u)"
    using input_ledger [of t, unfolded k, OF m(2) input(2,3)] by auto
  moreover have "books_ok T H u" "session_ok {} u" using input(3-6)
    by (simp_all add: keepsD [OF keeps_apply_signed_input] keepsD [OF books_apply_signed_input])
  ultimately show ?case using m(1) by (auto intro!: exI [of _ "m + j"])
qed

lemma record_covers:
  assumes "ledger_mark l (in_participant_pubkey input) = x"
  shows "covers \<lparr>mark_sequence = in_sequence input, mark_sent_at = (case x of None \<Rightarrow> in_sent_at input
      | Some mark \<Rightarrow> max (mark_sent_at mark) (in_sent_at input))\<rparr> input"
  by (simp add: covers_def split: option.split)

lemma guarded_recorded_active: "guarded input 0 now (ledger_record input True l)"
  by (simp add: guarded_def ledger_record_def Let_def record_covers)

lemma guarded_recorded_departed:
  assumes ok: "ledger_ok l" and n: "il_departures l + 1 \<le> u64_max" and k: "0 < k"
  shows "guarded input 0 now (ledger_record input False (ledger_retire (in_participant_pubkey input) k l))"
proof -
  let ?p = "in_participant_pubkey input" let ?m = "retired ?p l" let ?n = "Suc (il_departures l)"
  have w: "wrap_u64 ?n = ?n" using wrap_u64_id [of ?n] n by simp
  have okm: "ledger_ok ?m" by (rule ledger_ok_retired [OF ok n])
  obtain mk where mk: "bm_get (il_departed ?m) ?p = Some (?n, mk)" "bm_get (il_active ?m) ?p = None"
    by (simp add: retired_def Let_def w)
  have "order_of ` set (il_departed ?m) \<subseteq> insert ?n (order_of ` set (il_departed l))"
    using order_of_insert by (simp add: retired_def Let_def w)
  then have "{o2 \<in> order_of ` set (il_departed ?m). ?n < o2} = {}" using ok by (fastforce simp: ledger_ok_def)
  then have z: "later_rows ?n ?m = 0" unfolding later_rows_def by simp
  have keep: "i \<noteq> ?p" if "k < length (il_departed ?m)" "oldest_departed (il_departed ?m) = Some i" for i
    using oldest_departed_rows [OF okm, of ?p ?n mk] that k mk(1) z by auto
  let ?r = "ledger_retire ?p k l"
  have r: "bm_get (il_departed ?r) ?p = Some (?n, mk)" "bm_get (il_active ?r) ?p = None"
    using mk keep by (auto simp: ledger_retire_eq Let_def split: option.split)
  have "order_of ` set (il_departed ?r) \<subseteq> order_of ` set (il_departed ?m)"
    by (auto simp: ledger_retire_eq Let_def bm_remove_def split: option.split)
  then have "later_rows ?n ?r \<le> later_rows ?n ?m" by (intro later_rows_mono) auto
  moreover have "later_rows ?n (?r\<lparr>il_departed := bm_insert ?p (?n, v) (il_departed ?r)\<rparr>) \<le> later_rows ?n ?r" for v
    using order_of_insert [of ?p ?n v "il_departed ?r"] by (intro later_rows_mono) simp
  ultimately have "later_rows ?n (?r\<lparr>il_departed := bm_insert ?p (?n, v) (il_departed ?r)\<rparr>) = 0" for v
    using z by (metis le_zero_eq)
  then show ?thesis by (simp add: guarded_def ledger_record_def Let_def r record_covers)
qed

text \<open>The ledger a session starts with.\<close>

lemma started_ledger: "start_with_budget H lease keys inst preset sid now budget = Inr s \<Longrightarrow> rt_inputs s = default_ledger"
proof -
  assume *: "start_with_budget H lease keys inst preset sid now budget = Inr s"
  have "insert_props H props s = Inr t \<Longrightarrow> rt_inputs t = rt_inputs s" for props and s t :: "('a, 'b) DomeSessionRuntime"
  proof (induction H props s rule: insert_props.induct)
    case (2 H p ps s)
    obtain r u where u: "insert_prop H p PersistentPropBody None None s = (r, u)" by fastforce
    then have "rt_inputs u = rt_inputs s" by (auto simp: insert_prop_def add_body_def Let_def split: if_splits prod.splits)
    with 2 u show ?case by (cases r) auto
  qed simp
  moreover have "rt_inputs (insert_dome_boundaries H (new_runtime H lease keys inst preset sid now budget)) = default_ledger"
    by (simp add: insert_dome_boundaries_def new_runtime_def Let_def split: prod.split)
  ultimately show ?thesis using *
    by (auto simp: start_with_budget_def Let_def result_simps split: if_splits)
qed

lemma ledger_ok_default: "ledger_ok default_ledger"
  by (simp add: ledger_ok_def default_ledger_def)

lemma accepted_guarded:
  assumes acc: "apply_signed_input_at H signed now s = (Inr (), u)" and ok: "ledger_ok (rt_inputs s)"
    and n: "il_departures (rt_inputs s) + 1 \<le> u64_max" and k: "0 < rt_participant_limit s" and lease: "rt_lease u = rt_lease s"
    and known: "in_participant_pubkey (si_input signed) \<in> set (rt_participants s) \<union> set (rt_participants u) \<union> {lease_owner_pubkey (rt_lease_body s)}"
  shows "guarded (si_input signed) 0 now (rt_inputs u)"
proof -
  let ?p = "in_participant_pubkey (si_input signed)"
  obtain l a where l: "ledger_check (si_input signed) now (rt_inputs s) = (Inr (), l)"
    and i: "rt_inputs u = ledger_record (si_input signed) a (after_input (si_input signed) (s\<lparr>rt_inputs := l\<rparr>) u)"
    and a: "a \<longleftrightarrow> ?p \<in> set (rt_participants u) \<or> ?p = lease_owner_pubkey (rt_lease_body s)"
    by (rule accepted_ledger [OF acc]) (use lease in auto)
  have okl: "ledger_ok l" "il_departures l = il_departures (rt_inputs s)"
    using ledger_ok_check [OF ok, of "si_input signed" now] ledger_check_fields(3) [of "si_input signed" now "rt_inputs s"] l by simp_all
  show ?thesis
  proof (cases a)
    case True
    then show ?thesis using i guarded_recorded_active by simp
  next
    case False
    then have "after_input (si_input signed) (s\<lparr>rt_inputs := l\<rparr>) u = ledger_retire ?p (rt_participant_limit s) l"
      using a known by (auto simp: after_input_def)
    then show ?thesis unfolding i using False guarded_recorded_departed [OF okl(1) _ k] n okl(2) by simp
  qed
qed

lemma guarded_older:
  "guarded input n now l \<Longrightarrow> in_participant_pubkey input2 = in_participant_pubkey input \<Longrightarrow>
     in_sequence input2 \<le> in_sequence input \<Longrightarrow> in_sent_at input2 \<le> in_sent_at input \<Longrightarrow> guarded input2 n now l"
  using input_expired_older [of "in_sent_at input" now "in_sent_at input2"]
  by (auto simp: guarded_def covers_def split: option.splits)

lemma departed_accepted: "apply_signed_input_at H signed now s = (Inr (), t) \<Longrightarrow> departed s t \<le> 1"
proof -
  assume acc: "apply_signed_input_at H signed now s = (Inr (), t)"
  have "set (rt_participants s) - set (rt_participants t) \<subseteq> {in_participant_pubkey (si_input signed)}"
    by (rule accepted_ledger [OF acc]) blast
  then show ?thesis unfolding departed_def using card_mono [of "{in_participant_pubkey (si_input signed)}"] by fastforce
qed

lemma books_terms: "books_ok T H s \<Longrightarrow> books_ok T H t \<Longrightarrow> rt_lease s = rt_lease t"
  "books_ok T H s \<Longrightarrow> books_ok T H t \<Longrightarrow> rt_participant_limit s = rt_participant_limit t"
  by (cases T; simp add: books_ok_def terms_of_def)+

lemma ledger_run_started:
  "start_with_budget H lease keys inst preset sid t0 budget = Inr s0 \<Longrightarrow> ledger_run k n t0 (rt_inputs s0) d l \<Longrightarrow> n \<le> u64_max \<Longrightarrow>
     ledger_ok l \<and> il_departures l = n"
  using ledger_run_ok [of k n t0 default_ledger d l] started_ledger [of H lease keys inst preset sid t0 budget s0] ledger_ok_default
  by (simp add: default_ledger_def)

lemma unchecked_input:
  assumes "\<exists>e l. ledger_check (si_input signed) now (rt_inputs s) = (Inl e, l)"
  shows "\<exists>e l. apply_signed_input_at H signed now s = (Inl e, s\<lparr>rt_inputs := l\<rparr>)"
proof (cases rule: apply_signed_input_cases [of H signed s now])
  case (unverified e)
  then have "apply_signed_input_at H signed now s = (Inl e, s\<lparr>rt_inputs := rt_inputs s\<rparr>)" by simp
  then show ?thesis by blast
next
  case (ledgered e l)
  then show ?thesis by blast
qed (use assms in simp_all)

text \<open>
  C2. An input is accepted once. In a session that has run from its start on a clock that does not go
  back, take an input the host has accepted from a participant, from the owner, or from someone it made a
  participant. As long as fewer participants have left since than the session admits (the host keeps the
  marks of that many departed signers), the host refuses the same input, and every older one of the same
  signer, at every later time, and the refusal changes nothing but the ledger. (The count of departures
  must not have wrapped around, at the latest after \<open>2\<^sup>64\<close> of them.)
\<close>

theorem replayed_input_refused:
  assumes start: "start_with_budget H lease keys inst preset sid t0 budget = Inr s0"
    and run: "session_run H m t0 s0 c s" and "c \<le> now"
    and acc: "apply_signed_input_at H signed now s = (Inr (), s1)"
    and known: "in_participant_pubkey (si_input signed) \<in>
      set (rt_participants s) \<union> set (rt_participants s1) \<union> {lease_owner_pubkey (rt_lease_body s)}"
    and run2: "session_run H n now s1 d u" and "n < rt_participant_limit s" and "m + 1 + n \<le> u64_max" and "d \<le> later"
    and old: "in_participant_pubkey (si_input again) = in_participant_pubkey (si_input signed)"
      "in_sequence (si_input again) \<le> in_sequence (si_input signed)" "in_sent_at (si_input again) \<le> in_sent_at (si_input signed)"
  shows "\<exists>e l. apply_signed_input_at H again later u = (Inl e, u\<lparr>rt_inputs := l\<rparr>)"
proof -
  let ?T = "start_terms lease keys inst sid budget"
  note s0 = started_ok [OF start] started_books [OF start]
  have wide: "m + 1 \<le> u64_max" using assms(8) by simp
  obtain j where s: "books_ok ?T H s" "session_ok {} s" and j: "j \<le> m" "ledger_run (rt_participant_limit s0) j t0 (rt_inputs s0) c (rt_inputs s)"
    using session_run_ledger [OF run s0] by auto
  obtain i where s1: "books_ok ?T H s1" "session_ok {} s1" and i: "i \<le> m + departed s s1"
      "ledger_run (rt_participant_limit s0) i t0 (rt_inputs s0) now (rt_inputs s1)"
    using session_run_ledger [OF session_run.input [OF run \<open>c \<le> now\<close>] s0, of s1 signed] acc by auto
  have "i \<le> m + 1" using i(1) departed_accepted [OF acc] by linarith
  note same = books_terms [OF s(1) s1(1)] books_terms [OF s1(1) started_books [OF start]]
  note l = ledger_run_started [OF start j(2)] ledger_run_started [OF start i(2)]
  have "guarded (si_input signed) 0 now (rt_inputs s1)"
    by (rule accepted_guarded [OF acc _ _ _ same(1) [symmetric] known]) (use l(1) j(1) wide assms(7) in simp_all)
  moreover obtain k where "k \<le> n" and "ledger_run (rt_participant_limit s1) k now (rt_inputs s1) d (rt_inputs u)"
    using session_run_ledger [OF run2 s1(2,1)] by auto
  moreover have "ledger_ok (rt_inputs s1)" "il_departures (rt_inputs s1) + k \<le> u64_max" "k < rt_participant_limit s1"
    using l(2) \<open>i \<le> m + 1\<close> \<open>k \<le> n\<close> assms(7,8) same(2) by linarith+
  ultimately have "ledger_ok (rt_inputs u)" "guarded (si_input again) k d (rt_inputs u)"
    using ledger_run_ok ledger_run_guarded guarded_older [OF _ old] by blast+
  then have "\<exists>e l. ledger_check (si_input again) later (rt_inputs u) = (Inl e, l)"
    using guarded_check \<open>d \<le> later\<close> by (metis prod.collapse)
  then show ?thesis by (rule unchecked_input)
qed

text \<open>Carol joins, leaves, and sends the old request to join again.\<close>

theorem replayed_input_refused_witness:
  "\<exists>e l. apply_signed_input_at sample_host (signed_sample (sample_inputs ! 0)) 400 (left_sample 2) =
     (Inl e, (left_sample 2)\<lparr>rt_inputs := l\<rparr>)"
proof -
  have signer: "in_participant_pubkey (si_input (signed_sample (sample_inputs ! 0))) = ''carol''" by code_simp
  have run: "session_run sample_host 0 50 (started_sample 2) 50 (started_sample 2)" by (rule session_run.stay)
  have "departed (joined_sample 2) (left_sample 2) = 1"
    by (simp add: departed_def joined_sample_fields(1) left_sample_participants)
  with session_run.input [OF session_run.stay, of 150 350 "left_sample 2" sample_host "signed_sample (sample_inputs ! 2)" "joined_sample 2"]
  have leave: "session_run sample_host 1 150 (joined_sample 2) 350 (left_sample 2)" by (simp add: left_sample_def)
  have limit: "rt_participant_limit (started_sample 2) = 2" by (simp add: started_sample_def)
  show ?thesis
    by (rule replayed_input_refused [OF sample_starts run _ joined_sample_accepted _ leave])
      (simp_all add: signer joined_sample_fields(1) limit)
qed

end
