(* ===== verification/Session_Safety.thy ===== *)
theory Session_Safety
  imports Session_Sample
begin

text \<open>
  What holds in every state of a session (\<open>crates/metaverse-host/src/lib.rs\<close> and \<open>transition.rs\<close>), what a refused
  input leaves unchanged, how silent participants leave, and what the snapshot stream delivers.
\<close>

section \<open>What holds in every state of a session\<close>

text \<open>
  C1. In every state a session can reach, the times people were last seen are exactly those of its
  participants, and rate windows, prepared exits, entries, seats and held objects belong to participants only.
  (The marks against replays and the creators recorded of guest props outlive a visit.) A visitor holds at most one reservation and at most one committed admission,
  there are never more reservations than the session admits participants, and participants together with
  the visitors who hold a reservation never exceed twice that limit.
\<close>

theorem session_presence:
  assumes "session_state H T s"
  shows "keys_of (rt_participant_last_seen_at s) = set (rt_participants s) \<and>
    keys_of (rt_player_budgets s) \<union> keys_of (rt_prepared_exits s) \<union> keys_of (rt_transition_entries s) \<union> keys_of (rt_seated_on s) \<union>
      {p. \<exists>i b. (i, b) \<in> set (rt_bodies_by_id s) \<and> body_grabbed_by b = Some p} \<subseteq> set (rt_participants s) \<and>
    distinct (map visitor (bm_values (rt_transition_reservations s))) \<and>
    distinct (map visitor (bm_values (rt_committed_transitions s))) \<and>
    length (rt_transition_reservations s) \<le> rt_participant_limit s \<and>
    length (rt_participants s) +
      length (filter (\<lambda>ticket. visitor ticket \<notin> set (rt_participants s)) (bm_values (rt_transition_reservations s)))
      \<le> 2 * rt_participant_limit s"
proof -
  have "attached {} s" "admissions_ok s" using session_state_ok [OF assms] by (auto simp: session_ok_def)
  moreover have "{p. \<exists>i b. (i, b) \<in> set (rt_bodies_by_id s) \<and> body_grabbed_by b = Some p} = grabbers (rt_bodies_by_id s)"
    by (force simp: grabbers_def)
  ultimately show ?thesis by (auto simp: attached_def admissions_ok_def awaiting_def Let_def)
qed

text \<open>
  C21. Every state a session can reach is a value of the program's types: the ordered maps and sets are
  sorted without duplicate keys, the counters fit their widths \<open>u64\<close> and \<open>u32\<close>, and the snapshot ring holds at
  most a hundred snapshots. The lease, the host's keys, the session's name, its participant limit and its
  budget are those of the start.
\<close>

theorem session_state_typed:
  assumes "session_state H T s"
  shows "maps_ok s \<and> counters_ok s \<and> length (rt_snapshot_ring s) \<le> 100 \<and>
    (rt_lease s, rt_host_keys s, rt_session_id s, rt_participant_limit s, rt_budget s) = T"
  using session_state_ok [OF assms]
  by (auto simp: session_ok_def books_ok_def ring_ok_def terms_of_def DOME_SNAPSHOT_RING_CAPACITY_def)

section \<open>The snapshot stream\<close>

lemma filter_upt_above: "filter (\<lambda>n. a < n) [i ..< j] = [max i (Suc a) ..< j]"
  by (induction j) (auto simp: max_def)

text \<open>
  C20. What a client that has seen the snapshots up to \<open>a\<close> gets depends on the oldest snapshot in the ring: from
  that one on, exactly the ones it misses, in order and without a gap; a new client (\<open>a = 0\<close>) gets the whole ring;
  and a client that has not seen the oldest one gets the newest alone. This last rule also meets a client that
  has seen all snapshots before the oldest, although the ring then holds every snapshot it misses. All are
  snapshots of the ring, of this session by its host. (The numbers are consecutive until the counter saturates at
  \<open>2\<^sup>64 - 1\<close>.)
\<close>

theorem snapshots_after_complete:
  assumes "session_state H T s" "rt_snapshot_sequence s < u64_max"
  shows "let oldest = Suc (rt_snapshot_sequence s) - length (rt_snapshot_ring s);
      sequences = map (\<lambda>e. snap_sequence (ss_snapshot e)) in
    set (snapshots_after s a) \<subseteq> set (rt_snapshot_ring s) \<and>
    (\<forall>e \<in> set (snapshots_after s a). names_session H s (ss_snapshot e)) \<and>
    (rt_snapshot_ring s = [] \<longrightarrow> snapshots_after s a = []) \<and>
    (rt_snapshot_ring s \<noteq> [] \<longrightarrow>
      (a = 0 \<longrightarrow> snapshots_after s a = rt_snapshot_ring s) \<and>
      (oldest \<le> a \<longrightarrow> sequences (snapshots_after s a) = [Suc a ..< Suc (rt_snapshot_sequence s)]) \<and>
      (0 < a \<and> a < oldest \<longrightarrow> sequences (snapshots_after s a) = [rt_snapshot_sequence s]) \<and>
      (Suc a = oldest \<longrightarrow> sequences (rt_snapshot_ring s) = [Suc a ..< Suc (rt_snapshot_sequence s)]))"
proof (cases "rt_snapshot_ring s")
  case (Cons front rest)
  define first where "first = Suc (rt_snapshot_sequence s) - length (rt_snapshot_ring s)"
  let ?seq = "\<lambda>e. snap_sequence (ss_snapshot e)" let ?ring = "rt_snapshot_ring s"
  have ring: "map ?seq ?ring = [first ..< Suc (rt_snapshot_sequence s)]" "\<forall>e \<in> set ?ring. names_session H s (ss_snapshot e)"
      "length ?ring \<le> rt_snapshot_sequence s"
    using session_state_ok [OF assms(1)] assms(2) by (auto simp: books_ok_def ring_ok_def first_def)
  have lt: "first < Suc (rt_snapshot_sequence s)" using ring(3) Cons by (simp add: first_def)
  have front: "?seq front = first" using arg_cong [OF ring(1), of hd] Cons lt by (simp add: upt_rec del: upt_Suc)
  have ne: "?ring \<noteq> []" using Cons by simp
  have last: "?seq (last ?ring) = rt_snapshot_sequence s"
    using arg_cong [OF ring(1), of last] lt last_map [OF ne, of ?seq] by simp
  have "map ?seq (filter (\<lambda>e. a < ?seq e) ?ring) = filter (\<lambda>n. a < n) (map ?seq ?ring)" by (simp add: filter_map comp_def)
  then have missing: "map ?seq (filter (\<lambda>e. a < ?seq e) ?ring) = [max first (Suc a) ..< Suc (rt_snapshot_sequence s)]"
    unfolding ring(1) filter_upt_above .
  have after: "snapshots_after s a = (if a \<noteq> 0 \<and> a < first then [last ?ring] else filter (\<lambda>e. a < ?seq e) ?ring)"
    using Cons front by (simp add: snapshots_after_def)
  have pos: "0 < first" using ring(3) by (simp add: first_def)
  have "0 < ?seq e" if "e \<in> set ?ring" for e
  proof -
    have "?seq e \<in> set (map ?seq ?ring)" using that by simp
    then show ?thesis using pos unfolding ring(1) by (auto simp del: upt_Suc)
  qed
  then have whole: "filter (\<lambda>e. 0 < ?seq e) ?ring = ?ring" by simp
  have part: "set (snapshots_after s a) \<subseteq> set ?ring" unfolding after using ne by (auto simp: last_in_set)
  moreover have "first \<le> a \<Longrightarrow> map ?seq (snapshots_after s a) = [Suc a ..< Suc (rt_snapshot_sequence s)]"
    unfolding after using missing by (simp del: upt_Suc)
  moreover have "0 < a \<Longrightarrow> a < first \<Longrightarrow> map ?seq (snapshots_after s a) = [rt_snapshot_sequence s]"
    unfolding after using last by simp
  moreover have "a = 0 \<Longrightarrow> snapshots_after s a = ?ring" unfolding after using whole by simp
  moreover have "Suc a = first \<Longrightarrow> map ?seq ?ring = [Suc a ..< Suc (rt_snapshot_sequence s)]" using ring(1) by simp
  ultimately show ?thesis unfolding Let_def first_def [symmetric] using ring(2) ne by (auto simp del: upt_Suc)
qed (simp add: snapshots_after_def)

section \<open>Refused inputs\<close>

definition budgets_of_others :: "string \<Rightarrow> ('w, 'h) DomeSessionRuntime \<Rightarrow> ('w, 'h) DomeSessionRuntime \<Rightarrow> bool" where
  "budgets_of_others p s t \<longleftrightarrow> (\<exists>b. t = s\<lparr>rt_player_budgets := b\<rparr> \<and> (\<forall>q. q \<noteq> p \<longrightarrow> bm_get b q = bm_get (rt_player_budgets s) q))"

lemma preflight_others: "budgets_of_others (in_participant_pubkey input) s (snd (preflight_input H input now s))"
proof (rule keepsD [OF keeps_preflight])
  show "budgets_of_others (in_participant_pubkey input) s s"
    unfolding budgets_of_others_def by (rule exI [of _ "rt_player_budgets s"]) simp
  show "keeps (budgets_of_others (in_participant_pubkey input) s) (charge_player g u r d n l now (in_participant_pubkey input))" for g u r d n l
    by (auto simp: keeps_def budgets_of_others_def charge_player_def Let_def split: prod.split)
qed

lemma preflight_apply_others:
  assumes "mbind (preflight_input H input now) (\<lambda>_. apply_input H input) s = (Inl e, t)"
  shows "budgets_of_others (in_participant_pubkey input) s t"
  using assms preflight_others [of input s H now] by (auto simp: mbind_Inl dest: apply_input_error)

text \<open>
  C19. An input the host refuses changes nothing of the session but its books: rows of departed signers
  that have expired leave the ledger, the signer's own rate windows are charged (those of a signer who
  takes no part are dropped again), and a typed rejection is counted. Participants, bodies, the physics
  world, reservations, seats and sequence numbers stay as they were.
\<close>

theorem refused_input_changes_books_only:
  assumes "apply_signed_input_at H signed now s = (Inl e, t)"
  shows "\<exists>l b total counts. t = s\<lparr>rt_inputs := l, rt_player_budgets := b, rt_rejected_total := total, rt_rejection_counts := counts\<rparr> \<and>
    l \<in> {rt_inputs s, snd (ledger_check (si_input signed) now (rt_inputs s))} \<and>
    (\<forall>q. q \<noteq> in_participant_pubkey (si_input signed) \<longrightarrow> bm_get b q = bm_get (rt_player_budgets s) q) \<and>
    (in_participant_pubkey (si_input signed) \<notin> set (rt_participants s) \<longrightarrow>
       bm_get b (in_participant_pubkey (si_input signed)) \<in> {None, bm_get (rt_player_budgets s) (in_participant_pubkey (si_input signed))}) \<and>
    (downcast_rejection e = None \<longrightarrow> total = rt_rejected_total s \<and> counts = rt_rejection_counts s)"
proof (cases rule: apply_signed_input_cases [of H signed s now])
  case (unverified e2)
  then show ?thesis using assms
    by (intro exI [of _ "rt_inputs s"] exI [of _ "rt_player_budgets s"] exI [of _ "rt_rejected_total s"] exI [of _ "rt_rejection_counts s"]) simp
next
  case (ledgered e2 l)
  then show ?thesis using assms
    by (intro exI [of _ l] exI [of _ "rt_player_budgets s"] exI [of _ "rt_rejected_total s"] exI [of _ "rt_rejection_counts s"]) simp
next
  case (refused e2 l u)
  let ?p = "in_participant_pubkey (si_input signed)"
  obtain b where b: "u = s\<lparr>rt_inputs := l, rt_player_budgets := b\<rparr>" "\<And>q. q \<noteq> ?p \<Longrightarrow> bm_get b q = bm_get (rt_player_budgets s) q"
    using preflight_apply_others [OF refused(2)] by (auto simp: budgets_of_others_def)
  define c where "c = (if ?p \<in> set (rt_participants s) then b else bm_remove ?p b)"
  have settled: "settle ?p u = s\<lparr>rt_inputs := l, rt_player_budgets := c\<rparr>" by (simp add: b settle_def c_def)
  have c: "bm_get c q = bm_get (rt_player_budgets s) q" if "q \<noteq> ?p" for q using b(2) that by (simp add: c_def)
  have cp: "?p \<notin> set (rt_participants s) \<Longrightarrow> bm_get c ?p = None" by (simp add: c_def)
  have l: "l = snd (ledger_check (si_input signed) now (rt_inputs s))" using refused(1) by simp
  show ?thesis
  proof (cases "downcast_rejection e")
    case None
    then have "t = s\<lparr>rt_inputs := l, rt_player_budgets := c, rt_rejected_total := rt_rejected_total s, rt_rejection_counts := rt_rejection_counts s\<rparr>"
      using assms refused(3) settled by (auto simp: Let_def)
    then show ?thesis using c cp l
      by (intro exI [of _ l] exI [of _ c] exI [of _ "rt_rejected_total s"] exI [of _ "rt_rejection_counts s"]) simp
  next
    case (Some r)
    then obtain total counts where
        "t = s\<lparr>rt_inputs := l, rt_player_budgets := c, rt_rejected_total := total, rt_rejection_counts := counts\<rparr>"
      using assms refused(3) settled by (auto simp: record_rejection_def Let_def)
    then show ?thesis using c cp l Some by (intro exI [of _ l] exI [of _ c] exI [of _ total] exI [of _ counts]) simp
  qed
qed (use assms in simp)

section \<open>Participants who have gone silent\<close>

text \<open>Nothing of the session refers to \<open>p\<close>.\<close>

definition no_trace :: "string \<Rightarrow> ('w, 'h) DomeSessionRuntime \<Rightarrow> bool" where
  "no_trace p s \<longleftrightarrow> p \<notin> set (rt_participants s) \<and> avatar_id p \<notin> keys_of (rt_bodies_by_id s) \<and> p \<notin> grabbers (rt_bodies_by_id s) \<and>
     p \<notin> keys_of (rt_prepared_exits s) \<union> keys_of (rt_transition_entries s) \<union> keys_of (rt_seated_on s) \<union>
       keys_of (rt_participant_last_seen_at s) \<union> keys_of (rt_player_budgets s) \<and>
     p \<notin> visitor ` snd ` (set (rt_transition_reservations s) \<union> set (rt_committed_transitions s))"

lemma keys_release_image [simp]: "keys_of (release_grabs p m) = keys_of m"
  by (metis keys_release list.set_map)

lemma set_bm_retain: "set (bm_retain P m) = {(k, v) \<in> set m. P k v}"
  by (auto simp: bm_retain_def)

lemma no_trace_evict: "no_trace q s \<or> q = p \<Longrightarrow> no_trace q (snd (evict_participant H p s))"
  by (rule evict_form [of H p s]) (auto simp: no_trace_def set_bs_remove set_bm_retain ticket_kept_def dest: subsetD [OF grabbers_remove])

interpretation gone: time_invariant H "no_trace p" for H :: "('w, 'h, 'f) host_lib" and p
proof
  fix s :: "('w, 'h) DomeSessionRuntime" and q ps w i t
  assume p: "no_trace p s"
  then show "no_trace p (snd (evict_participant H q s))" by (simp add: no_trace_evict)
  show "no_trace p (s\<lparr>rt_bodies_by_id := bm_remove i (rt_bodies_by_id s), rt_world := w\<rparr>)"
    using p subsetD [OF grabbers_remove, of p i "rt_bodies_by_id s"] by (auto simp: no_trace_def)
qed (simp_all add: no_trace_def)

lemma evict_all:
  "p \<in> set ps \<or> no_trace p s \<Longrightarrow> no_trace p (fold (\<lambda>p s. snd (evict_participant H p s)) ps s)"
proof (induction ps arbitrary: s)
  case (Cons q ps)
  then show ?case using no_trace_evict [of p s q H] by auto
qed simp

lemma evict_all_participants:
  "set (rt_participants (fold (\<lambda>p s. snd (evict_participant H p s)) ps s)) = set (rt_participants s) - set ps"
proof (induction ps arbitrary: s)
  case (Cons q ps)
  have "rt_participants (snd (evict_participant H q s)) = bs_remove q (rt_participants s)" by (rule evict_form [of H q s]) simp
  then show ?case using Cons by (auto simp: set_bs_remove)
qed simp

lemma removal_fields:
  "rt_participants (expire_guest_props H now s) = rt_participants s"
  "rt_participant_last_seen_at (expire_guest_props H now s) = rt_participant_last_seen_at s"
proof -
  have "rt_participants (fold (remove_body H) ids s) = rt_participants s \<and>
      rt_participant_last_seen_at (fold (remove_body H) ids s) = rt_participant_last_seen_at s" for ids
  proof (induction ids arbitrary: s)
    case (Cons i ids)
    have "rt_participants (remove_body H i s) = rt_participants s"
        "rt_participant_last_seen_at (remove_body H i s) = rt_participant_last_seen_at s"
      by (rule remove_body_form [of H i s], simp)+
    then show ?case using Cons [of "remove_body H i s"] by simp
  qed simp
  then show "rt_participants (expire_guest_props H now s) = rt_participants s"
    "rt_participant_last_seen_at (expire_guest_props H now s) = rt_participant_last_seen_at s"
    by (simp_all add: expire_guest_props_def)
qed

lemma simulation_participants: "rt_participants ((simulate_step H ^^ n) s) = rt_participants s"
proof (induction n)
  case (Suc n)
  then show ?case by (rule_tac simulate_step_form [of H "(simulate_step H ^^ n) s"]) simp
qed simp

lemma stale_participants_iff:
  "maps_ok s \<Longrightarrow> p \<in> set (stale_participants now s) \<longleftrightarrow>
     (\<exists>seen. bm_get (rt_participant_last_seen_at s) p = Some seen \<and> DOME_PARTICIPANT_TIMEOUT_MILLIS < sat_i64 (now - seen))"
  by (force simp: stale_participants_def maps_ok_def bm_get_iff)

lemma advance_participants:
  "rt_last_simulated_at s \<le> now \<Longrightarrow>
     set (rt_participants (snd (advance_to H now s))) = set (rt_participants s) - set (stale_participants now s)"
proof -
  let ?s = "expire_guest_props H now s"
  assume "rt_last_simulated_at s \<le> now"
  then have "rt_participants (snd (advance_to H now s)) = rt_participants (expire_stale_participants H now ?s)"
    by (simp add: advance_to_def Let_def simulation_participants)
  moreover have "stale_participants now ?s = stale_participants now s" by (simp add: stale_participants_def removal_fields)
  ultimately show ?thesis by (simp add: expire_stale_participants_def evict_all_participants removal_fields)
qed

lemma advance_no_trace:
  assumes "rt_last_simulated_at s \<le> now" "p \<in> set (stale_participants now s)"
  shows "no_trace p (snd (advance_to H now s))"
proof -
  have "no_trace p (expire_stale_participants H now (expire_guest_props H now s))"
    using assms(2) unfolding expire_stale_participants_def
    by (intro evict_all) (simp add: stale_participants_def removal_fields)
  then show ?thesis using assms(1)
    by (simp add: advance_to_def Let_def gone.keeps_simulation gone.clock)
qed

text \<open>
  C18. Silence ends a visit. Whenever a session's clock is advanced, exactly the participants whose last
  input is at most thirty seconds old remain, and whoever leaves has no avatar, no held object, no seat, no
  budget, no prepared exit, no entry and no admission ticket any more. (The mark of their last input, kept against
  replays, and the guest props they brought in stay.) A participant who stays
  silent is therefore gone after the first advance beyond thirty seconds.
\<close>

theorem silent_participants_leave:
  assumes "session_state H T s" "rt_last_simulated_at s \<le> now"
  shows "\<exists>t. advance_to H now s = (Inr (), t) \<and> rt_last_simulated_at t = now \<and>
    set (rt_participants t) = {p \<in> set (rt_participants s).
      \<exists>seen. bm_get (rt_participant_last_seen_at s) p = Some seen \<and> sat_i64 (now - seen) \<le> 30000} \<and>
    (\<forall>p \<in> set (rt_participants s) - set (rt_participants t). no_trace p t)"
proof -
  let ?t = "snd (advance_to H now s)"
  have ok: "maps_ok s" "set (rt_participants s) \<subseteq> keys_of (rt_participant_last_seen_at s)"
    using session_state_ok [OF assms(1)] by (auto simp: session_ok_def attached_def Let_def)
  have r: "fst (advance_to H now s) = Inr ()" "rt_last_simulated_at ?t = now" using assms(2) by (simp_all add: advance_to_def Let_def)
  have P: "set (rt_participants ?t) = set (rt_participants s) - set (stale_participants now s)"
    by (rule advance_participants [OF assms(2)])
  moreover have "\<exists>seen. bm_get (rt_participant_last_seen_at s) p = Some seen" if "p \<in> set (rt_participants s)" for p
    using subsetD [OF ok(2) that] bm_contains_keys [of "rt_participant_last_seen_at s" p] by (auto simp: bm_contains_def)
  ultimately have "set (rt_participants ?t) = {p \<in> set (rt_participants s).
      \<exists>seen. bm_get (rt_participant_last_seen_at s) p = Some seen \<and> sat_i64 (now - seen) \<le> 30000}"
    using stale_participants_iff [OF ok(1), of _ now] by (fastforce simp: DOME_PARTICIPANT_TIMEOUT_MILLIS_def not_less)
  moreover have "no_trace p ?t" if "p \<in> set (rt_participants s) - set (rt_participants ?t)" for p
    using that P advance_no_trace [OF assms(2)] by blast
  ultimately show ?thesis using r by (intro exI [of _ ?t]) (simp add: prod_eq_iff)
qed

section \<open>A session, evaluated\<close>

text \<open>
  A session for one participant that reserves a place for Erin, lets Carol join and then admits Erin: it has two
  participants, because joining does not count reservations.
\<close>

definition sample_request :: DomeTransitionAdmissionRequestV1 where
  "sample_request = \<lparr>tr_transition_id = ''x'', tr_connection_id = ''c'', tr_topology_digest = ''d'', tr_spatial_context = ContextTopic ''t'',
     tr_source_instance_id = ''b'', tr_source_instance_generation = 1, tr_target_instance_id = ''a'', tr_target_instance_generation = 1,
     tr_participant_pubkey = ''erin'', tr_direction = North, tr_requested_at = 90\<rparr>"

definition sample_ticket :: DomeTransitionAdmissionTicketV1 where
  "sample_ticket = \<lparr>tk_request = sample_request, tk_target_lease_epoch = 1, tk_target_session_id = ''s'', tk_expires_at = 15100\<rparr>"

definition reserved_sample :: "(int fvec list, nat) DomeSessionRuntime" where
  "reserved_sample = snd (prepare_transition_admission sample_request AccessAllowed 100 (started_sample 1))"

definition crowded_sample :: "(int fvec list, nat) DomeSessionRuntime" where
  "crowded_sample = snd (commit_transition_admission sample_host sample_ticket (0, 0, 0) (0, 0, 0) 200
     (snd (apply_signed_input_at sample_host (signed_sample (sample_inputs ! 0)) 150 reserved_sample)))"

lemma reserved_sample_session: "session_state sample_host (start_terms sample_signed_lease \<lparr>secret_key = ''bob''\<rparr>
    (sample_instance ''a'' ''alice'') ''s'' (sample_budget 1)) reserved_sample"
  unfolding reserved_sample_def
  by (intro session_state.step [OF sample_session] host_step.quiet quiet_step.prepare) simp_all

theorem session_presence_witness:
  "rt_participant_limit crowded_sample = 1 \<and> rt_participants crowded_sample = [''carol'', ''erin''] \<and>
   keys_of (rt_participant_last_seen_at crowded_sample) = {''carol'', ''erin''}"
proof -
  have "session_state sample_host (start_terms sample_signed_lease \<lparr>secret_key = ''bob''\<rparr>
      (sample_instance ''a'' ''alice'') ''s'' (sample_budget 1)) crowded_sample"
    unfolding crowded_sample_def
    by (rule session_state.step [OF session_state.step [OF reserved_sample_session host_step.input]
      host_step.quiet [OF quiet_step.commit]])
  moreover have "rt_participant_limit crowded_sample = 1" "rt_participants crowded_sample = [''carol'', ''erin'']" by code_simp+
  ultimately show ?thesis using session_presence [of sample_host _ crowded_sample] by auto
qed

theorem session_state_typed_witness: "maps_ok (joined_sample 2) \<and> counters_ok (joined_sample 2) \<and> rt_session_id (joined_sample 2) = ''s''"
  using session_state_typed [OF joined_sample_session [of 2]] by (simp add: start_terms_def)

definition pictured_sample :: "(int fvec list, nat) DomeSessionRuntime" where
  "pictured_sample = snd (signed_snapshot_inner sample_host (Some 1) 300 False (snd (signed_snapshot_inner sample_host (Some 1) 200 False (started_sample 2))))"

theorem snapshots_after_complete_witness:
  "map (\<lambda>e. snap_sequence (ss_snapshot e)) (snapshots_after pictured_sample 1) = [2]"
proof -
  have "session_state sample_host (start_terms sample_signed_lease \<lparr>secret_key = ''bob''\<rparr>
      (sample_instance ''a'' ''alice'') ''s'' (sample_budget 2)) pictured_sample"
    unfolding pictured_sample_def
    by (rule session_state.step [OF session_state.step [OF sample_session host_step.quiet [OF quiet_step.snapshot]]
      host_step.quiet [OF quiet_step.snapshot]]) simp_all
  note after = snapshots_after_complete [OF this, of 1]
  have ring: "rt_snapshot_sequence pictured_sample = 2" "length (rt_snapshot_ring pictured_sample) = 2" by code_simp+
  have "[Suc 1 ..< Suc 2] = [2 :: nat]" by (simp add: upt_rec)
  then show ?thesis using after [unfolded ring] ring(2) by (auto simp: Let_def simp del: upt_Suc)
qed

theorem refused_input_changes_books_only_witness:
  "\<exists>l b total counts. snd (apply_signed_input_at sample_host (signed_sample (sample_inputs ! 1)) 250 (joined_sample 1)) =
     (joined_sample 1)\<lparr>rt_inputs := l, rt_player_budgets := b, rt_rejected_total := total, rt_rejection_counts := counts\<rparr> \<and>
     bm_get b ''carol'' = bm_get (rt_player_budgets (joined_sample 1)) ''carol''"
proof -
  let ?r = "apply_signed_input_at sample_host (signed_sample (sample_inputs ! 1)) 250 (joined_sample 1)"
  have "\<not> isl (fst ?r) \<longleftrightarrow> False" "in_participant_pubkey (si_input (signed_sample (sample_inputs ! 1))) = ''dave''" by code_simp+
  then obtain e where "?r = (Inl e, snd ?r)" "in_participant_pubkey (si_input (signed_sample (sample_inputs ! 1))) = ''dave''"
    by (metis isl_def prod.collapse)
  with refused_input_changes_books_only [of sample_host "signed_sample (sample_inputs ! 1)" 250 "joined_sample 1" e "snd ?r"]
  obtain l b total counts where "snd ?r = (joined_sample 1)\<lparr>rt_inputs := l, rt_player_budgets := b, rt_rejected_total := total,
      rt_rejection_counts := counts\<rparr>" "\<And>q. q \<noteq> ''dave'' \<Longrightarrow> bm_get b q = bm_get (rt_player_budgets (joined_sample 1)) q"
    by auto
  then show ?thesis by (intro exI [of _ l] exI [of _ b] exI [of _ total] exI [of _ counts]) simp
qed

theorem silent_participants_leave_witness:
  "\<exists>t. advance_to sample_host 31000 (joined_sample 2) = (Inr (), t) \<and> rt_participants t = [] \<and> no_trace ''carol'' t"
proof -
  have at: "rt_last_simulated_at (joined_sample 2) = 50" "bm_get (rt_participant_last_seen_at (joined_sample 2)) ''carol'' = Some 150"
    by (simp_all add: joined_sample_fields bm_get_def)
  have late: "sat_i64 (31000 - 150) = 30850" by code_simp
  have "rt_last_simulated_at (joined_sample 2) \<le> 31000" by (simp add: at(1))
  note leave = silent_participants_leave [OF joined_sample_session [of 2] this, unfolded joined_sample_fields(1)]
  obtain t where t: "advance_to sample_host 31000 (joined_sample 2) = (Inr (), t)"
      "set (rt_participants t) = {p \<in> set [''carol'']. \<exists>seen. bm_get (rt_participant_last_seen_at (joined_sample 2)) p = Some seen \<and>
         sat_i64 (31000 - seen) \<le> 30000}"
      "\<forall>p \<in> set [''carol''] - set (rt_participants t). no_trace p t"
    using leave by (elim meta_impE) (simp, simp, blast)
  have "set (rt_participants t) = {}" unfolding t(2) using at(2) late by simp
  with t(1,3) show ?thesis by (intro exI [of _ t]) simp
qed

end
