(* ===== verification/Docs_Sync.thy ===== *)
theory Docs_Sync
  imports Posts Host_Support "HOL-Library.AList"
begin

text \<open>
  The replicated documents of \<open>crates/docs-sync\<close>: the kinds of keys in a shared replica (\<open>keys.rs\<close>), the names of
  replicas (\<open>replicas.rs\<close>), the time buckets (\<open>buckets.rs\<close>), who may open a replica (\<open>access.rs\<close>), and the
  in-memory store (\<open>memory.rs\<close>). \<open>hex\<close>, \<open>blake3\<close> and \<open>serde_json\<close> are parameters.
\<close>

section \<open>Strings\<close>

text \<open>\<open>str::split_once\<close> and \<open>str::split\<close> with a non-empty pattern.\<close>

fun split_once_str :: "string \<Rightarrow> string \<Rightarrow> (string \<times> string) option" where
  "split_once_str sep [] = (if sep = [] then Some ([], []) else None)"
| "split_once_str sep (c # s) = (if starts_with sep (c # s) then Some ([], drop (length sep) (c # s))
     else map_option (\<lambda>(a, b). (c # a, b)) (split_once_str sep s))"

lemma split_once_str_Some: "split_once_str sep s = Some (a, b) \<Longrightarrow> s = a @ sep @ b"
proof (induction s arbitrary: a)
  case (Cons c s)
  then show ?case by (auto simp: starts_with_def split: if_splits) (metis append_take_drop_id)
qed (auto split: if_splits)

function split_str :: "string \<Rightarrow> string \<Rightarrow> string list" where
  "split_str sep s = (if sep = [] then [s] else case split_once_str sep s of None \<Rightarrow> [s] | Some (a, b) \<Rightarrow> a # split_str sep b)"
  by auto
termination
  by (relation "measure (length \<circ> snd)") (auto dest: split_once_str_Some)

declare split_str.simps [simp del]

definition contains_str :: "string \<Rightarrow> string \<Rightarrow> bool" where
  "contains_str pat s \<longleftrightarrow> split_once_str pat s \<noteq> None"

fun join_str :: "string \<Rightarrow> string list \<Rightarrow> string" where
  "join_str sep [] = []"
| "join_str sep [s] = s"
| "join_str sep (s # t # ss) = s @ sep @ join_str sep (t # ss)"

lemma join_split_str: "sep \<noteq> [] \<Longrightarrow> join_str sep (split_str sep s) = s"
proof (induction sep s rule: split_str.induct)
  case (1 sep s)
  show ?case
  proof (cases "split_once_str sep s")
    case (Some ab)
    obtain a b where ab: "ab = (a, b)" by fastforce
    have "split_str sep b \<noteq> []" by (subst split_str.simps) (auto split: option.split)
    then obtain t ts where t: "split_str sep b = t # ts" by (cases "split_str sep b") auto
    have "join_str sep (t # ts) = b" using 1(1) [OF 1(2) Some ab [symmetric] 1(2)] t by simp
    then show ?thesis using 1(2) Some ab t split_once_str_Some [of sep s a b] by (subst split_str.simps) simp
  qed (use 1(2) in \<open>subst split_str.simps, simp\<close>)
qed

lemma split_once_str_free: "c \<notin> set a \<Longrightarrow> split_once_str (c # sep) (a @ (c # sep) @ b) = Some (a, b)"
  by (induction a) (auto simp: starts_with_def)

lemma split_once_str_absent: "c \<notin> set a \<Longrightarrow> split_once_str (c # sep) a = None"
  by (induction a) (auto simp: starts_with_def)

lemma split_join_str: "\<forall>s \<in> set ss. c \<notin> set s \<Longrightarrow> ss \<noteq> [] \<Longrightarrow> split_str (c # sep) (join_str (c # sep) ss) = ss"
proof (induction ss rule: induct_list012)
  case (2 s)
  then show ?case by (subst split_str.simps) (simp add: split_once_str_absent)
next
  case (3 s t ss)
  then show ?case using split_once_str_free [of c s sep] by (subst split_str.simps) simp
qed simp

text \<open>\<open>String::from_utf8\<close>: the well-formed byte sequences.\<close>

definition byte_between :: "nat \<Rightarrow> nat \<Rightarrow> char \<Rightarrow> bool" where
  "byte_between lo hi c \<longleftrightarrow> lo \<le> of_char c \<and> of_char c \<le> hi"

fun utf8_valid :: "string \<Rightarrow> bool" where
  "utf8_valid [] \<longleftrightarrow> True"
| "utf8_valid (a # s) \<longleftrightarrow>
     (if byte_between 0 127 a then utf8_valid s else
      case s of [] \<Rightarrow> False | b # s2 \<Rightarrow>
      if byte_between 194 223 a then byte_between 128 191 b \<and> utf8_valid s2 else
      case s2 of [] \<Rightarrow> False | c # s3 \<Rightarrow>
      if byte_between 224 239 a
      then byte_between (if of_char a = (224 :: nat) then 160 else 128) (if of_char a = (237 :: nat) then 159 else 191) b \<and>
        byte_between 128 191 c \<and> utf8_valid s3 else
      case s3 of [] \<Rightarrow> False | d # s4 \<Rightarrow>
      byte_between 240 244 a \<and>
        byte_between (if of_char a = (240 :: nat) then 144 else 128) (if of_char a = (244 :: nat) then 143 else 191) b \<and>
        byte_between 128 191 c \<and> byte_between 128 191 d \<and> utf8_valid s4)"

text \<open>\<open>str::parse::<u64>\<close>: an optional plus sign and at least one digit, in range.\<close>

definition parse_u64 :: "string \<Rightarrow> nat option" where
  "parse_u64 s = (
     let n = (case s of c # t \<Rightarrow> if c = CHR ''+'' then parse_magnitude t else parse_magnitude s | [] \<Rightarrow> None)
     in case n of None \<Rightarrow> None | Some v \<Rightarrow> if int v \<le> 2 ^ 64 - 1 then Some v else None)"

section \<open>The kinds of keys in a shared replica\<close>

datatype SharedReplicaKeyFamily = PostObjectKey | PostWithdrawalKey | LinkPreviewKey | MediaManifestKey | TimelineIndexKey
  | ThreadIndexKey | ReactionKey | EnvelopeKey | SessionKey | ChannelKey | MetaverseKey

definition ALL_FAMILIES :: "SharedReplicaKeyFamily list" where
  "ALL_FAMILIES = [PostObjectKey, PostWithdrawalKey, LinkPreviewKey, MediaManifestKey, TimelineIndexKey, ThreadIndexKey,
     ReactionKey, EnvelopeKey, SessionKey, ChannelKey, MetaverseKey]"

fun family_prefix :: "SharedReplicaKeyFamily \<Rightarrow> string" where
  "family_prefix PostObjectKey = ''objects/''"
| "family_prefix PostWithdrawalKey = ''withdrawals/''"
| "family_prefix LinkPreviewKey = ''link-previews/''"
| "family_prefix MediaManifestKey = ''manifests/media/''"
| "family_prefix TimelineIndexKey = ''indexes/timeline/''"
| "family_prefix ThreadIndexKey = ''indexes/thread/''"
| "family_prefix ReactionKey = ''reactions/''"
| "family_prefix EnvelopeKey = ''envelopes/''"
| "family_prefix SessionKey = ''sessions/''"
| "family_prefix ChannelKey = ''channels/''"
| "family_prefix MetaverseKey = ''metaverse/''"

definition family_parse :: "string \<Rightarrow> (SharedReplicaKeyFamily \<times> string) option" where
  "family_parse key = (case List.map_filter (\<lambda>family. map_option (Pair family) (strip_prefix (family_prefix family) key)) ALL_FAMILIES of
     [] \<Rightarrow> None | r # _ \<Rightarrow> Some r)"

section \<open>Time buckets\<close>

definition BUCKET_SECONDS_V1 :: u64 where
  "BUCKET_SECONDS_V1 = 86400"

definition MAX_SCOPE_BYTES :: nat where
  "MAX_SCOPE_BYTES = 1024"

definition MAX_REPLICA_BYTES :: nat where
  "MAX_REPLICA_BYTES = 4 * MAX_SCOPE_BYTES + 96"

definition PRIVATE_KEY_CONTEXT :: string where
  "PRIVATE_KEY_CONTEXT = ''kukuri.app docs bucket namespace v1'' @ [CHR 0x00]"

text \<open>A bucket is its index.\<close>

type_synonym TimeBucket = u64

definition from_index :: "u64 \<Rightarrow> TimeBucket result" where
  "from_index index = (if int index \<le> i64_max div int BUCKET_SECONDS_V1 then Inr index
     else bail ''bucket index exceeds the timestamp range'')"

definition from_unix_seconds :: "i64 \<Rightarrow> TimeBucket result" where
  "from_unix_seconds seconds = (if seconds < 0 then bail ''bucket timestamp must not be negative''
     else from_index (nat (seconds div int BUCKET_SECONDS_V1)))"

definition start_seconds :: "TimeBucket \<Rightarrow> u64" where
  "start_seconds b = b * BUCKET_SECONDS_V1"

definition end_seconds :: "TimeBucket \<Rightarrow> u64" where
  "end_seconds b = (b + 1) * BUCKET_SECONDS_V1"

definition previous_bucket :: "TimeBucket \<Rightarrow> TimeBucket option" where
  "previous_bucket b = (if b = 0 then None else Some (b - 1))"

definition live_window :: "TimeBucket \<Rightarrow> TimeBucket list" where
  "live_window b = List.map_filter (\<lambda>x. x) [Some b, previous_bucket b]"

definition bucket_contains :: "TimeBucket \<Rightarrow> i64 \<Rightarrow> bool" where
  "bucket_contains b unix_seconds \<longleftrightarrow> 0 \<le> unix_seconds \<and>
     int (start_seconds b) \<le> unix_seconds \<and> unix_seconds < int (end_seconds b)"

datatype BucketScope = TopicScope string | PrivateChannelScope string string | AuthorScope string

record BucketReplica =
  br_scope :: BucketScope
  br_bucket :: TimeBucket

text \<open>The third-party functions: \<open>hex\<close>, \<open>blake3\<close> (plain and keyed), and \<open>serde_json\<close> for a document value.\<close>

record 'j docs_lib =
  dl_hex_encode :: "string \<Rightarrow> string"
  dl_hex_decode :: "string \<Rightarrow> string option"
  dl_blake3 :: "string \<Rightarrow> string"
  dl_blake3_hex :: "string \<Rightarrow> string"
  dl_blake3_keyed :: "string \<Rightarrow> string \<Rightarrow> string"
  dl_json :: "'j \<Rightarrow> string option"

definition scope_part :: "string \<Rightarrow> unit result" where
  "scope_part value = (if value \<noteq> [] \<and> length value \<le> MAX_SCOPE_BYTES then Inr ()
     else bail ''bucket scope must contain 1..=1024 UTF-8 bytes'')"

fun validate_scope :: "BucketScope \<Rightarrow> unit result" where
  "validate_scope (TopicScope topic_id) = scope_part topic_id"
| "validate_scope (AuthorScope author_pubkey) = scope_part author_pubkey"
| "validate_scope (PrivateChannelScope channel_id epoch_id) = rbind (scope_part channel_id) (\<lambda>_. scope_part epoch_id)"

definition new_bucket_replica :: "BucketScope \<Rightarrow> TimeBucket \<Rightarrow> BucketReplica result" where
  "new_bucket_replica scope bucket = rbind (validate_scope scope) (\<lambda>_. Inr \<lparr>br_scope = scope, br_bucket = bucket\<rparr>)"

definition bucket_is_private :: "BucketReplica \<Rightarrow> bool" where
  "bucket_is_private b = (case br_scope b of PrivateChannelScope _ _ \<Rightarrow> True | _ \<Rightarrow> False)"

definition bucket_replica_id :: "'j docs_lib \<Rightarrow> BucketReplica \<Rightarrow> string" where
  "bucket_replica_id L b = (
     let scope = (case br_scope b of
         TopicScope topic_id \<Rightarrow> ''topic::'' @ dl_hex_encode L topic_id
       | AuthorScope author_pubkey \<Rightarrow> ''author::'' @ dl_hex_encode L author_pubkey
       | PrivateChannelScope channel_id epoch_id \<Rightarrow>
           ''channel::'' @ dl_hex_encode L channel_id @ ''::'' @ dl_hex_encode L epoch_id)
     in ''bucket::v1::'' @ scope @ ''::'' @ show_nat (br_bucket b))"

definition decode_scope :: "'j docs_lib \<Rightarrow> string \<Rightarrow> string result" where
  "decode_scope L value = (if value \<noteq> [] \<and> length value \<le> MAX_SCOPE_BYTES * 2 \<and> list_all lower_hex value
     then rbind (foreign ''hex'' (dl_hex_decode L value)) (\<lambda>bytes.
       foreign ''utf8'' (if utf8_valid bytes then Some bytes else None))
     else bail ''bucket scope is not canonical hexadecimal'')"

definition bucket_scope_of_parts :: "'j docs_lib \<Rightarrow> string list \<Rightarrow> (BucketScope \<times> string) result" where
  "bucket_scope_of_parts L parts = (case parts of
     [kind, scope, index] \<Rightarrow>
       if kind = ''topic'' then rbind (decode_scope L scope) (\<lambda>topic_id. Inr (TopicScope topic_id, index))
       else if kind = ''author'' then rbind (decode_scope L scope) (\<lambda>author_pubkey. Inr (AuthorScope author_pubkey, index))
       else bail ''invalid bucket replica shape''
   | [kind, channel, epoch, index] \<Rightarrow>
       if kind = ''channel'' then rbind (decode_scope L channel) (\<lambda>channel_id. rbind (decode_scope L epoch) (\<lambda>epoch_id.
         Inr (PrivateChannelScope channel_id epoch_id, index)))
       else bail ''invalid bucket replica shape''
   | _ \<Rightarrow> bail ''invalid bucket replica shape'')"

definition parse_bucket_replica :: "'j docs_lib \<Rightarrow> string \<Rightarrow> BucketReplica result" where
  "parse_bucket_replica L raw = (
     if length raw > MAX_REPLICA_BYTES then bail ''bucket replica id is too long'' else
     case strip_prefix ''bucket::v1::'' raw of
       None \<Rightarrow> bail ''unsupported bucket replica version''
     | Some rest \<Rightarrow>
       rbind (bucket_scope_of_parts L (split_str ''::'' rest)) (\<lambda>(scope, index).
       rbind (foreign ''parse'' (parse_u64 index)) (\<lambda>i.
       rbind (from_index i) (\<lambda>bucket.
       if index \<noteq> show_nat bucket then bail ''bucket index is not canonical'' else
       new_bucket_replica scope bucket))))"

definition derive_private_secret :: "'j docs_lib \<Rightarrow> BucketReplica \<Rightarrow> string \<Rightarrow> string result" where
  "derive_private_secret L b epoch_secret = (if \<not> bucket_is_private b then bail ''only private buckets derive epoch secrets''
     else Inr (dl_blake3_keyed L epoch_secret (PRIVATE_KEY_CONTEXT @ bucket_replica_id L b)))"

section \<open>Names of replicas\<close>

type_synonym ReplicaId = string

definition ACCOUNT_SYNC_REPLICA_PREFIX :: string where
  "ACCOUNT_SYNC_REPLICA_PREFIX = ''account::v1::''"

definition public_replica_secret :: "'j docs_lib \<Rightarrow> ReplicaId \<Rightarrow> string option" where
  "public_replica_secret L r = (
     if starts_with ''channel::'' r \<or> starts_with ACCOUNT_SYNC_REPLICA_PREFIX r then None
     else if starts_with ''bucket::'' r \<and>
       (case parse_bucket_replica L r of Inl _ \<Rightarrow> True | Inr bucket \<Rightarrow> bucket_is_private bucket) then None
     else Some (dl_blake3 L (''kukuri-docs:'' @ r)))"

definition topic_replica_id :: "string \<Rightarrow> ReplicaId" where
  "topic_replica_id topic_id = ''topic::'' @ topic_id"

definition private_channel_replica_id :: "string \<Rightarrow> ReplicaId" where
  "private_channel_replica_id channel_id = ''channel::'' @ channel_id"

definition private_channel_epoch_replica_id :: "string \<Rightarrow> string \<Rightarrow> ReplicaId" where
  "private_channel_epoch_replica_id channel_id epoch_id = ''channel::'' @ channel_id @ ''::epoch::'' @ epoch_id"

definition private_channel_replica_for_epoch :: "string \<Rightarrow> string \<Rightarrow> ReplicaId" where
  "private_channel_replica_for_epoch channel_id epoch_id = (if epoch_id = ''legacy'' then private_channel_replica_id channel_id
     else private_channel_epoch_replica_id channel_id epoch_id)"

datatype PostReplicaKind = PublicTopicReplica string | PrivateChannelReplica string

definition well_formed_part :: "string \<Rightarrow> bool" where
  "well_formed_part part \<longleftrightarrow> part \<noteq> [] \<and> \<not> contains_str ''::'' part"

definition post_replica_kind :: "'j docs_lib \<Rightarrow> ReplicaId \<Rightarrow> PostReplicaKind option" where
  "post_replica_kind L raw = (
     if starts_with ''bucket::'' raw then
       case parse_bucket_replica L raw of Inl _ \<Rightarrow> None | Inr b \<Rightarrow>
       (case br_scope b of TopicScope topic_id \<Rightarrow> Some (PublicTopicReplica topic_id)
        | PrivateChannelScope channel_id _ \<Rightarrow> Some (PrivateChannelReplica channel_id)
        | AuthorScope _ \<Rightarrow> None)
     else case strip_prefix ''topic::'' raw of
       Some topic_id \<Rightarrow> if topic_id \<noteq> [] then Some (PublicTopicReplica topic_id) else None
     | None \<Rightarrow>
     Option.bind (strip_prefix ''channel::'' raw) (\<lambda>rest.
     let (channel_id, epoch_id) = (case split_once_str ''::epoch::'' rest of
         Some (channel_id, epoch_id) \<Rightarrow> (channel_id, Some epoch_id) | None \<Rightarrow> (rest, None)) in
     if well_formed_part channel_id \<and> (case epoch_id of None \<Rightarrow> True | Some e \<Rightarrow> well_formed_part e)
     then Some (PrivateChannelReplica channel_id) else None))"

definition private_channel_epoch_of :: "'j docs_lib \<Rightarrow> ReplicaId \<Rightarrow> (string \<times> string) option" where
  "private_channel_epoch_of L raw = (
     if starts_with ''bucket::'' raw then
       case parse_bucket_replica L raw of Inl _ \<Rightarrow> None | Inr b \<Rightarrow>
       (case br_scope b of PrivateChannelScope channel_id epoch_id \<Rightarrow> Some (channel_id, epoch_id) | _ \<Rightarrow> None)
     else Option.bind (strip_prefix ''channel::'' raw) (\<lambda>rest.
     let (channel_id, epoch_id) = (case split_once_str ''::epoch::'' rest of
         Some p \<Rightarrow> p | None \<Rightarrow> (rest, ''legacy'')) in
     if well_formed_part channel_id \<and> well_formed_part epoch_id then Some (channel_id, epoch_id) else None))"

definition private_channel_hint_topic :: "string \<Rightarrow> string" where
  "private_channel_hint_topic channel_id = ''private/'' @ channel_id"

definition public_channel_hint_topic :: "string \<Rightarrow> string" where
  "public_channel_hint_topic channel_id = ''public-channel/'' @ channel_id"

definition author_replica_id :: "string \<Rightarrow> ReplicaId" where
  "author_replica_id author_pubkey = ''author::'' @ author_pubkey"

definition device_replica_id :: "string \<Rightarrow> string \<Rightarrow> ReplicaId" where
  "device_replica_id author_pubkey device_id = ''device::'' @ author_pubkey @ ''::'' @ device_id"

definition stable_key :: "string \<Rightarrow> string \<Rightarrow> string" where
  "stable_key pre key = pre @ ''/'' @ key"

definition value_hash :: "'j docs_lib \<Rightarrow> string \<Rightarrow> string" where
  "value_hash L value = dl_blake3_hex L value"

section \<open>Who may open a replica\<close>

definition ok_of :: "'a result \<Rightarrow> 'a option" where
  "ok_of r = (case r of Inr v \<Rightarrow> Some v | Inl _ \<Rightarrow> None)"

definition parse_namespace_secret_hex :: "'j docs_lib \<Rightarrow> string \<Rightarrow> string result" where
  "parse_namespace_secret_hex L value =
     rbind (with_context ''invalid namespace secret hex'' (foreign ''hex'' (dl_hex_decode L (trim value)))) (\<lambda>decoded.
     if length decoded = 32 then Inr decoded else bail ''namespace secret must be 32 bytes'')"

definition registered_private_secret :: "'j docs_lib \<Rightarrow> ReplicaId \<Rightarrow> (string, string) btree_map \<Rightarrow> string option" where
  "registered_private_secret L r secrets = (case bm_get secrets r of Some secret \<Rightarrow> Some secret | None \<Rightarrow>
     (case parse_bucket_replica L r of Inl _ \<Rightarrow> None | Inr bucket \<Rightarrow>
     (case br_scope bucket of
       PrivateChannelScope channel_id epoch_id \<Rightarrow>
         Option.bind (bm_get secrets (private_channel_replica_for_epoch channel_id epoch_id)) (\<lambda>epoch.
         ok_of (derive_private_secret L bucket epoch))
     | _ \<Rightarrow> None)))"

text \<open>The registered secrets, and the lookup of the secrets of an epoch when one is installed.\<close>

record PrivateSecrets =
  ps_registered :: "(string, string) btree_map"
  ps_epochs :: "(string \<Rightarrow> string \<Rightarrow> string option) option"

definition install_epoch_secrets :: "(string \<Rightarrow> string \<Rightarrow> string option) \<Rightarrow> PrivateSecrets \<Rightarrow> PrivateSecrets" where
  "install_epoch_secrets source p = p\<lparr>ps_epochs := Some source\<rparr>"

definition private_secret :: "'j docs_lib \<Rightarrow> PrivateSecrets \<Rightarrow> ReplicaId \<Rightarrow> string option" where
  "private_secret L p r = (case registered_private_secret L r (ps_registered p) of Some secret \<Rightarrow> Some secret | None \<Rightarrow>
     Option.bind (private_channel_epoch_of L r) (\<lambda>(channel_id, epoch_id).
     Option.bind (ps_epochs p) (\<lambda>source.
     Option.bind (source channel_id epoch_id) (\<lambda>text.
     Option.bind (ok_of (parse_namespace_secret_hex L text)) (\<lambda>epoch.
     if \<not> starts_with ''bucket::'' r then Some epoch else
     Option.bind (ok_of (parse_bucket_replica L r)) (\<lambda>bucket.
     ok_of (derive_private_secret L bucket epoch)))))))"

definition ensure_private_replica_access :: "'j docs_lib \<Rightarrow> ReplicaId \<Rightarrow> PrivateSecrets \<Rightarrow> unit result" where
  "ensure_private_replica_access L r secrets =
     rbind (if starts_with ''bucket::'' r then rbind (parse_bucket_replica L r) (\<lambda>_. Inr ()) else Inr ()) (\<lambda>_.
     if public_replica_secret L r \<noteq> None then Inr ()
     else if private_secret L secrets r \<noteq> None then Inr ()
     else bail ''private replica capability is not registered'')"

section \<open>Bucket names are canonical\<close>

text \<open>What the code relies on of \<open>hex\<close>: decoding undoes encoding, encoding writes two lower-case digits a byte, and lower-case digits are decoded to what encodes to them.\<close>

definition hex_canonical :: "'j docs_lib \<Rightarrow> bool" where
  "hex_canonical L \<longleftrightarrow>
     (\<forall>s. dl_hex_decode L (dl_hex_encode L s) = Some s \<and> length (dl_hex_encode L s) = 2 * length s \<and>
       list_all lower_hex (dl_hex_encode L s)) \<and>
     (\<forall>v s. list_all lower_hex v \<longrightarrow> dl_hex_decode L v = Some s \<longrightarrow> dl_hex_encode L s = v)"

fun scope_texts :: "BucketScope \<Rightarrow> string list" where
  "scope_texts (TopicScope t) = [t]"
| "scope_texts (AuthorScope a) = [a]"
| "scope_texts (PrivateChannelScope c e) = [c, e]"

definition bucket_replica_ok :: "BucketReplica \<Rightarrow> bool" where
  "bucket_replica_ok b \<longleftrightarrow> (\<forall>s \<in> set (scope_texts (br_scope b)). s \<noteq> [] \<and> length s \<le> 1024 \<and> utf8_valid s) \<and>
     int (br_bucket b) * 86400 \<le> i64_max"

lemma decode_scope_iff:
  assumes "hex_canonical L"
  shows "decode_scope L v = Inr s \<longleftrightarrow> v = dl_hex_encode L s \<and> s \<noteq> [] \<and> length s \<le> 1024 \<and> utf8_valid s"
proof -
  have enc: "dl_hex_decode L (dl_hex_encode L s) = Some s" "length (dl_hex_encode L s) = 2 * length s"
    "list_all lower_hex (dl_hex_encode L s)" for s using assms by (auto simp: hex_canonical_def)
  have dec: "dl_hex_encode L s = v" if "list_all lower_hex v" "dl_hex_decode L v = Some s" for v s
    using assms that by (auto simp: hex_canonical_def)
  have nil: "dl_hex_encode L s = [] \<longleftrightarrow> s = []" for s using enc(2) [of s] by (metis length_0_conv mult_is_0 zero_neq_numeral)
  show ?thesis using enc [of s] nil [of s]
    by (auto simp: decode_scope_def result_simps MAX_SCOPE_BYTES_def dest: dec split: if_splits)
qed

lemma scope_part_iff: "scope_part s = Inr () \<longleftrightarrow> s \<noteq> [] \<and> length s \<le> 1024"
  by (simp add: scope_part_def MAX_SCOPE_BYTES_def bail_def)

lemma validate_scope_iff: "validate_scope sc = Inr () \<longleftrightarrow> (\<forall>s \<in> set (scope_texts sc). s \<noteq> [] \<and> length s \<le> 1024)"
  by (cases sc) (auto simp: result_simps scope_part_iff)

lemma from_index_iff: "from_index i = Inr b \<longleftrightarrow> b = i \<and> int i * 86400 \<le> i64_max"
  by (auto simp: from_index_def BUCKET_SECONDS_V1_def bail_def)

lemma parse_u64_show_nat: "int n \<le> 2 ^ 64 - 1 \<Longrightarrow> parse_u64 (show_nat n) = Some n"
proof -
  obtain c t where ct: "show_nat n = c # t" by (meson list.exhaust show_nat_neq_Nil)
  have "ascii_digit c" using show_nat_digits [of n] ct by simp
  then have "c \<noteq> CHR ''+''" by auto
  moreover assume "int n \<le> 2 ^ 64 - 1"
  ultimately show ?thesis using ct parse_magnitude_show_nat [of n] by (simp add: parse_u64_def)
qed

text \<open>The parts of a name, and the name of the parts.\<close>

fun bucket_parts :: "'j docs_lib \<Rightarrow> BucketScope \<Rightarrow> string list" where
  "bucket_parts L (TopicScope t) = [''topic'', dl_hex_encode L t]"
| "bucket_parts L (AuthorScope a) = [''author'', dl_hex_encode L a]"
| "bucket_parts L (PrivateChannelScope c e) = [''channel'', dl_hex_encode L c, dl_hex_encode L e]"

lemma bucket_replica_id_join:
  "bucket_replica_id L b = ''bucket::v1::'' @ join_str ''::'' (bucket_parts L (br_scope b) @ [show_nat (br_bucket b)])"
  by (cases "br_scope b") (simp_all add: bucket_replica_id_def)

lemma bucket_scope_of_parts_iff:
  assumes "hex_canonical L"
  shows "bucket_scope_of_parts L parts = Inr (sc, index) \<longleftrightarrow>
    parts = bucket_parts L sc @ [index] \<and> (\<forall>s \<in> set (scope_texts sc). s \<noteq> [] \<and> length s \<le> 1024 \<and> utf8_valid s)"
  by (cases sc) (auto simp: bucket_scope_of_parts_def decode_scope_iff [OF assms] result_simps bail_def
    split: list.splits if_splits)

lemma bucket_parts_no_colon:
  assumes "hex_canonical L"
  shows "\<forall>s \<in> set (bucket_parts L sc @ [show_nat n]). CHR '':'' \<notin> set s"
proof -
  have "CHR '':'' \<notin> set (dl_hex_encode L s)" for s
  proof -
    have "list_all lower_hex (dl_hex_encode L s)" using assms by (simp add: hex_canonical_def)
    then show ?thesis by (auto simp: list_all_iff lower_hex_def ascii_digit_def)
  qed
  moreover have "CHR '':'' \<notin> set (show_nat n)" using show_nat_digits [of n] by (auto simp: list_all_iff ascii_digit_def)
  ultimately show ?thesis by (cases sc) auto
qed

lemma bucket_replica_id_length:
  assumes "hex_canonical L" "bucket_replica_ok b"
  shows "length (bucket_replica_id L b) \<le> MAX_REPLICA_BYTES"
proof -
  have enc: "length (dl_hex_encode L s) = 2 * length s" for s using assms by (simp add: hex_canonical_def)
  have "length (show_nat (br_bucket b)) \<le> 20"
    using assms(2) by (intro length_show_nat) (auto simp: bucket_replica_ok_def)
  then show ?thesis using assms(2)
    by (cases "br_scope b") (auto simp: bucket_replica_id_def bucket_replica_ok_def enc MAX_REPLICA_BYTES_def MAX_SCOPE_BYTES_def)
qed

lemma bucket_parse_iff:
  assumes "hex_canonical L"
  shows "parse_bucket_replica L r = Inr b \<longleftrightarrow> r = bucket_replica_id L b \<and> bucket_replica_ok b"
proof
  assume ok: "parse_bucket_replica L r = Inr b"
  then obtain rest where rest: "strip_prefix ''bucket::v1::'' r = Some rest"
    by (auto simp: parse_bucket_replica_def bail_def split: if_splits option.splits)
  obtain sc index i where p: "bucket_scope_of_parts L (split_str ''::'' rest) = Inr (sc, index)"
    "from_index i = Inr (br_bucket b)" "index = show_nat (br_bucket b)" "br_scope b = sc"
    using ok rest by (auto simp: parse_bucket_replica_def new_bucket_replica_def bail_def result_simps split: if_splits)
  have "rest = join_str ''::'' (bucket_parts L sc @ [index])"
    using p(1) join_split_str [of "''::''" rest] by (simp add: bucket_scope_of_parts_iff [OF assms])
  then have "r = bucket_replica_id L b" using rest p by (simp add: strip_prefix_Some bucket_replica_id_join)
  moreover have "bucket_replica_ok b"
    using p by (auto simp: bucket_replica_ok_def bucket_scope_of_parts_iff [OF assms] from_index_iff)
  ultimately show "r = bucket_replica_id L b \<and> bucket_replica_ok b" by simp
next
  assume b: "r = bucket_replica_id L b \<and> bucket_replica_ok b"
  let ?parts = "bucket_parts L (br_scope b) @ [show_nat (br_bucket b)]"
  have split: "split_str ''::'' (join_str ''::'' ?parts) = ?parts"
    using split_join_str [OF bucket_parts_no_colon [OF assms]] by simp
  have parts: "bucket_scope_of_parts L ?parts = Inr (br_scope b, show_nat (br_bucket b))"
    using b by (simp add: bucket_scope_of_parts_iff [OF assms] bucket_replica_ok_def)
  have strip: "strip_prefix ''bucket::v1::'' r = Some (join_str ''::'' ?parts)"
    using b by (simp add: bucket_replica_id_join strip_prefix_Some)
  have index: "parse_u64 (show_nat (br_bucket b)) = Some (br_bucket b)" "from_index (br_bucket b) = Inr (br_bucket b)"
    using b by (auto simp: from_index_iff bucket_replica_ok_def intro: parse_u64_show_nat)
  have "validate_scope (br_scope b) = Inr ()" using b by (simp add: validate_scope_iff bucket_replica_ok_def)
  then show "parse_bucket_replica L r = Inr b"
    using b bucket_replica_id_length [OF assms, of b] strip split parts index
    by (simp add: parse_bucket_replica_def new_bucket_replica_def)
qed

text \<open>
  C24. A replica id is read as a bucket exactly when it is the name of that bucket, whose scope has between one and 1024
  bytes of UTF-8 in each part and whose days fit an \<open>i64\<close> of seconds. So naming and reading are inverse, a bucket has one
  name and no other text is read as it.
\<close>

theorem bucket_names_canonical:
  assumes "hex_canonical L"
  shows "(parse_bucket_replica L r = Inr b \<longleftrightarrow> r = bucket_replica_id L b \<and> bucket_replica_ok b) \<and>
    (\<forall>b'. bucket_replica_ok b \<longrightarrow> bucket_replica_ok b' \<longrightarrow> bucket_replica_id L b = bucket_replica_id L b' \<longrightarrow> b = b')"
  using bucket_parse_iff [OF assms] by (metis sum.inject(2))

text \<open>Lower-case hexadecimal, for the samples.\<close>

definition hex_digits :: string where
  "hex_digits = ''0123456789abcdef''"

definition hex_value :: "char \<Rightarrow> nat option" where
  "hex_value = map_of (zip hex_digits [0..<16])"

definition hex_of :: "string \<Rightarrow> string" where
  "hex_of s = concat (map (\<lambda>c. [hex_digits ! (of_char c div 16), hex_digits ! (of_char c mod 16)]) s)"

fun unhex :: "string \<Rightarrow> string option" where
  "unhex [] = Some []"
| "unhex [_] = None"
| "unhex (a # b # s) = (case (hex_value a, hex_value b, unhex s) of
     (Some x, Some y, Some t) \<Rightarrow> Some (char_of (16 * x + y) # t) | _ \<Rightarrow> None)"

lemma hex_value_digit: "n < 16 \<Longrightarrow> hex_value (hex_digits ! n) = Some n"
  using map_of_zip_nth [of hex_digits "[0..<16]" n] by (simp add: hex_value_def hex_digits_def)

lemma hex_value_Some: "hex_value c = Some n \<Longrightarrow> n < 16 \<and> c = hex_digits ! n"
  by (auto simp: hex_value_def hex_digits_def upt_rec numeral_nat split: if_splits)

lemma lower_hex_digit: "n < 16 \<Longrightarrow> lower_hex (hex_digits ! n)"
proof -
  have "list_all lower_hex hex_digits" by (simp add: hex_digits_def lower_hex_def ascii_digit_def)
  moreover assume "n < 16"
  ultimately show ?thesis by (simp add: list_all_length hex_digits_def)
qed

lemma of_char_high: "(of_char c :: nat) div 16 < 16"
  using nat_of_char_less_256 [of c] by (simp add: less_mult_imp_div_less)

lemma unhex_hex_of: "unhex (hex_of s) = Some s"
proof (induction s)
  case (Cons c s)
  then show ?case by (simp add: hex_of_def hex_value_digit of_char_high)
qed (simp add: hex_of_def)

lemma hex_of_unhex: "unhex v = Some s \<Longrightarrow> hex_of s = v"
proof (induction v arbitrary: s rule: unhex.induct)
  case (3 a b v)
  then obtain x y t where xyt: "hex_value a = Some x" "hex_value b = Some y" "unhex v = Some t" "s = char_of (16 * x + y) # t"
    by (auto split: option.splits)
  have xy: "x < 16" "y < 16" "a = hex_digits ! x" "b = hex_digits ! y" using hex_value_Some xyt by auto
  then have "(of_char (char_of (16 * x + y) :: char) :: nat) = 16 * x + y" by (simp add: of_char_of)
  then show ?case using xyt xy 3 by (simp add: hex_of_def)
qed (auto simp: hex_of_def)

definition sample_docs :: "string docs_lib" where
  "sample_docs = \<lparr>dl_hex_encode = hex_of, dl_hex_decode = unhex, dl_blake3 = (\<lambda>s. s), dl_blake3_hex = hex_of,
     dl_blake3_keyed = (\<lambda>k s. k @ s), dl_json = Some\<rparr>"

lemma sample_docs_hex: "hex_canonical sample_docs"
proof -
  have "length (hex_of s) = 2 * length s \<and> list_all lower_hex (hex_of s)" for s
  proof (induction s)
    case (Cons c s)
    then show ?case by (simp add: hex_of_def lower_hex_digit of_char_high)
  qed (simp add: hex_of_def)
  then show ?thesis by (simp add: hex_canonical_def sample_docs_def unhex_hex_of hex_of_unhex)
qed

theorem bucket_names_canonical_witness:
  "hex_canonical sample_docs \<and>
   parse_bucket_replica sample_docs ''bucket::v1::channel::6331::6531::20000'' =
     Inr \<lparr>br_scope = PrivateChannelScope ''c1'' ''e1'', br_bucket = 20000\<rparr>"
proof -
  let ?b = "\<lparr>br_scope = PrivateChannelScope ''c1'' ''e1'', br_bucket = 20000\<rparr>"
  have "show_nat 20000 = ''20000''" by (simp add: show_nat_code digit_of_def)
  then have "''bucket::v1::channel::6331::6531::20000'' = bucket_replica_id sample_docs ?b"
    by (simp add: bucket_replica_id_def sample_docs_def hex_of_def hex_digits_def)
  moreover have "bucket_replica_ok ?b" by (simp add: bucket_replica_ok_def byte_between_def)
  ultimately show ?thesis using bucket_names_canonical [OF sample_docs_hex] sample_docs_hex by simp
qed

section \<open>The in-memory store\<close>

datatype 'j DocOp = SetJson string 'j | SetBytes string string | DeletePrefix string

datatype DocQuery = ExactKey string | KeyPrefix string | AllKeys

datatype DocKeyOrder = Ascending | Descending

record DocKeyQuery =
  kq_prefix :: string
  kq_order :: DocKeyOrder
  kq_limit :: nat

record DocKeyEntry =
  ke_key :: string
  ke_content_hash :: string
  ke_content_len :: u64
  ke_docs_author :: "string option"

record DocKeyPage =
  kp_entries :: "DocKeyEntry list"
  kp_reached_limit :: bool

record DocRecord =
  dr_key :: string
  dr_value :: string
  dr_content_hash :: string
  dr_content_len :: u64
  dr_docs_author :: "string option"

record DocEvent =
  de_replica_id :: ReplicaId
  de_key :: string
  de_content_hash :: string
  de_source_peer :: "string option"
  de_docs_author :: "string option"

datatype ReplicaNotice = EntryNotice DocEvent | SyncFinished | ContentReady | Lagged u64

text \<open>
  The rows of a replica are a \<open>HashMap\<close> the queries iterate over: the pairs of distinct keys in the order the table yields
  them, which is any order. The tables that are only looked up are sorted by key. The sender of a replica's notices is the
  list of what was sent.
\<close>

type_synonym ('k, 'v) hash_map = "('k \<times> 'v) list"

record MemoryDocsSync =
  md_records :: "(ReplicaId, (string, string) hash_map) btree_map"
  md_events :: "(ReplicaId, ReplicaNotice list) btree_map"
  md_private_replica_secrets :: PrivateSecrets
  md_docs_author :: "string option"

definition default_docs :: MemoryDocsSync where
  "default_docs = \<lparr>md_records = [], md_events = [], md_private_replica_secrets = \<lparr>ps_registered = [], ps_epochs = None\<rparr>,
     md_docs_author = None\<rparr>"

definition with_docs_author :: "string \<Rightarrow> MemoryDocsSync" where
  "with_docs_author docs_author = default_docs\<lparr>md_docs_author := Some docs_author\<rparr>"

definition has_local_replica :: "ReplicaId \<Rightarrow> (MemoryDocsSync, bool) host_op" where
  "has_local_replica r s = (Inr (bm_contains (md_records s) r), s)"

definition doc_record :: "'j docs_lib \<Rightarrow> MemoryDocsSync \<Rightarrow> string \<Rightarrow> string \<Rightarrow> DocRecord" where
  "doc_record L s key value = \<lparr>dr_key = key, dr_value = value, dr_content_hash = value_hash L value,
     dr_content_len = length value, dr_docs_author = md_docs_author s\<rparr>"

definition query_local_source ::
    "'j docs_lib \<Rightarrow> ReplicaId \<Rightarrow> string \<Rightarrow> string option \<Rightarrow> nat \<Rightarrow> (MemoryDocsSync, DocRecord list) host_op" where
  "query_local_source L r key author limit s = (
     if public_replica_secret L r = None then bail ''local source reader only accepts public replicas''
     else if limit = 0 \<or> (author \<noteq> None \<and> md_docs_author s \<noteq> author) then Inr []
     else Inr (case Option.bind (bm_get (md_records s) r) (\<lambda>records. map_of records key) of
       None \<Rightarrow> [] | Some value \<Rightarrow> [doc_record L s key value]), s)"

definition close_replica :: "ReplicaId \<Rightarrow> (MemoryDocsSync, unit) host_op" where
  "close_replica r s = (Inr (), s\<lparr>md_events := bm_remove r (md_events s)\<rparr>)"

definition bm_or_insert :: "'k::linorder \<Rightarrow> 'v \<Rightarrow> ('k, 'v) btree_map \<Rightarrow> ('k, 'v) btree_map" where
  "bm_or_insert k v m = (if bm_contains m k then m else bm_insert k v m)"

definition open_replica :: "'j docs_lib \<Rightarrow> ReplicaId \<Rightarrow> (MemoryDocsSync, unit) host_op" where
  "open_replica L r s = (case ensure_private_replica_access L r (md_private_replica_secrets s) of
     Inl e \<Rightarrow> (Inl e, s)
   | Inr _ \<Rightarrow> (Inr (), s\<lparr>md_records := bm_or_insert r [] (md_records s), md_events := bm_or_insert r [] (md_events s)\<rparr>))"

definition replica_rows :: "ReplicaId \<Rightarrow> MemoryDocsSync \<Rightarrow> (string, string) hash_map" where
  "replica_rows r s = (case bm_get (md_records s) r of None \<Rightarrow> [] | Some rows \<Rightarrow> rows)"

text \<open>\<open>replica.insert\<close> and the notice of it.\<close>

definition insert_row :: "'j docs_lib \<Rightarrow> ReplicaId \<Rightarrow> string \<Rightarrow> string \<Rightarrow> (MemoryDocsSync, unit) host_op" where
  "insert_row L r key bytes s = (
     let s = s\<lparr>md_records := bm_insert r (AList.update key bytes (replica_rows r s)) (md_records s)\<rparr> in
     case bm_get (md_events s) r of
       None \<Rightarrow> (bail ''missing events sender'', s)
     | Some sent \<Rightarrow> (Inr (), s\<lparr>md_events := bm_insert r (sent @ [EntryNotice \<lparr>de_replica_id = r, de_key = key,
         de_content_hash = value_hash L bytes, de_source_peer = None, de_docs_author = md_docs_author s\<rparr>]) (md_events s)\<rparr>))"

definition apply_doc_op :: "'j docs_lib \<Rightarrow> ReplicaId \<Rightarrow> 'j DocOp \<Rightarrow> (MemoryDocsSync, unit) host_op" where
  "apply_doc_op L r doc_op = mbind (open_replica L r) (\<lambda>_. case doc_op of
     SetJson key value \<Rightarrow> mbind (mlift (foreign ''serde_json'' (dl_json L value))) (insert_row L r key)
   | SetBytes key value \<Rightarrow> insert_row L r key value
   | DeletePrefix p \<Rightarrow> mmod (\<lambda>s. s\<lparr>md_records :=
       bm_insert r (filter (\<lambda>(key, _). \<not> starts_with p key) (replica_rows r s)) (md_records s)\<rparr>))"

definition matches_query :: "DocQuery \<Rightarrow> string \<Rightarrow> bool" where
  "matches_query query key = (case query of ExactKey exact \<Rightarrow> key = exact | KeyPrefix p \<Rightarrow> starts_with p key | AllKeys \<Rightarrow> True)"

definition query_replica_with_policy :: "'j docs_lib \<Rightarrow> ReplicaId \<Rightarrow> DocQuery \<Rightarrow> (MemoryDocsSync, DocRecord list) host_op" where
  "query_replica_with_policy L r query = mbind (open_replica L r) (\<lambda>_. mget (\<lambda>s.
     sort_key dr_key (map (\<lambda>(key, value). doc_record L s key value)
       (filter (\<lambda>(key, _). matches_query query key) (replica_rows r s)))))"

definition query_replica_exact_bounded ::
    "'j docs_lib \<Rightarrow> ReplicaId \<Rightarrow> string \<Rightarrow> nat \<Rightarrow> (MemoryDocsSync, DocRecord list) host_op" where
  "query_replica_exact_bounded L r key limit = mbind (query_replica_with_policy L r (ExactKey key)) (\<lambda>records.
     mlift (Inr (take limit records)))"

text \<open>A stable sort by the reversed comparison.\<close>

definition sort_key_desc :: "('a \<Rightarrow> 'b::linorder) \<Rightarrow> 'a list \<Rightarrow> 'a list" where
  "sort_key_desc f xs = rev (sort_key f (rev xs))"

definition key_entry :: "'j docs_lib \<Rightarrow> string option \<Rightarrow> string \<times> string \<Rightarrow> DocKeyEntry" where
  "key_entry L docs_author = (\<lambda>(key, value). \<lparr>ke_key = key, ke_content_hash = value_hash L value,
     ke_content_len = length value, ke_docs_author = docs_author\<rparr>)"

definition query_replica_keys :: "'j docs_lib \<Rightarrow> ReplicaId \<Rightarrow> DocKeyQuery \<Rightarrow> (MemoryDocsSync, DocKeyPage) host_op" where
  "query_replica_keys L r query = mbind (open_replica L r) (\<lambda>_. mget (\<lambda>s.
     let rows = map (key_entry L (md_docs_author s)) (filter (\<lambda>(key, _). starts_with (kq_prefix query) key) (replica_rows r s));
         rows = (case kq_order query of Ascending \<Rightarrow> sort_key ke_key rows | Descending \<Rightarrow> sort_key_desc ke_key rows)
     in \<lparr>kp_entries = take (kq_limit query) rows, kp_reached_limit = (0 < kq_limit query \<and> kq_limit query \<le> length rows)\<rparr>))"

definition query_replica_keys_by_author ::
    "'j docs_lib \<Rightarrow> ReplicaId \<Rightarrow> string \<Rightarrow> DocKeyQuery \<Rightarrow> (MemoryDocsSync, DocKeyPage) host_op" where
  "query_replica_keys_by_author L r docs_author query s = (
     if md_docs_author s \<noteq> Some docs_author
     then mbind (open_replica L r) (\<lambda>_. mlift (Inr \<lparr>kp_entries = [], kp_reached_limit = False\<rparr>)) s
     else query_replica_keys L r query s)"

definition local_docs_author :: "(MemoryDocsSync, string option) host_op" where
  "local_docs_author = mget md_docs_author"

definition query_replica_by_author ::
    "'j docs_lib \<Rightarrow> ReplicaId \<Rightarrow> string \<Rightarrow> string \<Rightarrow> (MemoryDocsSync, DocRecord option) host_op" where
  "query_replica_by_author L r docs_author key s = (
     if md_docs_author s \<noteq> Some docs_author then (Inr None, s)
     else mbind (query_replica_with_policy L r (ExactKey key)) (\<lambda>records.
       mlift (Inr (case records of [] \<Rightarrow> None | x # _ \<Rightarrow> Some x))) s)"

text \<open>A subscription starts after what was sent: it is the number of notices it skips.\<close>

definition subscribe_replica_notices :: "'j docs_lib \<Rightarrow> ReplicaId \<Rightarrow> (MemoryDocsSync, nat) host_op" where
  "subscribe_replica_notices L r = mbind (open_replica L r) (\<lambda>_ s.
     (rbind (ok_or ''missing replica events'' (bm_get (md_events s) r)) (\<lambda>sent. Inr (length sent)), s))"

definition register_private_replica_secret :: "'j docs_lib \<Rightarrow> ReplicaId \<Rightarrow> string \<Rightarrow> (MemoryDocsSync, unit) host_op" where
  "register_private_replica_secret L r namespace_secret_hex =
     mbind (mlift (parse_namespace_secret_hex L namespace_secret_hex)) (\<lambda>secret.
     mmod (\<lambda>s. s\<lparr>md_private_replica_secrets := (md_private_replica_secrets s)
       \<lparr>ps_registered := bm_insert r secret (ps_registered (md_private_replica_secrets s))\<rparr>\<rparr>))"

definition remove_private_replica_secret :: "ReplicaId \<Rightarrow> (MemoryDocsSync, unit) host_op" where
  "remove_private_replica_secret r = mmod (\<lambda>s. s\<lparr>md_private_replica_secrets := (md_private_replica_secrets s)
     \<lparr>ps_registered := bm_remove r (ps_registered (md_private_replica_secrets s))\<rparr>\<rparr>)"

definition install_private_epoch_secrets :: "(string \<Rightarrow> string \<Rightarrow> string option) \<Rightarrow> (MemoryDocsSync, unit) host_op" where
  "install_private_epoch_secrets source = mmod (\<lambda>s. s\<lparr>md_private_replica_secrets :=
     install_epoch_secrets source (md_private_replica_secrets s)\<rparr>)"

definition import_peer_ticket :: "string \<Rightarrow> (MemoryDocsSync, unit) host_op" where
  "import_peer_ticket ticket = mlift (Inr ())"

section \<open>Access to private buckets\<close>

lemma parse_bucket_replica_id: "hex_canonical L \<Longrightarrow> bucket_replica_ok b \<Longrightarrow> parse_bucket_replica L (bucket_replica_id L b) = Inr b"
  by (simp add: bucket_parse_iff)

lemma bucket_id_prefix: "starts_with ''bucket::'' (bucket_replica_id L b)" "\<not> starts_with ''channel::'' (bucket_replica_id L b)"
    "\<not> starts_with ACCOUNT_SYNC_REPLICA_PREFIX (bucket_replica_id L b)"
  by (simp_all add: bucket_replica_id_def starts_with_def ACCOUNT_SYNC_REPLICA_PREFIX_def)

lemma public_bucket_secret:
  assumes "hex_canonical L" "bucket_replica_ok b"
  shows "public_replica_secret L (bucket_replica_id L b) = None \<longleftrightarrow> bucket_is_private b"
  using parse_bucket_replica_id [OF assms] bucket_id_prefix [of L b] by (simp add: public_replica_secret_def)

definition epoch_secret_known :: "'j docs_lib \<Rightarrow> PrivateSecrets \<Rightarrow> string \<Rightarrow> string \<Rightarrow> bool" where
  "epoch_secret_known L p c e \<longleftrightarrow> bm_get (ps_registered p) (private_channel_replica_for_epoch c e) \<noteq> None \<or>
     (\<exists>source text secret. ps_epochs p = Some source \<and> source c e = Some text \<and> parse_namespace_secret_hex L text = Inr secret)"

lemma private_secret_bucket:
  assumes "hex_canonical L" "bucket_replica_ok b" "br_scope b = PrivateChannelScope c e"
  shows "private_secret L p (bucket_replica_id L b) \<noteq> None \<longleftrightarrow>
    bm_get (ps_registered p) (bucket_replica_id L b) \<noteq> None \<or> epoch_secret_known L p c e"
proof -
  have derived: "ok_of (derive_private_secret L b k) =
      Some (dl_blake3_keyed L k (PRIVATE_KEY_CONTEXT @ bucket_replica_id L b))" for k
    using assms(3) by (simp add: derive_private_secret_def bucket_is_private_def ok_of_def)
  have form: "private_secret L p (bucket_replica_id L b) = (case bm_get (ps_registered p) (bucket_replica_id L b) of Some k \<Rightarrow> Some k
    | None \<Rightarrow> (case bm_get (ps_registered p) (private_channel_replica_for_epoch c e) of
        Some k \<Rightarrow> Some (dl_blake3_keyed L k (PRIVATE_KEY_CONTEXT @ bucket_replica_id L b))
      | None \<Rightarrow> Option.bind (ps_epochs p) (\<lambda>source. Option.bind (source c e) (\<lambda>text.
          Option.bind (ok_of (parse_namespace_secret_hex L text)) (\<lambda>k.
          Some (dl_blake3_keyed L k (PRIVATE_KEY_CONTEXT @ bucket_replica_id L b)))))))"
    using parse_bucket_replica_id [OF assms(1,2)] bucket_id_prefix(1) [of L b] assms(3)
    by (simp add: derived private_secret_def registered_private_secret_def private_channel_epoch_of_def ok_of_def [of "Inr b"]
      split: option.split)
  moreover have "ok_of x = Some y \<longleftrightarrow> x = Inr y" for x and y :: string by (simp add: ok_of_def split: sum.split)
  ultimately show ?thesis unfolding form epoch_secret_known_def
    by (auto simp: bind_eq_Some_conv split: option.split)
qed

lemma open_replica_iff: "fst (open_replica L r s) = Inr () \<longleftrightarrow>
    ensure_private_replica_access L r (md_private_replica_secrets s) = Inr ()"
  by (auto simp: open_replica_def split: sum.splits)

text \<open>The epoch's secret through the installed lookup alone.\<close>

definition epoch_secret_installed :: "'j docs_lib \<Rightarrow> PrivateSecrets \<Rightarrow> string \<Rightarrow> string \<Rightarrow> bool" where
  "epoch_secret_installed L p c e \<longleftrightarrow>
     (\<exists>source text secret. ps_epochs p = Some source \<and> source c e = Some text \<and> parse_namespace_secret_hex L text = Inr secret)"

text \<open>
  C16. A bucket of a private channel can be opened exactly by who holds the secret of the bucket or of the channel's epoch,
  in the registry or through the installed lookup; every other bucket can be opened by anyone. A refused opening changes
  nothing. Removing the registered secret of an epoch takes away that source only: afterwards a bucket of the epoch opens
  exactly when its own secret is registered or the installed lookup still answers with a secret of the epoch, so the
  buckets of the epoch are closed when neither is the case.
\<close>

theorem private_bucket_access:
  assumes "hex_canonical L" "bucket_replica_ok b"
  shows "(fst (open_replica L (bucket_replica_id L b) s) = Inr () \<longleftrightarrow>
      (\<forall>c e. br_scope b = PrivateChannelScope c e \<longrightarrow>
        bm_get (ps_registered (md_private_replica_secrets s)) (bucket_replica_id L b) \<noteq> None \<or>
        bm_get (ps_registered (md_private_replica_secrets s)) (private_channel_replica_for_epoch c e) \<noteq> None \<or>
        epoch_secret_installed L (md_private_replica_secrets s) c e)) \<and>
    (fst (open_replica L (bucket_replica_id L b) s) \<noteq> Inr () \<longrightarrow> snd (open_replica L (bucket_replica_id L b) s) = s) \<and>
    (\<forall>c e. br_scope b = PrivateChannelScope c e \<longrightarrow>
       (\<exists>t. remove_private_replica_secret (private_channel_replica_for_epoch c e) s = (Inr (), t) \<and>
         (fst (open_replica L (bucket_replica_id L b) t) = Inr () \<longleftrightarrow>
           bm_get (ps_registered (md_private_replica_secrets s)) (bucket_replica_id L b) \<noteq> None \<or>
           epoch_secret_installed L (md_private_replica_secrets s) c e)))"
proof -
  have opened: "fst (open_replica L (bucket_replica_id L b) s) = Inr () \<longleftrightarrow>
      (\<forall>c e. br_scope b = PrivateChannelScope c e \<longrightarrow>
        bm_get (ps_registered (md_private_replica_secrets s)) (bucket_replica_id L b) \<noteq> None \<or>
        bm_get (ps_registered (md_private_replica_secrets s)) (private_channel_replica_for_epoch c e) \<noteq> None \<or>
        epoch_secret_installed L (md_private_replica_secrets s) c e)" for s
  proof (cases "bucket_is_private b")
    case True
    then obtain c e where ce: "br_scope b = PrivateChannelScope c e" by (auto simp: bucket_is_private_def split: BucketScope.splits)
    then show ?thesis using private_secret_bucket [OF assms ce] True public_bucket_secret [OF assms]
      by (simp add: open_replica_iff ensure_private_replica_access_def parse_bucket_replica_id [OF assms] bail_def
          epoch_secret_known_def epoch_secret_installed_def)
  next
    case False
    then have "br_scope b \<noteq> PrivateChannelScope c e" for c e by (auto simp: bucket_is_private_def)
    then show ?thesis using False public_bucket_secret [OF assms]
      by (simp add: open_replica_iff ensure_private_replica_access_def parse_bucket_replica_id [OF assms])
  qed
  have refused: "fst (open_replica L r s) \<noteq> Inr () \<longrightarrow> snd (open_replica L r s) = s" for r
    by (auto simp: open_replica_def split: sum.splits)
  have removed: "\<exists>t. remove_private_replica_secret (private_channel_replica_for_epoch c e) s = (Inr (), t) \<and>
      (fst (open_replica L (bucket_replica_id L b) t) = Inr () \<longleftrightarrow>
        bm_get (ps_registered (md_private_replica_secrets s)) (bucket_replica_id L b) \<noteq> None \<or>
        epoch_secret_installed L (md_private_replica_secrets s) c e)"
    if "br_scope b = PrivateChannelScope c e" for c e
  proof -
    have "starts_with ''channel::'' (private_channel_replica_for_epoch c e)"
      by (simp add: private_channel_replica_for_epoch_def private_channel_replica_id_def private_channel_epoch_replica_id_def
          starts_with_def)
    then have "bucket_replica_id L b \<noteq> private_channel_replica_for_epoch c e" using bucket_id_prefix(2) [of L b] by auto
    then show ?thesis unfolding opened using that
      by (simp add: remove_private_replica_secret_def mmod_def epoch_secret_installed_def)
  qed
  show ?thesis using opened [of s] refused removed by blast
qed

text \<open>
  A channel with a registered epoch: its bucket opens; once the epoch is removed it no longer does, unless the installed
  lookup still knows the epoch.
\<close>

definition sample_bucket :: BucketReplica where
  "sample_bucket = \<lparr>br_scope = PrivateChannelScope ''c1'' ''e1'', br_bucket = 7\<rparr>"

definition member_docs :: MemoryDocsSync where
  "member_docs = default_docs\<lparr>md_private_replica_secrets := \<lparr>ps_registered = [(''channel::c1::epoch::e1'', replicate 32 (CHR ''k''))],
     ps_epochs = None\<rparr>\<rparr>"

definition installed_docs :: MemoryDocsSync where
  "installed_docs = snd (install_private_epoch_secrets (\<lambda>_ _. Some (hex_of (replicate 32 (CHR ''k'')))) member_docs)"

theorem private_bucket_access_witness:
  "hex_canonical sample_docs \<and> bucket_replica_ok sample_bucket \<and>
   fst (open_replica sample_docs (bucket_replica_id sample_docs sample_bucket) member_docs) = Inr () \<and>
   fst (open_replica sample_docs (bucket_replica_id sample_docs sample_bucket)
     (snd (remove_private_replica_secret ''channel::c1::epoch::e1'' member_docs))) \<noteq> Inr () \<and>
   fst (open_replica sample_docs (bucket_replica_id sample_docs sample_bucket)
     (snd (remove_private_replica_secret ''channel::c1::epoch::e1'' installed_docs))) = Inr () \<and>
   fst (open_replica sample_docs (bucket_replica_id sample_docs sample_bucket) default_docs) \<noteq> Inr ()"
proof -
  have ok: "bucket_replica_ok sample_bucket" by (simp add: bucket_replica_ok_def sample_bucket_def byte_between_def)
  have name: "private_channel_replica_for_epoch ''c1'' ''e1'' = ''channel::c1::epoch::e1''"
    by (simp add: private_channel_replica_for_epoch_def private_channel_epoch_replica_id_def)
  have other: "bm_get (ps_registered (md_private_replica_secrets s)) (bucket_replica_id sample_docs sample_bucket) = None"
    if "s = member_docs \<or> s = default_docs" for s
    using that by (auto simp: member_docs_def default_docs_def bm_get_def bucket_replica_id_def sample_bucket_def)
  have "trim (hex_of (replicate 32 (CHR ''k''))) = hex_of (replicate 32 (CHR ''k''))"
    by code_simp
  then have "parse_namespace_secret_hex sample_docs (hex_of (replicate 32 (CHR ''k''))) = Inr (replicate 32 (CHR ''k''))"
    by (simp add: parse_namespace_secret_hex_def sample_docs_def unhex_hex_of)
  then have installed: "epoch_secret_installed sample_docs (md_private_replica_secrets installed_docs) ''c1'' ''e1''"
    by (simp add: epoch_secret_installed_def installed_docs_def install_private_epoch_secrets_def install_epoch_secrets_def
        mmod_def)
  have known: "bm_get (ps_registered (md_private_replica_secrets member_docs)) ''channel::c1::epoch::e1'' \<noteq> None"
    "bm_get (ps_registered (md_private_replica_secrets default_docs)) ''channel::c1::epoch::e1'' = None"
    "\<not> epoch_secret_installed sample_docs (md_private_replica_secrets member_docs) ''c1'' ''e1''"
    "\<not> epoch_secret_installed sample_docs (md_private_replica_secrets default_docs) ''c1'' ''e1''"
    by (simp_all add: epoch_secret_installed_def member_docs_def default_docs_def bm_get_def)
  have scope: "br_scope sample_bucket = PrivateChannelScope ''c1'' ''e1''" by (simp add: sample_bucket_def)
  note access = private_bucket_access [OF sample_docs_hex ok]
  note removed = access [THEN conjunct2, THEN conjunct2, rule_format, OF scope, unfolded name]
  have "fst (open_replica sample_docs (bucket_replica_id sample_docs sample_bucket)
     (snd (remove_private_replica_secret ''channel::c1::epoch::e1'' member_docs))) \<noteq> Inr ()"
    using removed [of member_docs] other [of member_docs] known by auto
  moreover have "fst (open_replica sample_docs (bucket_replica_id sample_docs sample_bucket)
     (snd (remove_private_replica_secret ''channel::c1::epoch::e1'' installed_docs))) = Inr ()"
    using removed [of installed_docs] installed by auto
  ultimately show ?thesis
    using access [of member_docs, THEN conjunct1] access [of default_docs, THEN conjunct1] other known ok sample_docs_hex scope
    by (simp add: name)
qed

section \<open>The store as a map\<close>

definition docs_ok :: "MemoryDocsSync \<Rightarrow> bool" where
  "docs_ok s \<longleftrightarrow> (\<forall>r. distinct (map fst (replica_rows r s)))"

definition content :: "ReplicaId \<Rightarrow> MemoryDocsSync \<Rightarrow> string \<Rightarrow> string option" where
  "content r s = map_of (replica_rows r s)"

definition may_open :: "'j docs_lib \<Rightarrow> ReplicaId \<Rightarrow> MemoryDocsSync \<Rightarrow> bool" where
  "may_open L r s \<longleftrightarrow> ensure_private_replica_access L r (md_private_replica_secrets s) = Inr ()"

lemma bm_get_or_insert: "bm_get (bm_or_insert k v m) q = (if q = k then (case bm_get m k of None \<Rightarrow> Some v | Some w \<Rightarrow> Some w) else bm_get m q)"
  by (auto simp: bm_or_insert_def bm_contains_def)

definition opened :: "ReplicaId \<Rightarrow> MemoryDocsSync \<Rightarrow> MemoryDocsSync" where
  "opened r s = s\<lparr>md_records := bm_or_insert r [] (md_records s), md_events := bm_or_insert r [] (md_events s)\<rparr>"

lemma open_replica_opened: "may_open L r s \<Longrightarrow> open_replica L r s = (Inr (), opened r s)"
  by (simp add: open_replica_def may_open_def opened_def)

lemma opened_simps [simp]:
  "replica_rows q (opened r s) = replica_rows q s"
  "md_private_replica_secrets (opened r s) = md_private_replica_secrets s"
  "md_docs_author (opened r s) = md_docs_author s"
  "may_open L q (opened r s) = may_open L q s"
  "docs_ok (opened r s) = docs_ok s"
proof -
  show rows: "replica_rows q (opened r s) = replica_rows q s" for q
    by (simp add: replica_rows_def opened_def bm_get_or_insert split: option.split)
  show "docs_ok (opened r s) = docs_ok s" by (simp add: docs_ok_def rows)
qed (simp_all add: opened_def may_open_def)

lemma opened_events: "bm_get (md_events (opened r s)) q =
    (if q = r then Some (case bm_get (md_events s) r of None \<Rightarrow> [] | Some sent \<Rightarrow> sent) else bm_get (md_events s) q)"
  by (simp add: opened_def bm_get_or_insert split: option.split)

text \<open>What an operation does to the content of a replica, and the value it announces.\<close>

fun doc_effect :: "'j docs_lib \<Rightarrow> 'j DocOp \<Rightarrow> (string \<Rightarrow> string option) \<Rightarrow> (string \<Rightarrow> string option) option" where
  "doc_effect L (SetJson key value) m = map_option (\<lambda>bytes. m(key \<mapsto> bytes)) (dl_json L value)"
| "doc_effect L (SetBytes key value) m = Some (m(key \<mapsto> value))"
| "doc_effect L (DeletePrefix p) m = Some (\<lambda>key. if starts_with p key then None else m key)"

lemma replica_rows_update [simp]:
  "replica_rows q (s\<lparr>md_records := bm_insert r rows (md_records s)\<rparr>) = (if q = r then rows else replica_rows q s)"
  by (simp add: replica_rows_def)

lemma replica_rows_events [simp]: "replica_rows q (s\<lparr>md_events := e\<rparr>) = replica_rows q s"
  by (simp add: replica_rows_def)

definition written :: "'j docs_lib \<Rightarrow> ReplicaId \<Rightarrow> string \<Rightarrow> string \<Rightarrow> MemoryDocsSync \<Rightarrow> MemoryDocsSync" where
  "written L r key bytes s = s\<lparr>md_records := bm_insert r (AList.update key bytes (replica_rows r s)) (md_records s),
     md_events := bm_insert r ((case bm_get (md_events s) r of None \<Rightarrow> [] | Some sent \<Rightarrow> sent) @ [EntryNotice \<lparr>de_replica_id = r, de_key = key,
       de_content_hash = value_hash L bytes, de_source_peer = None, de_docs_author = md_docs_author s\<rparr>]) (md_events s)\<rparr>"

lemma insert_row_written: "insert_row L r key bytes (opened r s) = (Inr (), written L r key bytes (opened r s))"
  using opened_events [of r s r] by (simp add: insert_row_def written_def)

lemma written_simps [simp]:
  "replica_rows q (written L r key bytes s) = (if q = r then AList.update key bytes (replica_rows r s) else replica_rows q s)"
  "md_private_replica_secrets (written L r key bytes s) = md_private_replica_secrets s"
  "md_docs_author (written L r key bytes s) = md_docs_author s"
  "docs_ok s \<Longrightarrow> docs_ok (written L r key bytes s)"
  "may_open L q (written L r key bytes s) = may_open L q s"
proof -
  show rows: "replica_rows q (written L r key bytes s) = (if q = r then AList.update key bytes (replica_rows r s) else replica_rows q s)" for q
    by (simp add: replica_rows_def written_def)
  show "docs_ok s \<Longrightarrow> docs_ok (written L r key bytes s)" by (simp add: docs_ok_def rows distinct_update)
qed (simp_all add: written_def may_open_def)

definition swept :: "ReplicaId \<Rightarrow> string \<Rightarrow> MemoryDocsSync \<Rightarrow> MemoryDocsSync" where
  "swept r p s = s\<lparr>md_records := bm_insert r (filter (\<lambda>(key, _). \<not> starts_with p key) (replica_rows r s)) (md_records s)\<rparr>"

lemma apply_doc_op_form:
  assumes "may_open L r s"
  shows "apply_doc_op L r (SetBytes key value) s = (Inr (), written L r key value (opened r s))"
    "apply_doc_op L r (SetJson key j) s = (case dl_json L j of
       None \<Rightarrow> (Inl (Foreign ''serde_json''), opened r s) | Some bytes \<Rightarrow> (Inr (), written L r key bytes (opened r s)))"
    "apply_doc_op L r (DeletePrefix p) s = (Inr (), swept r p (opened r s))"
  using open_replica_opened [OF assms]
  by (simp_all add: apply_doc_op_def mbind_def mlift_def mmod_def insert_row_written swept_def split: option.split)

lemma content_written: "docs_ok s \<Longrightarrow> content q (written L r key bytes s) = (if q = r then (content r s)(key \<mapsto> bytes) else content q s)"
  by (simp add: content_def update_conv')

lemma map_of_filter_keys:
  "distinct (map fst xs) \<Longrightarrow> map_of (filter (\<lambda>(k, _). P k) xs) q = (if P q then map_of xs q else None)"
  by (induction xs) (auto simp: map_of_eq_None_iff)

lemma distinct_keys_filter: "distinct (map fst xs) \<Longrightarrow> distinct (map fst (filter P xs))"
  by (induction xs) auto

lemma content_swept: "docs_ok s \<Longrightarrow> content q (swept r p s) = (if q = r then \<lambda>key. if starts_with p key then None else content r s key else content q s)"
  by (auto simp: content_def swept_def map_of_filter_keys docs_ok_def fun_eq_iff)

lemma docs_ok_swept: "docs_ok s \<Longrightarrow> docs_ok (swept r p s)"
  by (simp add: docs_ok_def swept_def distinct_keys_filter)

text \<open>The rows a query returns: the records of the matching keys, put in the order of the keys.\<close>

lemma sort_key_map: "sort_key f (map g xs) = map g (sort_key (f \<circ> g) xs)"
proof -
  have "insort_key f (g x) (map g ys) = map g (insort_key (f \<circ> g) x ys)" for x ys by (induction ys) auto
  then show ?thesis by (induction xs) auto
qed

lemma query_replica_rows:
  assumes "may_open L r s"
  shows "query_replica_with_policy L r q s = (Inr (map (\<lambda>(key, value). doc_record L s key value)
    (sort_key fst (filter (\<lambda>(key, _). matches_query q key) (replica_rows r s)))), opened r s)"
proof -
  have "dr_key \<circ> (\<lambda>(key, value). doc_record L s key value) = fst" by (auto simp: doc_record_def)
  then show ?thesis using open_replica_opened [OF assms]
    by (simp add: query_replica_with_policy_def mbind_def mget_def sort_key_map doc_record_def)
qed

text \<open>The same store, with its tables yielding their rows in another order.\<close>

definition reordered :: "MemoryDocsSync \<Rightarrow> MemoryDocsSync \<Rightarrow> bool" where
  "reordered s t \<longleftrightarrow> (\<forall>q. mset (replica_rows q t) = mset (replica_rows q s)) \<and>
     md_private_replica_secrets t = md_private_replica_secrets s \<and> md_docs_author t = md_docs_author s"

lemma mset_keys_distinct: "mset xs = mset ys \<Longrightarrow> distinct (map fst xs) \<longleftrightarrow> distinct (map fst ys)"
  by (metis mset_eq_imp_distinct_iff mset_map)

lemma map_of_mset: "mset xs = mset ys \<Longrightarrow> distinct (map fst xs) \<Longrightarrow> map_of xs = map_of ys"
  by (metis map_of_inject_set mset_eq_setD mset_keys_distinct)

lemma reordered_store:
  assumes "reordered s t" "docs_ok s"
  shows "docs_ok t" "content q t = content q s" "may_open L q t = may_open L q s"
proof -
  have rows: "mset (replica_rows q s) = mset (replica_rows q t)" "distinct (map fst (replica_rows q s))" for q
    using assms by (simp_all add: reordered_def docs_ok_def)
  show "docs_ok t" using mset_keys_distinct [OF rows(1)] rows(2) by (simp add: docs_ok_def)
  show "content q t = content q s" using map_of_mset [OF rows] by (simp add: content_def)
  show "may_open L q t = may_open L q s" using assms(1) by (simp add: reordered_def may_open_def)
qed

lemma may_open_swept [simp]: "may_open L q (swept r p s) = may_open L q s"
  by (simp add: may_open_def swept_def)

lemma content_opened [simp]: "content q (opened r s) = content q s"
  by (simp add: content_def)

lemma query_reads_content:
  assumes "docs_ok s" "may_open L r s"
  shows "\<exists>rows t. query_replica_with_policy L r query s = (Inr rows, t) \<and> content q t = content q s \<and>
    sorted_wrt (<) (map dr_key rows) \<and>
    set rows = {doc_record L s k v | k v. content r s k = Some v \<and> matches_query query k}"
proof -
  let ?rows = "sort_key fst (filter (\<lambda>(key, _). matches_query query key) (replica_rows r s))"
  have ok: "distinct (map fst (replica_rows r s))" using assms(1) by (simp add: docs_ok_def)
  have "mset (map fst ?rows) = mset (map fst (filter (\<lambda>(key, _). matches_query query key) (replica_rows r s)))" by simp
  then have "distinct (map fst ?rows)" using distinct_keys_filter [OF ok] mset_eq_imp_distinct_iff by blast
  then have "sorted_wrt (<) (map dr_key (map (\<lambda>(key, value). doc_record L s key value) ?rows))"
    by (simp add: strict_sorted_iff doc_record_def case_prod_beta comp_def)
  moreover have "set (map (\<lambda>(key, value). doc_record L s key value) ?rows) =
      {doc_record L s k v | k v. content r s k = Some v \<and> matches_query query k}"
    using ok by (force simp: content_def image_iff)
  ultimately show ?thesis using query_replica_rows [OF assms(2)] by simp
qed

text \<open>
  A replica holds a map when every query, in whatever order the table yields its rows, returns the records of the entries
  of the map that match, each once, in the order of the keys.
\<close>

definition reads_as :: "'j docs_lib \<Rightarrow> ReplicaId \<Rightarrow> MemoryDocsSync \<Rightarrow> (string \<Rightarrow> string option) \<Rightarrow> bool" where
  "reads_as L r s m \<longleftrightarrow> content r s = m \<and>
     (\<forall>s' query. reordered s s' \<longrightarrow> (\<exists>rows t. query_replica_with_policy L r query s' = (Inr rows, t) \<and> content r t = m \<and>
       sorted_wrt (<) (map dr_key rows) \<and>
       set rows = {\<lparr>dr_key = k, dr_value = v, dr_content_hash = value_hash L v, dr_content_len = length v,
         dr_docs_author = md_docs_author s\<rparr> | k v. m k = Some v \<and> matches_query query k}))"

lemma reads_as_content:
  assumes "docs_ok s" "may_open L r s"
  shows "reads_as L r s (content r s)"
  unfolding reads_as_def
proof (intro conjI allI impI refl)
  fix s' query
  assume r: "reordered s s'"
  then have "md_docs_author s' = md_docs_author s" by (simp add: reordered_def)
  moreover have "may_open L r s'" using reordered_store(3) [OF r assms(1), of L r] assms(2) by simp
  ultimately
  show "\<exists>rows t. query_replica_with_policy L r query s' = (Inr rows, t) \<and> content r t = content r s \<and>
       sorted_wrt (<) (map dr_key rows) \<and>
       set rows = {\<lparr>dr_key = k, dr_value = v, dr_content_hash = value_hash L v, dr_content_len = length v,
         dr_docs_author = md_docs_author s\<rparr> | k v. content r s k = Some v \<and> matches_query query k}"
    using query_reads_content [of s' L r query r] reordered_store(1,2) [OF r assms(1)] by (simp add: doc_record_def)
qed

lemma refused_op: "\<not> may_open L r s \<Longrightarrow> \<exists>e. apply_doc_op L r doc_op s = (Inl e, s)"
  by (cases "ensure_private_replica_access L r (md_private_replica_secrets s)")
    (auto simp: may_open_def apply_doc_op_def open_replica_def mbind_def)

text \<open>
  C17. The in-memory store is a map from keys to bytes for each replica. A replica one may not open is left as it was. An
  operation changes the map of its replica as the operation says and no other; a value that cannot be written as JSON
  changes nothing. A query after it returns the records of the entries of the new map that match, each once, in the order
  of the keys, whatever order the hash table yields them in.
\<close>

theorem memory_store_refines_map:
  assumes "docs_ok s"
  shows "(\<not> may_open L r s \<longrightarrow> (\<exists>e. apply_doc_op L r doc_op s = (Inl e, s))) \<and>
    (may_open L r s \<longrightarrow> (case doc_effect L doc_op (content r s) of
       None \<Rightarrow> \<exists>e t. apply_doc_op L r doc_op s = (Inl e, t) \<and> docs_ok t \<and> (\<forall>q. content q t = content q s)
     | Some m \<Rightarrow> \<exists>t. apply_doc_op L r doc_op s = (Inr (), t) \<and> docs_ok t \<and> reads_as L r t m \<and>
         (\<forall>q. q \<noteq> r \<longrightarrow> content q t = content q s)))"
proof (intro conjI impI refused_op)
  assume may: "may_open L r s"
  have ok: "docs_ok (opened r s)" using assms by simp
  note written_content = content_written [OF ok, unfolded content_opened] and swept_content = content_swept [OF ok, unfolded content_opened]
  have wrote: "reads_as L r (written L r key bytes (opened r s)) ((content r s)(key \<mapsto> bytes))" for key bytes
    using reads_as_content [of "written L r key bytes (opened r s)" L r] ok may written_content [of r L r key bytes] by simp
  have sweeps: "reads_as L r (swept r p (opened r s)) (\<lambda>key. if starts_with p key then None else content r s key)" for p
    using reads_as_content [of "swept r p (opened r s)" L r] ok may swept_content [of r r p] by (simp add: docs_ok_swept)
  show "case doc_effect L doc_op (content r s) of
       None \<Rightarrow> \<exists>e t. apply_doc_op L r doc_op s = (Inl e, t) \<and> docs_ok t \<and> (\<forall>q. content q t = content q s)
     | Some m \<Rightarrow> \<exists>t. apply_doc_op L r doc_op s = (Inr (), t) \<and> docs_ok t \<and> reads_as L r t m \<and>
         (\<forall>q. q \<noteq> r \<longrightarrow> content q t = content q s)"
  proof (cases doc_op)
    case (SetJson key j)
    then show ?thesis using wrote [of key] ok
      by (cases "dl_json L j") (simp_all add: apply_doc_op_form [OF may] written_content)
  next
    case (SetBytes key bytes)
    then show ?thesis using wrote [of key bytes] ok by (simp add: apply_doc_op_form [OF may] written_content)
  next
    case (DeletePrefix p)
    then show ?thesis using sweeps [of p] ok by (simp add: apply_doc_op_form [OF may] docs_ok_swept swept_content)
  qed
qed

theorem memory_store_refines_map_witness:
  "docs_ok default_docs \<and> may_open sample_docs ''topic::t'' default_docs \<and>
   (\<exists>t. apply_doc_op sample_docs ''topic::t'' (SetBytes ''a/1'' ''x'') default_docs = (Inr (), t) \<and> content ''topic::t'' t ''a/1'' = Some ''x'' \<and>
     (\<exists>u. apply_doc_op sample_docs ''topic::t'' (DeletePrefix ''a/'') t = (Inr (), u) \<and> content ''topic::t'' u ''a/1'' = None))"
proof -
  have start: "docs_ok default_docs" "may_open sample_docs ''topic::t'' s" for s
    by (simp_all add: docs_ok_def default_docs_def replica_rows_def may_open_def ensure_private_replica_access_def
      public_replica_secret_def starts_with_def ACCOUNT_SYNC_REPLICA_PREFIX_def)
  obtain t where t: "apply_doc_op sample_docs ''topic::t'' (SetBytes ''a/1'' ''x'') default_docs = (Inr (), t)" "docs_ok t"
      "reads_as sample_docs ''topic::t'' t ((content ''topic::t'' default_docs)(''a/1'' \<mapsto> ''x''))"
    using memory_store_refines_map [OF start(1), of sample_docs "''topic::t''" "SetBytes ''a/1'' ''x''"] start by auto
  obtain u where "apply_doc_op sample_docs ''topic::t'' (DeletePrefix ''a/'') t = (Inr (), u)" "content ''topic::t'' u ''a/1'' = None"
    using t(3) memory_store_refines_map [OF t(2), of sample_docs "''topic::t''" "DeletePrefix ''a/''"] start by (auto simp: starts_with_def reads_as_def)
  then show ?thesis using start t by (auto simp: reads_as_def)
qed

section \<open>Kinds of keys and days\<close>

lemma family_prefix_free: "family_prefix f @ a = family_prefix g @ b \<Longrightarrow> f = g"
  by (cases f; cases g) simp_all

lemma family_parse_iff: "family_parse key = Some (f, rest) \<longleftrightarrow> key = family_prefix f @ rest"
proof -
  let ?hit = "\<lambda>family. map_option (Pair family) (strip_prefix (family_prefix family) key)"
  have hits: "x \<in> set (List.map_filter ?hit ALL_FAMILIES) \<longleftrightarrow> key = family_prefix (fst x) @ snd x" for x
  proof -
    have "fst x \<in> set ALL_FAMILIES" by (cases "fst x") (simp_all add: ALL_FAMILIES_def)
    then show ?thesis by (cases x) (force simp: List.map_filter_def strip_prefix_Some)
  qed
  show ?thesis
  proof (cases "List.map_filter ?hit ALL_FAMILIES")
    case Nil
    then show ?thesis using hits [of "(f, rest)"] by (simp add: family_parse_def)
  next
    case (Cons x xs)
    then have x: "key = family_prefix (fst x) @ snd x" using hits [of x] by simp
    show ?thesis using Cons x family_prefix_free [of "fst x" "snd x" f rest] by (cases x) (auto simp: family_parse_def)
  qed
qed

lemma bucket_of_time:
  assumes "0 \<le> t" "t \<le> i64_max"
  shows "from_unix_seconds t = Inr b \<longleftrightarrow> bucket_contains b t"
proof -
  have "from_unix_seconds t = Inr (nat (t div 86400))"
    using assms zdiv_mono1 [of t i64_max 86400] by (simp add: from_unix_seconds_def BUCKET_SECONDS_V1_def from_index_def)
  moreover have "bucket_contains b t \<longleftrightarrow> t div 86400 = int b"
    using assms div_pos_pos_trivial [of t 86400]
    by (auto simp: bucket_contains_def start_seconds_def end_seconds_def BUCKET_SECONDS_V1_def)
  moreover have "0 \<le> t div 86400" using assms by simp
  ultimately show ?thesis by auto
qed

lemma live_window_days: "set (live_window b) = {x. x = b \<or> x + 1 = b}"
  by (auto simp: live_window_def previous_bucket_def List.map_filter_def split: if_splits)

end
