(* ===== verification/Time_Index.thy ===== *)
theory Time_Index
  imports Docs_Sync
begin

text \<open>
  Reading the time indexes of a replica in bounded pages (\<open>crates/docs-sync/src/time_index.rs\<close>). A key of an index is the
  index's prefix, the time in twenty digits, and the object. The store lists keys by prefix only, so a reader that continues
  at a cursor walks the decimal prefixes on the far side of the cursor, nearest first, and splits a prefix when keys of
  another shape crowd its page. The store is the record \<open>docs_sync\<close> of the two listings the walk calls.
\<close>

section \<open>Definitions\<close>

definition TIME_DIGITS :: nat where
  "TIME_DIGITS = 20"

definition SAME_SECOND_SCAN_LIMIT :: nat where
  "SAME_SECOND_SCAN_LIMIT = 512"

definition MALFORMED_KEY_ALLOWANCE :: nat where
  "MALFORMED_KEY_ALLOWANCE = 32"

definition FUTURE_ENTRY_ALLOWANCE :: nat where
  "FUTURE_ENTRY_ALLOWANCE = 32"

definition MAX_WALK_QUERIES :: nat where
  "MAX_WALK_QUERIES = 256"

record TimeIndexEntry =
  ti_created_at :: i64
  ti_object_id :: string
  ti_key :: string
  ti_docs_author :: "string option"

record TimeIndexCursor =
  tc_created_at :: i64
  tc_object_id :: string

definition not_after :: "i64 \<Rightarrow> TimeIndexCursor" where
  "not_after created_at = \<lparr>tc_created_at = sat_i64 (created_at + 1), tc_object_id = []\<rparr>"

definition not_before :: "i64 \<Rightarrow> TimeIndexCursor" where
  "not_before created_at = \<lparr>tc_created_at = created_at, tc_object_id = []\<rparr>"

record TimeIndexPage =
  tp_entries :: "TimeIndexEntry list"
  tp_resume :: "TimeIndexCursor option"
  tp_queries :: nat

definition empty_page :: TimeIndexPage where
  "empty_page = \<lparr>tp_entries = [], tp_resume = None, tp_queries = 0\<rparr>"

datatype IndexEdge = UnknownEdge | EdgeAt u64 | EmptyEdge

text \<open>\<open>dyn DocsSync\<close>, as far as the walk calls it.\<close>

record 's docs_sync =
  ds_query_replica_keys :: "ReplicaId \<Rightarrow> DocKeyQuery \<Rightarrow> ('s, DocKeyPage) host_op"
  ds_query_replica_keys_by_author :: "ReplicaId \<Rightarrow> string \<Rightarrow> DocKeyQuery \<Rightarrow> ('s, DocKeyPage) host_op"

type_synonym 's listing = "DocKeyQuery \<Rightarrow> ('s, DocKeyPage) host_op"

definition list_index_keys :: "'s docs_sync \<Rightarrow> ReplicaId \<Rightarrow> string option \<Rightarrow> 's listing" where
  "list_index_keys D r docs_author query = (case docs_author of
     Some docs_author \<Rightarrow> ds_query_replica_keys_by_author D r docs_author query
   | None \<Rightarrow> ds_query_replica_keys D r query)"

definition parse_entry :: "string \<Rightarrow> string \<Rightarrow> string option \<Rightarrow> TimeIndexEntry option" where
  "parse_entry index_prefix key docs_author =
     Option.bind (strip_prefix index_prefix key) (\<lambda>rest.
     Option.bind (rsplit_once (CHR ''/'') rest) (\<lambda>(sort_key, object_id).
     Option.bind (split_once (CHR ''-'') sort_key) (\<lambda>(time, sort_object_id).
     if length time \<noteq> TIME_DIGITS \<or> \<not> list_all ascii_digit time \<or> sort_object_id \<noteq> object_id \<or> object_id = [] then None else
     map_option (\<lambda>created_at. \<lparr>ti_created_at = created_at, ti_object_id = object_id, ti_key = key, ti_docs_author = docs_author\<rparr>)
       (parse_i64 time))))"

definition parse_entries :: "string \<Rightarrow> DocKeyEntry list \<Rightarrow> TimeIndexEntry list" where
  "parse_entries index_prefix keys = List.map_filter (\<lambda>e. parse_entry index_prefix (ke_key e) (ke_docs_author e)) keys"

definition time_prefix_bounds :: "string \<Rightarrow> u64 \<times> u64" where
  "time_prefix_bounds time_prefix = (
     let pad = TIME_DIGITS - length time_prefix;
         lowest = time_prefix @ replicate pad (CHR ''0'');
         highest = time_prefix @ replicate pad (CHR ''9'')
     in (case parse_u64 lowest of Some v \<Rightarrow> v | None \<Rightarrow> 0, case parse_u64 highest of Some v \<Rightarrow> v | None \<Rightarrow> u64_max))"

definition clamp_time :: "u64 \<Rightarrow> i64" where
  "clamp_time value = (if int value \<le> i64_max then int value else i64_max)"

definition index_edge :: "'s listing \<Rightarrow> string \<Rightarrow> DocKeyOrder \<Rightarrow> ('s, IndexEdge) host_op" where
  "index_edge list_keys index_prefix order =
     mbind (list_keys \<lparr>kq_prefix = index_prefix, kq_order = (case order of Descending \<Rightarrow> Ascending | Ascending \<Rightarrow> Descending),
       kq_limit = sat_u64 (MALFORMED_KEY_ALLOWANCE + 1)\<rparr>) (\<lambda>page. mlift (Inr (
     case parse_entries index_prefix (kp_entries page) of
       [] \<Rightarrow> if kp_reached_limit page then UnknownEdge else EmptyEdge
     | entry # _ \<Rightarrow>
         if 0 \<le> ti_created_at entry then EdgeAt (nat (ti_created_at entry))
         else if kp_reached_limit page then UnknownEdge else EmptyEdge)))"

text \<open>The variables of the loop. \<open>pending\<close> is popped from its end.\<close>

record walk_state =
  wk_pending :: "string list"
  wk_entries :: "TimeIndexEntry list"
  wk_queries :: nat
  wk_resume :: "TimeIndexCursor option"
  wk_edge :: IndexEdge
  wk_edge_checked :: bool

datatype walk_flow = Continue walk_state | Break walk_state

definition past_edge :: "DocKeyOrder \<Rightarrow> IndexEdge \<Rightarrow> u64 \<Rightarrow> u64 \<Rightarrow> bool" where
  "past_edge order edge prefix_min prefix_max = (case edge of
     EdgeAt edge \<Rightarrow> (case order of Descending \<Rightarrow> prefix_max < edge | Ascending \<Rightarrow> prefix_min > edge)
   | _ \<Rightarrow> False)"

definition split_time_prefix :: "DocKeyOrder \<Rightarrow> string \<Rightarrow> string list" where
  "split_time_prefix order time_prefix = (if time_prefix = [] then [''0'']
     else map (\<lambda>digit. time_prefix @ show_nat digit) (case order of Descending \<Rightarrow> [0..<10] | Ascending \<Rightarrow> rev [0..<10]))"

text \<open>What is done with a page: split the prefix, look for the edge, or keep the entries.\<close>

definition walk_page ::
    "'s listing \<Rightarrow> string \<Rightarrow> DocKeyOrder \<Rightarrow> nat \<Rightarrow> string \<Rightarrow> DocKeyPage \<Rightarrow> walk_state \<Rightarrow> ('s, walk_flow) host_op" where
  "walk_page list_keys index_prefix order needed time_prefix page w = (
     let w = w\<lparr>wk_queries := wk_queries w + 1\<rparr>; truncated = kp_reached_limit page;
         valid = parse_entries index_prefix (kp_entries page) in
     if truncated \<and> length valid < needed \<and> length time_prefix < TIME_DIGITS
     then mlift (Inr (Continue (w\<lparr>wk_pending := wk_pending w @ split_time_prefix order time_prefix\<rparr>)))
     else if valid = [] \<and> \<not> truncated \<and> \<not> wk_edge_checked w \<and> wk_queries w < MAX_WALK_QUERIES
     then mbind (index_edge list_keys index_prefix order) (\<lambda>edge.
       let w = w\<lparr>wk_edge_checked := True, wk_queries := wk_queries w + 1, wk_edge := edge\<rparr> in
       mlift (Inr (if edge = EmptyEdge then Break w else Continue (w\<lparr>wk_entries := wk_entries w @ valid\<rparr>))))
     else mlift (Inr (Continue (w\<lparr>wk_entries := wk_entries w @ valid\<rparr>))))"

definition walk_step :: "'s listing \<Rightarrow> string \<Rightarrow> DocKeyOrder \<Rightarrow> nat \<Rightarrow> walk_state \<Rightarrow> ('s, walk_flow) host_op" where
  "walk_step list_keys index_prefix order limit w = (
     if wk_pending w = [] then mlift (Inr (Break w)) else
     let time_prefix = last (wk_pending w); w = w\<lparr>wk_pending := butlast (wk_pending w)\<rparr> in
     if limit \<le> length (wk_entries w) then mlift (Inr (Break w)) else
     let (prefix_min, prefix_max) = time_prefix_bounds time_prefix in
     if int prefix_min > i64_max
     then mlift (Inr (case order of Descending \<Rightarrow> Continue w | Ascending \<Rightarrow> Break w))
     else if past_edge order (wk_edge w) prefix_min prefix_max then mlift (Inr (Break w))
     else if MAX_WALK_QUERIES \<le> wk_queries w
     then mlift (Inr (Break (w\<lparr>wk_resume := Some (case order of
       Descending \<Rightarrow> not_after (clamp_time prefix_max) | Ascending \<Rightarrow> not_before (clamp_time prefix_min))\<rparr>)))
     else
     let needed = limit - length (wk_entries w); requested = sat_u64 (needed + MALFORMED_KEY_ALLOWANCE) in
     mbind (list_keys \<lparr>kq_prefix = index_prefix @ time_prefix, kq_order = order, kq_limit = requested\<rparr>) (\<lambda>page.
     walk_page list_keys index_prefix order needed time_prefix page w))"

text \<open>Every pass of the loop makes the work left in the stack smaller: a prefix weighs more than the ten it is split into.\<close>

definition pending_weight :: "string list \<Rightarrow> nat" where
  "pending_weight pending = (\<Sum>p\<leftarrow>pending. 11 ^ (21 - length p))"

lemma pending_weight_append [simp]: "pending_weight (xs @ ys) = pending_weight xs + pending_weight ys"
  by (simp add: pending_weight_def)

lemma pending_weight_single [simp]: "pending_weight [p] = 11 ^ (21 - length p)"
  by (simp add: pending_weight_def)

lemma length_show_digit: "n < 10 \<Longrightarrow> length (show_nat n) = 1"
  by (subst show_nat.simps) simp

lemma split_weight:
  assumes "length p < TIME_DIGITS"
  shows "pending_weight (split_time_prefix order p) < 11 ^ (21 - length p)"
proof -
  obtain k where k: "21 - length p = Suc k" "21 - Suc (length p) = k" using assms by (cases "21 - length p") (auto simp: TIME_DIGITS_def)
  have "pending_weight (map (\<lambda>d. p @ show_nat d) ds) = length ds * 11 ^ k" if "\<forall>d \<in> set ds. d < 10" for ds
    using that k by (induction ds) (auto simp: pending_weight_def length_show_digit)
  then have "pending_weight (map (\<lambda>d. p @ show_nat d) [0..<10]) = 10 * 11 ^ k"
    "pending_weight (map (\<lambda>d. p @ show_nat d) (rev [0..<10])) = 10 * 11 ^ k" by simp_all
  then show ?thesis using k by (cases "p = []"; cases order) (auto simp: split_time_prefix_def)
qed

lemma walk_step_decreases:
  assumes "walk_step list_keys index_prefix order limit w s = (Inr (Continue w'), t)"
  shows "pending_weight (wk_pending w') < pending_weight (wk_pending w)"
proof -
  have ne: "wk_pending w \<noteq> []" using assms by (auto simp: walk_step_def mlift_def)
  let ?p = "last (wk_pending w)" and ?rest = "butlast (wk_pending w)"
  have weight: "pending_weight (wk_pending w) = pending_weight ?rest + 11 ^ (21 - length ?p)"
    using ne by (metis append_butlast_last_id pending_weight_append pending_weight_single)
  have "wk_pending w' = ?rest \<or> length ?p < TIME_DIGITS \<and> wk_pending w' = ?rest @ split_time_prefix order ?p"
    using assms ne by (auto simp: walk_step_def walk_page_def mlift_def mbind_def Let_def
      split: if_splits prod.splits sum.splits DocKeyOrder.splits)
  then show ?thesis using weight split_weight [of ?p order] by auto
qed

function walk_loop :: "'s listing \<Rightarrow> string \<Rightarrow> DocKeyOrder \<Rightarrow> nat \<Rightarrow> walk_state \<Rightarrow> ('s, walk_state) host_op" where
  "walk_loop list_keys index_prefix order limit w s = (case walk_step list_keys index_prefix order limit w s of
     (Inl e, t) \<Rightarrow> (Inl e, t)
   | (Inr (Break w'), t) \<Rightarrow> (Inr w', t)
   | (Inr (Continue w'), t) \<Rightarrow> walk_loop list_keys index_prefix order limit w' t)"
  by pat_completeness auto
termination
  by (relation "measure (\<lambda>(_, _, _, _, w, _). pending_weight (wk_pending w))") (auto dest: walk_step_decreases [OF sym])

declare walk_loop.simps [simp del]

text \<open>The prefixes on the far side of a time: each digit moved away from the cursor, the lowest digit last.\<close>

definition cursor_pending :: "DocKeyOrder \<Rightarrow> string \<Rightarrow> string list" where
  "cursor_pending order digits = concat (map (\<lambda>position.
     let digit = of_char (digits ! position) - 48 in
     case order of
       Descending \<Rightarrow> map (\<lambda>smaller. take position digits @ show_nat smaller) [0..<digit]
     | Ascending \<Rightarrow> if position = 0 then [] else
         map (\<lambda>larger. take position digits @ show_nat larger) (rev [digit + 1..<10])) [0..<TIME_DIGITS])"

definition start_walk :: "string list \<Rightarrow> TimeIndexEntry list \<Rightarrow> walk_state" where
  "start_walk pending entries = \<lparr>wk_pending = pending, wk_entries = entries, wk_queries = 0, wk_resume = None,
     wk_edge = UnknownEdge, wk_edge_checked = False\<rparr>"

definition finish_walk :: "nat \<Rightarrow> nat \<Rightarrow> walk_state \<Rightarrow> TimeIndexPage" where
  "finish_walk limit same_second_queries w = \<lparr>tp_entries = take limit (wk_entries w), tp_resume = wk_resume w,
     tp_queries = wk_queries w + same_second_queries\<rparr>"

definition walk_from ::
    "'s listing \<Rightarrow> string \<Rightarrow> DocKeyOrder \<Rightarrow> nat \<Rightarrow> nat \<Rightarrow> string list \<Rightarrow> TimeIndexEntry list \<Rightarrow> ('s, TimeIndexPage) host_op" where
  "walk_from list_keys index_prefix order limit same_second_queries pending entries =
     mbind (walk_loop list_keys index_prefix order limit (start_walk pending entries)) (\<lambda>w.
     mlift (Inr (finish_walk limit same_second_queries w)))"

definition walk_keys :: "'s listing \<Rightarrow> string \<Rightarrow> DocKeyOrder \<Rightarrow> TimeIndexCursor option \<Rightarrow> nat \<Rightarrow> ('s, TimeIndexPage) host_op" where
  "walk_keys list_keys index_prefix order cursor limit = (if limit = 0 then mlift (Inr empty_page) else case cursor of
     None \<Rightarrow> walk_from list_keys index_prefix order limit 0 [''''] []
   | Some c \<Rightarrow>
     if tc_created_at c < 0 then (case order of
         Descending \<Rightarrow> mlift (Inr empty_page)
       | Ascending \<Rightarrow> walk_from list_keys index_prefix order limit 0 [''''] [])
     else
     let digits = pad20 (tc_created_at c) in
     if length digits \<noteq> TIME_DIGITS then mlift (Inr empty_page) else
     mbind (list_keys \<lparr>kq_prefix = index_prefix @ digits @ ''-'', kq_order = order, kq_limit = SAME_SECOND_SCAN_LIMIT\<rparr>)
       (\<lambda>same_second.
     let entries = take limit (filter (\<lambda>e. case order of
         Descending \<Rightarrow> ti_object_id e < tc_object_id c | Ascending \<Rightarrow> ti_object_id e > tc_object_id c)
       (parse_entries index_prefix (kp_entries same_second))) in
     walk_from list_keys index_prefix order limit 1 (cursor_pending order digits) entries))"

definition walk_time_index_as ::
    "'s docs_sync \<Rightarrow> ReplicaId \<Rightarrow> string \<Rightarrow> string option \<Rightarrow> DocKeyOrder \<Rightarrow> TimeIndexCursor option \<Rightarrow> nat \<Rightarrow> ('s, TimeIndexPage) host_op" where
  "walk_time_index_as D r index_prefix docs_author order cursor limit =
     walk_keys (list_index_keys D r docs_author) index_prefix order cursor limit"

definition walk_time_index ::
    "'s docs_sync \<Rightarrow> ReplicaId \<Rightarrow> string \<Rightarrow> DocKeyOrder \<Rightarrow> TimeIndexCursor option \<Rightarrow> nat \<Rightarrow> ('s, TimeIndexPage) host_op" where
  "walk_time_index D r index_prefix order cursor limit = walk_time_index_as D r index_prefix None order cursor limit"

definition query_time_index_window :: "'s docs_sync \<Rightarrow> ReplicaId \<Rightarrow> string \<Rightarrow> i64 \<Rightarrow> nat \<Rightarrow> ('s, TimeIndexPage) host_op" where
  "query_time_index_window D r index_prefix until limit = (if limit = 0 then mlift (Inr empty_page) else
     let requested = sat_u64 (sat_u64 (limit + FUTURE_ENTRY_ALLOWANCE) + MALFORMED_KEY_ALLOWANCE) in
     mbind (ds_query_replica_keys D r \<lparr>kq_prefix = index_prefix, kq_order = Descending, kq_limit = requested\<rparr>) (\<lambda>page.
     let truncated = kp_reached_limit page;
         entries = filter (\<lambda>e. ti_created_at e \<le> until) (parse_entries index_prefix (kp_entries page)) in
     if limit \<le> length entries \<or> \<not> truncated
     then mlift (Inr \<lparr>tp_entries = take limit entries, tp_resume = None, tp_queries = 1\<rparr>)
     else mbind (walk_time_index D r index_prefix Descending (Some (not_after until)) limit) (\<lambda>page.
       mlift (Inr (page\<lparr>tp_queries := tp_queries page + 1\<rparr>)))))"

definition query_time_index_desc ::
    "'s docs_sync \<Rightarrow> ReplicaId \<Rightarrow> string \<Rightarrow> TimeIndexCursor option \<Rightarrow> nat \<Rightarrow> ('s, TimeIndexPage) host_op" where
  "query_time_index_desc D r index_prefix before limit = walk_time_index D r index_prefix Descending before limit"

definition query_time_index_asc ::
    "'s docs_sync \<Rightarrow> ReplicaId \<Rightarrow> string \<Rightarrow> TimeIndexCursor option \<Rightarrow> nat \<Rightarrow> ('s, TimeIndexPage) host_op" where
  "query_time_index_asc D r index_prefix after limit = walk_time_index D r index_prefix Ascending after limit"

definition query_time_index_desc_by_author ::
    "'s docs_sync \<Rightarrow> ReplicaId \<Rightarrow> string \<Rightarrow> string \<Rightarrow> TimeIndexCursor option \<Rightarrow> nat \<Rightarrow> ('s, TimeIndexPage) host_op" where
  "query_time_index_desc_by_author D r index_prefix docs_author before limit =
     walk_time_index_as D r index_prefix (Some docs_author) Descending before limit"

section \<open>Decimal prefixes are ranges of time\<close>

definition dval :: "string \<Rightarrow> nat" where
  "dval s = (case read_digits 0 s of Some v \<Rightarrow> v | None \<Rightarrow> 0)"

lemma read_digits_total: "list_all ascii_digit s \<Longrightarrow> \<exists>v. read_digits a s = Some v"
  by (induction s arbitrary: a) (auto simp: digit_value_def)

lemma read_digits_shift: "read_digits 0 s = Some v \<Longrightarrow> read_digits a s = Some (a * 10 ^ length s + v)"
proof (induction s arbitrary: v rule: rev_induct)
  case (snoc c s)
  then obtain u d where u: "read_digits 0 s = Some u" and d: "digit_value c = Some d" and v: "v = 10 * u + d"
    by (auto simp: read_digits_append split: option.splits)
  show ?case using snoc.IH [OF u] d v by (simp add: read_digits_append)
qed simp

lemma read_digits_dval: "list_all ascii_digit s \<Longrightarrow> read_digits a s = Some (a * 10 ^ length s + dval s)"
  using read_digits_total [of s 0] by (auto simp: dval_def intro: read_digits_shift)

lemma dval_eq: "read_digits 0 s = Some v \<Longrightarrow> dval s = v"
  by (simp add: dval_def)

lemma dval_append: "list_all ascii_digit s \<Longrightarrow> list_all ascii_digit t \<Longrightarrow> dval (s @ t) = dval s * 10 ^ length t + dval t"
  using read_digits_dval [of s 0] read_digits_dval [of t "dval s"] by (intro dval_eq) (simp add: read_digits_append)

lemma dval_bound: "list_all ascii_digit s \<Longrightarrow> dval s < 10 ^ length s"
  using read_digits_bounds [of 0 s "dval s"] read_digits_dval [of s 0] by simp

lemma dval_less_iff: "list_all ascii_digit s \<Longrightarrow> list_all ascii_digit t \<Longrightarrow> length s = length t \<Longrightarrow> s < t \<longleftrightarrow> dval s < dval t"
  using digit_strings_less_iff [of s t 0] read_digits_dval [of s 0] read_digits_dval [of t 0] by simp

lemma dval_inject: "list_all ascii_digit s \<Longrightarrow> list_all ascii_digit t \<Longrightarrow> length s = length t \<Longrightarrow> dval s = dval t \<longleftrightarrow> s = t"
  using dval_less_iff [of s t] dval_less_iff [of t s] by (metis linorder_neqE order_less_irrefl)

lemma ascii_digit_bounds [simp]: "ascii_digit (CHR ''0'')" "ascii_digit (CHR ''9'')"
  by (simp_all add: ascii_digit_def)

lemma dval_zeros: "dval (replicate n (CHR ''0'')) = 0"
  using read_digits_zeros [of n "[]"] by (simp add: dval_def)

lemma dval_nines: "dval (replicate n (CHR ''9'')) + 1 = 10 ^ n"
proof (induction n)
  case (Suc n)
  have "dval ([CHR ''9''] @ replicate n (CHR ''9'')) = dval [CHR ''9''] * 10 ^ n + dval (replicate n (CHR ''9''))"
    by (subst dval_append) (simp_all add: list_all_iff)
  moreover have "dval [CHR ''9''] = 9" by (simp add: dval_def digit_value_def)
  ultimately show ?case using Suc by simp
qed (simp add: dval_def)

definition plo :: "string \<Rightarrow> int" where
  "plo p = int (dval p) * 10 ^ (20 - length p)"

definition phi :: "string \<Rightarrow> int" where
  "phi p = (int (dval p) + 1) * 10 ^ (20 - length p) - 1"

lemma plo_nonneg: "0 \<le> plo p"
  by (simp add: plo_def)

lemma plo_le_phi: "plo p \<le> phi p"
  by (simp add: plo_def phi_def algebra_simps)

lemma prefix_range:
  assumes p: "list_all ascii_digit p" "length p \<le> 20" and time: "list_all ascii_digit time" "length time = 20"
  shows "starts_with p time \<longleftrightarrow> plo p \<le> int (dval time) \<and> int (dval time) \<le> phi p"
proof -
  let ?k = "length p" and ?m = "(10 :: nat) ^ (20 - length p)"
  have parts: "list_all ascii_digit (take ?k time)" "list_all ascii_digit (drop ?k time)"
    using time(1) by (metis append_take_drop_id list_all_append)+
  have len: "length (take ?k time) = ?k" "length (drop ?k time) = 20 - ?k" using p(2) time(2) by simp_all
  have val: "dval time = dval (take ?k time) * ?m + dval (drop ?k time)"
    using dval_append [OF parts] len(2) by (simp only: append_take_drop_id)
  have below: "dval (drop ?k time) < ?m" using dval_bound [OF parts(2)] len(2) by simp
  have "dval p * ?m \<le> dval time \<and> dval time < (dval p + 1) * ?m \<longleftrightarrow> dval time div ?m = dval p"
  proof
    assume "dval time div ?m = dval p"
    then show "dval p * ?m \<le> dval time \<and> dval time < (dval p + 1) * ?m"
      by (metis dividend_less_times_div div_times_less_eq_dividend add.commute mult.commute plus_1_eq_Suc mult_Suc_right zero_less_numeral zero_less_power)
  next
    assume "dval p * ?m \<le> dval time \<and> dval time < (dval p + 1) * ?m"
    then show "dval time div ?m = dval p" by (intro div_nat_eqI) (simp_all add: algebra_simps)
  qed
  moreover have "dval time div ?m = dval (take ?k time)" using val below by simp
  moreover have "dval (take ?k time) = dval p \<longleftrightarrow> starts_with p time"
    using dval_inject [OF parts(1) p(1)] len(1) by (simp add: starts_with_def)
  moreover have "plo p \<le> int (dval time) \<and> int (dval time) \<le> phi p \<longleftrightarrow> dval p * ?m \<le> dval time \<and> dval time < (dval p + 1) * ?m"
  proof -
    have "plo p = int (dval p * ?m)" "phi p + 1 = int ((dval p + 1) * ?m)" by (simp_all add: plo_def phi_def algebra_simps)
    then show ?thesis by linarith
  qed
  ultimately show ?thesis by simp
qed

text \<open>The prefixes the walk meets: digits that start with a zero, since no time of 64 bits has twenty digits.\<close>

definition time_prefix :: "string \<Rightarrow> bool" where
  "time_prefix p \<longleftrightarrow> list_all ascii_digit p \<and> length p \<le> 20 \<and> (p = [] \<or> hd p = CHR ''0'')"

lemma parse_u64_digits:
  assumes "list_all ascii_digit s" "s \<noteq> []"
  shows "parse_u64 s = (if int (dval s) \<le> 2 ^ 64 - 1 then Some (dval s) else None)"
proof -
  obtain c t where s: "s = c # t" using assms(2) by (cases s) auto
  then have "c \<noteq> CHR ''+''" using assms(1) by auto
  then show ?thesis using s assms read_digits_dval [of s 0] by (simp add: parse_u64_def parse_magnitude_def)
qed

lemma time_prefix_value: "time_prefix p \<Longrightarrow> p \<noteq> [] \<Longrightarrow> phi p < 10 ^ 19"
proof -
  assume p: "time_prefix p" "p \<noteq> []"
  then obtain t where t: "p = CHR ''0'' # t" "list_all ascii_digit t" "length t \<le> 19"
    by (cases p) (auto simp: time_prefix_def)
  have "dval p = dval t" using dval_append [of "''0''" t] t by (simp add: dval_def digit_value_def)
  then have "dval p < 10 ^ length t" using dval_bound [OF t(2)] by simp
  then have "(int (dval p) + 1) * 10 ^ (19 - length t) \<le> 10 ^ length t * 10 ^ (19 - length t)"
    by (intro mult_right_mono) (metis add1_zle_eq of_nat_less_iff of_nat_numeral of_nat_power, simp)
  also have "\<dots> = (10 :: int) ^ 19" using t(3) by (simp flip: power_add)
  finally show ?thesis using t(1) by (simp add: phi_def)
qed

lemma time_prefix_bounds_arith:
  assumes "time_prefix p"
  shows "int (fst (time_prefix_bounds p)) = plo p"
    "min (int (snd (time_prefix_bounds p))) i64_max = min (phi p) i64_max"
    "p \<noteq> [] \<Longrightarrow> int (snd (time_prefix_bounds p)) = phi p"
proof -
  let ?n = "20 - length p"
  have p: "list_all ascii_digit p" "length p \<le> 20" using assms by (auto simp: time_prefix_def)
  have ne: "p @ replicate ?n c \<noteq> []" for c using p(2) by (cases p) auto
  have digits: "ascii_digit c \<Longrightarrow> list_all ascii_digit (p @ replicate ?n c)" for c using p(1) by (auto simp: list_all_iff)
  have low: "int (dval (p @ replicate ?n (CHR ''0''))) = plo p"
    using p by (simp add: dval_append list_all_iff dval_zeros plo_def)
  have "int (dval (replicate ?n (CHR ''9''))) = 10 ^ ?n - 1" using arg_cong [OF dval_nines [of ?n], of int] by simp
  then have high: "int (dval (p @ replicate ?n (CHR ''9''))) = phi p"
    using p by (simp add: dval_append list_all_iff phi_def algebra_simps)
  have form: "time_prefix_bounds p = (if plo p \<le> 2 ^ 64 - 1 then dval (p @ replicate ?n (CHR ''0'')) else 0,
      if phi p \<le> 2 ^ 64 - 1 then dval (p @ replicate ?n (CHR ''9'')) else u64_max)"
    using parse_u64_digits [OF digits ne, of "CHR ''0''"] parse_u64_digits [OF digits ne, of "CHR ''9''"] p low high
    by (simp add: time_prefix_bounds_def TIME_DIGITS_def Let_def)
  show "p \<noteq> [] \<Longrightarrow> int (snd (time_prefix_bounds p)) = phi p"
    using form high time_prefix_value [OF assms] by simp
  show "int (fst (time_prefix_bounds p)) = plo p"
  proof (cases "p = []")
    case True
    then show ?thesis using form low by (simp add: plo_def dval_def)
  next
    case False
    then show ?thesis using form low time_prefix_value [OF assms] plo_le_phi [of p] by simp
  qed
  show "min (int (snd (time_prefix_bounds p))) i64_max = min (phi p) i64_max"
    using form high by (cases "phi p \<le> 2 ^ 64 - 1") auto
qed

section \<open>The entries of an index\<close>

lemma rsplit_once_Some: "rsplit_once sep s = Some (a, b) \<longleftrightarrow> s = a @ sep # b \<and> sep \<notin> set b"
proof -
  have "rsplit_once sep s = Some (a, b) \<longleftrightarrow> split_once sep (rev s) = Some (rev b, rev a)"
    by (auto simp: rsplit_once_def split: option.split)
  also have "\<dots> \<longleftrightarrow> rev s = rev b @ sep # rev a \<and> sep \<notin> set b" by (simp add: split_once_Some)
  also have "rev s = rev b @ sep # rev a \<longleftrightarrow> s = a @ sep # b" by (metis append.assoc append_Cons append_Nil rev.simps(2) rev_append rev_rev_ident)
  finally show ?thesis .
qed

lemma parse_i64_digits:
  assumes "list_all ascii_digit s" "s \<noteq> []"
  shows "parse_i64 s = (if int (dval s) \<le> i64_max then Some (int (dval s)) else None)"
proof -
  obtain c t where s: "s = c # t" using assms(2) by (cases s) auto
  then have "c \<noteq> CHR ''+''" "c \<noteq> CHR ''-''" using assms(1) by auto
  then show ?thesis using s assms read_digits_dval [of s 0] by (simp add: parse_i64_def parse_magnitude_def is_i64_def)
qed

text \<open>The shape of a key of the index.\<close>

definition index_key :: "string \<Rightarrow> string \<Rightarrow> string \<Rightarrow> string" where
  "index_key P time oid = P @ time @ ''-'' @ oid @ ''/'' @ oid"

lemma parse_entry_Some:
  assumes "parse_entry P key a = Some e"
  obtains time oid where "key = index_key P time oid" "length time = 20" "list_all ascii_digit time"
    "int (dval time) \<le> i64_max" "oid \<noteq> []" "ti_created_at e = int (dval time)" "ti_object_id e = oid" "ti_key e = key"
proof -
  obtain rest sk oid time where r: "key = P @ rest" "rest = sk @ CHR ''/'' # oid" "sk = time @ CHR ''-'' # oid"
      "length time = 20" "list_all ascii_digit time" "oid \<noteq> []"
    and e: "map_option (\<lambda>t. \<lparr>ti_created_at = t, ti_object_id = oid, ti_key = key, ti_docs_author = a\<rparr>) (parse_i64 time) = Some e"
    using assms by (auto simp: parse_entry_def bind_eq_Some_conv strip_prefix_Some rsplit_once_Some split_once_Some TIME_DIGITS_def
      split: if_splits)
  have "time \<noteq> []" using r(4) by auto
  then have "int (dval time) \<le> i64_max" "e = \<lparr>ti_created_at = int (dval time), ti_object_id = oid, ti_key = key, ti_docs_author = a\<rparr>"
    using e parse_i64_digits [OF r(5)] by (auto split: if_splits)
  then show thesis using that [of time oid] r by (simp add: index_key_def)
qed

text \<open>The rows of a store are its keys in order, each with its entry when the store can show it.\<close>

type_synonym key_row = "string \<times> DocKeyEntry option"

definition rows_ok :: "key_row list \<Rightarrow> bool" where
  "rows_ok rows \<longleftrightarrow> sorted (map fst rows) \<and> (\<forall>k e. (k, Some e) \<in> set rows \<longrightarrow> ke_key e = k)"

definition in_order :: "DocKeyOrder \<Rightarrow> 'a list \<Rightarrow> 'a list" where
  "in_order order xs = (case order of Ascending \<Rightarrow> xs | Descending \<Rightarrow> rev xs)"

definition rows_under :: "key_row list \<Rightarrow> DocKeyQuery \<Rightarrow> key_row list" where
  "rows_under rows q = in_order (kq_order q) (filter (\<lambda>row. starts_with (kq_prefix q) (fst row)) rows)"

definition row_entry :: "string \<Rightarrow> key_row \<Rightarrow> TimeIndexEntry option" where
  "row_entry P row = Option.bind (snd row) (\<lambda>e. parse_entry P (ke_key e) (ke_docs_author e))"

definition index_entries :: "string \<Rightarrow> key_row list \<Rightarrow> DocKeyOrder \<Rightarrow> TimeIndexEntry list" where
  "index_entries P rows order = List.map_filter (row_entry P) (in_order order rows)"

lemma map_filter_bind: "List.map_filter f (List.map_filter g xs) = List.map_filter (\<lambda>x. Option.bind (g x) f) xs"
  by (induction xs) (auto simp: List.map_filter_def split: option.split)

lemma parse_entries_rows: "parse_entries P (List.map_filter snd rows) = List.map_filter (row_entry P) rows"
  by (simp add: parse_entries_def map_filter_bind row_entry_def [abs_def])

lemma map_filter_filter:
  "(\<And>x y. x \<in> set xs \<Longrightarrow> f x = Some y \<Longrightarrow> P x \<longleftrightarrow> Q y) \<Longrightarrow> List.map_filter f (filter P xs) = filter Q (List.map_filter f xs)"
proof (induction xs)
  case (Cons x xs)
  then show ?case by (cases "f x") (auto simp: List.map_filter_def)
qed (simp add: List.map_filter_def)

lemma row_entry_Some:
  assumes "rows_ok rows" "row \<in> set rows" "row_entry P row = Some e"
  obtains time oid where "fst row = index_key P time oid" "length time = 20" "list_all ascii_digit time"
    "int (dval time) \<le> i64_max" "oid \<noteq> []" "ti_created_at e = int (dval time)" "ti_object_id e = oid"
proof -
  obtain k x where row: "row = (k, Some x)" "parse_entry P (ke_key x) (ke_docs_author x) = Some e"
    using assms(3) by (cases row) (auto simp: row_entry_def bind_eq_Some_conv)
  have "ke_key x = k" using assms(1,2) row(1) by (auto simp: rows_ok_def)
  then show thesis using parse_entry_Some [OF row(2)] that row(1) by (metis fst_conv)
qed

lemma starts_with_append_iff: "starts_with (a @ p) (a @ s) \<longleftrightarrow> starts_with p s"
  by (simp add: starts_with_def)

lemma starts_with_prefix: "length p \<le> length s \<Longrightarrow> starts_with p (s @ t) \<longleftrightarrow> starts_with p s"
  by (simp add: starts_with_def)

lemma set_in_order [simp]: "set (in_order order xs) = set xs"
  by (simp add: in_order_def split: DocKeyOrder.split)

lemma filter_in_order: "filter P (in_order order xs) = in_order order (filter P xs)"
  by (simp add: in_order_def rev_filter split: DocKeyOrder.split)

lemma entries_under:
  assumes "\<And>row e. row \<in> set rows \<Longrightarrow> row_entry P row = Some e \<Longrightarrow> starts_with pre (fst row) \<longleftrightarrow> Q e"
  shows "List.map_filter (row_entry P) (rows_under rows \<lparr>kq_prefix = pre, kq_order = order, kq_limit = n\<rparr>) =
    filter Q (index_entries P rows order)"
proof -
  have "List.map_filter (row_entry P) (filter (\<lambda>row. starts_with pre (fst row)) (in_order order rows)) =
      filter Q (List.map_filter (row_entry P) (in_order order rows))"
    using assms by (intro map_filter_filter) simp_all
  then show ?thesis by (simp add: rows_under_def index_entries_def filter_in_order)
qed

lemma entries_under_prefix:
  assumes "rows_ok rows" "list_all ascii_digit p" "length p \<le> 20"
  shows "List.map_filter (row_entry P) (rows_under rows \<lparr>kq_prefix = P @ p, kq_order = order, kq_limit = n\<rparr>) =
    filter (\<lambda>e. plo p \<le> ti_created_at e \<and> ti_created_at e \<le> phi p) (index_entries P rows order)"
proof (rule entries_under)
  fix row e assume row: "row \<in> set rows" "row_entry P row = Some e"
  obtain time oid where t: "fst row = index_key P time oid" "length time = 20" "list_all ascii_digit time"
      "ti_created_at e = int (dval time)"
    using row_entry_Some [OF assms(1) row] by metis
  have "starts_with (P @ p) (fst row) \<longleftrightarrow> starts_with p time"
    using t(1,2) assms(3) by (simp add: index_key_def starts_with_append_iff starts_with_prefix)
  then show "starts_with (P @ p) (fst row) \<longleftrightarrow> plo p \<le> ti_created_at e \<and> ti_created_at e \<le> phi p"
    using prefix_range [OF assms(2,3) t(3,2)] t(4) by simp
qed

lemma pad20_digits: "0 \<le> t \<Longrightarrow> t \<le> i64_max \<Longrightarrow> list_all ascii_digit (pad20 t) \<and> length (pad20 t) = 20 \<and> int (dval (pad20 t)) = t"
  using pad20_read [of t] show_nat_digits [of "nat t"] by (auto simp: pad20_def list_all_iff dval_def)

lemma entries_of_second:
  assumes "rows_ok rows" "0 \<le> t" "t \<le> i64_max"
  shows "List.map_filter (row_entry P) (rows_under rows \<lparr>kq_prefix = P @ pad20 t @ ''-'', kq_order = order, kq_limit = n\<rparr>) =
    filter (\<lambda>e. ti_created_at e = t) (index_entries P rows order)"
proof (rule entries_under)
  fix row e assume row: "row \<in> set rows" "row_entry P row = Some e"
  note pad = pad20_digits [OF assms(2,3)]
  obtain time oid where r: "fst row = index_key P time oid" "length time = 20" "list_all ascii_digit time"
      "ti_created_at e = int (dval time)"
    using row_entry_Some [OF assms(1) row] by metis
  have "starts_with (P @ pad20 t @ ''-'') (fst row) \<longleftrightarrow> pad20 t = time"
    using r(1,2) pad by (auto simp: index_key_def starts_with_append_iff) (auto simp: starts_with_def)
  then show "starts_with (P @ pad20 t @ ''-'') (fst row) \<longleftrightarrow> ti_created_at e = t"
    using dval_inject [of time "pad20 t"] r pad by auto
qed

text \<open>How far an entry is in the direction of reading: entries come in this order.\<close>

definition rank :: "DocKeyOrder \<Rightarrow> int \<Rightarrow> int" where
  "rank order t = (case order of Ascending \<Rightarrow> t | Descending \<Rightarrow> i64_max - t)"

lemma index_entries_range:
  assumes "rows_ok rows" "e \<in> set (index_entries P rows order)"
  shows "0 \<le> ti_created_at e \<and> ti_created_at e \<le> i64_max \<and> ti_object_id e \<noteq> []"
proof -
  obtain row where "row \<in> set rows" "row_entry P row = Some e"
    using assms(2) by (auto simp: index_entries_def List.map_filter_def)
  then obtain time oid where "int (dval time) \<le> i64_max" "oid \<noteq> []" "ti_created_at e = int (dval time)" "ti_object_id e = oid"
    using row_entry_Some [OF assms(1)] by metis
  then show ?thesis by simp
qed

lemma keys_sorted_times:
  assumes "length s = 20" "length t = 20" "list_all ascii_digit s" "list_all ascii_digit t" "index_key P s a \<le> index_key P t b"
  shows "dval s \<le> dval t"
proof -
  have "\<not> index_key P t b < index_key P s a" using assms(5) by simp
  then have "\<not> t < s" using append_less_iff [of t s "''-'' @ b @ ''/'' @ b" "''-'' @ a @ ''/'' @ a"]
      append_less_iff [of P P] assms(1,2) by (simp add: index_key_def)
  then show ?thesis using dval_less_iff [OF assms(4,3)] assms(1,2) by simp
qed

lemma index_entries_sorted_asc:
  assumes "rows_ok rows"
  shows "sorted (map ti_created_at (List.map_filter (row_entry P) rows))"
proof -
  have "sorted (map ti_created_at (List.map_filter (row_entry P) xs))" if "sorted (map fst xs)" "set xs \<subseteq> set rows" for xs
    using that
  proof (induction xs)
    case (Cons row xs)
    have "ti_created_at e \<le> ti_created_at f" if e: "row_entry P row = Some e" and f: "x \<in> set xs" "row_entry P x = Some f" for e x f
    proof -
      have "row \<in> set rows" "x \<in> set rows" using Cons.prems f by auto
      then show ?thesis using row_entry_Some [OF assms _ e] row_entry_Some [OF assms _ f(2)] keys_sorted_times Cons.prems(1) f(1)
        by (smt (verit, best) list.set_map image_eqI list.simps(9) of_nat_le_iff sorted_simps(2))
    qed
    then show ?case using Cons by (cases "row_entry P row") (auto simp: List.map_filter_def)
  qed (simp add: List.map_filter_def)
  then show ?thesis using assms by (simp add: rows_ok_def)
qed

lemma map_filter_rev: "List.map_filter f (rev xs) = rev (List.map_filter f xs)"
  by (simp add: List.map_filter_def rev_map rev_filter)

lemma index_entries_order: "index_entries P rows order = in_order order (index_entries P rows Ascending)"
  by (simp add: index_entries_def in_order_def map_filter_rev split: DocKeyOrder.split)

lemma index_entries_sorted:
  assumes "rows_ok rows"
  shows "sorted (map (\<lambda>e. rank order (ti_created_at e)) (index_entries P rows order))"
proof (cases order)
  case Ascending
  then show ?thesis using index_entries_sorted_asc [OF assms] by (simp add: index_entries_def in_order_def rank_def)
next
  case Descending
  then show ?thesis using index_entries_sorted_asc [OF assms, of P]
    by (simp add: index_entries_def in_order_def rank_def map_filter_rev sorted_wrt_rev sorted_wrt_map rev_map [symmetric])
qed

section \<open>The stack covers what is left\<close>

text \<open>A prefix is an interval of ranks, cut to the times that exist; a stack is a chain when its intervals follow each other.\<close>

definition cut :: "int \<Rightarrow> int" where
  "cut x = max 0 (min (i64_max + 1) x)"

definition near :: "DocKeyOrder \<Rightarrow> string \<Rightarrow> int" where
  "near order p = cut (case order of Ascending \<Rightarrow> plo p | Descending \<Rightarrow> i64_max - phi p)"

definition far :: "DocKeyOrder \<Rightarrow> string \<Rightarrow> int" where
  "far order p = cut (case order of Ascending \<Rightarrow> phi p + 1 | Descending \<Rightarrow> i64_max + 1 - plo p)"

fun chain :: "DocKeyOrder \<Rightarrow> int \<Rightarrow> string list \<Rightarrow> bool" where
  "chain order b [] \<longleftrightarrow> b = i64_max + 1"
| "chain order b (p # ps) \<longleftrightarrow> time_prefix p \<and> near order p = b \<and> chain order (far order p) ps"

lemma cut_mono: "x \<le> y \<Longrightarrow> cut x \<le> cut y"
  by (simp add: cut_def)

lemma near_le_far: "near order p \<le> far order p"
  using plo_le_phi [of p] by (auto simp: near_def far_def split: DocKeyOrder.split intro!: cut_mono)

lemma near_bounds: "0 \<le> near order p" "near order p \<le> i64_max + 1"
  by (auto simp: near_def cut_def)

lemma chain_above: "chain order b ps \<Longrightarrow> p \<in> set ps \<Longrightarrow> b \<le> near order p"
proof (induction ps arbitrary: b)
  case (Cons q ps)
  then show ?case using near_le_far [of order q] by fastforce
qed simp

lemma rank_in_prefix:
  assumes "0 \<le> t" "t \<le> i64_max"
  shows "near order p \<le> rank order t \<and> rank order t < far order p \<longleftrightarrow> plo p \<le> t \<and> t \<le> phi p"
  using assms by (cases order) (auto simp: near_def far_def cut_def rank_def)

definition remaining :: "DocKeyOrder \<Rightarrow> int \<Rightarrow> TimeIndexEntry list \<Rightarrow> TimeIndexEntry list" where
  "remaining order b V = filter (\<lambda>e. b \<le> rank order (ti_created_at e)) V"

lemma filter_sorted_split:
  "sorted (map f xs) \<Longrightarrow> a \<le> b \<Longrightarrow>
    filter (\<lambda>x. a \<le> f x) xs = filter (\<lambda>x. a \<le> f x \<and> f x < b) xs @ filter (\<lambda>x. b \<le> f x) xs" for f :: "'a \<Rightarrow> int"
proof (induction xs)
  case (Cons x xs)
  show ?case
  proof (cases "f x < b")
    case False
    then have "filter (\<lambda>x. a \<le> f x \<and> f x < b) xs = []" using Cons.prems by (fastforce simp: filter_empty_conv)
    then show ?thesis using False Cons by auto
  qed (use Cons in auto)
qed simp

lemma remaining_prefix:
  assumes "rows_ok rows"
  shows "remaining order (near order p) (index_entries P rows order) =
    filter (\<lambda>e. plo p \<le> ti_created_at e \<and> ti_created_at e \<le> phi p) (index_entries P rows order) @
    remaining order (far order p) (index_entries P rows order)"
proof -
  let ?V = "index_entries P rows order"
  have "filter (\<lambda>e. near order p \<le> rank order (ti_created_at e) \<and> rank order (ti_created_at e) < far order p) ?V =
      filter (\<lambda>e. plo p \<le> ti_created_at e \<and> ti_created_at e \<le> phi p) ?V"
    using index_entries_range [OF assms] rank_in_prefix by (intro filter_cong) auto
  then show ?thesis
    using filter_sorted_split [OF index_entries_sorted [OF assms, of order P] near_le_far, of order p] by (simp add: remaining_def)
qed

lemma remaining_top: "rows_ok rows \<Longrightarrow> remaining order (i64_max + 1) (index_entries P rows order) = []"
  using index_entries_range [of rows _ P order] by (fastforce simp: remaining_def rank_def filter_empty_conv split: DocKeyOrder.splits)

lemma remaining_all: "rows_ok rows \<Longrightarrow> b \<le> 0 \<Longrightarrow> remaining order b (index_entries P rows order) = index_entries P rows order"
  using index_entries_range [of rows _ P order] by (fastforce simp: remaining_def rank_def filter_id_conv split: DocKeyOrder.splits)

section \<open>Splitting a prefix\<close>

lemma show_digit: "d < 10 \<Longrightarrow> show_nat d = [digit_char d] \<and> ascii_digit (digit_char d) \<and> dval [digit_char d] = d"
  using show_nat_digits [of d] read_digits_show_nat [of d] by (simp add: show_nat.simps dval_def)

lemma child_prefix:
  assumes "list_all ascii_digit p" "length p < 20" "d < 10"
  shows "list_all ascii_digit (p @ show_nat d)" "length (p @ show_nat d) = length p + 1"
    "plo (p @ show_nat d) = plo p + int d * 10 ^ (19 - length p)"
    "phi (p @ show_nat d) + 1 = plo p + (int d + 1) * 10 ^ (19 - length p)"
proof -
  note d = show_digit [OF assms(3)]
  have w: "20 - length p = Suc (19 - length p)" using assms(2) by simp
  have "dval (p @ show_nat d) = dval p * 10 + d" using dval_append [OF assms(1), of "[digit_char d]"] d by simp
  then show "plo (p @ show_nat d) = plo p + int d * 10 ^ (19 - length p)"
    "phi (p @ show_nat d) + 1 = plo p + (int d + 1) * 10 ^ (19 - length p)"
    using d by (simp_all add: plo_def phi_def w algebra_simps)
qed (use assms show_digit [OF assms(3)] in simp_all)

lemma child_time_prefix: "time_prefix p \<Longrightarrow> length p < 20 \<Longrightarrow> d < 10 \<Longrightarrow> p \<noteq> [] \<Longrightarrow> time_prefix (p @ show_nat d)"
  using child_prefix [of p d] by (simp add: time_prefix_def)

lemma chain_children_asc:
  assumes "time_prefix p" "p \<noteq> []" "length p < 20" "e \<le> 10"
  shows "d \<le> e \<Longrightarrow> chain Ascending (cut (plo p + int e * 10 ^ (19 - length p))) ps \<Longrightarrow>
    chain Ascending (cut (plo p + int d * 10 ^ (19 - length p))) (map (\<lambda>i. p @ show_nat i) [d..<e] @ ps)"
proof (induction "e - d" arbitrary: d)
  case (Suc n)
  then have d: "d < e" "d < 10" using assms(4) by simp_all
  have p: "list_all ascii_digit p" using assms(1) by (simp add: time_prefix_def)
  have "chain Ascending (cut (plo p + int (Suc d) * 10 ^ (19 - length p))) (map (\<lambda>i. p @ show_nat i) [Suc d..<e] @ ps)"
    using Suc d by (intro Suc.hyps) simp_all
  then show ?case using d child_prefix [OF p assms(3) d(2)] child_time_prefix [OF assms(1,3) d(2) assms(2)]
    by (simp add: upt_conv_Cons near_def far_def algebra_simps)
qed simp

lemma chain_children_desc:
  assumes "time_prefix p" "p \<noteq> []" "length p < 20"
  shows "e \<le> 10 \<Longrightarrow> chain Descending (cut (i64_max + 1 - plo p)) ps \<Longrightarrow>
    chain Descending (cut (i64_max + 1 - (plo p + int e * 10 ^ (19 - length p)))) (map (\<lambda>i. p @ show_nat i) (rev [0..<e]) @ ps)"
proof (induction e)
  case (Suc e)
  have p: "list_all ascii_digit p" using assms(1) by (simp add: time_prefix_def)
  have e: "e < 10" using Suc by simp
  have "i64_max - phi (p @ show_nat e) = i64_max + 1 - (plo p + (int e + 1) * 10 ^ (19 - length p))"
    using child_prefix(4) [OF p assms(3) e] by linarith
  then show ?case using Suc child_prefix(3) [OF p assms(3) e] child_time_prefix [OF assms(1,3) e assms(2)]
    by (simp add: near_def far_def algebra_simps)
qed simp

lemma phi_plo: "length p < 20 \<Longrightarrow> phi p + 1 = plo p + 10 * 10 ^ (19 - length p)"
proof -
  assume "length p < 20"
  then have "20 - length p = Suc (19 - length p)" by simp
  then show ?thesis by (simp add: phi_def plo_def algebra_simps)
qed

lemma chain_split:
  assumes "time_prefix p" "length p < 20" "chain order (far order p) ps"
  shows "chain order (near order p) (rev (split_time_prefix order p) @ ps)"
proof (cases "p = []")
  case True
  have "time_prefix ''0''" by (simp add: time_prefix_def)
  moreover have "near order ''0'' = near order ''''" "far order ''0'' = far order ''''"
    by (simp_all add: near_def far_def plo_def phi_def dval_def digit_value_def cut_def split: DocKeyOrder.split)
  ultimately show ?thesis using True assms(3) by (simp add: split_time_prefix_def)
next
  case False
  show ?thesis
  proof (cases order)
    case Ascending
    then show ?thesis using chain_children_asc [OF assms(1) False assms(2), of 10 0 ps] assms(3) phi_plo [OF assms(2)] False
      by (simp add: split_time_prefix_def near_def far_def rev_map)
  next
    case Descending
    have "i64_max - phi p = i64_max + 1 - (plo p + int 10 * 10 ^ (19 - length p))" using phi_plo [OF assms(2)] by simp
    then have "near order p = cut (i64_max + 1 - (plo p + int 10 * 10 ^ (19 - length p)))"
      using Descending by (simp only: near_def DocKeyOrder.case)
    moreover have "rev (split_time_prefix order p) = map (\<lambda>i. p @ show_nat i) (rev [0..<10])"
      using Descending False by (simp add: split_time_prefix_def rev_map)
    ultimately show ?thesis using chain_children_desc [OF assms(1) False assms(2), of 10 ps] assms(3) Descending
      by (simp only: far_def DocKeyOrder.case le_refl)
  qed
qed

section \<open>The prefixes beyond a cursor\<close>

definition digits_of_time :: "string \<Rightarrow> bool" where
  "digits_of_time s \<longleftrightarrow> list_all ascii_digit s \<and> length s = 20 \<and> int (dval s) \<le> i64_max"

lemma time_digit:
  assumes "list_all ascii_digit s" "k < length s"
  shows "of_char (s ! k) - 48 < (10 :: nat)" "show_nat (of_char (s ! k) - 48) = [s ! k]"
proof -
  have c: "ascii_digit (s ! k)" using assms by (simp add: list_all_length)
  then have v: "digit_value (s ! k) = Some (of_char (s ! k) - 48)" by (simp add: digit_value_def)
  show d: "of_char (s ! k) - 48 < (10 :: nat)" using digit_value_mono [OF v v] by simp
  have "dval [s ! k] = of_char (s ! k) - 48" using v by (simp add: dval_def)
  then show "show_nat (of_char (s ! k) - 48) = [s ! k]"
    using show_digit [OF d] dval_inject [of "[s ! k]" "[digit_char (of_char (s ! k) - 48)]"] c by simp
qed

lemma time_starts_with_zero: "digits_of_time s \<Longrightarrow> s ! 0 = CHR ''0''"
proof -
  assume s: "digits_of_time s"
  then obtain c t where ct: "s = [c] @ t" "ascii_digit c" "list_all ascii_digit t" "length t = 19"
    by (cases s) (auto simp: digits_of_time_def)
  have "dval s = dval [c] * 10 ^ 19 + dval t" using dval_append [of "[c]" t] ct by simp
  moreover have "int (dval s) < 10 ^ 19" using s by (simp add: digits_of_time_def)
  ultimately have "dval [c] = 0" by (cases "dval [c]") auto
  then have "c = CHR ''0''" using dval_inject [of "[c]" "''0''"] ct by (simp add: dval_zeros [of 1, simplified])
  then show ?thesis using ct by simp
qed

lemma take_time_prefix:
  assumes "digits_of_time s" "k \<le> 20"
  shows "time_prefix (take k s)" "length (take k s) = k"
proof -
  have "list_all ascii_digit (take k s)" using assms(1) by (metis append_take_drop_id digits_of_time_def list_all_append)
  moreover have "take k s = [] \<or> hd (take k s) = CHR ''0''"
    using time_starts_with_zero [OF assms(1)] by (cases k; cases s) auto
  ultimately show "time_prefix (take k s)" "length (take k s) = k" using assms by (auto simp: time_prefix_def digits_of_time_def)
qed

lemma take_Suc_digit:
  assumes "digits_of_time s" "k < 20"
  shows "take (Suc k) s = take k s @ show_nat (of_char (s ! k) - 48)" "of_char (s ! k) - 48 < (10 :: nat)"
  using assms time_digit [of s k] by (auto simp: digits_of_time_def take_Suc_conv_app_nth)

lemma cursor_chain_desc:
  assumes "digits_of_time s"
  shows "chain Descending (cut (i64_max + 1 - int (dval s))) (rev (cursor_pending Descending s))"
proof -
  let ?f = "\<lambda>k. map (\<lambda>smaller. take k s @ show_nat smaller) [0..<of_char (s ! k) - 48]"
  have "k \<le> 20 \<Longrightarrow> chain Descending (cut (i64_max + 1 - plo (take k s))) (rev (concat (map ?f [0..<k])))" for k
  proof (induction k)
    case 0
    then show ?case by (simp add: cut_def plo_def dval_def)
  next
    case (Suc k)
    note d = take_Suc_digit [OF assms, of k] and p = take_time_prefix [OF assms, of k]
    have IH: "chain Descending (cut (i64_max + 1 - plo (take k s))) (rev (concat (map ?f [0..<k])))" using Suc by simp
    show ?case
    proof (cases "k = 0")
      case True
      have "dval (show_nat 0) = 0" by (simp add: dval_def)
      then show ?thesis using True time_starts_with_zero [OF assms] d(1) Suc.prems IH by (simp add: plo_def dval_def [of "[]"])
    next
      case False
      then have "take k s \<noteq> []" using p(2) Suc.prems by auto
      moreover have "plo (take (Suc k) s) = plo (take k s) + int (of_char (s ! k) - 48) * 10 ^ (19 - k)"
        using child_prefix(3) [of "take k s"] d p Suc.prems by (simp add: time_prefix_def)
      ultimately show ?thesis using chain_children_desc [of "take k s" "of_char (s ! k) - 48" "rev (concat (map ?f [0..<k]))"]
          IH p d(2) Suc.prems by (simp add: rev_map)
    qed
  qed
  from this [of 20] show ?thesis using assms by (simp add: cursor_pending_def TIME_DIGITS_def Let_def plo_def digits_of_time_def)
qed

lemma cursor_chain_asc:
  assumes "digits_of_time s"
  shows "chain Ascending (cut (int (dval s) + 1)) (rev (cursor_pending Ascending s))"
proof -
  let ?f = "\<lambda>k. if k = 0 then [] else map (\<lambda>larger. take k s @ show_nat larger) (rev [of_char (s ! k) - 48 + 1..<10])"
  have "k < 20 \<Longrightarrow> chain Ascending (cut (phi (take (Suc k) s) + 1)) (rev (concat (map ?f [0..<Suc k])))" for k
  proof (induction k)
    case 0
    have "take (Suc 0) s = ''0''" using time_starts_with_zero [OF assms] assms by (cases s) (auto simp: digits_of_time_def)
    then show ?case by (simp add: cut_def phi_def dval_def digit_value_def)
  next
    case (Suc k)
    let ?k = "Suc k" and ?d = "of_char (s ! Suc k) - 48 :: nat"
    note d = take_Suc_digit [OF assms Suc.prems] and p = take_time_prefix [OF assms, of ?k]
    have IH: "chain Ascending (cut (phi (take ?k s) + 1)) (rev (concat (map ?f [0..<?k])))" using Suc by simp
    have ne: "take ?k s \<noteq> []" using p(2) Suc.prems by auto
    have digits: "list_all ascii_digit (take ?k s)" using p Suc.prems by (simp add: time_prefix_def)
    have start: "phi (take (Suc ?k) s) + 1 = plo (take ?k s) + int (?d + 1) * 10 ^ (19 - ?k)"
      using child_prefix(4) [OF digits, of ?d] d p(2) Suc.prems by simp
    have stop: "phi (take ?k s) + 1 = plo (take ?k s) + int 10 * 10 ^ (19 - ?k)"
      using phi_plo [of "take ?k s"] p(2) Suc.prems by simp
    have "chain Ascending (cut (plo (take ?k s) + int (?d + 1) * 10 ^ (19 - ?k)))
        (map (\<lambda>i. take ?k s @ show_nat i) [?d + 1..<10] @ rev (concat (map ?f [0..<?k])))"
      using chain_children_asc [OF p(1) ne, of 10 "?d + 1" "rev (concat (map ?f [0..<?k]))"] p(2) Suc.prems d(2) IH [unfolded stop]
      by simp
    then show ?case unfolding start by (simp add: rev_map)
  qed
  from this [of 19] show ?thesis
    using assms by (simp add: cursor_pending_def TIME_DIGITS_def Let_def phi_def digits_of_time_def)
qed

lemma pad20_time: "0 \<le> t \<Longrightarrow> t \<le> i64_max \<Longrightarrow> digits_of_time (pad20 t)"
  using pad20_digits [of t] by (simp add: digits_of_time_def)

text \<open>A walk without a cursor starts with the empty prefix.\<close>

lemma chain_all: "chain order 0 ['''']"
  by (cases order) (simp_all add: time_prefix_def near_def far_def plo_def phi_def dval_def cut_def)

end
