(* ===== verification/Time_Pages.thy ===== *)
theory Time_Pages
  imports Time_Index
begin

text \<open>
  The pages of a time index are exact. The contract of a bounded listing is the locale \<open>key_listing\<close>; the walk is proved
  correct in it once, and it is interpreted on the two listings of the in-memory store.
\<close>

section \<open>What a listing promises\<close>

lemma map_filter_append: "List.map_filter f (xs @ ys) = List.map_filter f xs @ List.map_filter f ys"
  by (simp add: List.map_filter_def)

lemma map_filter_take: "List.map_filter f (take n xs) = take (length (List.map_filter f (take n xs))) (List.map_filter f xs)"
  by (metis append_eq_conv_conj append_take_drop_id map_filter_append)

lemma length_map_filter: "length (List.map_filter f xs) + length (filter (\<lambda>x. f x = None) xs) = length xs"
  by (induction xs) (auto simp: List.map_filter_def)

lemma length_filter_take: "length (filter P (take n xs)) \<le> length (filter P xs)"
  by (metis append_take_drop_id filter_append le_add1 length_append)

lemma length_in_order [simp]: "length (in_order order xs) = length xs"
  by (simp add: in_order_def split: DocKeyOrder.split)

text \<open>No second holds more keys of another shape than the walk allows for.\<close>

definition few_malformed :: "string \<Rightarrow> key_row list \<Rightarrow> bool" where
  "few_malformed P rows \<longleftrightarrow> (\<forall>p. list_all ascii_digit p \<longrightarrow> length p = 20 \<longrightarrow>
     length (filter (\<lambda>row. starts_with (P @ p) (fst row) \<and> row_entry P row = None) rows) \<le> 32)"

text \<open>
  The contract of a bounded listing of keys: it returns the entries of the first rows under the prefix, in order, up to the
  limit, skipping what it cannot show, and says whether it stopped at the limit. \<open>ready\<close> is what it needs of the store and keeps.
\<close>

locale key_listing =
  fixes list_keys :: "DocKeyQuery \<Rightarrow> 's \<Rightarrow> DocKeyPage result \<times> 's" and ready :: "'s \<Rightarrow> bool" and rows :: "key_row list"
  assumes rows: "rows_ok rows"
    and listed: "ready s \<Longrightarrow> 0 < kq_limit q \<Longrightarrow> \<exists>t reached. ready t \<and>
      list_keys q s = (Inr \<lparr>kp_entries = List.map_filter snd (take (kq_limit q) (rows_under rows q)), kp_reached_limit = reached\<rparr>, t) \<and>
      (reached \<longrightarrow> kq_limit q \<le> length (rows_under rows q)) \<and> (\<not> reached \<longrightarrow> length (rows_under rows q) \<le> kq_limit q)"
begin

lemma page_of_prefix:
  assumes "ready s" "list_all ascii_digit p" "length p \<le> 20" "0 < n"
  obtains t page where "list_keys \<lparr>kq_prefix = P @ p, kq_order = order, kq_limit = n\<rparr> s = (Inr page, t)" "ready t"
    and "parse_entries P (kp_entries page) = take (length (parse_entries P (kp_entries page)))
      (filter (\<lambda>e. plo p \<le> ti_created_at e \<and> ti_created_at e \<le> phi p) (index_entries P rows order))"
    and "\<not> kp_reached_limit page \<Longrightarrow> parse_entries P (kp_entries page) =
      filter (\<lambda>e. plo p \<le> ti_created_at e \<and> ti_created_at e \<le> phi p) (index_entries P rows order)"
    and "kp_reached_limit page \<Longrightarrow> length p = 20 \<Longrightarrow> few_malformed P rows \<Longrightarrow> n \<le> length (parse_entries P (kp_entries page)) + 32"
proof -
  let ?q = "\<lparr>kq_prefix = P @ p, kq_order = order, kq_limit = n\<rparr>"
  obtain t reached where t: "ready t"
    "list_keys ?q s = (Inr \<lparr>kp_entries = List.map_filter snd (take n (rows_under rows ?q)), kp_reached_limit = reached\<rparr>, t)"
    "reached \<Longrightarrow> n \<le> length (rows_under rows ?q)" "\<not> reached \<Longrightarrow> length (rows_under rows ?q) \<le> n"
    using listed [OF assms(1), of ?q] assms(4) by auto
  let ?valid = "List.map_filter (row_entry P) (take n (rows_under rows ?q))"
  let ?bad = "\<lambda>row. row_entry P row = None"
  have all: "List.map_filter (row_entry P) (rows_under rows ?q) =
      filter (\<lambda>e. plo p \<le> ti_created_at e \<and> ti_created_at e \<le> phi p) (index_entries P rows order)"
    using entries_under_prefix [OF rows assms(2,3)] .
  have crowded: "n \<le> length ?valid + 32" if "reached" "length p = 20" "few_malformed P rows"
  proof -
    have "length (filter ?bad (take n (rows_under rows ?q))) \<le> length (filter ?bad (rows_under rows ?q))" by (rule length_filter_take)
    also have "\<dots> = length (filter (\<lambda>row. starts_with (P @ p) (fst row) \<and> ?bad row) rows)"
      by (simp add: rows_under_def filter_in_order conj_commute)
    also have "\<dots> \<le> 32" using that assms(2) by (simp add: few_malformed_def)
    finally show ?thesis using t(3) [OF that(1)] length_map_filter [of "row_entry P" "take n (rows_under rows ?q)"] by simp
  qed
  show thesis
    by (rule that [OF t(2,1)]) (use all t(4) crowded map_filter_take [of "row_entry P" n "rows_under rows ?q"] in \<open>simp_all add: parse_entries_rows\<close>)
qed

lemma edge_of_index:
  assumes "ready s"
  obtains t edge where "index_edge list_keys P order s = (Inr edge, t)" "ready t"
    and "edge = EmptyEdge \<Longrightarrow> index_entries P rows order = []"
    and "\<And>x e. edge = EdgeAt x \<Longrightarrow> e \<in> set (index_entries P rows order) \<Longrightarrow> rank order (ti_created_at e) \<le> rank order (int x)"
proof -
  define opposite where "opposite = (case order of Descending \<Rightarrow> Ascending | Ascending \<Rightarrow> Descending)"
  let ?V = "index_entries P rows opposite"
  have all: "filter (\<lambda>e. plo '''' \<le> ti_created_at e \<and> ti_created_at e \<le> phi '''') ?V = ?V"
    using index_entries_range [OF rows, of _ P opposite] by (fastforce simp: filter_id_conv plo_def phi_def dval_def)
  obtain t page where page: "list_keys \<lparr>kq_prefix = P, kq_order = opposite, kq_limit = 33\<rparr> s = (Inr page, t)" "ready t"
      "parse_entries P (kp_entries page) = take (length (parse_entries P (kp_entries page))) ?V"
      "\<not> kp_reached_limit page \<Longrightarrow> parse_entries P (kp_entries page) = ?V"
    by (rule page_of_prefix [OF assms, of "''''" 33 P opposite]) (simp_all add: all)
  let ?edge = "case parse_entries P (kp_entries page) of [] \<Rightarrow> if kp_reached_limit page then UnknownEdge else EmptyEdge
     | entry # _ \<Rightarrow> if 0 \<le> ti_created_at entry then EdgeAt (nat (ti_created_at entry))
         else if kp_reached_limit page then UnknownEdge else EmptyEdge"
  have run: "index_edge list_keys P order s = (Inr ?edge, t)"
    using page(1) by (simp add: index_edge_def mbind_def mlift_def opposite_def MALFORMED_KEY_ALLOWANCE_def sat_u64_def min_def)
  have same: "set (index_entries P rows order) = set ?V" by (simp add: index_entries_order [of P rows order] index_entries_order [of P rows opposite])
  show thesis
  proof (cases "parse_entries P (kp_entries page)")
    case Nil
    then show ?thesis by (intro that [OF run page(2)]) (use page(4) same in \<open>auto split: if_splits\<close>)
  next
    case (Cons a as)
    then obtain bs where bs: "?V = a # bs" using page(3) by (cases ?V) simp_all
    have a: "0 \<le> ti_created_at a" using index_entries_range [OF rows, of a P opposite] bs by simp
    have "rank opposite (ti_created_at a) \<le> rank opposite (ti_created_at e)" if "e \<in> set ?V" for e
      using index_entries_sorted [OF rows, of opposite P] that bs by auto
    then have far: "rank order (ti_created_at e) \<le> rank order (ti_created_at a)" if "e \<in> set ?V" for e
      using that by (auto simp: rank_def opposite_def split: DocKeyOrder.splits)
    show ?thesis by (intro that [OF run page(2)]) (use Cons a far same in auto)
  qed
qed

end

section \<open>The invariant of the walk\<close>

text \<open>
  A walk over the entries \<open>V\<close> that has to produce \<open>goal\<close> is open when its stack starts at a rank \<open>b\<close> and what it has
  collected and what lies from \<open>b\<close> on make up the goal; at its first rank \<open>b0\<close> it has only split prefixes.
\<close>

definition walk_open :: "DocKeyOrder \<Rightarrow> TimeIndexEntry list \<Rightarrow> TimeIndexEntry list \<Rightarrow> int \<Rightarrow> int \<Rightarrow> walk_state \<Rightarrow> bool" where
  "walk_open order V goal b0 b w \<longleftrightarrow> b0 \<le> b \<and> chain order b (rev (wk_pending w)) \<and>
     wk_entries w @ remaining order b V = goal \<and> (\<forall>p \<in> set (wk_pending w). near order p = b0 \<longrightarrow> wk_queries w \<le> length p)"

definition walk_inv :: "DocKeyOrder \<Rightarrow> nat \<Rightarrow> TimeIndexEntry list \<Rightarrow> TimeIndexEntry list \<Rightarrow> int \<Rightarrow> walk_state \<Rightarrow> bool" where
  "walk_inv order limit V goal b0 w \<longleftrightarrow> wk_resume w = None \<and> wk_queries w \<le> 256 \<and>
     (\<forall>x e. wk_edge w = EdgeAt x \<longrightarrow> e \<in> set V \<longrightarrow> rank order (ti_created_at e) \<le> rank order (int x)) \<and>
     ((\<exists>b. walk_open order V goal b0 b w) \<or> limit \<le> length (wk_entries w) \<and> take limit (wk_entries w) = take limit goal)"

definition cursor_at :: "DocKeyOrder \<Rightarrow> int \<Rightarrow> TimeIndexCursor" where
  "cursor_at order b = \<lparr>tc_created_at = (case order of Ascending \<Rightarrow> b | Descending \<Rightarrow> i64_max - b + 1), tc_object_id = []\<rparr>"

definition walk_done :: "DocKeyOrder \<Rightarrow> nat \<Rightarrow> TimeIndexEntry list \<Rightarrow> TimeIndexEntry list \<Rightarrow> int \<Rightarrow> walk_state \<Rightarrow> bool" where
  "walk_done order limit V goal b0 w \<longleftrightarrow> wk_queries w \<le> 256 \<and> (case wk_resume w of
     None \<Rightarrow> take limit (wk_entries w) = take limit goal
   | Some r \<Rightarrow> length (wk_entries w) < limit \<and> (\<exists>b. b0 < b \<and> b \<le> i64_max \<and> r = cursor_at order b \<and>
       wk_entries w @ remaining order b V = goal))"

fun flow_ok :: "DocKeyOrder \<Rightarrow> nat \<Rightarrow> TimeIndexEntry list \<Rightarrow> TimeIndexEntry list \<Rightarrow> int \<Rightarrow> walk_flow \<Rightarrow> bool" where
  "flow_ok order limit V goal b0 (Continue w) = walk_inv order limit V goal b0 w"
| "flow_ok order limit V goal b0 (Break w) = walk_done order limit V goal b0 w"

lemma walk_openI_later:
  assumes "chain order (far order p) (rev (wk_pending w))" "b0 \<le> near order p" "near order p < far order p"
    "wk_entries w @ remaining order (far order p) V = goal"
  shows "walk_open order V goal b0 (far order p) w"
proof -
  have "near order q \<noteq> b0" if "q \<in> set (wk_pending w)" for q using chain_above [OF assms(1), of q] that assms(2,3) by auto
  then show ?thesis using assms by (auto simp: walk_open_def)
qed

lemma split_lengths: "q \<in> set (split_time_prefix order p) \<Longrightarrow> length q = length p + 1"
  by (auto simp: split_time_prefix_def length_show_digit split: if_splits DocKeyOrder.splits)

lemma walk_open_split:
  assumes "time_prefix p" "length p < 20" "chain order (far order p) (rev (wk_pending w))" "b0 \<le> near order p" "near order p < far order p"
    "wk_entries w @ remaining order (near order p) V = goal" "near order p = b0 \<longrightarrow> wk_queries w \<le> length p"
  shows "walk_open order V goal b0 (near order p)
    (w\<lparr>wk_queries := wk_queries w + 1, wk_pending := wk_pending w @ split_time_prefix order p\<rparr>)"
proof -
  have chain: "chain order (near order p) (rev (split_time_prefix order p) @ rev (wk_pending w))"
    by (rule chain_split [OF assms(1-3)])
  have "wk_queries w + 1 \<le> length q" if "q \<in> set (wk_pending w @ split_time_prefix order p)" "near order q = b0" for q
  proof -
    have "q \<notin> set (wk_pending w)" using chain_above [OF assms(3), of q] that(2) assms(4,5) by auto
    then have "q \<in> set (split_time_prefix order p)" using that(1) by simp
    moreover have "near order p = b0" using chain_above [OF chain, of q] that assms(4) by auto
    ultimately show ?thesis using split_lengths assms(7) by simp
  qed
  then show ?thesis using chain assms(4,6) by (simp add: walk_open_def)
qed

lemma full_page:
  assumes "entries @ inside @ later = goal" "valid = take (length valid) inside" "limit - length entries \<le> length valid"
  shows "take limit (entries @ valid) = take limit goal" "limit \<le> length (entries @ valid)"
proof -
  have "inside = valid @ drop (length valid) inside" using assms(2) by (metis append_take_drop_id)
  then have "goal = (entries @ valid) @ drop (length valid) inside @ later" using assms(1) by (metis append.assoc)
  then show "take limit (entries @ valid) = take limit goal" using assms(3) by simp
  show "limit \<le> length (entries @ valid)" using assms(3) by simp
qed

lemma near_less_far: "plo p \<le> i64_max \<Longrightarrow> near order p < far order p"
  using plo_le_phi [of p] plo_nonneg [of p] by (cases order) (auto simp: near_def far_def cut_def)

context key_listing
begin

lemma walk_page_ok:
  assumes "ready s" and few: "few_malformed P rows" and p: "time_prefix p" "plo p \<le> i64_max"
    and w: "b0 \<le> near order p" "chain order (far order p) (rev (wk_pending w))"
      "wk_entries w @ remaining order (near order p) (index_entries P rows order) = goal"
      "near order p = b0 \<longrightarrow> wk_queries w \<le> length p" "wk_resume w = None" "wk_queries w < 256"
      "\<forall>x e. wk_edge w = EdgeAt x \<longrightarrow> e \<in> set (index_entries P rows order) \<longrightarrow> rank order (ti_created_at e) \<le> rank order (int x)"
    and needed: "needed = limit - length (wk_entries w)"
    and page: "parse_entries P (kp_entries page) = take (length (parse_entries P (kp_entries page)))
        (filter (\<lambda>e. plo p \<le> ti_created_at e \<and> ti_created_at e \<le> phi p) (index_entries P rows order))"
      "\<not> kp_reached_limit page \<Longrightarrow> parse_entries P (kp_entries page) =
        filter (\<lambda>e. plo p \<le> ti_created_at e \<and> ti_created_at e \<le> phi p) (index_entries P rows order)"
      "kp_reached_limit page \<Longrightarrow> length p = 20 \<Longrightarrow> needed + 32 \<le> length (parse_entries P (kp_entries page)) + 32"
  shows "\<exists>flow t. walk_page list_keys P order needed p page w s = (Inr flow, t) \<and> ready t \<and>
    flow_ok order limit (index_entries P rows order) goal b0 flow"
proof -
  let ?V = "index_entries P rows order" and ?valid = "parse_entries P (kp_entries page)"
  let ?w = "w\<lparr>wk_queries := wk_queries w + 1\<rparr>"
  have step: "near order p < far order p" using near_less_far p(2) .
  have goal: "wk_entries w @ filter (\<lambda>e. plo p \<le> ti_created_at e \<and> ti_created_at e \<le> phi p) ?V @ remaining order (far order p) ?V = goal"
    using w(3) remaining_prefix [OF rows, of order p P] by simp
  have later: "walk_open order ?V goal b0 (far order p) x"
    if "wk_pending x = wk_pending w" "wk_entries x = wk_entries w @ ?valid" "\<not> kp_reached_limit page" for x
    using walk_openI_later [of order p x b0 ?V goal] that w(1,2) step page(2) goal by simp
  consider (split) "kp_reached_limit page \<and> length ?valid < needed \<and> length p < TIME_DIGITS"
    | (edge) "\<not> (kp_reached_limit page \<and> length ?valid < needed \<and> length p < TIME_DIGITS)"
        "?valid = []" "\<not> kp_reached_limit page" "\<not> wk_edge_checked w" "wk_queries w + 1 < 256"
    | (keep) "\<not> (kp_reached_limit page \<and> length ?valid < needed \<and> length p < TIME_DIGITS)"
        "\<not> (?valid = [] \<and> \<not> kp_reached_limit page \<and> \<not> wk_edge_checked w \<and> wk_queries w + 1 < 256)"
    by blast
  then show ?thesis
  proof cases
    case split
    then have "walk_page list_keys P order needed p page w s =
        (Inr (Continue (?w\<lparr>wk_pending := wk_pending w @ split_time_prefix order p\<rparr>)), s)"
      by (simp add: walk_page_def mlift_def)
    moreover have "\<exists>b. walk_open order ?V goal b0 b (?w\<lparr>wk_pending := wk_pending w @ split_time_prefix order p\<rparr>)"
      using walk_open_split [OF p(1) _ w(2,1) step w(3,4)] split by (auto simp: TIME_DIGITS_def)
    ultimately show ?thesis using assms(1) w by (auto simp: walk_inv_def)
  next
    case edge
    obtain t found where e: "index_edge list_keys P order s = (Inr found, t)" "ready t" "found = EmptyEdge \<Longrightarrow> ?V = []"
      "\<And>x e. found = EdgeAt x \<Longrightarrow> e \<in> set ?V \<Longrightarrow> rank order (ti_created_at e) \<le> rank order (int x)"
      by (rule edge_of_index [OF assms(1), of P order]) (rule that)
    let ?u = "?w\<lparr>wk_edge_checked := True, wk_queries := wk_queries w + 2, wk_edge := found\<rparr>"
    have run: "walk_page list_keys P order needed p page w s =
        (Inr (if found = EmptyEdge then Break ?u else Continue (?u\<lparr>wk_entries := wk_entries w @ ?valid\<rparr>)), t)"
      using edge e(1) by (simp add: walk_page_def mlift_def mbind_def MAX_WALK_QUERIES_def)
    have "found = EmptyEdge \<Longrightarrow> wk_entries w = goal" using goal e(3) by (simp add: remaining_def)
    moreover have "\<exists>b. walk_open order ?V goal b0 b (?u\<lparr>wk_entries := wk_entries w @ ?valid\<rparr>)"
      using later [of "?u\<lparr>wk_entries := wk_entries w @ ?valid\<rparr>"] edge by auto
    ultimately show ?thesis using run e w edge by (auto simp: walk_inv_def walk_done_def)
  next
    case keep
    let ?u = "?w\<lparr>wk_entries := wk_entries w @ ?valid\<rparr>"
    have run: "walk_page list_keys P order needed p page w s = (Inr (Continue ?u), s)"
      using keep by (simp add: walk_page_def mlift_def MAX_WALK_QUERIES_def Let_def del: not_less de_Morgan_conj)
    have "(\<exists>b. walk_open order ?V goal b0 b ?u) \<or> limit \<le> length (wk_entries ?u) \<and> take limit (wk_entries ?u) = take limit goal"
    proof (cases "kp_reached_limit page")
      case False
      then show ?thesis using later [of ?u] by auto
    next
      case True
      have "needed \<le> length ?valid" using keep(1) True page(3) p(1) by (cases "length p = 20") (auto simp: TIME_DIGITS_def time_prefix_def)
      then show ?thesis using full_page [OF goal page(1), of limit] needed by simp
    qed
    then show ?thesis using run assms(1) w by (auto simp: walk_inv_def)
  qed
qed

end

lemma walk_step_pop:
  assumes "wk_pending w = rest @ [p]" "length (wk_entries w) < limit" "time_prefix_bounds p = (lo, hi)" "limit + 32 \<le> u64_max"
  shows "walk_step list_keys P order limit w s = (
     if int lo > i64_max then (Inr (case order of Descending \<Rightarrow> Continue (w\<lparr>wk_pending := rest\<rparr>) | Ascending \<Rightarrow> Break (w\<lparr>wk_pending := rest\<rparr>)), s)
     else if past_edge order (wk_edge w) lo hi then (Inr (Break (w\<lparr>wk_pending := rest\<rparr>)), s)
     else if 256 \<le> wk_queries w then (Inr (Break (w\<lparr>wk_pending := rest, wk_resume := Some (case order of
       Descending \<Rightarrow> not_after (clamp_time hi) | Ascending \<Rightarrow> not_before (clamp_time lo))\<rparr>)), s)
     else mbind (list_keys \<lparr>kq_prefix = P @ p, kq_order = order, kq_limit = limit - length (wk_entries w) + 32\<rparr>) (\<lambda>page.
       walk_page list_keys P order (limit - length (wk_entries w)) p page (w\<lparr>wk_pending := rest\<rparr>)) s)"
  using assms by (simp add: walk_step_def mlift_def Let_def MAX_WALK_QUERIES_def MALFORMED_KEY_ALLOWANCE_def sat_u64_id)

lemma past_edge_empty:
  assumes "time_prefix p" "plo p \<le> i64_max" "time_prefix_bounds p = (lo, hi)" "past_edge order edge lo hi"
    "\<forall>x e. edge = EdgeAt x \<longrightarrow> e \<in> set V \<longrightarrow> rank order (ti_created_at e) \<le> rank order (int x)"
    "\<forall>e \<in> set V. 0 \<le> ti_created_at e \<and> ti_created_at e \<le> i64_max"
  shows "remaining order (near order p) V = []"
proof -
  obtain x where x: "edge = EdgeAt x" "case order of Descending \<Rightarrow> hi < x | Ascending \<Rightarrow> x < lo"
    using assms(4) by (auto simp: past_edge_def split: IndexEdge.splits)
  note arith = time_prefix_bounds_arith [OF assms(1), unfolded assms(3) fst_conv snd_conv]
  have "rank order (ti_created_at e) < near order p" if "e \<in> set V" for e
  proof (cases order)
    case Ascending
    then show ?thesis using assms(5) that x arith(1) assms(2) plo_nonneg [of p] by (auto simp: rank_def near_def cut_def)
  next
    case Descending
    have "int x \<le> i64_max" "int hi < int x" using assms(5,6) that x Descending by (auto simp: rank_def) force
    then have "phi p = int hi" using arith(2) by auto
    then show ?thesis using assms(5) that x Descending \<open>int x \<le> i64_max\<close> by (auto simp: rank_def near_def cut_def)
  qed
  then show ?thesis by (auto simp: remaining_def filter_empty_conv not_le)
qed

lemma resume_cursor:
  assumes "time_prefix p" "plo p \<le> i64_max" "time_prefix_bounds p = (lo, hi)" "0 < near order p"
  shows "(case order of Descending \<Rightarrow> not_after (clamp_time hi) | Ascending \<Rightarrow> not_before (clamp_time lo)) = cursor_at order (near order p)"
    and "near order p \<le> i64_max"
proof -
  note arith = time_prefix_bounds_arith [OF assms(1), unfolded assms(3) fst_conv snd_conv]
  show "near order p \<le> i64_max"
    using assms(2) plo_nonneg [of p] plo_le_phi [of p] by (auto simp: near_def cut_def split: DocKeyOrder.split)
  show "(case order of Descending \<Rightarrow> not_after (clamp_time hi) | Ascending \<Rightarrow> not_before (clamp_time lo)) = cursor_at order (near order p)"
  proof (cases order)
    case Ascending
    then show ?thesis using arith(1) assms(2) plo_nonneg [of p] by (simp add: not_before_def clamp_time_def cursor_at_def near_def cut_def)
  next
    case Descending
    then have "phi p < i64_max" using assms(4) by (auto simp: near_def cut_def)
    moreover from this have "int hi = phi p" using arith(2) by (auto simp: min_def split: if_splits)
    moreover have "0 \<le> phi p" using plo_nonneg [of p] plo_le_phi [of p] by linarith
    ultimately show ?thesis using Descending by (simp add: not_after_def clamp_time_def cursor_at_def near_def cut_def sat_i64_def)
  qed
qed

context key_listing
begin

lemma walk_step_ok:
  assumes "ready s" and few: "few_malformed P rows" and "0 \<le> b0" and room: "limit + 32 \<le> u64_max"
    and inv: "walk_inv order limit (index_entries P rows order) goal b0 w"
  shows "\<exists>flow t. walk_step list_keys P order limit w s = (Inr flow, t) \<and> ready t \<and>
    flow_ok order limit (index_entries P rows order) goal b0 flow"
proof -
  let ?V = "index_entries P rows order"
  consider (full) "limit \<le> length (wk_entries w)" "take limit (wk_entries w) = take limit goal"
    | (empty) b where "length (wk_entries w) < limit" "walk_open order ?V goal b0 b w" "wk_pending w = []"
    | (pop) b p rest where "length (wk_entries w) < limit" "walk_open order ?V goal b0 b w" "wk_pending w = rest @ [p]"
  proof -
    have "take limit (wk_entries w) = take limit goal" if "limit \<le> length (wk_entries w)"
      using inv that by (auto simp: walk_inv_def walk_open_def)
    moreover have "\<exists>b. walk_open order ?V goal b0 b w" if "length (wk_entries w) < limit" using inv that by (auto simp: walk_inv_def)
    ultimately show thesis using full empty pop by (cases "wk_pending w" rule: rev_cases) (meson not_le)+
  qed
  then show ?thesis
  proof cases
    case full
    then have "walk_done order limit ?V goal b0 (w\<lparr>wk_pending := ps\<rparr>)" for ps using inv by (simp add: walk_inv_def walk_done_def)
    moreover have "\<exists>ps. walk_step list_keys P order limit w s = (Inr (Break (w\<lparr>wk_pending := ps\<rparr>)), s)"
      using full by (auto simp: walk_step_def mlift_def Let_def intro: exI [of _ "[]"] exI [of _ "butlast (wk_pending w)"])
    ultimately show ?thesis using assms(1) by auto
  next
    case empty
    then have "wk_entries w = goal" using remaining_top [OF rows, of order P] by (auto simp: walk_open_def)
    then have "walk_done order limit ?V goal b0 w" using inv by (simp add: walk_inv_def walk_done_def)
    then show ?thesis using empty assms(1) by (simp add: walk_step_def mlift_def)
  next
    case pop
    let ?w = "w\<lparr>wk_pending := rest\<rparr>"
    have p: "time_prefix p" "b = near order p" "b0 \<le> near order p" "chain order (far order p) (rev rest)"
      "wk_entries w @ remaining order (near order p) ?V = goal" "near order p = b0 \<longrightarrow> wk_queries w \<le> length p"
      using pop by (auto simp: walk_open_def)
    have w: "wk_resume w = None" "wk_queries w \<le> 256"
      "\<forall>x e. wk_edge w = EdgeAt x \<longrightarrow> e \<in> set ?V \<longrightarrow> rank order (ti_created_at e) \<le> rank order (int x)"
      using inv by (simp_all add: walk_inv_def)
    obtain lo hi where bounds: "time_prefix_bounds p = (lo, hi)" by fastforce
    have lo: "int lo = plo p" using time_prefix_bounds_arith(1) [OF p(1)] bounds by simp
    note run = walk_step_pop [OF pop(3,1) bounds room, of list_keys P order s]
    show ?thesis
    proof (cases "plo p > i64_max")
      case True
      have skip: "near order p = far order p" "order = Ascending \<Longrightarrow> near order p = i64_max + 1"
        using True plo_le_phi [of p] by (auto simp: near_def far_def cut_def split: DocKeyOrder.split)
      have "walk_inv order limit ?V goal b0 ?w"
        using inv p pop(2) skip(1) by (auto simp: walk_inv_def walk_open_def pop(3) intro!: exI [of _ "far order p"])
      moreover have "order = Ascending \<Longrightarrow> walk_done order limit ?V goal b0 ?w"
        using skip(2) p(5) remaining_top [OF rows, of order P] w by (simp add: walk_done_def)
      ultimately show ?thesis using True lo assms(1) unfolding run by (cases order) simp_all
    next
      case False
      then have small: "plo p \<le> i64_max" by simp
      consider (past) "past_edge order (wk_edge w) lo hi" | (stop) "\<not> past_edge order (wk_edge w) lo hi" "256 \<le> wk_queries w"
        | (read) "\<not> past_edge order (wk_edge w) lo hi" "wk_queries w < 256" by linarith
      then show ?thesis
      proof cases
        case past
        have "remaining order (near order p) ?V = []"
          using past_edge_empty [OF p(1) small bounds past w(3)] index_entries_range [OF rows] by blast
        then have "walk_done order limit ?V goal b0 ?w" using p(5) w by (simp add: walk_done_def)
        then show ?thesis using past False lo assms(1) unfolding run by simp
      next
        case stop
        have far: "b0 < near order p" using p(1,3,6) stop(2) by (cases "near order p = b0") (auto simp: time_prefix_def)
        have r: "(case order of Descending \<Rightarrow> not_after (clamp_time hi) | Ascending \<Rightarrow> not_before (clamp_time lo)) =
            cursor_at order (near order p)" "near order p \<le> i64_max"
          using resume_cursor [OF p(1) small bounds] far assms(3) by auto
        have "walk_done order limit ?V goal b0 (?w\<lparr>wk_resume := Some (cursor_at order (near order p))\<rparr>)"
          using p(5) w(2) far r(2) pop(1) by (auto simp: walk_done_def)
        then show ?thesis using stop False lo assms(1) r(1) unfolding run by simp
      next
        case read
        let ?needed = "limit - length (wk_entries w)"
        obtain t page where page: "list_keys \<lparr>kq_prefix = P @ p, kq_order = order, kq_limit = ?needed + 32\<rparr> s = (Inr page, t)" "ready t"
          "parse_entries P (kp_entries page) = take (length (parse_entries P (kp_entries page)))
            (filter (\<lambda>e. plo p \<le> ti_created_at e \<and> ti_created_at e \<le> phi p) ?V)"
          "\<not> kp_reached_limit page \<Longrightarrow> parse_entries P (kp_entries page) =
            filter (\<lambda>e. plo p \<le> ti_created_at e \<and> ti_created_at e \<le> phi p) ?V"
          "kp_reached_limit page \<Longrightarrow> length p = 20 \<Longrightarrow> ?needed + 32 \<le> length (parse_entries P (kp_entries page)) + 32"
          by (rule page_of_prefix [OF assms(1), of p "?needed + 32" P order]) (use p(1) few in \<open>auto simp: time_prefix_def\<close>)
        have "walk_step list_keys P order limit w s = walk_page list_keys P order ?needed p page ?w t"
          using read False lo page(1) unfolding run by (simp add: mbind_def)
        then show ?thesis
          using walk_page_ok [OF page(2) few p(1) small p(3), of ?w goal ?needed limit page] page(3-5) p w read by simp
      qed
    qed
  qed
qed

lemma walk_loop_ok:
  assumes "few_malformed P rows" "0 \<le> b0" "limit + 32 \<le> u64_max"
  shows "ready s \<Longrightarrow> walk_inv order limit (index_entries P rows order) goal b0 w \<Longrightarrow>
    \<exists>u t. walk_loop list_keys P order limit w s = (Inr u, t) \<and> ready t \<and> walk_done order limit (index_entries P rows order) goal b0 u"
proof (induction "pending_weight (wk_pending w)" arbitrary: w s rule: less_induct)
  case less
  obtain flow t where step: "walk_step list_keys P order limit w s = (Inr flow, t)" "ready t"
      "flow_ok order limit (index_entries P rows order) goal b0 flow"
    using walk_step_ok [OF less.prems(1) assms less.prems(2)] by blast
  show ?case
  proof (cases flow)
    case (Continue w')
    then show ?thesis using less.hyps [of w' t] step walk_step_decreases [of list_keys P order limit w s w' t]
      by (subst walk_loop.simps) simp
  next
    case (Break w')
    then show ?thesis using step by (subst walk_loop.simps) simp
  qed
qed

end

section \<open>What a page holds\<close>

text \<open>The entries on the far side of a cursor, in the order of reading: what the pages of a reader have to add up to.\<close>

definition beyond :: "DocKeyOrder \<Rightarrow> TimeIndexCursor option \<Rightarrow> TimeIndexEntry \<Rightarrow> bool" where
  "beyond order cursor e \<longleftrightarrow> (case cursor of None \<Rightarrow> True | Some c \<Rightarrow> (case order of
     Descending \<Rightarrow> ti_created_at e < tc_created_at c \<or> ti_created_at e = tc_created_at c \<and> ti_object_id e < tc_object_id c
   | Ascending \<Rightarrow> ti_created_at e > tc_created_at c \<or> ti_created_at e = tc_created_at c \<and> ti_object_id e > tc_object_id c))"

definition index_after :: "string \<Rightarrow> key_row list \<Rightarrow> DocKeyOrder \<Rightarrow> TimeIndexCursor option \<Rightarrow> TimeIndexEntry list" where
  "index_after P rows order cursor = filter (beyond order cursor) (index_entries P rows order)"

text \<open>The second of the cursor holds no more keys than are scanned of it.\<close>

definition second_fits :: "string \<Rightarrow> key_row list \<Rightarrow> TimeIndexCursor option \<Rightarrow> bool" where
  "second_fits P rows cursor \<longleftrightarrow> (\<forall>c. cursor = Some c \<longrightarrow>
     length (filter (\<lambda>row. starts_with (P @ pad20 (tc_created_at c) @ ''-'') (fst row)) rows) \<le> 512)"

text \<open>Where nothing of that second lies ahead of the cursor, it does not matter how much of it is scanned.\<close>

definition second_scanned :: "string \<Rightarrow> key_row list \<Rightarrow> DocKeyOrder \<Rightarrow> TimeIndexCursor option \<Rightarrow> bool" where
  "second_scanned P rows order cursor \<longleftrightarrow> second_fits P rows cursor \<or>
     order = Descending \<and> (\<forall>c. cursor = Some c \<longrightarrow> tc_object_id c = [])"

lemma second_fits_scanned: "second_fits P rows cursor \<Longrightarrow> second_scanned P rows order cursor"
  by (simp add: second_scanned_def)

definition farther :: "DocKeyOrder \<Rightarrow> TimeIndexCursor option \<Rightarrow> TimeIndexCursor \<Rightarrow> bool" where
  "farther order cursor r \<longleftrightarrow> (\<forall>c. cursor = Some c \<longrightarrow> (case order of
     Descending \<Rightarrow> tc_created_at r < tc_created_at c | Ascending \<Rightarrow> tc_created_at c < tc_created_at r))"

definition page_exact :: "string \<Rightarrow> key_row list \<Rightarrow> DocKeyOrder \<Rightarrow> TimeIndexCursor option \<Rightarrow> nat \<Rightarrow> TimeIndexPage \<Rightarrow> bool" where
  "page_exact P rows order cursor limit page \<longleftrightarrow> length (tp_entries page) \<le> limit \<and> tp_queries page \<le> 257 \<and>
     (case tp_resume page of
        None \<Rightarrow> tp_entries page = take limit (index_after P rows order cursor)
      | Some r \<Rightarrow> tp_entries page @ index_after P rows order (Some r) = index_after P rows order cursor \<and>
          is_i64 (tc_created_at r) \<and> farther order cursor r)"

lemma index_after_cursor_at:
  assumes "rows_ok rows"
  shows "index_after P rows order (Some (cursor_at order b)) = remaining order b (index_entries P rows order)"
proof -
  have nonempty: "[] < ti_object_id e" if "e \<in> set (index_entries P rows order)" for e
    using index_entries_range [OF assms that] by (cases "ti_object_id e") auto
  have "beyond order (Some (cursor_at order b)) e \<longleftrightarrow> b \<le> rank order (ti_created_at e)"
    if "e \<in> set (index_entries P rows order)" for e
    using nonempty [OF that] by (cases order) (auto simp: beyond_def cursor_at_def rank_def)
  then show ?thesis unfolding index_after_def remaining_def by (intro filter_cong) auto
qed

lemma index_after_second:
  assumes "rows_ok rows"
  shows "index_after P rows order (Some c) =
    filter (\<lambda>e. case order of Descending \<Rightarrow> ti_object_id e < tc_object_id c | Ascending \<Rightarrow> ti_object_id e > tc_object_id c)
      (filter (\<lambda>e. ti_created_at e = tc_created_at c) (index_entries P rows order)) @
    remaining order (rank order (tc_created_at c) + 1) (index_entries P rows order)"
proof -
  let ?V = "index_entries P rows order" and ?B = "beyond order (Some c)" and ?a = "rank order (tc_created_at c)"
  let ?r = "\<lambda>e. rank order (ti_created_at e)"
  have "filter (\<lambda>e. ?a \<le> ?r e) ?V = filter (\<lambda>e. ?a \<le> ?r e \<and> ?r e < ?a + 1) ?V @ filter (\<lambda>e. ?a + 1 \<le> ?r e) ?V"
    using filter_sorted_split [OF index_entries_sorted [OF assms, of order P], of ?a "?a + 1"] by simp
  then have "filter ?B (filter (\<lambda>e. ?a \<le> ?r e) ?V) =
      filter ?B (filter (\<lambda>e. ?a \<le> ?r e \<and> ?r e < ?a + 1) ?V) @ filter ?B (filter (\<lambda>e. ?a + 1 \<le> ?r e) ?V)"
    by (simp only: filter_append)
  moreover have "filter ?B (filter (\<lambda>e. ?a \<le> ?r e) ?V) = index_after P rows order (Some c)"
    unfolding index_after_def filter_filter by (intro filter_cong) (auto simp: beyond_def rank_def split: DocKeyOrder.splits)
  moreover have "filter ?B (filter (\<lambda>e. ?a + 1 \<le> ?r e) ?V) = remaining order (?a + 1) ?V"
    unfolding remaining_def filter_filter by (intro filter_cong) (auto simp: beyond_def rank_def split: DocKeyOrder.splits)
  moreover have "filter ?B (filter (\<lambda>e. ?a \<le> ?r e \<and> ?r e < ?a + 1) ?V) =
    filter (\<lambda>e. case order of Descending \<Rightarrow> ti_object_id e < tc_object_id c | Ascending \<Rightarrow> ti_object_id e > tc_object_id c)
      (filter (\<lambda>e. ti_created_at e = tc_created_at c) ?V)"
    unfolding filter_filter by (intro filter_cong) (auto simp: beyond_def rank_def split: DocKeyOrder.splits)
  ultimately show ?thesis by simp
qed

lemma cursor_chain:
  assumes "0 \<le> t" "t \<le> i64_max"
  shows "chain order (rank order t + 1) (rev (cursor_pending order (pad20 t)))"
proof (cases order)
  case Ascending
  then show ?thesis using cursor_chain_asc [OF pad20_time [OF assms]] pad20_digits [OF assms] assms by (simp add: rank_def cut_def)
next
  case Descending
  then show ?thesis using cursor_chain_desc [OF pad20_time [OF assms]] pad20_digits [OF assms] assms by (simp add: rank_def cut_def)
qed

context key_listing
begin

lemma walk_from_ok:
  assumes "ready s" "few_malformed P rows" "limit + 32 \<le> u64_max" "0 < limit"
    and start: "chain order b0 (rev pending)" "0 \<le> b0" "goal = first @ remaining order b0 (index_entries P rows order)"
  shows "\<exists>page t. walk_from list_keys P order limit k pending (take limit first) s = (Inr page, t) \<and> ready t \<and>
    length (tp_entries page) \<le> limit \<and> tp_queries page \<le> 256 + k \<and>
    (case tp_resume page of None \<Rightarrow> tp_entries page = take limit goal
     | Some r \<Rightarrow> \<exists>b. b0 < b \<and> b \<le> i64_max \<and> r = cursor_at order b \<and>
         tp_entries page @ remaining order b (index_entries P rows order) = goal)"
proof -
  have "walk_inv order limit (index_entries P rows order) goal b0 (start_walk pending (take limit first))"
    using start by (cases "length first \<le> limit") (auto simp: walk_inv_def walk_open_def start_walk_def)
  then obtain u t where u: "walk_loop list_keys P order limit (start_walk pending (take limit first)) s = (Inr u, t)" "ready t"
      "walk_done order limit (index_entries P rows order) goal b0 u"
    using walk_loop_ok [OF assms(2) start(2) assms(3,1)] by blast
  have "walk_from list_keys P order limit k pending (take limit first) s = (Inr (finish_walk limit k u), t)"
    using u(1) by (simp add: walk_from_def mbind_def mlift_def)
  then show ?thesis using u(2,3) by (cases "wk_resume u") (auto simp: walk_done_def finish_walk_def)
qed

lemma resumed:
  assumes "0 < b" "b \<le> i64_max"
  shows "index_after P rows order (Some (cursor_at order b)) = remaining order b (index_entries P rows order)"
    "is_i64 (tc_created_at (cursor_at order b))"
  using index_after_cursor_at [OF rows] assms by (auto simp: cursor_at_def is_i64_def split: DocKeyOrder.split)

lemma walk_whole_ok:
  assumes "ready s" "few_malformed P rows" "limit + 32 \<le> u64_max" "0 < limit"
    and all: "index_after P rows order cursor = index_entries P rows order" "\<And>b. 0 < b \<Longrightarrow> farther order cursor (cursor_at order b)"
  shows "\<exists>page t. walk_from list_keys P order limit 0 [''''] [] s = (Inr page, t) \<and> ready t \<and> page_exact P rows order cursor limit page"
proof -
  let ?V = "index_entries P rows order"
  obtain page t where "walk_from list_keys P order limit 0 [''''] [] s = (Inr page, t)" "ready t" "length (tp_entries page) \<le> limit"
      "tp_queries page \<le> 256" "case tp_resume page of None \<Rightarrow> tp_entries page = take limit ?V
       | Some r \<Rightarrow> \<exists>b. 0 < b \<and> b \<le> i64_max \<and> r = cursor_at order b \<and> tp_entries page @ remaining order b ?V = ?V"
    using walk_from_ok [OF assms(1-4), of order 0 "['''']" ?V "[]" 0] chain_all remaining_all [OF rows, of 0 order P] by auto
  then show ?thesis using all resumed(1) [where P = P and order = order] resumed(2) [where order = order] by (cases "tp_resume page") (auto simp: page_exact_def)
qed

lemma second_scanned:
  assumes "ready s" and fits: "second_scanned P rows order (Some c)" and c: "0 \<le> tc_created_at c" "tc_created_at c \<le> i64_max"
  defines "ahead \<equiv> \<lambda>e. case order of Descending \<Rightarrow> ti_object_id e < tc_object_id c | Ascending \<Rightarrow> ti_object_id e > tc_object_id c"
  shows "\<exists>page t. ready t \<and>
    list_keys \<lparr>kq_prefix = P @ pad20 (tc_created_at c) @ ''-'', kq_order = order, kq_limit = 512\<rparr> s = (Inr page, t) \<and>
    filter ahead (parse_entries P (kp_entries page)) =
      filter ahead (filter (\<lambda>e. ti_created_at e = tc_created_at c) (index_entries P rows order))"
proof -
  let ?q = "\<lparr>kq_prefix = P @ pad20 (tc_created_at c) @ ''-'', kq_order = order, kq_limit = 512\<rparr>"
  obtain t reached where t: "ready t"
      "list_keys ?q s = (Inr \<lparr>kp_entries = List.map_filter snd (take 512 (rows_under rows ?q)), kp_reached_limit = reached\<rparr>, t)"
    using listed [OF assms(1), of ?q] by auto
  show ?thesis
  proof (cases "order = Descending \<and> tc_object_id c = []")
    case True
    then have "ahead = (\<lambda>_. False)" by (simp add: ahead_def)
    then show ?thesis using t by auto
  next
    case False
    then have "length (rows_under rows ?q) \<le> 512" using fits by (auto simp: second_scanned_def second_fits_def rows_under_def)
    then show ?thesis using t entries_of_second [OF rows c, of P order 512] by (auto simp: parse_entries_rows)
  qed
qed

lemma walk_cursor_ok:
  assumes "ready s" and few: "few_malformed P rows" and fits: "second_scanned P rows order (Some c)" and room: "limit + 32 \<le> u64_max" "0 < limit"
    and c: "0 \<le> tc_created_at c" "tc_created_at c \<le> i64_max"
  shows "\<exists>page t. walk_keys list_keys P order (Some c) limit s = (Inr page, t) \<and> ready t \<and> page_exact P rows order (Some c) limit page"
proof -
  let ?V = "index_entries P rows order" and ?b = "rank order (tc_created_at c) + 1"
  define rest where "rest = filter (\<lambda>e. case order of Descending \<Rightarrow> ti_object_id e < tc_object_id c
    | Ascending \<Rightarrow> ti_object_id e > tc_object_id c) (filter (\<lambda>e. ti_created_at e = tc_created_at c) ?V)"
  obtain same t where t: "ready t"
      "list_keys \<lparr>kq_prefix = P @ pad20 (tc_created_at c) @ ''-'', kq_order = order, kq_limit = 512\<rparr> s = (Inr same, t)"
      "filter (\<lambda>e. case order of Descending \<Rightarrow> ti_object_id e < tc_object_id c | Ascending \<Rightarrow> ti_object_id e > tc_object_id c)
        (parse_entries P (kp_entries same)) = rest"
    using second_scanned [OF assms(1) fits c] unfolding rest_def by blast
  have run: "walk_keys list_keys P order (Some c) limit s =
      walk_from list_keys P order limit 1 (cursor_pending order (pad20 (tc_created_at c))) (take limit rest) t"
    using room(2) t(2,3) c pad20_digits [OF c]
    by (simp add: walk_keys_def mbind_def TIME_DIGITS_def SAME_SECOND_SCAN_LIMIT_def Let_def)
  have spec: "index_after P rows order (Some c) = rest @ remaining order ?b ?V"
    using index_after_second [OF rows] by (simp add: rest_def)
  have b: "0 < ?b" using c by (simp add: rank_def split: DocKeyOrder.split)
  obtain page u where page: "walk_keys list_keys P order (Some c) limit s = (Inr page, u)" "ready u" "length (tp_entries page) \<le> limit"
      "tp_queries page \<le> 256 + 1" "case tp_resume page of None \<Rightarrow> tp_entries page = take limit (index_after P rows order (Some c))
       | Some r \<Rightarrow> \<exists>b. ?b < b \<and> b \<le> i64_max \<and> r = cursor_at order b \<and>
           tp_entries page @ remaining order b ?V = index_after P rows order (Some c)"
    using walk_from_ok [OF t(1) few room cursor_chain [OF c] less_imp_le [OF b] spec, of 1] unfolding run by blast
  have "farther order (Some c) (cursor_at order b)" if "?b < b" for b
    using that by (auto simp: farther_def cursor_at_def rank_def split: DocKeyOrder.splits)
  then show ?thesis using page resumed(1) [where P = P and order = order] resumed(2) [where order = order] b by (cases "tp_resume page") (auto simp: page_exact_def)
qed

lemma walk_keys_ok:
  assumes "ready s" and few: "few_malformed P rows" and fits: "second_scanned P rows order cursor" and room: "limit + 32 \<le> u64_max"
    and cursor: "\<forall>c. cursor = Some c \<longrightarrow> is_i64 (tc_created_at c)"
  shows "\<exists>page t. walk_keys list_keys P order cursor limit s = (Inr page, t) \<and> ready t \<and> page_exact P rows order cursor limit page"
proof (cases "limit = 0")
  case True
  then show ?thesis using assms(1) by (simp add: walk_keys_def mlift_def page_exact_def empty_page_def)
next
  case False
  then have limit: "0 < limit" by simp
  note whole = walk_whole_ok [OF assms(1) few room limit]
  consider (none) "cursor = None" | (before) c where "cursor = Some c" "tc_created_at c < 0"
    | (within) c where "cursor = Some c" "0 \<le> tc_created_at c" "tc_created_at c \<le> i64_max"
    using cursor unfolding is_i64_def by (metis linorder_not_le option.exhaust)
  then show ?thesis
  proof cases
    case none
    then show ?thesis using whole [of order cursor] False by (simp add: walk_keys_def index_after_def beyond_def farther_def)
  next
    case before
    have "ti_created_at e \<ge> 0" if "e \<in> set (index_entries P rows order)" for e using index_entries_range [OF rows that] by simp
    then have "index_after P rows order cursor = (case order of Ascending \<Rightarrow> index_entries P rows order | Descending \<Rightarrow> [])"
      using before by (cases order) (force simp: index_after_def beyond_def filter_id_conv filter_empty_conv)+
    then show ?thesis using before False whole [of order cursor] assms(1)
      by (cases order) (simp_all add: walk_keys_def mlift_def page_exact_def empty_page_def farther_def cursor_at_def)
  next
    case within
    then show ?thesis using walk_cursor_ok [OF assms(1) few _ room limit, of order c] fits by simp
  qed
qed

end

section \<open>The window of the newest entries\<close>

lemma index_after_not_after:
  assumes "rows_ok rows" "is_i64 until" "until < i64_max"
  shows "index_after P rows Descending (Some (not_after until)) = filter (\<lambda>e. ti_created_at e \<le> until) (index_entries P rows Descending)"
  using assms(2,3) unfolding index_after_def
  by (intro filter_cong) (auto simp: beyond_def not_after_def sat_i64_def is_i64_def)

definition window_exact :: "string \<Rightarrow> key_row list \<Rightarrow> i64 \<Rightarrow> nat \<Rightarrow> TimeIndexPage \<Rightarrow> bool" where
  "window_exact P rows until limit page \<longleftrightarrow> length (tp_entries page) \<le> limit \<and> tp_queries page \<le> 258 \<and>
     (let window = filter (\<lambda>e. ti_created_at e \<le> until) (index_entries P rows Descending) in
      case tp_resume page of
        None \<Rightarrow> tp_entries page = take limit window
      | Some r \<Rightarrow> tp_entries page @ index_after P rows Descending (Some r) = window \<and> tc_created_at r \<le> until)"

context key_listing
begin

lemma window_ok:
  assumes "ready s" and few: "few_malformed P rows" and room: "limit + 64 \<le> u64_max"
    and until: "is_i64 until" "until < i64_max" and D: "ds_query_replica_keys D r = list_keys"
  shows "\<exists>page t. query_time_index_window D r P until limit s = (Inr page, t) \<and> ready t \<and> window_exact P rows until limit page"
proof (cases "limit = 0")
  case True
  then show ?thesis using assms(1) by (simp add: query_time_index_window_def mlift_def window_exact_def empty_page_def)
next
  case False
  let ?V = "index_entries P rows Descending" and ?until = "\<lambda>e. ti_created_at e \<le> until"
  have all: "filter (\<lambda>e. plo '''' \<le> ti_created_at e \<and> ti_created_at e \<le> phi '''') ?V = ?V"
    using index_entries_range [OF rows, of _ P Descending] by (fastforce simp: filter_id_conv plo_def phi_def dval_def)
  obtain t page where page: "list_keys \<lparr>kq_prefix = P, kq_order = Descending, kq_limit = 64 + limit\<rparr> s = (Inr page, t)" "ready t"
      "parse_entries P (kp_entries page) = take (length (parse_entries P (kp_entries page))) ?V"
      "\<not> kp_reached_limit page \<Longrightarrow> parse_entries P (kp_entries page) = ?V"
    by (rule page_of_prefix [OF assms(1), of "''''" "64 + limit" P Descending]) (simp_all add: all)
  let ?found = "filter ?until (parse_entries P (kp_entries page))"
  have run: "query_time_index_window D r P until limit s =
      (if limit \<le> length ?found \<or> \<not> kp_reached_limit page then (Inr \<lparr>tp_entries = take limit ?found, tp_resume = None, tp_queries = 1\<rparr>, t)
       else mbind (walk_keys list_keys P Descending (Some (not_after until)) limit)
         (\<lambda>page. mlift (Inr (page\<lparr>tp_queries := tp_queries page + 1\<rparr>))) t)"
  proof -
    have "list_index_keys D r None = list_keys" using D by (simp add: fun_eq_iff list_index_keys_def)
    then show ?thesis using False D page(1) room
      by (simp add: query_time_index_window_def walk_time_index_def walk_time_index_as_def mbind_def mlift_def Let_def
        FUTURE_ENTRY_ALLOWANCE_def MALFORMED_KEY_ALLOWANCE_def sat_u64_id)
  qed
  show ?thesis
  proof (cases "limit \<le> length ?found \<or> \<not> kp_reached_limit page")
    case True
    have "\<exists>later. filter ?until ?V = ?found @ later" using page(3) by (metis append_take_drop_id filter_append)
    then have "take limit ?found = take limit (filter ?until ?V)" using True page(4) by auto
    then show ?thesis using True run page(2) by (simp add: window_exact_def)
  next
    case False
    have fits: "second_scanned P rows Descending (Some (not_after until))" by (simp add: second_scanned_def not_after_def)
    obtain q u where q: "walk_keys list_keys P Descending (Some (not_after until)) limit t = (Inr q, u)" "ready u"
        "page_exact P rows Descending (Some (not_after until)) limit q"
      using walk_keys_ok [OF page(2) few fits, of limit] room until by (auto simp: not_after_def sat_i64_def is_i64_def)
    have "window_exact P rows until limit (q\<lparr>tp_queries := tp_queries q + 1\<rparr>)"
      using q(3) index_after_not_after [OF rows until] until
      by (auto simp: window_exact_def page_exact_def farther_def not_after_def sat_i64_def is_i64_def Let_def split: option.splits)
    then show ?thesis using False run q by (simp add: mbind_def mlift_def)
  qed
qed

end

section \<open>The pages of a store\<close>

text \<open>The rows of a replica in memory, each with its entry.\<close>

definition memory_rows :: "'j docs_lib \<Rightarrow> ReplicaId \<Rightarrow> MemoryDocsSync \<Rightarrow> key_row list" where
  "memory_rows L r s = sort_key fst (map (\<lambda>row. (fst row, Some (key_entry L (md_docs_author s) row))) (replica_rows r s))"

definition holds_rows :: "'j docs_lib \<Rightarrow> ReplicaId \<Rightarrow> MemoryDocsSync \<Rightarrow> MemoryDocsSync \<Rightarrow> bool" where
  "holds_rows L r origin s \<longleftrightarrow> docs_ok s \<and> may_open L r s \<and> replica_rows r s = replica_rows r origin \<and> md_docs_author s = md_docs_author origin"

definition memory_docs :: "'j docs_lib \<Rightarrow> MemoryDocsSync docs_sync" where
  "memory_docs L = \<lparr>ds_query_replica_keys = query_replica_keys L, ds_query_replica_keys_by_author = query_replica_keys_by_author L\<rparr>"

lemma memory_rows_ok: "rows_ok (memory_rows L r s)"
  by (auto simp: rows_ok_def memory_rows_def key_entry_def)

lemma memory_rows_sorted:
  "memory_rows L r s = map (\<lambda>row. (fst row, Some (key_entry L (md_docs_author s) row))) (sort_key fst (replica_rows r s))"
  by (simp add: memory_rows_def sort_key_map comp_def)

lemma filter_same_key: "distinct (map f xs) \<Longrightarrow> k \<in> set xs \<Longrightarrow> filter (\<lambda>x. f k = f x) xs = [k]"
proof (induction xs)
  case (Cons x xs)
  then show ?case by (cases "k = x") (force simp: filter_empty_conv image_iff)+
qed simp

lemma sort_key_desc_distinct:
  assumes "distinct (map f xs)"
  shows "sort_key_desc f xs = rev (sort_key f xs)"
proof -
  have d: "distinct (map f (sort_key f xs))" "distinct (map f (rev xs))"
    using assms by (metis mset_eq_imp_distinct_iff mset_map mset_sort, simp add: rev_map [symmetric])
  have "sort_key f (rev xs) = sort_key f xs"
    by (rule properties_for_sort_key) (use filter_same_key [OF d(1)] filter_same_key [OF d(2)] in simp_all)
  then show ?thesis by (simp add: sort_key_desc_def)
qed

lemma query_replica_keys_rows:
  assumes "docs_ok s" "may_open L r s"
  shows "query_replica_keys L r q s = (Inr \<lparr>kp_entries = List.map_filter snd (take (kq_limit q) (rows_under (memory_rows L r s) q)),
    kp_reached_limit = (0 < kq_limit q \<and> kq_limit q \<le> length (rows_under (memory_rows L r s) q))\<rparr>, opened r s)"
proof -
  let ?entry = "key_entry L (md_docs_author s)"
  let ?match = "filter (\<lambda>(key, _). starts_with (kq_prefix q) key) (replica_rows r s)"
  let ?sorted = "filter (\<lambda>(key, _). starts_with (kq_prefix q) key) (sort_key fst (replica_rows r s))"
  have key: "ke_key \<circ> ?entry = fst" by (auto simp: key_entry_def)
  have "distinct (map fst ?match)" using assms(1) by (simp add: docs_ok_def distinct_keys_filter)
  then have "distinct (map ke_key (map ?entry ?match))" by (simp add: key)
  then have sort: "(case kq_order q of Ascending \<Rightarrow> sort_key ke_key (map ?entry ?match) | Descending \<Rightarrow> sort_key_desc ke_key (map ?entry ?match)) =
      in_order (kq_order q) (map ?entry ?sorted)"
    by (simp add: in_order_def sort_key_desc_distinct sort_key_map key filter_sort split: DocKeyOrder.split)
  have under: "rows_under (memory_rows L r s) q = in_order (kq_order q) (map (\<lambda>row. (fst row, Some (?entry row))) ?sorted)"
    unfolding rows_under_def memory_rows_sorted by (simp add: filter_map comp_def case_prod_unfold)
  have "List.map_filter snd (take n (in_order (kq_order q) (map (\<lambda>row. (fst row, Some (?entry row))) ?sorted))) =
      take n (in_order (kq_order q) (map ?entry ?sorted))" for n
    by (simp add: List.map_filter_def in_order_def take_map rev_map comp_def split: DocKeyOrder.split)
  moreover have "query_replica_keys L r q s = (Inr \<lparr>kp_entries = take (kq_limit q) (in_order (kq_order q) (map ?entry ?sorted)),
      kp_reached_limit = (0 < kq_limit q \<and> kq_limit q \<le> length (in_order (kq_order q) (map ?entry ?sorted)))\<rparr>, opened r s)"
    unfolding query_replica_keys_def mbind_def open_replica_opened [OF assms(2)] mget_def Let_def sum.case prod.case opened_simps sort ..
  ultimately show ?thesis unfolding under by simp
qed

interpretation memory: key_listing "query_replica_keys L r" "holds_rows L r origin" "memory_rows L r origin" for L r origin
proof
  show "rows_ok (memory_rows L r origin)" by (rule memory_rows_ok)
next
  fix s and q :: DocKeyQuery
  assume s: "holds_rows L r origin s" and limit: "0 < kq_limit q"
  have rows: "memory_rows L r s = memory_rows L r origin" using s by (simp add: holds_rows_def memory_rows_def)
  have "holds_rows L r origin (opened r s)" using s by (simp add: holds_rows_def)
  then show "\<exists>t reached. holds_rows L r origin t \<and> query_replica_keys L r q s =
      (Inr \<lparr>kp_entries = List.map_filter snd (take (kq_limit q) (rows_under (memory_rows L r origin) q)), kp_reached_limit = reached\<rparr>, t) \<and>
      (reached \<longrightarrow> kq_limit q \<le> length (rows_under (memory_rows L r origin) q)) \<and>
      (\<not> reached \<longrightarrow> length (rows_under (memory_rows L r origin) q) \<le> kq_limit q)"
    using query_replica_keys_rows [of s L r q] s rows limit by (auto simp: holds_rows_def)
qed

text \<open>The listing of one author: everything when the store writes as that author, nothing otherwise.\<close>

definition author_rows :: "'j docs_lib \<Rightarrow> ReplicaId \<Rightarrow> string \<Rightarrow> MemoryDocsSync \<Rightarrow> key_row list" where
  "author_rows L r a s = (if md_docs_author s = Some a then memory_rows L r s else [])"

interpretation authored: key_listing "query_replica_keys_by_author L r a" "holds_rows L r origin" "author_rows L r a origin" for L r a origin
proof
  show "rows_ok (author_rows L r a origin)" using memory_rows_ok [of L r origin] by (simp add: author_rows_def rows_ok_def)
next
  fix s and q :: DocKeyQuery
  assume s: "holds_rows L r origin s" and limit: "0 < kq_limit q"
  have none: "rows_under [] q = []" by (simp add: rows_under_def in_order_def split: DocKeyOrder.split)
  show "\<exists>t reached. holds_rows L r origin t \<and> query_replica_keys_by_author L r a q s =
      (Inr \<lparr>kp_entries = List.map_filter snd (take (kq_limit q) (rows_under (author_rows L r a origin) q)), kp_reached_limit = reached\<rparr>, t) \<and>
      (reached \<longrightarrow> kq_limit q \<le> length (rows_under (author_rows L r a origin) q)) \<and>
      (\<not> reached \<longrightarrow> length (rows_under (author_rows L r a origin) q) \<le> kq_limit q)"
  proof (cases "md_docs_author origin = Some a")
    case True
    then have "query_replica_keys_by_author L r a q s = query_replica_keys L r q s"
      using s by (simp add: query_replica_keys_by_author_def holds_rows_def)
    then show ?thesis using memory.listed [OF s limit] True by (simp add: author_rows_def)
  next
    case False
    then have "query_replica_keys_by_author L r a q s = (Inr \<lparr>kp_entries = [], kp_reached_limit = False\<rparr>, opened r s)"
      using s open_replica_opened [of L r s] by (simp add: query_replica_keys_by_author_def mbind_def mlift_def holds_rows_def)
    moreover have "holds_rows L r origin (opened r s)" using s by (simp add: holds_rows_def)
    ultimately show ?thesis using False none by (auto simp: author_rows_def List.map_filter_def)
  qed
qed

section \<open>Reading on from the last entry\<close>

definition entry_cursor :: "TimeIndexEntry \<Rightarrow> TimeIndexCursor" where
  "entry_cursor e = \<lparr>tc_created_at = ti_created_at e, tc_object_id = ti_object_id e\<rparr>"

text \<open>The object ids of an index have one length, as digests have.\<close>

definition uniform_ids :: "string \<Rightarrow> key_row list \<Rightarrow> bool" where
  "uniform_ids P rows \<longleftrightarrow> (\<exists>n. \<forall>e \<in> set (index_entries P rows Ascending). length (ti_object_id e) = n)"

lemma beyond_trans: "beyond order cursor e \<Longrightarrow> beyond order (Some (entry_cursor e)) f \<Longrightarrow> beyond order cursor f"
  by (auto simp: beyond_def entry_cursor_def split: option.splits DocKeyOrder.splits)

lemma beyond_asym: "beyond order (Some (entry_cursor e)) f \<Longrightarrow> \<not> beyond order (Some (entry_cursor f)) e"
  by (auto simp: beyond_def entry_cursor_def split: DocKeyOrder.splits)

lemma index_keys_less:
  assumes "length s = 20" "length t = 20" "list_all ascii_digit s" "list_all ascii_digit t" "length a = length b"
    "index_key P s a < index_key P t b"
  shows "dval s < dval t \<or> dval s = dval t \<and> a < b"
proof -
  have "s < t \<or> s = t \<and> ''-'' @ a @ ''/'' @ a < ''-'' @ b @ ''/'' @ b"
    using assms(6) append_less_iff [of P P] append_less_iff [of s t] assms(1,2) by (simp add: index_key_def)
  then show ?thesis
    using dval_less_iff [OF assms(3,4)] dval_inject [OF assms(3,4)] assms(1,2) append_less_iff [of a b "''/'' @ a" "''/'' @ b"] assms(5)
    by auto
qed

lemma index_entries_advance_asc:
  assumes "rows_ok rows" "distinct (map fst rows)" "uniform_ids P rows"
  shows "sorted_wrt (\<lambda>e f. beyond Ascending (Some (entry_cursor e)) f) (index_entries P rows Ascending)"
proof -
  obtain n where n: "\<And>e. e \<in> set (index_entries P rows Ascending) \<Longrightarrow> length (ti_object_id e) = n" using assms(3) by (auto simp: uniform_ids_def)
  have member: "e \<in> set (index_entries P rows Ascending)" if "row \<in> set rows" "row_entry P row = Some e" for row e
    using that by (force simp: index_entries_def List.map_filter_def in_order_def)
  have step: "beyond Ascending (Some (entry_cursor e)) f"
    if r: "row \<in> set rows" "row_entry P row = Some e" "x \<in> set rows" "row_entry P x = Some f" "fst row < fst x" for row e x f
  proof -
    obtain s a where s: "fst row = index_key P s a" "length s = 20" "list_all ascii_digit s" "ti_created_at e = int (dval s)" "ti_object_id e = a"
      using row_entry_Some [OF assms(1) r(1,2)] by metis
    obtain t b where t: "fst x = index_key P t b" "length t = 20" "list_all ascii_digit t" "ti_created_at f = int (dval t)" "ti_object_id f = b"
      using row_entry_Some [OF assms(1) r(3,4)] by metis
    have "length a = length b" using n [OF member [OF r(1,2)]] n [OF member [OF r(3,4)]] s(5) t(5) by simp
    then show ?thesis using index_keys_less [OF s(2) t(2) s(3) t(3), of a b P] r(5) s t by (auto simp: beyond_def entry_cursor_def)
  qed
  have "sorted_wrt (\<lambda>e f. beyond Ascending (Some (entry_cursor e)) f) (List.map_filter (row_entry P) xs)"
    if "sorted_wrt (<) (map fst xs)" "set xs \<subseteq> set rows" for xs
    using that
  proof (induction xs)
    case (Cons row xs)
    have "beyond Ascending (Some (entry_cursor e)) f" if "row_entry P row = Some e" "x \<in> set xs" "row_entry P x = Some f" for e x f
      using step [of row e x f] Cons.prems that by auto
    then show ?case using Cons by (cases "row_entry P row") (auto simp: List.map_filter_def)
  qed (simp add: List.map_filter_def)
  then show ?thesis using assms by (simp add: index_entries_def in_order_def rows_ok_def strict_sorted_iff)
qed

lemma index_entries_advance:
  assumes "rows_ok rows" "distinct (map fst rows)" "uniform_ids P rows"
  shows "sorted_wrt (\<lambda>e f. beyond order (Some (entry_cursor e)) f) (index_entries P rows order)"
proof (cases order)
  case Ascending
  then show ?thesis using index_entries_advance_asc [OF assms] by simp
next
  case Descending
  have "beyond Descending (Some (entry_cursor f)) e \<longleftrightarrow> beyond Ascending (Some (entry_cursor e)) f" for e f
    by (auto simp: beyond_def entry_cursor_def)
  then show ?thesis using index_entries_advance_asc [OF assms] Descending
    by (simp add: index_entries_order [of P rows Descending] in_order_def sorted_wrt_rev)
qed

lemma filter_after_prefix:
  assumes "sorted_wrt R xs" "xs = ys @ e # zs" "\<And>e f. R e f \<Longrightarrow> \<not> R f e"
  shows "filter (R e) xs = zs"
proof -
  have "filter (R e) ys = []" using assms by (auto simp: sorted_wrt_append filter_empty_conv)
  moreover have "\<not> R e e" using assms(3) by blast
  moreover have "filter (R e) zs = zs" using assms(1,2) by (auto simp: sorted_wrt_append filter_id_conv)
  ultimately show ?thesis using assms(2) by simp
qed

lemma index_after_last:
  assumes rows: "rows_ok rows" "distinct (map fst rows)" "uniform_ids P rows"
    and page: "page = take k (index_after P rows order cursor)" "page \<noteq> []"
  shows "page @ index_after P rows order (Some (entry_cursor (last page))) = index_after P rows order cursor"
proof -
  let ?X = "index_after P rows order cursor" and ?R = "\<lambda>e f. beyond order (Some (entry_cursor e)) f"
  have sorted: "sorted_wrt ?R ?X"
    unfolding index_after_def by (rule sorted_wrt_filter [OF index_entries_advance [OF rows]])
  have split: "?X = butlast page @ last page # drop k ?X"
    using page by (metis append.assoc append_Cons append_Nil append_butlast_last_id append_take_drop_id)
  have "last page \<in> set ?X" using page by (metis in_set_takeD last_in_set)
  then have "beyond order cursor (last page)" by (simp add: index_after_def)
  then have "index_after P rows order (Some (entry_cursor (last page))) = filter (?R (last page)) ?X"
    unfolding index_after_def filter_filter by (intro filter_cong) (auto intro: beyond_trans)
  also have "\<dots> = drop k ?X" by (rule filter_after_prefix [OF sorted split]) (rule beyond_asym)
  finally show ?thesis using page by (metis append_take_drop_id)
qed

section \<open>The queries on the in-memory store\<close>

text \<open>A page that was not cut short can be continued at its last entry without missing or repeating one.\<close>

definition continues :: "string \<Rightarrow> key_row list \<Rightarrow> DocKeyOrder \<Rightarrow> TimeIndexCursor option \<Rightarrow> TimeIndexPage \<Rightarrow> bool" where
  "continues P rows order cursor page \<longleftrightarrow> (uniform_ids P rows \<and> tp_resume page = None \<and> tp_entries page \<noteq> [] \<longrightarrow>
     tp_entries page @ index_after P rows order (Some (entry_cursor (last (tp_entries page)))) = index_after P rows order cursor)"

lemma page_exact_continues:
  assumes "rows_ok rows" "distinct (map fst rows)" "page_exact P rows order cursor limit page"
  shows "continues P rows order cursor page"
proof -
  have "tp_resume page = None \<Longrightarrow> tp_entries page = take limit (index_after P rows order cursor)" using assms(3) by (simp add: page_exact_def)
  then show ?thesis unfolding continues_def using index_after_last [OF assms(1,2)] by blast
qed

lemma memory_rows_distinct: "docs_ok s \<Longrightarrow> distinct (map fst (memory_rows L r s))"
  using mset_eq_imp_distinct_iff [of "map fst (sort_key fst (replica_rows r s))" "map fst (replica_rows r s)"]
  by (simp add: memory_rows_sorted comp_def docs_ok_def)

text \<open>
  C5. A page of a time index is exact, newest first, oldest first, and for one author. The query always answers, with at
  most \<open>limit\<close> entries and after at most 257 listings, whatever the replica holds. Without a resume point the page is the
  first \<open>limit\<close> entries beyond the cursor, no more, no fewer and in order; with one, the page and the entries beyond the
  resume point are together the entries beyond the cursor, and the resume point is strictly farther than the cursor.
  Where the object ids have one length, reading on from the last entry misses none. This is for up to 32 keys of another
  shape in a second and up to 512 keys in the second of the cursor, the bounds the code states.
\<close>

theorem time_index_pages_exact:
  assumes "docs_ok s" "may_open L r s" "few_malformed P (memory_rows L r s)" "second_fits P (memory_rows L r s) cursor"
    and "\<forall>c. cursor = Some c \<longrightarrow> is_i64 (tc_created_at c)" and "limit + 32 \<le> u64_max"
  shows "(\<exists>page t. query_time_index_desc (memory_docs L) r P cursor limit s = (Inr page, t) \<and>
      page_exact P (memory_rows L r s) Descending cursor limit page \<and> continues P (memory_rows L r s) Descending cursor page) \<and>
    (\<exists>page t. query_time_index_asc (memory_docs L) r P cursor limit s = (Inr page, t) \<and>
      page_exact P (memory_rows L r s) Ascending cursor limit page \<and> continues P (memory_rows L r s) Ascending cursor page) \<and>
    (\<exists>page t. query_time_index_desc_by_author (memory_docs L) r P a cursor limit s = (Inr page, t) \<and>
      page_exact P (author_rows L r a s) Descending cursor limit page \<and> continues P (author_rows L r a s) Descending cursor page)"
proof -
  have ready: "holds_rows L r s s" using assms by (simp add: holds_rows_def)
  have lists: "list_index_keys (memory_docs L) r None = query_replica_keys L r"
    "list_index_keys (memory_docs L) r (Some a) = query_replica_keys_by_author L r a"
    by (simp_all add: fun_eq_iff list_index_keys_def memory_docs_def)
  have all: "\<exists>page t. walk_keys (query_replica_keys L r) P order cursor limit s = (Inr page, t) \<and>
      page_exact P (memory_rows L r s) order cursor limit page \<and> continues P (memory_rows L r s) order cursor page" for order
    using memory.walk_keys_ok [OF ready assms(3) second_fits_scanned [OF assms(4)] assms(6,5), of order] page_exact_continues [OF memory_rows_ok memory_rows_distinct [OF assms(1)]]
    by blast
  have author: "rows_ok (author_rows L r a s)" "distinct (map fst (author_rows L r a s))"
    "few_malformed P (author_rows L r a s)" "second_fits P (author_rows L r a s) cursor"
    using assms(3,4) memory_rows_ok [of L r s] memory_rows_distinct [OF assms(1), of L r]
    by (simp_all add: author_rows_def rows_ok_def few_malformed_def second_fits_def)
  have one: "\<exists>page t. walk_keys (query_replica_keys_by_author L r a) P Descending cursor limit s = (Inr page, t) \<and>
      page_exact P (author_rows L r a s) Descending cursor limit page \<and> continues P (author_rows L r a s) Descending cursor page"
    using authored.walk_keys_ok [OF ready author(3) second_fits_scanned [OF author(4)] assms(6,5), of Descending] page_exact_continues [OF author(1,2)] by blast
  show ?thesis
    using all one by (simp add: query_time_index_desc_def query_time_index_asc_def query_time_index_desc_by_author_def
      walk_time_index_def walk_time_index_as_def lists)
qed

text \<open>
  C22. The window of an index is exact: the query answers with the newest entries that are not after \<open>until\<close>, at most
  \<open>limit\<close> of them and however many entries claim a later time, or with a part of them and the point where to resume, which
  is not after \<open>until\<close>. It takes at most 258 listings. This is for an index with up to 32 keys of another shape in a second,
  the allowance of the code, and for a time before the last second an \<open>i64\<close> can hold.
\<close>

theorem time_index_window_exact:
  assumes "docs_ok s" "may_open L r s" "few_malformed P (memory_rows L r s)"
    and "is_i64 until" "until < i64_max" "limit + 64 \<le> u64_max"
  shows "\<exists>page t. query_time_index_window (memory_docs L) r P until limit s = (Inr page, t) \<and>
    window_exact P (memory_rows L r s) until limit page"
proof -
  have ready: "holds_rows L r s s" using assms by (simp add: holds_rows_def)
  have "ds_query_replica_keys (memory_docs L) r = query_replica_keys L r" by (simp add: memory_docs_def)
  then show ?thesis using memory.window_ok [OF ready assms(3,6,4,5)] by blast
qed

text \<open>An index with two entries, of the seconds 5 and 7, which the table yields in the wrong order.\<close>

definition index_docs :: MemoryDocsSync where
  "index_docs = default_docs\<lparr>md_records := [(''topic::t'', [(''i/00000000000000000007-b/b'', ''y''), (''i/00000000000000000005-a/a'', ''x'')])]\<rparr>"

lemma index_docs_facts:
  "docs_ok index_docs" "may_open sample_docs ''topic::t'' index_docs"
  "few_malformed P (memory_rows sample_docs ''topic::t'' index_docs)" "second_fits P (memory_rows sample_docs ''topic::t'' index_docs) cursor"
  "map (\<lambda>e. (ti_created_at e, ti_object_id e)) (index_entries ''i/'' (memory_rows sample_docs ''topic::t'' index_docs) Ascending) = [(5, ''a''), (7, ''b'')]"
proof -
  have rows: "replica_rows r index_docs = (if r = ''topic::t'' then
      [(''i/00000000000000000007-b/b'', ''y''), (''i/00000000000000000005-a/a'', ''x'')] else [])" for r
    by (simp add: replica_rows_def index_docs_def bm_get_def)
  show "docs_ok index_docs" by (simp add: docs_ok_def rows)
  show "may_open sample_docs ''topic::t'' index_docs"
    by (simp add: may_open_def ensure_private_replica_access_def public_replica_secret_def starts_with_def ACCOUNT_SYNC_REPLICA_PREFIX_def)
  have two: "length (filter Q (memory_rows sample_docs ''topic::t'' index_docs)) \<le> 2" for Q
    using length_filter_le [of Q "memory_rows sample_docs ''topic::t'' index_docs"] by (simp add: memory_rows_def rows)
  show "few_malformed P (memory_rows sample_docs ''topic::t'' index_docs)"
    using le_trans [OF two] by (simp add: few_malformed_def)
  show "second_fits P (memory_rows sample_docs ''topic::t'' index_docs) cursor"
    using le_trans [OF two] by (simp add: second_fits_def)
  show "map (\<lambda>e. (ti_created_at e, ti_object_id e)) (index_entries ''i/'' (memory_rows sample_docs ''topic::t'' index_docs) Ascending) =
      [(5, ''a''), (7, ''b'')]"
    unfolding memory_rows_sorted rows
    by (simp add: index_entries_def in_order_def List.map_filter_def row_entry_def parse_entry_def key_entry_def strip_prefix_def
      starts_with_def rsplit_once_def TIME_DIGITS_def parse_i64_def parse_magnitude_def digit_value_def ascii_digit_def is_i64_def)
qed

theorem time_index_pages_exact_witness:
  "docs_ok index_docs \<and> may_open sample_docs ''topic::t'' index_docs \<and>
   (let rows = memory_rows sample_docs ''topic::t'' index_docs; cursor = \<lparr>tc_created_at = 7, tc_object_id = ''b''\<rparr> in
    few_malformed ''i/'' rows \<and> second_fits ''i/'' rows (Some cursor) \<and>
    map ti_object_id (index_after ''i/'' rows Descending (Some cursor)) = [''a''] \<and>
    (\<exists>page t. query_time_index_desc (memory_docs sample_docs) ''topic::t'' ''i/'' (Some cursor) 10 index_docs = (Inr page, t) \<and>
      page_exact ''i/'' rows Descending (Some cursor) 10 page))"
proof -
  let ?rows = "memory_rows sample_docs ''topic::t'' index_docs" and ?c = "\<lparr>tc_created_at = 7, tc_object_id = ''b''\<rparr>"
  obtain e f where ef: "index_entries ''i/'' ?rows Ascending = [e, f]" "ti_created_at e = 5" "ti_object_id e = ''a''"
      "ti_created_at f = 7" "ti_object_id f = ''b''"
    using index_docs_facts(5) by (auto simp: map_eq_Cons_conv)
  have "map ti_object_id (index_after ''i/'' ?rows Descending (Some ?c)) = [''a'']"
    using ef by (simp add: index_after_def index_entries_order [of _ _ Descending] in_order_def beyond_def)
  moreover have "\<forall>c. Some ?c = Some c \<longrightarrow> is_i64 (tc_created_at c)" "10 + 32 \<le> u64_max" by (simp_all add: is_i64_def)
  then obtain page t where "query_time_index_desc (memory_docs sample_docs) ''topic::t'' ''i/'' (Some ?c) 10 index_docs = (Inr page, t)"
      "page_exact ''i/'' ?rows Descending (Some ?c) 10 page"
    using time_index_pages_exact [OF index_docs_facts(1-4), of "Some ?c" 10 "''i/''"] by blast
  ultimately show ?thesis using index_docs_facts(1-4) by (auto simp: Let_def)
qed

theorem time_index_window_exact_witness:
  "docs_ok index_docs \<and> may_open sample_docs ''topic::t'' index_docs \<and>
   (let rows = memory_rows sample_docs ''topic::t'' index_docs in
    few_malformed ''i/'' rows \<and>
    map ti_object_id (filter (\<lambda>e. ti_created_at e \<le> 6) (index_entries ''i/'' rows Descending)) = [''a''] \<and>
    (\<exists>page t. query_time_index_window (memory_docs sample_docs) ''topic::t'' ''i/'' 6 10 index_docs = (Inr page, t) \<and>
      window_exact ''i/'' rows 6 10 page))"
proof -
  let ?rows = "memory_rows sample_docs ''topic::t'' index_docs"
  obtain e f where ef: "index_entries ''i/'' ?rows Ascending = [e, f]" "ti_created_at e = 5" "ti_object_id e = ''a''"
      "ti_created_at f = 7" "ti_object_id f = ''b''"
    using index_docs_facts(5) by (auto simp: map_eq_Cons_conv)
  have "map ti_object_id (filter (\<lambda>e. ti_created_at e \<le> 6) (index_entries ''i/'' ?rows Descending)) = [''a'']"
    using ef by (simp add: index_entries_order [of _ _ Descending] in_order_def)
  moreover have "is_i64 6" "6 < i64_max" "10 + 64 \<le> u64_max" by (simp_all add: is_i64_def)
  then have "\<exists>page t. query_time_index_window (memory_docs sample_docs) ''topic::t'' ''i/'' 6 10 index_docs = (Inr page, t) \<and>
      window_exact ''i/'' ?rows 6 10 page"
    using time_index_window_exact [OF index_docs_facts(1-3), of 6 10 "''i/''"] by blast
  ultimately show ?thesis using index_docs_facts(1-3) by (simp add: Let_def)
qed

end
