(* ===== verification/Network_Work.thy ===== *)
theory Network_Work
  imports Rust_Collections
begin

text \<open>
  The admission of network work of one account (\<^verbatim>\<open>crates/transport/src/work_admission.rs\<close>):
  \<open>NetworkWorkOwner\<close> decides which request is admitted, joined to one that is already there, put off
  or denied, which queued job an executor may start, which started job it has to stop, and whether
  the result of a finished job may still be published. It does no I/O, so the whole of it is a
  function of its state. An \<open>Instant\<close> is its nanoseconds, a \<open>usize\<close> a natural number, and a method
  that can panic (an \<open>expect\<close>, an index, a subtraction below zero) returns a result. \<open>blake3\<close> is an
  argument.
\<close>

section \<open>Identities and limits\<close>

type_synonym instant = int

definition LANES :: "nat list" where
  "LANES = [0, 0, 0, 0, 1, 1, 2]"

record WorkLimits =
  wl_scopes :: nat
  wl_requests :: nat
  wl_waiters_per_request :: nat
  wl_metadata_bytes :: nat
  wl_running :: nat

definition default_WorkLimits :: WorkLimits where
  "default_WorkLimits = \<lparr>wl_scopes = 64, wl_requests = 256, wl_waiters_per_request = 64,
     wl_metadata_bytes = 4 * 1024 * 1024, wl_running = 8\<rparr>"

text \<open>
  The structures that are keys of ordered maps and elements of ordered sets carry the derived
  \<open>Ord\<close>, which compares the fields in the order of their declaration and the variants of an
  enumeration in theirs.
\<close>

datatype WorkScope = WorkScope (ws_owner: u64) (ws_generation: u64)

fun scope_fields :: "WorkScope \<Rightarrow> u64 \<times> u64" where
  "scope_fields (WorkScope a b) = (a, b)"

instantiation WorkScope :: linorder
begin

definition less_eq_WorkScope :: "WorkScope \<Rightarrow> WorkScope \<Rightarrow> bool" where
  "less_eq_WorkScope a b \<longleftrightarrow> scope_fields a \<le> scope_fields b"

definition less_WorkScope :: "WorkScope \<Rightarrow> WorkScope \<Rightarrow> bool" where
  "less_WorkScope a b \<longleftrightarrow> scope_fields a < scope_fields b"

instance
proof
  fix x y :: WorkScope
  show "x = y" if "x \<le> y" "y \<le> x"
    using antisym [of "scope_fields x" "scope_fields y"] that
    by (cases x; cases y) (simp_all add: less_eq_WorkScope_def del: less_eq_prod_simp)
qed (auto simp: less_eq_WorkScope_def less_WorkScope_def)

end

datatype WorkId = WorkId (wi_owner: u64) (wi_serial: u64)

fun id_fields :: "WorkId \<Rightarrow> u64 \<times> u64" where
  "id_fields (WorkId a b) = (a, b)"

instantiation WorkId :: linorder
begin

definition less_eq_WorkId :: "WorkId \<Rightarrow> WorkId \<Rightarrow> bool" where
  "less_eq_WorkId a b \<longleftrightarrow> id_fields a \<le> id_fields b"

definition less_WorkId :: "WorkId \<Rightarrow> WorkId \<Rightarrow> bool" where
  "less_WorkId a b \<longleftrightarrow> id_fields a < id_fields b"

instance
proof
  fix x y :: WorkId
  show "x = y" if "x \<le> y" "y \<le> x"
    using antisym [of "id_fields x" "id_fields y"] that
    by (cases x; cases y) (simp_all add: less_eq_WorkId_def del: less_eq_prod_simp)
qed (auto simp: less_eq_WorkId_def less_WorkId_def)

end

record WorkWaiter =
  ww_scope :: WorkScope
  ww_work :: WorkId
  ww_serial :: u64

definition work_id :: "WorkWaiter \<Rightarrow> WorkId" where
  "work_id w = ww_work w"

datatype WorkProtocol = GossipWork | DocsWork | BlobWork | ReceiveBindingWork | CommunityNodeWork

fun protocol_rank :: "WorkProtocol \<Rightarrow> nat" where
  "protocol_rank GossipWork = 0"
| "protocol_rank DocsWork = 1"
| "protocol_rank BlobWork = 2"
| "protocol_rank ReceiveBindingWork = 3"
| "protocol_rank CommunityNodeWork = 4"

instantiation WorkProtocol :: linorder
begin

definition less_eq_WorkProtocol :: "WorkProtocol \<Rightarrow> WorkProtocol \<Rightarrow> bool" where
  "less_eq_WorkProtocol a b \<longleftrightarrow> protocol_rank a \<le> protocol_rank b"

definition less_WorkProtocol :: "WorkProtocol \<Rightarrow> WorkProtocol \<Rightarrow> bool" where
  "less_WorkProtocol a b \<longleftrightarrow> protocol_rank a < protocol_rank b"

instance
proof
  fix x y :: WorkProtocol
  show "x = y" if "x \<le> y" "y \<le> x"
    using antisym [of "protocol_rank x" "protocol_rank y"] that
    by (cases x; cases y) (simp_all add: less_eq_WorkProtocol_def del: less_eq_prod_simp)
qed (auto simp: less_eq_WorkProtocol_def less_WorkProtocol_def)

end

datatype WorkMode = LocalOnlyMode | DisplayMode | FetchMode | SendMode | SyncMode

fun mode_rank :: "WorkMode \<Rightarrow> nat" where
  "mode_rank LocalOnlyMode = 0"
| "mode_rank DisplayMode = 1"
| "mode_rank FetchMode = 2"
| "mode_rank SendMode = 3"
| "mode_rank SyncMode = 4"

instantiation WorkMode :: linorder
begin

definition less_eq_WorkMode :: "WorkMode \<Rightarrow> WorkMode \<Rightarrow> bool" where
  "less_eq_WorkMode a b \<longleftrightarrow> mode_rank a \<le> mode_rank b"

definition less_WorkMode :: "WorkMode \<Rightarrow> WorkMode \<Rightarrow> bool" where
  "less_WorkMode a b \<longleftrightarrow> mode_rank a < mode_rank b"

instance
proof
  fix x y :: WorkMode
  show "x = y" if "x \<le> y" "y \<le> x"
    using antisym [of "mode_rank x" "mode_rank y"] that
    by (cases x; cases y) (simp_all add: less_eq_WorkMode_def del: less_eq_prod_simp)
qed (auto simp: less_eq_WorkMode_def less_WorkMode_def)

end

datatype WorkPersistence = Ephemeral | StoreResult

fun persistence_rank :: "WorkPersistence \<Rightarrow> nat" where
  "persistence_rank Ephemeral = 0"
| "persistence_rank StoreResult = 1"

instantiation WorkPersistence :: linorder
begin

definition less_eq_WorkPersistence :: "WorkPersistence \<Rightarrow> WorkPersistence \<Rightarrow> bool" where
  "less_eq_WorkPersistence a b \<longleftrightarrow> persistence_rank a \<le> persistence_rank b"

definition less_WorkPersistence :: "WorkPersistence \<Rightarrow> WorkPersistence \<Rightarrow> bool" where
  "less_WorkPersistence a b \<longleftrightarrow> persistence_rank a < persistence_rank b"

instance
proof
  fix x y :: WorkPersistence
  show "x = y" if "x \<le> y" "y \<le> x"
    using antisym [of "persistence_rank x" "persistence_rank y"] that
    by (cases x; cases y) (simp_all add: less_eq_WorkPersistence_def del: less_eq_prod_simp)
qed (auto simp: less_eq_WorkPersistence_def less_WorkPersistence_def)

end

datatype WorkLane = Interactive | SendLane | Background

fun lane_index :: "WorkLane \<Rightarrow> nat" where
  "lane_index Interactive = 0"
| "lane_index SendLane = 1"
| "lane_index Background = 2"

instantiation WorkLane :: linorder
begin

definition less_eq_WorkLane :: "WorkLane \<Rightarrow> WorkLane \<Rightarrow> bool" where
  "less_eq_WorkLane a b \<longleftrightarrow> lane_index a \<le> lane_index b"

definition less_WorkLane :: "WorkLane \<Rightarrow> WorkLane \<Rightarrow> bool" where
  "less_WorkLane a b \<longleftrightarrow> lane_index a < lane_index b"

instance
proof
  fix x y :: WorkLane
  show "x = y" if "x \<le> y" "y \<le> x"
    using antisym [of "lane_index x" "lane_index y"] that
    by (cases x; cases y) (simp_all add: less_eq_WorkLane_def del: less_eq_prod_simp)
qed (auto simp: less_eq_WorkLane_def less_WorkLane_def)

end

datatype WorkKey = WorkKey (wk_scope: WorkScope) (wk_protocol: WorkProtocol) (wk_object: string)
    (wk_mode: WorkMode) (wk_persistence: WorkPersistence) (wk_byte_limit: u64)
    (wk_deadline: instant) (wk_lane: WorkLane)

fun key_fields :: "WorkKey \<Rightarrow>
    WorkScope \<times> WorkProtocol \<times> string \<times> WorkMode \<times> WorkPersistence \<times> u64 \<times> instant \<times> WorkLane" where
  "key_fields (WorkKey a b c d e f g h) = (a, b, c, d, e, f, g, h)"

instantiation WorkKey :: linorder
begin

definition less_eq_WorkKey :: "WorkKey \<Rightarrow> WorkKey \<Rightarrow> bool" where
  "less_eq_WorkKey a b \<longleftrightarrow> key_fields a \<le> key_fields b"

definition less_WorkKey :: "WorkKey \<Rightarrow> WorkKey \<Rightarrow> bool" where
  "less_WorkKey a b \<longleftrightarrow> key_fields a < key_fields b"

instance
proof
  fix x y :: WorkKey
  show "x = y" if "x \<le> y" "y \<le> x"
    using antisym [of "key_fields x" "key_fields y"] that
    by (cases x; cases y) (simp_all add: less_eq_WorkKey_def del: less_eq_prod_simp)
qed (auto simp: less_eq_WorkKey_def less_WorkKey_def)

end

section \<open>The owner of the work\<close>

datatype AdmissionDenied =
    InactiveScope | ExpiredKey | MetadataTooLarge | ConflictingMetadata | LocalOnlyDenied | IdentifierExhausted

datatype WorkAdmission =
    Admitted WorkWaiter
  | Joined WorkWaiter
  | Deferred instant
  | Denied AdmissionDenied

record StartedWork =
  sw_id :: WorkId
  sw_key :: WorkKey
  sw_metadata :: string

datatype WorkCompletion = Publish | Discard | UnknownWork

record WorkUsage =
  wu_scopes :: nat
  wu_requests :: nat
  wu_running :: nat
  wu_stopping :: nat
  wu_metadata_bytes :: nat
  wu_waiters :: nat

datatype Phase = Queued | Running | Stopping

record Entry =
  en_key :: WorkKey
  en_metadata :: "string option"
  en_metadata_hash :: string
  en_metadata_bytes :: nat
  en_waiters :: "u64 list"
  en_phase :: Phase

record NetworkWorkOwner =
  nw_owner :: u64
  nw_serial :: u64
  nw_limits :: WorkLimits
  nw_scopes :: "(WorkScope, WorkId list) btree_map"
  nw_entries :: "(WorkId, Entry) btree_map"
  nw_keys :: "(WorkKey, WorkId) btree_map"
  nw_deadlines :: "(instant \<times> WorkId) list"
  nw_queues :: "WorkId list list"
  nw_cancellations :: "WorkId list"
  nw_cursor :: nat
  nw_running :: nat
  nw_metadata_bytes :: nat

text \<open>The process-wide sequence \<open>OWNER_SEQUENCE\<close> is an argument and comes back advanced.\<close>

definition new_owner :: "WorkLimits \<Rightarrow> u64 \<Rightarrow> (NetworkWorkOwner \<times> u64) result" where
  "new_owner limits owner_sequence =
     rbind (expect ''network work owner identity exhausted''
       (if owner_sequence < u64_max then Some owner_sequence else None)) (\<lambda>owner.
     Inr (\<lparr>nw_owner = owner, nw_serial = 0, nw_limits = limits, nw_scopes = [], nw_entries = [],
       nw_keys = [], nw_deadlines = [], nw_queues = [[], [], []], nw_cancellations = [],
       nw_cursor = 0, nw_running = 0, nw_metadata_bytes = 0\<rparr>, owner_sequence + 1))"

definition next_serial :: "NetworkWorkOwner \<Rightarrow> u64 option \<times> NetworkWorkOwner" where
  "next_serial s =
     (if nw_serial s < u64_max
      then (Some (nw_serial s + 1), s\<lparr>nw_serial := nw_serial s + 1\<rparr>) else (None, s))"

definition register_scope :: "NetworkWorkOwner \<Rightarrow> WorkScope option \<times> NetworkWorkOwner" where
  "register_scope s =
     (if length (nw_scopes s) \<ge> wl_scopes (nw_limits s) then (None, s)
      else case next_serial s of
        (None, s) \<Rightarrow> (None, s)
      | (Some generation, s) \<Rightarrow>
          (let scope = WorkScope (nw_owner s) generation in
           (Some scope, s\<lparr>nw_scopes := bm_insert scope [] (nw_scopes s)\<rparr>)))"

definition usize_sub :: "nat \<Rightarrow> nat \<Rightarrow> nat result" where
  "usize_sub a b = (if b \<le> a then Inr (a - b) else Inl (Panic ''attempt to subtract with overflow''))"

definition remove_work :: "WorkId \<Rightarrow> NetworkWorkOwner \<Rightarrow> NetworkWorkOwner result" where
  "remove_work wid s =
     (case bm_get (nw_entries s) wid of
        None \<Rightarrow> Inr s
      | Some entry \<Rightarrow>
          (let key = en_key entry;
               lane = lane_index (wk_lane key);
               s = s\<lparr>nw_entries := bm_remove wid (nw_entries s),
                     nw_keys := bm_remove key (nw_keys s),
                     nw_deadlines := bs_remove (wk_deadline key, wid) (nw_deadlines s),
                     nw_queues := (nw_queues s)[lane := bs_remove wid (nw_queues s ! lane)],
                     nw_cancellations := bs_remove wid (nw_cancellations s),
                     nw_scopes := (case bm_get (nw_scopes s) (wk_scope key) of
                         None \<Rightarrow> nw_scopes s
                       | Some work \<Rightarrow> bm_insert (wk_scope key) (bs_remove wid work) (nw_scopes s))\<rparr> in
           rbind (if en_phase entry \<noteq> Queued then usize_sub (nw_running s) 1 else Inr (nw_running s)) (\<lambda>running.
           rbind (usize_sub (nw_metadata_bytes s) (en_metadata_bytes entry)) (\<lambda>metadata_bytes.
           Inr (s\<lparr>nw_running := running, nw_metadata_bytes := metadata_bytes\<rparr>)))))"

definition cancel_work :: "WorkId \<Rightarrow> NetworkWorkOwner \<Rightarrow> NetworkWorkOwner result" where
  "cancel_work wid s =
     (case bm_get (nw_entries s) wid of
        None \<Rightarrow> Inr s
      | Some entry \<Rightarrow>
          if en_phase entry = Queued then remove_work wid s
          else if en_phase entry = Running
          then Inr (s\<lparr>nw_entries := bm_insert wid (entry\<lparr>en_phase := Stopping\<rparr>) (nw_entries s),
                      nw_deadlines := bs_remove (wk_deadline (en_key entry), wid) (nw_deadlines s),
                      nw_cancellations := bs_insert wid (nw_cancellations s)\<rparr>)
          else Inr s)"

definition revoke_scope :: "WorkScope \<Rightarrow> NetworkWorkOwner \<Rightarrow> NetworkWorkOwner result" where
  "revoke_scope scope s =
     (case bm_get (nw_scopes s) scope of
        None \<Rightarrow> Inr s
      | Some work \<Rightarrow> try_fold (\<lambda>s wid. cancel_work wid s) (s\<lparr>nw_scopes := bm_remove scope (nw_scopes s)\<rparr>) work)"

lemma cancel_work_deadlines:
  assumes "cancel_work wid s = Inr t"
  shows "length (nw_deadlines t) \<le> length (nw_deadlines s)"
  using assms
  by (auto simp: cancel_work_def remove_work_def Let_def bs_remove_def result_simps
      split: option.splits if_splits)

function (sequential) expire :: "instant \<Rightarrow> NetworkWorkOwner \<Rightarrow> NetworkWorkOwner result" where
  "expire now s =
     (case nw_deadlines s of
        [] \<Rightarrow> Inr s
      | (deadline, wid) # rest \<Rightarrow>
          if deadline > now then Inr s
          else rbind (cancel_work wid (s\<lparr>nw_deadlines := rest\<rparr>)) (\<lambda>s. expire now s))"
  by pat_completeness auto
termination
  by (relation "measure (\<lambda>(_, s). length (nw_deadlines s))") (auto dest!: cancel_work_deadlines)

declare expire.simps [simp del]

definition deferred :: "instant \<Rightarrow> WorkAdmission" where
  "deferred now = Deferred (now + 250000000)"

text \<open>
  \<open>admit\<close> is its guards (\<open>admission_denied\<close>), the branch of a key that is already there
  (\<open>join_work\<close>) and that of a new one (\<open>enter_work\<close>).
\<close>

definition admission_denied :: "WorkKey \<Rightarrow> string \<Rightarrow> instant \<Rightarrow> NetworkWorkOwner \<Rightarrow> AdmissionDenied option" where
  "admission_denied key metadata now s =
     (if \<not> bm_contains (nw_scopes s) (wk_scope key) then Some InactiveScope
      else if wk_deadline key \<le> now then Some ExpiredKey
      else if wk_mode key = LocalOnlyMode then Some LocalOnlyDenied
      else if length metadata > wl_metadata_bytes (nw_limits s) then Some MetadataTooLarge
      else None)"

definition join_work :: "(string \<Rightarrow> string) \<Rightarrow> WorkKey \<Rightarrow> string \<Rightarrow> instant \<Rightarrow> WorkId \<Rightarrow> NetworkWorkOwner \<Rightarrow>
    (WorkAdmission \<times> NetworkWorkOwner) result" where
  "join_work blake3 key metadata now wid s =
     rbind (expect ''no entry found for key'' (bm_get (nw_entries s) wid)) (\<lambda>entry.
     if en_metadata_hash entry \<noteq> blake3 metadata then Inr (Denied ConflictingMetadata, s)
     else if en_phase entry = Stopping \<or> length (en_waiters entry) \<ge> wl_waiters_per_request (nw_limits s)
     then Inr (deferred now, s)
     else case next_serial s of
       (None, s) \<Rightarrow> Inr (Denied IdentifierExhausted, s)
     | (Some serial, s) \<Rightarrow>
         rbind (expect ''indexed work exists'' (bm_get (nw_entries s) wid)) (\<lambda>entry.
         Inr (Joined \<lparr>ww_scope = wk_scope key, ww_work = wid, ww_serial = serial\<rparr>,
           s\<lparr>nw_entries := bm_insert wid (entry\<lparr>en_waiters := bs_insert serial (en_waiters entry)\<rparr>) (nw_entries s)\<rparr>)))"

definition enter_work :: "(string \<Rightarrow> string) \<Rightarrow> WorkKey \<Rightarrow> string \<Rightarrow> instant \<Rightarrow> NetworkWorkOwner \<Rightarrow>
    (WorkAdmission \<times> NetworkWorkOwner) result" where
  "enter_work blake3 key metadata now s =
     (let full = length (nw_entries s) \<ge> wl_requests (nw_limits s) \<or> wl_waiters_per_request (nw_limits s) = 0 in
      rbind (if full then Inr 0 else usize_sub (wl_metadata_bytes (nw_limits s)) (nw_metadata_bytes s)) (\<lambda>free.
      if full \<or> length metadata > free then Inr (deferred now, s)
      else case next_serial s of
        (None, s) \<Rightarrow> Inr (Denied IdentifierExhausted, s)
      | (Some serial, s) \<Rightarrow>
          (let wid = WorkId (nw_owner s) serial;
               entry = \<lparr>en_key = key, en_metadata = Some metadata, en_metadata_hash = blake3 metadata,
                 en_metadata_bytes = length metadata, en_waiters = [serial], en_phase = Queued\<rparr>;
               lane = lane_index (wk_lane key) in
           rbind (expect ''scope validated before admission'' (bm_get (nw_scopes s) (wk_scope key))) (\<lambda>work.
           Inr (Admitted \<lparr>ww_scope = wk_scope key, ww_work = wid, ww_serial = serial\<rparr>,
             s\<lparr>nw_entries := bm_insert wid entry (nw_entries s),
               nw_keys := bm_insert key wid (nw_keys s),
               nw_scopes := bm_insert (wk_scope key) (bs_insert wid work) (nw_scopes s),
               nw_deadlines := bs_insert (wk_deadline key, wid) (nw_deadlines s),
               nw_queues := (nw_queues s)[lane := bs_insert wid (nw_queues s ! lane)],
               nw_metadata_bytes := nw_metadata_bytes s + length metadata\<rparr>)))))"

definition admit :: "(string \<Rightarrow> string) \<Rightarrow> WorkKey \<Rightarrow> string \<Rightarrow> instant \<Rightarrow> NetworkWorkOwner \<Rightarrow>
    (WorkAdmission \<times> NetworkWorkOwner) result" where
  "admit blake3 key metadata now s =
     rbind (expire now s) (\<lambda>s.
     case admission_denied key metadata now s of
       Some reason \<Rightarrow> Inr (Denied reason, s)
     | None \<Rightarrow>
         (case bm_get (nw_keys s) key of
            Some wid \<Rightarrow> join_work blake3 key metadata now wid s
          | None \<Rightarrow> enter_work blake3 key metadata now s))"

definition release_waiter :: "WorkWaiter \<Rightarrow> NetworkWorkOwner \<Rightarrow> NetworkWorkOwner result" where
  "release_waiter waiter s =
     (case bm_get (nw_entries s) (ww_work waiter) of
        None \<Rightarrow> Inr s
      | Some entry \<Rightarrow>
          if wk_scope (en_key entry) \<noteq> ww_scope waiter then Inr s
          else if ww_serial waiter \<notin> set (en_waiters entry) then Inr s
          else (let entry = entry\<lparr>en_waiters := bs_remove (ww_serial waiter) (en_waiters entry)\<rparr>;
                    s = s\<lparr>nw_entries := bm_insert (ww_work waiter) entry (nw_entries s)\<rparr> in
                if en_waiters entry = [] \<and> (en_phase entry = Queued \<or> wk_mode (en_key entry) = DisplayMode)
                then cancel_work (ww_work waiter) s else Inr s))"

text \<open>The \<open>for _ in 0..LANES.len()\<close> loop of \<open>start_next\<close>.\<close>

fun start_loop :: "nat \<Rightarrow> NetworkWorkOwner \<Rightarrow> (StartedWork option \<times> NetworkWorkOwner) result" where
  "start_loop 0 s = Inr (None, s)"
| "start_loop (Suc n) s =
     rbind (expect ''index out of bounds''
       (if nw_cursor s < length LANES then Some (LANES ! nw_cursor s) else None)) (\<lambda>lane.
     let s = s\<lparr>nw_cursor := (nw_cursor s + 1) mod length LANES\<rparr> in
     case nw_queues s ! lane of
       [] \<Rightarrow> start_loop n s
     | wid # rest \<Rightarrow>
         (let s = s\<lparr>nw_queues := (nw_queues s)[lane := rest]\<rparr> in
          rbind (expect ''queued work exists'' (bm_get (nw_entries s) wid)) (\<lambda>entry.
          rbind (expect ''queued work owns metadata'' (en_metadata entry)) (\<lambda>metadata.
          Inr (Some \<lparr>sw_id = wid, sw_key = en_key entry, sw_metadata = metadata\<rparr>,
            s\<lparr>nw_entries := bm_insert wid (entry\<lparr>en_phase := Running, en_metadata := None\<rparr>) (nw_entries s),
              nw_running := nw_running s + 1\<rparr>)))))"

definition start_next :: "instant \<Rightarrow> NetworkWorkOwner \<Rightarrow> (StartedWork option \<times> NetworkWorkOwner) result" where
  "start_next now s =
     rbind (expire now s) (\<lambda>s.
     if nw_running s \<ge> wl_running (nw_limits s) then Inr (None, s) else start_loop (length LANES) s)"

definition next_deadline :: "NetworkWorkOwner \<Rightarrow> instant option" where
  "next_deadline s = (case nw_deadlines s of [] \<Rightarrow> None | (deadline, _) # _ \<Rightarrow> Some deadline)"

definition next_cancellation :: "NetworkWorkOwner \<Rightarrow> WorkId option \<times> NetworkWorkOwner" where
  "next_cancellation s =
     (case nw_cancellations s of [] \<Rightarrow> (None, s) | wid # rest \<Rightarrow> (Some wid, s\<lparr>nw_cancellations := rest\<rparr>))"

definition complete_work :: "WorkId \<Rightarrow> instant \<Rightarrow> NetworkWorkOwner \<Rightarrow> (WorkCompletion \<times> NetworkWorkOwner) result" where
  "complete_work wid now s =
     (case bm_get (nw_entries s) wid of
        None \<Rightarrow> Inr (UnknownWork, s)
      | Some entry \<Rightarrow>
          if en_phase entry = Queued then Inr (UnknownWork, s)
          else (let publish = en_phase entry = Running \<and> wk_deadline (en_key entry) > now
                      \<and> bm_contains (nw_scopes s) (wk_scope (en_key entry)) in
                rbind (remove_work wid s) (\<lambda>s.
                Inr (if publish then Publish else Discard, s))))"

definition contains_work :: "WorkId \<Rightarrow> NetworkWorkOwner \<Rightarrow> bool" where
  "contains_work wid s \<longleftrightarrow> bm_contains (nw_entries s) wid"

definition usage :: "NetworkWorkOwner \<Rightarrow> WorkUsage" where
  "usage s = \<lparr>wu_scopes = length (nw_scopes s), wu_requests = length (nw_entries s),
     wu_running = nw_running s,
     wu_stopping = length (filter (\<lambda>entry. en_phase entry = Stopping) (bm_values (nw_entries s))),
     wu_metadata_bytes = nw_metadata_bytes s,
     wu_waiters = sum_list (map (\<lambda>entry. length (en_waiters entry)) (bm_values (nw_entries s)))\<rparr>"

end
