(* ===== verification/Work_Invariant.thy ===== *)
theory Work_Invariant
  imports Network_Work
begin

text \<open>
  The invariant of \<open>NetworkWorkOwner\<close> (\<^verbatim>\<open>crates/transport/src/work_admission.rs\<close>): its five
  indexes, its counters and its limits agree with the entries. Every operation keeps it, in every
  branch, and with it none of the \<open>expect\<close>s, indexings and subtractions of the code can panic.
\<close>

section \<open>Totals over the entries of a map\<close>

definition bm_total :: "('v \<Rightarrow> nat) \<Rightarrow> ('k, 'v) btree_map \<Rightarrow> nat" where
  "bm_total f m = sum_list (map f (bm_values m))"

lemma bm_total_Nil [simp]: "bm_total f [] = 0"
  by (simp add: bm_total_def bm_values_def)

lemma bm_total_Cons [simp]: "bm_total f ((k, v) # m) = f v + bm_total f m"
  by (simp add: bm_total_def bm_values_def)

lemma bm_remove_absent: "bm_get m k = None \<Longrightarrow> bm_remove k m = m"
  unfolding bm_remove_def by (rule filter_True) (force simp: bm_get_None_iff)

lemma bm_total_insert:
  "bm_ok m \<Longrightarrow> bm_total f (bm_insert k v m) + (case bm_get m k of None \<Rightarrow> 0 | Some w \<Rightarrow> f w) = f v + bm_total f m"
proof (induction k v m rule: bm_insert.induct)
  case (2 k v a b m)
  have "bm_get m k = None" if "k < a"
    using 2(2) that by (force simp: bm_ok_def bm_get_None_iff)
  moreover have "bm_get m a = None"
    using 2(2) by (force simp: bm_ok_def bm_get_None_iff)
  moreover have "bm_ok m" using 2(2) by (simp add: bm_ok_def)
  ultimately show ?case using 2(1) by (auto simp: bm_get_def split: option.splits)
qed (simp add: bm_get_def)

lemma bm_total_remove:
  "bm_ok m \<Longrightarrow> bm_get m k = Some v \<Longrightarrow> bm_total f (bm_remove k m) + f v = bm_total f m"
proof (induction m)
  case (Cons p m)
  obtain a b where p: "p = (a, b)" by (cases p)
  have ok: "bm_ok m" and absent: "bm_get m a = None"
    using Cons.prems(1) by (force simp: p bm_ok_def bm_get_None_iff)+
  show ?case
  proof (cases "a = k")
    case True
    then have "bm_remove k (p # m) = m"
      using bm_remove_absent [OF absent] by (simp add: p bm_remove_def)
    then show ?thesis using Cons.prems(2) True by (simp add: p bm_get_def)
  next
    case False
    then have "bm_get m k = Some v" using Cons.prems(2) by (simp add: p bm_get_def)
    then show ?thesis using Cons.IH [OF ok] False by (simp add: p bm_remove_def)
  qed
qed simp

lemma bm_length_total: "length m = bm_total (\<lambda>_. 1) m"
  by (induction m) auto

lemma bm_count_total: "length (filter P (bm_values m)) = bm_total (\<lambda>v. if P v then 1 else 0) m"
proof (induction m)
  case (Cons p m)
  then show ?case by (cases p) (simp add: bm_values_def)
qed (simp add: bm_values_def)

lemma length_bm_insert:
  "bm_ok m \<Longrightarrow> length (bm_insert k v m) = (if bm_get m k = None then Suc (length m) else length m)"
  using bm_total_insert [of m "\<lambda>_. 1" k v] by (auto simp: bm_length_total split: option.splits)

lemma length_bm_remove_le: "length (bm_remove k m) \<le> length m"
  by (simp add: bm_remove_def)

lemma bm_total_ge: "bm_ok m \<Longrightarrow> bm_get m k = Some v \<Longrightarrow> f v \<le> bm_total f m"
  using bm_total_remove [of m k v f] by simp

section \<open>The invariant\<close>

text \<open>
  Every index of the owner is a function of its entries, its scopes and the cancellations it has
  not handed out yet. While \<open>revoke_scope\<close> runs, the work \<open>W\<close> of the scope that is gone is still to
  be cancelled; between two calls \<open>W\<close> is empty.
\<close>

abbreviation (input) work_at :: "NetworkWorkOwner \<Rightarrow> WorkId \<Rightarrow> Entry option" where
  "work_at s \<equiv> bm_get (nw_entries s)"

definition in_flight :: "Entry \<Rightarrow> nat" where
  "in_flight e = (if en_phase e = Queued then 0 else 1)"

definition shape_ok :: "NetworkWorkOwner \<Rightarrow> bool" where
  "shape_ok s \<longleftrightarrow> bm_ok (nw_scopes s) \<and> bm_ok (nw_entries s) \<and> bm_ok (nw_keys s) \<and> bs_ok (nw_deadlines s)
     \<and> length (nw_queues s) = 3 \<and> (\<forall>lane < 3. bs_ok (nw_queues s ! lane)) \<and> bs_ok (nw_cancellations s)
     \<and> nw_cursor s < length LANES"

definition keys_ok :: "NetworkWorkOwner \<Rightarrow> bool" where
  "keys_ok s \<longleftrightarrow> (\<forall>k i. bm_get (nw_keys s) k = Some i \<longleftrightarrow> (\<exists>e. work_at s i = Some e \<and> en_key e = k))"

definition deadlines_ok :: "NetworkWorkOwner \<Rightarrow> bool" where
  "deadlines_ok s \<longleftrightarrow> (\<forall>d i. (d, i) \<in> set (nw_deadlines s) \<longleftrightarrow>
     (\<exists>e. work_at s i = Some e \<and> wk_deadline (en_key e) = d \<and> en_phase e \<noteq> Stopping))"

definition queues_ok :: "NetworkWorkOwner \<Rightarrow> bool" where
  "queues_ok s \<longleftrightarrow> (\<forall>lane < 3. \<forall>i. i \<in> set (nw_queues s ! lane) \<longleftrightarrow>
     (\<exists>e. work_at s i = Some e \<and> lane_index (wk_lane (en_key e)) = lane \<and> en_phase e = Queued))"

definition cancellations_ok :: "NetworkWorkOwner \<Rightarrow> bool" where
  "cancellations_ok s \<longleftrightarrow>
     (\<forall>i \<in> set (nw_cancellations s). \<exists>e. work_at s i = Some e \<and> en_phase e = Stopping)"

definition scopes_ok :: "NetworkWorkOwner \<Rightarrow> bool" where
  "scopes_ok s \<longleftrightarrow>
     (\<forall>sc work. bm_get (nw_scopes s) sc = Some work \<longrightarrow> bs_ok work \<and> ws_owner sc = nw_owner s \<and> ws_generation sc \<le> nw_serial s
        \<and> (\<forall>i. i \<in> set work \<longleftrightarrow> (\<exists>e. work_at s i = Some e \<and> wk_scope (en_key e) = sc)))"

definition orphans_ok :: "WorkId set \<Rightarrow> NetworkWorkOwner \<Rightarrow> bool" where
  "orphans_ok W s \<longleftrightarrow> (\<forall>i e. work_at s i = Some e \<longrightarrow> bm_get (nw_scopes s) (wk_scope (en_key e)) = None \<longrightarrow>
     en_phase e = Stopping \<or> i \<in> W)"

definition entry_ok :: "(string \<Rightarrow> string) \<Rightarrow> NetworkWorkOwner \<Rightarrow> WorkId \<Rightarrow> Entry \<Rightarrow> bool" where
  "entry_ok blake3 s i e \<longleftrightarrow> wi_owner i = nw_owner s \<and> wi_serial i \<le> nw_serial s
     \<and> bs_ok (en_waiters e) \<and> (\<forall>w \<in> set (en_waiters e). w \<le> nw_serial s)
     \<and> length (en_waiters e) \<le> wl_waiters_per_request (nw_limits s)
     \<and> (en_waiters e = [] \<longrightarrow> en_phase e = Stopping \<or> en_phase e = Running \<and> wk_mode (en_key e) \<noteq> DisplayMode)
     \<and> (en_phase e = Queued \<longleftrightarrow> en_metadata e \<noteq> None)
     \<and> (\<forall>m. en_metadata e = Some m \<longrightarrow> en_metadata_bytes e = length m \<and> en_metadata_hash e = blake3 m)
     \<and> wk_mode (en_key e) \<noteq> LocalOnlyMode \<and> ws_generation (wk_scope (en_key e)) \<le> nw_serial s"

definition entries_ok :: "(string \<Rightarrow> string) \<Rightarrow> NetworkWorkOwner \<Rightarrow> bool" where
  "entries_ok blake3 s \<longleftrightarrow> (\<forall>i e. work_at s i = Some e \<longrightarrow> entry_ok blake3 s i e)"

definition counts_ok :: "NetworkWorkOwner \<Rightarrow> bool" where
  "counts_ok s \<longleftrightarrow> nw_running s = bm_total in_flight (nw_entries s)
     \<and> nw_metadata_bytes s = bm_total en_metadata_bytes (nw_entries s)"

definition limits_ok :: "NetworkWorkOwner \<Rightarrow> bool" where
  "limits_ok s \<longleftrightarrow> length (nw_scopes s) \<le> wl_scopes (nw_limits s)
     \<and> length (nw_entries s) \<le> wl_requests (nw_limits s)
     \<and> nw_running s \<le> wl_running (nw_limits s)
     \<and> nw_metadata_bytes s \<le> wl_metadata_bytes (nw_limits s)
     \<and> nw_serial s \<le> u64_max"

definition work_inv :: "(string \<Rightarrow> string) \<Rightarrow> WorkId set \<Rightarrow> NetworkWorkOwner \<Rightarrow> bool" where
  "work_inv blake3 W s \<longleftrightarrow> shape_ok s \<and> keys_ok s \<and> deadlines_ok s \<and> queues_ok s \<and> cancellations_ok s
     \<and> scopes_ok s \<and> entries_ok blake3 s \<and> counts_ok s \<and> limits_ok s \<and> orphans_ok W s"

abbreviation work_ok :: "(string \<Rightarrow> string) \<Rightarrow> NetworkWorkOwner \<Rightarrow> bool" where
  "work_ok blake3 \<equiv> work_inv blake3 {}"

lemmas work_defs = shape_ok_def keys_ok_def deadlines_ok_def queues_ok_def cancellations_ok_def
  scopes_ok_def entries_ok_def counts_ok_def limits_ok_def orphans_ok_def

lemma lane_index_less [simp]: "lane_index l < 3"
  by (cases l) auto

lemma lane_index_inj [simp]: "lane_index l = lane_index k \<longleftrightarrow> l = k"
  by (cases l; cases k) auto

lemma work_inv_parts:
  assumes "work_inv blake3 W s"
  shows "shape_ok s" "keys_ok s" "deadlines_ok s" "queues_ok s" "cancellations_ok s" "scopes_ok s"
    "entries_ok blake3 s" "counts_ok s" "limits_ok s" "orphans_ok W s"
  using assms by (simp_all add: work_inv_def)

lemma key_unique:
  "keys_ok s \<Longrightarrow> work_at s i = Some e \<Longrightarrow> work_at s j = Some f \<Longrightarrow> en_key e = en_key f \<Longrightarrow> i = j"
  unfolding keys_ok_def by (metis option.inject)

section \<open>Removing and cancelling work\<close>

definition removed :: "WorkId \<Rightarrow> Entry \<Rightarrow> NetworkWorkOwner \<Rightarrow> NetworkWorkOwner" where
  "removed i e s = s\<lparr>nw_entries := bm_remove i (nw_entries s),
     nw_keys := bm_remove (en_key e) (nw_keys s),
     nw_deadlines := bs_remove (wk_deadline (en_key e), i) (nw_deadlines s),
     nw_queues := (nw_queues s)[lane_index (wk_lane (en_key e)) := bs_remove i (nw_queues s ! lane_index (wk_lane (en_key e)))],
     nw_cancellations := bs_remove i (nw_cancellations s),
     nw_scopes := (case bm_get (nw_scopes s) (wk_scope (en_key e)) of
         None \<Rightarrow> nw_scopes s
       | Some work \<Rightarrow> bm_insert (wk_scope (en_key e)) (bs_remove i work) (nw_scopes s)),
     nw_running := nw_running s - in_flight e,
     nw_metadata_bytes := nw_metadata_bytes s - en_metadata_bytes e\<rparr>"

lemma removed_frame [simp]:
  "nw_owner (removed i e s) = nw_owner s" "nw_serial (removed i e s) = nw_serial s"
  "nw_limits (removed i e s) = nw_limits s" "nw_cursor (removed i e s) = nw_cursor s"
  "nw_entries (removed i e s) = bm_remove i (nw_entries s)"
  "nw_cancellations (removed i e s) = bs_remove i (nw_cancellations s)"
  by (simp_all add: removed_def)

lemma removed_scopes: "bm_get (nw_scopes (removed i e s)) sc =
    (if sc = wk_scope (en_key e) then map_option (bs_remove i) (bm_get (nw_scopes s) sc) else bm_get (nw_scopes s) sc)"
  by (auto simp: removed_def split: option.splits)

lemma remove_work_eq:
  assumes inv: "counts_ok s" "shape_ok s" and e: "work_at s i = Some e"
  shows "remove_work i s = Inr (removed i e s)"
proof -
  have "in_flight e \<le> nw_running s" "en_metadata_bytes e \<le> nw_metadata_bytes s"
    using inv e bm_total_ge [of "nw_entries s" i e] by (simp_all add: counts_ok_def shape_ok_def)
  then show ?thesis
    by (auto simp: remove_work_def e Let_def usize_sub_def removed_def in_flight_def split: if_splits)
qed

lemma removed_inv:
  assumes inv: "work_inv blake3 W s" and e: "work_at s i = Some e"
  shows "work_inv blake3 (W - {i}) (removed i e s)"
proof -
  note p = work_inv_parts [OF inv]
  have "shape_ok (removed i e s)"
    using p(1) by (auto simp: shape_ok_def removed_def bm_ok_remove bs_ok_remove bm_ok_insert nth_list_update split: option.split)
  moreover have "keys_ok (removed i e s)"
  proof -
    have here: "bm_get (nw_keys s) (en_key e) = Some i" and only: "bm_get (nw_keys s) k = Some i \<Longrightarrow> k = en_key e" for k
      using p(2) e by (auto simp: keys_ok_def)
    have "bm_get (nw_keys (removed i e s)) k = Some j \<longleftrightarrow> j \<noteq> i \<and> bm_get (nw_keys s) k = Some j" for k j
      using here by (cases "k = en_key e") (auto simp: removed_def dest: only)
    then show ?thesis using p(2) by (auto simp: keys_ok_def)
  qed
  moreover have "deadlines_ok (removed i e s)"
    using p(3) e by (auto simp: deadlines_ok_def removed_def set_bs_remove)
  moreover have "queues_ok (removed i e s)"
    using p(1,4) e by (auto simp: queues_ok_def shape_ok_def removed_def set_bs_remove nth_list_update)
  moreover have "cancellations_ok (removed i e s)"
    using p(5) by (auto simp: cancellations_ok_def removed_def set_bs_remove)
  moreover have "scopes_ok (removed i e s)"
    using p(6) e by (auto simp: scopes_ok_def removed_scopes set_bs_remove bs_ok_remove split: if_splits)
  moreover have "orphans_ok (W - {i}) (removed i e s)"
    using p(10) by (auto simp: orphans_ok_def removed_scopes split: if_splits)
  moreover have "entries_ok blake3 (removed i e s)"
    using p(7) by (auto simp: entries_ok_def entry_ok_def)
  moreover have "counts_ok (removed i e s)"
    using p(1,8) bm_total_remove [of "nw_entries s" i e in_flight]
      bm_total_remove [of "nw_entries s" i e en_metadata_bytes] e
    by (auto simp: counts_ok_def shape_ok_def removed_def)
  moreover have "limits_ok (removed i e s)"
    using p(1,9) length_bm_remove_le [of i "nw_entries s"]
    by (auto simp: limits_ok_def shape_ok_def removed_def length_bm_insert split: option.split)
  ultimately show ?thesis by (simp add: work_inv_def)
qed

definition stopped :: "WorkId \<Rightarrow> Entry \<Rightarrow> NetworkWorkOwner \<Rightarrow> NetworkWorkOwner" where
  "stopped i e s = s\<lparr>nw_entries := bm_insert i (e\<lparr>en_phase := Stopping\<rparr>) (nw_entries s),
     nw_deadlines := bs_remove (wk_deadline (en_key e), i) (nw_deadlines s),
     nw_cancellations := bs_insert i (nw_cancellations s)\<rparr>"

lemma stopped_frame [simp]:
  "nw_owner (stopped i e s) = nw_owner s" "nw_serial (stopped i e s) = nw_serial s"
  "nw_limits (stopped i e s) = nw_limits s" "nw_cursor (stopped i e s) = nw_cursor s"
  "nw_scopes (stopped i e s) = nw_scopes s" "nw_keys (stopped i e s) = nw_keys s"
  "nw_queues (stopped i e s) = nw_queues s" "nw_running (stopped i e s) = nw_running s"
  "nw_metadata_bytes (stopped i e s) = nw_metadata_bytes s"
  "nw_entries (stopped i e s) = bm_insert i (e\<lparr>en_phase := Stopping\<rparr>) (nw_entries s)"
  "nw_cancellations (stopped i e s) = bs_insert i (nw_cancellations s)"
  by (simp_all add: stopped_def)

text \<open>
  What a change of one entry that keeps its key, its bytes and whether it is in flight leaves
  intact.
\<close>

lemma update_keys_ok:
  assumes "keys_ok s" "work_at s i = Some e" "nw_keys t = nw_keys s" "work_at t = (work_at s)(i \<mapsto> f)" "en_key f = en_key e"
  shows "keys_ok t"
proof -
  have "(\<exists>e. work_at t j = Some e \<and> en_key e = k) \<longleftrightarrow> (\<exists>e. work_at s j = Some e \<and> en_key e = k)" for j k
    using assms by auto
  then show ?thesis using assms(1) by (simp add: keys_ok_def assms(3))
qed

lemma update_scopes_ok:
  assumes "scopes_ok s" "work_at s i = Some e" "nw_scopes t = nw_scopes s" "work_at t = (work_at s)(i \<mapsto> f)"
    "en_key f = en_key e" "nw_owner t = nw_owner s" "nw_serial s \<le> nw_serial t"
  shows "scopes_ok t"
proof -
  have same: "(\<exists>e. work_at t j = Some e \<and> wk_scope (en_key e) = k) \<longleftrightarrow> (\<exists>e. work_at s j = Some e \<and> wk_scope (en_key e) = k)" for j k
    using assms(2,4,5) by auto
  show ?thesis
    using assms(1,7) unfolding scopes_ok_def same assms(3,6) by (blast intro: order_trans)
qed

lemma update_counts_ok:
  assumes "counts_ok s" "shape_ok s" "work_at s i = Some e" "nw_entries t = bm_insert i f (nw_entries s)"
    "nw_running t + in_flight e = nw_running s + in_flight f" "nw_metadata_bytes t = nw_metadata_bytes s"
    "en_metadata_bytes f = en_metadata_bytes e"
  shows "counts_ok t" "length (nw_entries t) = length (nw_entries s)"
  using assms bm_total_insert [of "nw_entries s" in_flight i f] bm_total_insert [of "nw_entries s" en_metadata_bytes i f]
  by (auto simp: counts_ok_def shape_ok_def length_bm_insert)

lemma stopped_inv:
  assumes inv: "work_inv blake3 W s" and e: "work_at s i = Some e" and ph: "en_phase e = Running"
  shows "work_inv blake3 (W - {i}) (stopped i e s)"
proof -
  note p = work_inv_parts [OF inv]
  have "shape_ok (stopped i e s)"
    using p(1) by (auto simp: shape_ok_def stopped_def bm_ok_insert bs_ok_remove bs_ok_insert)
  moreover have "keys_ok (stopped i e s)"
    by (rule update_keys_ok [OF p(2) e, where f = "e\<lparr>en_phase := Stopping\<rparr>"]) simp_all
  moreover have "deadlines_ok (stopped i e s)"
    using p(3) e by (auto simp: deadlines_ok_def stopped_def set_bs_remove)
  moreover have "queues_ok (stopped i e s)"
    using p(4) e ph by (auto simp: queues_ok_def)
  moreover have "cancellations_ok (stopped i e s)"
    using p(5) by (auto simp: cancellations_ok_def)
  moreover have "scopes_ok (stopped i e s)"
    by (rule update_scopes_ok [OF p(6) e, where f = "e\<lparr>en_phase := Stopping\<rparr>"]) simp_all
  moreover have "orphans_ok (W - {i}) (stopped i e s)"
    using p(10) by (auto simp: orphans_ok_def)
  moreover have "entries_ok blake3 (stopped i e s)"
    using p(7) e ph by (force simp: entries_ok_def entry_ok_def)
  moreover have "counts_ok (stopped i e s)" "length (nw_entries (stopped i e s)) = length (nw_entries s)"
    using update_counts_ok [OF p(8) p(1) e, of "stopped i e s" "e\<lparr>en_phase := Stopping\<rparr>"]
    by (simp_all add: in_flight_def ph)
  moreover from this(2) have "limits_ok (stopped i e s)"
    using p(9) by (simp add: limits_ok_def)
  ultimately show ?thesis by (simp add: work_inv_def)
qed

text \<open>Cancelling work that the invariant still waits for settles it, in every phase.\<close>

lemma cancel_work_eq:
  assumes "counts_ok s" "shape_ok s"
  shows "cancel_work i s = Inr (case work_at s i of None \<Rightarrow> s
     | Some e \<Rightarrow> (case en_phase e of Queued \<Rightarrow> removed i e s | Running \<Rightarrow> stopped i e s | Stopping \<Rightarrow> s))"
  using remove_work_eq [OF assms, of i]
  by (auto simp: cancel_work_def stopped_def split: option.split Phase.split)

definition cancelled :: "WorkId \<Rightarrow> NetworkWorkOwner \<Rightarrow> NetworkWorkOwner" where
  "cancelled i s = (case work_at s i of None \<Rightarrow> s
     | Some e \<Rightarrow> (case en_phase e of Queued \<Rightarrow> removed i e s | Running \<Rightarrow> stopped i e s | Stopping \<Rightarrow> s))"

lemma work_inv_mono: "work_inv blake3 W s \<Longrightarrow> W \<subseteq> V \<Longrightarrow> work_inv blake3 V s"
  unfolding work_inv_def orphans_ok_def by blast

lemma cancelled_inv:
  assumes inv: "work_inv blake3 W s"
  shows "work_inv blake3 (W - {i}) (cancelled i s)"
proof -
  have "work_inv blake3 (W - {i}) s" if "\<And>e. work_at s i = Some e \<Longrightarrow> en_phase e = Stopping"
    using inv that by (auto simp: work_inv_def orphans_ok_def)
  then show ?thesis
    using removed_inv [OF inv] stopped_inv [OF inv]
    by (auto simp: cancelled_def split: option.split Phase.split)
qed

lemma cancel_work_ok: "work_inv blake3 W s \<Longrightarrow> cancel_work i s = Inr (cancelled i s)"
  by (simp add: cancel_work_eq cancelled_def work_inv_def)

lemma cancelled_frame [simp]:
  "nw_owner (cancelled i s) = nw_owner s" "nw_serial (cancelled i s) = nw_serial s"
  "nw_limits (cancelled i s) = nw_limits s" "nw_cursor (cancelled i s) = nw_cursor s"
  by (auto simp: cancelled_def split: option.split Phase.split)

section \<open>Winding work down\<close>

text \<open>
  Deadlines, revoked scopes and released waiters end work in the same way: queued work disappears,
  running work is told to stop once, work that is stopping stays as it is. \<open>wound_down P s t\<close> states
  that exactly the work that satisfies \<open>P\<close> has been ended between \<open>s\<close> and \<open>t\<close>.
\<close>

definition wind :: "Entry \<Rightarrow> Entry option" where
  "wind e = (case en_phase e of Queued \<Rightarrow> None | Running \<Rightarrow> Some (e\<lparr>en_phase := Stopping\<rparr>) | Stopping \<Rightarrow> Some e)"

definition wound_down :: "(WorkId \<Rightarrow> WorkKey \<Rightarrow> bool) \<Rightarrow> NetworkWorkOwner \<Rightarrow> NetworkWorkOwner \<Rightarrow> bool" where
  "wound_down P s t \<longleftrightarrow> nw_owner t = nw_owner s \<and> nw_serial t = nw_serial s \<and> nw_limits t = nw_limits s
     \<and> nw_cursor t = nw_cursor s
     \<and> (\<forall>sc. bm_contains (nw_scopes t) sc \<longleftrightarrow> bm_contains (nw_scopes s) sc)
     \<and> (\<forall>i. work_at t i = (case work_at s i of None \<Rightarrow> None | Some e \<Rightarrow> if P i (en_key e) then wind e else Some e))
     \<and> set (nw_cancellations t) = set (nw_cancellations s)
         \<union> {i. \<exists>e. work_at s i = Some e \<and> P i (en_key e) \<and> en_phase e = Running}"

lemma wound_down_frame:
  assumes "wound_down P s t"
  shows "nw_owner t = nw_owner s" "nw_serial t = nw_serial s" "nw_limits t = nw_limits s" "nw_cursor t = nw_cursor s"
    "bm_contains (nw_scopes t) sc \<longleftrightarrow> bm_contains (nw_scopes s) sc"
  using assms by (simp_all add: wound_down_def)

lemma wound_down_at:
  "wound_down P s t \<Longrightarrow> work_at t i = (case work_at s i of None \<Rightarrow> None | Some e \<Rightarrow> if P i (en_key e) then wind e else Some e)"
  by (simp add: wound_down_def)

lemma wound_down_none:
  assumes "\<And>i e. work_at s i = Some e \<Longrightarrow> P i (en_key e) \<Longrightarrow> en_phase e = Stopping"
  shows "wound_down P s s"
  using assms by (force simp: wound_down_def wind_def split: option.split)

lemma wound_down_cong:
  assumes "wound_down P s t" "\<And>i e. work_at s i = Some e \<Longrightarrow> P i (en_key e) \<longleftrightarrow> Q i (en_key e)"
  shows "wound_down Q s t"
proof -
  have "{i. \<exists>e. work_at s i = Some e \<and> P i (en_key e) \<and> en_phase e = Running} =
      {i. \<exists>e. work_at s i = Some e \<and> Q i (en_key e) \<and> en_phase e = Running}"
    using assms(2) by blast
  then show ?thesis using assms by (auto simp: wound_down_def split: option.split)
qed

lemma wind_key: "wind e = Some f \<Longrightarrow> en_key f = en_key e \<and> en_phase f = Stopping"
  by (auto simp: wind_def split: Phase.splits)

lemma wind_again: "wind e = Some f \<Longrightarrow> wind f = Some f"
  by (auto simp: wind_def split: Phase.splits)

lemma wound_down_trans:
  assumes st: "wound_down P s t" and tu: "wound_down Q t u"
  shows "wound_down (\<lambda>i k. P i k \<or> Q i k) s u"
proof -
  have "work_at u i = (case work_at s i of None \<Rightarrow> None | Some e \<Rightarrow> if P i (en_key e) \<or> Q i (en_key e) then wind e else Some e)" for i
    using wound_down_at [OF st, of i] wound_down_at [OF tu, of i]
    by (auto split: option.splits if_splits dest: wind_key wind_again)
  moreover have "(\<exists>e. work_at t i = Some e \<and> Q i (en_key e) \<and> en_phase e = Running) \<longleftrightarrow>
      (\<exists>e. work_at s i = Some e \<and> \<not> P i (en_key e) \<and> Q i (en_key e) \<and> en_phase e = Running)" for i
    using wound_down_at [OF st, of i] by (auto split: option.splits if_splits dest: wind_key)
  ultimately show ?thesis
    using st tu by (auto simp: wound_down_def)
qed

lemma cancelled_wound_down:
  assumes "work_inv blake3 W s"
  shows "wound_down (\<lambda>j _. j = i) s (cancelled i s)"
proof (cases "work_at s i")
  case (Some e)
  have "i \<notin> set (nw_cancellations s)" if "en_phase e = Queued"
    using work_inv_parts(5) [OF assms] Some that by (auto simp: cancellations_ok_def)
  then show ?thesis
    by (cases "en_phase e")
      (auto simp: wound_down_def cancelled_def Some wind_def set_bs_remove bm_contains_def removed_scopes split: option.split)
qed (auto simp: wound_down_def cancelled_def split: option.split)

lemma expire_first:
  assumes inv: "work_ok blake3 s" and dl: "nw_deadlines s = (d, i) # rest"
  shows "cancel_work i (s\<lparr>nw_deadlines := rest\<rparr>) = Inr (cancelled i s)"
    and "\<exists>e. work_at s i = Some e \<and> wk_deadline (en_key e) = d \<and> en_phase e \<noteq> Stopping"
proof -
  note p = work_inv_parts [OF inv]
  show e: "\<exists>e. work_at s i = Some e \<and> wk_deadline (en_key e) = d \<and> en_phase e \<noteq> Stopping"
    using p(3) dl by (auto simp: deadlines_ok_def)
  have "shape_ok (s\<lparr>nw_deadlines := rest\<rparr>)" "counts_ok (s\<lparr>nw_deadlines := rest\<rparr>)"
    using p(1,8) dl by (simp_all add: shape_ok_def bs_ok_def counts_ok_def)
  then show "cancel_work i (s\<lparr>nw_deadlines := rest\<rparr>) = Inr (cancelled i s)"
    using e dl
    by (auto simp: cancel_work_eq cancelled_def removed_def stopped_def bs_remove_def
        cong: option.case_cong split: Phase.split)
qed

lemma nothing_expired:
  assumes inv: "work_ok blake3 s" and "\<And>d i rest. nw_deadlines s = (d, i) # rest \<Longrightarrow> now < d"
  shows "wound_down (\<lambda>_ k. wk_deadline k \<le> now) s s"
proof (rule wound_down_none, rule ccontr)
  fix j e
  assume "work_at s j = Some e" "en_phase e \<noteq> Stopping" and due: "wk_deadline (en_key e) \<le> now"
  then have mem: "(wk_deadline (en_key e), j) \<in> set (nw_deadlines s)"
    using work_inv_parts(3) [OF inv] by (auto simp: deadlines_ok_def)
  then obtain d i rest where dl: "nw_deadlines s = (d, i) # rest" by (cases "nw_deadlines s") auto
  then have "d \<le> wk_deadline (en_key e)"
    using mem work_inv_parts(1) [OF inv] by (fastforce simp: shape_ok_def bs_ok_def)
  then show False using assms(2) [OF dl] due by simp
qed

lemma expire_ok:
  assumes "work_ok blake3 s"
  shows "\<exists>t. expire now s = Inr t \<and> work_ok blake3 t \<and> wound_down (\<lambda>_ k. wk_deadline k \<le> now) s t"
  using assms
proof (induction now s rule: expire.induct)
  case (1 now s)
  show ?case
  proof (cases "\<exists>d i rest. nw_deadlines s = (d, i) # rest \<and> d \<le> now")
    case False
    then have "expire now s = Inr s" by (auto simp: expire.simps [of now s] split: list.split)
    moreover have "wound_down (\<lambda>_ k. wk_deadline k \<le> now) s s"
      using False by (intro nothing_expired [OF 1(2)]) force
    ultimately show ?thesis using 1(2) by simp
  next
    case True
    then obtain d i rest where dl: "nw_deadlines s = (d, i) # rest" and due: "\<not> d > now" by force
    have inv: "work_ok blake3 (cancelled i s)"
      using cancelled_inv [OF 1(2), of i] by simp
    obtain t where t: "expire now (cancelled i s) = Inr t" "work_ok blake3 t"
      "wound_down (\<lambda>_ k. wk_deadline k \<le> now) (cancelled i s) t"
      using 1(1) [OF dl refl due expire_first(1) [OF 1(2) dl] inv] by blast
    obtain e where e: "work_at s i = Some e" "wk_deadline (en_key e) = d"
      using expire_first(2) [OF 1(2) dl] by blast
    have "wound_down (\<lambda>_ k. wk_deadline k \<le> now) s t"
      by (rule wound_down_cong [OF wound_down_trans [OF cancelled_wound_down [OF 1(2), of i] t(3)]])
        (use e due in auto)
    then show ?thesis
      using t(1,2) dl due expire_first(1) [OF 1(2) dl] by (simp add: expire.simps [of now s])
  qed
qed

lemma cancel_all_ok:
  assumes "work_inv blake3 W s" "W \<subseteq> set ids"
  shows "\<exists>t. try_fold (\<lambda>s i. cancel_work i s) s ids = Inr t \<and> work_ok blake3 t
    \<and> wound_down (\<lambda>i _. i \<in> set ids) s t"
  using assms
proof (induction ids arbitrary: s W)
  case Nil
  then show ?case using wound_down_none [of s "\<lambda>_ _. False"] by simp
next
  case (Cons i ids)
  obtain t where t: "try_fold (\<lambda>s i. cancel_work i s) (cancelled i s) ids = Inr t" "work_ok blake3 t"
    "wound_down (\<lambda>i _. i \<in> set ids) (cancelled i s) t"
    using Cons.IH [OF cancelled_inv [OF Cons.prems(1), of i]] Cons.prems(2) by auto
  have "wound_down (\<lambda>j _. j \<in> set (i # ids)) s t"
    using wound_down_trans [OF cancelled_wound_down [OF Cons.prems(1), of i] t(3)] by simp
  then show ?case using t cancel_work_ok [OF Cons.prems(1)] by simp
qed

lemma revoke_scope_ok:
  assumes inv: "work_ok blake3 s"
  shows "\<exists>t. revoke_scope scope s = Inr t \<and> work_ok blake3 t
    \<and> wound_down (\<lambda>_ k. wk_scope k = scope) (s\<lparr>nw_scopes := bm_remove scope (nw_scopes s)\<rparr>) t"
proof (cases "bm_get (nw_scopes s) scope")
  case None
  then have same: "s\<lparr>nw_scopes := bm_remove scope (nw_scopes s)\<rparr> = s"
    by (simp add: bm_remove_absent)
  have "wound_down (\<lambda>_ k. wk_scope k = scope) s s"
    using work_inv_parts(10) [OF inv] None by (intro wound_down_none) (auto simp: orphans_ok_def)
  then show ?thesis using None inv by (simp add: revoke_scope_def same)
next
  case (Some work)
  let ?s = "s\<lparr>nw_scopes := bm_remove scope (nw_scopes s)\<rparr>"
  have work: "i \<in> set work \<longleftrightarrow> (\<exists>e. work_at s i = Some e \<and> wk_scope (en_key e) = scope)" for i
    using work_inv_parts(6) [OF inv] Some by (auto simp: scopes_ok_def)
  have "work_inv blake3 (set work) ?s"
    using inv length_bm_remove_le [of scope "nw_scopes s"] work
    by (auto simp: work_inv_def work_defs entry_ok_def bm_ok_remove)
  then obtain t where t: "try_fold (\<lambda>s i. cancel_work i s) ?s work = Inr t" "work_ok blake3 t"
    "wound_down (\<lambda>i _. i \<in> set work) ?s t"
    using cancel_all_ok [of blake3 "set work" ?s work] by blast
  have "wound_down (\<lambda>_ k. wk_scope k = scope) ?s t"
    by (rule wound_down_cong [OF t(3)]) (auto simp: work)
  then show ?thesis using t Some by (auto simp: revoke_scope_def)
qed

section \<open>Every operation keeps the invariant\<close>

lemma new_owner_ok: "new_owner limits n = Inr (s, n') \<Longrightarrow> work_ok blake3 s"
  by (auto simp: new_owner_def result_simps work_inv_def work_defs bs_ok_def less_Suc_eq numeral_3_eq_3 LANES_def)

lemma entryD: "entries_ok blake3 s \<Longrightarrow> work_at s i = Some e \<Longrightarrow> entry_ok blake3 s i e"
  by (simp add: entries_ok_def)

lemma entry_ok_mono:
  "entry_ok blake3 s i e \<Longrightarrow> nw_owner t = nw_owner s \<Longrightarrow> nw_limits t = nw_limits s \<Longrightarrow> nw_serial s \<le> nw_serial t \<Longrightarrow>
    entry_ok blake3 t i e"
  by (auto simp: entry_ok_def)

lemma scopeD:
  assumes "scopes_ok s" "bm_get (nw_scopes s) sc = Some work"
  shows "bs_ok work" "ws_owner sc = nw_owner s" "ws_generation sc \<le> nw_serial s"
    "i \<in> set work \<longleftrightarrow> (\<exists>e. work_at s i = Some e \<and> wk_scope (en_key e) = sc)"
  using assms by (simp_all add: scopes_ok_def)

lemma serial_inv:
  assumes inv: "work_inv blake3 W s" and "nw_serial s < u64_max"
  shows "work_inv blake3 W (s\<lparr>nw_serial := nw_serial s + 1\<rparr>)"
proof -
  let ?s = "s\<lparr>nw_serial := nw_serial s + 1\<rparr>"
  note p = work_inv_parts [OF inv]
  have "entry_ok blake3 ?s i e" if "entry_ok blake3 s i e" for i e
    using that by (rule entry_ok_mono) simp_all
  then have "entries_ok blake3 ?s"
    using p(7) by (simp add: entries_ok_def)
  moreover have "scopes_ok ?s"
    unfolding scopes_ok_def using scopeD [OF p(6)] by (simp add: le_SucI)
  ultimately show ?thesis
    using p assms(2) by (simp add: work_inv_def shape_ok_def keys_ok_def deadlines_ok_def queues_ok_def
        cancellations_ok_def counts_ok_def limits_ok_def orphans_ok_def)
qed

lemma fresh_id: "entries_ok blake3 s \<Longrightarrow> work_at s (WorkId (nw_owner s) (Suc (nw_serial s))) = None"
  using entryD [of blake3 s "WorkId (nw_owner s) (Suc (nw_serial s))"]
  by (cases "work_at s (WorkId (nw_owner s) (Suc (nw_serial s)))") (auto simp: entry_ok_def)

lemma fresh_scope: "scopes_ok s \<Longrightarrow> bm_get (nw_scopes s) (WorkScope (nw_owner s) (Suc (nw_serial s))) = None"
  using scopeD(3) [of s "WorkScope (nw_owner s) (Suc (nw_serial s))"]
  by (cases "bm_get (nw_scopes s) (WorkScope (nw_owner s) (Suc (nw_serial s)))") auto

lemma register_scope_cases:
  assumes "register_scope s = (r, t)"
  obtains "r = None" "t = s"
  | sc where "r = Some sc" "sc = WorkScope (nw_owner s) (Suc (nw_serial s))" "nw_serial s < u64_max"
      "length (nw_scopes s) < wl_scopes (nw_limits s)"
      "t = s\<lparr>nw_serial := Suc (nw_serial s), nw_scopes := bm_insert sc [] (nw_scopes s)\<rparr>"
  using assms by (auto simp: register_scope_def next_serial_def Let_def split: if_splits)

lemma register_scope_ok:
  assumes inv: "work_ok blake3 s" and reg: "register_scope s = (r, t)"
  shows "work_ok blake3 t"
  using reg
proof (cases rule: register_scope_cases)
  case (2 sc)
  let ?s = "s\<lparr>nw_serial := nw_serial s + 1\<rparr>"
  have inv': "work_ok blake3 ?s" using serial_inv [OF inv 2(3)] .
  note p = work_inv_parts [OF inv'] and q = work_inv_parts [OF inv]
  have none: "wk_scope (en_key e) \<noteq> sc" if "work_at s i = Some e" for i e
    using entryD [OF q(7) that] 2(2) by (auto simp: entry_ok_def)
  have "scopes_ok t"
    using p(6) none by (auto simp: scopes_ok_def 2 bs_ok_def)
  moreover have "orphans_ok {} t"
    using p(10) by (auto simp: orphans_ok_def 2)
  moreover have "entries_ok blake3 t"
    using p(7) by (auto simp: entries_ok_def entry_ok_def 2)
  moreover have "limits_ok t"
    using p(1,9) 2 fresh_scope [OF q(6)] by (simp add: limits_ok_def shape_ok_def length_bm_insert)
  ultimately show ?thesis
    using p by (simp add: work_inv_def shape_ok_def keys_ok_def deadlines_ok_def queues_ok_def
        cancellations_ok_def counts_ok_def 2 bm_ok_insert)
qed (use inv in simp)

section \<open>Admission\<close>

definition joined :: "u64 \<Rightarrow> WorkId \<Rightarrow> Entry \<Rightarrow> NetworkWorkOwner \<Rightarrow> NetworkWorkOwner" where
  "joined serial i e s = s\<lparr>nw_serial := serial,
     nw_entries := bm_insert i (e\<lparr>en_waiters := bs_insert serial (en_waiters e)\<rparr>) (nw_entries s)\<rparr>"

lemma length_bs_insert_le: "length (bs_insert x s) \<le> Suc (length s)"
  by (induction s) auto

lemma bs_insert_not_Nil [simp]: "bs_insert x s \<noteq> []"
  by (cases s) auto

lemma update_ok:
  assumes inv: "work_inv blake3 W s" and e: "work_at s i = Some e"
    and t: "t = s\<lparr>nw_serial := n, nw_entries := bm_insert i f (nw_entries s)\<rparr>" and n: "nw_serial s \<le> n" "n \<le> u64_max"
    and f: "en_key f = en_key e" "en_phase f = en_phase e" "en_metadata_bytes f = en_metadata_bytes e"
    and ok: "entry_ok blake3 t i f"
  shows "work_inv blake3 W t"
proof -
  note p = work_inv_parts [OF inv]
  have "keys_ok t" by (rule update_keys_ok [OF p(2) e, where f = f]) (simp_all add: t f)
  moreover have "scopes_ok t" by (rule update_scopes_ok [OF p(6) e, where f = f]) (simp_all add: t f n)
  moreover have "counts_ok t" "length (nw_entries t) = length (nw_entries s)"
    using update_counts_ok [OF p(8) p(1) e, of t f] by (simp_all add: t f in_flight_def)
  moreover have "entry_ok blake3 t j g" if "work_at s j = Some g" for j g
    by (rule entry_ok_mono [OF entryD [OF p(7) that]]) (simp_all add: t n)
  then have "entries_ok blake3 t" using ok by (simp add: entries_ok_def t)
  moreover have "deadlines_ok t" using p(3) e f by (auto simp: deadlines_ok_def t)
  moreover have "queues_ok t" using p(4) e f by (auto simp: queues_ok_def t)
  moreover have "cancellations_ok t" using p(5) e f by (fastforce simp: cancellations_ok_def t)
  moreover have "orphans_ok W t" using p(10) e f by (auto simp: orphans_ok_def t)
  ultimately show ?thesis
    using p(1,9) n by (simp add: work_inv_def shape_ok_def limits_ok_def t bm_ok_insert)
qed

lemma update_same_ok:
  assumes inv: "work_inv blake3 W s" and e: "work_at s i = Some e"
    and t: "t = s\<lparr>nw_entries := bm_insert i f (nw_entries s)\<rparr>"
    and f: "en_key f = en_key e" "en_phase f = en_phase e" "en_metadata_bytes f = en_metadata_bytes e"
    and ok: "entry_ok blake3 s i f"
  shows "work_inv blake3 W t"
proof (rule update_ok [OF inv e _ order_refl _ f])
  show "t = s\<lparr>nw_serial := nw_serial s, nw_entries := bm_insert i f (nw_entries s)\<rparr>" by (simp add: t)
  show "nw_serial s \<le> u64_max" using work_inv_parts(9) [OF inv] by (simp add: limits_ok_def)
  show "entry_ok blake3 t i f" by (rule entry_ok_mono [OF ok]) (simp_all add: t)
qed

lemma join_work_cases:
  assumes inv: "work_ok blake3 s" and i: "bm_get (nw_keys s) key = Some i"
  obtains (kept) r where "join_work blake3 key metadata now i s = Inr (r, s)"
      "r = deferred now \<or> r = Denied ConflictingMetadata \<or> r = Denied IdentifierExhausted"
  | (joined) e where "work_at s i = Some e" "en_key e = key" "en_phase e \<noteq> Stopping" "en_metadata_hash e = blake3 metadata"
      "nw_serial s < u64_max" "length (en_waiters e) < wl_waiters_per_request (nw_limits s)"
      "join_work blake3 key metadata now i s =
         Inr (Joined \<lparr>ww_scope = wk_scope key, ww_work = i, ww_serial = Suc (nw_serial s)\<rparr>, joined (Suc (nw_serial s)) i e s)"
proof -
  obtain e where e: "work_at s i = Some e" "en_key e = key"
    using work_inv_parts(2) [OF inv] i by (auto simp: keys_ok_def)
  show thesis
  proof (cases "en_metadata_hash e = blake3 metadata \<and> en_phase e \<noteq> Stopping
      \<and> length (en_waiters e) < wl_waiters_per_request (nw_limits s) \<and> nw_serial s < u64_max")
    case True
    show thesis
      by (rule joined [OF e]) (use True e in \<open>simp_all add: join_work_def next_serial_def joined_def\<close>)
  next
    case False
    then have "\<exists>r. join_work blake3 key metadata now i s = Inr (r, s)
        \<and> (r = deferred now \<or> r = Denied ConflictingMetadata \<or> r = Denied IdentifierExhausted)"
      using e by (auto simp: join_work_def next_serial_def)
    then show thesis using kept by blast
  qed
qed

lemma joined_ok:
  assumes inv: "work_ok blake3 s" and e: "work_at s i = Some e" and "en_phase e \<noteq> Stopping"
    "nw_serial s < u64_max" "length (en_waiters e) < wl_waiters_per_request (nw_limits s)"
  shows "work_ok blake3 (joined (Suc (nw_serial s)) i e s)"
proof (rule update_ok [OF inv e joined_def])
  have "entry_ok blake3 s i e" by (rule entryD [OF work_inv_parts(7) [OF inv] e])
  then show "entry_ok blake3 (joined (Suc (nw_serial s)) i e s) i (e\<lparr>en_waiters := bs_insert (Suc (nw_serial s)) (en_waiters e)\<rparr>)"
    using length_bs_insert_le [of "Suc (nw_serial s)" "en_waiters e"] assms(5)
    by (auto simp: entry_ok_def joined_def bs_ok_insert)
qed (use assms in simp_all)

definition new_entry :: "(string \<Rightarrow> string) \<Rightarrow> WorkKey \<Rightarrow> string \<Rightarrow> u64 \<Rightarrow> Entry" where
  "new_entry blake3 key metadata serial = \<lparr>en_key = key, en_metadata = Some metadata, en_metadata_hash = blake3 metadata,
     en_metadata_bytes = length metadata, en_waiters = [serial], en_phase = Queued\<rparr>"

definition entered :: "WorkId \<Rightarrow> Entry \<Rightarrow> WorkId list \<Rightarrow> NetworkWorkOwner \<Rightarrow> NetworkWorkOwner" where
  "entered i e work s = s\<lparr>nw_entries := bm_insert i e (nw_entries s),
     nw_keys := bm_insert (en_key e) i (nw_keys s),
     nw_scopes := bm_insert (wk_scope (en_key e)) (bs_insert i work) (nw_scopes s),
     nw_deadlines := bs_insert (wk_deadline (en_key e), i) (nw_deadlines s),
     nw_queues := (nw_queues s)[lane_index (wk_lane (en_key e)) := bs_insert i (nw_queues s ! lane_index (wk_lane (en_key e)))],
     nw_metadata_bytes := nw_metadata_bytes s + en_metadata_bytes e\<rparr>"

lemma entered_frame [simp]:
  "nw_owner (entered i e work s) = nw_owner s" "nw_serial (entered i e work s) = nw_serial s"
  "nw_limits (entered i e work s) = nw_limits s" "nw_cursor (entered i e work s) = nw_cursor s"
  "nw_entries (entered i e work s) = bm_insert i e (nw_entries s)"
  "nw_scopes (entered i e work s) = bm_insert (wk_scope (en_key e)) (bs_insert i work) (nw_scopes s)"
  "nw_cancellations (entered i e work s) = nw_cancellations s"
  by (simp_all add: entered_def)

lemma enter_work_cases:
  assumes inv: "work_ok blake3 s" and "bm_contains (nw_scopes s) (wk_scope key)"
  obtains (kept) r where "enter_work blake3 key metadata now s = Inr (r, s)"
      "r = deferred now \<or> r = Denied IdentifierExhausted"
  | (entered) work where "bm_get (nw_scopes s) (wk_scope key) = Some work" "nw_serial s < u64_max"
      "length (nw_entries s) < wl_requests (nw_limits s)" "wl_waiters_per_request (nw_limits s) \<noteq> 0"
      "nw_metadata_bytes s + length metadata \<le> wl_metadata_bytes (nw_limits s)"
      "enter_work blake3 key metadata now s =
         (let i = WorkId (nw_owner s) (Suc (nw_serial s)) in
          Inr (Admitted \<lparr>ww_scope = wk_scope key, ww_work = i, ww_serial = Suc (nw_serial s)\<rparr>,
            entered i (new_entry blake3 key metadata (Suc (nw_serial s))) work (s\<lparr>nw_serial := Suc (nw_serial s)\<rparr>)))"
proof -
  obtain work where work: "bm_get (nw_scopes s) (wk_scope key) = Some work"
    using assms(2) by (auto simp: bm_contains_def)
  have le: "nw_metadata_bytes s \<le> wl_metadata_bytes (nw_limits s)"
    using work_inv_parts(9) [OF inv] by (simp add: limits_ok_def)
  show thesis
  proof (cases "length (nw_entries s) < wl_requests (nw_limits s) \<and> wl_waiters_per_request (nw_limits s) \<noteq> 0
      \<and> nw_metadata_bytes s + length metadata \<le> wl_metadata_bytes (nw_limits s) \<and> nw_serial s < u64_max")
    case True
    then have fits: "\<not> length metadata > wl_metadata_bytes (nw_limits s) - nw_metadata_bytes s"
      by linarith
    show thesis
      by (rule entered [OF work])
        (use True le work fits in \<open>simp_all add: enter_work_def next_serial_def usize_sub_def entered_def new_entry_def Let_def\<close>)
  next
    case False
    then have "\<exists>r. enter_work blake3 key metadata now s = Inr (r, s) \<and> (r = deferred now \<or> r = Denied IdentifierExhausted)"
      using le by (auto simp: enter_work_def next_serial_def usize_sub_def)
    then show thesis using kept by blast
  qed
qed

lemma entered_ok:
  assumes inv: "work_ok blake3 s" and none: "work_at s i = None" and key: "bm_get (nw_keys s) (en_key e) = None"
    and work: "bm_get (nw_scopes s) (wk_scope (en_key e)) = Some work" and q: "en_phase e = Queued"
    and room: "length (nw_entries s) < wl_requests (nw_limits s)"
      "nw_metadata_bytes s + en_metadata_bytes e \<le> wl_metadata_bytes (nw_limits s)"
    and ok: "entry_ok blake3 s i e"
  shows "work_ok blake3 (entered i e work s)"
proof -
  let ?t = "entered i e work s"
  note p = work_inv_parts [OF inv]
  have "shape_ok ?t"
    using p(1) by (auto simp: shape_ok_def entered_def bm_ok_insert bs_ok_insert nth_list_update)
  moreover have "en_key f \<noteq> en_key e" if "work_at s j = Some f" for j f
    using p(2) key that by (metis keys_ok_def option.distinct(1))
  then have "keys_ok ?t"
    using p(2) none by (fastforce simp: keys_ok_def entered_def)
  moreover have "deadlines_ok ?t"
    using p(3) none q by (auto simp: deadlines_ok_def entered_def)
  moreover have "queues_ok ?t"
    using p(1,4) none q by (auto simp: queues_ok_def shape_ok_def entered_def nth_list_update)
  moreover have "cancellations_ok ?t"
    using p(5) none by (force simp: cancellations_ok_def)
  moreover have "scopes_ok ?t"
    using p(6) none scopeD [OF p(6) work] by (auto simp: scopes_ok_def bs_ok_insert)
  moreover have "orphans_ok {} ?t"
    using p(10) work by (auto simp: orphans_ok_def)
  moreover have "entries_ok blake3 ?t"
    using p(7) ok by (auto simp: entries_ok_def entry_ok_def)
  moreover have "counts_ok ?t"
    using p(1,8) none q bm_total_insert [of "nw_entries s" in_flight i e] bm_total_insert [of "nw_entries s" en_metadata_bytes i e]
    by (auto simp: counts_ok_def shape_ok_def entered_def in_flight_def)
  moreover have "limits_ok ?t"
    using p(1,9) room none work by (auto simp: limits_ok_def shape_ok_def entered_def length_bm_insert)
  ultimately show ?thesis by (simp add: work_inv_def)
qed

text \<open>
  What an admission does to the state \<open>u\<close> that the expiry leaves: a new job under a fresh identity,
  one more waiter of a job with the same key and the same metadata, or nothing.
\<close>

definition admission_effect :: "(string \<Rightarrow> string) \<Rightarrow> WorkKey \<Rightarrow> string \<Rightarrow> instant \<Rightarrow> NetworkWorkOwner \<Rightarrow>
    WorkAdmission \<Rightarrow> NetworkWorkOwner \<Rightarrow> bool" where
  "admission_effect blake3 key metadata now u r t \<longleftrightarrow>
     (case r of
        Admitted w \<Rightarrow> wk_deadline key > now \<and> bm_contains (nw_scopes u) (wk_scope key)
          \<and> (\<exists>work. t = entered (WorkId (nw_owner u) (Suc (nw_serial u))) (new_entry blake3 key metadata (Suc (nw_serial u))) work
               (u\<lparr>nw_serial := Suc (nw_serial u)\<rparr>))
      | Joined w \<Rightarrow> (\<exists>e. work_at u (ww_work w) = Some e \<and> en_key e = key \<and> en_phase e \<noteq> Stopping
          \<and> en_metadata_hash e = blake3 metadata \<and> t = joined (Suc (nw_serial u)) (ww_work w) e u)
      | _ \<Rightarrow> t = u)"

lemma entered_new_ok:
  assumes inv: "work_ok blake3 u" and new: "bm_get (nw_keys u) key = None" and mode: "wk_mode key \<noteq> LocalOnlyMode"
    and work: "bm_get (nw_scopes u) (wk_scope key) = Some work" and room: "nw_serial u < u64_max"
      "length (nw_entries u) < wl_requests (nw_limits u)" "wl_waiters_per_request (nw_limits u) \<noteq> 0"
      "nw_metadata_bytes u + length metadata \<le> wl_metadata_bytes (nw_limits u)"
  shows "work_ok blake3 (entered (WorkId (nw_owner u) (Suc (nw_serial u))) (new_entry blake3 key metadata (Suc (nw_serial u))) work
    (u\<lparr>nw_serial := Suc (nw_serial u)\<rparr>))"
proof -
  let ?u = "u\<lparr>nw_serial := Suc (nw_serial u)\<rparr>" and ?i = "WorkId (nw_owner u) (Suc (nw_serial u))"
    and ?e = "new_entry blake3 key metadata (Suc (nw_serial u))"
  have inv': "work_ok blake3 ?u" using serial_inv [OF inv room(1)] by simp
  have "entry_ok blake3 ?u ?i ?e"
    using mode room(3) work scopeD(3) [OF work_inv_parts(6) [OF inv]]
    by (auto simp: entry_ok_def new_entry_def bs_ok_def Suc_le_eq intro: le_SucI)
  then show ?thesis
    using work room new fresh_id [OF work_inv_parts(7) [OF inv]]
    by (intro entered_ok [OF inv']) (simp_all add: new_entry_def)
qed

lemma admit_ok:
  assumes inv: "work_ok blake3 s"
  obtains u r t where "expire now s = Inr u" "work_ok blake3 u" "wound_down (\<lambda>_ k. wk_deadline k \<le> now) s u"
    "admit blake3 key metadata now s = Inr (r, t)" "work_ok blake3 t" "admission_effect blake3 key metadata now u r t"
proof -
  obtain u where u: "expire now s = Inr u" "work_ok blake3 u" "wound_down (\<lambda>_ k. wk_deadline k \<le> now) s u"
    using expire_ok [OF inv] by blast
  have "\<exists>r t. admit blake3 key metadata now s = Inr (r, t) \<and> work_ok blake3 t \<and> admission_effect blake3 key metadata now u r t"
  proof (cases "admission_denied key metadata now u")
    case (Some reason)
    then show ?thesis using u by (simp add: admit_def admission_effect_def)
  next
    case None
    then have live: "bm_contains (nw_scopes u) (wk_scope key)" "wk_deadline key > now" "wk_mode key \<noteq> LocalOnlyMode"
      by (auto simp: admission_denied_def split: if_splits)
    show ?thesis
    proof (cases "bm_get (nw_keys u) key")
      case (Some i)
      note adm = admit_def [of blake3 key metadata now s, unfolded u(1) rbind_Inr None option.case Some]
      from u(2) Some show ?thesis
      proof (cases rule: join_work_cases [where metadata = metadata and now = now])
        case (kept r)
        then show ?thesis using u by (auto simp: adm admission_effect_def deferred_def)
      next
        case (joined e)
        then show ?thesis using u joined_ok [OF u(2) joined(1,3,5,6)] by (auto simp: adm admission_effect_def)
      qed
    next
      case new: None
      note adm = admit_def [of blake3 key metadata now s, unfolded u(1) rbind_Inr None option.case new]
      from u(2) live(1) show ?thesis
      proof (cases rule: enter_work_cases [where metadata = metadata and now = now])
        case (kept r)
        then show ?thesis using u by (auto simp: adm admission_effect_def deferred_def)
      next
        case (entered work)
        note ok = entered_new_ok [OF u(2) new live(3) entered(1-5)]
        show ?thesis using u live entered ok by (auto simp: adm admission_effect_def Let_def)
      qed
    qed
  qed
  then show thesis using that u by blast
qed

section \<open>Releasing a waiter\<close>

definition unwaited :: "u64 \<Rightarrow> Entry \<Rightarrow> Entry" where
  "unwaited w e = e\<lparr>en_waiters := bs_remove w (en_waiters e)\<rparr>"

lemma unwaited_sel [simp]:
  "en_key (unwaited w e) = en_key e" "en_phase (unwaited w e) = en_phase e"
  "en_metadata (unwaited w e) = en_metadata e" "en_metadata_bytes (unwaited w e) = en_metadata_bytes e"
  "en_metadata_hash (unwaited w e) = en_metadata_hash e" "en_waiters (unwaited w e) = bs_remove w (en_waiters e)"
  by (simp_all add: unwaited_def)

lemma bm_remove_insert: "bm_ok m \<Longrightarrow> bm_remove k (bm_insert k v m) = bm_remove k m"
  by (rule bm_ext) (simp_all add: bm_ok_remove bm_ok_insert)

text \<open>
  A waiter that is not one of the job's changes nothing. Otherwise the job loses it; without waiters,
  queued work is removed and running work that was only for display is stopped.
\<close>

definition release_effect :: "u64 \<Rightarrow> WorkId \<Rightarrow> Entry \<Rightarrow> NetworkWorkOwner \<Rightarrow> NetworkWorkOwner \<Rightarrow> bool" where
  "release_effect w i e s t \<longleftrightarrow>
     (if bs_remove w (en_waiters e) = [] \<and> en_phase e = Queued then t = removed i e s
      else if bs_remove w (en_waiters e) = [] \<and> wk_mode (en_key e) = DisplayMode \<and> en_phase e = Running
      then t = (stopped i e s)\<lparr>nw_entries := bm_insert i (unwaited w (e\<lparr>en_phase := Stopping\<rparr>)) (nw_entries (stopped i e s))\<rparr>
      else t = s\<lparr>nw_entries := bm_insert i (unwaited w e) (nw_entries s)\<rparr>)"

lemma release_waiter_eq:
  assumes inv: "work_ok blake3 s" and e: "work_at s (ww_work w) = Some e"
    and here: "wk_scope (en_key e) = ww_scope w" "ww_serial w \<in> set (en_waiters e)"
  shows "\<exists>t. release_waiter w s = Inr t \<and> release_effect (ww_serial w) (ww_work w) e s t"
proof -
  let ?s = "s\<lparr>nw_entries := bm_insert (ww_work w) (unwaited (ww_serial w) e) (nw_entries s)\<rparr>"
  note p = work_inv_parts [OF inv]
  have shape: "shape_ok ?s" and sort: "bm_ok (nw_entries s)"
    using p(1) by (simp_all add: shape_ok_def bm_ok_insert)
  have counts: "counts_ok ?s"
    using update_counts_ok(1) [OF p(8) p(1) e, of ?s "unwaited (ww_serial w) e"] by (simp add: in_flight_def)
  have cancel: "cancel_work (ww_work w) ?s = Inr (case en_phase e of
      Queued \<Rightarrow> removed (ww_work w) (unwaited (ww_serial w) e) ?s
    | Running \<Rightarrow> stopped (ww_work w) (unwaited (ww_serial w) e) ?s | Stopping \<Rightarrow> ?s)"
    using cancel_work_eq [OF counts shape, of "ww_work w"] by simp
  have removed: "removed (ww_work w) (unwaited (ww_serial w) e) ?s = removed (ww_work w) e s"
    by (simp add: removed_def bm_remove_insert [OF sort] in_flight_def cong: option.case_cong)
  have stopped: "stopped (ww_work w) (unwaited (ww_serial w) e) ?s = (stopped (ww_work w) e s)\<lparr>nw_entries :=
      bm_insert (ww_work w) (unwaited (ww_serial w) (e\<lparr>en_phase := Stopping\<rparr>)) (nw_entries (stopped (ww_work w) e s))\<rparr>"
    using sort by (cases s; cases e) (simp add: stopped_def unwaited_def btm.put_put_same)
  have "release_waiter w s = (if bs_remove (ww_serial w) (en_waiters e) = [] \<and> (en_phase e = Queued \<or> wk_mode (en_key e) = DisplayMode)
      then cancel_work (ww_work w) ?s else Inr ?s)"
    using e here by (auto simp: release_waiter_def unwaited_def Let_def)
  then show ?thesis
    by (cases "en_phase e") (auto simp: cancel removed stopped release_effect_def)
qed

lemma entry_ok_unwaited:
  assumes "entry_ok blake3 s i e" and "bs_remove w (en_waiters e) = [] \<Longrightarrow> en_phase e = Stopping \<or> en_phase e = Running \<and> wk_mode (en_key e) \<noteq> DisplayMode"
  shows "entry_ok blake3 s i (unwaited w e)"
  using assms le_trans [OF length_filter_le [of "\<lambda>y. y \<noteq> w" "en_waiters e"]]
  by (auto simp: entry_ok_def bs_ok_remove set_bs_remove) (auto simp: bs_remove_def)

lemma release_effect_ok:
  assumes inv: "work_ok blake3 s" and e: "work_at s i = Some e" and r: "release_effect w i e s t"
  shows "work_ok blake3 t"
proof -
  have ok: "entry_ok blake3 s i e" by (rule entryD [OF work_inv_parts(7) [OF inv] e])
  consider (removed) "t = removed i e s"
    | (stopped) "en_phase e = Running" "t = (stopped i e s)\<lparr>nw_entries := bm_insert i (unwaited w (e\<lparr>en_phase := Stopping\<rparr>)) (nw_entries (stopped i e s))\<rparr>"
    | (kept) "\<not> (bs_remove w (en_waiters e) = [] \<and> (en_phase e = Queued \<or> wk_mode (en_key e) = DisplayMode \<and> en_phase e = Running))"
        "t = s\<lparr>nw_entries := bm_insert i (unwaited w e) (nw_entries s)\<rparr>"
    using r by (auto simp: release_effect_def split: if_splits)
  then show ?thesis
  proof cases
    case removed
    then show ?thesis using removed_inv [OF inv e] by simp
  next
    case stopped
    have inv': "work_ok blake3 (Work_Invariant.stopped i e s)"
      using stopped_inv [OF inv e stopped(1)] by simp
    have at: "work_at (Work_Invariant.stopped i e s) i = Some (e\<lparr>en_phase := Stopping\<rparr>)" by simp
    show ?thesis
      using entry_ok_unwaited [OF entryD [OF work_inv_parts(7) [OF inv'] at], of w]
      by (intro update_same_ok [OF inv' at stopped(2)]) simp_all
  next
    case kept
    have "entry_ok blake3 s i (unwaited w e)"
      using kept(1) by (intro entry_ok_unwaited [OF ok]) (cases "en_phase e"; simp)
    then show ?thesis
      by (intro update_same_ok [OF inv e kept(2)]) simp_all
  qed
qed

section \<open>Starting work\<close>

definition begun :: "nat \<Rightarrow> WorkId \<Rightarrow> Entry \<Rightarrow> NetworkWorkOwner \<Rightarrow> NetworkWorkOwner" where
  "begun cursor i e s = s\<lparr>nw_cursor := cursor,
     nw_queues := (nw_queues s)[lane_index (wk_lane (en_key e)) := tl (nw_queues s ! lane_index (wk_lane (en_key e)))],
     nw_entries := bm_insert i (e\<lparr>en_phase := Running, en_metadata := None\<rparr>) (nw_entries s),
     nw_running := nw_running s + 1\<rparr>"

lemma LANES_lane: "c < length LANES \<Longrightarrow> LANES ! c < 3"
  by (auto simp: LANES_def less_Suc_eq)

lemma cursor_inv: "work_inv blake3 W s \<Longrightarrow> c < length LANES \<Longrightarrow> work_inv blake3 W (s\<lparr>nw_cursor := c\<rparr>)"
  by (simp add: work_inv_def work_defs entry_ok_def)

text \<open>The loop of \<open>start_next\<close> starts the head of the first non-empty lane, in the order of the cursor.\<close>

definition lane_after :: "NetworkWorkOwner \<Rightarrow> nat \<Rightarrow> nat" where
  "lane_after s j = LANES ! ((nw_cursor s + j) mod length LANES)"

lemma length_LANES [simp]: "length LANES = 7"
  by (simp add: LANES_def)

lemma start_loop_Nil:
  "nw_cursor s < 7 \<Longrightarrow> nw_queues s ! (LANES ! nw_cursor s) = [] \<Longrightarrow>
    start_loop (Suc n) s = start_loop n (s\<lparr>nw_cursor := Suc (nw_cursor s) mod 7\<rparr>)"
  by simp

lemma start_loop_Cons:
  "nw_cursor s < 7 \<Longrightarrow> nw_queues s ! (LANES ! nw_cursor s) = i # rest \<Longrightarrow> work_at s i = Some e \<Longrightarrow>
    lane_index (wk_lane (en_key e)) = LANES ! nw_cursor s \<Longrightarrow> en_metadata e = Some m \<Longrightarrow>
    start_loop (Suc n) s = Inr (Some \<lparr>sw_id = i, sw_key = en_key e, sw_metadata = m\<rparr>,
      begun (Suc (nw_cursor s) mod 7) i e s)"
  by (simp add: begun_def Let_def)

lemma start_loop_skip:
  assumes "nw_cursor s < length LANES" "\<forall>k < j. nw_queues s ! lane_after s k = []"
  shows "start_loop (j + n) s = start_loop n (s\<lparr>nw_cursor := (nw_cursor s + j) mod length LANES\<rparr>)"
  using assms(2)
proof (induction j arbitrary: n)
  case 0
  then show ?case using assms(1) by simp
next
  case (Suc j)
  have "start_loop (Suc j + n) s = start_loop (Suc n) (s\<lparr>nw_cursor := (nw_cursor s + j) mod length LANES\<rparr>)"
    using Suc.IH [of "Suc n"] Suc.prems by simp
  moreover have "nw_queues s ! (LANES ! ((nw_cursor s + j) mod 7)) = []"
    using Suc.prems by (simp add: lane_after_def)
  ultimately show ?case by (simp add: start_loop_Nil mod_Suc_eq del: start_loop.simps)
qed

lemma queue_head:
  assumes inv: "work_ok blake3 s" and q: "lane < 3" "nw_queues s ! lane = i # rest"
  obtains e m where "work_at s i = Some e" "lane_index (wk_lane (en_key e)) = lane" "en_phase e = Queued" "en_metadata e = Some m"
proof -
  obtain e where e: "work_at s i = Some e" "lane_index (wk_lane (en_key e)) = lane" "en_phase e = Queued"
    using work_inv_parts(4) [OF inv] q by (metis list.set_intros(1) queues_ok_def)
  moreover obtain m where "en_metadata e = Some m"
    using entryD [OF work_inv_parts(7) [OF inv] e(1)] e(3) by (auto simp: entry_ok_def)
  ultimately show thesis using that by blast
qed

lemma start_loop_cases:
  assumes inv: "work_ok blake3 s"
  obtains (idle) "\<forall>j < n. nw_queues s ! lane_after s j = []"
      "start_loop n s = Inr (None, s\<lparr>nw_cursor := (nw_cursor s + n) mod length LANES\<rparr>)"
  | (start) j i rest e m where "j < n" "\<forall>k < j. nw_queues s ! lane_after s k = []"
      "nw_queues s ! lane_after s j = i # rest" "work_at s i = Some e" "lane_index (wk_lane (en_key e)) = lane_after s j"
      "en_phase e = Queued" "en_metadata e = Some m"
      "start_loop n s = Inr (Some \<lparr>sw_id = i, sw_key = en_key e, sw_metadata = m\<rparr>,
         begun ((nw_cursor s + Suc j) mod length LANES) i e s)"
proof (cases "\<forall>j < n. nw_queues s ! lane_after s j = []")
  case True
  then show thesis
    using idle start_loop_skip [of s n 0] work_inv_parts(1) [OF inv] by (simp add: shape_ok_def)
next
  case False
  define j where "j = (LEAST j. nw_queues s ! lane_after s j \<noteq> [])"
  have nonempty: "nw_queues s ! lane_after s j \<noteq> []" and j: "j < n"
    using False LeastI [of "\<lambda>j. nw_queues s ! lane_after s j \<noteq> []"] Least_le [of "\<lambda>j. nw_queues s ! lane_after s j \<noteq> []"]
    unfolding j_def by (auto intro: le_less_trans)
  have before: "\<forall>k < j. nw_queues s ! lane_after s k = []"
    unfolding j_def by (blast dest: not_less_Least)
  have c: "nw_cursor s < length LANES" using work_inv_parts(1) [OF inv] by (simp add: shape_ok_def)
  obtain i rest where i: "nw_queues s ! lane_after s j = i # rest"
    using nonempty by (cases "nw_queues s ! lane_after s j") auto
  have "(nw_cursor s + j) mod length LANES < length LANES" by (simp add: LANES_def)
  then have lane: "lane_after s j < 3" by (simp add: lane_after_def LANES_lane)
  obtain e m where e: "work_at s i = Some e" "lane_index (wk_lane (en_key e)) = lane_after s j" "en_phase e = Queued" "en_metadata e = Some m"
    using queue_head [OF inv lane i] by blast
  obtain n' where n': "n = j + Suc n'"
    using j by (metis less_imp_Suc_add add_Suc_right)
  have "start_loop n s = Inr (Some \<lparr>sw_id = i, sw_key = en_key e, sw_metadata = m\<rparr>,
      begun ((nw_cursor s + Suc j) mod length LANES) i e s)"
    unfolding n' start_loop_skip [OF c before]
    using i e start_loop_Cons [of "s\<lparr>nw_cursor := (nw_cursor s + j) mod 7\<rparr>" i rest e m n']
    by (simp add: lane_after_def begun_def mod_Suc_eq del: start_loop.simps)
  then show thesis using start [OF j before i e] by blast
qed

lemma begun_frame [simp]:
  "nw_owner (begun c i e s) = nw_owner s" "nw_serial (begun c i e s) = nw_serial s"
  "nw_limits (begun c i e s) = nw_limits s" "nw_cursor (begun c i e s) = c"
  "nw_scopes (begun c i e s) = nw_scopes s" "nw_keys (begun c i e s) = nw_keys s"
  "nw_deadlines (begun c i e s) = nw_deadlines s" "nw_running (begun c i e s) = nw_running s + 1"
  "nw_metadata_bytes (begun c i e s) = nw_metadata_bytes s"
  "nw_entries (begun c i e s) = bm_insert i (e\<lparr>en_phase := Running, en_metadata := None\<rparr>) (nw_entries s)"
  "nw_cancellations (begun c i e s) = nw_cancellations s"
  by (simp_all add: begun_def)

lemma bs_ok_Cons: "bs_ok (x # xs) \<Longrightarrow> bs_ok xs \<and> x \<notin> set xs"
  by (auto simp: bs_ok_def)

lemma begun_ok:
  assumes inv: "work_ok blake3 s" and e: "work_at s i = Some e" "en_phase e = Queued"
    and q: "nw_queues s ! lane_index (wk_lane (en_key e)) = i # rest"
    and room: "nw_running s < wl_running (nw_limits s)" "c < 7"
  shows "work_ok blake3 (begun c i e s)"
proof -
  let ?t = "begun c i e s" and ?f = "e\<lparr>en_phase := Running, en_metadata := None\<rparr>"
  note p = work_inv_parts [OF inv]
  have ok: "bs_ok (i # rest)" using p(1) q lane_index_less by (metis shape_ok_def)
  have "shape_ok ?t"
    using p(1) q bs_ok_Cons [OF ok] room by (auto simp: shape_ok_def begun_def bm_ok_insert nth_list_update)
  moreover have "keys_ok ?t" by (rule update_keys_ok [OF p(2) e(1), where f = ?f]) simp_all
  moreover have "scopes_ok ?t" by (rule update_scopes_ok [OF p(6) e(1), where f = ?f]) simp_all
  moreover have "deadlines_ok ?t" using p(3) e by (auto simp: deadlines_ok_def)
  moreover have "queues_ok ?t"
  proof -
    have members: "j \<in> set (nw_queues s ! lane) \<longleftrightarrow>
        (\<exists>f. work_at s j = Some f \<and> lane_index (wk_lane (en_key f)) = lane \<and> en_phase f = Queued)" if "lane < 3" for lane j
      using p(4) that by (simp add: queues_ok_def)
    have rest: "j \<in> set rest \<longleftrightarrow> j \<noteq> i \<and> (\<exists>f. work_at s j = Some f \<and> lane_index (wk_lane (en_key f)) =
        lane_index (wk_lane (en_key e)) \<and> en_phase f = Queued)" for j
      unfolding members [OF lane_index_less, symmetric] using q bs_ok_Cons [OF ok] by auto
    have tl: "tl (nw_queues s ! lane_index (wk_lane (en_key e))) = rest" by (simp add: q)
    show ?thesis
      using p(1) e by (auto simp: queues_ok_def shape_ok_def begun_def nth_list_update members rest tl)
    qed
  moreover have "cancellations_ok ?t" using p(5) e by (force simp: cancellations_ok_def)
  moreover have "orphans_ok {} ?t" using p(10) e by (fastforce simp: orphans_ok_def)
  moreover have "entries_ok blake3 ?t"
    using p(7) e by (force simp: entries_ok_def entry_ok_def)
  moreover have "counts_ok ?t" "length (nw_entries ?t) = length (nw_entries s)"
    using update_counts_ok [OF p(8) p(1) e(1), of ?t ?f] by (simp_all add: in_flight_def e)
  moreover from this(2) have "limits_ok ?t" using p(9) room by (simp add: limits_ok_def)
  ultimately show ?thesis by (simp add: work_inv_def)
qed

text \<open>
  \<open>start_next\<close> starts nothing only when as much work as allowed is in flight or nothing is queued;
  then only expired work has gone.
\<close>

definition start_effect :: "NetworkWorkOwner \<Rightarrow> StartedWork option \<Rightarrow> NetworkWorkOwner \<Rightarrow> bool" where
  "start_effect u r t \<longleftrightarrow>
     (case r of
        None \<Rightarrow> t = u \<and> (nw_running u \<ge> wl_running (nw_limits u) \<or> (\<forall>i e. work_at u i = Some e \<longrightarrow> en_phase e \<noteq> Queued))
      | Some w \<Rightarrow> (\<exists>j < 7. \<exists>rest e. (\<forall>k < j. nw_queues u ! lane_after u k = []) \<and> nw_queues u ! lane_after u j = sw_id w # rest
          \<and> work_at u (sw_id w) = Some e \<and> sw_key w = en_key e \<and> en_metadata e = Some (sw_metadata w)
          \<and> lane_index (wk_lane (en_key e)) = lane_after u j \<and> en_phase e = Queued
          \<and> nw_running u < wl_running (nw_limits u)
          \<and> t = begun ((nw_cursor u + Suc j) mod 7) (sw_id w) e u))"

lemma every_lane: "lane < 3 \<Longrightarrow> c < 7 \<Longrightarrow> \<exists>j < 7. LANES ! ((c + j) mod 7) = lane"
proof -
  have "\<forall>c \<in> set [0..<7]. \<forall>lane \<in> set [0..<3]. \<exists>j \<in> set [0..<7]. LANES ! ((c + j) mod 7) = lane"
    by code_simp
  then show "\<exists>j < 7. LANES ! ((c + j) mod 7) = lane" if "lane < 3" "c < 7"
    using that by (force simp: Bex_def)
qed

lemma start_next_ok:
  assumes inv: "work_ok blake3 s"
  obtains u r t where "expire now s = Inr u" "work_ok blake3 u" "wound_down (\<lambda>_ k. wk_deadline k \<le> now) s u"
    "start_next now s = Inr (r, t)" "work_ok blake3 t" "start_effect u r t"
proof -
  obtain u where u: "expire now s = Inr u" "work_ok blake3 u" "wound_down (\<lambda>_ k. wk_deadline k \<le> now) s u"
    using expire_ok [OF inv] by blast
  have c: "nw_cursor u < 7" using work_inv_parts(1) [OF u(2)] by (simp add: shape_ok_def)
  have "\<exists>r t. start_next now s = Inr (r, t) \<and> work_ok blake3 t \<and> start_effect u r t"
  proof (cases "nw_running u \<ge> wl_running (nw_limits u)")
    case True
    then show ?thesis using u by (simp add: start_next_def start_effect_def)
  next
    case False
    then have run: "start_next now s = start_loop 7 u" by (simp add: start_next_def u)
    from u(2) show ?thesis
    proof (cases rule: start_loop_cases [where n = 7])
      case idle
      have "en_phase e \<noteq> Queued" if e: "work_at u i = Some e" for i e
      proof
        assume "en_phase e = Queued"
        then have "i \<in> set (nw_queues u ! lane_index (wk_lane (en_key e)))"
          using work_inv_parts(4) [OF u(2)] e by (auto simp: queues_ok_def)
        moreover obtain j where "j < 7" "lane_after u j = lane_index (wk_lane (en_key e))"
          using every_lane [OF lane_index_less c] by (auto simp: lane_after_def)
        ultimately show False using idle(1) by auto
      qed
      then show ?thesis using idle(2) c u by (auto simp: run start_effect_def)
    next
      case (start j i rest e m)
      have "work_ok blake3 (begun ((nw_cursor u + Suc j) mod length LANES) i e u)"
        by (rule begun_ok [OF u(2) start(4,6)]) (use start False in auto)
      moreover have "start_effect u (Some \<lparr>sw_id = i, sw_key = en_key e, sw_metadata = m\<rparr>)
          (begun ((nw_cursor u + Suc j) mod length LANES) i e u)"
        unfolding start_effect_def option.case
        by (rule exI [of _ j], rule conjI [OF start(1)], rule exI [of _ rest], rule exI [of _ e]) (use start False in simp)
      ultimately show ?thesis using start(8) by (simp add: run)
    qed
  qed
  then show thesis using that u by blast
qed

lemma next_cancellation_ok:
  assumes "work_ok blake3 s" "next_cancellation s = (r, t)"
  shows "work_ok blake3 t"
proof (cases "nw_cancellations s")
  case (Cons i rest)
  have t: "t = s\<lparr>nw_cancellations := rest\<rparr>" using assms(2) Cons by (simp add: next_cancellation_def)
  note p = work_inv_parts [OF assms(1)]
  have "entry_ok blake3 t j e \<longleftrightarrow> entry_ok blake3 s j e" for j e by (simp add: entry_ok_def t)
  then show ?thesis
    using p Cons by (simp add: work_inv_def work_defs t bs_ok_def)
qed (use assms in \<open>simp add: next_cancellation_def\<close>)

lemma complete_work_cases:
  assumes inv: "work_ok blake3 s"
  obtains (unknown) "complete_work i now s = Inr (UnknownWork, s)" "\<forall>e. work_at s i = Some e \<longrightarrow> en_phase e = Queued"
  | (finish) e where "work_at s i = Some e" "en_phase e \<noteq> Queued" "work_ok blake3 (removed i e s)"
      "complete_work i now s =
         Inr (if en_phase e = Running \<and> wk_deadline (en_key e) > now then Publish else Discard, removed i e s)"
proof (cases "\<forall>e. work_at s i = Some e \<longrightarrow> en_phase e = Queued")
  case True
  then show thesis using unknown by (simp add: complete_work_def split: option.splits)
next
  case False
  then obtain e where e: "work_at s i = Some e" "en_phase e \<noteq> Queued" by auto
  note p = work_inv_parts [OF inv]
  have "bm_contains (nw_scopes s) (wk_scope (en_key e))" if "en_phase e = Running"
    using p(10) e that by (force simp: orphans_ok_def bm_contains_def)
  then have "complete_work i now s =
      Inr (if en_phase e = Running \<and> wk_deadline (en_key e) > now then Publish else Discard, removed i e s)"
    using e by (auto simp: complete_work_def remove_work_eq [OF p(8) p(1)])
  then show thesis using finish [OF e] removed_inv [OF inv e(1)] by simp
qed

section \<open>Sequences of calls\<close>

datatype WorkCall =
    RegisterScope
  | RevokeScope WorkScope
  | Admit WorkKey string instant
  | ReleaseWaiter WorkWaiter
  | StartNext instant
  | Expire instant
  | NextCancellation
  | Complete WorkId instant

datatype WorkReply =
    Registered "WorkScope option"
  | Done
  | Admission WorkAdmission
  | Started "StartedWork option"
  | Cancellation "WorkId option"
  | Completion WorkCompletion

fun work_call :: "(string \<Rightarrow> string) \<Rightarrow> WorkCall \<Rightarrow> NetworkWorkOwner \<Rightarrow> (WorkReply \<times> NetworkWorkOwner) result" where
  "work_call blake3 RegisterScope s = (let (r, t) = register_scope s in Inr (Registered r, t))"
| "work_call blake3 (RevokeScope scope) s = rbind (revoke_scope scope s) (\<lambda>t. Inr (Done, t))"
| "work_call blake3 (Admit key metadata now) s = rbind (admit blake3 key metadata now s) (\<lambda>(r, t). Inr (Admission r, t))"
| "work_call blake3 (ReleaseWaiter w) s = rbind (release_waiter w s) (\<lambda>t. Inr (Done, t))"
| "work_call blake3 (StartNext now) s = rbind (start_next now s) (\<lambda>(r, t). Inr (Started r, t))"
| "work_call blake3 (Expire now) s = rbind (expire now s) (\<lambda>t. Inr (Done, t))"
| "work_call blake3 NextCancellation s = (let (r, t) = next_cancellation s in Inr (Cancellation r, t))"
| "work_call blake3 (Complete i now) s = rbind (complete_work i now s) (\<lambda>(r, t). Inr (Completion r, t))"

fun run_calls :: "(string \<Rightarrow> string) \<Rightarrow> WorkCall list \<Rightarrow> NetworkWorkOwner \<Rightarrow>
    ((WorkCall \<times> WorkReply) list \<times> NetworkWorkOwner) result" where
  "run_calls blake3 [] s = Inr ([], s)"
| "run_calls blake3 (c # cs) s =
     rbind (work_call blake3 c s) (\<lambda>(r, t).
     rbind (run_calls blake3 cs t) (\<lambda>(tr, u). Inr ((c, r) # tr, u)))"

lemma release_waiter_cases:
  assumes inv: "work_ok blake3 s"
  obtains (kept) "release_waiter w s = Inr s"
  | (released) e t where "work_at s (ww_work w) = Some e" "release_waiter w s = Inr t" "work_ok blake3 t"
      "release_effect (ww_serial w) (ww_work w) e s t"
proof (cases "\<exists>e. work_at s (ww_work w) = Some e \<and> wk_scope (en_key e) = ww_scope w \<and> ww_serial w \<in> set (en_waiters e)")
  case True
  then obtain e where e: "work_at s (ww_work w) = Some e" "wk_scope (en_key e) = ww_scope w" "ww_serial w \<in> set (en_waiters e)"
    by blast
  obtain t where "release_waiter w s = Inr t" "release_effect (ww_serial w) (ww_work w) e s t"
    using release_waiter_eq [OF inv e] by blast
  then show thesis using released [OF e(1)] release_effect_ok [OF inv e(1)] by blast
next
  case False
  then show thesis using kept by (auto simp: release_waiter_def split: option.splits)
qed

lemma work_call_ok:
  assumes inv: "work_ok blake3 s"
  shows "\<exists>r t. work_call blake3 c s = Inr (r, t) \<and> work_ok blake3 t"
proof (cases c)
  case RegisterScope
  then show ?thesis using register_scope_ok [OF inv] by (auto split: prod.split)
next
  case (RevokeScope scope)
  then show ?thesis using revoke_scope_ok [OF inv, of scope] by auto
next
  case (Admit key metadata now)
  obtain r t where "admit blake3 key metadata now s = Inr (r, t)" "work_ok blake3 t"
    using admit_ok [OF inv] by metis
  then show ?thesis by (simp add: Admit)
next
  case (ReleaseWaiter w)
  from inv show ?thesis
    by (cases rule: release_waiter_cases [of _ _ w]) (use inv in \<open>simp_all add: ReleaseWaiter\<close>)
next
  case (StartNext now)
  obtain r t where "start_next now s = Inr (r, t)" "work_ok blake3 t"
    using start_next_ok [OF inv] by metis
  then show ?thesis by (simp add: StartNext)
next
  case (Expire now)
  then show ?thesis using expire_ok [OF inv, of now] by auto
next
  case NextCancellation
  then show ?thesis using next_cancellation_ok [OF inv] by (auto split: prod.split)
next
  case (Complete i now)
  from inv show ?thesis
    by (cases rule: complete_work_cases [of _ _ i now]) (use inv in \<open>simp_all add: Complete\<close>)
qed

lemma run_calls_ok: "work_ok blake3 s \<Longrightarrow> \<exists>tr t. run_calls blake3 cs s = Inr (tr, t) \<and> work_ok blake3 t"
proof (induction cs arbitrary: s)
  case (Cons c cs)
  obtain r t where "work_call blake3 c s = Inr (r, t)" "work_ok blake3 t"
    using work_call_ok [OF Cons.prems] by blast
  then show ?case using Cons.IH [of t] by auto
qed simp

end
