(* ===== verification/Work_Runs.thy ===== *)
theory Work_Runs
  imports Work_Invariant
begin

text \<open>
  Sequences of calls on a \<open>NetworkWorkOwner\<close>: the life of one job as a state machine, the events that
  happen at most once to it, where a published result comes from, and how long queued work waits.
\<close>

section \<open>The life of one job\<close>

text \<open>
  What the calls do to one job, as its key and phase: absent, queued, running, stopping. Each call
  moves a job along at most one edge, and the reply tells which.
\<close>

definition job :: "NetworkWorkOwner \<Rightarrow> WorkId \<Rightarrow> (WorkKey \<times> Phase) option" where
  "job s i = map_option (\<lambda>e. (en_key e, en_phase e)) (work_at s i)"

lemma job_None: "job s i = None \<longleftrightarrow> work_at s i = None"
  by (simp add: job_def)

lemma job_Some: "job s i = Some (k, p) \<longleftrightarrow> (\<exists>e. work_at s i = Some e \<and> en_key e = k \<and> en_phase e = p)"
  by (auto simp: job_def)

lemma job_removed [simp]: "job (removed j e s) i = (if i = j then None else job s i)"
  by (simp add: job_def)

lemma job_stopped [simp]: "job (stopped j e s) i = (if i = j then Some (en_key e, Stopping) else job s i)"
  by (simp add: job_def)

lemma job_joined: "work_at s j = Some e \<Longrightarrow> job (joined n j e s) i = job s i"
  by (simp add: job_def joined_def)

lemma job_entered [simp]: "job (entered j e work s) i = (if i = j then Some (en_key e, en_phase e) else job s i)"
  by (simp add: job_def)

lemma job_begun [simp]: "job (begun c j e s) i = (if i = j then Some (en_key e, Running) else job s i)"
  by (simp add: job_def)

lemma job_serial [simp]: "job (s\<lparr>nw_serial := n\<rparr>) i = job s i" "job (s\<lparr>nw_scopes := sc\<rparr>) i = job s i"
  "job (s\<lparr>nw_cancellations := cs\<rparr>) i = job s i"
  by (simp_all add: job_def)

lemma job_wound_down:
  assumes "wound_down P s t"
  shows "job t i = (case job s i of None \<Rightarrow> None | Some (k, p) \<Rightarrow>
     if \<not> P i k then Some (k, p) else if p = Queued then None else Some (k, Stopping))"
  using wound_down_at [OF assms, of i]
  by (auto simp: job_def wind_def split: option.splits Phase.splits)

lemma job_release:
  assumes "work_at s j = Some e" "release_effect w j e s t"
  shows "job t i = job s i \<or> i = j \<and> job s i = Some (en_key e, Queued) \<and> job t i = None
    \<or> i = j \<and> job s i = Some (en_key e, Running) \<and> job t i = Some (en_key e, Stopping) \<and> i \<in> set (nw_cancellations t)"
  using assms by (auto simp: release_effect_def job_def split: if_splits)

text \<open>
  \<open>job_move\<close> is the edge that a call and its reply take one job along, from what it was to what it
  becomes; \<open>n\<close> and \<open>n'\<close> are the serial numbers before and after.
\<close>

inductive job_move :: "WorkCall \<Rightarrow> WorkReply \<Rightarrow> u64 \<Rightarrow> u64 \<Rightarrow> WorkId \<Rightarrow>
    (WorkKey \<times> Phase) option \<Rightarrow> (WorkKey \<times> Phase) option \<Rightarrow> bool" where
  stay: "job_move c r n n' i x x"
| enter: "n < wi_serial i \<Longrightarrow> wi_serial i \<le> n' \<Longrightarrow> job_move c r n n' i None (Some (k, Queued))"
| leave: "job_move c r n n' i (Some (k, Queued)) None"
| start: "sw_id w = i \<Longrightarrow> sw_key w = k \<Longrightarrow>
    job_move (StartNext now) (Started (Some w)) n n' i (Some (k, Queued)) (Some (k, Running))"
| stop: "job_move c r n n' i (Some (k, Running)) (Some (k, Stopping))"
| finish: "p \<noteq> Queued \<Longrightarrow> x \<noteq> UnknownWork \<Longrightarrow>
    job_move (Complete i now) (Completion x) n n' i (Some (k, p)) None"

inductive_cases move_from_None: "job_move c r n n' i None y"
inductive_cases move_from_Some: "job_move c r n n' i (Some (k, p)) y"
inductive_cases move_to_Some: "job_move c r n n' i x (Some (k, p))"

text \<open>What a call has done, read off its reply.\<close>

lemma work_call_cases [consumes 2, case_names register revoke admit release start expire cancellation complete]:
  assumes inv: "work_ok blake3 s" and call: "work_call blake3 c s = Inr (r, t)"
  obtains x where "c = RegisterScope" "register_scope s = (x, t)"
  | scope where "c = RevokeScope scope" "wound_down (\<lambda>_ k. wk_scope k = scope) (s\<lparr>nw_scopes := bm_remove scope (nw_scopes s)\<rparr>) t"
  | key metadata now u x where "c = Admit key metadata now" "wound_down (\<lambda>_ k. wk_deadline k \<le> now) s u"
      "admission_effect blake3 key metadata now u x t"
  | w where "c = ReleaseWaiter w" "t = s \<or> (\<exists>e. work_at s (ww_work w) = Some e \<and> release_effect (ww_serial w) (ww_work w) e s t)"
  | now u x where "c = StartNext now" "work_ok blake3 u" "wound_down (\<lambda>_ k. wk_deadline k \<le> now) s u"
      "start_effect u x t" "r = Started x"
  | now where "c = Expire now" "wound_down (\<lambda>_ k. wk_deadline k \<le> now) s t"
  | x where "c = NextCancellation" "next_cancellation s = (x, t)" "r = Cancellation x"
  | i now x where "c = Complete i now" "r = Completion x"
      "x = UnknownWork \<and> t = s \<and> (\<forall>e. work_at s i = Some e \<longrightarrow> en_phase e = Queued) \<or> x \<noteq> UnknownWork \<and> (\<exists>e. work_at s i = Some e \<and> en_phase e \<noteq> Queued \<and> t = removed i e s)"
proof (cases c)
  case RegisterScope
  then show thesis using that(1) call by (auto split: prod.splits)
next
  case (RevokeScope scope)
  then show thesis using that(2) revoke_scope_ok [OF inv, of scope] call by auto
next
  case (Admit key metadata now)
  show thesis
    by (rule admit_ok [OF inv, of now key metadata]) (use that(3) [OF Admit] call in \<open>auto simp: Admit\<close>)
next
  case (ReleaseWaiter w)
  from inv show thesis
    by (cases rule: release_waiter_cases [of _ _ w]) (use that(4) [OF ReleaseWaiter] call in \<open>auto simp: ReleaseWaiter\<close>)
next
  case (StartNext now)
  show thesis
    by (rule start_next_ok [OF inv, of now]) (use that(5) [OF StartNext] call in \<open>auto simp: StartNext\<close>)
next
  case (Expire now)
  then show thesis using that(6) expire_ok [OF inv, of now] call by auto
next
  case NextCancellation
  then show thesis using that(7) call by (auto split: prod.splits)
next
  case (Complete i now)
  from inv show thesis
    by (cases rule: complete_work_cases [of _ _ i now])
      (use that(8) [OF Complete] call in \<open>auto simp: Complete split: if_splits\<close>)
qed

lemma wound_down_move:
  assumes "wound_down P s t"
  shows "job_move c r n n' i (job s i) (job t i)"
proof (cases "job s i")
  case None
  then show ?thesis using job_wound_down [OF assms, of i] by (simp add: job_move.stay)
next
  case (Some a)
  obtain k p where "a = (k, p)" by (cases a)
  then show ?thesis
    using job_wound_down [OF assms, of i] Some
    by (cases p) (simp_all add: job_move.stay job_move.leave job_move.stop)
qed

lemma admission_move:
  assumes inv: "work_ok blake3 s" and u: "wound_down (\<lambda>_ k. wk_deadline k \<le> now) s u" "admission_effect blake3 key metadata now u x t"
  shows "job_move c r (nw_serial s) (nw_serial t) i (job s i) (job t i)"
proof -
  have n: "nw_serial u = nw_serial s" "nw_owner u = nw_owner s" by (rule wound_down_frame [OF u(1)])+
  show ?thesis
  proof (cases "i = WorkId (nw_owner s) (Suc (nw_serial s)) \<and> (\<exists>w. x = Admitted w)")
    case True
    then have "job s i = None" using fresh_id [OF work_inv_parts(7) [OF inv]] by (simp add: job_None)
    moreover have "job t i = Some (key, Queued)" "nw_serial t = Suc (nw_serial s)"
      using True u(2) n by (auto simp: admission_effect_def new_entry_def)
    ultimately show ?thesis using True by (simp add: job_move.enter)
  next
    case False
    then have "job t i = job u i"
      using u(2) n by (auto simp: admission_effect_def job_joined split: WorkAdmission.splits)
    then show ?thesis using wound_down_move [OF u(1)] by simp
  qed
qed

lemma start_move:
  assumes u: "wound_down (\<lambda>_ k. wk_deadline k \<le> now) s u" "start_effect u x t"
  shows "job_move (StartNext now) (Started x) n n' i (job s i) (job t i)"
proof (cases "\<exists>w. x = Some w \<and> sw_id w = i")
  case True
  then obtain w where w: "x = Some w" "sw_id w = i" by blast
  have "job u i = Some (sw_key w, Queued)" "job t i = Some (sw_key w, Running)"
    using u(2) w by (auto simp: start_effect_def job_Some)
  moreover from this(1) have "job s i = Some (sw_key w, Queued)"
    using job_wound_down [OF u(1), of i] by (auto split: option.splits if_splits)
  ultimately show ?thesis using w by (auto intro: job_move.start)
next
  case False
  then have "job t i = job u i"
    using u(2) by (auto simp: start_effect_def split: option.splits)
  then show ?thesis using wound_down_move [OF u(1)] by simp
qed

lemma job_moves:
  assumes inv: "work_ok blake3 s" and call: "work_call blake3 c s = Inr (r, t)"
  shows "job_move c r (nw_serial s) (nw_serial t) i (job s i) (job t i)"
  using assms
proof (cases rule: work_call_cases)
  case (register x)
  from register(2) show ?thesis by (cases rule: register_scope_cases) (auto intro: job_move.stay)
next
  case (revoke scope)
  then show ?thesis using wound_down_move [OF revoke(2), where i = i] by simp
next
  case (admit key metadata now u x)
  then show ?thesis using admission_move [OF inv admit(2,3)] by simp
next
  case (release w)
  from release(2) show ?thesis
  proof (elim disjE exE conjE)
    fix e
    assume "work_at s (ww_work w) = Some e" "release_effect (ww_serial w) (ww_work w) e s t"
    from job_release [OF this, of i] show ?thesis by (auto intro: job_move.intros)
  qed (simp add: job_move.stay)
next
  case (start now u x)
  then show ?thesis using start_move [OF start(3,4)] by simp
next
  case (expire now)
  then show ?thesis using wound_down_move [OF expire(2)] by simp
next
  case (cancellation x)
  then have "job t i = job s i" by (auto simp: next_cancellation_def split: list.splits)
  then show ?thesis by (simp add: job_move.stay)
next
  case (complete j now x)
  from complete(3) show ?thesis
    by (cases "i = j") (auto simp: complete(1,2) job_def intro: job_move.stay job_move.finish)
qed

section \<open>What the replies say\<close>

lemma job_known: "work_ok blake3 s \<Longrightarrow> job s i = Some x \<Longrightarrow> wi_serial i \<le> nw_serial s \<and> wi_owner i = nw_owner s"
  using entryD [OF work_inv_parts(7)] by (fastforce simp: job_def entry_ok_def)

lemma started_reply:
  assumes inv: "work_ok blake3 s" and call: "work_call blake3 c s = Inr (Started (Some w), t)"
  obtains now where "c = StartNext now" "now < wk_deadline (sw_key w)"
    "job s (sw_id w) = Some (sw_key w, Queued)" "job t (sw_id w) = Some (sw_key w, Running)"
proof -
  obtain now where c: "c = StartNext now"
    using call by (cases c) (auto simp: result_simps split: prod.splits)
  obtain u where u: "wound_down (\<lambda>_ k. wk_deadline k \<le> now) s u" "start_effect u (Some w) t"
    by (rule start_next_ok [OF inv, of now]) (use call in \<open>auto simp: c\<close>)
  have "job u (sw_id w) = Some (sw_key w, Queued)" "job t (sw_id w) = Some (sw_key w, Running)"
    using u(2) by (auto simp: start_effect_def job_Some)
  then show thesis
    using that [OF c] job_wound_down [OF u(1), of "sw_id w"] by (auto split: option.splits if_splits)
qed

lemma finished_reply:
  assumes inv: "work_ok blake3 s" and call: "work_call blake3 (Complete i now) s = Inr (Completion x, t)" and x: "x \<noteq> UnknownWork"
  obtains k p where "job s i = Some (k, p)" "p \<noteq> Queued" "job t i = None" "x = Publish \<longleftrightarrow> p = Running \<and> now < wk_deadline k"
  using inv
proof (cases rule: complete_work_cases [of _ _ i now])
  case (finish e)
  then show thesis using call that [of "en_key e" "en_phase e"] by (auto simp: job_Some split: if_splits)
qed (use call x in simp)

lemma wound_down_cancellations:
  "wound_down P s t \<Longrightarrow> set (nw_cancellations t) \<subseteq> set (nw_cancellations s) \<union> {i. \<exists>k. job s i = Some (k, Running)}"
  by (auto simp: wound_down_def job_Some)

lemma cancellations_step:
  assumes inv: "work_ok blake3 s" and call: "work_call blake3 c s = Inr (r, t)"
  shows "set (nw_cancellations t) \<subseteq> set (nw_cancellations s) \<union> {i. \<exists>k. job s i = Some (k, Running)}"
  using assms
proof (cases rule: work_call_cases)
  case (register x)
  from register(2) show ?thesis by (cases rule: register_scope_cases) auto
next
  case (revoke scope)
  then show ?thesis using wound_down_cancellations [OF revoke(2)] by simp
next
  case (admit key metadata now u x)
  have "nw_cancellations t = nw_cancellations u"
    using admit(3) by (auto simp: admission_effect_def joined_def split: WorkAdmission.splits)
  then show ?thesis using wound_down_cancellations [OF admit(2)] by simp
next
  case (release w)
  then show ?thesis by (auto simp: release_effect_def job_Some set_bs_remove split: if_splits)
next
  case (start now u x)
  have "nw_cancellations t = nw_cancellations u"
    using start(4) by (auto simp: start_effect_def split: option.splits)
  then show ?thesis using wound_down_cancellations [OF start(3)] by simp
next
  case (expire now)
  then show ?thesis using wound_down_cancellations [OF expire(2)] by simp
next
  case (cancellation x)
  then show ?thesis by (auto simp: next_cancellation_def split: list.splits)
next
  case (complete i now x)
  then show ?thesis by (auto simp: set_bs_remove)
qed

lemma frame_step:
  assumes inv: "work_ok blake3 s" and call: "work_call blake3 c s = Inr (r, t)"
  shows "nw_owner t = nw_owner s \<and> nw_limits t = nw_limits s \<and> nw_serial s \<le> nw_serial t
    \<and> ((\<forall>now. c \<noteq> StartNext now) \<longrightarrow> nw_cursor t = nw_cursor s)"
  using assms
proof (cases rule: work_call_cases)
  case (register x)
  from register(2) show ?thesis by (cases rule: register_scope_cases) auto
next
  case (revoke scope)
  then show ?thesis by (simp add: wound_down_def)
next
  case (admit key metadata now u x)
  then show ?thesis
    by (auto simp: wound_down_def admission_effect_def joined_def split: WorkAdmission.splits)
next
  case (release w)
  then show ?thesis by (auto simp: release_effect_def split: if_splits)
next
  case (start now u x)
  then show ?thesis by (auto simp: wound_down_def start_effect_def split: option.splits)
next
  case (expire now)
  then show ?thesis by (simp add: wound_down_def)
next
  case (cancellation x)
  then show ?thesis by (auto simp: next_cancellation_def split: list.splits)
next
  case (complete i now x)
  then show ?thesis by auto
qed

lemma serial_mono:
  assumes "work_ok blake3 s" "work_call blake3 c s = Inr (r, t)"
  shows "nw_serial s \<le> nw_serial t"
  using frame_step [OF assms] by blast

lemma cancellation_reply:
  assumes inv: "work_ok blake3 s" and call: "work_call blake3 c s = Inr (Cancellation (Some i), t)"
  obtains k where "c = NextCancellation" "job s i = Some (k, Stopping)" "job t i = Some (k, Stopping)" "i \<notin> set (nw_cancellations t)"
proof -
  have c: "c = NextCancellation"
    using call by (cases c) (auto simp: result_simps split: prod.splits)
  then obtain rest where rest: "nw_cancellations s = i # rest" "t = s\<lparr>nw_cancellations := rest\<rparr>"
    using call by (auto simp: next_cancellation_def split: list.splits)
  have "bs_ok (i # rest)" using work_inv_parts(1) [OF inv] rest(1) by (simp add: shape_ok_def)
  moreover obtain k where "job s i = Some (k, Stopping)"
    using work_inv_parts(5) [OF inv] rest(1) by (auto simp: cancellations_ok_def job_Some)
  ultimately show thesis using that c rest(2) bs_ok_Cons by fastforce
qed

section \<open>Events that happen once\<close>

text \<open>
  The interface of the events of a run: \<open>event\<close> reads the jobs off a call and its reply, and once a
  job has had its event, \<open>spent\<close> holds of it in every later state and rules the event out.
\<close>

locale once =
  fixes blake3 :: "string \<Rightarrow> string"
    and event :: "WorkCall \<times> WorkReply \<Rightarrow> WorkId list"
    and spent :: "WorkId \<Rightarrow> NetworkWorkOwner \<Rightarrow> bool"
  assumes event_spends: "work_ok blake3 s \<Longrightarrow> work_call blake3 c s = Inr (r, t) \<Longrightarrow>
      event (c, r) = [] \<or> (\<exists>i. event (c, r) = [i] \<and> spent i t)"
    and spent_stays: "work_ok blake3 s \<Longrightarrow> work_call blake3 c s = Inr (r, t) \<Longrightarrow> spent i s \<Longrightarrow> spent i t"
    and spent_silent: "work_ok blake3 s \<Longrightarrow> work_call blake3 c s = Inr (r, t) \<Longrightarrow> spent i s \<Longrightarrow> i \<notin> set (event (c, r))"
begin

lemma run_spent:
  "work_ok blake3 s \<Longrightarrow> run_calls blake3 cs s = Inr (tr, t) \<Longrightarrow> spent i s \<Longrightarrow> i \<notin> set (concat (map event tr))"
proof (induction cs arbitrary: s tr)
  case (Cons c cs)
  obtain r u where u: "work_call blake3 c s = Inr (r, u)" "work_ok blake3 u"
    using work_call_ok [OF Cons.prems(1)] by blast
  then obtain tr' where tr: "tr = (c, r) # tr'" "run_calls blake3 cs u = Inr (tr', t)"
    using Cons.prems(2) by (auto simp: result_simps split: prod.splits)
  show ?case
    using Cons.IH [OF u(2) tr(2)] spent_stays [OF Cons.prems(1) u(1) Cons.prems(3)]
      spent_silent [OF Cons.prems(1) u(1) Cons.prems(3)] by (simp add: tr(1))
qed simp

lemma run_once:
  "work_ok blake3 s \<Longrightarrow> run_calls blake3 cs s = Inr (tr, t) \<Longrightarrow> distinct (concat (map event tr))"
proof (induction cs arbitrary: s tr)
  case (Cons c cs)
  obtain r u where u: "work_call blake3 c s = Inr (r, u)" "work_ok blake3 u"
    using work_call_ok [OF Cons.prems(1)] by blast
  then obtain tr' where tr: "tr = (c, r) # tr'" "run_calls blake3 cs u = Inr (tr', t)"
    using Cons.prems(2) by (auto simp: result_simps split: prod.splits)
  show ?case
    using event_spends [OF Cons.prems(1) u(1)] Cons.IH [OF u(2) tr(2)] run_spent [OF u(2) tr(2)] by (auto simp: tr(1))
qed simp

end

fun started_by :: "WorkCall \<times> WorkReply \<Rightarrow> WorkId list" where
  "started_by (_, Started (Some w)) = [sw_id w]"
| "started_by _ = []"

fun finished_by :: "WorkCall \<times> WorkReply \<Rightarrow> WorkId list" where
  "finished_by (Complete i _, Completion x) = (if x = UnknownWork then [] else [i])"
| "finished_by _ = []"

fun told_by :: "WorkCall \<times> WorkReply \<Rightarrow> WorkId list" where
  "told_by (_, Cancellation (Some i)) = [i]"
| "told_by _ = []"

definition past_queue :: "WorkId \<Rightarrow> NetworkWorkOwner \<Rightarrow> bool" where
  "past_queue i s \<longleftrightarrow> wi_serial i \<le> nw_serial s \<and> (\<forall>k. job s i \<noteq> Some (k, Queued))"

definition gone :: "WorkId \<Rightarrow> NetworkWorkOwner \<Rightarrow> bool" where
  "gone i s \<longleftrightarrow> wi_serial i \<le> nw_serial s \<and> job s i = None"

definition told :: "WorkId \<Rightarrow> NetworkWorkOwner \<Rightarrow> bool" where
  "told i s \<longleftrightarrow> wi_serial i \<le> nw_serial s \<and> i \<notin> set (nw_cancellations s) \<and> (\<forall>k p. job s i = Some (k, p) \<longrightarrow> p = Stopping)"

lemma started_by_Cons: "started_by (c, r) = [] \<or> (\<exists>w. r = Started (Some w) \<and> started_by (c, r) = [sw_id w])"
  by (cases "(c, r)" rule: started_by.cases) auto

lemma finished_by_Cons:
  "finished_by (c, r) = [] \<or> (\<exists>i now x. c = Complete i now \<and> r = Completion x \<and> x \<noteq> UnknownWork \<and> finished_by (c, r) = [i])"
  by (cases "(c, r)" rule: finished_by.cases) auto

lemma told_by_Cons: "told_by (c, r) = [] \<or> (\<exists>i. r = Cancellation (Some i) \<and> told_by (c, r) = [i])"
  by (cases "(c, r)" rule: told_by.cases) auto

lemma past_queue_stays:
  assumes "work_ok blake3 s" "work_call blake3 c s = Inr (r, t)" "past_queue i s"
  shows "past_queue i t"
  using job_moves [OF assms(1,2), of i] serial_mono [OF assms(1,2)] assms(3)
  by (cases rule: job_move.cases) (auto simp: past_queue_def)

lemma gone_stays:
  assumes "work_ok blake3 s" "work_call blake3 c s = Inr (r, t)" "gone i s"
  shows "gone i t"
  using job_moves [OF assms(1,2), of i] serial_mono [OF assms(1,2)] assms(3)
  by (cases rule: job_move.cases) (auto simp: gone_def)

lemma told_stays:
  assumes "work_ok blake3 s" "work_call blake3 c s = Inr (r, t)" "told i s"
  shows "told i t"
  using job_moves [OF assms(1,2), of i] cancellations_step [OF assms(1,2)] serial_mono [OF assms(1,2)] assms(3)
  by (cases rule: job_move.cases) (auto simp: told_def)

interpretation starts: once blake3 started_by past_queue for blake3
proof
  fix s c r t i
  assume ok: "work_ok blake3 s" and call: "work_call blake3 c s = Inr (r, t)"
  show "started_by (c, r) = [] \<or> (\<exists>i. started_by (c, r) = [i] \<and> past_queue i t)"
  proof (cases "started_by (c, r) = []")
    case False
    then obtain w where w: "r = Started (Some w)" "started_by (c, r) = [sw_id w]" using started_by_Cons by blast
    have "job s (sw_id w) = Some (sw_key w, Queued)" "job t (sw_id w) = Some (sw_key w, Running)"
      using started_reply [OF ok call [unfolded w(1)]] by metis+
    then have "past_queue (sw_id w) t"
      using job_known [OF ok] serial_mono [OF ok call] by (fastforce simp: past_queue_def)
    then show ?thesis using w(2) by simp
  qed simp
  show "past_queue i s \<Longrightarrow> past_queue i t" by (rule past_queue_stays [OF ok call])
  show "i \<notin> set (started_by (c, r))" if past: "past_queue i s"
  proof (rule notI)
    assume "i \<in> set (started_by (c, r))"
    then obtain w where w: "r = Started (Some w)" "i = sw_id w" using started_by_Cons [of c r] by auto
    have "job s (sw_id w) = Some (sw_key w, Queued)"
      using started_reply [OF ok call [unfolded w(1)]] by metis
    then show False using past w(2) by (simp add: past_queue_def)
  qed
qed

interpretation finishes: once blake3 finished_by gone for blake3
proof
  fix s c r t i
  assume ok: "work_ok blake3 s" and call: "work_call blake3 c s = Inr (r, t)"
  show "finished_by (c, r) = [] \<or> (\<exists>i. finished_by (c, r) = [i] \<and> gone i t)"
  proof (cases "finished_by (c, r) = []")
    case False
    then obtain j now x where x: "c = Complete j now" "r = Completion x" "x \<noteq> UnknownWork" "finished_by (c, r) = [j]"
      using finished_by_Cons by blast
    obtain k p where "job s j = Some (k, p)" "job t j = None"
      using finished_reply [OF ok call [unfolded x(1,2)] x(3)] by metis
    then have "gone j t"
      using job_known [OF ok] serial_mono [OF ok call] by (fastforce simp: gone_def)
    then show ?thesis using x(4) by simp
  qed simp
  show "gone i s \<Longrightarrow> gone i t" by (rule gone_stays [OF ok call])
  show "i \<notin> set (finished_by (c, r))" if gone: "gone i s"
  proof (rule notI)
    assume "i \<in> set (finished_by (c, r))"
    then obtain now x where x: "c = Complete i now" "r = Completion x" "x \<noteq> UnknownWork"
      using finished_by_Cons [of c r] by auto
    obtain k p where "job s i = Some (k, p)"
      using finished_reply [OF ok call [unfolded x(1,2)] x(3)] by metis
    then show False using gone by (simp add: gone_def)
  qed
qed

interpretation stops: once blake3 told_by told for blake3
proof
  fix s c r t i
  assume ok: "work_ok blake3 s" and call: "work_call blake3 c s = Inr (r, t)"
  show "told_by (c, r) = [] \<or> (\<exists>i. told_by (c, r) = [i] \<and> told i t)"
  proof (cases "told_by (c, r) = []")
    case False
    then obtain j where j: "r = Cancellation (Some j)" "told_by (c, r) = [j]" using told_by_Cons by blast
    obtain k where k: "job s j = Some (k, Stopping)" "job t j = Some (k, Stopping)" "j \<notin> set (nw_cancellations t)"
      using cancellation_reply [OF ok call [unfolded j(1)]] by metis
    then have "told j t"
      using job_known [OF ok k(1)] serial_mono [OF ok call] by (simp add: told_def)
    then show ?thesis using j(2) by simp
  qed simp
  show "told i s \<Longrightarrow> told i t" by (rule told_stays [OF ok call])
  show "i \<notin> set (told_by (c, r))" if told: "told i s"
  proof (rule notI)
    assume "i \<in> set (told_by (c, r))"
    then have "r = Cancellation (Some i)" using told_by_Cons [of c r] by auto
    then have "c = NextCancellation" "r = Cancellation (Some i)" using cancellation_reply [OF ok] call by metis+
    then have "i \<in> set (nw_cancellations s)"
      using call by (auto simp: next_cancellation_def split: list.splits)
    then show False using told by (simp add: told_def)
  qed
qed

section \<open>Where results come from\<close>

definition active :: "NetworkWorkOwner \<Rightarrow> WorkId \<Rightarrow> bool" where
  "active s i \<longleftrightarrow> (\<exists>k p. job s i = Some (k, p) \<and> p \<noteq> Queued)"

lemma active_origin:
  assumes "work_ok blake3 s" "work_call blake3 c s = Inr (r, t)" "active t i"
  shows "active s i \<or> i \<in> set (started_by (c, r))"
  using job_moves [OF assms(1,2), of i] assms(3)
  by (cases rule: job_move.cases) (auto simp: active_def)

lemma run_active_origin:
  assumes "work_ok blake3 s" "run_calls blake3 cs s = Inr (tr, t)" "i \<in> set (concat (map event tr))"
    and needs: "\<And>s c r t. work_ok blake3 s \<Longrightarrow> work_call blake3 c s = Inr (r, t) \<Longrightarrow> i \<in> set (event (c, r)) \<Longrightarrow> active s i"
  shows "active s i \<or> i \<in> set (concat (map started_by tr))"
  using assms(1-3)
proof (induction cs arbitrary: s tr)
  case (Cons c cs)
  obtain r u where u: "work_call blake3 c s = Inr (r, u)" "work_ok blake3 u"
    using work_call_ok [OF Cons.prems(1)] by blast
  then obtain tr' where tr: "tr = (c, r) # tr'" "run_calls blake3 cs u = Inr (tr', t)"
    using Cons.prems(2) by (auto simp: result_simps split: prod.splits)
  show ?case
    using Cons.prems(3) Cons.IH [OF u(2) tr(2)] needs [OF Cons.prems(1) u(1)] active_origin [OF Cons.prems(1) u(1), of i]
    by (auto simp: tr(1))
qed simp

lemma finished_active:
  assumes "work_ok blake3 s" "work_call blake3 c s = Inr (r, t)" "i \<in> set (finished_by (c, r))"
  shows "active s i"
proof -
  obtain now x where x: "c = Complete i now" "r = Completion x" "x \<noteq> UnknownWork"
    using finished_by_Cons [of c r] assms(3) by auto
  show ?thesis using finished_reply [OF assms(1) assms(2) [unfolded x(1,2)] x(3)] by (metis active_def)
qed

lemma told_active:
  assumes "work_ok blake3 s" "work_call blake3 c s = Inr (r, t)" "i \<in> set (told_by (c, r))"
  shows "active s i"
proof -
  have r: "r = Cancellation (Some i)" using told_by_Cons [of c r] assms(3) by auto
  show ?thesis using cancellation_reply [OF assms(1) assms(2) [unfolded r]] by (metis active_def Phase.distinct(4))
qed

text \<open>A call, with its reply, after which the result of the running job \<open>i\<close> of key \<open>k\<close> is no longer wanted.\<close>

fun ends_work :: "WorkId \<Rightarrow> WorkKey \<Rightarrow> WorkCall \<times> WorkReply \<Rightarrow> bool" where
  "ends_work i k (RevokeScope scope, _) \<longleftrightarrow> scope = wk_scope k"
| "ends_work i k (Admit _ _ now, _) \<longleftrightarrow> wk_deadline k \<le> now"
| "ends_work i k (StartNext now, _) \<longleftrightarrow> wk_deadline k \<le> now"
| "ends_work i k (Expire now, _) \<longleftrightarrow> wk_deadline k \<le> now"
| "ends_work i k (Complete j _, _) \<longleftrightarrow> j = i"
| "ends_work i k (NextCancellation, r) \<longleftrightarrow> r = Cancellation (Some i)"
| "ends_work i k _ \<longleftrightarrow> False"

lemma running_step:
  assumes inv: "work_ok blake3 s" and call: "work_call blake3 c s = Inr (r, t)" and run: "job t i = Some (k, Running)"
  shows "job s i = Some (k, Running) \<and> \<not> ends_work i k (c, r)
    \<or> (\<exists>now w. c = StartNext now \<and> r = Started (Some w) \<and> sw_id w = i \<and> sw_key w = k)"
proof -
  have wound: "\<not> P i k" if "wound_down P s u" "job u i = Some (k, Running)" for P u
    using job_wound_down [OF that(1), of i] that(2) by (auto split: option.splits if_splits)
  have quiet: "\<not> ends_work i k (c, r)" if k: "job s i = Some (k, Running)"
    using inv call
  proof (cases rule: work_call_cases)
    case (revoke scope)
    then show ?thesis using job_wound_down [OF revoke(2), of i] run k by (auto split: if_splits)
  next
    case (admit key metadata now u x)
    have "job u i = Some (k, Running)"
      using admit(3) run by (auto simp: admission_effect_def job_joined new_entry_def split: WorkAdmission.splits if_splits)
    then show ?thesis using wound [OF admit(2)] by (simp add: admit(1))
  next
    case (start now u x)
    have "job u i = Some (k, Running)"
      using job_wound_down [OF start(3), of i] start(4) k run
      by (auto simp: start_effect_def job_Some split: option.splits if_splits)
    then show ?thesis using wound [OF start(3)] by (simp add: start(1))
  next
    case (expire now)
    then show ?thesis using wound run by simp
  next
    case (cancellation x)
    then show ?thesis using cancellation_reply [OF inv, of c i t] call k by auto
  next
    case (complete j now x)
    then show ?thesis using run k by (auto simp: job_Some)
  qed simp_all
  from job_moves [OF inv call, of i] run quiet show ?thesis
    by (cases rule: job_move.cases) auto
qed

lemma running_since:
  assumes "work_ok blake3 s" "run_calls blake3 cs s = Inr (tr, t)" "job t i = Some (k, Running)"
  shows "job s i = Some (k, Running) \<and> (\<forall>x \<in> set tr. \<not> ends_work i k x)
    \<or> (\<exists>a now w b. tr = a @ (StartNext now, Started (Some w)) # b \<and> sw_id w = i \<and> sw_key w = k \<and> (\<forall>x \<in> set b. \<not> ends_work i k x))"
  using assms
proof (induction cs arbitrary: s tr)
  case (Cons c cs)
  obtain r u where u: "work_call blake3 c s = Inr (r, u)" "work_ok blake3 u"
    using work_call_ok [OF Cons.prems(1)] by blast
  then obtain tr' where tr: "tr = (c, r) # tr'" "run_calls blake3 cs u = Inr (tr', t)"
    using Cons.prems(2) by (auto simp: result_simps split: prod.splits)
  from Cons.IH [OF u(2) tr(2) Cons.prems(3)] show ?case
  proof (elim disjE exE conjE)
    fix a now w b
    assume "tr' = a @ (StartNext now, Started (Some w)) # b" "sw_id w = i" "sw_key w = k" "\<forall>x \<in> set b. \<not> ends_work i k x"
    then show ?thesis unfolding tr(1) by (metis append_Cons)
  next
    assume rest: "job u i = Some (k, Running)" "\<forall>x \<in> set tr'. \<not> ends_work i k x"
    from running_step [OF Cons.prems(1) u(1) rest(1)] show ?thesis
    proof (elim disjE exE conjE)
      fix now w
      assume "c = StartNext now" "r = Started (Some w)" "sw_id w = i" "sw_key w = k"
      then show ?thesis unfolding tr(1) using rest(2) by (metis append_Nil)
    qed (use rest(2) tr(1) in simp)
  qed
qed simp

lemma run_split:
  assumes "work_ok blake3 s" "run_calls blake3 cs s = Inr (pre @ (c, r) # post, t)"
  obtains u v where "run_calls blake3 (map fst pre) s = Inr (pre, u)" "work_ok blake3 u" "work_call blake3 c u = Inr (r, v)"
  using assms
proof (induction pre arbitrary: s cs thesis)
  case Nil
  then show ?case by (cases cs) (auto simp: result_simps split: prod.splits)
next
  case (Cons x pre)
  obtain d q where x: "x = (d, q)" by (cases x)
  obtain cs' where cs: "cs = d # cs'"
    using Cons.prems(3) x by (cases cs) (auto simp: result_simps split: prod.splits)
  obtain u where u: "work_call blake3 d s = Inr (q, u)" "run_calls blake3 cs' u = Inr (pre @ (c, r) # post, t)"
    using Cons.prems(3) by (auto simp: cs x result_simps split: prod.splits)
  have "work_ok blake3 u" using work_call_ok [OF Cons.prems(2), of d] u(1) by auto
  from Cons.IH [OF _ this u(2)] obtain v w where
    "run_calls blake3 (map fst pre) u = Inr (pre, v)" "work_ok blake3 v" "work_call blake3 c v = Inr (r, w)" by blast
  then show ?case using Cons.prems(1) u(1) by (simp add: x)
qed

section \<open>Waiting in a lane\<close>

text \<open>
  \<open>lane_wait c lane\<close> is how many places the cursor at \<open>c\<close> still passes before it comes to the lane, and
  \<open>ahead s i lane\<close> the number of jobs queued in the lane before \<open>i\<close>. Every start pays for itself out of
  \<open>waiting\<close>, so long as \<open>i\<close> stays queued.
\<close>

definition lane_wait :: "nat \<Rightarrow> nat \<Rightarrow> nat" where
  "lane_wait c lane = length (takeWhile (\<lambda>l. l \<noteq> lane) (drop c LANES @ take c LANES))"

definition ahead :: "NetworkWorkOwner \<Rightarrow> WorkId \<Rightarrow> nat \<Rightarrow> nat" where
  "ahead s i lane = length (filter (\<lambda>j. j < i) (nw_queues s ! lane))"

definition waiting :: "NetworkWorkOwner \<Rightarrow> WorkId \<Rightarrow> nat \<Rightarrow> nat" where
  "waiting s i lane = lane_wait (nw_cursor s) lane + 7 * ahead s i lane"

lemma lane_wait_le: "lane < 3 \<Longrightarrow> c < 7 \<Longrightarrow> lane_wait c lane \<le> 6"
proof -
  have "\<forall>c \<in> set [0..<7]. \<forall>lane \<in> set [0..<3]. lane_wait c lane \<le> 6"
    by code_simp
  then show "lane_wait c lane \<le> 6" if "lane < 3" "c < 7"
    using that by simp
qed

lemma lane_wait_skip: "lane < 3 \<Longrightarrow> c < 7 \<Longrightarrow> LANES ! c \<noteq> lane \<Longrightarrow> Suc (lane_wait (Suc c mod 7) lane) = lane_wait c lane"
proof -
  have "\<forall>c \<in> set [0..<7]. \<forall>lane \<in> set [0..<3]. LANES ! c = lane \<or> Suc (lane_wait (Suc c mod 7) lane) = lane_wait c lane"
    by code_simp
  then show "Suc (lane_wait (Suc c mod 7) lane) = lane_wait c lane" if "lane < 3" "c < 7" "LANES ! c \<noteq> lane"
    using that by fastforce
qed

lemma lane_wait_skips:
  assumes "lane < 3" "c < 7" "\<forall>k < j. LANES ! ((c + k) mod 7) \<noteq> lane"
  shows "lane_wait ((c + j) mod 7) lane + j = lane_wait c lane"
  using assms(3)
proof (induction j)
  case (Suc j)
  have "LANES ! ((c + j) mod 7) \<noteq> lane" using Suc.prems by blast
  then have "Suc (lane_wait (Suc ((c + j) mod 7) mod 7) lane) = lane_wait ((c + j) mod 7) lane"
    using lane_wait_skip [OF assms(1), of "(c + j) mod 7"] by simp
  then show ?case using Suc.IH Suc.prems by (simp add: mod_Suc_eq)
qed (use assms(2) in simp)

lemma ahead_card:
  assumes "work_ok blake3 s" "lane < 3"
  shows "ahead s i lane = card {j. j < i \<and> (\<exists>k. job s j = Some (k, Queued) \<and> lane_index (wk_lane k) = lane)}"
proof -
  have "distinct (nw_queues s ! lane)"
    using work_inv_parts(1) [OF assms(1)] assms(2) bs_ok_distinct by (auto simp: shape_ok_def)
  then have "ahead s i lane = card (set (filter (\<lambda>j. j < i) (nw_queues s ! lane)))"
    by (metis ahead_def distinct_card distinct_filter)
  also have "set (filter (\<lambda>j. j < i) (nw_queues s ! lane)) =
      {j. j < i \<and> (\<exists>k. job s j = Some (k, Queued) \<and> lane_index (wk_lane k) = lane)}"
    using work_inv_parts(4) [OF assms(1)] assms(2) by (auto simp: queues_ok_def job_Some)
  finally show ?thesis .
qed

lemma ahead_mono:
  assumes "work_ok blake3 s" "work_ok blake3 t" "lane < 3"
    and "\<And>j k. j < i \<Longrightarrow> job t j = Some (k, Queued) \<Longrightarrow> job s j = Some (k, Queued)"
  shows "ahead t i lane \<le> ahead s i lane"
proof -
  have fin: "finite {j. j < i \<and> (\<exists>k. job s j = Some (k, Queued) \<and> lane_index (wk_lane k) = lane)}"
    using work_inv_parts(4) [OF assms(1)] assms(3)
    by (intro finite_subset [OF _ finite_set [of "nw_queues s ! lane"]]) (auto simp: queues_ok_def job_Some)
  show ?thesis
    unfolding ahead_card [OF assms(1,3)] ahead_card [OF assms(2,3)]
    by (rule card_mono [OF fin]) (use assms(4) in blast)
qed

lemma WorkId_less: "i < j \<longleftrightarrow> wi_owner i < wi_owner j \<or> wi_owner i = wi_owner j \<and> wi_serial i < wi_serial j"
  by (cases i; cases j) (auto simp: less_WorkId_def)

text \<open>Work that enters later queues up behind.\<close>

lemma queued_before:
  assumes inv: "work_ok blake3 s" and call: "work_call blake3 c s = Inr (r, t)" and ok: "work_ok blake3 t"
    and i: "job s i = Some x" and j: "j < i" "job t j = Some (k, Queued)"
  shows "job s j = Some (k, Queued)"
proof -
  have old: "wi_serial j \<le> nw_serial s" if "job s j = None"
  proof -
    have "wi_owner j = nw_owner t" using job_known [OF ok j(2)] by simp
    moreover have "wi_owner i = nw_owner s" "wi_serial i \<le> nw_serial s" using job_known [OF inv i] by simp_all
    moreover have "nw_owner t = nw_owner s" using frame_step [OF inv call] by blast
    ultimately show ?thesis using j(1) by (simp add: WorkId_less)
  qed
  from job_moves [OF inv call, of j] j(2) old show ?thesis
    by (cases rule: job_move.cases) auto
qed

lemma waiting_start:
  assumes inv: "work_ok blake3 u" and ok: "work_ok blake3 t" and eff: "start_effect u (Some w) t"
    and i: "job u i = Some (k, Queued)" "job t i = Some (k, Queued)"
  shows "waiting t i (lane_index (wk_lane k)) < waiting u i (lane_index (wk_lane k))"
proof -
  let ?l = "lane_index (wk_lane k)"
  obtain j rest e where j: "j < 7" "\<forall>m < j. nw_queues u ! lane_after u m = []" "nw_queues u ! lane_after u j = sw_id w # rest"
    "work_at u (sw_id w) = Some e" "lane_index (wk_lane (en_key e)) = lane_after u j" "en_phase e = Queued"
    "t = begun ((nw_cursor u + Suc j) mod 7) (sw_id w) e u"
    using eff by (auto simp: start_effect_def)
  have c: "nw_cursor u < 7" using work_inv_parts(1) [OF inv] by (simp add: shape_ok_def)
  have in_lane: "i \<in> set (nw_queues u ! ?l)"
    using work_inv_parts(4) [OF inv] i(1) by (auto simp: queues_ok_def job_Some)
  have other: "sw_id w \<noteq> i" using i(2) j(7) by (auto split: if_splits)
  have mono: "job u m = Some (x, Queued)" if "job t m = Some (x, Queued)" for m x
    using that j(7) by (auto split: if_splits)
  show ?thesis
  proof (cases "lane_after u j = ?l")
    case True
    have "bs_ok (nw_queues u ! ?l)" using work_inv_parts(1) [OF inv] by (simp add: shape_ok_def)
    then have "sw_id w < i" using in_lane j(3) True other by (auto simp: bs_ok_def)
    then have q: "filter (\<lambda>m. m < i) (nw_queues u ! ?l) = sw_id w # filter (\<lambda>m. m < i) rest"
      using j(3) True by simp
    have "nw_queues t ! ?l = rest"
      using j(3,5,7) True work_inv_parts(1) [OF inv] by (simp add: begun_def shape_ok_def)
    then have "ahead u i ?l = Suc (ahead t i ?l)" using q by (simp add: ahead_def)
    moreover have "lane_wait (nw_cursor t) ?l \<le> 6" using j(7) by (simp add: lane_wait_le)
    ultimately show ?thesis by (simp add: waiting_def)
  next
    case False
    have "LANES ! ((nw_cursor u + m) mod 7) \<noteq> ?l" if "m < Suc j" for m
      using that False j(2) in_lane by (auto simp: less_Suc_eq lane_after_def)
    then have "lane_wait (nw_cursor t) ?l + Suc j = lane_wait (nw_cursor u) ?l"
      using lane_wait_skips [of ?l "nw_cursor u" "Suc j"] c j(7) by simp
    then show ?thesis using ahead_mono [OF inv ok lane_index_less, of i "wk_lane k"] mono by (simp add: waiting_def)
  qed
qed

lemma waiting_step:
  assumes inv: "work_ok blake3 s" and call: "work_call blake3 c s = Inr (r, t)"
    and i: "job s i = Some (k, Queued)" "job t i = Some (k, Queued)"
  shows "waiting t i (lane_index (wk_lane k)) + length (started_by (c, r)) \<le> waiting s i (lane_index (wk_lane k))"
proof -
  have ok: "work_ok blake3 t" using work_call_ok [OF inv, of c] call by auto
  have before: "ahead t i (lane_index (wk_lane k)) \<le> ahead s i (lane_index (wk_lane k))"
    using queued_before [OF inv call ok i(1)] by (intro ahead_mono [OF inv ok lane_index_less]) blast
  show ?thesis
  proof (cases "\<exists>w. r = Started (Some w)")
    case True
    then obtain w where w: "r = Started (Some w)" ..
    obtain now where c: "c = StartNext now" using started_reply [OF inv call [unfolded w]] by metis
    obtain u where u: "work_ok blake3 u" "wound_down (\<lambda>_ k. wk_deadline k \<le> now) s u" "start_effect u (Some w) t"
      by (rule start_next_ok [OF inv, of now]) (use call in \<open>auto simp: c w\<close>)
    have prior: "job s m = Some (x, Queued)" if "job u m = Some (x, Queued)" for m x
      using job_wound_down [OF u(2), of m] that by (auto split: option.splits if_splits)
    have "job u i = Some (k, Queued)"
      using u(3) i(2) by (auto simp: start_effect_def split: if_splits)
    then have "waiting t i (lane_index (wk_lane k)) < waiting u i (lane_index (wk_lane k))"
      by (rule waiting_start [OF u(1) ok u(3) _ i(2)])
    moreover have "waiting u i (lane_index (wk_lane k)) \<le> waiting s i (lane_index (wk_lane k))"
      using ahead_mono [OF inv u(1) lane_index_less, of i "wk_lane k"] prior wound_down_frame(4) [OF u(2)] by (simp add: waiting_def)
    ultimately show ?thesis by (simp add: w)
  next
    case False
    then have none: "started_by (c, r) = []" using started_by_Cons [of c r] by blast
    have "nw_cursor t = nw_cursor s"
    proof (cases "\<exists>now. c = StartNext now")
      case True
      then obtain now where c: "c = StartNext now" ..
      obtain u x where u: "wound_down (\<lambda>_ k. wk_deadline k \<le> now) s u" "start_effect u x t" "r = Started x"
        by (rule start_next_ok [OF inv, of now]) (use call in \<open>auto simp: c\<close>)
      then show ?thesis using False wound_down_frame(4) [OF u(1)] by (cases x) (auto simp: start_effect_def)
    qed (use frame_step [OF inv call] in blast)
    then show ?thesis using before none by (simp add: waiting_def)
  qed
qed

lemma still_queued:
  assumes "work_ok blake3 s" "run_calls blake3 cs s = Inr (tr, t)" "job t i = Some (k, Queued)" "wi_serial i \<le> nw_serial s"
  shows "job s i = Some (k, Queued)"
  using assms
proof (induction cs arbitrary: s tr)
  case (Cons c cs)
  obtain r u where u: "work_call blake3 c s = Inr (r, u)" "work_ok blake3 u"
    using work_call_ok [OF Cons.prems(1)] by blast
  then obtain tr' where tr: "run_calls blake3 cs u = Inr (tr', t)"
    using Cons.prems(2) by (auto simp: result_simps split: prod.splits)
  have "job u i = Some (k, Queued)"
    using Cons.IH [OF u(2) tr Cons.prems(3)] serial_mono [OF Cons.prems(1) u(1)] Cons.prems(4) by simp
  with job_moves [OF Cons.prems(1) u(1), of i] Cons.prems(4) show ?case
    by (cases rule: job_move.cases) auto
qed simp

lemma waiting_run:
  assumes "work_ok blake3 s" "run_calls blake3 cs s = Inr (tr, t)" "job s i = Some x" "job t i = Some (k, Queued)"
  shows "waiting t i (lane_index (wk_lane k)) + length (concat (map started_by tr)) \<le> waiting s i (lane_index (wk_lane k))"
  using assms
proof (induction cs arbitrary: s tr x)
  case (Cons c cs)
  obtain r u where u: "work_call blake3 c s = Inr (r, u)" "work_ok blake3 u"
    using work_call_ok [OF Cons.prems(1)] by blast
  then obtain tr' where tr: "tr = (c, r) # tr'" "run_calls blake3 cs u = Inr (tr', t)"
    using Cons.prems(2) by (auto simp: result_simps split: prod.splits)
  have known: "wi_serial i \<le> nw_serial s" using job_known [OF Cons.prems(1,3)] by simp
  have s: "job s i = Some (k, Queued)" by (rule still_queued [OF Cons.prems(1,2,4) known])
  have q: "job u i = Some (k, Queued)"
    using still_queued [OF u(2) tr(2) Cons.prems(4)] known serial_mono [OF Cons.prems(1) u(1)] by simp
  show ?case
    using Cons.IH [OF u(2) tr(2) q Cons.prems(4)] waiting_step [OF Cons.prems(1) u(1) s q] by (simp add: tr(1))
qed simp

lemma next_serial_code [code]:
  "next_serial s = (if int (nw_serial s) < 18446744073709551615
     then (Some (nw_serial s + 1), s\<lparr>nw_serial := nw_serial s + 1\<rparr>) else (None, s))"
  by (simp add: next_serial_def)

lemma new_owner_code [code]:
  "new_owner limits owner_sequence =
     rbind (expect ''network work owner identity exhausted''
       (if int owner_sequence < 18446744073709551615 then Some owner_sequence else None)) (\<lambda>owner.
     Inr (\<lparr>nw_owner = owner, nw_serial = 0, nw_limits = limits, nw_scopes = [], nw_entries = [],
       nw_keys = [], nw_deadlines = [], nw_queues = [[], [], []], nw_cancellations = [],
       nw_cursor = 0, nw_running = 0, nw_metadata_bytes = 0\<rparr>, owner_sequence + 1))"
  by (simp add: new_owner_def)

definition sample_limits :: WorkLimits where
  "sample_limits = \<lparr>wl_scopes = 1, wl_requests = 3, wl_waiters_per_request = 2, wl_metadata_bytes = 6, wl_running = 1\<rparr>"

definition sample_key :: "string \<Rightarrow> WorkLane \<Rightarrow> WorkKey" where
  "sample_key object lane = WorkKey (WorkScope 1 1) BlobWork object FetchMode StoreResult 100 30 lane"

definition sample_calls :: "WorkCall list" where
  "sample_calls = [RegisterScope, Admit (sample_key ''a'' Interactive) ''ab'' 0, Admit (sample_key ''b'' Background) ''cd'' 0,
     Admit (sample_key ''c'' Background) ''e'' 0, StartNext 1, Complete (WorkId 1 2) 5, StartNext 6, RevokeScope (WorkScope 1 1),
     NextCancellation, Complete (WorkId 1 3) 7]"

definition sample_owner :: NetworkWorkOwner where
  "sample_owner = \<lparr>nw_owner = 1, nw_serial = 0, nw_limits = sample_limits, nw_scopes = [], nw_entries = [],
     nw_keys = [], nw_deadlines = [], nw_queues = [[], [], []], nw_cancellations = [], nw_cursor = 0,
     nw_running = 0, nw_metadata_bytes = 0\<rparr>"

definition sample_run :: "WorkCall list \<Rightarrow> NetworkWorkOwner \<Rightarrow> (WorkCall \<times> WorkReply) list \<times> NetworkWorkOwner" where
  "sample_run cs s = (case run_calls (\<lambda>x. x) cs s of Inl _ \<Rightarrow> ([], s) | Inr p \<Rightarrow> p)"

lemma sample_new: "new_owner sample_limits 1 = Inr (sample_owner, 2)"
  by (simp add: new_owner_def sample_owner_def)

lemma sample_ok: "work_ok (\<lambda>x. x) sample_owner"
  by (rule new_owner_ok [OF sample_new])

lemma sample_run_eq: "work_ok (\<lambda>x. x) s \<Longrightarrow> run_calls (\<lambda>x. x) cs s = Inr (sample_run cs s) \<and> work_ok (\<lambda>x. x) (snd (sample_run cs s))"
  using run_calls_ok [of "\<lambda>x. x" s cs] by (auto simp: sample_run_def)

section \<open>What the owner promises\<close>

lemma run_frame:
  "work_ok blake3 s \<Longrightarrow> run_calls blake3 cs s = Inr (tr, t) \<Longrightarrow> work_ok blake3 t \<and> nw_limits t = nw_limits s"
proof (induction cs arbitrary: s tr)
  case (Cons c cs)
  obtain r u where u: "work_call blake3 c s = Inr (r, u)" "work_ok blake3 u"
    using work_call_ok [OF Cons.prems(1)] by blast
  then obtain tr' where tr: "run_calls blake3 cs u = Inr (tr', t)"
    using Cons.prems(2) by (auto simp: result_simps split: prod.splits)
  show ?case using Cons.IH [OF u(2) tr] frame_step [OF Cons.prems(1) u(1)] by simp
qed simp

lemma new_owner_limits: "new_owner limits n = Inr (s, n') \<Longrightarrow> nw_limits s = limits \<and> nw_entries s = []"
  by (auto simp: new_owner_def result_simps)

lemma sum_list_le_length: "(\<And>x. x \<in> set xs \<Longrightarrow> f x \<le> b) \<Longrightarrow> sum_list (map f xs) \<le> length xs * (b :: nat)"
  by (induction xs) (auto intro: add_mono)

lemma length_filter_mono: "(\<And>x. P x \<Longrightarrow> Q x) \<Longrightarrow> length (filter P xs) \<le> length (filter Q xs)"
  by (induction xs) (auto intro: le_SucI)

lemma usage_bounds:
  assumes inv: "work_ok blake3 s"
  shows "wu_scopes (usage s) \<le> wl_scopes (nw_limits s)" "wu_requests (usage s) \<le> wl_requests (nw_limits s)"
    "wu_running (usage s) \<le> wl_running (nw_limits s)" "wu_metadata_bytes (usage s) \<le> wl_metadata_bytes (nw_limits s)"
    "wu_waiters (usage s) \<le> wl_requests (nw_limits s) * wl_waiters_per_request (nw_limits s)"
    "wu_stopping (usage s) \<le> wu_running (usage s)"
    "wu_running (usage s) = length (filter (\<lambda>e. en_phase e \<noteq> Queued) (bm_values (nw_entries s)))"
    "wu_metadata_bytes (usage s) = sum_list (map en_metadata_bytes (bm_values (nw_entries s)))"
    "distinct (map en_key (bm_values (nw_entries s)))"
proof -
  note p = work_inv_parts [OF inv]
  show "wu_scopes (usage s) \<le> wl_scopes (nw_limits s)" "wu_requests (usage s) \<le> wl_requests (nw_limits s)"
    "wu_running (usage s) \<le> wl_running (nw_limits s)" "wu_metadata_bytes (usage s) \<le> wl_metadata_bytes (nw_limits s)"
    using p(9) by (simp_all add: usage_def limits_ok_def)
  show run: "wu_running (usage s) = length (filter (\<lambda>e. en_phase e \<noteq> Queued) (bm_values (nw_entries s)))"
  proof -
    have "in_flight = (\<lambda>e. if en_phase e \<noteq> Queued then 1 else 0)" by (auto simp: in_flight_def)
    then show ?thesis using p(8) by (simp add: usage_def counts_ok_def bm_count_total)
  qed
  show "wu_stopping (usage s) \<le> wu_running (usage s)"
    unfolding run by (simp add: usage_def) (rule length_filter_mono, simp)
  show "wu_metadata_bytes (usage s) = sum_list (map en_metadata_bytes (bm_values (nw_entries s)))"
    using p(8) by (simp add: usage_def counts_ok_def bm_total_def)
  have "length (en_waiters e) \<le> wl_waiters_per_request (nw_limits s)" if "e \<in> set (bm_values (nw_entries s))" for e
    using that p(1,7) by (fastforce simp: bm_values_def shape_ok_def entries_ok_def entry_ok_def bm_get_iff)
  then have "wu_waiters (usage s) \<le> length (bm_values (nw_entries s)) * wl_waiters_per_request (nw_limits s)"
    by (simp add: usage_def sum_list_le_length)
  then show "wu_waiters (usage s) \<le> wl_requests (nw_limits s) * wl_waiters_per_request (nw_limits s)"
    using p(9) by (simp add: limits_ok_def bm_values_def) (meson le_trans mult_le_mono1)
  show "distinct (map en_key (bm_values (nw_entries s)))"
  proof -
    have ok: "bm_ok (nw_entries s)" using p(1) by (simp add: shape_ok_def)
    then have "inj_on (\<lambda>x. en_key (snd x)) (set (nw_entries s))"
      using key_unique [OF p(2)] by (fastforce simp: inj_on_def bm_get_iff [symmetric])
    then show ?thesis
      using bm_ok_distinct [OF ok] by (simp add: bm_values_def distinct_map comp_def)
  qed
qed

lemma cancel_work_running: "cancel_work i s = Inr t \<Longrightarrow> nw_running t = nw_running s"
  by (auto simp: cancel_work_def remove_work_def Let_def result_simps split: option.splits if_splits)

lemma expire_running: "expire now s = Inr t \<Longrightarrow> nw_running t = nw_running s"
proof (induction now s rule: expire.induct)
  case (1 now s)
  show ?case
  proof (cases "nw_deadlines s")
    case Nil
    then show ?thesis using 1(2) by (simp add: expire.simps [of now s])
  next
    case (Cons p rest)
    obtain d i where p: "p = (d, i)" by (cases p)
    show ?thesis
    proof (cases "d > now")
      case False
      then obtain u where u: "cancel_work i (s\<lparr>nw_deadlines := rest\<rparr>) = Inr u" "expire now u = Inr t"
        using 1(2) Cons p by (auto simp: expire.simps [of now s] result_simps)
      show ?thesis
        using 1(1) [OF Cons p [symmetric] False u] cancel_work_running [OF u(1)] by simp
    qed (use 1(2) Cons p in \<open>simp add: expire.simps [of now s]\<close>)
  qed
qed

text \<open>
  C9. Over every sequence of calls on a new owner, no call panics: no \<open>expect\<close>, no index and no
  subtraction of \<^verbatim>\<open>work_admission.rs\<close> fails. The scopes, requests, started jobs, metadata bytes and
  waiters stay within the limits it was made with, the counters it keeps beside the entries are exact, and no two
  jobs have the same key. (Times are numbers without a bound, so that adding to an \<open>Instant\<close> does not overflow.)
\<close>

theorem network_work_stays_within_limits:
  assumes "new_owner limits n = Inr (s, n')"
  shows "\<exists>tr t. run_calls blake3 cs s = Inr (tr, t)
    \<and> wu_scopes (usage t) \<le> wl_scopes limits \<and> wu_requests (usage t) \<le> wl_requests limits
    \<and> wu_running (usage t) \<le> wl_running limits \<and> wu_metadata_bytes (usage t) \<le> wl_metadata_bytes limits
    \<and> wu_waiters (usage t) \<le> wl_requests limits * wl_waiters_per_request limits
    \<and> wu_stopping (usage t) \<le> wu_running (usage t)
    \<and> wu_running (usage t) = length (filter (\<lambda>e. en_phase e \<noteq> Queued) (bm_values (nw_entries t)))
    \<and> wu_metadata_bytes (usage t) = sum_list (map en_metadata_bytes (bm_values (nw_entries t)))
    \<and> distinct (map en_key (bm_values (nw_entries t)))"
proof -
  have ok: "work_ok blake3 s" by (rule new_owner_ok [OF assms])
  obtain tr t where t: "run_calls blake3 cs s = Inr (tr, t)" "work_ok blake3 t"
    using run_calls_ok [OF ok] by blast
  have "nw_limits t = limits" using run_frame [OF ok t(1)] new_owner_limits [OF assms] by simp
  then show ?thesis using t(1) usage_bounds [OF t(2)] by auto
qed

theorem network_work_stays_within_limits_witness:
  "\<exists>tr t. run_calls (\<lambda>x. x) sample_calls sample_owner = Inr (tr, t) \<and> wu_running (usage t) \<le> wl_running sample_limits"
  using network_work_stays_within_limits [OF sample_new, of "\<lambda>x. x" sample_calls] by auto

text \<open>
  C6. Over every sequence of calls on a new owner, a job is started at most once, finished at most
  once and told to stop at most once, and only jobs that were started are finished or told to stop. A completion
  is answered with \<open>Publish\<close> only for a job that was started, before its deadline, when since its start its
  scope was not revoked, no call came at or after its deadline, and it was neither told to stop nor
  completed.
\<close>

theorem results_published_once:
  assumes new: "new_owner limits n = Inr (s, n')" and run: "run_calls blake3 cs s = Inr (tr, t)"
  shows "distinct (concat (map started_by tr)) \<and> distinct (concat (map finished_by tr)) \<and> distinct (concat (map told_by tr))
    \<and> set (concat (map finished_by tr)) \<union> set (concat (map told_by tr)) \<subseteq> set (concat (map started_by tr))
    \<and> (\<forall>pre i now post. tr = pre @ (Complete i now, Completion Publish) # post \<longrightarrow>
        (\<exists>a t0 w b. pre = a @ (StartNext t0, Started (Some w)) # b \<and> sw_id w = i \<and> now < wk_deadline (sw_key w)
          \<and> (\<forall>x \<in> set b. \<not> ends_work i (sw_key w) x)))"
proof -
  have ok: "work_ok blake3 s" by (rule new_owner_ok [OF new])
  have idle: "\<not> active s i" for i using new_owner_limits [OF new] by (simp add: active_def job_def)
  have origin: "set (concat (map finished_by tr)) \<union> set (concat (map told_by tr)) \<subseteq> set (concat (map started_by tr))"
    using run_active_origin [OF ok run, of _ finished_by] finished_active
      run_active_origin [OF ok run, of _ told_by] told_active idle by blast
  have "\<exists>a t0 w b. pre = a @ (StartNext t0, Started (Some w)) # b \<and> sw_id w = i \<and> now < wk_deadline (sw_key w)
      \<and> (\<forall>x \<in> set b. \<not> ends_work i (sw_key w) x)" if tr: "tr = pre @ (Complete i now, Completion Publish) # post" for pre i now post
  proof -
    obtain u v where u: "run_calls blake3 (map fst pre) s = Inr (pre, u)" "work_ok blake3 u"
      "work_call blake3 (Complete i now) u = Inr (Completion Publish, v)"
      by (rule run_split [OF ok run [unfolded tr]])
    obtain k where k: "job u i = Some (k, Running)" "now < wk_deadline k"
      by (rule finished_reply [OF u(2,3)]) auto
    have "job s i = None" using new_owner_limits [OF new] by (simp add: job_def)
    then show ?thesis using running_since [OF ok u(1) k(1)] k(2) by force
  qed
  then show ?thesis
    using starts.run_once [OF ok run] finishes.run_once [OF ok run] stops.run_once [OF ok run] origin by blast
qed

theorem results_published_once_witness:
  "(Complete (WorkId 1 2) 5, Completion Publish) \<in> set (fst (sample_run sample_calls sample_owner))
    \<and> concat (map started_by (fst (sample_run sample_calls sample_owner))) = [WorkId 1 2, WorkId 1 3]
    \<and> concat (map told_by (fst (sample_run sample_calls sample_owner))) = [WorkId 1 3]
    \<and> distinct (concat (map finished_by (fst (sample_run sample_calls sample_owner))))"
proof -
  have "run_calls (\<lambda>x. x) sample_calls sample_owner = Inr (fst (sample_run sample_calls sample_owner), snd (sample_run sample_calls sample_owner))"
    using sample_run_eq [OF sample_ok, of sample_calls] by simp
  note published = results_published_once [OF sample_new this]
  have "(Complete (WorkId 1 2) 5, Completion Publish) \<in> set (fst (sample_run sample_calls sample_owner))" by code_simp
  moreover have "concat (map started_by (fst (sample_run sample_calls sample_owner))) = [WorkId 1 2, WorkId 1 3]" by code_simp
  moreover have "concat (map told_by (fst (sample_run sample_calls sample_owner))) = [WorkId 1 3]" by code_simp
  ultimately show ?thesis using published by simp
qed

text \<open>
  C7. A job that is still queued after any sequence of calls has seen at most
  \<open>6 + 7 * m\<close> jobs started since, where \<open>m\<close> jobs of its lane were queued before it: no lane starves and
  a lane is served in order. And as long as fewer jobs than allowed are in flight and it has not expired,
  \<open>start_next\<close> does start a job.
\<close>

theorem queued_work_is_served:
  assumes new: "new_owner limits n = Inr (s0, n')" and before: "run_calls blake3 cs0 s0 = Inr (tr0, s)"
    and run: "run_calls blake3 cs s = Inr (tr, t)"
    and i: "bm_get (nw_entries s) i = Some e" "bm_get (nw_entries t) i = Some f" "en_phase f = Queued"
  shows "length (concat (map started_by tr))
      \<le> 6 + 7 * length (filter (\<lambda>j. j < i) (nw_queues s ! lane_index (wk_lane (en_key e))))
    \<and> (nw_running t < wl_running limits \<and> now < wk_deadline (en_key f) \<longrightarrow> (\<exists>w u. start_next now t = Inr (Some w, u)))"
proof -
  have ok: "work_ok blake3 s" and lim: "nw_limits s = limits"
    using run_frame [OF new_owner_ok [OF new] before] new_owner_limits [OF new] by simp_all
  have okt: "work_ok blake3 t" and limt: "nw_limits t = limits" using run_frame [OF ok run] lim by simp_all
  have jobs: "job s i = Some (en_key e, en_phase e)" "job t i = Some (en_key f, Queued)" using i by (simp_all add: job_Some)
  have "wi_serial i \<le> nw_serial s" using job_known [OF ok jobs(1)] by simp
  then have same: "en_key f = en_key e" using still_queued [OF ok run jobs(2)] jobs(1) by simp
  have "nw_cursor s < 7" using work_inv_parts(1) [OF ok] by (simp add: shape_ok_def)
  then have "waiting s i (lane_index (wk_lane (en_key e)))
      \<le> 6 + 7 * length (filter (\<lambda>j. j < i) (nw_queues s ! lane_index (wk_lane (en_key e))))"
    using lane_wait_le [OF lane_index_less] by (simp add: waiting_def ahead_def)
  moreover have "\<exists>w u. start_next now t = Inr (Some w, u)" if room: "nw_running t < wl_running limits" "now < wk_deadline (en_key f)"
  proof -
    obtain u r v where u: "expire now t = Inr u" "wound_down (\<lambda>_ k. wk_deadline k \<le> now) t u"
      "start_next now t = Inr (r, v)" "start_effect u r v"
      using start_next_ok [OF okt, of now] by metis
    have "work_at u i = Some f" using wound_down_at [OF u(2), of i] i(2) room(2) by simp
    then have "r \<noteq> None"
      using u(4) i(3) room(1) expire_running [OF u(1)] wound_down_frame(3) [OF u(2)] limt
      by (cases r) (auto simp: start_effect_def)
    then show ?thesis using u(3) by auto
  qed
  ultimately show ?thesis using waiting_run [OF ok run jobs] same by auto
qed

theorem queued_work_is_served_witness:
  "length (concat (map started_by (fst (sample_run [StartNext 1, Complete (WorkId 1 2) 2, StartNext 3] (snd (sample_run (take 4 sample_calls) sample_owner)))))) \<le> 13"
proof -
  let ?s = "snd (sample_run (take 4 sample_calls) sample_owner)"
  let ?r = "sample_run [StartNext 1, Complete (WorkId 1 2) 2, StartNext 3] ?s"
  have "map_option en_key (bm_get (nw_entries ?s) (WorkId 1 4)) = Some (sample_key ''c'' Background)" by code_simp
  then obtain e where e: "bm_get (nw_entries ?s) (WorkId 1 4) = Some e" "en_key e = sample_key ''c'' Background" by auto
  have "map_option en_phase (bm_get (nw_entries (snd ?r)) (WorkId 1 4)) = Some Queued" by code_simp
  then obtain f where f: "bm_get (nw_entries (snd ?r)) (WorkId 1 4) = Some f" "en_phase f = Queued" by auto
  have ahead: "filter (\<lambda>j. j < WorkId 1 4) (nw_queues ?s ! 2) = [WorkId 1 3]" by code_simp
  have run: "run_calls (\<lambda>x. x) (take 4 sample_calls) sample_owner = Inr (fst (sample_run (take 4 sample_calls) sample_owner), ?s)"
    and ok: "work_ok (\<lambda>x. x) ?s"
    using sample_run_eq [OF sample_ok] by simp_all
  have "run_calls (\<lambda>x. x) [StartNext 1, Complete (WorkId 1 2) 2, StartNext 3] ?s = Inr (fst ?r, snd ?r)"
    using sample_run_eq [OF ok] by simp
  from queued_work_is_served [OF sample_new run this e(1) f(1,2), of 4] show ?thesis
    using ahead by (simp add: e(2) sample_key_def)
qed

text \<open>
  C23. Revoking a scope ends exactly the work of that scope: its queued jobs are gone, its running
  jobs are stopping and the executor will be told, its stopping jobs and every job of another scope are as they
  were; afterwards every admission for the scope is denied.
\<close>

theorem revoked_scope_is_wound_down:
  assumes new: "new_owner limits n = Inr (s0, n')" and run: "run_calls blake3 cs s0 = Inr (tr, s)"
  shows "\<exists>t. revoke_scope scope s = Inr t
    \<and> (\<forall>i. case bm_get (nw_entries s) i of
          None \<Rightarrow> bm_get (nw_entries t) i = None
        | Some e \<Rightarrow>
            if wk_scope (en_key e) \<noteq> scope then bm_get (nw_entries t) i = Some e
            else (case en_phase e of
                Queued \<Rightarrow> bm_get (nw_entries t) i = None
              | Running \<Rightarrow> bm_get (nw_entries t) i = Some (e\<lparr>en_phase := Stopping\<rparr>) \<and> i \<in> set (nw_cancellations t)
              | Stopping \<Rightarrow> bm_get (nw_entries t) i = Some e))
    \<and> (\<forall>key metadata now. wk_scope key = scope \<longrightarrow>
        (\<exists>u. expire now t = Inr u \<and> admit blake3 key metadata now t = Inr (Denied InactiveScope, u)))"
proof -
  have ok: "work_ok blake3 s" using run_frame [OF new_owner_ok [OF new] run] by simp
  obtain t where t: "revoke_scope scope s = Inr t" "work_ok blake3 t"
    "wound_down (\<lambda>_ k. wk_scope k = scope) (s\<lparr>nw_scopes := bm_remove scope (nw_scopes s)\<rparr>) t"
    using revoke_scope_ok [OF ok] by blast
  have "\<not> bm_contains (nw_scopes t) scope"
    using wound_down_frame(5) [OF t(3)] by (simp add: bm_contains_def)
  then have "\<exists>u. expire now t = Inr u \<and> admit blake3 key metadata now t = Inr (Denied InactiveScope, u)"
    if "wk_scope key = scope" for key metadata now
    using expire_ok [OF t(2), of now] that by (auto simp: admit_def admission_denied_def dest: wound_down_frame(5))
  moreover have "case bm_get (nw_entries s) i of
          None \<Rightarrow> bm_get (nw_entries t) i = None
        | Some e \<Rightarrow>
            if wk_scope (en_key e) \<noteq> scope then bm_get (nw_entries t) i = Some e
            else (case en_phase e of
                Queued \<Rightarrow> bm_get (nw_entries t) i = None
              | Running \<Rightarrow> bm_get (nw_entries t) i = Some (e\<lparr>en_phase := Stopping\<rparr>) \<and> i \<in> set (nw_cancellations t)
              | Stopping \<Rightarrow> bm_get (nw_entries t) i = Some e)" for i
    using t(3) wound_down_at [OF t(3), of i] by (auto simp: wound_down_def wind_def split: option.splits Phase.splits)
  ultimately show ?thesis using t(1) by blast
qed

theorem revoked_scope_is_wound_down_witness:
  "\<exists>t. revoke_scope (WorkScope 1 1) (snd (sample_run (take 7 sample_calls) sample_owner)) = Inr t
    \<and> bm_get (nw_entries t) (WorkId 1 4) = None \<and> WorkId 1 3 \<in> set (nw_cancellations t)"
proof -
  let ?s = "snd (sample_run (take 7 sample_calls) sample_owner)"
  have run: "run_calls (\<lambda>x. x) (take 7 sample_calls) sample_owner = Inr (fst (sample_run (take 7 sample_calls) sample_owner), ?s)"
    using sample_run_eq [OF sample_ok] by simp
  have "map_option (\<lambda>e. (wk_scope (en_key e), en_phase e)) (bm_get (nw_entries ?s) (WorkId 1 4)) = Some (WorkScope 1 1, Queued)"
    "map_option (\<lambda>e. (wk_scope (en_key e), en_phase e)) (bm_get (nw_entries ?s) (WorkId 1 3)) = Some (WorkScope 1 1, Running)"
    by code_simp+
  then obtain e f where e: "bm_get (nw_entries ?s) (WorkId 1 4) = Some e" "wk_scope (en_key e) = WorkScope 1 1" "en_phase e = Queued"
    and f: "bm_get (nw_entries ?s) (WorkId 1 3) = Some f" "wk_scope (en_key f) = WorkScope 1 1" "en_phase f = Running"
    by auto
  obtain t where t: "revoke_scope (WorkScope 1 1) ?s = Inr t"
    "\<forall>i. case bm_get (nw_entries ?s) i of
          None \<Rightarrow> bm_get (nw_entries t) i = None
        | Some e \<Rightarrow>
            if wk_scope (en_key e) \<noteq> WorkScope 1 1 then bm_get (nw_entries t) i = Some e
            else (case en_phase e of
                Queued \<Rightarrow> bm_get (nw_entries t) i = None
              | Running \<Rightarrow> bm_get (nw_entries t) i = Some (e\<lparr>en_phase := Stopping\<rparr>) \<and> i \<in> set (nw_cancellations t)
              | Stopping \<Rightarrow> bm_get (nw_entries t) i = Some e)"
    using revoked_scope_is_wound_down [OF sample_new run, of "WorkScope 1 1"] by blast
  show ?thesis using t(1) spec [OF t(2), of "WorkId 1 4"] spec [OF t(2), of "WorkId 1 3"] e f by simp
qed

end
