(* ===== verification/Spec2Isabelle.thy ===== *)
theory Spec2Isabelle
  imports Posts Session_Replay Session_Safety Time_Pages Work_Runs
begin

text \<open>
  \<^bold>\<open>kukuri: a verification of its core.\<close>

  kukuri is a social network without a central server. Devices exchange signed records, keep them in
  replicated documents, and meet in Domes, small three-dimensional places that one device hosts for the
  others. This development models the parts of the Rust code that decide things: what a record means, who may
  do what, which state follows from a set of records, and what a host, a store or a scheduler does with the
  next call. The theories follow the crates under \<^verbatim>\<open>src/crates\<close>.

  \<^bold>\<open>How the code is modelled.\<close> A struct is a record with the fields of the source, an enum a datatype, a
  function a definition with the same name and the same order of checks. A Rust \<open>String\<close> is the list of its
  UTF-8 bytes. Unsigned integers are natural numbers and \<open>i64\<close> is \<open>int\<close>; where nothing in the code bounds the
  operands, the wrap-around of a release build (\<open>wrap_i64\<close>), a saturating or a checked operation is written
  out. \<open>anyhow::Result\<close> is \<open>kerror + 'a\<close>; a panic (\<open>expect\<close>, an index, an unsigned subtraction) is an error
  value of its own, so that its absence is a theorem. A method on \<open>&mut self\<close> is a function from the state to
  the result and the state it leaves, also when it fails. \<open>BTreeMap\<close> and \<open>BTreeSet\<close> are sorted lists, and so is a
  \<open>HashMap\<close> that is only looked up; the \<open>HashMap\<close> of a replica's rows, which the queries iterate over, is a list of
  distinct keys in any order.

  \<^bold>\<open>The shared library.\<close>
  \<^item> \<open>Kukuri_Prelude\<close>: errors and results with the collections \<open>result_simps\<close> and \<open>no_panic_rules\<close>, machine
    integers, options and indexing, and methods on a state as functions (\<open>host_op\<close>).
  \<^item> \<open>Rust_Strings\<close>: \<open>trim\<close> over Unicode white space, character counts, ASCII classes, decimal text and its
    parser with their round trip.
  \<^item> \<open>Rust_Collections\<close>: the maps and sets, behind the locales \<open>ordered_map\<close> and \<open>ordered_set\<close>, interpreted on
    the sorted lists as \<open>btm\<close> and \<open>bts\<close>.

  \<^bold>\<open>Signed records\<close> (\<^verbatim>\<open>crates/core\<close>).
  \<^item> \<open>Envelope\<close> (\<^verbatim>\<open>envelope.rs\<close>, \<^verbatim>\<open>crypto.rs\<close>, \<^verbatim>\<open>ids.rs\<close>, \<^verbatim>\<open>wire.rs\<close>): building, signing and verifying an envelope.
    A verified envelope commits to its signer, time, kind, tags and content, and a signed document reads back.
  \<^item> \<open>Channels\<close> (\<^verbatim>\<open>public_channels.rs\<close>, and the references and scopes of \<^verbatim>\<open>posts.rs\<close> and \<^verbatim>\<open>live.rs\<close>): identifiers
    print and parse back; channel metadata is accepted from the creator the id names and from nobody else.
  \<^item> \<open>Posts\<close> (\<^verbatim>\<open>posts.rs\<close>, \<^verbatim>\<open>media.rs\<close>): the readers and builders of posts, reposts and withdrawals. Replies keep
    their root, a withdrawal is its author's.
  \<^item> \<open>Private_Channels\<close> (\<^verbatim>\<open>private_channels.rs\<close>): invitations, grants and shares behind the locale
    \<open>channel_token\<close> (interpreted as \<open>invite_tok\<close>, \<open>grant_tok\<close>, \<open>share_tok\<close>), policies, participants, the handover
    of an epoch's secret and sealed key rows.

  \<^bold>\<open>Domes\<close> (\<^verbatim>\<open>crates/core\<close>).
  \<^item> \<open>Resource_Budget\<close> (\<^verbatim>\<open>metaverse_resource_budget.rs\<close>): inspection of an uploaded asset and the check of an
    asset list; the sums the code accepts are the true sums and within the budget.
  \<^item> \<open>Dome_Model\<close> (\<^verbatim>\<open>game.rs\<close>, \<^verbatim>\<open>game_assets.rs\<close>, \<^verbatim>\<open>dome_envelopes.rs\<close>, \<^verbatim>\<open>metaverse_audio.rs\<close>): manifests, their
    validators, rooms, interpolation; an accepted customization is inside the Dome, up to the coordinates where
    its arithmetic wraps.
  \<^item> \<open>Dome_Topology\<close> (\<^verbatim>\<open>dome_connections.rs\<close>): agreements between owners and the resolution of a set of connection
    records. The order respects what each record observed and does not depend on the delivery; the components
    partition the instances, with coordinates that agree with every connection; no input makes it panic (the
    \<open>expect\<close> on the serialization of a record belongs to its digest, a total argument of the model).
  \<^item> \<open>Dome_Hosting\<close> (\<^verbatim>\<open>dome_hosting.rs\<close>, \<^verbatim>\<open>dome_recovery.rs\<close>, \<^verbatim>\<open>dome_layout.rs\<close>): the lease of a Dome. The nine kinds
    of signed contents share the locale \<open>authenticated_record\<close>. Resolving a list of records refines an abstract
    function of their set, and a hosted state rests on the signatures of owner and host.
  \<^item> \<open>Dome_Transition\<close> (\<^verbatim>\<open>dome_transition.rs\<close>, \<^verbatim>\<open>dome_session.rs\<close>): requests, tickets, proofs of access, the phases
    of a transition as a state machine, and the geometry of the zone between two Domes.

  \<^bold>\<open>The host of a session\<close> (\<^verbatim>\<open>crates/metaverse-host\<close>). \<open>Host_Support\<close> has the input ledger, rate windows and
  limits of \<^verbatim>\<open>support.rs\<close>, \<open>Session_Host\<close> every operation of \<open>DomeSessionRuntime\<close> (\<^verbatim>\<open>lib.rs\<close>, \<^verbatim>\<open>transition.rs\<close>).
  \<open>Session_Invariant\<close> shows what all of them keep, through the locale \<open>time_invariant\<close> for the passage of time
  (interpreted as \<open>presence\<close>, \<open>books\<close>, \<open>following\<close>, \<open>gone\<close>), and defines the runs of a session.
  \<open>Session_Safety\<close> has the properties of all reachable states, of refused inputs, of silent participants and of
  the snapshot stream, where a client one snapshot behind the ring is found to get the newest alone; \<open>Session_Replay\<close> shows that an input is accepted once. \<open>Session_Sample\<close> is the concrete
  session on which they are evaluated.

  \<^bold>\<open>Replicated documents\<close> (\<^verbatim>\<open>crates/docs-sync\<close>). \<open>Docs_Sync\<close> has key families, replica names, time buckets,
  access and the in-memory store, which refines a map per replica whatever order its hash table has. \<open>Time_Index\<close> and \<open>Time_Pages\<close> have the reading of
  time indexes in bounded pages: in the locale \<open>key_listing\<close>, interpreted on the two listings of the store
  (\<open>memory\<close>, \<open>authored\<close>), every page holds exactly the next entries, for up to 32 keys of another shape in a second
  and up to 512 keys in the second of the cursor.

  \<^bold>\<open>Admission of network work\<close> (\<^verbatim>\<open>crates/transport/src/work_admission.rs\<close>). \<open>Network_Work\<close> has
  \<open>NetworkWorkOwner\<close> with all its operations, \<open>Work_Invariant\<close> the agreement of its indexes, counters and limits
  with its entries, kept by every call, and \<open>Work_Runs\<close> the life of a job as a step relation. The locale \<open>once\<close>,
  interpreted for starting, finishing and being told to stop (\<open>starts\<close>, \<open>finishes\<close>, \<open>stops\<close>), shows that each
  happens to a job at most once; a potential bounds how long queued work waits.

  \<^bold>\<open>How the parts interact.\<close> Everything on the network is an envelope: \<open>Channels\<close>, \<open>Posts\<close>, \<open>Private_Channels\<close> and
  the Dome theories build and read their records through \<open>Envelope\<close>. \<open>Dome_Transition\<close> joins topology, hosting
  and private channels, since a proof of access to a channel carries the channel's documents. \<open>Session_Host\<close>
  runs the session that \<open>Dome_Hosting\<close> leased, with the budgets of \<open>Resource_Budget\<close> and the tickets of
  \<open>Dome_Transition\<close>. \<open>Docs_Sync\<close> stores the keys of \<open>Posts\<close> under the replicas of channels and epochs.

  \<^bold>\<open>Parameters and hypotheses.\<close> Third-party code is never defined. The curve, hash and cipher functions and the
  \<open>serde_json\<close> codecs are fields of \<open>crypto_lib\<close>, \<open>channel_lib\<close>, \<open>host_lib\<close> and the other library records; \<open>rapier3d\<close>
  is the record \<open>rapier\<close> over an abstract world, \<open>f32\<close> a record of its operations, \<open>blake3\<close> and the digests are
  functions. What a theorem needs of them (a codec decodes what it encoded, a signature made with a key verifies,
  a digest has no collision among the records at hand) is its named hypothesis, and its witness instantiates them
  with concrete functions. Clocks, random nonces and generated ids are arguments. An \<open>Instant\<close> is its nanoseconds;
  the panic of \<open>Instant + Duration\<close> at the end of the platform's range is left out.

  \<^bold>\<open>Bounds and termination.\<close> No definition uses fuel: every loop of the code is a recursion with a termination
  proof. The walk over a time index splits a decimal prefix of at most 21 characters into ten longer ones, so the
  weight \<open>11 ^ (21 - length)\<close> of what is pending decreases; that a page needs at most 257 listings and a window 258 is
  proved from the page limits of the code. \<open>expire\<close> removes a deadline each time, \<open>order_loop\<close> a
  remaining record, \<open>coordinate_loop\<close> an edge or an instance. The lanes of the scheduler are the seven entries of
  \<open>LANES\<close>, which gives the waiting bound of seven starts per job ahead and six more. The ring of a session has 100
  snapshots and a participant is silent after thirty seconds, as in the source.

  \<^bold>\<open>Not modelled.\<close>
  \<^item> Network, disk and processes: \<^verbatim>\<open>iroh-node\<close>, the rest of \<^verbatim>\<open>transport\<close>, \<^verbatim>\<open>webrtc-transport\<close>, \<^verbatim>\<open>blob-service\<close>,
    \<^verbatim>\<open>docs-sync\<close> over iroh, \<^verbatim>\<open>cn-iroh-relay\<close>, \<^verbatim>\<open>cn-stun\<close>, the runtimes, the command lines and the desktop application:
    they call libraries and wait for them, and what they decide is in the modelled crates or depends on timing.
  \<^item> Stores over SQL and a graph database (\<^verbatim>\<open>store\<close>, \<^verbatim>\<open>cn-core\<close>, \<^verbatim>\<open>cn-indexer\<close>): the logic is in the queries.
  \<^item> The safety pipeline of a Community Node (\<^verbatim>\<open>cn-safety\<close>, \<^verbatim>\<open>cn-safety-runtime\<close>) and the clients of external services (\<^verbatim>\<open>cn-safety-arachnid\<close>, \<^verbatim>\<open>cn-safety-openai\<close>, \<^verbatim>\<open>cn-safety-vlm\<close>, \<^verbatim>\<open>cn-safety-video\<close>).
  \<^item> Of \<^verbatim>\<open>crates/core\<close>: direct messages, device backup, account transfer, identity export (framing around ciphers),
    profiles, reactions, link previews, trust observations, rendezvous, receive offers and account synchronisation,
    which have validators of their own, and the frames of a Live.
  \<^item> Concurrency inside a process: the locks of the code serialise the operations modelled here, so a run is a
    sequence of calls. The iroh subscriptions of \<open>Docs_Sync\<close> are reduced to the number of notices a reader skipped.
\<close>

end
